(* ===== verification/Oar_Prelude.thy ===== *)
theory Oar_Prelude
  imports Main "HOL-Library.AList" "HOL-Library.Sublist"
begin

text \<open>
  Shared vocabulary of the development: Python exceptions as values, the result type that
  carries them, list and dictionary access as Python does it, and the generic lemmas on lists
  and results that the component theories use.

  \<^item> \<open>py_error\<close> lists the exceptions a modelled function can raise; \<open>Diverges\<close> is not an
    exception: it is the value of a loop that ran out of the fuel it was given. \<open>Unmodelled\<close> is the
    value of a run that leaves the types of the model (a float where a column holds an integer).
  \<^item> \<open>'a res\<close> is \<open>py_error + 'a\<close>; \<open>res_bind\<close> is Python's sequencing (the first exception ends
    the computation), \<open>fold_res\<close> a \<open>for\<close> loop whose body may raise, \<open>map_res\<close> a list built by
    such a loop.
  \<^item> \<open>nth_res\<close> is \<open>xs[i]\<close>, \<open>lookup_res\<close> is \<open>d[k]\<close>.
\<close>

named_theorems res_simps \<open>inversion of results that did not raise\<close>

section \<open>Exceptions and results\<close>

datatype py_error =
    IndexError | KeyError | TypeError | ValueError | ZeroDivisionError
  | AttributeError | UnboundLocalError | NoResultFound | MultipleResultsFound
  | NotImplementedError | NameError | Raised_exception | Unmodelled
  | SystemExit | Diverges

type_synonym 'a res = "py_error + 'a"

definition res_bind :: "'a res \<Rightarrow> ('a \<Rightarrow> 'b res) \<Rightarrow> 'b res" where
  "res_bind r f = (case r of Inl e \<Rightarrow> Inl e | Inr a \<Rightarrow> f a)"

lemma res_bind_simps [simp]:
  "res_bind (Inl e) f = Inl e"
  "res_bind (Inr a) f = f a"
  by (simp_all add: res_bind_def)

lemma res_bind_eq_Inr [res_simps]:
  "res_bind r f = Inr b \<longleftrightarrow> (\<exists>a. r = Inr a \<and> f a = Inr b)"
  by (cases r) auto

lemma res_bind_eq_Inl:
  "res_bind r f = Inl e \<longleftrightarrow> r = Inl e \<or> (\<exists>a. r = Inr a \<and> f a = Inl e)"
  by (cases r) auto

lemma res_bind_assoc: "res_bind (res_bind r f) g = res_bind r (\<lambda>a. res_bind (f a) g)"
  by (cases r) auto

lemma res_bind_cong [fundef_cong]:
  "\<lbrakk>r = r'; \<And>a. r' = Inr a \<Longrightarrow> f a = f' a\<rbrakk> \<Longrightarrow> res_bind r f = res_bind r' f'"
  by (cases r') auto

fun fold_res :: "('a \<Rightarrow> 's \<Rightarrow> 's res) \<Rightarrow> 'a list \<Rightarrow> 's \<Rightarrow> 's res" where
  "fold_res f [] s = Inr s"
| "fold_res f (x # xs) s = res_bind (f x s) (fold_res f xs)"

fun map_res :: "('a \<Rightarrow> 'b res) \<Rightarrow> 'a list \<Rightarrow> 'b list res" where
  "map_res f [] = Inr []"
| "map_res f (x # xs) = res_bind (f x) (\<lambda>y. res_bind (map_res f xs) (\<lambda>ys. Inr (y # ys)))"

text \<open>The invariant rule of a \<open>for\<close> loop.\<close>

lemma fold_res_invariant:
  assumes "fold_res f xs s = Inr t" and "I s"
    and "\<And>x s t. x \<in> set xs \<Longrightarrow> I s \<Longrightarrow> f x s = Inr t \<Longrightarrow> I t"
  shows "I t"
  using assms by (induction xs arbitrary: s) (auto simp: res_simps)

lemma fold_res_total:
  assumes "I s"
    and "\<And>x s. x \<in> set xs \<Longrightarrow> I s \<Longrightarrow> \<exists>t. f x s = Inr t \<and> I t"
  shows "\<exists>t. fold_res f xs s = Inr t \<and> I t"
  using assms
proof (induction xs arbitrary: s)
  case (Cons x xs)
  from Cons.prems obtain t where "f x s = Inr t" "I t" by auto
  with Cons.IH [of t] Cons.prems(2) show ?case by auto
qed auto

section \<open>Lists and dictionaries\<close>

definition nth_res :: "'a list \<Rightarrow> nat \<Rightarrow> 'a res" where
  "nth_res xs i = (if i < length xs then Inr (xs ! i) else Inl IndexError)"

lemma nth_res_eq_Inr [res_simps]: "nth_res xs i = Inr x \<longleftrightarrow> i < length xs \<and> x = xs ! i"
  by (auto simp: nth_res_def)

lemma nth_res_in [simp]: "i < length xs \<Longrightarrow> nth_res xs i = Inr (xs ! i)"
  by (simp add: nth_res_def)

definition lookup_res :: "('k \<rightharpoonup> 'v) \<Rightarrow> 'k \<Rightarrow> 'v res" where
  "lookup_res m k = (case m k of None \<Rightarrow> Inl KeyError | Some v \<Rightarrow> Inr v)"

lemma lookup_res_eq_Inr [res_simps]: "lookup_res m k = Inr v \<longleftrightarrow> m k = Some v"
  by (auto simp: lookup_res_def split: option.splits)

lemma lookup_res_in [simp]: "m k = Some v \<Longrightarrow> lookup_res m k = Inr v"
  by (simp add: lookup_res_def)

section \<open>Subsequences\<close>

lemma subseq_set: "subseq ys xs \<Longrightarrow> set ys \<subseteq> set xs"
  by (metis subseq_conv_nths set_nths_subset)

lemma subseq_length_filter:
  assumes "subseq ys xs" and "\<forall>y \<in> set ys. Q y"
  shows "length ys \<le> length (filter Q xs)"
proof -
  have "subseq (filter Q ys) (filter Q xs)"
    using assms(1) by (rule subseq_filter)
  moreover have "filter Q ys = ys" using assms(2) by simp
  ultimately show ?thesis by (metis list_emb_length)
qed

lemma subseq_take_filter: "subseq (take n (filter Q xs)) xs"
  by (metis subseq_filter_left subseq_order.trans take_is_prefix prefix_imp_subseq)

end
