(* ===== verification/Procset_Spec.thy ===== *)
theory Procset_Spec
  imports Oar_Prelude
begin

text \<open>
  The interface of the third-party package \<open>procset\<close>. OAR represents every set of resources by a
  \<open>ProcSet\<close>, a finite set of non-negative integers; the package is not part of the repository, so
  its operations are the fields of the record \<open>procset_ops\<close>, which every definition of the model
  takes as its first argument, and the locale \<open>procset\<close> states what the code relies on: the
  operations compute set operations, \<open>len\<close> counts elements and iteration is in increasing order.
  The last section gives one implementation that satisfies these laws (strictly increasing lists),
  which is what the evaluated witnesses of the other theories run on.
\<close>

record 'p procset_ops =
  ps_of_ids :: "nat list \<Rightarrow> 'p"      \<comment> \<open>\<open>ProcSet(*ids)\<close>; \<open>ProcSet()\<close> is \<open>ps_of_ids []\<close>\<close>
  ps_ids :: "'p \<Rightarrow> nat list"         \<comment> \<open>iteration, \<open>list(s)\<close>\<close>
  ps_inter :: "'p \<Rightarrow> 'p \<Rightarrow> 'p"       \<comment> \<open>\<open>s & t\<close>\<close>
  ps_union :: "'p \<Rightarrow> 'p \<Rightarrow> 'p"       \<comment> \<open>\<open>s | t\<close>\<close>
  ps_diff :: "'p \<Rightarrow> 'p \<Rightarrow> 'p"        \<comment> \<open>\<open>s - t\<close>\<close>
  ps_len :: "'p \<Rightarrow> nat"              \<comment> \<open>\<open>len(s)\<close>\<close>
  ps_eq :: "'p \<Rightarrow> 'p \<Rightarrow> bool"        \<comment> \<open>\<open>s == t\<close>\<close>
  ps_issubset :: "'p \<Rightarrow> 'p \<Rightarrow> bool"  \<comment> \<open>\<open>s.issubset(t)\<close>\<close>

abbreviation ps_empty :: "'p procset_ops \<Rightarrow> 'p" where
  "ps_empty P \<equiv> ps_of_ids P []"

abbreviation elems :: "'p procset_ops \<Rightarrow> 'p \<Rightarrow> nat set" where
  "elems P p \<equiv> set (ps_ids P p)"

locale procset =
  fixes P :: "'p procset_ops"
  assumes ids_increasing: "sorted_wrt (<) (ps_ids P p)"
    and elems_of_ids: "elems P (ps_of_ids P is) = set is"
    and elems_inter: "elems P (ps_inter P p q) = elems P p \<inter> elems P q"
    and elems_union: "elems P (ps_union P p q) = elems P p \<union> elems P q"
    and elems_diff: "elems P (ps_diff P p q) = elems P p - elems P q"
    and len_ids: "ps_len P p = length (ps_ids P p)"
    and eq_elems: "ps_eq P p q \<longleftrightarrow> elems P p = elems P q"
    and issubset_elems: "ps_issubset P p q \<longleftrightarrow> elems P p \<subseteq> elems P q"
begin

lemmas elems_simps [simp] =
  elems_of_ids elems_inter elems_union elems_diff eq_elems issubset_elems

lemma elems_empty [simp]: "elems P (ps_empty P) = {}"
  using elems_of_ids [of "[]"] by simp

lemma ids_empty [simp]: "ps_ids P (ps_empty P) = []"
  using elems_empty by (metis set_empty)

lemma ids_distinct: "distinct (ps_ids P p)"
  using ids_increasing [of p] by (simp add: strict_sorted_iff)

lemma len_card: "ps_len P p = card (elems P p)"
  by (simp add: len_ids distinct_card [OF ids_distinct])

lemma len_zero [simp]: "ps_len P p = 0 \<longleftrightarrow> elems P p = {}"
  by (simp add: len_ids)

lemma len_pos [simp]: "0 < ps_len P p \<longleftrightarrow> elems P p \<noteq> {}"
  by (simp add: len_ids)

lemma ids_ops_empty [simp]:
  "ps_ids P (ps_inter P p q) = [] \<longleftrightarrow> elems P p \<inter> elems P q = {}"
  "ps_ids P (ps_union P p q) = [] \<longleftrightarrow> elems P p = {} \<and> elems P q = {}"
  "ps_ids P (ps_diff P p q) = [] \<longleftrightarrow> elems P p \<subseteq> elems P q"
  by (simp_all flip: set_empty)

text \<open>The value of a set is determined, as far as the code can see, by its elements.\<close>

lemma ids_eqI: "elems P p = elems P q \<Longrightarrow> ps_ids P p = ps_ids P q"
  using ids_increasing by (metis strict_sorted_equal)

end

section \<open>An implementation of the interface\<close>

definition id_list :: "nat list \<Rightarrow> nat list" where
  "id_list ns = sort (remdups ns)"

lemma id_list_increasing: "sorted_wrt (<) (id_list ns)"
  by (simp add: id_list_def strict_sorted_iff)


lemma set_id_list [simp]: "set (id_list ns) = set ns"
  by (simp add: id_list_def)

definition list_procset :: "nat list procset_ops" where
  "list_procset =
     \<lparr>ps_of_ids = id_list,
      ps_ids = id_list,
      ps_inter = (\<lambda>p q. filter (\<lambda>i. i \<in> set q) p),
      ps_union = (\<lambda>p q. id_list (p @ q)),
      ps_diff = (\<lambda>p q. filter (\<lambda>i. i \<notin> set q) p),
      ps_len = (\<lambda>p. length (id_list p)),
      ps_eq = (\<lambda>p q. set p = set q),
      ps_issubset = (\<lambda>p q. set p \<subseteq> set q)\<rparr>"

interpretation list_ps: procset list_procset
  by unfold_locales (auto simp: list_procset_def id_list_increasing)

end
