(* ===== verification/Hierarchy.thy ===== *)
theory Hierarchy
  imports Procset_Spec
begin

text \<open>
  \<open>oar/lib/hierarchy.py\<close>: finding resources in a hierarchy of blocks. A hierarchy level is a list
  of \<open>ProcSet\<close>s (its blocks); a request asks for \<open>rqts[h]\<close> blocks of level \<open>h\<close>, each holding
  \<open>rqts[h+1]\<close> blocks of the next level, and so on, the last level being taken whole.
  The functions are modelled one by one; \<open>allocation\<close> is the declarative meaning of a request, and
  the lemmas show that the search returns an allocation exactly when one exists.
\<close>

section \<open>The functions of the module\<close>

text \<open>\<open>keep_no_empty_scat_bks\<close>: the index loop over \<open>itvss_ref\<close> is a recursion on the list.\<close>

fun keep_no_empty_scat_bks :: "'p procset_ops \<Rightarrow> 'p \<Rightarrow> 'p list \<Rightarrow> 'p list" where
  "keep_no_empty_scat_bks P itvs [] = []"
| "keep_no_empty_scat_bks P itvs (x # xs) =
     (if ps_len P (ps_inter P x itvs) \<noteq> 0 then x # keep_no_empty_scat_bks P itvs xs
      else keep_no_empty_scat_bks P itvs xs)"

text \<open>
  The loop of \<open>extract_n_scattered_block_itv\<close>: the number still to take (any integer: a request
  for ALL, BESTHALF or BEST is parsed to a negative number) and the blocks taken so far.
\<close>

fun extract_loop :: "'p procset_ops \<Rightarrow> 'p \<Rightarrow> 'p list \<Rightarrow> int \<Rightarrow> 'p \<Rightarrow> int \<times> 'p" where
  "extract_loop P itvs1 [] n itvs = (n, itvs)"
| "extract_loop P itvs1 (x # xs) n itvs =
     (if 0 < n
      then (let y = ps_inter P itvs1 x
            in if ps_eq P x y then extract_loop P itvs1 xs (n - 1) (ps_union P itvs y)
               else extract_loop P itvs1 xs n itvs)
      else (n, itvs))"

definition extract_n_scattered_block_itv :: "'p procset_ops \<Rightarrow> 'p \<Rightarrow> 'p list \<Rightarrow> int \<Rightarrow> 'p" where
  "extract_n_scattered_block_itv P itvs1 itvs_ref n =
     (case extract_loop P itvs1 itvs_ref n (ps_empty P) of
        (n', itvs) \<Rightarrow> if n' = 0 then itvs else ps_empty P)"

text \<open>
  The loop that both branches of \<open>find_resource_n_h\<close> run over the available blocks: \<open>win\<close> is the
  search inside one block, a block with a non-empty answer is counted and accumulated, and the
  loop stops as soon as \<open>need\<close> blocks have won.
\<close>

fun collect_blocks ::
  "'p procset_ops \<Rightarrow> ('p \<Rightarrow> 'p res) \<Rightarrow> int \<Rightarrow> 'p list \<Rightarrow> 'p \<Rightarrow> int \<Rightarrow> ('p \<times> int) res" where
  "collect_blocks P win need [] itvs_acc nb_r = Inr (itvs_acc, nb_r)"
| "collect_blocks P win need (bk # bks) itvs_acc nb_r =
     (if nb_r \<noteq> need
      then res_bind (win bk) (\<lambda>r.
             if ps_len P r \<noteq> 0
             then collect_blocks P win need bks (ps_union P itvs_acc r) (nb_r + 1)
             else collect_blocks P win need bks itvs_acc nb_r)
      else Inr (itvs_acc, nb_r))"

function find_resource_n_h ::
  "'p procset_ops \<Rightarrow> 'p \<Rightarrow> 'p list list \<Rightarrow> int list \<Rightarrow> 'p list \<Rightarrow> nat \<Rightarrow> nat \<Rightarrow> 'p res" where
  "find_resource_n_h P itvs hy rqts blks h h_bottom =
     (let avail_bks = keep_no_empty_scat_bks P itvs blks
      in res_bind (nth_res rqts h) (\<lambda>rqt.
           if int (length avail_bks) < rqt then Inr (ps_empty P)
           else
             res_bind
               (if h + 2 = h_bottom
                then collect_blocks P
                       (\<lambda>bk. res_bind (nth_res hy (h + 1)) (\<lambda>level.
                          let avail_sub_bks =
                            [ps_inter P bk x. x \<leftarrow> level, ps_len P (ps_inter P bk x) \<noteq> 0]
                          in res_bind (nth_res rqts (h + 1)) (\<lambda>n.
                               Inr (extract_n_scattered_block_itv P itvs avail_sub_bks n))))
                       rqt avail_bks (ps_empty P) 0
                else collect_blocks P
                       (\<lambda>bk. res_bind (nth_res hy (h + 1)) (\<lambda>level.
                          find_resource_n_h P itvs hy rqts
                            [sub \<leftarrow> level. ps_issubset P sub bk] (h + 1) h_bottom))
                       rqt avail_bks (ps_empty P) 0)
               (\<lambda>(itvs_acc, nb_r). if nb_r = rqt then Inr itvs_acc else Inr (ps_empty P))))"
  by pat_completeness auto
termination
  by (relation "measure (\<lambda>(P, itvs, hy, rqts, blks, h, h_bottom). length hy - h)")
     (auto simp: res_simps)

declare find_resource_n_h.simps [simp del]

definition find_resource_hierarchies_scattered ::
  "'p procset_ops \<Rightarrow> 'p \<Rightarrow> 'p list list \<Rightarrow> int list \<Rightarrow> 'p res" where
  "find_resource_hierarchies_scattered P itvs hy rqts =
     (let l_hy = length hy
      in if l_hy = 1
         then res_bind (nth_res hy 0) (\<lambda>h0.
                res_bind (nth_res rqts 0) (\<lambda>n. Inr (extract_n_scattered_block_itv P itvs h0 n)))
         else res_bind (nth_res hy 0) (\<lambda>h0. find_resource_n_h P itvs hy rqts h0 0 l_hy))"

section \<open>What a request means\<close>

text \<open>
  The blocks offered below block \<open>b\<close> of level \<open>h\<close>: at the last but one level the non-empty
  intersections with the blocks of the last level, above it the blocks of the next level that lie
  inside \<open>b\<close>.
\<close>

definition children :: "'p procset_ops \<Rightarrow> 'p list list \<Rightarrow> nat \<Rightarrow> 'p \<Rightarrow> 'p list" where
  "children P hy h b =
     (if h + 2 = length hy
      then [ps_inter P b x. x \<leftarrow> hy ! (h + 1), ps_len P (ps_inter P b x) \<noteq> 0]
      else [sub \<leftarrow> hy ! (h + 1). ps_issubset P sub b])"

text \<open>
  \<open>allocation P itvs hy rqts h blks S\<close>: the set \<open>S\<close> serves the request from level \<open>h\<close> on, taking
  \<open>rqts!h\<close> blocks of \<open>blks\<close>: whole free blocks at the last level, blocks that are allocations of
  the rest of the request above it.
\<close>

inductive allocation ::
  "'p procset_ops \<Rightarrow> 'p \<Rightarrow> 'p list list \<Rightarrow> int list \<Rightarrow> nat \<Rightarrow> 'p list \<Rightarrow> nat set \<Rightarrow> bool"
  for P itvs hy rqts where
  last_level:
    "\<lbrakk>Suc h = length hy; subseq bs blks; int (length bs) = rqts ! h;
      \<forall>b \<in> set bs. elems P b \<subseteq> elems P itvs\<rbrakk>
     \<Longrightarrow> allocation P itvs hy rqts h blks (\<Union>b \<in> set bs. elems P b)"
| inner_level:
    "\<lbrakk>Suc h < length hy; subseq bs blks; int (length bs) = rqts ! h;
      \<forall>b \<in> set bs. allocation P itvs hy rqts (Suc h) (children P hy h b) (S b)\<rbrakk>
     \<Longrightarrow> allocation P itvs hy rqts h blks (\<Union>b \<in> set bs. S b)"

inductive_cases allocation_lastE:
  "allocation P itvs hy rqts h blks S"

definition blocks_ok :: "'p procset_ops \<Rightarrow> 'p list \<Rightarrow> bool" where
  "blocks_ok P bs \<longleftrightarrow> (\<forall>b \<in> set bs. elems P b \<noteq> {})"

text \<open>
  A request that fits its hierarchy: a number other than zero for every level. Positive numbers
  are numbers of blocks, the negative ones are what \<open>parse_resource_descriptions\<close> makes of the
  keywords ALL, BESTHALF and BEST.
\<close>

definition request_ok :: "'p procset_ops \<Rightarrow> 'p list list \<Rightarrow> int list \<Rightarrow> bool" where
  "request_ok P hy rqts \<longleftrightarrow> hy \<noteq> [] \<and> length hy \<le> length rqts \<and>
     (\<forall>i < length hy. rqts ! i \<noteq> 0) \<and> (\<forall>level \<in> set hy. blocks_ok P level)"

section \<open>Correctness of the search\<close>

lemma keep_no_empty_filter:
  "keep_no_empty_scat_bks P itvs bs = filter (\<lambda>x. ps_len P (ps_inter P x itvs) \<noteq> 0) bs"
  by (induction bs) auto

context procset
begin

text \<open>The extraction takes the first \<open>n\<close> free blocks, and nothing if there are fewer.\<close>

lemma extract_loop_spec:
  assumes "0 \<le> n"
    and "extract_loop P itvs bs n acc = (n', acc')"
  defines "free \<equiv> filter (\<lambda>x. elems P x \<subseteq> elems P itvs) bs"
  shows "n' = max 0 (n - int (length free))"
    and "elems P acc' = elems P acc \<union> (\<Union>b \<in> set (take (nat n) free). elems P b)"
  using assms(1,2) unfolding free_def
proof (induction bs arbitrary: n acc)
  case (Cons x xs)
  {
    case 1
    show ?case
    proof (cases "0 < n \<and> elems P x \<subseteq> elems P itvs")
      case True
      moreover from True have "elems P x = elems P itvs \<inter> elems P x" by blast
      ultimately show ?thesis
        using 1 Cons.IH(1) [of "n - 1" "ps_union P acc (ps_inter P itvs x)"]
        by (auto simp: Let_def)
    next
      case False
      with 1 Cons.IH(1) [of n acc] show ?thesis by (auto simp: Let_def split: if_splits)
    qed
  next
    case 2
    show ?case
    proof (cases "0 < n \<and> elems P x \<subseteq> elems P itvs")
      case True
      then have eq: "elems P x = elems P itvs \<inter> elems P x" by blast
      from True have "nat n = Suc (nat (n - 1))" by arith
      with True eq 2 Cons.IH(2) [of "n - 1" "ps_union P acc (ps_inter P itvs x)"] show ?thesis
        by (auto simp: Let_def)
    next
      case False
      with 2 Cons.IH(2) [of n acc] show ?thesis by (auto simp: Let_def split: if_splits)
    qed
  }
qed auto

lemma extract_spec:
  fixes bs itvs
  defines "free \<equiv> filter (\<lambda>x. elems P x \<subseteq> elems P itvs) bs"
  assumes "0 \<le> n"
  shows "elems P (extract_n_scattered_block_itv P itvs bs n) =
           (if nat n \<le> length free then \<Union>b \<in> set (take (nat n) free). elems P b else {})"
proof -
  obtain n' acc where l: "extract_loop P itvs bs n (ps_empty P) = (n', acc)"
    by fastforce
  from extract_loop_spec [OF assms(2) l] have "n' = max 0 (n - int (length free))"
    and "elems P acc = (\<Union>b \<in> set (take (nat n) free). elems P b)"
    by (auto simp: free_def)
  with assms(2) l show ?thesis
    by (auto simp: extract_n_scattered_block_itv_def)
qed

lemma extract_negative:
  assumes "n < 0"
  shows "elems P (extract_n_scattered_block_itv P itvs bs n) = {}"
proof -
  have "extract_loop P itvs bs n acc = (n, acc)" for acc using assms by (cases bs) auto
  with assms show ?thesis by (simp add: extract_n_scattered_block_itv_def)
qed

text \<open>The collecting loop, for a search that does not raise.\<close>

lemma collect_blocks_spec:
  fixes bks
  assumes "\<forall>b \<in> set bks. win b = Inr (w b)" and "nb \<le> need"
  defines "wins \<equiv> filter (\<lambda>b. elems P (w b) \<noteq> {}) bks"
  shows "\<exists>acc'. collect_blocks P win need bks acc nb =
             Inr (acc', min need (nb + int (length wins))) \<and>
           elems P acc' = elems P acc \<union> (\<Union>b \<in> set (take (nat (need - nb)) wins). elems P (w b))"
  using assms(1,2) unfolding wins_def
proof (induction bks arbitrary: acc nb)
  case (Cons b bks)
  show ?case
  proof (cases "nb = need")
    case False
    with Cons.prems have lt: "nb < need" by simp
    show ?thesis
    proof (cases "elems P (w b) = {}")
      case True
      with Cons lt show ?thesis by simp
    next
      case nonempty: False
      from lt have "nat (need - nb) = Suc (nat (need - (nb + 1)))" by arith
      with Cons.IH [of "nb + 1" "ps_union P acc (w b)"] Cons.prems lt nonempty show ?thesis
        by (auto simp: Un_assoc algebra_simps)
    qed
  qed auto
qed auto

lemma collect_blocks_negative:
  assumes "\<forall>b \<in> set bks. \<exists>r. win b = Inr r" "need < 0" "0 \<le> nb"
  shows "\<exists>acc' nb'. collect_blocks P win need bks acc nb = Inr (acc', nb') \<and> 0 \<le> nb'"
  using assms by (induction bks arbitrary: acc nb) auto

text \<open>Allocations lie inside the available set and inside the blocks they are taken from.\<close>

lemma allocation_available: "allocation P itvs hy rqts h blks S \<Longrightarrow> S \<subseteq> elems P itvs"
  by (induction rule: allocation.induct) auto

lemma children_inside: "c \<in> set (children P hy h b) \<Longrightarrow> elems P c \<subseteq> elems P b"
  by (auto simp: children_def split: if_splits)

lemma children_nonempty:
  "\<lbrakk>request_ok P hy rqts; Suc h < length hy\<rbrakk> \<Longrightarrow> blocks_ok P (children P hy h b)"
  by (auto simp: children_def blocks_ok_def request_ok_def)

lemma allocation_inside:
  "allocation P itvs hy rqts h blks S \<Longrightarrow> S \<subseteq> (\<Union>b \<in> set blks. elems P b)"
proof (induction rule: allocation.induct)
  case (last_level h bs blks)
  then show ?case using subseq_set by fastforce
next
  case (inner_level h bs blks S)
  have "S b \<subseteq> elems P b" if "b \<in> set bs" for b
    using inner_level that children_inside by fastforce
  with inner_level(2) show ?case using subseq_set by fastforce
qed

lemma allocation_positive:
  assumes "allocation P itvs hy rqts h blks S" "request_ok P hy rqts"
  shows "0 < rqts ! h"
  using assms
proof (cases rule: allocation.cases)
  case (last_level bs)
  with assms(2) have "rqts ! h \<noteq> 0" "0 \<le> rqts ! h" by (auto simp: request_ok_def)
  then show ?thesis by simp
next
  case (inner_level bs S')
  with assms(2) have "rqts ! h \<noteq> 0" "0 \<le> rqts ! h" by (auto simp: request_ok_def)
  then show ?thesis by simp
qed

lemma allocation_nonempty:
  "\<lbrakk>allocation P itvs hy rqts h blks S; request_ok P hy rqts; blocks_ok P blks\<rbrakk> \<Longrightarrow> S \<noteq> {}"
proof (induction rule: allocation.induct)
  case (last_level h bs blks)
  then have "rqts ! h \<noteq> 0" by (simp add: request_ok_def)
  with last_level have "bs \<noteq> []" by auto
  then obtain b where b: "b \<in> set bs" by (meson hd_in_set)
  with subseq_set [OF last_level(2)] have "b \<in> set blks" by (rule subsetD)
  with last_level(6) have "elems P b \<noteq> {}" unfolding blocks_ok_def by (rule bspec)
  with b show ?case by auto
next
  case (inner_level h bs blks S)
  then have "rqts ! h \<noteq> 0" by (simp add: request_ok_def)
  with inner_level have "bs \<noteq> []" by auto
  then obtain b where b: "b \<in> set bs" by (meson hd_in_set)
  with inner_level children_nonempty have "S b \<noteq> {}" by blast
  with b show ?case by blast
qed

text \<open>The last level: the extraction answers with an allocation iff there is one.\<close>

lemma extract_allocation:
  fixes itvs hy rqts blks h
  assumes "request_ok P hy rqts" "Suc h = length hy" "blocks_ok P blks"
  defines "r \<equiv> extract_n_scattered_block_itv P itvs blks (rqts ! h)"
  shows "(elems P r \<noteq> {} \<longrightarrow> allocation P itvs hy rqts h blks (elems P r)) \<and>
         ((\<exists>S. allocation P itvs hy rqts h blks S) \<longrightarrow> elems P r \<noteq> {})"
proof -
  define free where "free = filter (\<lambda>x. elems P x \<subseteq> elems P itvs) blks"
  define n where "n = nat (rqts ! h)"
  have nonzero: "rqts ! h \<noteq> 0" using assms(1,2) by (simp add: request_ok_def)
  have positive: "0 < rqts ! h" if "elems P r \<noteq> {} \<or> (\<exists>S. allocation P itvs hy rqts h blks S)"
    using that
  proof
    assume "elems P r \<noteq> {}"
    with nonzero extract_negative [of "rqts ! h" itvs blks] show ?thesis
      by (cases "rqts ! h < 0") (auto simp: r_def)
  qed (use allocation_positive assms(1) in blast)
  have r: "elems P r =
      (if n \<le> length free then \<Union>b \<in> set (take n free). elems P b else {})" if "0 < rqts ! h"
    using extract_spec [of "rqts ! h" itvs blks] that by (simp add: r_def free_def n_def)
  have sub: "subseq (take n free) blks"
    unfolding free_def by (rule subseq_take_filter)
  have "allocation P itvs hy rqts h blks (elems P r)" if ne: "elems P r \<noteq> {}"
  proof -
    have pos: "0 < rqts ! h" using positive ne by blast
    note r = r [OF pos]
    from ne r have len: "n \<le> length free" by (auto split: if_splits)
    have free_av: "\<forall>b \<in> set (take n free). elems P b \<subseteq> elems P itvs"
      using set_take_subset [of n free] unfolding free_def by fastforce
    have "allocation P itvs hy rqts h blks (\<Union>b \<in> set (take n free). elems P b)"
      using assms(2) sub len pos
      by (intro allocation.last_level)
        (use free_av in \<open>simp_all add: n_def min_def\<close>)
    with r len show ?thesis by simp
  qed
  moreover have "elems P r \<noteq> {}" if al: "allocation P itvs hy rqts h blks S" for S
    using al
  proof (cases rule: allocation.cases)
    case (last_level bs)
    have pos: "0 < rqts ! h" using positive al by blast
    note r = r [OF pos]
    from last_level have "length bs \<le> length free"
      using subseq_length_filter [of bs blks "\<lambda>x. elems P x \<subseteq> elems P itvs"]
      by (simp add: free_def)
    with last_level have len: "n \<le> length free" by (simp add: n_def)
    then have "take n free \<noteq> []" using pos by (auto simp: n_def)
    then obtain b where b: "b \<in> set (take n free)" by (meson hd_in_set)
    with subseq_set [OF sub] have "b \<in> set blks" by (rule subsetD)
    with assms(3) have "elems P b \<noteq> {}" unfolding blocks_ok_def by (rule bspec)
    moreover have "elems P b \<subseteq> elems P r" using b len by (auto simp: r)
    ultimately show ?thesis by auto
  next
    case inner_level
    with assms(2) show ?thesis by simp
  qed
  ultimately show ?thesis by blast
qed

text \<open>The search of one block: what \<open>find_resource_n_h\<close> runs below each available block.\<close>

definition good_result where
  "good_result itvs hy rqts h blks r \<longleftrightarrow>
     (elems P r \<noteq> {} \<longrightarrow> allocation P itvs hy rqts h blks (elems P r)) \<and>
     ((\<exists>S. allocation P itvs hy rqts h blks S) \<longrightarrow> elems P r \<noteq> {})"

text \<open>
  A collecting loop over the blocks of level \<open>h\<close> whose body finds good results one level below
  gives a good result.
\<close>

lemma collect_good_positive:
  fixes itvs hy rqts blks h
  assumes ok: "request_ok P hy rqts" "blocks_ok P blks" and h: "Suc h < length hy"
    and pos: "0 < rqts ! h"
    and win: "\<forall>b \<in> set blks. win b = Inr (w b) \<and>
                good_result itvs hy rqts (Suc h) (children P hy h b) (w b)"
  defines "avail \<equiv> keep_no_empty_scat_bks P itvs blks"
  shows "\<exists>acc nb. collect_blocks P win (rqts ! h) avail (ps_empty P) 0 = Inr (acc, nb) \<and>
           (nb = rqts ! h \<longrightarrow> rqts ! h \<le> int (length avail)) \<and>
           good_result itvs hy rqts h blks (if nb = rqts ! h then acc else ps_empty P)"
proof -
  define wins where "wins = filter (\<lambda>b. elems P (w b) \<noteq> {}) avail"
  define n where "n = nat (rqts ! h)"
  have avail: "avail = filter (\<lambda>x. elems P x \<inter> elems P itvs \<noteq> {}) blks"
    by (simp add: avail_def keep_no_empty_filter)
  have wins': "wins = filter (\<lambda>b. elems P b \<inter> elems P itvs \<noteq> {} \<and> elems P (w b) \<noteq> {}) blks"
    by (simp add: wins_def avail conj_commute)
  from collect_blocks_spec [of avail win w 0 "rqts ! h" "ps_empty P"] win pos
  obtain acc where c: "collect_blocks P win (rqts ! h) avail (ps_empty P) 0 =
      Inr (acc, min (rqts ! h) (int (length wins)))"
    and acc: "elems P acc = (\<Union>b \<in> set (take n wins). elems P (w b))"
    by (auto simp: avail wins_def n_def)
  have found: "allocation P itvs hy rqts h blks (elems P acc)" if "rqts ! h \<le> int (length wins)"
  proof -
    have "subseq (take n wins) blks" unfolding wins' by (rule subseq_take_filter)
    moreover have "\<forall>b \<in> set (take n wins).
        allocation P itvs hy rqts (Suc h) (children P hy h b) (elems P (w b))"
      using win by (auto simp: wins' good_result_def dest!: in_set_takeD)
    ultimately show ?thesis
      unfolding acc using h pos that by (intro allocation.inner_level) (auto simp: n_def)
  qed
  have complete: "rqts ! h \<le> int (length wins)" if "allocation P itvs hy rqts h blks S" for S
    using that
  proof (cases rule: allocation.cases)
    case (inner_level bs S')
    have "elems P b \<inter> elems P itvs \<noteq> {} \<and> elems P (w b) \<noteq> {}" if b: "b \<in> set bs" for b
    proof -
      from b inner_level have al: "allocation P itvs hy rqts (Suc h) (children P hy h b) (S' b)"
        by blast
      have "S' b \<subseteq> elems P b" using allocation_inside [OF al] children_inside by fastforce
      moreover have "S' b \<noteq> {}"
        using allocation_nonempty [OF al ok(1)] children_nonempty [OF ok(1) h] by blast
      moreover have "b \<in> set blks" using b inner_level(3) subseq_set by blast
      ultimately show ?thesis
        using allocation_available [OF al] al win by (auto simp: good_result_def)
    qed
    with inner_level(3) have "length bs \<le> length wins"
      unfolding wins' by (intro subseq_length_filter) auto
    with inner_level(4) show ?thesis by simp
  qed (use h in simp)
  have le: "length wins \<le> length avail" by (simp add: wins_def)
  show ?thesis
  proof (cases "rqts ! h \<le> int (length wins)")
    case True
    have "elems P acc \<noteq> {}" using allocation_nonempty [OF found ok] True by blast
    with True c found le show ?thesis by (auto simp: good_result_def)
  next
    case False
    with c complete le show ?thesis by (auto simp: good_result_def min_def)
  qed
qed

lemma collect_good:
  fixes itvs hy rqts blks h
  assumes ok: "request_ok P hy rqts" "blocks_ok P blks" and h: "Suc h < length hy"
    and win: "\<forall>b \<in> set blks. win b = Inr (w b) \<and>
                good_result itvs hy rqts (Suc h) (children P hy h b) (w b)"
  defines "avail \<equiv> keep_no_empty_scat_bks P itvs blks"
  shows "\<exists>acc nb. collect_blocks P win (rqts ! h) avail (ps_empty P) 0 = Inr (acc, nb) \<and>
           (nb = rqts ! h \<longrightarrow> rqts ! h \<le> int (length avail)) \<and>
           good_result itvs hy rqts h blks (if nb = rqts ! h then acc else ps_empty P)"
proof (cases "0 < rqts ! h")
  case True
  from collect_good_positive [OF ok h True win] show ?thesis unfolding avail_def .
next
  case False
  moreover have "rqts ! h \<noteq> 0" using ok h by (simp add: request_ok_def)
  ultimately have neg: "rqts ! h < 0" by simp
  have "\<forall>b \<in> set avail. \<exists>r. win b = Inr r"
    using win by (auto simp: avail_def keep_no_empty_filter)
  from collect_blocks_negative [OF this neg order_refl, of "ps_empty P"] neg
  obtain acc nb where "collect_blocks P win (rqts ! h) avail (ps_empty P) 0 = Inr (acc, nb)"
    and "nb \<noteq> rqts ! h" by force
  with allocation_positive ok(1) False show ?thesis by (auto simp: good_result_def)
qed

lemma find_resource_n_h_good:
  "\<lbrakk>request_ok P hy rqts; blocks_ok P blks; Suc h < length hy\<rbrakk> \<Longrightarrow>
   \<exists>r. find_resource_n_h P itvs hy rqts blks h (length hy) = Inr r \<and>
       good_result itvs hy rqts h blks r"
proof (induction "length hy - h" arbitrary: h blks rule: less_induct)
  case less
  note ok = less.prems
  from ok have rq: "nth_res rqts h = Inr (rqts ! h)" "nth_res rqts (Suc h) = Inr (rqts ! Suc h)"
    and lev: "nth_res hy (Suc h) = Inr (hy ! Suc h)"
    by (auto simp: request_ok_def)
  define win where "win = (\<lambda>b. if h + 2 = length hy
      then Inr (extract_n_scattered_block_itv P itvs (children P hy h b) (rqts ! Suc h))
      else find_resource_n_h P itvs hy rqts (children P hy h b) (Suc h) (length hy))"
  have "\<forall>b. \<exists>r. win b = Inr r \<and> good_result itvs hy rqts (Suc h) (children P hy h b) r"
  proof
    fix b
    have bok: "blocks_ok P (children P hy h b)" using children_nonempty ok by blast
    show "\<exists>r. win b = Inr r \<and> good_result itvs hy rqts (Suc h) (children P hy h b) r"
    proof (cases "h + 2 = length hy")
      case True
      with extract_allocation [OF ok(1), of "Suc h"] bok show ?thesis
        by (auto simp: win_def good_result_def)
    next
      case False
      with less.hyps [of "Suc h" "children P hy h b"] ok bok show ?thesis
        by (auto simp: win_def)
    qed
  qed
  then obtain w where w: "\<forall>b \<in> set blks. win b = Inr (w b) \<and>
      good_result itvs hy rqts (Suc h) (children P hy h b) (w b)" by metis
  from collect_good [OF ok w] obtain acc nb where
    c: "collect_blocks P win (rqts ! h) (keep_no_empty_scat_bks P itvs blks) (ps_empty P) 0 =
      Inr (acc, nb)"
    and le: "nb = rqts ! h \<longrightarrow>
      rqts ! h \<le> int (length (keep_no_empty_scat_bks P itvs blks))"
    and g: "good_result itvs hy rqts h blks (if nb = rqts ! h then acc else ps_empty P)" by blast
  have "find_resource_n_h P itvs hy rqts blks h (length hy) =
      (if int (length (keep_no_empty_scat_bks P itvs blks)) < rqts ! h then Inr (ps_empty P)
       else Inr (if nb = rqts ! h then acc else ps_empty P))"
  proof (cases "h + 2 = length hy")
    case True
    then have "win = (\<lambda>b. Inr (extract_n_scattered_block_itv P itvs
        (children P hy h b) (rqts ! Suc h)))" by (simp add: win_def)
    with c True show ?thesis
      by (subst find_resource_n_h.simps) (simp add: rq lev children_def Let_def)
  next
    case False
    then have "win = (\<lambda>b. find_resource_n_h P itvs hy rqts
        (children P hy h b) (Suc h) (length hy))" by (simp add: win_def)
    with c False show ?thesis
      by (subst find_resource_n_h.simps) (simp add: rq lev children_def Let_def)
  qed
  with g le show ?case by (auto split: if_splits)
qed

text \<open>The whole search, one level included.\<close>

lemma search_good:
  assumes "request_ok P hy rqts"
  shows "\<exists>r. find_resource_hierarchies_scattered P itvs hy rqts = Inr r \<and>
             good_result itvs hy rqts 0 (hy ! 0) r"
proof (cases "length hy = 1")
  case True
  with assms have "nth_res hy 0 = Inr (hy ! 0)" "nth_res rqts 0 = Inr (rqts ! 0)"
    by (auto simp: request_ok_def nth_res_def)
  with True assms extract_allocation [OF assms, of 0 "hy ! 0" itvs] show ?thesis
    by (simp add: find_resource_hierarchies_scattered_def good_result_def request_ok_def)
next
  case False
  with assms have "Suc 0 < length hy" "blocks_ok P (hy ! 0)" "nth_res hy 0 = Inr (hy ! 0)"
    by (cases hy; auto simp: request_ok_def)+
  with find_resource_n_h_good [OF assms, of "hy ! 0" 0 itvs] False show ?thesis
    by (simp add: find_resource_hierarchies_scattered_def)
qed

text \<open>More free resources never lose an allocation.\<close>

lemma allocation_mono:
  "\<lbrakk>allocation P itvs hy rqts h blks S; elems P itvs \<subseteq> elems P itvs'\<rbrakk>
   \<Longrightarrow> allocation P itvs' hy rqts h blks S"
proof (induction rule: allocation.induct)
  case (last_level h bs blks)
  then show ?case by (intro allocation.last_level) auto
next
  case (inner_level h bs blks S)
  then show ?case by (intro allocation.inner_level) auto
qed

text \<open>An allocation needs a positive number at every level.\<close>

lemma allocation_all_positive:
  "\<lbrakk>allocation P itvs hy rqts h blks S; request_ok P hy rqts; h \<le> i; i < length hy\<rbrakk>
   \<Longrightarrow> 0 < rqts ! i"
proof (induction rule: allocation.induct)
  case (last_level h bs blks)
  then have "allocation P itvs hy rqts h blks (\<Union>b \<in> set bs. elems P b)" "i = h"
    by (simp_all add: allocation.last_level)
  with allocation_positive last_level show ?case by blast
next
  case (inner_level h bs blks S)
  then have "allocation P itvs hy rqts h blks (\<Union>b \<in> set bs. S b)"
    by (auto intro: allocation.inner_level)
  with allocation_positive inner_level have pos: "0 < rqts ! h" by blast
  with inner_level have "bs \<noteq> []" by auto
  then obtain b where "b \<in> set bs" by (meson hd_in_set)
  with inner_level pos show ?case by (cases "h = i") auto
qed

end

section \<open>Properties\<close>

text \<open>
  C7. The hierarchy search is exact. For a request that fits its hierarchy it raises nothing, and
  its answer is a non-empty set exactly when the free resources hold an allocation of the request;
  a non-empty answer is such an allocation.
\<close>

theorem find_resource_hierarchies_scattered_exact:
  assumes "procset P" "request_ok P hy rqts"
  shows "\<exists>r. find_resource_hierarchies_scattered P itvs hy rqts = Inr r \<and>
             (elems P r \<noteq> {} \<longleftrightarrow> (\<exists>S. allocation P itvs hy rqts 0 (hy ! 0) S)) \<and>
             (elems P r \<noteq> {} \<longrightarrow> allocation P itvs hy rqts 0 (hy ! 0) (elems P r))"
  using procset.search_good [OF assms, of itvs] procset.good_result_def [OF assms(1)] by blast

text \<open>Two nodes of four cores, one core of the first being taken.\<close>

definition example_hy :: "nat list list list" where
  "example_hy = [[[1,2,3,4], [5,6,7,8]], [[1],[2],[3],[4],[5],[6],[7],[8]]]"

lemma example_request_ok: "request_ok list_procset example_hy [1, 4]"
  by (simp add: request_ok_def example_hy_def blocks_ok_def list_procset_def All_less_Suc
      numeral_2_eq_2)

theorem find_resource_hierarchies_scattered_exact_witness:
  "find_resource_hierarchies_scattered list_procset [2,3,4,5,6,7,8] example_hy [1, 4] =
     Inr [5,6,7,8] \<and>
   allocation list_procset [2,3,4,5,6,7,8] example_hy [1, 4] 0 (example_hy ! 0) {5,6,7,8}"
proof -
  have "find_resource_hierarchies_scattered list_procset [2,3,4,5,6,7,8] example_hy [1, 4] =
     Inr [5,6,7,8]" by code_simp
  moreover have "elems list_procset [5,6,7,8] = {5,6,7,8}" by code_simp
  ultimately show ?thesis
    using find_resource_hierarchies_scattered_exact
      [OF list_ps.procset_axioms example_request_ok, of "[2,3,4,5,6,7,8]"] by auto
qed

text \<open>
  The search is monotone in the free resources: a request that is served when \<open>itvs\<close> is free
  is served, without an exception, when a larger set is free.
\<close>

theorem find_resource_hierarchies_scattered_mono:
  assumes "procset P" "request_ok P hy rqts" "elems P itvs \<subseteq> elems P itvs'"
    and "find_resource_hierarchies_scattered P itvs hy rqts = Inr r" "elems P r \<noteq> {}"
  shows "\<exists>r'. find_resource_hierarchies_scattered P itvs' hy rqts = Inr r' \<and> elems P r' \<noteq> {}"
proof -
  have "allocation P itvs hy rqts 0 (hy ! 0) (elems P r)"
    using procset.search_good [OF assms(1,2), of itvs] assms(4,5)
    by (auto simp: procset.good_result_def [OF assms(1)])
  from procset.allocation_mono [OF assms(1) this assms(3)]
  show ?thesis
    using procset.search_good [OF assms(1,2), of itvs']
    by (auto simp: procset.good_result_def [OF assms(1)])
qed

theorem find_resource_hierarchies_scattered_mono_witness:
  "\<exists>r'. find_resource_hierarchies_scattered list_procset [1,2,3,4,5,6,7,8] example_hy [1, 4] =
     Inr r' \<and> elems list_procset r' \<noteq> {}"
proof (rule find_resource_hierarchies_scattered_mono
    [OF list_ps.procset_axioms example_request_ok, where itvs = "[2,3,4,5,6,7,8]"])
  show "find_resource_hierarchies_scattered list_procset [2,3,4,5,6,7,8] example_hy [1, 4] =
     Inr [5,6,7,8]" by code_simp
qed (simp_all add: list_procset_def)

text \<open>
  A request with a negative number at some level is never served: the answer is the empty set
  whatever is free. The parser of submissions turns the keywords ALL, BESTHALF and BEST into
  negative numbers.
\<close>

theorem find_resource_hierarchies_scattered_negative:
  assumes "procset P" "request_ok P hy rqts" "i < length hy" "rqts ! i < 0"
  shows "\<exists>r. find_resource_hierarchies_scattered P itvs hy rqts = Inr r \<and> elems P r = {}"
  using procset.search_good [OF assms(1,2), of itvs]
    procset.allocation_all_positive [OF assms(1) _ assms(2), of itvs 0 "hy ! 0" _ i] assms
  by (fastforce simp: procset.good_result_def)

theorem find_resource_hierarchies_scattered_negative_witness:
  "\<exists>r. find_resource_hierarchies_scattered list_procset [1,2,3,4,5,6,7,8] example_hy [1, - 1] =
     Inr r \<and> elems list_procset r = {}"
  by (rule find_resource_hierarchies_scattered_negative [where i = 1, OF list_ps.procset_axioms])
    (simp_all add: request_ok_def example_hy_def blocks_ok_def list_procset_def All_less_Suc
      numeral_2_eq_2)

end
