(* ===== verification/Jobs.thy ===== *)
theory Jobs
  imports Procset_Spec
begin

text \<open>
  The job as the schedulers see it: the attributes that \<open>oar/kao/\<close> reads and writes on a
  \<open>Job\<close> row (\<open>oar/lib/models.py\<close>, completed by \<open>get_waiting_jobs\<close> and \<open>get_data_jobs\<close> of
  \<open>oar/lib/job_handling.py\<close>) or on a \<open>JobPseudo\<close>. \<open>walltime\<close> and \<open>res_set\<close> are options because the code
  asks \<open>hasattr\<close> about them: a job has them once it is placed; \<open>ts_user\<close>, \<open>ts_name\<close> and \<open>ph_name\<close>
  are options because only a job with the matching type has them. \<open>karma\<close> is the text of the number that
  the fair sharing gives to a job. A dictionary whose order can be
  observed is an association list.
\<close>

text \<open>
  A resource request: for each group the hierarchy levels with the number of blocks asked for and
  the resources that satisfy the group's properties; a moldable alternative adds its id and its
  walltime.
\<close>

type_synonym 'p hy_res_rqt = "(string \<times> int) list \<times> 'p"
type_synonym 'p res_rqt = "int \<times> int \<times> 'p hy_res_rqt list"
type_synonym 'p hierarchy = "string \<rightharpoonup> 'p list"

datatype placeholder = No_placeholder | Placeholder | Allow

record 'p job =
  job_id :: int
  job_name :: string
  job_user :: string
  project :: string
  queue_name :: string
  job_state :: string
  types :: "(string \<times> string) list"
  deps :: "(int \<times> string \<times> int) list"
  mld_res_rqts :: "'p res_rqt list"
  key_cache :: "(int \<times> string) list"
  start_time :: int
  walltime :: "int option"
  res_set :: "'p option"
  moldable_id :: int
  ts :: bool
  ts_user :: "string option"
  ts_name :: "string option"
  ph :: placeholder
  ph_name :: "string option"
  no_quotas :: bool
  assign_func :: bool
  find_func :: "('p \<Rightarrow> 'p hy_res_rqt list \<Rightarrow> 'p hierarchy \<Rightarrow> bool \<Rightarrow> 'p res) option"
  submission_time :: int
  karma :: "string option"

text \<open>\<open>t in job.types\<close> and an attribute that may not have been set.\<close>

definition has_type :: "'p job \<Rightarrow> string \<Rightarrow> bool" where
  "has_type job t \<longleftrightarrow> t \<in> set (map fst (types job))"

definition attr :: "'a option \<Rightarrow> 'a res" where
  "attr x = (case x of None \<Rightarrow> Inl AttributeError | Some v \<Rightarrow> Inr v)"

lemma attr_simps [simp]: "attr (Some v) = Inr v" "attr None = Inl AttributeError"
  by (simp_all add: attr_def)

lemma attr_eq_Inr [res_simps]: "attr x = Inr v \<longleftrightarrow> x = Some v"
  by (auto simp: attr_def split: option.splits)

text \<open>
  \<open>JobPseudo(id=0, start_time=..., walltime=..., res_set=..., ts=..., ph=...)\<close>: the class defaults of
  \<open>JobPseudo\<close> with the attributes that its callers set.
\<close>

definition job_pseudo :: "int \<Rightarrow> int \<Rightarrow> int \<Rightarrow> 'p \<Rightarrow> bool \<Rightarrow> placeholder \<Rightarrow> 'p job" where
  "job_pseudo i start wt rs ts' ph' =
     \<lparr>job_id = i, job_name = '''', job_user = '''', project = '''', queue_name = ''default'',
      job_state = '''', types = [], deps = [], mld_res_rqts = [], key_cache = [],
      start_time = start, walltime = Some wt, res_set = Some rs, moldable_id = 0,
      ts = ts', ts_user = None, ts_name = None, ph = ph', ph_name = None, no_quotas = False,
      assign_func = False, find_func = None, submission_time = 0, karma = None\<rparr>"

end
