(* ===== verification/Quotas.thy ===== *)
theory Quotas
  imports Jobs
begin

text \<open>
  Class \<open>Quotas\<close> of \<open>oar/kao/quotas.py\<close>: the counters that a slot keeps of the resources, jobs and
  resource-seconds in use per (queue, project, type, user), and the rules that bound them.
  Counters and rules are Python dictionaries; both are association lists because the first rule
  that fails, in dictionary order, is what \<open>check\<close> reports. The class attributes \<open>enabled\<close>,
  \<open>default_rules\<close> and \<open>job_types\<close>, and \<open>ResourceSet.default_itvs\<close>, are the fields of \<open>quotas_env\<close>.
\<close>

type_synonym quota_key = "string \<times> string \<times> string \<times> string"
type_synonym triple = "int \<times> int \<times> int"
type_synonym counters = "(quota_key \<times> triple) list"
type_synonym rules = "(quota_key \<times> triple) list"

record quotas =
  counters :: counters
  rules :: rules

record 'p quotas_env =
  q_enabled :: bool
  q_default_rules :: rules
  q_job_types :: "string list"
  q_default_itvs :: 'p

declare split_paired_All [simp del] split_paired_Ex [simp del]

section \<open>Counters\<close>

text \<open>\<open>counters[k]\<close> of the \<open>defaultdict\<close>, and an in-place change of one entry.\<close>

definition counter :: "counters \<Rightarrow> quota_key \<Rightarrow> triple" where
  "counter c k = (case map_of c k of None \<Rightarrow> (0, 0, 0) | Some v \<Rightarrow> v)"

definition bump :: "(triple \<Rightarrow> triple) \<Rightarrow> quota_key \<Rightarrow> counters \<Rightarrow> counters" where
  "bump f k c = AList.update k (f (counter c k)) c"

definition new_quotas :: "'p quotas_env \<Rightarrow> quotas" where
  "new_quotas E = \<lparr>counters = [], rules = q_default_rules E\<rparr>"

definition deepcopy_from :: "quotas \<Rightarrow> quotas \<Rightarrow> quotas" where
  "deepcopy_from q other = q\<lparr>counters := counters other\<rparr>"

text \<open>The eight keys that a job of type \<open>t\<close> counts under, in the order of the source.\<close>

definition update_keys :: "string \<Rightarrow> string \<Rightarrow> string \<Rightarrow> string \<Rightarrow> quota_key list" where
  "update_keys queue proj user t =
     [(''*'', ''*'', t, ''*''), (''*'', ''*'', t, user), (''*'', proj, t, ''*''),
      (queue, ''*'', t, ''*''), (queue, proj, t, user), (queue, proj, t, ''*''),
      (queue, ''*'', t, user), (''*'', proj, t, user)]"

definition update_type ::
  "string \<Rightarrow> string \<Rightarrow> string \<Rightarrow> int \<Rightarrow> int \<Rightarrow> string \<Rightarrow> counters \<Rightarrow> counters" where
  "update_type queue proj user nb dur t c =
     (let ks = update_keys queue proj user t;
          c1 = fold (bump (\<lambda>(a, b, w). (a + nb, b, w))) ks c;
          c2 = fold (bump (\<lambda>(a, b, w). (a, b + 1, w))) ks c1
      in fold (bump (\<lambda>(a, b, w). (a, b, w + nb * dur))) ks c2)"

definition quotas_update ::
  "'p procset_ops \<Rightarrow> 'p quotas_env \<Rightarrow> quotas \<Rightarrow> 'p job \<Rightarrow> int \<Rightarrow> int \<Rightarrow> quotas" where
  "quotas_update P E q job prev_nb_res prev_duration =
     (let nb = (case res_set job of
                  Some rs \<Rightarrow> int (ps_len P (ps_inter P rs (q_default_itvs E)))
                | None \<Rightarrow> prev_nb_res);
          dur = (case walltime job of Some w \<Rightarrow> w | None \<Rightarrow> prev_duration)
      in q\<lparr>counters :=
             fold (update_type (queue_name job) (project job) (job_user job) nb dur)
               [t \<leftarrow> q_job_types E. t = ''*'' \<or> has_type job t] (counters q)\<rparr>)"

definition quotas_combine :: "quotas \<Rightarrow> quotas \<Rightarrow> quotas" where
  "quotas_combine q other =
     q\<lparr>counters :=
         fold (\<lambda>(k, v0, v1, v2). bump (\<lambda>(a, b, w). (max a v0, max b v1, w + v2)) k)
           (counters other) (counters q)\<rparr>"

section \<open>Rules\<close>

text \<open>The three nested \<open>if\<close>s of \<open>check\<close> that decide whether a rule applies to a counter.\<close>

definition rule_matches :: "'p job \<Rightarrow> quota_key \<Rightarrow> quota_key \<Rightarrow> bool" where
  "rule_matches job rk ck =
     (case rk of (rl_queue, rl_project, rl_job_type, rl_user) \<Rightarrow>
      case ck of (queue, proj, job_type, user) \<Rightarrow>
        (rl_queue = ''*'' \<and> queue = ''*'' \<or> rl_queue = queue \<and> queue_name job = queue \<or>
         rl_queue = ''/'') \<and>
        (rl_project = ''*'' \<and> proj = ''*'' \<or> rl_project = proj \<and> project job = proj \<or>
         rl_project = ''/'') \<and>
        (rl_job_type = ''*'' \<and> job_type = ''*'' \<or> rl_job_type = job_type \<and> has_type job job_type) \<and>
        (rl_user = ''*'' \<and> user = ''*'' \<or> rl_user = user \<and> job_user job = user \<or>
         rl_user = ''/''))"

datatype quota_result =
    Quota_ok
  | Nb_resources_failed quota_key int
  | Nb_jobs_failed quota_key int
  | Resources_time_failed quota_key int
  | Different_rules

definition check_values :: "quota_key \<Rightarrow> triple \<Rightarrow> triple \<Rightarrow> quota_result" where
  "check_values rk rq v =
     (case rq of (rl_nb_resources, rl_nb_jobs, rl_resources_time) \<Rightarrow>
      case v of (nb_resources, nb_jobs, resources_time) \<Rightarrow>
        if rl_nb_resources > -1 \<and> rl_nb_resources < nb_resources
        then Nb_resources_failed rk rl_nb_resources
        else if rl_nb_jobs > -1 \<and> rl_nb_jobs < nb_jobs then Nb_jobs_failed rk rl_nb_jobs
        else if rl_resources_time > -1 \<and> rl_resources_time < resources_time
        then Resources_time_failed rk rl_resources_time
        else Quota_ok)"

fun check_rule :: "'p job \<Rightarrow> quota_key \<times> triple \<Rightarrow> counters \<Rightarrow> quota_result" where
  "check_rule job r [] = Quota_ok"
| "check_rule job r ((ck, v) # c) =
     (if rule_matches job (fst r) ck
      then (case check_values (fst r) (snd r) v of Quota_ok \<Rightarrow> check_rule job r c | f \<Rightarrow> f)
      else check_rule job r c)"

fun check_rules :: "'p job \<Rightarrow> rules \<Rightarrow> counters \<Rightarrow> quota_result" where
  "check_rules job [] c = Quota_ok"
| "check_rules job (r # rs) c =
     (case check_rule job r c of Quota_ok \<Rightarrow> check_rules job rs c | f \<Rightarrow> f)"

definition quotas_check :: "quotas \<Rightarrow> 'p job \<Rightarrow> quota_result" where
  "quotas_check q job = check_rules job (rules q) (counters q)"

section \<open>What the checks decide\<close>

text \<open>\<open>within rq v\<close>: a limit below zero is no limit, the others bound their counter.\<close>

definition within :: "triple \<Rightarrow> triple \<Rightarrow> bool" where
  "within rq v \<longleftrightarrow>
     (case rq of (r0, r1, r2) \<Rightarrow> case v of (v0, v1, v2) \<Rightarrow>
        (0 \<le> r0 \<longrightarrow> v0 \<le> r0) \<and> (0 \<le> r1 \<longrightarrow> v1 \<le> r1) \<and> (0 \<le> r2 \<longrightarrow> v2 \<le> r2))"

lemma check_values_ok: "check_values rk rq v = Quota_ok \<longleftrightarrow> within rq v"
  by (auto simp: check_values_def within_def split: prod.splits)

lemma quota_case_ok:
  "(case r of Quota_ok \<Rightarrow> x | f \<Rightarrow> f) = Quota_ok \<longleftrightarrow> r = Quota_ok \<and> x = Quota_ok"
  by (cases r) auto

lemma check_rule_ok:
  "check_rule job r c = Quota_ok \<longleftrightarrow>
     (\<forall>(ck, v) \<in> set c. rule_matches job (fst r) ck \<longrightarrow> within (snd r) v)"
  by (induction job r c rule: check_rule.induct)
    (simp_all only: check_rule.simps quota_case_ok check_values_ok split: if_split, auto)

lemma check_rules_ok:
  "check_rules job rs c = Quota_ok \<longleftrightarrow>
     (\<forall>(rk, rq) \<in> set rs. \<forall>(ck, v) \<in> set c. rule_matches job rk ck \<longrightarrow> within rq v)"
  by (induction rs) (auto simp only: check_rules.simps quota_case_ok check_rule_ok, auto)

text \<open>
  The order on counters: every counter present in the smaller is present in the larger and at
  least as large there.
\<close>

definition triple_le :: "triple \<Rightarrow> triple \<Rightarrow> bool" where
  "triple_le v w \<longleftrightarrow> fst v \<le> fst w \<and> fst (snd v) \<le> fst (snd w) \<and> snd (snd v) \<le> snd (snd w)"

definition counters_le :: "counters \<Rightarrow> counters \<Rightarrow> bool" where
  "counters_le c d \<longleftrightarrow> fst ` set c \<subseteq> fst ` set d \<and> (\<forall>k. triple_le (counter c k) (counter d k))"

definition counters_ok :: "counters \<Rightarrow> bool" where
  "counters_ok c \<longleftrightarrow> distinct (map fst c) \<and> (\<forall>k. triple_le (0, 0, 0) (counter c k))"

lemma triple_le_refl [simp]: "triple_le v v"
  by (simp add: triple_le_def)

lemma triple_le_trans: "\<lbrakk>triple_le u v; triple_le v w\<rbrakk> \<Longrightarrow> triple_le u w"
  by (auto simp: triple_le_def)

lemma counters_le_refl [simp]: "counters_le c c"
  by (simp add: counters_le_def)

lemma counters_le_trans: "\<lbrakk>counters_le c d; counters_le d e\<rbrakk> \<Longrightarrow> counters_le c e"
  unfolding counters_le_def by (meson order_trans triple_le_trans)

lemma counters_ok_Nil [simp]: "counters_ok []"
  by (simp add: counters_ok_def counter_def)

lemma counter_member: "\<lbrakk>(k, v) \<in> set c; distinct (map fst c)\<rbrakk> \<Longrightarrow> counter c k = v"
  by (simp add: counter_def)

lemma member_counter: "k \<in> fst ` set c \<Longrightarrow> (k, counter c k) \<in> set c"
  by (auto simp: counter_def map_of_eq_None_iff split: option.splits dest: map_of_SomeD)

lemma within_mono: "\<lbrakk>within rq w; triple_le v w\<rbrakk> \<Longrightarrow> within rq v"
  by (auto simp: within_def triple_le_def split: prod.splits)

lemma check_rules_mono:
  assumes "check_rules job rs d = Quota_ok" "counters_le c d" "distinct (map fst c)"
  shows "check_rules job rs c = Quota_ok"
  unfolding check_rules_ok
proof (safe)
  fix rk rq ck v
  assume r: "(rk, rq) \<in> set rs" and c: "(ck, v) \<in> set c" and m: "rule_matches job rk ck"
  from c have "ck \<in> fst ` set c" by force
  with assms(2) have "(ck, counter d ck) \<in> set d"
    by (intro member_counter) (auto simp: counters_le_def)
  with r m assms(1) have "within rq (counter d ck)" by (auto simp: check_rules_ok)
  moreover have "triple_le v (counter d ck)"
    using assms(2) counter_member [OF c assms(3)] by (auto simp: counters_le_def)
  ultimately show "within rq v" by (rule within_mono)
qed

lemma counter_bump: "counter (bump f k c) k' = (if k' = k then f (counter c k) else counter c k')"
  by (simp add: counter_def bump_def update_conv')

lemma keys_bump: "fst ` set (bump f k c) = insert k (fst ` set c)"
  by (auto simp: bump_def dom_update)

lemma distinct_bump: "distinct (map fst c) \<Longrightarrow> distinct (map fst (bump f k c))"
  by (simp add: bump_def distinct_update)

lemma bump_mono:
  assumes "counters_le c d" "\<And>v w. triple_le v w \<Longrightarrow> triple_le (f v) (g w)"
  shows "counters_le (bump f k c) (bump g k d)"
  using assms by (auto simp: counters_le_def counter_bump keys_bump)

lemma bump_ok:
  assumes "counters_ok c" "\<And>v. triple_le (0, 0, 0) v \<Longrightarrow> triple_le (0, 0, 0) (f v)"
  shows "counters_ok (bump f k c)"
  using assms by (auto simp: counters_ok_def counter_bump distinct_bump)

lemma fold_bump_mono:
  assumes "counters_le c d" "\<And>v w. triple_le v w \<Longrightarrow> triple_le (f v) (f w)"
  shows "counters_le (fold (bump f) ks c) (fold (bump f) ks d)"
  using assms(1) by (induction ks arbitrary: c d) (auto intro: bump_mono assms(2))

lemma fold_bump_ok:
  assumes "counters_ok c" "\<And>v. triple_le (0, 0, 0) v \<Longrightarrow> triple_le (0, 0, 0) (f v)"
  shows "counters_ok (fold (bump f) ks c)"
  using assms(1) by (induction ks arbitrary: c) (auto intro: bump_ok assms(2))

lemma update_type_mono:
  "counters_le c d \<Longrightarrow>
   counters_le (update_type queue proj user nb dur t c) (update_type queue proj user nb dur t d)"
  unfolding update_type_def Let_def
  by (intro fold_bump_mono) (auto simp: triple_le_def)

lemma update_type_ok:
  "\<lbrakk>counters_ok c; 0 \<le> nb; 0 \<le> dur\<rbrakk> \<Longrightarrow>
   counters_ok (update_type queue proj user nb dur t c)"
  unfolding update_type_def Let_def
  by (intro fold_bump_ok) (auto simp: triple_le_def)

text \<open>Counting the same job keeps the order of two sets of counters.\<close>

lemma quotas_update_mono:
  assumes "counters_le (counters q) (counters q')"
  shows "counters_le (counters (quotas_update P E q job nb dur))
                     (counters (quotas_update P E q' job nb dur))"
proof -
  have "counters_le (fold (update_type a b u n d) ks c) (fold (update_type a b u n d) ks c')"
    if "counters_le c c'" for a b u n d ks c c'
    using that by (induction ks arbitrary: c c') (auto intro: update_type_mono)
  with assms show ?thesis by (simp add: quotas_update_def Let_def)
qed

lemma quotas_update_ok:
  assumes "counters_ok (counters q)"
    and "res_set job = None \<Longrightarrow> 0 \<le> nb"
    and "case walltime job of None \<Rightarrow> 0 \<le> dur | Some w \<Rightarrow> 0 \<le> w"
  shows "counters_ok (counters (quotas_update P E q job nb dur))"
proof -
  have "counters_ok (fold (update_type a b u n d) ks c)"
    if "counters_ok c" "0 \<le> n" "0 \<le> d" for a b u n d ks c
    using that by (induction ks arbitrary: c) (auto intro: update_type_ok)
  with assms show ?thesis by (auto simp: quotas_update_def Let_def split: option.splits)
qed

text \<open>A combination bounds both of its parts.\<close>

lemma combine_spec:
  assumes "counters_ok (counters q)" "counters_ok (counters other)"
  shows "counters_ok (counters (quotas_combine q other)) \<and>
         counters_le (counters q) (counters (quotas_combine q other)) \<and>
         counters_le (counters other) (counters (quotas_combine q other))"
proof -
  let ?f = "\<lambda>(k, v0, v1, v2). bump (\<lambda>(a, b, w). (max a v0, max b v1, w + v2)) k"
  have step: "counters_ok (?f (k, v) c) \<and> counters_le c (?f (k, v) c) \<and>
      k \<in> fst ` set (?f (k, v) c) \<and> triple_le v (counter (?f (k, v) c) k)"
    if "counters_ok c" "triple_le (0, 0, 0) v" for c k v
    using that
  proof -
    obtain v0 v1 v2 where v: "v = (v0, v1, v2)" by (cases v)
    let ?g = "\<lambda>(a, b, w). (max a v0, max b v1, w + v2)"
    have ge: "triple_le u (?g u)" for u :: triple
      using that(2) by (cases u) (auto simp: triple_le_def v)
    have gv: "triple_le v (?g u)" if "triple_le (0, 0, 0) u" for u :: triple
      using that by (cases u) (auto simp: triple_le_def v)
    from that(1) have c: "triple_le (0, 0, 0) (counter c k)" by (auto simp: counters_ok_def)
    have "counters_ok (bump ?g k c)"
      using that(1) ge by (intro bump_ok) (auto intro: triple_le_trans)
    with gv [OF c] ge show ?thesis
      by (auto simp: v counters_le_def counter_bump keys_bump)
  qed
  have "counters_ok (fold ?f xs c) \<and> counters_le c (fold ?f xs c) \<and>
      (\<forall>(k, v) \<in> set xs. k \<in> fst ` set (fold ?f xs c) \<and> triple_le v (counter (fold ?f xs c) k))"
    if "counters_ok c" "\<forall>(k, v) \<in> set xs. triple_le (0, 0, 0) v" for xs c
    using that
  proof (induction xs arbitrary: c)
    case (Cons x xs)
    obtain k v where x: "x = (k, v)" by (cases x)
    define c' where "c' = ?f (k, v) c"
    from step [of c v k] Cons.prems x have c': "counters_ok c'" "counters_le c c'"
      "k \<in> fst ` set c'" "triple_le v (counter c' k)" by (auto simp: c'_def)
    with Cons.IH [of c'] Cons.prems have IH: "counters_ok (fold ?f xs c')"
      "counters_le c' (fold ?f xs c')"
      "\<forall>(k, v) \<in> set xs. k \<in> fst ` set (fold ?f xs c') \<and> triple_le v (counter (fold ?f xs c') k)"
      by auto
    moreover from c' IH(2) have "k \<in> fst ` set (fold ?f xs c')"
      "triple_le v (counter (fold ?f xs c') k)"
      by (auto simp: counters_le_def intro: triple_le_trans)
    moreover have "fold ?f (x # xs) c = fold ?f xs c'" by (simp add: x c'_def)
    ultimately show ?case using c'(2) x by (auto intro: counters_le_trans)
  qed simp
  note comb = this [of "counters q" "counters other"]
  define d where "d = fold ?f (counters other) (counters q)"
  have nonneg: "\<forall>(k, v) \<in> set (counters other). triple_le (0, 0, 0) v"
    using assms(2) by (auto simp: counters_ok_def) (metis counter_member)
  from comb [OF assms(1) this] have d: "counters_ok d" "counters_le (counters q) d"
    "\<forall>(k, v) \<in> set (counters other). k \<in> fst ` set d \<and> triple_le v (counter d k)"
    by (auto simp: d_def)
  have "triple_le (counter (counters other) k) (counter d k)" for k
  proof (cases "map_of (counters other) k")
    case None
    with d(1) show ?thesis by (simp add: counter_def [of "counters other"] counters_ok_def)
  next
    case (Some v)
    then have "(k, v) \<in> set (counters other)" by (rule map_of_SomeD)
    with d(3) Some show ?thesis by (auto simp: counter_def [of "counters other"])
  qed
  moreover have "fst ` set (counters other) \<subseteq> fst ` set d" using d(3) by auto
  ultimately have "counters_le (counters other) d" by (simp add: counters_le_def)
  with d show ?thesis by (simp add: quotas_combine_def d_def)
qed

text \<open>One pass over distinct keys changes each of them once.\<close>

lemma counter_fold_bump:
  "distinct ks \<Longrightarrow>
   counter (fold (bump f) ks c) k = (if k \<in> set ks then f (counter c k) else counter c k)"
  by (induction ks arbitrary: c) (auto simp: counter_bump)

lemma update_keys_distinct:
  "\<lbrakk>queue \<noteq> ''*''; proj \<noteq> ''*''; user \<noteq> ''*''\<rbrakk> \<Longrightarrow> distinct (update_keys queue proj user t)"
  by (auto simp: update_keys_def)

lemma set_update_keys:
  "(a, b, t', d) \<in> set (update_keys queue proj user t) \<longleftrightarrow>
     a \<in> {''*'', queue} \<and> b \<in> {''*'', proj} \<and> d \<in> {''*'', user} \<and> t' = t"
  by (auto simp: update_keys_def)

lemma counter_update_type:
  assumes "queue \<noteq> ''*''" "proj \<noteq> ''*''" "user \<noteq> ''*''"
  shows "counter (update_type queue proj user nb dur t c) k =
     (if k \<in> set (update_keys queue proj user t)
      then (fst (counter c k) + nb, fst (snd (counter c k)) + 1, snd (snd (counter c k)) + nb * dur)
      else counter c k)"
  using update_keys_distinct [OF assms, of t]
  by (cases "counter c k") (auto simp: update_type_def Let_def counter_fold_bump)

lemma counter_fold_update_type:
  assumes "queue \<noteq> ''*''" "proj \<noteq> ''*''" "user \<noteq> ''*''" "distinct tys"
  shows "counter (fold (update_type queue proj user nb dur) tys c) (a, b, t, d) =
     (let v = counter c (a, b, t, d)
      in if t \<in> set tys \<and> (a, b, t, d) \<in> set (update_keys queue proj user t)
         then (fst v + nb, fst (snd v) + 1, snd (snd v) + nb * dur) else v)"
  using assms(4)
proof (induction tys arbitrary: c)
  case (Cons x xs)
  then show ?case
    by (auto simp: counter_update_type [OF assms(1-3)] set_update_keys Let_def)
qed simp

section \<open>The counters as sums over jobs\<close>

text \<open>
  A job that is counted comes with the two numbers that \<open>update\<close> takes for a job that is not placed. \<open>counted E k job\<close>:
  the job is among those that the key \<open>k\<close> stands for.
\<close>

type_synonym 'p counted_job = "'p job \<times> int \<times> int"

definition job_nb :: "'p procset_ops \<Rightarrow> 'p quotas_env \<Rightarrow> 'p counted_job \<Rightarrow> int" where
  "job_nb P E x = (case x of (job, nb, dur) \<Rightarrow>
     (case res_set job of Some rs \<Rightarrow> int (ps_len P (ps_inter P rs (q_default_itvs E))) | None \<Rightarrow> nb))"

definition job_duration :: "'p counted_job \<Rightarrow> int" where
  "job_duration x = (case x of (job, nb, dur) \<Rightarrow> (case walltime job of Some w \<Rightarrow> w | None \<Rightarrow> dur))"

definition counted :: "'p quotas_env \<Rightarrow> quota_key \<Rightarrow> 'p job \<Rightarrow> bool" where
  "counted E k job = (case k of (a, b, t, d) \<Rightarrow>
     t \<in> set (q_job_types E) \<and> (t = ''*'' \<or> has_type job t) \<and>
     a \<in> {''*'', queue_name job} \<and> b \<in> {''*'', project job} \<and> d \<in> {''*'', job_user job})"

definition usage :: "'p procset_ops \<Rightarrow> 'p quotas_env \<Rightarrow> 'p counted_job list \<Rightarrow> quota_key \<Rightarrow> triple" where
  "usage P E xs k = (let ys = filter (\<lambda>x. counted E k (fst x)) xs in
     (sum_list (map (job_nb P E) ys), int (length ys), sum_list (map (\<lambda>x. job_nb P E x * job_duration x) ys)))"

definition count_jobs :: "'p procset_ops \<Rightarrow> 'p quotas_env \<Rightarrow> 'p counted_job list \<Rightarrow> quotas" where
  "count_jobs P E xs = fold (\<lambda>(job, nb, dur) q. quotas_update P E q job nb dur) xs (new_quotas E)"

text \<open>Names of a job that are not the wildcard.\<close>

definition plain_job :: "'p job \<Rightarrow> bool" where
  "plain_job job \<longleftrightarrow> queue_name job \<noteq> ''*'' \<and> project job \<noteq> ''*'' \<and> job_user job \<noteq> ''*''"

lemma keys_fold_bump: "fst ` set (fold (bump f) ks c) = set ks \<union> fst ` set c"
  by (induction ks arbitrary: c) (auto simp: keys_bump)

lemma distinct_fold_bump: "distinct (map fst c) \<Longrightarrow> distinct (map fst (fold (bump f) ks c))"
  by (induction ks arbitrary: c) (simp_all add: distinct_bump)

lemma update_type_keys:
  "fst ` set (update_type queue proj user nb dur t c) = set (update_keys queue proj user t) \<union> fst ` set c"
  "distinct (map fst c) \<Longrightarrow> distinct (map fst (update_type queue proj user nb dur t c))"
  by (simp_all add: update_type_def Let_def keys_fold_bump distinct_fold_bump)

lemma fold_update_type_keys:
  "fst ` set (fold (update_type queue proj user nb dur) tys c) =
     (\<Union>t \<in> set tys. set (update_keys queue proj user t)) \<union> fst ` set c"
  "distinct (map fst c) \<Longrightarrow> distinct (map fst (fold (update_type queue proj user nb dur) tys c))"
  by (induction tys arbitrary: c) (auto simp: update_type_keys)

lemma update_counted:
  assumes "distinct (q_job_types E)" "plain_job job"
  shows "counter (counters (quotas_update P E q job nb dur)) k =
      (let v = counter (counters q) k; x = (job, nb, dur) in
       if counted E k job then (fst v + job_nb P E x, fst (snd v) + 1, snd (snd v) + job_nb P E x * job_duration x)
       else v)"
    "fst ` set (counters (quotas_update P E q job nb dur)) = {k. counted E k job} \<union> fst ` set (counters q)"
    "distinct (map fst (counters q)) \<Longrightarrow> distinct (map fst (counters (quotas_update P E q job nb dur)))"
proof -
  obtain a b t d where k: "k = (a, b, t, d)" by (cases k)
  show "counter (counters (quotas_update P E q job nb dur)) k =
      (let v = counter (counters q) k; x = (job, nb, dur) in
       if counted E k job then (fst v + job_nb P E x, fst (snd v) + 1, snd (snd v) + job_nb P E x * job_duration x)
       else v)"
    using assms unfolding k plain_job_def
    by (simp add: quotas_update_def Let_def counter_fold_update_type set_update_keys counted_def job_nb_def
        job_duration_def) metis
  show "fst ` set (counters (quotas_update P E q job nb dur)) = {k. counted E k job} \<union> fst ` set (counters q)"
    by (auto simp: quotas_update_def Let_def fold_update_type_keys set_update_keys counted_def)
  show "distinct (map fst (counters q)) \<Longrightarrow> distinct (map fst (counters (quotas_update P E q job nb dur)))"
    by (simp add: quotas_update_def Let_def fold_update_type_keys)
qed

lemma count_jobs_spec:
  assumes "distinct (q_job_types E)" "\<forall>x \<in> set xs. plain_job (fst x)"
  shows "counter (counters (count_jobs P E xs)) k = usage P E xs k \<and>
    fst ` set (counters (count_jobs P E xs)) = {k. \<exists>x \<in> set xs. counted E k (fst x)} \<and>
    distinct (map fst (counters (count_jobs P E xs))) \<and> rules (count_jobs P E xs) = q_default_rules E"
  using assms(2)
proof (induction xs arbitrary: k rule: rev_induct)
  case Nil
  show ?case by (simp add: count_jobs_def new_quotas_def counter_def usage_def Let_def)
next
  case (snoc x xs)
  obtain job nb dur where x: "x = (job, nb, dur)" by (cases x)
  have step: "count_jobs P E (xs @ [x]) = quotas_update P E (count_jobs P E xs) job nb dur"
    by (simp add: count_jobs_def x)
  have "plain_job job" using snoc.prems by (simp add: x)
  note u = update_counted [OF assms(1) this]
  have IH: "counter (counters (count_jobs P E xs)) k = usage P E xs k" for k using snoc by simp
  have "counter (counters (count_jobs P E (xs @ [x]))) k = usage P E (xs @ [x]) k"
    unfolding step u(1) IH by (simp add: x usage_def Let_def)
  moreover have "fst ` set (counters (count_jobs P E (xs @ [x]))) = {k. \<exists>x \<in> set (xs @ [x]). counted E k (fst x)}"
    unfolding step u(2) using snoc by (auto simp: x)
  moreover have "distinct (map fst (counters (count_jobs P E (xs @ [x]))))"
    unfolding step by (rule u(3)) (use snoc in simp)
  moreover have "rules (count_jobs P E (xs @ [x])) = q_default_rules E"
    unfolding step using snoc by (simp add: quotas_update_def Let_def)
  ultimately show ?case by simp
qed

text \<open>
  The keys that a rule bounds for a job: \<open>*\<close> is the total, a name is itself when it is the job's, and \<open>/\<close> is every
  name and the total.
\<close>

definition field_scope :: "string \<Rightarrow> string \<Rightarrow> string \<Rightarrow> bool" where
  "field_scope own rl x = (if rl = ''/'' then True else x = rl \<and> rl \<in> {''*'', own})"

definition rule_scope :: "'p job \<Rightarrow> quota_key \<Rightarrow> quota_key \<Rightarrow> bool" where
  "rule_scope job rk k = (case rk of (rl_queue, rl_project, rl_job_type, rl_user) \<Rightarrow> case k of (a, b, t, d) \<Rightarrow>
     field_scope (queue_name job) rl_queue a \<and> field_scope (project job) rl_project b \<and>
     (t = rl_job_type \<and> (t = ''*'' \<or> has_type job t)) \<and> field_scope (job_user job) rl_user d)"

lemma rule_matches_scope: "rule_matches job rk k = rule_scope job rk k"
proof -
  have name: "(rl = ''*'' \<and> x = ''*'' \<or> rl = x \<and> own = x \<or> rl = ''/'') = field_scope own rl x" for rl x own
    unfolding field_scope_def by auto
  have jtype: "(rl = ''*'' \<and> x = ''*'' \<or> rl = x \<and> has_type job x) = (x = rl \<and> (x = ''*'' \<or> has_type job x))" for rl x
    by blast
  show ?thesis by (cases rk; cases k) (simp only: rule_matches_def rule_scope_def prod.case name jtype)
qed

lemma split_Ball: "(\<forall>(k, v) \<in> S. Q k v) \<longleftrightarrow> (\<forall>k v. (k, v) \<in> S \<longrightarrow> Q k v)"
  by auto

lemma count_jobs_members:
  assumes "distinct (q_job_types E)" "\<forall>x \<in> set xs. plain_job (fst x)"
  shows "(k, v) \<in> set (counters (count_jobs P E xs)) \<longleftrightarrow> (\<exists>x \<in> set xs. counted E k (fst x)) \<and> v = usage P E xs k"
proof -
  note spec = count_jobs_spec [OF assms, of P]
  have "k \<in> fst ` set (counters (count_jobs P E xs)) \<longleftrightarrow> (\<exists>x \<in> set xs. counted E k (fst x))"
    using spec by blast
  moreover have "(k, v) \<in> set (counters (count_jobs P E xs)) \<longleftrightarrow>
      k \<in> fst ` set (counters (count_jobs P E xs)) \<and> v = counter (counters (count_jobs P E xs)) k"
  proof
    assume kv: "(k, v) \<in> set (counters (count_jobs P E xs))"
    hence "counter (counters (count_jobs P E xs)) k = v" by (rule counter_member) (use spec in blast)
    thus "k \<in> fst ` set (counters (count_jobs P E xs)) \<and> v = counter (counters (count_jobs P E xs)) k"
      using imageI [OF kv, of fst] by simp
  next
    assume "k \<in> fst ` set (counters (count_jobs P E xs)) \<and> v = counter (counters (count_jobs P E xs)) k"
    thus "(k, v) \<in> set (counters (count_jobs P E xs))" using member_counter by blast
  qed
  moreover have "counter (counters (count_jobs P E xs)) k = usage P E xs k" using spec by blast
  ultimately show ?thesis by (simp only:)
qed

section \<open>Properties\<close>

text \<open>
  C38. What \<open>update\<close> and \<open>check\<close> decide together. After any jobs have been counted, \<open>check\<close> answers "quotas ok" exactly
  when, for every rule and every key in its scope under which one of them was counted, the resources, the number and the
  resource-seconds of all the counted jobs that the key stands for are within the three limits of the rule.
\<close>

theorem quotas_check_usage:
  assumes "distinct (q_job_types E)" "\<forall>x \<in> set xs. plain_job (fst x)"
  shows "quotas_check (count_jobs P E xs) job = Quota_ok \<longleftrightarrow>
    (\<forall>(rk, rq) \<in> set (q_default_rules E). \<forall>x \<in> set xs. \<forall>k. counted E k (fst x) \<and> rule_scope job rk k \<longrightarrow>
       within rq (usage P E xs k))"
proof -
  have "rules (count_jobs P E xs) = q_default_rules E" using count_jobs_spec [OF assms] by blast
  moreover have "(\<forall>(k, v) \<in> set (counters (count_jobs P E xs)). rule_scope job rk k \<longrightarrow> within rq v) \<longleftrightarrow>
      (\<forall>x \<in> set xs. \<forall>k. counted E k (fst x) \<and> rule_scope job rk k \<longrightarrow> within rq (usage P E xs k))" for rk rq
    unfolding split_Ball count_jobs_members [OF assms] by blast
  ultimately show ?thesis by (simp only: quotas_check_def check_rules_ok rule_matches_scope)
qed

text \<open>
  C39. The class says that \<open>/\<close> makes a quota "per" user and that a specific value is taken instead of it. The code does
  neither: a rule for \<open>/\<close> bounds the total of all users as well, and each user whatever other rules name this user.
\<close>

theorem slash_rule_bounds_total:
  assumes "distinct (q_job_types E)" "\<forall>x \<in> set xs. plain_job (fst x)" "''*'' \<in> set (q_job_types E)" "xs \<noteq> []"
    and "((''*'', ''*'', ''*'', ''/''), rq) \<in> set (q_default_rules E)"
    and "quotas_check (count_jobs P E xs) job = Quota_ok"
  shows "within rq (sum_list (map (job_nb P E) xs), int (length xs),
      sum_list (map (\<lambda>x. job_nb P E x * job_duration x) xs)) \<and>
    (\<forall>x \<in> set xs. within rq (usage P E xs (''*'', ''*'', ''*'', job_user (fst x))))"
proof (intro conjI ballI)
  have "rules (count_jobs P E xs) = q_default_rules E" using count_jobs_spec [OF assms(1,2)] by blast
  hence ok: "within rq (usage P E xs k)"
    if "x \<in> set xs" "counted E k (fst x)" "rule_scope job (''*'', ''*'', ''*'', ''/'') k" for x k
    using assms(5,6) that count_jobs_members [OF assms(1,2), of k _ P]
    unfolding quotas_check_def check_rules_ok rule_matches_scope by fastforce
  have scope: "rule_scope job (''*'', ''*'', ''*'', ''/'') (''*'', ''*'', ''*'', d)" for d
    by (simp add: rule_scope_def field_scope_def)
  have all: "counted E (''*'', ''*'', ''*'', ''*'') (fst x)" for x
    using assms(3) by (simp add: counted_def)
  obtain x where "x \<in> set xs" using assms(4) by (cases xs) auto
  moreover have "filter (\<lambda>x. counted E (''*'', ''*'', ''*'', ''*'') (fst x)) xs = xs" by (simp add: all)
  ultimately
  show "within rq (sum_list (map (job_nb P E) xs), int (length xs),
      sum_list (map (\<lambda>x. job_nb P E x * job_duration x) xs))" using ok [OF _ all scope] by (auto simp: usage_def)
  fix x assume "x \<in> set xs"
  thus "within rq (usage P E xs (''*'', ''*'', ''*'', job_user (fst x)))"
    using ok [OF _ _ scope, of x] assms(3) by (simp add: counted_def)
qed

definition example_job :: "nat list job" where
  "example_job = (job_pseudo 1 0 10 [1,2,3] False No_placeholder)\<lparr>job_user := ''alice'',
     project := ''p'', types := [(''besteffort'', [])]\<rparr>"

definition example_env :: "nat list quotas_env" where
  "example_env = \<lparr>q_enabled = True, q_default_rules = [((''*'', ''*'', ''*'', ''/''), (3, -1, -1))],
     q_job_types = [''*''], q_default_itvs = [1,2,3,4]\<rparr>"

lemma example_plain: "plain_job example_job" "distinct (q_job_types example_env)"
  by (simp_all add: plain_job_def example_job_def example_env_def job_pseudo_def)

theorem quotas_check_usage_witness:
  "quotas_check (count_jobs list_procset example_env [(example_job, 0, 0)]) example_job = Quota_ok"
proof -
  have "within rq (usage list_procset example_env [(example_job, 0, 0)] k)"
    if "(rk, rq) \<in> set (q_default_rules example_env)" "counted example_env k example_job" for rk rq k
  proof -
    have "usage list_procset example_env [(example_job, 0, 0)] k =
        (job_nb list_procset example_env (example_job, 0, 0), 1,
         job_nb list_procset example_env (example_job, 0, 0) * job_duration (example_job, 0, 0))"
      using that(2) by (simp add: usage_def)
    moreover have "job_nb list_procset example_env (example_job, 0, 0) = 3" by code_simp
    ultimately show ?thesis using that(1) by (auto simp: example_env_def within_def)
  qed
  thus ?thesis
    using quotas_check_usage [of example_env "[(example_job, 0, 0)]" list_procset example_job] example_plain
    by fastforce
qed

text \<open>
  Alice and Bob use two resources each. Three per user are allowed, and ten to Alice; the second of them is refused.
\<close>

definition shared_env :: "nat list quotas_env" where
  "shared_env = \<lparr>q_enabled = True, q_default_rules = [((''*'', ''*'', ''*'', ''/''), (3, -1, -1)),
     ((''*'', ''*'', ''*'', ''alice''), (10, -1, -1))], q_job_types = [''*''], q_default_itvs = [1,2,3,4]\<rparr>"

definition shared_jobs :: "nat list counted_job list" where
  "shared_jobs = [(example_job\<lparr>res_set := Some [1, 2]\<rparr>, 0, 0),
     (example_job\<lparr>job_user := ''bob'', res_set := Some [3, 4]\<rparr>, 0, 0)]"

theorem slash_rule_bounds_total_witness:
  "quotas_check (count_jobs list_procset shared_env shared_jobs) example_job \<noteq> Quota_ok \<and>
   fst (usage list_procset shared_env shared_jobs (''*'', ''*'', ''*'', ''alice'')) = 2 \<and>
   fst (usage list_procset shared_env shared_jobs (''*'', ''*'', ''*'', ''bob'')) = 2"
proof (intro conjI notI)
  assume ok: "quotas_check (count_jobs list_procset shared_env shared_jobs) example_job = Quota_ok"
  have plain: "\<forall>x \<in> set shared_jobs. plain_job (fst x)"
    by (simp add: shared_jobs_def plain_job_def example_job_def job_pseudo_def)
  have "sum_list (map (job_nb list_procset shared_env) shared_jobs) = 4" by code_simp
  thus False
    using conjunct1 [OF slash_rule_bounds_total [OF _ plain _ _ _ ok, of "(3, -1, -1)"]]
    by (auto simp: shared_env_def within_def) (simp_all add: shared_jobs_def)
next
  show "fst (usage list_procset shared_env shared_jobs (''*'', ''*'', ''*'', ''alice'')) = 2"
    "fst (usage list_procset shared_env shared_jobs (''*'', ''*'', ''*'', ''bob'')) = 2" by code_simp+
qed

text \<open>
  \<open>Quotas.update\<close> counts a job once under every combination of its queue, project and user
  with the wildcard, for the wildcard type and for each of its own types that the configuration
  names, and changes no other counter.
\<close>

theorem quotas_update_counters:
  assumes "distinct (q_job_types E)"
    and "queue_name job \<noteq> ''*''" "project job \<noteq> ''*''" "job_user job \<noteq> ''*''"
    and "nb = (case res_set job of Some rs \<Rightarrow> int (ps_len P (ps_inter P rs (q_default_itvs E)))
                                 | None \<Rightarrow> prev_nb)"
    and "dur = (case walltime job of Some w \<Rightarrow> w | None \<Rightarrow> prev_dur)"
    and "counter (counters q) (a, b, t, d) = (n, m, w)"
  shows "counter (counters (quotas_update P E q job prev_nb prev_dur)) (a, b, t, d) =
     (if t \<in> set (q_job_types E) \<and> (t = ''*'' \<or> has_type job t) \<and>
         a \<in> {''*'', queue_name job} \<and> b \<in> {''*'', project job} \<and> d \<in> {''*'', job_user job}
      then (n + nb, m + 1, w + nb * dur) else (n, m, w))"
  using assms counter_fold_update_type [OF assms(2-4), of "filter (\<lambda>t. t = ''*'' \<or> has_type job t)
      (q_job_types E)" nb dur "counters q" a b t d]
  by (auto simp: quotas_update_def Let_def set_update_keys)

theorem quotas_update_counters_witness:
  "counter (counters (quotas_update list_procset example_env (new_quotas example_env) example_job 0 0))
     (''default'', ''*'', ''*'', ''alice'') = (3, 1, 30)"
proof -
  have "counter (counters (quotas_update list_procset example_env (new_quotas example_env)
      example_job 0 0)) (''default'', ''*'', ''*'', ''alice'') =
      (if ''*'' \<in> set (q_job_types example_env) \<and> (''*'' = ''*'' \<or> has_type example_job ''*'') \<and>
          ''default'' \<in> {''*'', queue_name example_job} \<and> ''*'' \<in> {''*'', project example_job} \<and>
          ''alice'' \<in> {''*'', job_user example_job}
       then (0 + 3, 0 + 1, 0 + 3 * 10) else (0, 0, 0))"
    by (rule quotas_update_counters; code_simp)
  then show ?thesis
    by (simp add: example_env_def example_job_def job_pseudo_def)
qed

end
