(* ===== verification/Tools.thy ===== *)
theory Tools
  imports Oar_Prelude
begin

text \<open>
  Strings and durations: Python's \<open>str.split\<close>, \<open>str(int)\<close> and \<open>int(str)\<close> on ASCII strings, and the
  conversions of durations of \<open>oar/lib/tools.py\<close> that are written with them.
\<close>

section \<open>Python strings\<close>

definition is_space :: "char \<Rightarrow> bool" where
  "is_space c \<longleftrightarrow> c \<in> set [CHR '' '', CHR 0x09, CHR 0x0A, CHR 0x0B, CHR 0x0C, CHR 0x0D,
                       CHR 0x1C, CHR 0x1D, CHR 0x1E, CHR 0x1F]"

text \<open>\<open>s.split(c)\<close> for a one-character separator, and \<open>s.split()\<close>.\<close>

fun split_on :: "char \<Rightarrow> string \<Rightarrow> string list" where
  "split_on c [] = [[]]"
| "split_on c (x # xs) =
     (if x = c then [] # split_on c xs
      else (case split_on c xs of [] \<Rightarrow> [[x]] | w # ws \<Rightarrow> (x # w) # ws))"

fun split_words :: "string \<Rightarrow> string \<Rightarrow> string list" where
  "split_words w [] = (if w = [] then [] else [rev w])"
| "split_words w (x # xs) =
     (if is_space x then (if w = [] then split_words [] xs else rev w # split_words [] xs)
      else split_words (x # w) xs)"

definition py_split :: "string \<Rightarrow> string list" where
  "py_split s = split_words [] s"

definition py_strip :: "string \<Rightarrow> string" where
  "py_strip s = rev (dropWhile is_space (rev (dropWhile is_space s)))"

definition is_digit :: "char \<Rightarrow> bool" where
  "is_digit c \<longleftrightarrow> 48 \<le> (of_char c :: nat) \<and> (of_char c :: nat) < 58"

definition digit_val :: "char \<Rightarrow> int" where
  "digit_val c = int (of_char c) - 48"

definition digit_char :: "nat \<Rightarrow> char" where
  "digit_char d = char_of (48 + d)"

text \<open>\<open>str(n)\<close>.\<close>

fun nat_str :: "nat \<Rightarrow> string" where
  "nat_str n = (if n < 10 then [digit_char n] else nat_str (n div 10) @ [digit_char (n mod 10)])"

declare nat_str.simps [simp del]

definition int_str :: "int \<Rightarrow> string" where
  "int_str i = (if i < 0 then CHR ''-'' # nat_str (nat (- i)) else nat_str (nat i))"

text \<open>\<open>int(s)\<close>: digits, single underscores between them, a sign, surrounding white space.\<close>

fun parse_digits :: "int \<Rightarrow> string \<Rightarrow> int option" where
  "parse_digits acc [] = None"
| "parse_digits acc (c # cs) =
     (if is_digit c
      then (case cs of
              [] \<Rightarrow> Some (10 * acc + digit_val c)
            | d # ds \<Rightarrow> parse_digits (10 * acc + digit_val c)
                         (if d = CHR ''_'' then ds else d # ds))
      else None)"

definition py_int :: "string \<Rightarrow> int res" where
  "py_int s =
     (let (sgn, body) = (case py_strip s of
            [] \<Rightarrow> (1, [])
          | c # cs \<Rightarrow> if c = CHR ''-'' then (- 1, cs) else if c = CHR ''+'' then (1, cs)
                      else (1, c # cs))
      in case parse_digits 0 body of None \<Rightarrow> Inl ValueError | Some v \<Rightarrow> Inr (sgn * v))"

section \<open>Durations\<close>

definition hms_str_to_duration :: "string \<Rightarrow> int res" where
  "hms_str_to_duration s =
     (case split_on CHR '':'' s of
        [h] \<Rightarrow> res_bind (py_int h) (\<lambda>h. Inr (3600 * h))
      | [h, m] \<Rightarrow> res_bind (py_int h) (\<lambda>h. res_bind (py_int m) (\<lambda>m. Inr (3600 * h + 60 * m)))
      | h # m # s # _ \<Rightarrow>
          res_bind (py_int h) (\<lambda>h. res_bind (py_int m) (\<lambda>m. res_bind (py_int s) (\<lambda>s.
            Inr (3600 * h + 60 * m + s))))
      | [] \<Rightarrow> Inl IndexError)"

definition sql_to_hms :: "string \<Rightarrow> (string \<times> string \<times> string) res" where
  "sql_to_hms t =
     (let hms = split_on CHR '':'' t
      in res_bind (nth_res hms 0) (\<lambda>h. res_bind (nth_res hms 1) (\<lambda>m.
           res_bind (nth_res hms 2) (\<lambda>s. Inr (h, m, s)))))"

definition hms_to_sql :: "int \<Rightarrow> int \<Rightarrow> int \<Rightarrow> string" where
  "hms_to_sql hour mins sec = int_str hour @ '':'' @ int_str mins @ '':'' @ int_str sec"

definition hms_to_duration :: "string \<Rightarrow> string \<Rightarrow> string \<Rightarrow> int res" where
  "hms_to_duration hour mins sec =
     res_bind (py_int hour) (\<lambda>h. res_bind (py_int mins) (\<lambda>m. res_bind (py_int sec) (\<lambda>s.
       Inr (h * 3600 + m * 60 + s))))"

definition duration_to_hms :: "int \<Rightarrow> int \<times> int \<times> int" where
  "duration_to_hms t_sec =
     (let hour = t_sec div 3600; mins = (t_sec - hour * 3600) div 60; sec = t_sec mod 60
      in (hour, mins, sec))"

definition duration_to_sql :: "int \<Rightarrow> string" where
  "duration_to_sql t = (case duration_to_hms t of (hour, mins, sec) \<Rightarrow> hms_to_sql hour mins sec)"

definition duration_to_sql_signed :: "int \<Rightarrow> string" where
  "duration_to_sql_signed duration =
     (let sign = (if 0 < duration then ''+'' else if duration < 0 then ''-'' else [])
      in case duration_to_hms \<bar>duration\<bar> of (hour, mins, sec) \<Rightarrow> sign @ hms_to_sql hour mins sec)"

definition sql_to_duration :: "string \<Rightarrow> int res" where
  "sql_to_duration t =
     res_bind (sql_to_hms t) (\<lambda>(hour, mins, sec). hms_to_duration hour mins sec)"

text \<open>\<open>get_duration\<close>: weeks, days, hours, minutes and seconds, the zero ones left out.\<close>

fun py_join :: "string \<Rightarrow> string list \<Rightarrow> string" where
  "py_join sep [] = []"
| "py_join sep [s] = s"
| "py_join sep (s # ss) = s @ sep @ py_join sep ss"

fun divide_down :: "int list \<Rightarrow> int \<Rightarrow> int list \<Rightarrow> int list" where
  "divide_down [] seconds t = t @ [seconds]"
| "divide_down (dm # dms) seconds t = divide_down dms (seconds div dm) (t @ [seconds mod dm])"

definition get_duration :: "int \<Rightarrow> string" where
  "get_duration seconds =
     (let t = divide_down [60, 60, 24, 7] seconds []
      in py_join '', ''
           [int_str num @ '' '' @ unit.
              (num, unit) \<leftarrow> zip (rev t) [''wk'', ''d'', ''hr'', ''min'', ''sec''], num \<noteq> 0])"

section \<open>Reading back what was written\<close>

lemma digit_char_simps [simp]:
  assumes "d < 10"
  shows "is_digit (digit_char d)" "digit_val (digit_char d) = int d"
  using assms by (simp_all add: is_digit_def digit_val_def digit_char_def)

lemma digit_not [simp]:
  "is_digit c \<Longrightarrow> \<not> is_space c" "is_digit c \<Longrightarrow> c \<noteq> CHR '':''" "is_digit c \<Longrightarrow> c \<noteq> CHR ''-''"
  "is_digit c \<Longrightarrow> c \<noteq> CHR ''+''" "is_digit c \<Longrightarrow> c \<noteq> CHR ''_''"
  by (auto simp: is_digit_def is_space_def)

lemma nat_str_digits: "\<forall>c \<in> set (nat_str n). is_digit c"
proof (induction n rule: nat_str.induct)
  case (1 n)
  then show ?case by (subst nat_str.simps) auto
qed

lemma nat_str_nonempty [simp]: "nat_str n \<noteq> []"
  by (subst nat_str.simps) auto

text \<open>Digits are read from the left: \<open>digits_val\<close> is their value.\<close>

definition digits_val :: "int \<Rightarrow> string \<Rightarrow> int" where
  "digits_val acc ds = foldl (\<lambda>a c. 10 * a + digit_val c) acc ds"

lemma parse_digits_all:
  "\<lbrakk>\<forall>c \<in> set ds. is_digit c; ds \<noteq> []\<rbrakk> \<Longrightarrow> parse_digits acc ds = Some (digits_val acc ds)"
proof (induction ds arbitrary: acc)
  case (Cons d ds)
  then show ?case by (cases ds) (auto simp: digits_val_def)
qed simp

lemma digits_val_nat_str: "digits_val 0 (nat_str n) = int n"
proof (induction n rule: nat_str.induct)
  case (1 n)
  have "10 * int (n div 10) + int (n mod 10) = int n"
    using mult_div_mod_eq [of 10 n] by (metis of_nat_add of_nat_mult of_nat_numeral)
  with 1 show ?case
    by (subst nat_str.simps) (auto simp: digits_val_def)
qed

lemma strip_id: "\<lbrakk>s \<noteq> []; \<not> is_space (hd s); \<not> is_space (last s)\<rbrakk> \<Longrightarrow> py_strip s = s"
proof -
  assume s: "s \<noteq> []" "\<not> is_space (hd s)" "\<not> is_space (last s)"
  have drop: "dropWhile is_space t = t" if "t \<noteq> []" "\<not> is_space (hd t)" for t
    using that by (cases t) auto
  from s have "dropWhile is_space s = s" "dropWhile is_space (rev s) = rev s"
    by (auto intro!: drop simp: hd_rev)
  then show ?thesis by (simp add: py_strip_def)
qed

lemma py_int_nat_str: "py_int (nat_str n) = Inr (int n)"
proof -
  obtain c cs where s: "nat_str n = c # cs" by (cases "nat_str n") auto
  have "is_digit c" "is_digit (last (nat_str n))"
    using nat_str_digits [of n] s last_in_set [of "nat_str n"] by auto
  then have "py_strip (nat_str n) = nat_str n" by (intro strip_id) (auto simp: s)
  with \<open>is_digit c\<close> show ?thesis
    using parse_digits_all [OF nat_str_digits nat_str_nonempty, of 0 n]
    by (simp add: py_int_def s digits_val_nat_str [of n, unfolded s])
qed

lemma py_int_int_str: "0 \<le> i \<Longrightarrow> py_int (int_str i) = Inr i"
  by (simp add: int_str_def py_int_nat_str)

lemma split_on_none: "c \<notin> set s \<Longrightarrow> split_on c s = [s]"
  by (induction s) auto

lemma split_on_append: "c \<notin> set s \<Longrightarrow> split_on c (s @ c # r) = s # split_on c r"
  by (induction s) auto

lemma colon_int_str: "0 \<le> i \<Longrightarrow> CHR '':'' \<notin> set (int_str i)"
  using nat_str_digits [of "nat i"] by (auto simp: int_str_def) (metis digit_not(2))

section \<open>Properties\<close>

text \<open>
  Writing a duration in the SQL format and reading it back gives the duration, for every
  duration that is not negative.
\<close>

theorem sql_to_duration_roundtrip:
  assumes "0 \<le> t"
  shows "sql_to_duration (duration_to_sql t) = Inr t"
proof -
  define h m s where "h = t div 3600" and "m = (t - h * 3600) div 60" and "s = t mod 60"
  have nonneg: "0 \<le> h" "0 \<le> m" "0 \<le> s"
    using assms by (simp_all add: h_def m_def s_def minus_div_mult_eq_mod)
  have sum: "h * 3600 + m * 60 + s = t"
  proof -
    have "(t - h * 3600) mod 60 = s" unfolding s_def by (simp add: mod_diff_right_eq [symmetric])
    moreover have "(t - h * 3600) div 60 * 60 + (t - h * 3600) mod 60 = t - h * 3600" by simp
    ultimately show ?thesis by (simp add: m_def)
  qed
  have "split_on CHR '':'' (duration_to_sql t) = [int_str h, int_str m, int_str s]"
    using nonneg
    by (simp add: duration_to_sql_def duration_to_hms_def hms_to_sql_def Let_def h_def m_def s_def
        split_on_append split_on_none colon_int_str)
  then show ?thesis
    using nonneg sum
    by (simp add: sql_to_duration_def sql_to_hms_def hms_to_duration_def py_int_int_str)
qed

theorem sql_to_duration_roundtrip_witness: "sql_to_duration (duration_to_sql 7384) = Inr 7384"
  by (rule sql_to_duration_roundtrip) simp

end
