(* ===== verification/Calendar.thy ===== *)
theory Calendar
  imports Quotas Tools "HOL-Library.Multiset"
begin

text \<open>
  Class \<open>Calendar\<close> of \<open>oar/kao/quotas.py\<close>: the temporal quotas. The dictionaries \<open>periodicals\<close> and
  \<open>oneshots\<close> have the keys 0, 1, 2, ... in insertion order, so they are lists indexed by key.
  Three things are outside the file and are parameters: the JSON reader of one rule set
  (\<open>rules_of\<close>), the parser of a date (\<open>check_res\<close>, an error flag and the date) and the
  instant at which the local week of a date begins (\<open>week_origin\<close>, Python's \<open>datetime\<close> with the
  local time zone).
\<close>

type_synonym periodical = "int \<times> int \<times> int \<times> string"  \<comment> \<open>begin, duration, rules id, text\<close>
type_synonym oneshot = "int \<times> int \<times> int \<times> string"     \<comment> \<open>begin, end, rules id, description\<close>

record calendar =
  quotas_period :: int
  period_end :: int
  ordered_periodical_ids :: "nat list"
  op_index :: nat
  periodicals :: "periodical list"
  ordered_oneshot_ids :: "nat list"
  oneshots :: "oneshot list"
  oneshots_begin :: "int option"
  oneshots_end :: "int option"
  quotas_rules_list :: "rules list"
  quotas_rules2id :: "(string \<times> int) list"

abbreviation week :: int where "week \<equiv> 7 * 86400"

section \<open>Reading the configuration\<close>

definition day2week_offset :: "string \<rightharpoonup> int" where
  "day2week_offset =
     map_of (zip [''mon'', ''tue'', ''wed'', ''thu'', ''fri'', ''sat'', ''sun''] [0, 1, 2, 3, 4, 5, 6])"

text \<open>The hour range of a periodical entry: begin and duration.\<close>

definition parse_hours :: "string \<Rightarrow> (int \<times> int) res" where
  "parse_hours hm2 =
     (if hm2 = ''*'' then Inr (0, 24 * 3600)
      else case split_on CHR ''-'' hm2 of
             [hm0, hm1] \<Rightarrow>
               res_bind (hms_str_to_duration hm0) (\<lambda>b.
               res_bind (hms_str_to_duration hm1) (\<lambda>e.
                 Inr (b, if e \<noteq> 0 then e - b else 24 * 3600 - b)))
           | _ \<Rightarrow> Inl ValueError)"

text \<open>The days of an entry, and the duration that an interval of whole days gives it.\<close>

definition parse_days :: "string \<Rightarrow> string \<Rightarrow> int \<Rightarrow> (int list \<times> int) res" where
  "parse_days hm2 wday duration =
     (if wday = ''*'' then Inr ([0..6], duration)
      else if CHR ''-'' \<in> set wday then
        (case split_on CHR ''-'' wday of
           [s0, s1] \<Rightarrow>
             res_bind (lookup_res day2week_offset s0) (\<lambda>d0.
             res_bind (lookup_res day2week_offset s1) (\<lambda>d1.
               if hm2 = ''*''
               then (let d1' = (if d1 < d0 then d1 + 7 else d1)
                     in Inr ([d0], 86400 * (d1' - d0 + 1)))
               else Inr ([d0..d1], duration)))
         | _ \<Rightarrow> Inl ValueError)
      else res_bind (map_res (lookup_res day2week_offset) (split_on CHR '','' wday)) (\<lambda>ds.
             Inr (ds, duration)))"

text \<open>
  The loop that fills \<open>periodicals\<close>. An entry that runs over the end of the week is cut in two,
  and the shortened duration is the one that the following days get.
\<close>

fun fill_days :: "int list \<Rightarrow> int \<Rightarrow> int \<Rightarrow> int \<Rightarrow> string \<Rightarrow> periodical list \<Rightarrow> periodical list" where
  "fill_days [] b duration rid txt pers = pers"
| "fill_days (i # is) b duration rid txt pers =
     (let t0 = 86400 * i + b
      in if week < t0 + duration
         then (let duration0 = (t0 + duration) mod week;
                   duration' = duration - duration0
               in fill_days is b duration' rid txt
                    (pers @ [(0, duration0, rid, txt), (t0, duration', rid, txt)]))
         else fill_days is b duration rid txt (pers @ [(t0, duration, rid, txt)]))"

definition periodical_fromJson :: "calendar \<Rightarrow> string \<times> string \<Rightarrow> calendar res" where
  "periodical_fromJson cal p =
     (case py_split (fst p) of
        [hm2, wday, mday, month] \<Rightarrow>
          if mday \<noteq> ''*'' \<or> month \<noteq> ''*'' then Inl SystemExit
          else
            (case res_bind (parse_hours hm2) (\<lambda>(b, dur0).
                  res_bind (parse_days hm2 wday dur0) (\<lambda>(weekdays, dur).
                    if weekdays = [] then Inr (periodicals cal)
                    else res_bind (lookup_res (map_of (quotas_rules2id cal)) (snd p)) (\<lambda>rid.
                           Inr (fill_days weekdays b dur rid (fst p) (periodicals cal))))) of
               Inl _ \<Rightarrow> Inl SystemExit
             | Inr pers \<Rightarrow> Inr (cal\<lparr>periodicals := pers\<rparr>))
      | _ \<Rightarrow> Inl ValueError)"

definition oneshot_fromJson ::
  "(string \<Rightarrow> bool \<times> int) \<Rightarrow> calendar \<Rightarrow> string \<times> string \<times> string \<times> string \<Rightarrow> calendar res" where
  "oneshot_fromJson check_res cal sh =
     (case sh of (s0, s1, rules_name, description) \<Rightarrow>
      case check_res (s0 @ '':00'') of (error0, d0) \<Rightarrow>
      case check_res (s1 @ '':00'') of (error1, d1) \<Rightarrow>
        if error0 \<or> error1 then Inl SystemExit
        else
          (let ob = (case oneshots_begin cal of
                       None \<Rightarrow> Some d0
                     | Some b \<Rightarrow> if b = 0 \<or> d0 < b then Some d0 else Some b);
               oe = (case oneshots_end cal of
                       None \<Rightarrow> Some d1
                     | Some e \<Rightarrow> if e = 0 \<or> e < d1 then Some d1 else Some e)
           in res_bind (lookup_res (map_of (quotas_rules2id cal)) rules_name) (\<lambda>rid.
                Inr (cal\<lparr>oneshots_begin := ob, oneshots_end := oe,
                         oneshots := oneshots cal @ [(d0, d1, rid, description)]\<rparr>))))"

text \<open>\<open>sorted(range(n), key=lambda k: xs[k][0])\<close>, which is stable.\<close>

definition order_by_begin :: "(int \<times> 'a) list \<Rightarrow> nat list" where
  "order_by_begin xs = sort_key (\<lambda>k. fst (xs ! k)) [0..<length xs]"

text \<open>
  The loop that fills the gaps between the ordered entries with the default rules, and the gap at
  the end of the week.
\<close>

fun fill_gaps :: "int \<Rightarrow> periodical list \<Rightarrow> int \<Rightarrow> periodical list \<Rightarrow> int \<times> periodical list" where
  "fill_gaps dflt [] t pers = (t, pers)"
| "fill_gaps dflt (p # ps) t pers =
     (if t < week
      then (let t1 = fst p; duration = fst (snd p)
            in fill_gaps dflt ps (t1 + duration)
                 (if t \<noteq> t1 then pers @ [(t, t1 - t, dflt, ''*,*,*,*'')] else pers))
      else (t, pers))"

definition fill_default :: "int \<Rightarrow> periodical list \<Rightarrow> nat list \<Rightarrow> periodical list" where
  "fill_default dflt pers ids =
     (case fill_gaps dflt (map ((!) pers) ids) 0 pers of
        (t, pers') \<Rightarrow> if t \<noteq> week then pers' @ [(t, week - t, dflt, ''*,*,*,*'')] else pers')"

record json_quotas =
  j_periodical :: "(string \<times> string) list option"
  j_oneshot :: "(string \<times> string \<times> string \<times> string) list option"

definition empty_calendar :: "int \<Rightarrow> calendar" where
  "empty_calendar period =
     \<lparr>quotas_period = period, period_end = 0, ordered_periodical_ids = [], op_index = 0,
      periodicals = [], ordered_oneshot_ids = [], oneshots = [], oneshots_begin = None,
      oneshots_end = None, quotas_rules_list = [], quotas_rules2id = []\<rparr>"

definition load_rules :: "(string \<Rightarrow> rules res) \<Rightarrow> string \<Rightarrow> calendar \<Rightarrow> calendar res" where
  "load_rules rules_of name cal =
     (if name \<in> set (map fst (quotas_rules2id cal)) then Inr cal
      else res_bind (rules_of name) (\<lambda>r.
             Inr (cal\<lparr>quotas_rules_list := quotas_rules_list cal @ [r],
                      quotas_rules2id := quotas_rules2id cal @
                        [(name, int (length (quotas_rules_list cal)))]\<rparr>)))"

definition is_default_entry :: "string \<times> string \<Rightarrow> bool" where
  "is_default_entry p \<longleftrightarrow> fst p = ''*,*,*,*'' \<or> fst p = ''default''"

text \<open>\<open>Calendar.__init__\<close>.\<close>

definition load_periodicals :: "calendar \<Rightarrow> (string \<times> string) list \<Rightarrow> calendar res" where
  "load_periodicals cal ps =
     res_bind
       (fold_res (\<lambda>p (dflt, c).
          if is_default_entry p
          then res_bind (lookup_res (map_of (quotas_rules2id c)) (snd p)) (\<lambda>rid. Inr (Some rid, c))
          else res_bind (periodical_fromJson c p) (\<lambda>c'. Inr (dflt, c')))
          ps (None, cal))
       (\<lambda>(dflt, c).
          let ids = order_by_begin (periodicals c)
          in case dflt of
               None \<Rightarrow> Inr (c\<lparr>ordered_periodical_ids := ids\<rparr>)
             | Some d \<Rightarrow>
                 (let pers = fill_default d (periodicals c) ids
                  in Inr (c\<lparr>periodicals := pers, ordered_periodical_ids := order_by_begin pers\<rparr>)))"

definition new_calendar ::
  "(string \<Rightarrow> rules res) \<Rightarrow> (string \<Rightarrow> bool \<times> int) \<Rightarrow> int \<Rightarrow> json_quotas \<Rightarrow> calendar res" where
  "new_calendar rules_of check_res period j =
     (let names = (case j_periodical j of None \<Rightarrow> [] | Some ps \<Rightarrow> map snd ps) @
                  (case j_oneshot j of None \<Rightarrow> [] | Some os \<Rightarrow> map (fst \<circ> snd \<circ> snd) os)
      in res_bind (fold_res (load_rules rules_of) names (empty_calendar period)) (\<lambda>cal.
         res_bind (case j_periodical j of None \<Rightarrow> Inr cal | Some ps \<Rightarrow> load_periodicals cal ps) (\<lambda>cal.
           case j_oneshot j of
             None \<Rightarrow> Inr cal
           | Some os \<Rightarrow> res_bind (fold_res (\<lambda>sh c. oneshot_fromJson check_res c sh) os cal) (\<lambda>c.
                          Inr (c\<lparr>ordered_oneshot_ids := order_by_begin (oneshots c)\<rparr>)))))"

section \<open>Questions to the calendar\<close>

fun check_contiguous :: "periodical list \<Rightarrow> nat list \<Rightarrow> int \<Rightarrow> int + nat" where
  "check_contiguous pers [] t = Inl t"
| "check_contiguous pers (i # is) t =
     (if fst (pers ! i) \<noteq> t then Inr i
      else check_contiguous pers is (fst (pers ! i) + fst (snd (pers ! i))))"

definition check_periodicals :: "calendar \<Rightarrow> (bool \<times> nat option) res" where
  "check_periodicals cal =
     (case check_contiguous (periodicals cal) (ordered_periodical_ids cal) 0 of
        Inr i \<Rightarrow> Inr (False, Some i)
      | Inl t \<Rightarrow>
          if t \<noteq> 7 * 24 * 3600
          then (if ordered_periodical_ids cal = [] then Inl UnboundLocalError
                else Inr (False, Some (last (ordered_periodical_ids cal))))
          else Inr (True, None))"

text \<open>The loop of \<open>oneshot_at\<close>: (remaining duration, rules id, oneshot id).\<close>

fun oneshot_scan :: "oneshot list \<Rightarrow> nat list \<Rightarrow> int \<Rightarrow> int \<Rightarrow> int \<Rightarrow> int \<times> int \<times> int" where
  "oneshot_scan os [] t prd prid = (0, -1, -1)"
| "oneshot_scan os (r_id # ids) t prd prid =
     (case os ! r_id of (b, e, rid, _) \<Rightarrow>
        if b \<le> t \<and> t \<le> e then (e - t, rid, int r_id)
        else if t < b \<and> b < t + prd then (b - t, prid, int r_id)
        else oneshot_scan os ids t prd prid)"

definition oneshot_at :: "calendar \<Rightarrow> int \<Rightarrow> int \<Rightarrow> int \<Rightarrow> int \<times> int \<times> int" where
  "oneshot_at cal t_epoch prd prid =
     (if oneshots cal = [] then (0, -1, -1)
      else oneshot_scan (oneshots cal) (ordered_oneshot_ids cal) t_epoch prd prid)"

text \<open>
  The loop of \<open>periodical_rules_at\<close>: the position at which it breaks, or its last position. The
  test is the one of the source, \<open>t_periodicals_begin >= t and t <= t_periodicals_end\<close>.
\<close>

fun scan_periodicals :: "periodical list \<Rightarrow> int \<Rightarrow> nat \<Rightarrow> nat option" where
  "scan_periodicals [] t i = None"
| "scan_periodicals (p # ps) t i =
     (let b = fst p; e = b + fst (snd p) - 1
      in if b \<ge> t \<and> t \<le> e then Some i
         else (if ps = [] then Some i else scan_periodicals ps t (i + 1)))"

definition periodical_rules_at ::
  "(int \<Rightarrow> int) \<Rightarrow> calendar \<Rightarrow> int \<Rightarrow> (calendar \<times> int \<times> int) res" where
  "periodical_rules_at week_origin cal t_epoch =
     (let period_origin = week_origin t_epoch;
          cal1 = cal\<lparr>period_end := period_origin + quotas_period cal\<rparr>;
          ordered = map ((!) (periodicals cal)) (ordered_periodical_ids cal)
      in case scan_periodicals ordered (t_epoch - period_origin) 0 of
           None \<Rightarrow> Inl UnboundLocalError
         | Some i \<Rightarrow>
             (case ordered ! i of (b, d, rid, _) \<Rightarrow>
                Inr (cal1\<lparr>op_index := i\<rparr>, rid, d - (t_epoch - period_origin))))"

definition rules_at :: "(int \<Rightarrow> int) \<Rightarrow> calendar \<Rightarrow> int \<Rightarrow> (calendar \<times> int \<times> int) res" where
  "rules_at week_origin cal t_epoch =
     res_bind (periodical_rules_at week_origin cal t_epoch) (\<lambda>(cal', rid, remaining).
       case oneshot_at cal' t_epoch remaining rid of (o_remaining, o_rid, _) \<Rightarrow>
         if o_remaining \<noteq> 0 then Inr (cal', o_rid, o_remaining) else Inr (cal', rid, remaining))"

text \<open>\<open>next_rules\<close>: the rules id is \<open>None\<close> once the quotas period is over.\<close>

definition next_rules :: "calendar \<Rightarrow> int \<Rightarrow> (calendar \<times> int option \<times> int) res" where
  "next_rules cal t_epoch =
     (if period_end cal \<le> t_epoch then Inr (cal, None, 0)
      else if periodicals cal = [] then Inl ZeroDivisionError
      else
        (let i = (op_index cal + 1) mod length (periodicals cal)
         in res_bind (nth_res (ordered_periodical_ids cal) i) (\<lambda>index.
            res_bind (nth_res (periodicals cal) index) (\<lambda>(b, remaining, rid, _).
              let cal' = cal\<lparr>op_index := i\<rparr>
              in case oneshot_at cal' t_epoch remaining rid of (o_remaining, o_rid, _) \<Rightarrow>
                   if o_remaining \<noteq> 0 then Inr (cal', Some o_rid, o_remaining)
                   else Inr (cal', Some rid, remaining)))))"

section \<open>Contiguity\<close>

text \<open>\<open>tiles t ps u\<close>: the entries follow each other without gap or overlap from \<open>t\<close> to \<open>u\<close>.\<close>

fun tiles :: "int \<Rightarrow> periodical list \<Rightarrow> int \<Rightarrow> bool" where
  "tiles t [] u \<longleftrightarrow> t = u"
| "tiles t (p # ps) u \<longleftrightarrow> fst p = t \<and> tiles (t + fst (snd p)) ps u"

text \<open>\<open>fits t ps\<close>: the entries are in order, not empty, disjoint and inside the week from \<open>t\<close> on.\<close>

fun fits :: "int \<Rightarrow> periodical list \<Rightarrow> bool" where
  "fits t [] \<longleftrightarrow> t \<le> week"
| "fits t (p # ps) \<longleftrightarrow> t \<le> fst p \<and> 0 < fst (snd p) \<and> fits (fst p + fst (snd p)) ps"

abbreviation ordered :: "calendar \<Rightarrow> periodical list" where
  "ordered cal \<equiv> map ((!) (periodicals cal)) (ordered_periodical_ids cal)"

abbreviation in_order :: "(int \<times> 'a) list \<Rightarrow> (int \<times> 'a) list" where
  "in_order xs \<equiv> map ((!) xs) (order_by_begin xs)"

lemma check_contiguous_tiles:
  "check_contiguous pers ids t = Inl u \<longleftrightarrow> tiles t (map ((!) pers) ids) u"
  by (induction pers ids t rule: check_contiguous.induct) auto

lemma check_contiguous_in:
  "check_contiguous pers ids t = Inr i \<Longrightarrow> i \<in> set ids"
  by (induction pers ids t rule: check_contiguous.induct) (auto split: if_splits)

lemma fits_le: "fits t ps \<Longrightarrow> t \<le> week"
  by (induction ps arbitrary: t) force+

lemma mset_in_order: "mset (in_order xs) = mset xs"
proof -
  have "mset (in_order xs) = image_mset ((!) xs) (mset [0..<length xs])"
    by (simp add: order_by_begin_def)
  also have "\<dots> = mset (map ((!) xs) [0..<length xs])" by simp
  finally show ?thesis by (simp only: map_nth)
qed

lemma sorted_in_order: "sorted (map fst (in_order xs))"
proof -
  have "map fst (in_order xs) = map (\<lambda>k. fst (xs ! k)) (order_by_begin xs)" by simp
  then show ?thesis by (simp only: order_by_begin_def sorted_sort_key)
qed

lemma in_order_unique:
  assumes "mset ys = mset xs" "sorted (map fst ys)" "distinct (map fst ys)"
  shows "in_order xs = ys"
proof -
  have "mset (in_order xs) = mset ys" using assms(1) mset_in_order by metis
  moreover have "inj_on fst (set ys)" using assms(3) by (simp add: distinct_map)
  moreover have "set (in_order xs) = set ys" using calculation(1) by (metis set_mset_mset)
  ultimately show ?thesis
    using sort_key_inj_key_eq [of "in_order xs" ys fst] sorted_in_order assms(2)
      sort_key_inj_key_eq [of "in_order xs" "in_order xs" fst] by metis
qed

lemma tiles_positive_sorted:
  "\<lbrakk>tiles t ps u; \<forall>p \<in> set ps. 0 < fst (snd p)\<rbrakk> \<Longrightarrow>
   sorted (map fst ps) \<and> distinct (map fst ps) \<and> (\<forall>p \<in> set ps. t \<le> fst p)"
proof (induction ps arbitrary: t)
  case (Cons p ps)
  then have "0 < fst (snd p)" "fst p = t"
    and "sorted (map fst ps) \<and> distinct (map fst ps) \<and> (\<forall>q \<in> set ps. t + fst (snd p) \<le> fst q)"
    by auto
  then show ?case by force
qed simp

lemma tiles_append: "tiles t (ps @ qs) u \<longleftrightarrow> (\<exists>m. tiles t ps m \<and> tiles m qs u)"
  by (induction ps arbitrary: t) auto

lemma fill_gaps_tiles:
  assumes "fits t os"
  shows "\<exists>gaps t' T. fill_gaps d os t pers = (t', pers @ gaps) \<and> t' \<le> week \<and>
           mset T = mset os + mset gaps \<and> tiles t T t' \<and> (\<forall>p \<in> set T. 0 < fst (snd p))"
  using assms
proof (induction os arbitrary: t pers)
  case Nil
  then have "fill_gaps d [] t pers = (t, pers @ [])" "t \<le> week" by auto
  moreover have "mset [] = mset ([] :: periodical list) + mset []" "tiles t [] t" by auto
  ultimately show ?case by fastforce
next
  case (Cons p os)
  define g where "g = (if t \<noteq> fst p then [(t, fst p - t, d, ''*,*,*,*'')] else [])"
  from Cons.prems fits_le [of "fst p + fst (snd p)" os]
  have lt: "t < week" "t \<le> fst p" "0 < fst (snd p)" by auto
  from Cons.IH [of "fst p + fst (snd p)" "pers @ g"] Cons.prems obtain gaps t' T where
    IH: "fill_gaps d os (fst p + fst (snd p)) (pers @ g) = (t', (pers @ g) @ gaps)" "t' \<le> week"
      "mset T = mset os + mset gaps" "tiles (fst p + fst (snd p)) T t'"
      "\<forall>p \<in> set T. 0 < fst (snd p)" by auto
  have "fill_gaps d (p # os) t pers = fill_gaps d os (fst p + fst (snd p)) (pers @ g)"
    using lt by (simp add: g_def Let_def)
  with IH have "fill_gaps d (p # os) t pers = (t', pers @ (g @ gaps))" by simp
  moreover have "mset (g @ p # T) = mset (p # os) + mset (g @ gaps)" using IH(3) by simp
  moreover have "tiles t (g @ p # T) t'" using IH(4) by (auto simp: g_def)
  moreover have "\<forall>p \<in> set (g @ p # T). 0 < fst (snd p)"
    using IH(5) lt by (auto simp: g_def)
  ultimately show ?case using IH(2) by blast
qed

lemma fill_default_tiles:
  assumes "fits 0 (in_order pers)"
  shows "tiles 0 (in_order (fill_default d pers (order_by_begin pers))) week"
proof -
  from fill_gaps_tiles [OF assms] obtain gaps t' T where
    f: "fill_gaps d (in_order pers) 0 pers = (t', pers @ gaps)" "t' \<le> week"
      "mset T = mset (in_order pers) + mset gaps" "tiles 0 T t'" "\<forall>p \<in> set T. 0 < fst (snd p)"
    by blast
  define e where "e = (if t' \<noteq> week then [(t', week - t', d, ''*,*,*,*'')] else [])"
  have fd: "fill_default d pers (order_by_begin pers) = pers @ gaps @ e"
    using f(1) by (auto simp: fill_default_def e_def)
  have T: "tiles 0 (T @ e) week" "\<forall>p \<in> set (T @ e). 0 < fst (snd p)"
    using f(2,4,5) by (auto simp: e_def tiles_append)
  have "mset (T @ e) = mset (fill_default d pers (order_by_begin pers))"
    using f(3) mset_in_order [of pers] by (simp add: fd)
  with in_order_unique tiles_positive_sorted [OF T] T(1) show ?thesis by metis
qed

text \<open>Two entries that share no instant; what \<open>fits\<close> asks of the entries one by one.\<close>

definition apart :: "periodical \<Rightarrow> periodical \<Rightarrow> bool" where
  "apart p q \<longleftrightarrow> fst p + fst (snd p) \<le> fst q \<or> fst q + fst (snd q) \<le> fst p"

definition disjoint_entries :: "periodical list \<Rightarrow> bool" where
  "disjoint_entries ps \<longleftrightarrow> (\<forall>i < length ps. \<forall>j < length ps. i \<noteq> j \<longrightarrow> apart (ps ! i) (ps ! j))"

definition in_week :: "periodical \<Rightarrow> bool" where
  "in_week p \<longleftrightarrow> 0 \<le> fst p \<and> 0 < fst (snd p) \<and> fst p + fst (snd p) \<le> week"

lemma apart_sym: "apart p q \<longleftrightarrow> apart q p"
  by (auto simp: apart_def)

lemma disjoint_prefix: "disjoint_entries (ps @ qs) \<Longrightarrow> disjoint_entries ps"
  unfolding disjoint_entries_def by (metis length_append nth_append trans_less_add1)

lemma disjoint_in_order: "disjoint_entries xs \<longleftrightarrow> sorted_wrt apart (in_order xs)"
proof -
  let ?ids = "order_by_begin xs"
  have ids: "set ?ids = {0..<length xs}" "distinct ?ids" "length ?ids = length xs"
    by (simp_all add: order_by_begin_def)
  show ?thesis
  proof
    assume "disjoint_entries xs"
    thus "sorted_wrt apart (in_order xs)"
      unfolding sorted_wrt_iff_nth_less disjoint_entries_def using ids
      by (metis (no_types, lifting) atLeastLessThan_iff length_map nat_neq_iff nth_eq_iff_index_eq nth_map nth_mem
          order_less_trans)
  next
    assume w: "sorted_wrt apart (in_order xs)"
    show "disjoint_entries xs"
      unfolding disjoint_entries_def
    proof (intro allI impI)
      fix i j assume ij: "i < length xs" "j < length xs" "i \<noteq> j"
      obtain a b where ab: "a < length xs" "?ids ! a = i" "b < length xs" "?ids ! b = j"
        using ij ids(1,3) by (metis atLeastLessThan_iff in_set_conv_nth le0)
      hence "apart (xs ! i) (xs ! j) \<or> apart (xs ! j) (xs ! i)"
        using w ij(3) ids(3) unfolding sorted_wrt_iff_nth_less by (metis length_map linorder_neqE_nat nth_map)
      thus "apart (xs ! i) (xs ! j)" using apart_sym by blast
    qed
  qed
qed

lemma tiles_apart:
  "tiles t ps u \<Longrightarrow> sorted (map fst ps) \<Longrightarrow> sorted_wrt apart ps"
proof (induction ps arbitrary: t)
  case (Cons p ps)
  have "fst p + fst (snd p) \<le> fst q" if "q \<in> set ps" for q
    using Cons.prems that by (cases ps) auto
  thus ?case using Cons by (auto simp: apart_def)
qed simp

lemma apart_fits:
  assumes "sorted_wrt apart ps" "sorted (map fst ps)" "\<forall>p \<in> set ps. in_week p \<and> t \<le> fst p" "t \<le> week"
  shows "fits t ps"
  using assms
proof (induction ps arbitrary: t)
  case (Cons p ps)
  have "fst p + fst (snd p) \<le> fst q" if "q \<in> set ps" for q
  proof -
    have "apart p q" "fst p \<le> fst q" "0 < fst (snd q)" using Cons.prems that by (simp_all add: in_week_def)
    thus ?thesis by (auto simp: apart_def)
  qed
  thus ?case using Cons by (auto simp: in_week_def)
qed simp

text \<open>
  The default fills the gaps whatever the other entries are; the result tiles the week if and only if those are
  disjoint.
\<close>

lemma fill_gaps_default:
  "fill_gaps d ps t pers = (t', pers') \<Longrightarrow> \<exists>gaps. pers' = pers @ gaps \<and> (\<forall>g \<in> set gaps. fst (snd (snd g)) = d)"
proof (induction d ps t pers arbitrary: t' pers' rule: fill_gaps.induct)
  case (2 d p ps t pers)
  show ?case
  proof (cases "t < week")
    case True
    with 2 obtain gaps where
      "pers' = (if t \<noteq> fst p then pers @ [(t, fst p - t, d, ''*,*,*,*'')] else pers) @ gaps"
      "\<forall>g \<in> set gaps. fst (snd (snd g)) = d" by (fastforce simp: Let_def)
    thus ?thesis
      by (intro exI [of _ "(if t \<noteq> fst p then [(t, fst p - t, d, ''*,*,*,*'')] else []) @ gaps"]) auto
  qed (use 2 in simp)
qed simp

lemma fill_default_gaps:
  "\<exists>gaps. fill_default d pers ids = pers @ gaps \<and> (\<forall>g \<in> set gaps. fst (snd (snd g)) = d)"
proof -
  obtain t' pers' where f: "fill_gaps d (map ((!) pers) ids) 0 pers = (t', pers')" by fastforce
  from fill_gaps_default [OF f] obtain gaps where
    "pers' = pers @ gaps" "\<forall>g \<in> set gaps. fst (snd (snd g)) = d" by blast
  thus ?thesis
    by (intro exI [of _ "gaps @ (if t' \<noteq> week then [(t', week - t', d, ''*,*,*,*'')] else [])"])
      (auto simp: fill_default_def f)
qed

lemma fill_default_tiles_iff:
  assumes "\<forall>p \<in> set pers. in_week p"
  shows "tiles 0 (in_order (fill_default d pers (order_by_begin pers))) week \<longleftrightarrow> disjoint_entries pers"
proof
  assume t: "tiles 0 (in_order (fill_default d pers (order_by_begin pers))) week"
  obtain gaps where g: "fill_default d pers (order_by_begin pers) = pers @ gaps"
    using fill_default_gaps by blast
  show "disjoint_entries pers"
    using tiles_apart [OF t sorted_in_order] disjoint_prefix unfolding g disjoint_in_order [symmetric] by blast
next
  assume "disjoint_entries pers"
  moreover have "set (in_order pers) = set pers" using mset_in_order by (metis set_mset_mset)
  ultimately have "fits 0 (in_order pers)"
    using assms unfolding disjoint_in_order
    by (intro apart_fits sorted_in_order) (auto simp: in_week_def)
  thus "tiles 0 (in_order (fill_default d pers (order_by_begin pers))) week" by (rule fill_default_tiles)
qed

text \<open>The hours of an entry: a range that is not empty and ends on the same day.\<close>

definition hours_ok :: "string \<Rightarrow> bool" where
  "hours_ok txt = (case py_split txt of [] \<Rightarrow> False
     | hm2 # _ \<Rightarrow> (case parse_hours hm2 of Inl e \<Rightarrow> False
         | Inr (b, duration) \<Rightarrow> 0 \<le> b \<and> 0 < duration \<and> b + duration \<le> 86400))"

lemma day_offset: "day2week_offset s = Some d \<Longrightarrow> 0 \<le> d \<and> d \<le> 6"
  unfolding day2week_offset_def by (drule map_of_SomeD) auto

lemma days_offset: "map_res (lookup_res day2week_offset) xs = Inr ds \<Longrightarrow> \<forall>d \<in> set ds. 0 \<le> d \<and> d \<le> 6"
  by (induction xs arbitrary: ds) (auto simp: res_simps lookup_res_eq_Inr dest: day_offset)

lemma parse_days_range:
  assumes "parse_days hm2 wday duration = Inr (ds, duration')"
  shows "(\<forall>d \<in> set ds. 0 \<le> d \<and> d \<le> 6) \<and>
    (duration' = duration \<or> hm2 = ''*'' \<and> (\<exists>d. ds = [d]) \<and> 0 < duration' \<and> duration' \<le> week)"
  using assms
  by (auto simp: parse_days_def res_simps lookup_res_eq_Inr Let_def dest!: day_offset days_offset
      split: if_splits list.splits)

lemma fill_days_in_week:
  assumes "\<forall>d \<in> set ds. 0 \<le> d \<and> d \<le> 6" "0 \<le> b" "0 < duration" "\<forall>p \<in> set pers. in_week p"
    and "b + duration \<le> 86400 \<or> b = 0 \<and> duration \<le> week \<and> (\<exists>d. ds = [d])"
  shows "\<forall>p \<in> set (fill_days ds b duration rid txt pers). in_week p"
  using assms(5)
proof
  assume "b + duration \<le> 86400"
  with assms(1,4) show ?thesis
  proof (induction ds arbitrary: pers)
    case (Cons d ds)
    have "0 \<le> d" "d \<le> 6" using Cons.prems(1) by simp_all
    hence range: "0 \<le> 86400 * d + b" "86400 * d + b + duration \<le> week" using assms(2) Cons.prems(3) by linarith+
    hence "in_week (86400 * d + b, duration, rid, txt)" using assms(3) by (simp add: in_week_def)
    hence "\<forall>x \<in> set (pers @ [(86400 * d + b, duration, rid, txt)]). in_week x" using Cons.prems(2) by auto
    from Cons.IH [OF _ this Cons.prems(3)] Cons.prems(1) range(2) show ?case by (simp add: Let_def)
  qed simp
next
  assume "b = 0 \<and> duration \<le> week \<and> (\<exists>d. ds = [d])"
  then obtain d where d: "ds = [d]" "b = 0" "duration \<le> week" "0 \<le> d" "d \<le> 6" using assms(1) by auto
  have cut: "(86400 * d + duration) mod week = 86400 * d + duration - week" if "week < 86400 * d + duration"
  proof -
    have "0 \<le> 86400 * d + duration - week" "86400 * d + duration - week < week" using d that by linarith+
    hence "(86400 * d + duration - week) mod week = 86400 * d + duration - week" by (rule mod_pos_pos_trivial)
    thus ?thesis by (simp only: minus_mod_self2)
  qed
  show ?thesis
  proof (cases "week < 86400 * d + duration")
    case True
    have "in_week (0, 86400 * d + duration - week, rid, txt)"
      "in_week (86400 * d, duration - (86400 * d + duration - week), rid, txt)"
      using d assms(3) True by (simp_all add: in_week_def)
    thus ?thesis using True assms(4) cut [OF True] unfolding d(1,2) by (simp add: Let_def)
  next
    case False
    hence "in_week (86400 * d, duration, rid, txt)" using d assms(3) by (simp add: in_week_def)
    thus ?thesis using False assms(4) unfolding d(1,2) by (simp add: Let_def)
  qed
qed

lemma periodical_in_week:
  assumes "periodical_fromJson cal p = Inr cal'" "hours_ok (fst p)" "\<forall>x \<in> set (periodicals cal). in_week x"
  shows "(\<forall>x \<in> set (periodicals cal'). in_week x) \<and> quotas_rules2id cal' = quotas_rules2id cal"
proof -
  from assms(1) obtain hm2 wday mday month pers where p: "py_split (fst p) = [hm2, wday, mday, month]"
    and cal': "cal' = cal\<lparr>periodicals := pers\<rparr>"
    and run: "res_bind (parse_hours hm2) (\<lambda>(b, dur0).
                  res_bind (parse_days hm2 wday dur0) (\<lambda>(weekdays, dur).
                    if weekdays = [] then Inr (periodicals cal)
                    else res_bind (lookup_res (map_of (quotas_rules2id cal)) (snd p)) (\<lambda>rid.
                           Inr (fill_days weekdays b dur rid (fst p) (periodicals cal))))) = Inr pers"
    by (auto simp: periodical_fromJson_def split: list.splits if_splits sum.splits)
  from run obtain b dur0 ds dur where h: "parse_hours hm2 = Inr (b, dur0)"
    and d: "parse_days hm2 wday dur0 = Inr (ds, dur)"
    and pers: "pers = periodicals cal \<or> (\<exists>rid. pers = fill_days ds b dur rid (fst p) (periodicals cal))"
    by (auto simp: res_simps split: if_splits)
  have hours: "0 \<le> b" "0 < dur0" "b + dur0 \<le> 86400" using assms(2) by (simp_all add: hours_ok_def p h)
  have "b = 0" if "hm2 = ''*''" using h that by (simp add: parse_hours_def)
  hence "\<forall>x \<in> set (fill_days ds b dur rid (fst p) (periodicals cal)). in_week x" for rid
    using parse_days_range [OF d] hours assms(3) by (intro fill_days_in_week) auto
  thus ?thesis using pers assms(3) by (auto simp: cal')
qed

text \<open>The explicit entries are loaded the same way with or without default entries.\<close>

lemma load_explicit:
  assumes "fold_res (\<lambda>p (dflt, c).
          if is_default_entry p
          then res_bind (lookup_res (map_of (quotas_rules2id c)) (snd p)) (\<lambda>rid. Inr (Some rid, c))
          else res_bind (periodical_fromJson c p) (\<lambda>c'. Inr (dflt, c'))) ps (df, cal) = Inr (d, c)"
    and "\<forall>p \<in> set ps. \<not> is_default_entry p \<longrightarrow> hours_ok (fst p)" "\<forall>x \<in> set (periodicals cal). in_week x"
  shows "fold_res (\<lambda>p c. periodical_fromJson c p) (filter (\<lambda>p. \<not> is_default_entry p) ps) cal = Inr c \<and>
    (\<forall>x \<in> set (periodicals c). in_week x) \<and>
    d = (if filter is_default_entry ps = [] then df
         else map_of (quotas_rules2id cal) (snd (last (filter is_default_entry ps)))) \<and>
    (filter is_default_entry ps \<noteq> [] \<longrightarrow> d \<noteq> None)"
  using assms
proof (induction ps arbitrary: df cal)
  case (Cons p ps)
  show ?case
  proof (cases "is_default_entry p")
    case True
    with Cons.prems obtain rid where "map_of (quotas_rules2id cal) (snd p) = Some rid"
      "fold_res (\<lambda>p (dflt, c).
          if is_default_entry p
          then res_bind (lookup_res (map_of (quotas_rules2id c)) (snd p)) (\<lambda>rid. Inr (Some rid, c))
          else res_bind (periodical_fromJson c p) (\<lambda>c'. Inr (dflt, c'))) ps (Some rid, cal) = Inr (d, c)"
      by (auto simp: res_simps lookup_res_eq_Inr)
    with Cons.IH [OF this(2)] Cons.prems(2,3) True show ?thesis by auto
  next
    case False
    with Cons.prems obtain c1 where c1: "periodical_fromJson cal p = Inr c1"
      "fold_res (\<lambda>p (dflt, c).
          if is_default_entry p
          then res_bind (lookup_res (map_of (quotas_rules2id c)) (snd p)) (\<lambda>rid. Inr (Some rid, c))
          else res_bind (periodical_fromJson c p) (\<lambda>c'. Inr (dflt, c'))) ps (df, c1) = Inr (d, c)"
      by (auto simp: res_simps)
    have "hours_ok (fst p)" using Cons.prems(2) False by simp
    note in_week = periodical_in_week [OF c1(1) this Cons.prems(3)]
    hence "quotas_rules2id c1 = quotas_rules2id cal" by simp
    moreover have "\<forall>p \<in> set ps. \<not> is_default_entry p \<longrightarrow> hours_ok (fst p)" using Cons.prems(2) by simp
    note Cons.IH [OF c1(2) this conjunct1 [OF in_week]]
    hence "fold_res (\<lambda>p c. periodical_fromJson c p)
        (filter (\<lambda>p. \<not> is_default_entry p) ps) c1 = Inr c" "\<forall>x \<in> set (periodicals c). in_week x"
      "d = (if filter is_default_entry ps = [] then df
         else map_of (quotas_rules2id c1) (snd (last (filter is_default_entry ps))))"
      "filter is_default_entry ps \<noteq> [] \<longrightarrow> d \<noteq> None" by meson+
    ultimately show ?thesis using False c1(1) by (cases "filter is_default_entry ps = []") simp_all
  qed
qed simp

section \<open>The scan of the periodicals\<close>

lemma scan_periodicals_first:
  "\<lbrakk>k < length ps; \<forall>j < k. fst (ps ! j) < t; t \<le> fst (ps ! k); 0 < fst (snd (ps ! k))\<rbrakk>
   \<Longrightarrow> scan_periodicals ps t i = Some (i + k)"
proof (induction ps arbitrary: i k)
  case (Cons p ps)
  show ?case
  proof (cases k)
    case 0
    with Cons.prems show ?thesis by (simp add: Let_def)
  next
    case (Suc k')
    with Cons.prems have "fst p < t" "ps \<noteq> []" by force+
    moreover have "scan_periodicals ps t (i + 1) = Some (i + 1 + k')"
      using Cons.prems Suc by (intro Cons.IH) force+
    ultimately show ?thesis using Suc by (simp add: Let_def)
  qed
qed simp

section \<open>Properties\<close>

text \<open>
  \<open>Calendar.check_periodicals\<close> answers yes exactly when the periodical entries, in order of
  their begin, cover the week from Monday 00:00 to Sunday 24:00 without gap or overlap.
\<close>

theorem check_periodicals_iff:
  "check_periodicals cal = Inr (True, None) \<longleftrightarrow> tiles 0 (ordered cal) week"
proof (cases "check_contiguous (periodicals cal) (ordered_periodical_ids cal) 0")
  case (Inl u)
  with check_contiguous_tiles [of "periodicals cal" "ordered_periodical_ids cal" 0 week]
  show ?thesis by (simp add: check_periodicals_def)
next
  case (Inr i)
  with check_contiguous_tiles [of "periodicals cal" "ordered_periodical_ids cal" 0 week]
  show ?thesis by (simp add: check_periodicals_def)
qed

text \<open>
  C40. Loading a calendar that has a default entry, when every range of hours is not empty and ends on its day: the entries
  that are written keep their place, every gap of the week is filled with the rules of the (last) default entry, and
  the calendar that \<open>__init__\<close> builds passes its own check, that is covers the week without gap or overlap, if and only
  if the entries that are written do not overlap.
\<close>

theorem load_periodicals_contiguous:
  assumes "load_periodicals cal ps = Inr cal'" and "periodicals cal = []"
    and "\<exists>p \<in> set ps. is_default_entry p" and "\<forall>p \<in> set ps. \<not> is_default_entry p \<longrightarrow> hours_ok (fst p)"
  shows "\<exists>c d gaps.
     fold_res (\<lambda>p c. periodical_fromJson c p) (filter (\<lambda>p. \<not> is_default_entry p) ps) cal = Inr c \<and>
     map_of (quotas_rules2id cal) (snd (last (filter is_default_entry ps))) = Some d \<and>
     periodicals cal' = periodicals c @ gaps \<and> (\<forall>g \<in> set gaps. fst (snd (snd g)) = d) \<and>
     (check_periodicals cal' = Inr (True, None) \<longleftrightarrow> disjoint_entries (periodicals c)) \<and>
     (tiles 0 (ordered cal') week \<longleftrightarrow> disjoint_entries (periodicals c))"
proof -
  from assms(1) obtain d c where
    f: "fold_res (\<lambda>p (dflt, c).
          if is_default_entry p
          then res_bind (lookup_res (map_of (quotas_rules2id c)) (snd p)) (\<lambda>rid. Inr (Some rid, c))
          else res_bind (periodical_fromJson c p) (\<lambda>c'. Inr (dflt, c'))) ps (None, cal) = Inr (d, c)"
    by (auto simp: load_periodicals_def res_simps)
  have "filter is_default_entry ps \<noteq> []" using assms(3) by (auto simp: filter_empty_conv)
  with load_explicit [OF f assms(4)] assms(2) obtain dv where
    c: "fold_res (\<lambda>p c. periodical_fromJson c p) (filter (\<lambda>p. \<not> is_default_entry p) ps) cal = Inr c"
    "\<forall>x \<in> set (periodicals c). in_week x" "d = Some dv"
    "map_of (quotas_rules2id cal) (snd (last (filter is_default_entry ps))) = Some dv" by auto
  define pers where "pers = fill_default dv (periodicals c) (order_by_begin (periodicals c))"
  from assms(1) f have "cal' = c\<lparr>periodicals := pers, ordered_periodical_ids := order_by_begin pers\<rparr>"
    by (simp add: load_periodicals_def c(3) pers_def Let_def)
  hence cal': "ordered cal' = in_order pers" "periodicals cal' = pers" by simp_all
  have iff: "tiles 0 (ordered cal') week \<longleftrightarrow> disjoint_entries (periodicals c)"
    unfolding cal'(1) pers_def by (rule fill_default_tiles_iff [OF c(2)])
  obtain gaps where "pers = periodicals c @ gaps" "\<forall>g \<in> set gaps. fst (snd (snd g)) = dv"
    using fill_default_gaps unfolding pers_def by blast
  thus ?thesis using c(1,4) cal'(2) iff check_periodicals_iff by blast
qed

definition example_cal :: calendar where
  "example_cal = (empty_calendar (3 * week))\<lparr>quotas_rules2id := [(''day'', 0), (''night'', 1)]\<rparr>"

text \<open>The entries of the example do not overlap; those of the second one do, from 18:00 to 19:00.\<close>

theorem load_periodicals_contiguous_witness:
  "(\<exists>cal'. load_periodicals example_cal [(''08:00-19:00 mon-fri * *'', ''day''), (''default'', ''night'')]
     = Inr cal' \<and> check_periodicals cal' = Inr (True, None) \<and> length (periodicals cal') = 11) \<and>
   (\<exists>cal'. load_periodicals example_cal [(''08:00-19:00 mon * *'', ''day''), (''18:00-20:00 mon * *'', ''day''),
       (''default'', ''night'')] = Inr cal' \<and> check_periodicals cal' \<noteq> Inr (True, None))"
proof (intro conjI)
  let ?ps = "[(''08:00-19:00 mon-fri * *'', ''day''), (''default'', ''night'')]"
  have l: "case load_periodicals example_cal ?ps of Inl _ \<Rightarrow> False
     | Inr c \<Rightarrow> length (periodicals c) = 11" by code_simp
  then obtain cal' where cal': "load_periodicals example_cal ?ps = Inr cal'"
    "length (periodicals cal') = 11" by (auto split: sum.splits)
  have p: "periodicals example_cal = []" by code_simp
  have d: "\<exists>p \<in> set ?ps. is_default_entry p" by code_simp
  have h: "\<forall>p \<in> set ?ps. \<not> is_default_entry p \<longrightarrow> hours_ok (fst p)" by code_simp
  from load_periodicals_contiguous [OF cal'(1) p d h] obtain c where
    c: "fold_res (\<lambda>p c. periodical_fromJson c p) (filter (\<lambda>p. \<not> is_default_entry p) ?ps) example_cal = Inr c"
    "check_periodicals cal' = Inr (True, None) \<longleftrightarrow> disjoint_entries (periodicals c)" by blast
  have "case fold_res (\<lambda>p c. periodical_fromJson c p) (filter (\<lambda>p. \<not> is_default_entry p) ?ps) example_cal of
      Inl _ \<Rightarrow> False | Inr c \<Rightarrow> disjoint_entries (periodicals c)" by code_simp
  with c cal' show "\<exists>cal'. load_periodicals example_cal ?ps = Inr cal' \<and>
      check_periodicals cal' = Inr (True, None) \<and> length (periodicals cal') = 11" by auto
next
  show "\<exists>cal'. load_periodicals example_cal [(''08:00-19:00 mon * *'', ''day''), (''18:00-20:00 mon * *'', ''day''),
       (''default'', ''night'')] = Inr cal' \<and> check_periodicals cal' \<noteq> Inr (True, None)"
  proof -
    have "case load_periodicals example_cal [(''08:00-19:00 mon * *'', ''day''), (''18:00-20:00 mon * *'', ''day''),
       (''default'', ''night'')] of Inl _ \<Rightarrow> False | Inr c \<Rightarrow> check_periodicals c \<noteq> Inr (True, None)"
      by code_simp
    thus ?thesis by (auto split: sum.splits)
  qed
qed

text \<open>
  What \<open>periodical_rules_at\<close> answers on a contiguous calendar: for an instant after the begin
  of entry \<open>k\<close> and not after the begin of entry \<open>k + 1\<close> it returns the rules of entry \<open>k + 1\<close>,
  not those of the entry that contains the instant, and the duration of that entry less the time
  since the start of the week.
\<close>

theorem periodical_rules_at_next:
  assumes "tiles 0 (ordered cal) week" "\<forall>p \<in> set (ordered cal). 0 < fst (snd p)"
    and "k + 1 < length (ordered cal)" and "t = t_epoch - week_origin t_epoch"
    and "fst (ordered cal ! k) < t" "t \<le> fst (ordered cal ! (k + 1))"
  shows "\<exists>cal'. periodical_rules_at week_origin cal t_epoch =
           Inr (cal', fst (snd (snd (ordered cal ! (k + 1)))),
                fst (snd (ordered cal ! (k + 1))) - t)"
proof -
  have sorted: "sorted (map fst (ordered cal))"
    using tiles_positive_sorted [OF assms(1,2)] by simp
  have "\<forall>j < k + 1. fst (ordered cal ! j) < t"
  proof safe
    fix j assume "j < k + 1"
    with sorted_nth_mono [OF sorted, of j k] assms(3) have
      "fst (ordered cal ! j) \<le> fst (ordered cal ! k)" by (auto simp: nth_map)
    with assms(5) show "fst (ordered cal ! j) < t" by simp
  qed
  moreover have "0 < fst (snd (ordered cal ! (k + 1)))" using assms(2,3) nth_mem by blast
  ultimately have "scan_periodicals (ordered cal) t 0 = Some (k + 1)"
    using scan_periodicals_first [of "k + 1" "ordered cal" t 0] assms(3,6) by simp
  with assms(4) show ?thesis
    by (cases "ordered cal ! (k + 1)")
      (auto simp: periodical_rules_at_def Let_def split: prod.splits)
qed

text \<open>Monday 01:00 in a week whose rules are 0 until Monday 08:00 and 1 after that.\<close>

definition two_periods :: calendar where
  "two_periods = (empty_calendar week)\<lparr>
     periodicals := [(0, 28800, 0, ''night''), (28800, 576000, 1, ''day'')],
     ordered_periodical_ids := [0, 1]\<rparr>"

theorem periodical_rules_at_next_witness:
  "\<exists>cal'. periodical_rules_at (\<lambda>_. 0) two_periods 3600 = Inr (cal', 1, 572400)"
  using periodical_rules_at_next [of two_periods 0 3600 3600 "\<lambda>_. 0"]
  by (simp add: two_periods_def empty_calendar_def)

end
