(* ===== verification/Slots.thy ===== *)
theory Slots
  imports Quotas Calendar
begin

text \<open>
  \<open>oar/kao/slot.py\<close>: the slot sets, in which the schedulers keep the resources that are free over
  time. A \<open>SlotSet\<close> is a dictionary of slots linked by \<open>next\<close>, from slot 1 on; every slot covers
  the instants \<open>b\<close> to \<open>e\<close> (both included) and holds the resources free during all of them. The
  methods change slots in place; here they return the changed slot set, and a slot that a caller
  goes on using after a method has moved it is named by its identifier.
  \<open>prv\<close> and \<open>nxt\<close> stand for the attributes \<open>prev\<close> and \<open>next\<close>.
  A traversal that follows \<open>next\<close> takes fuel, \<open>Diverges\<close> being the value of one that ran out of it.
\<close>

record 'p sched_env =
  quotas_conf :: "'p quotas_env"
  calendar_of :: "calendar option"      \<comment> \<open>\<open>Quotas.calendar\<close>\<close>
  week_origin :: "int \<Rightarrow> int"
  window_limit :: int                   \<comment> \<open>\<open>QUOTAS_WINDOW_TIME_LIMIT\<close>\<close>

record 'p slot =
  slot_id :: nat
  prv :: nat
  nxt :: nat
  itvs :: 'p
  slot_b :: int
  slot_e :: int
  ts_itvs :: "string \<rightharpoonup> string \<rightharpoonup> 'p"
  ph_itvs :: "string \<rightharpoonup> 'p"
  slot_quotas :: "quotas option"        \<comment> \<open>set when quotas are enabled\<close>
  quotas_rules_id :: "int option"       \<comment> \<open>idem; -1 before a calendar gave it rules\<close>

record 'p slot_set =
  slots :: "nat \<rightharpoonup> 'p slot"
  last_id :: nat
  ss_begin :: int
  cache :: "(string \<times> nat) list"

definition MAX_TIME :: int where "MAX_TIME = 2147483648"

section \<open>Slots\<close>

definition new_slot ::
  "'p sched_env \<Rightarrow> nat \<Rightarrow> nat \<Rightarrow> nat \<Rightarrow> 'p \<Rightarrow> int \<Rightarrow> int \<Rightarrow> (string \<rightharpoonup> string \<rightharpoonup> 'p) \<Rightarrow>
   (string \<rightharpoonup> 'p) \<Rightarrow> 'p slot" where
  "new_slot E i p n is b e tsi phi =
     \<lparr>slot_id = i, prv = p, nxt = n, itvs = is, slot_b = b, slot_e = e, ts_itvs = tsi, ph_itvs = phi,
      slot_quotas = (if q_enabled (quotas_conf E) then Some (new_quotas (quotas_conf E)) else None),
      quotas_rules_id = (if q_enabled (quotas_conf E) then Some (- 1) else None)\<rparr>"

text \<open>\<open>xs[i]\<close>, where a negative index counts from the end.\<close>

definition py_nth :: "'a list \<Rightarrow> int \<Rightarrow> 'a res" where
  "py_nth xs i =
     (if 0 \<le> i then nth_res xs (nat i)
      else if 0 \<le> int (length xs) + i then nth_res xs (nat (int (length xs) + i))
      else Inl IndexError)"

definition set_rules :: "'p sched_env \<Rightarrow> quotas \<Rightarrow> int \<Rightarrow> quotas res" where
  "set_rules E q rules_id =
     (case calendar_of E of
        None \<Rightarrow> Inr q
      | Some cal \<Rightarrow> res_bind (py_nth (quotas_rules_list cal) rules_id) (\<lambda>r. Inr (q\<lparr>rules := r\<rparr>)))"

text \<open>The three statements that give a new slot the counters and the rules of \<open>slot\<close>.\<close>

definition copy_quotas :: "'p sched_env \<Rightarrow> 'p slot \<Rightarrow> 'p slot \<Rightarrow> 'p slot res" where
  "copy_quotas E new slot =
     (case slot_quotas new of
        None \<Rightarrow> Inr new
      | Some q \<Rightarrow>
          res_bind (attr (slot_quotas slot)) (\<lambda>q0.
          res_bind (attr (quotas_rules_id slot)) (\<lambda>rid.
          res_bind (set_rules E (deepcopy_from q q0) rid) (\<lambda>q'.
            Inr (new\<lparr>slot_quotas := Some q', quotas_rules_id := Some rid\<rparr>)))))"

text \<open>
  \<open>slot_before_job\<close>: the new slot A takes the identifier of \<open>slot\<close>, which moves to a new one. The
  result holds the identifier under which \<open>slot\<close> goes on.
\<close>

definition slot_before_job ::
  "'p sched_env \<Rightarrow> 'p slot_set \<Rightarrow> 'p slot \<Rightarrow> 'p job \<Rightarrow> ('p slot_set \<times> 'p slot) res" where
  "slot_before_job E ss slot job =
     (let s_id = slot_id slot;
          next_id = last_id ss + 1;
          a_slot = new_slot E s_id (prv slot) next_id (itvs slot) (slot_b slot)
                     (start_time job - 1) (ts_itvs slot) (ph_itvs slot);
          slot' = slot\<lparr>prv := s_id, slot_id := next_id\<rparr>
      in res_bind (copy_quotas E a_slot slot) (\<lambda>a_slot.
           Inr (ss\<lparr>last_id := next_id, slots := (slots ss)(s_id \<mapsto> a_slot, next_id \<mapsto> slot')\<rparr>,
                slot')))"

definition slot_after_job ::
  "'p sched_env \<Rightarrow> 'p slot_set \<Rightarrow> 'p slot \<Rightarrow> 'p job \<Rightarrow> int \<Rightarrow> ('p slot_set \<times> 'p slot) res" where
  "slot_after_job E ss slot job wt =
     (let s_id = last_id ss + 1;
          c_slot = new_slot E s_id (slot_id slot) (nxt slot) (itvs slot)
                     (start_time job + wt) (slot_e slot) (ts_itvs slot) (ph_itvs slot);
          slot' = slot\<lparr>nxt := s_id\<rparr>
      in res_bind (copy_quotas E c_slot slot) (\<lambda>c_slot.
           Inr (ss\<lparr>last_id := s_id,
                   slots := (slots ss)(slot_id slot \<mapsto> slot', s_id \<mapsto> c_slot)\<rparr>, slot')))"

text \<open>
  The entry \<open>ts_itvs[user][name]\<close> that both directions create when it is missing; \<open>add\<close> also
  enlarges it when it is there.
\<close>

definition ts_entry ::
  "('p \<Rightarrow> 'p) \<Rightarrow> 'p \<Rightarrow> string \<Rightarrow> string \<Rightarrow> (string \<rightharpoonup> string \<rightharpoonup> 'p) \<Rightarrow>
   (string \<rightharpoonup> string \<rightharpoonup> 'p)" where
  "ts_entry f rs user name m =
     (let names = (case m user of None \<Rightarrow> Map.empty | Some ns \<Rightarrow> ns)
      in m(user \<mapsto> names(name \<mapsto> (case names name of None \<Rightarrow> rs | Some is \<Rightarrow> f is))))"

definition sub_slot_during_job ::
  "'p procset_ops \<Rightarrow> 'p sched_env \<Rightarrow> 'p slot \<Rightarrow> 'p job \<Rightarrow> int \<Rightarrow> 'p \<Rightarrow> 'p slot res" where
  "sub_slot_during_job P E slot job wt rs =
     (let s1 = slot\<lparr>slot_b := max (slot_b slot) (start_time job),
                    slot_e := min (slot_e slot) (start_time job + wt - 1),
                    itvs := ps_diff P (itvs slot) rs\<rparr>
      in res_bind
           (if ts job
            then res_bind (attr (ts_user job)) (\<lambda>u. res_bind (attr (ts_name job)) (\<lambda>n.
                   Inr (s1\<lparr>ts_itvs := ts_entry id rs u n (ts_itvs s1)\<rparr>)))
            else Inr s1) (\<lambda>s2.
         res_bind
           (case ph job of
              Allow \<Rightarrow> res_bind (attr (ph_name job)) (\<lambda>n.
                Inr (case ph_itvs s2 n of
                       None \<Rightarrow> s2
                     | Some is \<Rightarrow> s2\<lparr>ph_itvs := (ph_itvs s2)(n \<mapsto> ps_diff P is rs)\<rparr>))
            | Placeholder \<Rightarrow> res_bind (attr (ph_name job)) (\<lambda>n.
                Inr (s2\<lparr>ph_itvs := (ph_itvs s2)(n \<mapsto> rs)\<rparr>))
            | No_placeholder \<Rightarrow> Inr s2) (\<lambda>s3.
         Inr (case slot_quotas s3 of
                None \<Rightarrow> s3
              | Some q \<Rightarrow>
                  if has_type job ''container'' then s3
                  else s3\<lparr>slot_quotas := Some (quotas_update P (quotas_conf E) q job 0 0)\<rparr>))))"

definition add_slot_during_job ::
  "'p procset_ops \<Rightarrow> 'p slot \<Rightarrow> 'p job \<Rightarrow> int \<Rightarrow> 'p \<Rightarrow> 'p slot res" where
  "add_slot_during_job P slot job wt rs =
     (let s0 = slot\<lparr>slot_b := max (slot_b slot) (start_time job),
                    slot_e := min (slot_e slot) (start_time job + wt - 1)\<rparr>;
          s1 = (if \<not> ts job \<and> ph job = No_placeholder
                then s0\<lparr>itvs := ps_union P (itvs s0) rs\<rparr> else s0)
      in res_bind
           (if ts job
            then res_bind (attr (ts_user job)) (\<lambda>u. res_bind (attr (ts_name job)) (\<lambda>n.
                   Inr (s1\<lparr>ts_itvs := ts_entry (\<lambda>is. ps_union P is rs) rs u n (ts_itvs s1)\<rparr>)))
            else Inr s1) (\<lambda>s2.
         case ph job of
           Placeholder \<Rightarrow> res_bind (attr (ph_name job)) (\<lambda>n.
             Inr (s2\<lparr>ph_itvs := (ph_itvs s2)(n \<mapsto>
                    (case ph_itvs s2 n of None \<Rightarrow> rs | Some is \<Rightarrow> ps_union P is rs))\<rparr>))
         | _ \<Rightarrow> Inr s2))"

section \<open>Splitting\<close>

text \<open>One turn of the loop of \<open>split_slots\<close>; the second result is the identifier of slot B.\<close>

definition split_one ::
  "'p procset_ops \<Rightarrow> 'p sched_env \<Rightarrow> 'p slot_set \<Rightarrow> 'p slot \<Rightarrow> 'p job \<Rightarrow> int \<Rightarrow> 'p \<Rightarrow> bool \<Rightarrow>
   ('p slot_set \<times> nat) res" where
  "split_one P E ss slot job wt rs sub =
     (let during = (\<lambda>(ss, slot).
            res_bind (if sub then sub_slot_during_job P E slot job wt rs
                      else add_slot_during_job P slot job wt rs) (\<lambda>b_slot.
              Inr (ss\<lparr>slots := (slots ss)(slot_id slot \<mapsto> b_slot)\<rparr>, slot_id slot)))
      in if start_time job > slot_b slot
         then (if start_time job + wt > slot_e slot
               then res_bind (slot_before_job E ss slot job) during
               else res_bind (slot_before_job E ss slot job) (\<lambda>(ss, slot).
                      res_bind (slot_after_job E ss slot job wt) during))
         else (if start_time job + wt - 1 \<ge> slot_e slot
               then during (ss, slot)
               else res_bind (slot_after_job E ss slot job wt) during))"

text \<open>
  The loop of \<open>split_slots\<close>. \<open>held\<close> is the identifier of a slot object that the caller holds: the
  loop returns the one under which the object goes on.
\<close>

fun split_loop ::
  "'p procset_ops \<Rightarrow> 'p sched_env \<Rightarrow> nat \<Rightarrow> 'p slot_set \<Rightarrow> nat \<Rightarrow> nat \<Rightarrow> nat \<Rightarrow> 'p job \<Rightarrow> int \<Rightarrow>
   'p \<Rightarrow> bool \<Rightarrow> ('p slot_set \<times> nat) res" where
  "split_loop P E 0 ss held sid sid_right job wt rs sub = Inl Diverges"
| "split_loop P E (Suc fuel) ss held sid sid_right job wt rs sub =
     res_bind (lookup_res (slots ss) sid) (\<lambda>slot.
     res_bind (split_one P E ss slot job wt rs sub) (\<lambda>(ss', b_id).
       let held' = (if held = sid then b_id else held)
       in if sid = sid_right then Inr (ss', held')
          else split_loop P E fuel ss' held' (nxt slot) sid_right job wt rs sub))"

definition split_slots_held ::
  "'p procset_ops \<Rightarrow> 'p sched_env \<Rightarrow> 'p slot_set \<Rightarrow> nat \<Rightarrow> nat \<Rightarrow> nat \<Rightarrow> 'p job \<Rightarrow> bool \<Rightarrow>
   ('p slot_set \<times> nat) res" where
  "split_slots_held P E ss held sid_left sid_right job sub =
     res_bind (attr (walltime job)) (\<lambda>wt. res_bind (attr (res_set job)) (\<lambda>rs.
       split_loop P E (last_id ss) ss held sid_left sid_right job wt rs sub))"

definition split_slots ::
  "'p procset_ops \<Rightarrow> 'p sched_env \<Rightarrow> 'p slot_set \<Rightarrow> nat \<Rightarrow> nat \<Rightarrow> 'p job \<Rightarrow> bool \<Rightarrow> 'p slot_set res" where
  "split_slots P E ss sid_left sid_right job sub =
     res_bind (split_slots_held P E ss 0 sid_left sid_right job sub) (\<lambda>(ss', _). Inr ss')"

text \<open>
  The two loops of \<open>split_slots_jobs\<close> that move \<open>slot\<close> to the right, in step with
  \<open>left_sid_2_split\<close> and \<open>right_sid_2_split\<close>.
\<close>

fun find_first_slot :: "nat \<Rightarrow> (nat \<rightharpoonup> 'p slot) \<Rightarrow> nat \<Rightarrow> nat \<Rightarrow> int \<Rightarrow> (nat \<times> nat) res" where
  "find_first_slot 0 m cur left start = Inl Diverges"
| "find_first_slot (Suc fuel) m cur left start =
     res_bind (lookup_res m cur) (\<lambda>slot.
       if slot_b slot > start \<or> slot_b slot \<le> start \<and> start \<le> slot_e slot then Inr (cur, left)
       else find_first_slot fuel m (nxt slot) (nxt slot) start)"

fun find_last_slot :: "nat \<Rightarrow> (nat \<rightharpoonup> 'p slot) \<Rightarrow> nat \<Rightarrow> nat \<Rightarrow> int \<Rightarrow> (nat \<times> nat) res" where
  "find_last_slot 0 m cur right t = Inl Diverges"
| "find_last_slot (Suc fuel) m cur right t =
     res_bind (lookup_res m cur) (\<lambda>slot.
       if slot_e slot \<ge> t then Inr (cur, right)
       else find_last_slot fuel m (nxt slot) (nxt slot) t)"

text \<open>
  One job: the state is the slot set, the identifier of the object in the variable \<open>slot\<close>, and
  \<open>left_sid_2_split\<close>, which the source does not reset between two jobs.
\<close>

definition split_job ::
  "'p procset_ops \<Rightarrow> 'p sched_env \<Rightarrow> bool \<Rightarrow> 'p job \<Rightarrow> 'p slot_set \<times> nat \<times> nat \<Rightarrow>
   ('p slot_set \<times> nat \<times> nat) res" where
  "split_job P E sub job st =
     (case st of (ss, cur, left) \<Rightarrow>
        res_bind (find_first_slot (Suc (last_id ss)) (slots ss) cur left (start_time job))
          (\<lambda>(cur, left).
        res_bind (attr (walltime job)) (\<lambda>wt.
        res_bind (find_last_slot (Suc (last_id ss)) (slots ss) cur left (start_time job + wt))
          (\<lambda>(cur, right).
        res_bind (split_slots_held P E ss cur left right job sub) (\<lambda>(ss', cur').
          Inr (ss', cur', left))))))"

definition split_slots_jobs ::
  "'p procset_ops \<Rightarrow> 'p sched_env \<Rightarrow> 'p slot_set \<Rightarrow> 'p job list \<Rightarrow> bool \<Rightarrow> 'p slot_set res" where
  "split_slots_jobs P E ss jobs sub =
     res_bind (lookup_res (slots ss) 1) (\<lambda>_.
     res_bind (fold_res (split_job P E sub) (if sub then jobs else rev jobs) (ss, 1, 1))
       (\<lambda>(ss', _). Inr ss'))"

section \<open>Intersections\<close>

fun intersec_loop ::
  "'p procset_ops \<Rightarrow> nat \<Rightarrow> (nat \<rightharpoonup> 'p slot) \<Rightarrow> nat \<Rightarrow> nat \<Rightarrow> 'p \<Rightarrow> 'p res" where
  "intersec_loop P 0 m sid sid_right acc = Inl Diverges"
| "intersec_loop P (Suc fuel) m sid sid_right acc =
     (if sid = sid_right then Inr acc
      else res_bind (lookup_res m sid) (\<lambda>slot.
           res_bind (lookup_res m (nxt slot)) (\<lambda>slot'.
             intersec_loop P fuel m (nxt slot) sid_right (ps_inter P acc (itvs slot')))))"

definition intersec_itvs_slots ::
  "'p procset_ops \<Rightarrow> nat \<Rightarrow> (nat \<rightharpoonup> 'p slot) \<Rightarrow> nat \<Rightarrow> nat \<Rightarrow> 'p res" where
  "intersec_itvs_slots P fuel m sid_left sid_right =
     res_bind (lookup_res m sid_left) (\<lambda>slot. intersec_loop P fuel m sid_left sid_right (itvs slot))"

text \<open>The resources that \<open>intersec_ts_ph_itvs_slots\<close> counts as free in one slot.\<close>

definition shared_itvs :: "'p procset_ops \<Rightarrow> 'p slot \<Rightarrow> 'p job \<Rightarrow> 'p res" where
  "shared_itvs P slot job =
     (let pick = (\<lambda>names. case names ''*'' of
                    Some is \<Rightarrow> ps_union P (itvs slot) is
                  | None \<Rightarrow> (case names (job_name job) of
                               Some is \<Rightarrow> ps_union P (itvs slot) is
                             | None \<Rightarrow> itvs slot));
          is1 = (if ts job
                 then (case ts_itvs slot ''*'' of
                         Some names \<Rightarrow> pick names
                       | None \<Rightarrow> (case ts_itvs slot (job_user job) of
                                    Some names \<Rightarrow> pick names
                                  | None \<Rightarrow> itvs slot))
                 else itvs slot)
      in case ph job of
           Allow \<Rightarrow> res_bind (attr (ph_name job)) (\<lambda>n.
             Inr (case ph_itvs slot n of Some is \<Rightarrow> ps_union P is1 is | None \<Rightarrow> is1))
         | _ \<Rightarrow> Inr is1)"

fun intersec_ts_ph_loop ::
  "'p procset_ops \<Rightarrow> nat \<Rightarrow> (nat \<rightharpoonup> 'p slot) \<Rightarrow> nat \<Rightarrow> nat \<Rightarrow> 'p job \<Rightarrow> 'p \<Rightarrow> 'p res" where
  "intersec_ts_ph_loop P 0 m sid sid_right job acc = Inl Diverges"
| "intersec_ts_ph_loop P (Suc fuel) m sid sid_right job acc =
     res_bind (lookup_res m sid) (\<lambda>slot.
     res_bind (shared_itvs P slot job) (\<lambda>is.
       let acc' = (if ps_len P acc = 0 then is else ps_inter P acc is)
       in if sid = sid_right then Inr acc'
          else intersec_ts_ph_loop P fuel m (nxt slot) sid_right job acc'))"

definition intersec_ts_ph_itvs_slots ::
  "'p procset_ops \<Rightarrow> nat \<Rightarrow> (nat \<rightharpoonup> 'p slot) \<Rightarrow> nat \<Rightarrow> nat \<Rightarrow> 'p job \<Rightarrow> 'p res" where
  "intersec_ts_ph_itvs_slots P fuel m sid_left sid_right job =
     intersec_ts_ph_loop P fuel m sid_left sid_right job (ps_empty P)"

section \<open>Temporal quotas\<close>

text \<open>
  \<open>temporal_quotas_split_slot\<close>: cut \<open>slot\<close> at every change of rules until it lies in one period
  or the quotas period is over. The calendar is returned because \<open>next_rules\<close> moves it on.
\<close>

fun temporal_split ::
  "'p sched_env \<Rightarrow> nat \<Rightarrow> calendar \<Rightarrow> 'p slot_set \<Rightarrow> 'p slot \<Rightarrow> int \<Rightarrow> int \<Rightarrow>
   (calendar \<times> 'p slot_set \<times> int option \<times> int) res" where
  "temporal_split E 0 cal ss slot rid remaining = Inl Diverges"
| "temporal_split E (Suc fuel) cal ss slot rid remaining =
     (let slot_duration = slot_e slot - slot_b slot + 1
      in res_bind (attr (slot_quotas slot)) (\<lambda>q.
         res_bind (py_nth (quotas_rules_list cal) rid) (\<lambda>r.
         let ruled = slot\<lparr>quotas_rules_id := Some rid, slot_quotas := Some (q\<lparr>rules := r\<rparr>)\<rparr>
         in if slot_duration \<le> remaining
            then Inr (cal, ss\<lparr>slots := (slots ss)(slot_id slot \<mapsto> ruled)\<rparr>, Some rid,
                      remaining - slot_duration)
            else
              (let b_id = last_id ss + 1;
                   b_slot = new_slot E b_id (slot_id slot) (nxt slot) (itvs slot)
                              (slot_b slot + remaining) (slot_e slot) (ts_itvs slot) (ph_itvs slot);
                   a_slot = ruled\<lparr>nxt := b_id, slot_e := slot_b slot + remaining - 1\<rparr>;
                   ss' = ss\<lparr>last_id := b_id,
                            slots := (slots ss)(b_id \<mapsto> b_slot, slot_id slot \<mapsto> a_slot)\<rparr>
               in res_bind (next_rules cal (slot_b b_slot)) (\<lambda>(cal', rid', remaining').
                    case rid' of
                      None \<Rightarrow> Inr (cal', ss', rid', remaining')
                    | Some rd \<Rightarrow>
                        if remaining' = 0 then Inr (cal', ss', rid', remaining')
                        else temporal_split E fuel cal' ss' b_slot rd remaining')))))"

text \<open>
  The loop of \<open>SlotSet.__init__\<close> that applies the calendar: \<open>slot\<close> is looked up before the split
  and its old \<open>next\<close> is where the loop goes on.
\<close>

fun calendar_loop ::
  "'p sched_env \<Rightarrow> nat \<Rightarrow> calendar \<Rightarrow> 'p slot_set \<Rightarrow> nat \<Rightarrow> int option \<Rightarrow> int \<Rightarrow>
   (calendar \<times> 'p slot_set) res" where
  "calendar_loop E 0 cal ss i rid remaining = Inl Diverges"
| "calendar_loop E (Suc fuel) cal ss i rid remaining =
     (if i \<noteq> 0 \<and> remaining \<noteq> 0
      then res_bind (lookup_res (slots ss) i) (\<lambda>slot.
           case rid of
             None \<Rightarrow> Inl TypeError
           | Some rd \<Rightarrow> res_bind (temporal_split E fuel cal ss slot rd remaining)
               (\<lambda>(cal', ss', rid', remaining').
                  calendar_loop E fuel cal' ss' (nxt slot) rid' remaining'))
      else Inr (cal, ss))"

definition apply_calendar ::
  "nat \<Rightarrow> 'p sched_env \<Rightarrow> 'p slot_set \<Rightarrow> ('p sched_env \<times> 'p slot_set) res" where
  "apply_calendar fuel E ss =
     (case calendar_of E of
        None \<Rightarrow> Inr (E, ss)
      | Some cal \<Rightarrow>
          res_bind (lookup_res (slots ss) 1) (\<lambda>s1.
          res_bind (attr (quotas_rules_id s1)) (\<lambda>rid1.
            if rid1 = - 1
            then res_bind (rules_at (week_origin E) cal (ss_begin ss)) (\<lambda>(cal', rid, remaining).
                 res_bind (calendar_loop E fuel cal' ss 1 (Some rid) remaining) (\<lambda>(cal'', ss').
                   Inr (E\<lparr>calendar_of := Some cal''\<rparr>, ss')))
            else Inr (E, ss))))"

text \<open>The three ways of building a \<open>SlotSet\<close>: a dictionary, a pair, a slot.\<close>

fun last_slot_id :: "nat \<Rightarrow> (nat \<rightharpoonup> 'p slot) \<Rightarrow> 'p slot \<Rightarrow> nat res" where
  "last_slot_id 0 m s = Inl Diverges"
| "last_slot_id (Suc fuel) m s =
     (if nxt s \<noteq> 0 then res_bind (lookup_res m (nxt s)) (last_slot_id fuel m) else Inr (slot_id s))"

definition slot_set_of_dict ::
  "nat \<Rightarrow> 'p sched_env \<Rightarrow> (nat \<rightharpoonup> 'p slot) \<Rightarrow> ('p sched_env \<times> 'p slot_set) res" where
  "slot_set_of_dict fuel E m =
     res_bind (lookup_res m 1) (\<lambda>s.
     res_bind (last_slot_id fuel m s) (\<lambda>l.
       apply_calendar fuel E \<lparr>slots = m, last_id = l, ss_begin = slot_b s, cache = []\<rparr>))"

definition slot_set_of_slot ::
  "nat \<Rightarrow> 'p sched_env \<Rightarrow> 'p slot \<Rightarrow> ('p sched_env \<times> 'p slot_set) res" where
  "slot_set_of_slot fuel E s =
     apply_calendar fuel E \<lparr>slots = [1 \<mapsto> s], last_id = 1, ss_begin = slot_b s, cache = []\<rparr>"

definition slot_set_of_itvs ::
  "nat \<Rightarrow> 'p sched_env \<Rightarrow> 'p \<Rightarrow> int \<Rightarrow> ('p sched_env \<times> 'p slot_set) res" where
  "slot_set_of_itvs fuel E is b =
     apply_calendar fuel E
       \<lparr>slots = [1 \<mapsto> new_slot E 1 0 0 is b MAX_TIME Map.empty Map.empty],
        last_id = 1, ss_begin = b, cache = []\<rparr>"

section \<open>Quotas over a range of slots\<close>

text \<open>The loop of \<open>Quotas.check_slots_quotas\<close>: \<open>None\<close> when the rules change on the way.\<close>

fun combine_slots ::
  "nat \<Rightarrow> (nat \<rightharpoonup> 'p slot) \<Rightarrow> nat \<Rightarrow> nat \<Rightarrow> quotas \<Rightarrow> quotas option res" where
  "combine_slots 0 m sid sid_right q = Inl Diverges"
| "combine_slots (Suc fuel) m sid sid_right q =
     res_bind (lookup_res m sid) (\<lambda>slot.
     res_bind (attr (slot_quotas slot)) (\<lambda>sq.
       let q' = quotas_combine q sq
       in if sid = sid_right then Inr (Some q')
          else if nxt slot \<noteq> 0
          then res_bind (lookup_res m (nxt slot)) (\<lambda>slot'.
               res_bind (attr (quotas_rules_id slot)) (\<lambda>r.
               res_bind (attr (quotas_rules_id slot')) (\<lambda>r'.
                 if r \<noteq> r' then Inr None else combine_slots fuel m (nxt slot) sid_right q')))
          else combine_slots fuel m (nxt slot) sid_right q'))"

definition check_slots_quotas ::
  "'p procset_ops \<Rightarrow> 'p sched_env \<Rightarrow> nat \<Rightarrow> (nat \<rightharpoonup> 'p slot) \<Rightarrow> nat \<Rightarrow> nat \<Rightarrow> 'p job \<Rightarrow> int \<Rightarrow> int \<Rightarrow>
   quota_result res" where
  "check_slots_quotas P E fuel m sid_left sid_right job job_nb_resources duration =
     res_bind (lookup_res m sid_left) (\<lambda>slot.
     res_bind (attr (slot_quotas slot)) (\<lambda>sq.
     res_bind (combine_slots fuel m sid_left sid_right
                 ((new_quotas (quotas_conf E))\<lparr>rules := rules sq\<rparr>)) (\<lambda>c.
       case c of
         None \<Rightarrow> Inr Different_rules
       | Some q \<Rightarrow>
           Inr (quotas_check (quotas_update P (quotas_conf E) q job job_nb_resources duration) job))))"

section \<open>Chains of slots\<close>

text \<open>
  \<open>linked m i is j\<close>: following \<open>next\<close> from \<open>i\<close> one meets the slots \<open>is\<close> and arrives at \<open>j\<close>.
  \<open>contig b ss e\<close>: the slots follow each other in time from \<open>b\<close> to \<open>e\<close>; a slot may be empty
  (\<open>split_slots_jobs\<close> makes empty slots when a slot begins where a job ends).
  \<open>free_at P ss t\<close>: the resources free at the instant \<open>t\<close>.
\<close>

fun linked :: "(nat \<rightharpoonup> 'p slot) \<Rightarrow> nat \<Rightarrow> nat list \<Rightarrow> nat \<Rightarrow> bool" where
  "linked m i [] j \<longleftrightarrow> i = j"
| "linked m i (x # xs) j \<longleftrightarrow>
     i = x \<and> (case m x of None \<Rightarrow> False | Some s \<Rightarrow> slot_id s = x \<and> linked m (nxt s) xs j)"

abbreviation slots_at :: "(nat \<rightharpoonup> 'p slot) \<Rightarrow> nat list \<Rightarrow> 'p slot list" where
  "slots_at m is \<equiv> map (\<lambda>i. the (m i)) is"

fun contig :: "int \<Rightarrow> 'p slot list \<Rightarrow> int \<Rightarrow> bool" where
  "contig b [] e \<longleftrightarrow> b = e + 1"
| "contig b (s # ss) e \<longleftrightarrow> slot_b s = b \<and> b \<le> slot_e s + 1 \<and> contig (slot_e s + 1) ss e"

definition free_at :: "'p procset_ops \<Rightarrow> 'p slot list \<Rightarrow> int \<Rightarrow> nat set" where
  "free_at P ss t = (\<Union>s \<in> {s \<in> set ss. slot_b s \<le> t \<and> t \<le> slot_e s}. elems P (itvs s))"

text \<open>A slot set is well formed when a chain of distinct slots leads from 1 to 0 through the time.\<close>

definition chain :: "'p slot_set \<Rightarrow> nat list \<Rightarrow> int \<Rightarrow> int \<Rightarrow> bool" where
  "chain ss is b e \<longleftrightarrow>
     linked (slots ss) 1 is 0 \<and> distinct is \<and> is \<noteq> [] \<and> dom (slots ss) \<subseteq> {1..last_id ss} \<and>
     contig b (slots_at (slots ss) is) e"

text \<open>What the methods need in order not to raise: attributes that are there, rules that exist.\<close>

definition slot_ready :: "'p sched_env \<Rightarrow> 'p slot \<Rightarrow> bool" where
  "slot_ready E s \<longleftrightarrow>
     (q_enabled (quotas_conf E) \<longrightarrow>
        slot_quotas s \<noteq> None \<and>
        (case quotas_rules_id s of
           None \<Rightarrow> False
         | Some r \<Rightarrow> (case calendar_of E of
                       None \<Rightarrow> True
                     | Some cal \<Rightarrow> \<not> isl (py_nth (quotas_rules_list cal) r))))"

definition job_ready :: "'p job \<Rightarrow> bool" where
  "job_ready job \<longleftrightarrow>
     (ts job \<longrightarrow> ts_user job \<noteq> None \<and> ts_name job \<noteq> None) \<and>
     (ph job \<noteq> No_placeholder \<longrightarrow> ph_name job \<noteq> None)"

text \<open>What a job does to the resources of the slots during it.\<close>

definition job_effect :: "'p procset_ops \<Rightarrow> 'p job \<Rightarrow> 'p \<Rightarrow> bool \<Rightarrow> nat set \<Rightarrow> nat set" where
  "job_effect P job rs sub S =
     (if sub then S - elems P rs
      else if \<not> ts job \<and> ph job = No_placeholder then S \<union> elems P rs else S)"

lemma linked_append: "linked m i (xs @ ys) j \<longleftrightarrow> (\<exists>k. linked m i xs k \<and> linked m k ys j)"
  by (induction xs arbitrary: i) (auto split: option.splits)

lemma linked_cong:
  "\<lbrakk>linked m i xs j; \<forall>x \<in> set xs. m' x = m x\<rbrakk> \<Longrightarrow> linked m' i xs j"
  by (induction xs arbitrary: i) (auto split: option.splits)

lemma linked_dom: "linked m i xs j \<Longrightarrow> set xs \<subseteq> dom m"
  by (induction xs arbitrary: i) (auto split: option.splits)

lemma linked_slot: "\<lbrakk>linked m i xs j; x \<in> set xs\<rbrakk> \<Longrightarrow> \<exists>s. m x = Some s \<and> slot_id s = x"
  by (induction xs arbitrary: i) (auto split: option.splits)

lemma contig_append: "contig b (xs @ ys) e \<longleftrightarrow> (\<exists>k. contig b xs k \<and> contig (k + 1) ys e)"
proof (induction xs arbitrary: b)
  case Nil
  show ?case by (auto intro: exI [of _ "b - 1"])
qed auto

lemma contig_bounds:
  "contig b ss e \<Longrightarrow> b \<le> e + 1 \<and> (\<forall>s \<in> set ss. b \<le> slot_b s \<and> slot_e s \<le> e)"
  by (induction ss arbitrary: b) force+

lemma free_at_Nil [simp]: "free_at P [] t = {}"
  by (simp add: free_at_def)

lemma free_at_Cons:
  "free_at P (s # ss) t = (if slot_b s \<le> t \<and> t \<le> slot_e s then elems P (itvs s) else {}) \<union>
     free_at P ss t"
  by (auto simp: free_at_def)

lemma free_at_append: "free_at P (xs @ ys) t = free_at P xs t \<union> free_at P ys t"
  by (auto simp: free_at_def)

lemma free_at_outside: "\<lbrakk>contig b ss e; t < b \<or> e < t\<rbrakk> \<Longrightarrow> free_at P ss t = {}"
  using contig_bounds by (fastforce simp: free_at_def)

lemma slots_at_cong: "(\<forall>x \<in> set xs. m' x = m x) \<Longrightarrow> slots_at m' xs = slots_at m xs"
  by simp

section \<open>One slot\<close>

context procset
begin

lemma copy_quotas_ready:
  assumes "slot_ready E s"
  shows "\<exists>s'. copy_quotas E (new_slot E i p n is b e tsi phi) s = Inr s' \<and> slot_ready E s' \<and>
           slot_id s' = i \<and> nxt s' = n \<and> itvs s' = is \<and> slot_b s' = b \<and> slot_e s' = e"
proof (cases "q_enabled (quotas_conf E)")
  case False
  then show ?thesis by (simp add: copy_quotas_def new_slot_def slot_ready_def)
next
  case True
  with assms obtain q r where qr: "slot_quotas s = Some q" "quotas_rules_id s = Some r"
    and ok: "case calendar_of E of None \<Rightarrow> True
             | Some cal \<Rightarrow> \<not> isl (py_nth (quotas_rules_list cal) r)"
    by (auto simp: slot_ready_def split: option.splits)
  obtain q' where "set_rules E (deepcopy_from (new_quotas (quotas_conf E)) q) r = Inr q'"
    using ok by (cases "calendar_of E"; cases "py_nth (quotas_rules_list (the (calendar_of E))) r")
      (auto simp: set_rules_def)
  with True qr ok show ?thesis
    by (auto simp: copy_quotas_def new_slot_def slot_ready_def split: option.splits)
qed


text \<open>The middle slot B, for both directions.\<close>

definition during_job where
  "during_job E slot job wt rs sub =
     (if sub then sub_slot_during_job P E slot job wt rs else add_slot_during_job P slot job wt rs)"

text \<open>The stages after the resources change only the shared parts of a slot.\<close>

definition same_place where
  "same_place s s' \<longleftrightarrow> slot_id s' = slot_id s \<and> nxt s' = nxt s \<and> slot_b s' = slot_b s \<and>
     slot_e s' = slot_e s \<and> itvs s' = itvs s \<and> quotas_rules_id s' = quotas_rules_id s \<and>
     (slot_quotas s' = None \<longleftrightarrow> slot_quotas s = None)"

lemma ts_stage:
  assumes "job_ready job"
  shows "\<exists>s'. (if ts job
            then res_bind (attr (ts_user job)) (\<lambda>u. res_bind (attr (ts_name job)) (\<lambda>n.
                   Inr (s\<lparr>ts_itvs := ts_entry f rs u n (ts_itvs s)\<rparr>)))
            else Inr s) = Inr s' \<and> same_place s s'"
  using assms by (cases "ts job") (auto simp: job_ready_def same_place_def)

lemma sub_ph_stage:
  assumes "job_ready job"
  shows "\<exists>s'. (case ph job of
              Allow \<Rightarrow> res_bind (attr (ph_name job)) (\<lambda>n.
                Inr (case ph_itvs s n of
                       None \<Rightarrow> s
                     | Some is \<Rightarrow> s\<lparr>ph_itvs := (ph_itvs s)(n \<mapsto> ps_diff P is rs)\<rparr>))
            | Placeholder \<Rightarrow> res_bind (attr (ph_name job)) (\<lambda>n.
                Inr (s\<lparr>ph_itvs := (ph_itvs s)(n \<mapsto> rs)\<rparr>))
            | No_placeholder \<Rightarrow> Inr s) = Inr s' \<and> same_place s s'"
  using assms by (cases "ph job") (auto simp: job_ready_def same_place_def split: option.splits)

lemma add_ph_stage:
  assumes "job_ready job"
  shows "\<exists>s'. (case ph job of
           Placeholder \<Rightarrow> res_bind (attr (ph_name job)) (\<lambda>n.
             Inr (s\<lparr>ph_itvs := (ph_itvs s)(n \<mapsto>
                    (case ph_itvs s n of None \<Rightarrow> rs | Some is \<Rightarrow> ps_union P is rs))\<rparr>))
         | _ \<Rightarrow> Inr s) = Inr s' \<and> same_place s s'"
  using assms by (cases "ph job") (auto simp: job_ready_def same_place_def)

lemma same_place_trans: "\<lbrakk>same_place r s; same_place s t\<rbrakk> \<Longrightarrow> same_place r t"
  by (simp add: same_place_def)

lemma sub_slot_same_place:
  assumes "job_ready job"
  shows "\<exists>s'. sub_slot_during_job P E s job wt rs = Inr s' \<and>
     same_place (s\<lparr>slot_b := max (slot_b s) (start_time job),
                   slot_e := min (slot_e s) (start_time job + wt - 1),
                   itvs := ps_diff P (itvs s) rs\<rparr>) s'"
proof -
  define s1 where "s1 = s\<lparr>slot_b := max (slot_b s) (start_time job),
                   slot_e := min (slot_e s) (start_time job + wt - 1),
                   itvs := ps_diff P (itvs s) rs\<rparr>"
  from ts_stage [OF assms, where s = s1 and f = id and rs = rs] obtain s2 where s2: "(if ts job
            then res_bind (attr (ts_user job)) (\<lambda>u. res_bind (attr (ts_name job)) (\<lambda>n.
                   Inr (s1\<lparr>ts_itvs := ts_entry id rs u n (ts_itvs s1)\<rparr>)))
            else Inr s1) = Inr s2" "same_place s1 s2" by blast
  from sub_ph_stage [OF assms, where s = s2 and rs = rs] obtain s3 where s3: "(case ph job of
              Allow \<Rightarrow> res_bind (attr (ph_name job)) (\<lambda>n.
                Inr (case ph_itvs s2 n of
                       None \<Rightarrow> s2
                     | Some is \<Rightarrow> s2\<lparr>ph_itvs := (ph_itvs s2)(n \<mapsto> ps_diff P is rs)\<rparr>))
            | Placeholder \<Rightarrow> res_bind (attr (ph_name job)) (\<lambda>n.
                Inr (s2\<lparr>ph_itvs := (ph_itvs s2)(n \<mapsto> rs)\<rparr>))
            | No_placeholder \<Rightarrow> Inr s2) = Inr s3" "same_place s2 s3" by blast
  define s4 where "s4 = (case slot_quotas s3 of
                None \<Rightarrow> s3
              | Some q \<Rightarrow>
                  if has_type job ''container'' then s3
                  else s3\<lparr>slot_quotas := Some (quotas_update P (quotas_conf E) q job 0 0)\<rparr>)"
  have "sub_slot_during_job P E s job wt rs = Inr s4"
    unfolding sub_slot_during_job_def Let_def s1_def [symmetric]
    by (simp only: s2 s3 res_bind_simps s4_def)
  moreover have "same_place s3 s4"
    by (auto simp: s4_def same_place_def split: option.splits)
  ultimately show ?thesis
    using s2(2) s3(2) same_place_trans unfolding s1_def by blast
qed

lemma add_slot_same_place:
  assumes "job_ready job"
  shows "\<exists>s'. add_slot_during_job P s job wt rs = Inr s' \<and>
     same_place (s\<lparr>slot_b := max (slot_b s) (start_time job),
                   slot_e := min (slot_e s) (start_time job + wt - 1),
                   itvs := (if \<not> ts job \<and> ph job = No_placeholder
                            then ps_union P (itvs s) rs else itvs s)\<rparr>) s'"
proof -
  let ?s0 = "s\<lparr>slot_b := max (slot_b s) (start_time job),
               slot_e := min (slot_e s) (start_time job + wt - 1)\<rparr>"
  define s1 where "s1 = (if \<not> ts job \<and> ph job = No_placeholder
                then ?s0\<lparr>itvs := ps_union P (itvs ?s0) rs\<rparr> else ?s0)"
  from ts_stage [OF assms, where s = s1 and f = "\<lambda>is. ps_union P is rs" and rs = rs] obtain s2 where s2: "(if ts job
            then res_bind (attr (ts_user job)) (\<lambda>u. res_bind (attr (ts_name job)) (\<lambda>n.
                   Inr (s1\<lparr>ts_itvs := ts_entry (\<lambda>is. ps_union P is rs) rs u n (ts_itvs s1)\<rparr>)))
            else Inr s1) = Inr s2" "same_place s1 s2" by blast
  from add_ph_stage [OF assms, where s = s2 and rs = rs] obtain s3 where s3: "(case ph job of
           Placeholder \<Rightarrow> res_bind (attr (ph_name job)) (\<lambda>n.
             Inr (s2\<lparr>ph_itvs := (ph_itvs s2)(n \<mapsto>
                    (case ph_itvs s2 n of None \<Rightarrow> rs | Some is \<Rightarrow> ps_union P is rs))\<rparr>))
         | _ \<Rightarrow> Inr s2) = Inr s3" "same_place s2 s3" by blast
  have "add_slot_during_job P s job wt rs = Inr s3"
    unfolding add_slot_during_job_def Let_def s1_def [symmetric]
    by (simp only: s2 s3 res_bind_simps)
  moreover have "same_place (s\<lparr>slot_b := max (slot_b s) (start_time job),
                   slot_e := min (slot_e s) (start_time job + wt - 1),
                   itvs := (if \<not> ts job \<and> ph job = No_placeholder
                            then ps_union P (itvs s) rs else itvs s)\<rparr>) s1"
    by (simp add: s1_def same_place_def)
  ultimately show ?thesis using s2(2) s3(2) same_place_trans by blast
qed

lemma during_job_spec:
  assumes "slot_ready E s" "job_ready job"
  shows "\<exists>s'. during_job E s job wt rs sub = Inr s' \<and> slot_ready E s' \<and>
           slot_id s' = slot_id s \<and> nxt s' = nxt s \<and>
           slot_b s' = max (slot_b s) (start_time job) \<and>
           slot_e s' = min (slot_e s) (start_time job + wt - 1) \<and>
           elems P (itvs s') = job_effect P job rs sub (elems P (itvs s))"
  using sub_slot_same_place [OF assms(2), of E s wt rs] add_slot_same_place [OF assms(2), of s wt rs]
    assms(1)
  by (cases sub) (auto simp: during_job_def same_place_def slot_ready_def job_effect_def)

end

section \<open>The loop of split_slots\<close>

context procset
begin

text \<open>
  \<open>replaces E ss i ids j b e F ss' seg\<close>: in \<open>ss'\<close> the slots \<open>seg\<close> stand where \<open>ss\<close> had the slots
  \<open>ids\<close>, from \<open>i\<close> to \<open>j\<close> in the chain and from \<open>b\<close> to \<open>e\<close> in time; \<open>F t\<close> is what they leave free at
  \<open>t\<close>; nothing else changed.
\<close>

definition replaces where
  "replaces E ss i ids j b e F ss' seg \<longleftrightarrow>
     linked (slots ss') i seg j \<and> distinct seg \<and> seg \<noteq> [] \<and>
     set seg \<subseteq> set ids \<union> {last_id ss<..last_id ss'} \<and> set ids \<subseteq> set seg \<and>
     last_id ss \<le> last_id ss' \<and> last_id ss' \<le> last_id ss + 2 * length ids \<and>
     (\<forall>y. y \<notin> set seg \<longrightarrow> slots ss' y = slots ss y) \<and>
     dom (slots ss') \<subseteq> {1..last_id ss'} \<and>
     contig b (slots_at (slots ss') seg) e \<and>
     (\<forall>y \<in> set seg. slot_ready E (the (slots ss' y))) \<and>
     (\<forall>t. free_at P (slots_at (slots ss') seg) t = F t) \<and>
     ss_begin ss' = ss_begin ss \<and> cache ss' = cache ss"

definition during_free where
  "during_free job wt rs sub b e S t =
     (if b \<le> t \<and> t \<le> e
      then if start_time job \<le> t \<and> t < start_time job + wt then job_effect P job rs sub S else S
      else {})"

lemma split_one_replaces:
  assumes s: "slots ss x = Some s" "slot_id s = x" "slot_ready E s" "job_ready job"
    and dom: "dom (slots ss) \<subseteq> {1..last_id ss}"
    and time: "slot_b s \<le> slot_e s + 1" "start_time job \<le> slot_e s + 1"
      "slot_b s \<le> start_time job + wt" "0 \<le> wt"
  shows "\<exists>ss' b_id seg. split_one P E ss s job wt rs sub = Inr (ss', b_id) \<and>
           replaces E ss x [x] (nxt s) (slot_b s) (slot_e s)
             (during_free job wt rs sub (slot_b s) (slot_e s) (elems P (itvs s))) ss' seg \<and>
           b_id \<in> set seg \<and> slot_e (the (slots ss' b_id)) < start_time job + wt"
proof -
  let ?st = "start_time job" and ?b = "slot_b s" and ?e = "slot_e s" and ?l = "last_id ss"
  let ?F = "during_free job wt rs sub ?b ?e (elems P (itvs s))"
  from s(1) dom have x: "1 \<le> x" "x \<le> ?l" by auto
  have fresh: "slots ss (?l + 1) = None" "slots ss (?l + 2) = None" using dom by force+
  note one = split_one_def [of P, folded during_job_def]
  consider (AB) "?st > ?b" "?st + wt > ?e" | (ABC) "?st > ?b" "?st + wt \<le> ?e"
    | (B) "?st \<le> ?b" "?st + wt - 1 \<ge> ?e" | (BC) "?st \<le> ?b" "?st + wt - 1 < ?e" by linarith
  then show ?thesis
  proof cases
    case AB
    let ?a = "new_slot E x (prv s) (?l + 1) (itvs s) ?b (?st - 1) (ts_itvs s) (ph_itvs s)"
    let ?s = "s\<lparr>prv := x, slot_id := ?l + 1\<rparr>"
    from copy_quotas_ready [OF s(3), of x "prv s" "?l + 1" "itvs s" ?b "?st - 1" "ts_itvs s" "ph_itvs s"]
    obtain a where a: "copy_quotas E ?a s = Inr a" "slot_ready E a" "slot_id a = x" "nxt a = ?l + 1"
      "itvs a = itvs s" "slot_b a = ?b" "slot_e a = ?st - 1" by blast
    from s(3) have "slot_ready E ?s" by (simp add: slot_ready_def)
    from during_job_spec [OF this s(4), of wt rs sub] obtain m where
      m: "during_job E ?s job wt rs sub = Inr m" "slot_ready E m" "slot_id m = ?l + 1"
        "nxt m = nxt s" "slot_b m = max ?b ?st" "slot_e m = min ?e (?st + wt - 1)"
        "elems P (itvs m) = job_effect P job rs sub (elems P (itvs s))" by auto
    let ?ss = "ss\<lparr>last_id := ?l + 1, slots := (slots ss)(x \<mapsto> a, ?l + 1 \<mapsto> m)\<rparr>"
    have "split_one P E ss s job wt rs sub = Inr (?ss, ?l + 1)"
      using AB a(1) m(1) s(2) by (simp add: one slot_before_job_def Let_def)
    moreover have "replaces E ss x [x] (nxt s) ?b ?e ?F ?ss [x, ?l + 1]"
      using AB a m x time dom
      by (auto simp: replaces_def free_at_Cons during_free_def fun_eq_iff)
    moreover have "slot_e (the (slots ?ss (?l + 1))) < ?st + wt" using m(6) x by simp
    ultimately show ?thesis by force
  next
    case ABC
    let ?a = "new_slot E x (prv s) (?l + 1) (itvs s) ?b (?st - 1) (ts_itvs s) (ph_itvs s)"
    let ?s = "s\<lparr>prv := x, slot_id := ?l + 1\<rparr>"
    let ?c = "new_slot E (?l + 2) (?l + 1) (nxt s) (itvs s) (?st + wt) ?e (ts_itvs s) (ph_itvs s)"
    from copy_quotas_ready [OF s(3), of x "prv s" "?l + 1" "itvs s" ?b "?st - 1" "ts_itvs s" "ph_itvs s"]
    obtain a where a: "copy_quotas E ?a s = Inr a" "slot_ready E a" "slot_id a = x" "nxt a = ?l + 1"
      "itvs a = itvs s" "slot_b a = ?b" "slot_e a = ?st - 1" by blast
    from s(3) have ready: "slot_ready E ?s" "slot_ready E (?s\<lparr>nxt := ?l + 2\<rparr>)"
      by (simp_all add: slot_ready_def)
    from copy_quotas_ready [OF ready(1), of "?l + 2" "?l + 1" "nxt s" "itvs s" "?st + wt" ?e
        "ts_itvs s" "ph_itvs s"]
    obtain c where c: "copy_quotas E ?c ?s = Inr c" "slot_ready E c" "slot_id c = ?l + 2"
      "nxt c = nxt s" "itvs c = itvs s" "slot_b c = ?st + wt" "slot_e c = ?e" by blast
    from during_job_spec [OF ready(2) s(4), of wt rs sub] obtain m where
      m: "during_job E (?s\<lparr>nxt := ?l + 2\<rparr>) job wt rs sub = Inr m" "slot_ready E m"
        "slot_id m = ?l + 1" "nxt m = ?l + 2" "slot_b m = max ?b ?st"
        "slot_e m = min ?e (?st + wt - 1)"
        "elems P (itvs m) = job_effect P job rs sub (elems P (itvs s))" by auto
    let ?ss = "ss\<lparr>last_id := ?l + 2,
                 slots := (slots ss)(x \<mapsto> a, ?l + 1 \<mapsto> m, ?l + 2 \<mapsto> c)\<rparr>"
    have "split_one P E ss s job wt rs sub = Inr (?ss, ?l + 1)"
      using ABC a(1) c(1) m(1) s(2)
      by (simp add: one slot_before_job_def slot_after_job_def Let_def fun_upd_twist)
    moreover have "replaces E ss x [x] (nxt s) ?b ?e ?F ?ss [x, ?l + 1, ?l + 2]"
      using ABC a m c x time dom
      by (auto simp: replaces_def free_at_Cons during_free_def fun_eq_iff)
    moreover have "slot_e (the (slots ?ss (?l + 1))) < ?st + wt" using m(6) x by simp
    ultimately show ?thesis by force
  next
    case B
    from during_job_spec [OF s(3,4), of wt rs sub] obtain m where
      m: "during_job E s job wt rs sub = Inr m" "slot_ready E m" "slot_id m = x"
        "nxt m = nxt s" "slot_b m = max ?b ?st" "slot_e m = min ?e (?st + wt - 1)"
        "elems P (itvs m) = job_effect P job rs sub (elems P (itvs s))" using s(2) by auto
    let ?ss = "ss\<lparr>slots := (slots ss)(x \<mapsto> m)\<rparr>"
    have "split_one P E ss s job wt rs sub = Inr (?ss, x)"
      using B m(1) s(2) by (simp add: one Let_def)
    moreover have "replaces E ss x [x] (nxt s) ?b ?e ?F ?ss [x]"
      using B m x time dom by (auto simp: replaces_def free_at_Cons during_free_def fun_eq_iff)
    moreover have "slot_e (the (slots ?ss (x))) < ?st + wt" using m(6) x by simp
    ultimately show ?thesis by force
  next
    case BC
    let ?c = "new_slot E (?l + 1) x (nxt s) (itvs s) (?st + wt) ?e (ts_itvs s) (ph_itvs s)"
    from copy_quotas_ready [OF s(3), of "?l + 1" x "nxt s" "itvs s" "?st + wt" ?e
        "ts_itvs s" "ph_itvs s"]
    obtain c where c: "copy_quotas E ?c s = Inr c" "slot_ready E c" "slot_id c = ?l + 1"
      "nxt c = nxt s" "itvs c = itvs s" "slot_b c = ?st + wt" "slot_e c = ?e" by blast
    from s(3) have "slot_ready E (s\<lparr>nxt := ?l + 1\<rparr>)" by (simp add: slot_ready_def)
    from during_job_spec [OF this s(4), of wt rs sub] obtain m where
      m: "during_job E (s\<lparr>nxt := ?l + 1\<rparr>) job wt rs sub = Inr m" "slot_ready E m"
        "slot_id m = x" "nxt m = ?l + 1" "slot_b m = max ?b ?st"
        "slot_e m = min ?e (?st + wt - 1)"
        "elems P (itvs m) = job_effect P job rs sub (elems P (itvs s))" using s(2) by auto
    let ?ss = "ss\<lparr>last_id := ?l + 1, slots := (slots ss)(x \<mapsto> m, ?l + 1 \<mapsto> c)\<rparr>"
    have "split_one P E ss s job wt rs sub = Inr (?ss, x)"
      using BC c(1) m(1) s(2) x by (simp add: one slot_after_job_def Let_def fun_upd_twist)
    moreover have "replaces E ss x [x] (nxt s) ?b ?e ?F ?ss [x, ?l + 1]"
      using BC m c x time dom
      by (auto simp: replaces_def free_at_Cons during_free_def fun_eq_iff)
    moreover have "slot_e (the (slots ?ss (x))) < ?st + wt" using m(6) x by simp
    ultimately show ?thesis by force
  qed
qed

end

context procset
begin

text \<open>What a job leaves free of what \<open>G\<close> gave, between \<open>b\<close> and \<open>e\<close>.\<close>

definition after_job where
  "after_job job wt rs sub b e G t =
     (if b \<le> t \<and> t \<le> e \<and> start_time job \<le> t \<and> t < start_time job + wt
      then job_effect P job rs sub (G t) else G t)"

lemma replaces_append:
  assumes 1: "replaces E ss i [x] k b m F ss1 seg1"
    and 2: "replaces E ss1 k ids j (m + 1) e G ss2 seg2"
    and x: "x \<notin> set ids" "set (x # ids) \<subseteq> {1..last_id ss}"
    and F: "\<forall>t. t < b \<or> m < t \<longrightarrow> F t = {}"
    and H: "\<forall>t. H t = F t \<union> G t"
  shows "replaces E ss i (x # ids) j b e H ss2 (seg1 @ seg2)"
proof -
  have disj: "set seg1 \<inter> set seg2 = {}"
    using 1 2 x by (fastforce simp: replaces_def)
  then have same: "\<forall>y \<in> set seg1. slots ss2 y = slots ss1 y"
    using 2 by (auto simp: replaces_def)
  then have at: "slots_at (slots ss2) seg1 = slots_at (slots ss1) seg1" by simp
  have "linked (slots ss2) i seg1 k" using 1 same linked_cong by (auto simp: replaces_def)
  then have "linked (slots ss2) i (seg1 @ seg2) j"
    using 2 by (auto simp: replaces_def linked_append)
  moreover have "contig b (slots_at (slots ss2) (seg1 @ seg2)) e"
    using 1 2 unfolding replaces_def map_append contig_append at by blast
  moreover have "free_at P (slots_at (slots ss2) (seg1 @ seg2)) t = H t" for t
    using 1 2 H unfolding replaces_def map_append free_at_append at by simp
  moreover have "\<forall>y \<in> set (seg1 @ seg2). slot_ready E (the (slots ss2 y))"
    using 1 2 same by (auto simp: replaces_def)
  moreover have "set (seg1 @ seg2) \<subseteq> set (x # ids) \<union> {last_id ss<..last_id ss2}"
  proof -
    have "set seg1 \<subseteq> {x} \<union> {last_id ss<..last_id ss1}" "last_id ss \<le> last_id ss1"
      using 1 by (simp_all add: replaces_def)
    moreover have "set seg2 \<subseteq> set ids \<union> {last_id ss1<..last_id ss2}" "last_id ss1 \<le> last_id ss2"
      using 2 by (simp_all add: replaces_def)
    ultimately show ?thesis by auto
  qed
  moreover have "set (x # ids) \<subseteq> set (seg1 @ seg2)" "last_id ss \<le> last_id ss2"
    "last_id ss2 \<le> last_id ss + 2 * length (x # ids)"
    using 1 2 unfolding replaces_def by auto
  moreover have "\<forall>y. y \<notin> set (seg1 @ seg2) \<longrightarrow> slots ss2 y = slots ss y"
    using 1 2 unfolding replaces_def by simp
  moreover have "distinct (seg1 @ seg2)" "seg1 @ seg2 \<noteq> []"
    "dom (slots ss2) \<subseteq> {1..last_id ss2}" "ss_begin ss2 = ss_begin ss" "cache ss2 = cache ss"
    using 1 2 disj unfolding replaces_def by simp_all
  ultimately show ?thesis unfolding replaces_def by blast
qed

lemma split_loop_replaces:
  assumes "linked (slots ss) i ids j" "distinct ids" "ids \<noteq> []" "last ids = sid_right"
    and "dom (slots ss) \<subseteq> {1..last_id ss}" "contig b (slots_at (slots ss) ids) e"
    and "\<forall>y \<in> set ids. slot_ready E (the (slots ss y))" "job_ready job"
    and "start_time job \<le> slot_e (the (slots ss (hd ids))) + 1"
    and "slot_b (the (slots ss sid_right)) \<le> start_time job + wt" "0 \<le> wt"
    and "length ids \<le> fuel" "held = sid_right"
  shows "\<exists>ss' held' seg.
           split_loop P E fuel ss held i sid_right job wt rs sub = Inr (ss', held') \<and>
           replaces E ss i ids j b e
             (after_job job wt rs sub b e (free_at P (slots_at (slots ss) ids))) ss' seg \<and>
           held' \<in> set seg \<and> slot_e (the (slots ss' held')) < start_time job + wt"
  using assms
proof (induction ids arbitrary: ss i b fuel)
  case (Cons x ids)
  then obtain fuel' where fuel: "fuel = Suc fuel'" by (cases fuel) auto
  from Cons.prems obtain s where s: "slots ss x = Some s" "slot_id s = x" "i = x"
    "linked (slots ss) (nxt s) ids j" by (auto split: option.splits)
  have contig: "slot_b s = b" "b \<le> slot_e s + 1"
    "contig (slot_e s + 1) (slots_at (slots ss) ids) e"
    using Cons.prems(6) s(1) by auto
  have xs: "set (x # ids) \<subseteq> {1..last_id ss}"
    using linked_dom [OF Cons.prems(1)] Cons.prems(5) by blast
  have right_le: "slot_b s \<le> start_time job + wt"
  proof (cases "ids = []")
    case True
    with Cons.prems(4,10) s(1) show ?thesis by simp
  next
    case False
    with Cons.prems(4) have "the (slots ss sid_right) \<in> set (slots_at (slots ss) ids)" by auto
    with contig_bounds [OF contig(3)] contig(1,2) Cons.prems(10) show ?thesis by force
  qed
  from split_one_replaces [OF s(1,2) _ Cons.prems(8,5) _ _ right_le Cons.prems(11), of E rs sub]
    Cons.prems(7,9) s(1) contig
  obtain ss1 b_id seg1 where
    one: "split_one P E ss s job wt rs sub = Inr (ss1, b_id)"
    and r1: "replaces E ss x [x] (nxt s) (slot_b s) (slot_e s)
             (during_free job wt rs sub (slot_b s) (slot_e s) (elems P (itvs s))) ss1 seg1"
    and b_id: "b_id \<in> set seg1" "slot_e (the (slots ss1 b_id)) < start_time job + wt"
    by auto
  show ?case
  proof (cases "ids = []")
    case True
    with Cons.prems(4) have right: "x = sid_right" by simp
    from contig(3) True have e: "slot_e s = e" by simp
    have "after_job job wt rs sub b e (free_at P (slots_at (slots ss) (x # ids))) =
        during_free job wt rs sub (slot_b s) (slot_e s) (elems P (itvs s))"
      using s(1) True contig(1) e
      by (auto simp: fun_eq_iff after_job_def during_free_def free_at_Cons)
    with one r1 b_id True right s contig(1) e Cons.prems(13) show ?thesis by (auto simp: fuel)
  next
    case False
    from False Cons.prems(4,2) have ne: "x \<noteq> sid_right" "last ids = sid_right" by auto
    have notin: "\<forall>y \<in> set ids. slots ss1 y = slots ss y"
      using r1 xs Cons.prems(2) by (fastforce simp: replaces_def)
    then have at: "slots_at (slots ss1) ids = slots_at (slots ss) ids" by simp
    have hd_le: "start_time job \<le> slot_e (the (slots ss1 (hd ids))) + 1"
    proof -
      obtain y ys where ids: "ids = y # ys" using False by (cases ids) auto
      from contig(3) ids have "slot_e s + 1 \<le> slot_e (the (slots ss y)) + 1" by simp
      with Cons.prems(9) s(1) ids notin show ?thesis by auto
    qed
    have "\<exists>ss2 held' seg2.
        split_loop P E fuel' ss1 held (nxt s) sid_right job wt rs sub = Inr (ss2, held') \<and>
        replaces E ss1 (nxt s) ids j (slot_e s + 1) e
          (after_job job wt rs sub (slot_e s + 1) e (free_at P (slots_at (slots ss1) ids))) ss2 seg2 \<and>
        held' \<in> set seg2 \<and> slot_e (the (slots ss2 held')) < start_time job + wt"
    proof (rule Cons.IH)
      show "linked (slots ss1) (nxt s) ids j" using linked_cong [OF s(4) notin] .
      show "dom (slots ss1) \<subseteq> {1..last_id ss1}" using r1 by (simp add: replaces_def)
      show "contig (slot_e s + 1) (slots_at (slots ss1) ids) e" using contig(3) by (simp only: at)
      show "\<forall>y \<in> set ids. slot_ready E (the (slots ss1 y))" using Cons.prems(7) notin by simp
      show "slot_b (the (slots ss1 sid_right)) \<le> start_time job + wt"
        using Cons.prems(10) notin ne(2) False last_in_set by fastforce
    qed (use Cons.prems False ne hd_le fuel in auto)
    then obtain ss2 held' seg2 where
      loop: "split_loop P E fuel' ss1 held (nxt s) sid_right job wt rs sub = Inr (ss2, held')"
      and r2: "replaces E ss1 (nxt s) ids j (slot_e s + 1) e
             (after_job job wt rs sub (slot_e s + 1) e (free_at P (slots_at (slots ss1) ids))) ss2 seg2"
      and held': "held' \<in> set seg2" "slot_e (the (slots ss2 held')) < start_time job + wt"
      by blast
    have "replaces E ss x (x # ids) j (slot_b s) e
        (after_job job wt rs sub b e (free_at P (slots_at (slots ss) (x # ids)))) ss2 (seg1 @ seg2)"
    proof (rule replaces_append [OF r1 r2 _ xs])
      show "x \<notin> set ids" using Cons.prems(2) by simp
      show "\<forall>t. after_job job wt rs sub b e (free_at P (slots_at (slots ss) (x # ids))) t =
          during_free job wt rs sub (slot_b s) (slot_e s) (elems P (itvs s)) t \<union>
          after_job job wt rs sub (slot_e s + 1) e (free_at P (slots_at (slots ss1) ids)) t"
      proof
        fix t
        have le: "slot_e s \<le> e" using contig_bounds [OF contig(3)] by simp
        have out: "free_at P (slots_at (slots ss) ids) t = {}" if "t \<le> slot_e s \<or> e < t"
          using free_at_outside [OF contig(3)] that by force
        show "after_job job wt rs sub b e (free_at P (slots_at (slots ss) (x # ids))) t =
          during_free job wt rs sub (slot_b s) (slot_e s) (elems P (itvs s)) t \<union>
          after_job job wt rs sub (slot_e s + 1) e (free_at P (slots_at (slots ss1) ids)) t"
          using s(1) contig(1,2) le out unfolding at
          by (cases "t \<le> slot_e s") (auto simp: after_job_def during_free_def free_at_Cons)
      qed
    qed (auto simp: during_free_def)
    with one loop held' ne s contig(1) Cons.prems(13) show ?thesis by (auto simp: fuel)
  qed
qed simp

end

section \<open>Splitting a whole slot set\<close>

text \<open>A well-formed slot set whose slots can be split.\<close>

definition slot_set_ok :: "'p sched_env \<Rightarrow> 'p slot_set \<Rightarrow> nat list \<Rightarrow> int \<Rightarrow> int \<Rightarrow> bool" where
  "slot_set_ok E ss is b e \<longleftrightarrow>
     chain ss is b e \<and> (\<forall>i \<in> set is. slot_ready E (the (slots ss i)))"

text \<open>A placed job: it has its walltime, its resources and the names that its types ask for.\<close>

definition placed :: "'p job \<Rightarrow> int \<Rightarrow> 'p \<Rightarrow> bool" where
  "placed job wt rs \<longleftrightarrow> job_ready job \<and> walltime job = Some wt \<and> res_set job = Some rs \<and> 0 \<le> wt"

lemma chain_ids: "chain ss is b e \<Longrightarrow> set is \<subseteq> {1..last_id ss}"
  using linked_dom unfolding chain_def by blast

lemma chain_length: "chain ss is b e \<Longrightarrow> length is \<le> last_id ss"
proof -
  assume c: "chain ss is b e"
  then have "length is = card (set is)" by (simp add: chain_def distinct_card)
  also have "\<dots> \<le> card {1..last_id ss}" using chain_ids [OF c] by (intro card_mono) auto
  finally show ?thesis by simp
qed

context procset
begin

lemma split_slots_held_replaces:
  assumes ok: "slot_set_ok E ss (pre @ mid @ post) b e" and mid: "mid \<noteq> []"
    and job: "placed job wt rs"
    and left: "start_time job \<le> slot_e (the (slots ss (hd mid))) + 1"
    and right: "slot_b (the (slots ss (last mid))) \<le> start_time job + wt"
  defines "lo \<equiv> slot_b (the (slots ss (hd mid)))" and "hi \<equiv> slot_e (the (slots ss (last mid)))"
  shows "\<exists>ss' cur seg.
     split_slots_held P E ss (last mid) (hd mid) (last mid) job sub = Inr (ss', cur) \<and>
     slot_set_ok E ss' (pre @ seg @ post) b e \<and>
     (\<forall>t. free_at P (slots_at (slots ss') (pre @ seg @ post)) t =
            after_job job wt rs sub lo hi (free_at P (slots_at (slots ss) (pre @ mid @ post))) t) \<and>
     cur \<in> set seg \<and> slot_e (the (slots ss' cur)) < start_time job + wt \<and>
     set mid \<subseteq> set seg \<and> last_id ss' \<le> last_id ss + 2 * length mid \<and>
     ss_begin ss' = ss_begin ss \<and> cache ss' = cache ss"
proof -
  let ?m = "slots ss"
  from ok have ch: "chain ss (pre @ mid @ post) b e" by (simp add: slot_set_ok_def)
  then obtain i j where link: "linked ?m 1 pre i" "linked ?m i mid j" "linked ?m j post 0"
    by (auto simp: chain_def linked_append)
  from ch obtain k l where cont: "contig b (slots_at ?m pre) k"
    "contig (k + 1) (slots_at ?m mid) l" "contig (l + 1) (slots_at ?m post) e"
    by (auto simp: chain_def contig_append)
  obtain x xs where x: "mid = x # xs" using mid by (cases mid) auto
  with link(2) have hd: "i = hd mid" by simp
  have lo: "lo = k + 1" using cont(2) x by (simp add: lo_def)
  have hi: "hi = l"
  proof -
    obtain ys y where "mid = ys @ [y]" using mid by (metis rev_exhaust)
    with cont(2) show ?thesis by (auto simp: hi_def contig_append)
  qed
  from ch have dist: "distinct (pre @ mid @ post)" "dom ?m \<subseteq> {1..last_id ss}"
    by (simp_all add: chain_def)
  have ids: "set (pre @ mid @ post) \<subseteq> {1..last_id ss}" using chain_ids [OF ch] .
  have "\<exists>ss' held' seg.
      split_loop P E (last_id ss) ss (last mid) i (last mid) job wt rs sub = Inr (ss', held') \<and>
      replaces E ss i mid j (k + 1) l
        (after_job job wt rs sub (k + 1) l (free_at P (slots_at ?m mid))) ss' seg \<and>
      held' \<in> set seg \<and> slot_e (the (slots ss' held')) < start_time job + wt"
    by (rule split_loop_replaces [OF link(2) _ mid refl dist(2) cont(2)])
      (use ok job dist left right chain_length [OF ch] in \<open>auto simp: slot_set_ok_def placed_def\<close>)
  then obtain ss' cur seg where
    loop: "split_loop P E (last_id ss) ss (last mid) i (last mid) job wt rs sub = Inr (ss', cur)"
    and r: "replaces E ss i mid j (k + 1) l
        (after_job job wt rs sub (k + 1) l (free_at P (slots_at ?m mid))) ss' seg"
    and cur: "cur \<in> set seg" "slot_e (the (slots ss' cur)) < start_time job + wt" by blast
  have disj: "set seg \<inter> set (pre @ post) = {}"
    using r ids dist(1) by (fastforce simp: replaces_def)
  then have frame: "\<forall>y \<in> set pre. slots ss' y = ?m y" "\<forall>y \<in> set post. slots ss' y = ?m y"
    using r by (auto simp: replaces_def)
  then have at: "slots_at (slots ss') pre = slots_at ?m pre"
    "slots_at (slots ss') post = slots_at ?m post" by simp_all
  have "linked (slots ss') 1 (pre @ seg @ post) 0"
    using linked_cong [OF link(1) frame(1)] linked_cong [OF link(3) frame(2)] r
    by (auto simp: linked_append replaces_def)
  moreover have "contig b (slots_at (slots ss') (pre @ seg @ post)) e"
    using cont r unfolding map_append contig_append at replaces_def by blast
  moreover have "distinct (pre @ seg @ post)"
    using disj dist(1) r by (auto simp: replaces_def)
  moreover have "\<forall>y \<in> set (pre @ seg @ post). slot_ready E (the (slots ss' y))"
    using ok r frame by (auto simp: slot_set_ok_def replaces_def)
  ultimately have ok': "slot_set_ok E ss' (pre @ seg @ post) b e"
    using r by (auto simp: slot_set_ok_def chain_def replaces_def)
  have free: "free_at P (slots_at (slots ss') (pre @ seg @ post)) t =
      after_job job wt rs sub lo hi (free_at P (slots_at ?m (pre @ mid @ post))) t" for t
  proof -
    have seg: "free_at P (slots_at (slots ss') seg) t =
        after_job job wt rs sub (k + 1) l (free_at P (slots_at ?m mid)) t"
      using r by (simp add: replaces_def)
    have "free_at P (slots_at ?m pre) t = {} \<and> free_at P (slots_at ?m post) t = {}"
      if "k + 1 \<le> t" "t \<le> l"
      using free_at_outside [OF cont(1)] free_at_outside [OF cont(3)] that by force
    with seg show ?thesis
      unfolding map_append free_at_append at lo hi
      by (cases "k + 1 \<le> t \<and> t \<le> l") (auto simp: after_job_def)
  qed
  have "split_slots_held P E ss (last mid) (hd mid) (last mid) job sub = Inr (ss', cur)"
    using job loop hd by (simp add: split_slots_held_def placed_def)
  with ok' free cur r show ?thesis by (auto simp: replaces_def)
qed

text \<open>The searches of \<open>split_slots_jobs\<close>.\<close>

lemma find_first_slot_spec:
  assumes "linked m cur (cur # post) 0" "contig b (slots_at m (cur # post)) e"
    and "start \<le> e" "length (cur # post) \<le> fuel"
  shows "\<exists>ys z zs. cur # post = ys @ z # zs \<and>
           find_first_slot fuel m cur left start = Inr (z, if ys = [] then left else z) \<and>
           start \<le> slot_e (the (m z)) \<and> (\<forall>y \<in> set ys. slot_e (the (m y)) < start) \<and>
           (ys \<noteq> [] \<longrightarrow> slot_b (the (m z)) \<le> start)"
  using assms
proof (induction post arbitrary: cur b left fuel)
  case Nil
  then obtain s fuel' where s: "m cur = Some s" and f: "fuel = Suc fuel'"
    by (cases fuel) (auto split: option.splits)
  with Nil have "slot_e s = e" "slot_b s \<le> slot_e s + 1" by auto
  with s f Nil.prems(3) have "find_first_slot fuel m cur left start = Inr (cur, left)" by auto
  with s Nil.prems(3) \<open>slot_e s = e\<close> show ?case by fastforce
next
  case (Cons n post)
  then obtain s fuel' where s: "m cur = Some s" and f: "fuel = Suc fuel'"
    by (cases fuel) (auto split: option.splits)
  with Cons.prems have link: "nxt s = n" "linked m n (n # post) 0"
    and cont: "slot_b s = b" "b \<le> slot_e s + 1" "contig (slot_e s + 1) (slots_at m (n # post)) e"
    by (auto split: option.splits)
  show ?case
  proof (cases "slot_b s > start \<or> slot_b s \<le> start \<and> start \<le> slot_e s")
    case True
    then have "find_first_slot fuel m cur left start = Inr (cur, left)" "start \<le> slot_e s"
      using s f cont by auto
    with s show ?thesis by fastforce
  next
    case False
    then have lt: "slot_e s < start" by auto
    from Cons.IH [OF link(2) cont(3) Cons.prems(3), of fuel' n] Cons.prems(4) f
    obtain ys z zs where z: "n # post = ys @ z # zs"
      "find_first_slot fuel' m n n start = Inr (z, if ys = [] then n else z)"
      "start \<le> slot_e (the (m z))" "\<forall>y \<in> set ys. slot_e (the (m y)) < start"
      "ys \<noteq> [] \<longrightarrow> slot_b (the (m z)) \<le> start" by auto
    have "slot_b (the (m z)) \<le> start"
    proof (cases "ys = []")
      case True
      with z(1) cont(3) lt show ?thesis by auto
    qed (use z(5) in simp)
    moreover have "find_first_slot fuel m cur left start = Inr (z, z)"
      using z(1,2) False s f link(1) by (auto split: if_splits)
    moreover have "cur # n # post = (cur # ys) @ z # zs" using z(1) by simp
    ultimately show ?thesis using z lt s by (intro exI [of _ "cur # ys"]) auto
  qed
qed

lemma find_last_slot_spec:
  assumes "linked m cur (cur # post) 0" "contig b (slots_at m (cur # post)) e"
    and "u \<le> e" "length (cur # post) \<le> fuel"
  shows "\<exists>ys z zs. cur # post = ys @ z # zs \<and>
           find_last_slot fuel m cur right u = Inr (z, if ys = [] then right else z) \<and>
           u \<le> slot_e (the (m z)) \<and> (ys \<noteq> [] \<longrightarrow> slot_b (the (m z)) \<le> u)"
  using assms
proof (induction post arbitrary: cur b right fuel)
  case Nil
  then obtain s fuel' where s: "m cur = Some s" and f: "fuel = Suc fuel'"
    by (cases fuel) (auto split: option.splits)
  with Nil have "slot_e s = e" by auto
  with s f Nil.prems(3) have "find_last_slot fuel m cur right u = Inr (cur, right)" by simp
  with s Nil.prems(3) \<open>slot_e s = e\<close> show ?case by fastforce
next
  case (Cons n post)
  then obtain s fuel' where s: "m cur = Some s" and f: "fuel = Suc fuel'"
    by (cases fuel) (auto split: option.splits)
  with Cons.prems have link: "nxt s = n" "linked m n (n # post) 0"
    and cont: "slot_b s = b" "b \<le> slot_e s + 1" "contig (slot_e s + 1) (slots_at m (n # post)) e"
    by (auto split: option.splits)
  show ?case
  proof (cases "u \<le> slot_e s")
    case True
    then have "find_last_slot fuel m cur right u = Inr (cur, right)" using s f by auto
    with s True show ?thesis by fastforce
  next
    case False
    from Cons.IH [OF link(2) cont(3) Cons.prems(3), of fuel' n] Cons.prems(4) f
    obtain ys z zs where z: "n # post = ys @ z # zs"
      "find_last_slot fuel' m n n u = Inr (z, if ys = [] then n else z)"
      "u \<le> slot_e (the (m z))" "ys \<noteq> [] \<longrightarrow> slot_b (the (m z)) \<le> u" by auto
    have "slot_b (the (m z)) \<le> u"
    proof (cases "ys = []")
      case True
      with z(1) cont(3) False show ?thesis by auto
    qed (use z(4) in simp)
    moreover have "find_last_slot fuel m cur right u = Inr (z, z)"
      using z(1,2) False s f link(1) by (auto split: if_splits)
    moreover have "cur # n # post = (cur # ys) @ z # zs" using z(1) by simp
    ultimately show ?thesis using z by (intro exI [of _ "cur # ys"]) auto
  qed
qed

end

end
