(* ===== verification/Slot_Sets.thy ===== *)
theory Slot_Sets
  imports Slots
begin

text \<open>
  Properties of the slot sets of \<open>oar/kao/slot.py\<close>: splitting for one job and for a sequence of
  jobs, intersections, quotas over a range of slots.
\<close>

section \<open>Jobs one after the other\<close>

context procset
begin

definition during where
  "during job wt rs sub b G t =
     (if b \<le> t \<and> start_time job \<le> t \<and> t < start_time job + wt
      then job_effect P job rs sub (G t) else G t)"

lemma split_job_spec:
  assumes ok: "slot_set_ok E ss is b e" and cur: "cur \<in> set is"
    and pos: "left = cur \<and> slot_b (the (slots ss cur)) = b \<or>
              slot_e (the (slots ss cur)) < start_time job"
    and job: "placed job wt rs"
    and time: "start_time job \<le> e" "start_time job + wt \<le> e" "b \<le> start_time job + wt"
  shows "\<exists>ss' cur' left' is'.
     split_job P E sub job (ss, cur, left) = Inr (ss', cur', left') \<and>
     slot_set_ok E ss' is' b e \<and> cur' \<in> set is' \<and>
     slot_e (the (slots ss' cur')) < start_time job + wt \<and>
     last_id ss' \<le> 3 * last_id ss \<and> cache ss' = cache ss \<and>
     (\<forall>t. free_at P (slots_at (slots ss') is') t =
            during job wt rs sub b (free_at P (slots_at (slots ss) is)) t)"
proof -
  let ?m = "slots ss" and ?st = "start_time job"
  from cur obtain pre post where eq_is: "is = pre @ cur # post" by (meson split_list)
  from ok have ch: "chain ss is b e" by (simp add: slot_set_ok_def)
  then have "linked ?m cur (cur # post) 0"
    by (auto simp: chain_def eq_is linked_append split: option.splits)
  moreover from ch obtain k where k: "contig k (slots_at ?m (cur # post)) e" "b \<le> k"
    using contig_bounds unfolding chain_def eq_is map_append contig_append by force
  moreover have "length (cur # post) \<le> Suc (last_id ss)"
    using chain_length [OF ch] by (simp add: eq_is)
  ultimately obtain ys z zs where z: "cur # post = ys @ z # zs"
    "find_first_slot (Suc (last_id ss)) ?m cur left ?st = Inr (z, if ys = [] then left else z)"
    "?st \<le> slot_e (the (?m z))" "ys \<noteq> [] \<longrightarrow> slot_b (the (?m z)) \<le> ?st"
    using find_first_slot_spec [OF _ _ time(1), of ?m cur post k "Suc (last_id ss)" left] by blast
  have left_z: "(if ys = [] then left else z) = z"
    and b_z: "slot_b (the (?m z)) = b \<or> slot_b (the (?m z)) \<le> ?st"
    using z(1,3,4) pos by (auto split: if_splits)
  have is_z: "is = (pre @ ys) @ z # zs" using eq_is z(1) by simp
  have link_z: "linked ?m z (z # zs) 0"
    using ch unfolding chain_def is_z linked_append by (auto split: option.splits)
  from ch obtain k' where k': "contig k' (slots_at ?m (z # zs)) e"
    unfolding chain_def is_z map_append contig_append by blast
  have "length (z # zs) \<le> Suc (last_id ss)" using chain_length [OF ch] by (simp add: is_z)
  then obtain us w ws where w: "z # zs = us @ w # ws"
    "find_last_slot (Suc (last_id ss)) ?m z z (?st + wt) = Inr (w, if us = [] then z else w)"
    "?st + wt \<le> slot_e (the (?m w))" "us \<noteq> [] \<longrightarrow> slot_b (the (?m w)) \<le> ?st + wt"
    using find_last_slot_spec [OF link_z k' time(2), of "Suc (last_id ss)" z] by blast
  let ?mid = "us @ [w]" and ?pre = "pre @ ys"
  have is_w: "is = ?pre @ ?mid @ ws" using is_z w(1) by simp
  have hd: "hd ?mid = z" and last: "(if us = [] then z else w) = w" using w(1) by (cases us; auto)+
  have "slot_b (the (?m (last ?mid))) \<le> ?st + wt"
    using w(1,4) b_z job time(3) by (cases us) (auto simp: placed_def)
  from split_slots_held_replaces [OF ok [unfolded is_w] _ job _ this, of sub] z(3) hd
  obtain ss' cur' seg where
    sp: "split_slots_held P E ss w z w job sub = Inr (ss', cur')"
    and ok': "slot_set_ok E ss' (?pre @ seg @ ws) b e"
    and free: "\<forall>t. free_at P (slots_at (slots ss') (?pre @ seg @ ws)) t =
            after_job job wt rs sub (slot_b (the (?m z))) (slot_e (the (?m w)))
              (free_at P (slots_at ?m (?pre @ ?mid @ ws))) t"
    and cur': "cur' \<in> set seg" "slot_e (the (slots ss' cur')) < ?st + wt"
    and grown: "last_id ss' \<le> last_id ss + 2 * length ?mid" "cache ss' = cache ss"
    by (auto simp del: append_assoc)
  have "length ?mid \<le> last_id ss" using chain_length [OF ch] by (simp add: is_w)
  with grown(1) have small: "last_id ss' \<le> 3 * last_id ss" by simp
  have "after_job job wt rs sub (slot_b (the (?m z))) (slot_e (the (?m w))) G t =
      during job wt rs sub b G t" for G t
    using b_z w(3) k k' ch contig_bounds [of b "slots_at ?m is" e]
    by (auto simp: after_job_def during_def chain_def is_z)
  with free have "\<forall>t. free_at P (slots_at (slots ss') (?pre @ seg @ ws)) t =
      during job wt rs sub b (free_at P (slots_at ?m is)) t"
    unfolding is_w by simp
  moreover have "split_job P E sub job (ss, cur, left) = Inr (ss', cur', z)"
    unfolding split_job_def using z(2) left_z w(2) last sp job by (simp add: placed_def)
  moreover have "cur' \<in> set (?pre @ seg @ ws)" using cur'(1) by simp
  ultimately show ?thesis using ok' cur'(2) small grown(2) by blast
qed

end

definition job_end :: "'p job \<Rightarrow> int" where
  "job_end job = start_time job + (case walltime job of None \<Rightarrow> 0 | Some w \<Rightarrow> w)"

definition is_placed :: "'p job \<Rightarrow> bool" where
  "is_placed job \<longleftrightarrow> job_ready job \<and> res_set job \<noteq> None \<and>
     (case walltime job of None \<Rightarrow> False | Some w \<Rightarrow> 0 \<le> w)"

text \<open>Placed jobs that end before \<open>e\<close> and begin after the end of all the jobs before them.\<close>

fun in_sequence :: "int \<Rightarrow> 'p job list \<Rightarrow> bool" where
  "in_sequence e [] \<longleftrightarrow> True"
| "in_sequence e (j # js) \<longleftrightarrow>
     is_placed j \<and> job_end j \<le> e \<and> (\<forall>k \<in> set js. job_end j \<le> start_time k) \<and> in_sequence e js"

definition taken_by :: "'p procset_ops \<Rightarrow> 'p job list \<Rightarrow> int \<Rightarrow> nat set" where
  "taken_by P jobs t =
     (\<Union>j \<in> {j \<in> set jobs. start_time j \<le> t \<and> t < job_end j}. elems P (the (res_set j)))"

lemma is_placedE:
  assumes "is_placed job"
  obtains wt rs where "placed job wt rs" "job_end job = start_time job + wt"
  using assms by (auto simp: is_placed_def placed_def job_end_def split: option.splits)

context procset
begin

lemma split_jobs_sequence:
  assumes "slot_set_ok E ss is b e" "in_sequence e jobs" "\<forall>j \<in> set jobs. b \<le> job_end j"
    and "cur \<in> set is"
    and "left = cur \<and> slot_b (the (slots ss cur)) = b \<or>
         (\<forall>j \<in> set jobs. slot_e (the (slots ss cur)) < start_time j)"
  shows "\<exists>ss' cur' left' is'.
     fold_res (split_job P E True) jobs (ss, cur, left) = Inr (ss', cur', left') \<and>
     slot_set_ok E ss' is' b e \<and> last_id ss' \<le> 3 ^ length jobs * last_id ss \<and> cache ss' = cache ss \<and>
     (\<forall>t. free_at P (slots_at (slots ss') is') t =
            free_at P (slots_at (slots ss) is) t - taken_by P jobs t)"
  using assms
proof (induction jobs arbitrary: ss "is" cur left)
  case Nil
  then show ?case by (auto simp: taken_by_def)
next
  case (Cons j js)
  from Cons.prems(2) obtain wt rs where j: "placed j wt rs" "job_end j = start_time j + wt"
    by (auto elim: is_placedE)
  then have wt: "0 \<le> wt" "res_set j = Some rs" by (simp_all add: placed_def)
  from split_job_spec [OF Cons.prems(1,4) _ j(1), of left True] Cons.prems(2,3,5) j(2) wt
  obtain ss1 cur1 left1 is1 where
    one: "split_job P E True j (ss, cur, left) = Inr (ss1, cur1, left1)"
      "slot_set_ok E ss1 is1 b e" "cur1 \<in> set is1"
      "slot_e (the (slots ss1 cur1)) < job_end j"
    and grown: "last_id ss1 \<le> 3 * last_id ss" "cache ss1 = cache ss"
    and free1: "\<forall>t. free_at P (slots_at (slots ss1) is1) t =
            during j wt rs True b (free_at P (slots_at (slots ss) is)) t"
    by auto
  have "\<forall>k \<in> set js. slot_e (the (slots ss1 cur1)) < start_time k"
    using Cons.prems(2) one(4) by fastforce
  with Cons.IH [OF one(2) _ _ one(3), of left1] Cons.prems(2,3)
  obtain ss' cur' left' is' where
    rest: "fold_res (split_job P E True) js (ss1, cur1, left1) = Inr (ss', cur', left')"
      "slot_set_ok E ss' is' b e" "last_id ss' \<le> 3 ^ length js * last_id ss1" "cache ss' = cache ss1"
    and free': "\<forall>t. free_at P (slots_at (slots ss') is') t =
            free_at P (slots_at (slots ss1) is1) t - taken_by P js t"
    by auto
  have "last_id ss' \<le> 3 ^ length (j # js) * last_id ss"
    using le_trans [OF rest(3) mult_le_mono2 [OF grown(1), of "3 ^ length js"]] by (simp add: ac_simps)
  have out: "free_at P (slots_at (slots ss) is) t = {}" if "t < b" for t
    using Cons.prems(1) free_at_outside that by (fastforce simp: slot_set_ok_def chain_def)
  have "free_at P (slots_at (slots ss') is') t =
      free_at P (slots_at (slots ss) is) t - taken_by P (j # js) t" for t
    using free' free1 out [of t] j(2) wt
    by (auto simp: during_def job_effect_def taken_by_def)
  with one rest grown(2) \<open>last_id ss' \<le> 3 ^ length (j # js) * last_id ss\<close> show ?case by auto
qed

text \<open>The whole of \<open>split_slots_jobs\<close> on such jobs.\<close>

lemma split_slots_jobs_spec:
  assumes "slot_set_ok E ss is b e" "in_sequence e jobs" "\<forall>j \<in> set jobs. b \<le> job_end j"
  shows "\<exists>ss' is'. split_slots_jobs P E ss jobs True = Inr ss' \<and> slot_set_ok E ss' is' b e \<and>
     last_id ss' \<le> 3 ^ length jobs * last_id ss \<and> cache ss' = cache ss \<and>
     (\<forall>t. free_at P (slots_at (slots ss') is') t =
            free_at P (slots_at (slots ss) is) t - taken_by P jobs t)"
proof -
  from assms(1) obtain s xs where "is = 1 # xs" "slots ss 1 = Some s" "slot_b s = b"
    by (cases "is") (auto simp: slot_set_ok_def chain_def split: option.splits)
  then show ?thesis
    using split_jobs_sequence [OF assms, of 1 1] by (fastforce simp: split_slots_jobs_def)
qed

end

text \<open>The slot set that a split returns does not depend on the slot object the caller holds.\<close>

lemma split_loop_any:
  "split_loop P E fuel ss h sid r job wt rs sub = Inr (ss', h'') \<Longrightarrow>
   \<exists>h'. split_loop P E fuel ss k sid r job wt rs sub = Inr (ss', h')"
proof (induction fuel arbitrary: ss h k sid)
  case (Suc fuel)
  from Suc.prems obtain slot ss1 b_id where
    one: "slots ss sid = Some slot" "split_one P E ss slot job wt rs sub = Inr (ss1, b_id)"
    and rest: "(if sid = r then Inr (ss1, if h = sid then b_id else h)
           else split_loop P E fuel ss1 (if h = sid then b_id else h) (nxt slot) r job wt rs sub)
         = Inr (ss', h'')"
    by (auto simp: res_simps Let_def)
  show ?case
  proof (cases "sid = r")
    case False
    with rest Suc.IH [of ss1 _ "nxt slot"] one show ?thesis by (auto simp: Let_def)
  qed (use one rest in auto)
qed simp

lemma split_slots_held_any:
  "split_slots_held P E ss h l r job sub = Inr (ss', h'') \<Longrightarrow>
   \<exists>h'. split_slots_held P E ss k l r job sub = Inr (ss', h')"
  using split_loop_any by (fastforce simp: split_slots_held_def res_simps)

section \<open>Ranges of slots\<close>

lemma linked_next:
  "\<lbrakk>linked m x (x # y # xs) j; m x = Some s\<rbrakk> \<Longrightarrow> nxt s = y \<and> linked m y (y # xs) j \<and> y \<in> dom m"
  by (auto split: option.splits)

context procset
begin

lemma intersec_loop_spec:
  assumes "linked m x (x # xs) j" "distinct (x # xs)" "last (x # xs) = r" "length (x # xs) \<le> fuel"
  shows "\<exists>acc'. intersec_loop P fuel m x r acc = Inr acc' \<and>
     elems P acc' = elems P acc \<inter> (\<Inter>i \<in> set xs. elems P (itvs (the (m i))))"
  using assms
proof (induction xs arbitrary: x acc fuel)
  case Nil
  then show ?case by (cases fuel) auto
next
  case (Cons y ys)
  from Cons.prems obtain fuel' s where f: "fuel = Suc fuel'" and s: "m x = Some s"
    by (cases fuel) (auto split: option.splits)
  from linked_next [OF Cons.prems(1) s] obtain s' where
    n: "nxt s = y" "linked m y (y # ys) j" "m y = Some s'" by auto
  from Cons.prems(2,3) have "x \<noteq> r" by (auto split: if_splits)
  with Cons.IH [OF n(2), of fuel' "ps_inter P acc (itvs s')"] Cons.prems f s n show ?case by auto
qed

lemma intersec_itvs_slots_spec:
  assumes "linked m i ids j" "ids \<noteq> []" "distinct ids" "last ids = r" "length ids \<le> fuel"
  shows "\<exists>acc. intersec_itvs_slots P fuel m i r = Inr acc \<and>
     elems P acc = (\<Inter>i \<in> set ids. elems P (itvs (the (m i))))"
proof -
  from assms obtain xs s where ids: "ids = i # xs" "m i = Some s"
    by (cases ids) (auto split: option.splits)
  from intersec_loop_spec [of m i xs j r fuel "itvs s"] assms ids show ?thesis
    by (auto simp: intersec_itvs_slots_def)
qed

end

text \<open>The combination over a range bounds the counters of every slot of the range.\<close>

lemma combine_slots_spec:
  assumes "linked m x (x # xs) j" "last (x # xs) = r" "distinct (x # xs)" "counters_ok (counters q)"
    and "\<forall>i \<in> set (x # xs). \<forall>sq. slot_quotas (the (m i)) = Some sq \<longrightarrow> counters_ok (counters sq)"
    and "combine_slots fuel m x r q = Inr (Some q')"
  shows "rules q' = rules q \<and> counters_ok (counters q') \<and> counters_le (counters q) (counters q') \<and>
     (\<forall>i \<in> set (x # xs). \<exists>sq. slot_quotas (the (m i)) = Some sq \<and>
        counters_le (counters sq) (counters q'))"
  using assms
proof (induction xs arbitrary: x q fuel)
  case Nil
  then obtain fuel' s sq where f: "fuel = Suc fuel'" and s: "m x = Some s"
    and sq: "slot_quotas s = Some sq"
    by (cases fuel) (auto simp: res_simps split: option.splits)
  with Nil combine_spec [of q sq] show ?case by (auto simp: Let_def quotas_combine_def)
next
  case (Cons y ys)
  then obtain fuel' s sq where f: "fuel = Suc fuel'" and s: "m x = Some s"
    and sq: "slot_quotas s = Some sq"
    by (cases fuel) (auto simp: res_simps split: option.splits)
  from linked_next [OF Cons.prems(1) s] Cons.prems(2,3) have
    n: "nxt s = y" "linked m y (y # ys) j" "last (y # ys) = r" "x \<noteq> r" "distinct (y # ys)"
    by (auto split: if_splits)
  have "counters_ok (counters sq)" using Cons.prems(5) s sq by auto
  with combine_spec [of q sq] Cons.prems(4) have
    c: "counters_ok (counters (quotas_combine q sq))"
      "counters_le (counters q) (counters (quotas_combine q sq))"
      "counters_le (counters sq) (counters (quotas_combine q sq))" by auto
  have "combine_slots fuel' m y r (quotas_combine q sq) = Inr (Some q')"
    using Cons.prems(6) f s sq n(1,4) linked_next [OF Cons.prems(1) s]
    by (auto simp: res_simps Let_def split: if_splits)
  from Cons.IH [OF n(2,3,5) c(1) _ this] Cons.prems(5) have
    "rules q' = rules (quotas_combine q sq)" "counters_ok (counters q')"
    "counters_le (counters (quotas_combine q sq)) (counters q')"
    "\<forall>i \<in> set (y # ys). \<exists>sq. slot_quotas (the (m i)) = Some sq \<and>
        counters_le (counters sq) (counters q')" by auto
  with c s sq show ?case by (auto simp: quotas_combine_def intro: counters_le_trans)
qed

section \<open>Properties\<close>

text \<open>
  C5. Placing a job in a slot set (\<open>split_slots\<close>): if the slots from \<open>hd mid\<close> to \<open>last mid\<close> reach
  from the start of the job to its end, the method raises nothing, the slots are again a
  contiguous chain over the same time, and what is free at any instant is what was free before,
  less the resources of the job during it (or, when adding, more by them).
\<close>

theorem split_slots_refines:
  assumes "procset P" "slot_set_ok E ss (pre @ mid @ post) b e" "mid \<noteq> []" "placed job wt rs"
    and "start_time job \<le> slot_e (the (slots ss (hd mid))) + 1"
    and "slot_b (the (slots ss (last mid))) \<le> start_time job + wt"
  shows "\<exists>ss' is'. split_slots P E ss (hd mid) (last mid) job sub = Inr ss' \<and>
     slot_set_ok E ss' is' b e \<and>
     (\<forall>t. free_at P (slots_at (slots ss') is') t =
        (let old = free_at P (slots_at (slots ss) (pre @ mid @ post)) t
         in if slot_b (the (slots ss (hd mid))) \<le> t \<and> t \<le> slot_e (the (slots ss (last mid))) \<and>
               start_time job \<le> t \<and> t < start_time job + wt
            then job_effect P job rs sub old else old))"
proof -
  from procset.split_slots_held_replaces [OF assms, of sub] obtain ss' cur seg where
    h: "split_slots_held P E ss (last mid) (hd mid) (last mid) job sub = Inr (ss', cur)"
    and ok: "slot_set_ok E ss' (pre @ seg @ post) b e"
    and free: "\<forall>t. free_at P (slots_at (slots ss') (pre @ seg @ post)) t =
       procset.after_job P job wt rs sub (slot_b (the (slots ss (hd mid))))
         (slot_e (the (slots ss (last mid)))) (free_at P (slots_at (slots ss) (pre @ mid @ post))) t"
    by blast
  from split_slots_held_any [OF h, of 0] have
    "split_slots P E ss (hd mid) (last mid) job sub = Inr ss'"
    by (auto simp: split_slots_def)
  with ok free show ?thesis
    unfolding procset.after_job_def [OF assms(1)] Let_def by blast
qed

definition example_sched :: "nat list sched_env" where
  "example_sched = \<lparr>quotas_conf = example_env\<lparr>q_enabled := False\<rparr>, calendar_of = None,
     week_origin = (\<lambda>t. 0), window_limit = 0\<rparr>"

text \<open>Four resources, all free from 0 to 1000.\<close>

definition example_slots :: "nat list slot_set" where
  "example_slots = \<lparr>slots = [1 \<mapsto> new_slot example_sched 1 0 0 [1,2,3,4] 0 1000 Map.empty Map.empty],
     last_id = 1, ss_begin = 0, cache = []\<rparr>"

lemma example_slots_ok: "slot_set_ok example_sched example_slots [1] 0 1000"
  by (simp add: slot_set_ok_def chain_def example_slots_def new_slot_def example_sched_def
      slot_ready_def)

definition run_job :: "int \<Rightarrow> int \<Rightarrow> nat list \<Rightarrow> nat list job" where
  "run_job start wt rs = job_pseudo 1 start wt rs False No_placeholder"

lemma run_job_placed: "0 \<le> wt \<Longrightarrow> placed (run_job start wt rs) wt rs"
  by (simp add: placed_def job_ready_def run_job_def job_pseudo_def)

theorem split_slots_refines_witness:
  "\<exists>ss' is'. split_slots list_procset example_sched example_slots 1 1 (run_job 10 20 [2]) True = Inr ss' \<and>
     slot_set_ok example_sched ss' is' 0 1000 \<and>
     free_at list_procset (slots_at (slots ss') is') 15 = {1,3,4}"
proof -
  let ?old = "free_at list_procset (slots_at (slots example_slots) ([] @ [1] @ [])) 15"
  have slot: "slot_b (the (slots example_slots 1)) = 0" "slot_e (the (slots example_slots 1)) = 1000"
    by (simp_all add: example_slots_def new_slot_def)
  have old: "?old = {1,2,3,4}"
    by (auto simp: free_at_Cons example_slots_def new_slot_def list_procset_def)
  have "slot_set_ok example_sched example_slots ([] @ [1] @ []) 0 1000"
    using example_slots_ok by simp
  from split_slots_refines [OF list_ps.procset_axioms this _ run_job_placed [of 20 10 "[2]"], of True]
    slot
  obtain ss' is' where
    "split_slots list_procset example_sched example_slots 1 1 (run_job 10 20 [2]) True = Inr ss'"
    "slot_set_ok example_sched ss' is' 0 1000"
    "free_at list_procset (slots_at (slots ss') is') 15 =
       job_effect list_procset (run_job 10 20 [2]) [2] True ?old"
    by (auto simp: run_job_def job_pseudo_def Let_def)
  then show ?thesis unfolding old by (auto simp: job_effect_def list_procset_def)
qed

text \<open>
  C6. Inserting placed jobs that follow each other in time (\<open>split_slots_jobs\<close>): the slots stay a
  contiguous chain, and at every instant exactly the resources of the jobs that run at that
  instant are no longer free.
\<close>

theorem split_slots_jobs_sequence:
  assumes "procset P" "slot_set_ok E ss is b e" "in_sequence e jobs" "\<forall>j \<in> set jobs. b \<le> job_end j"
  shows "\<exists>ss' is'. split_slots_jobs P E ss jobs True = Inr ss' \<and> slot_set_ok E ss' is' b e \<and>
     (\<forall>t. free_at P (slots_at (slots ss') is') t =
            free_at P (slots_at (slots ss) is) t - taken_by P jobs t)"
  using procset.split_slots_jobs_spec [OF assms] by blast

theorem split_slots_jobs_sequence_witness:
  "\<exists>ss' is'. split_slots_jobs list_procset example_sched example_slots
       [run_job 10 20 [2], run_job 40 20 [1, 2]] True = Inr ss' \<and>
     slot_set_ok example_sched ss' is' 0 1000"
proof -
  have "in_sequence 1000 [run_job 10 20 [2], run_job 40 20 [1, 2]]"
    by (simp add: run_job_def job_pseudo_def is_placed_def job_ready_def job_end_def)
  moreover have "\<forall>j \<in> set [run_job 10 20 [2], run_job 40 20 [1, 2]]. 0 \<le> job_end j"
    by (simp add: run_job_def job_pseudo_def job_end_def)
  ultimately show ?thesis
    using split_slots_jobs_sequence [OF list_ps.procset_axioms example_slots_ok] by blast
qed

text \<open>
  The order of C11 is needed. Three jobs that run since the instant 0 and last 100, 200 and
  150 are inserted in this order; no exception is raised, but the third job keeps its resource 3
  only until the instant 100: at 120 the slots say that it is free. \<open>left_sid_2_split\<close> and the
  variable \<open>slot\<close> keep the values that the second job left.
\<close>

theorem split_slots_jobs_overlapping:
  "\<exists>ss'. split_slots_jobs list_procset example_sched example_slots
       [run_job 0 100 [1], run_job 0 200 [2], run_job 0 150 [3]] True = Inr ss' \<and>
     linked (slots ss') 1 [1, 2, 3] 0 \<and>
     120 < job_end (run_job 0 150 [3]) \<and>
     3 \<in> free_at list_procset (slots_at (slots ss') [1, 2, 3]) 120"
proof -
  have "case split_slots_jobs list_procset example_sched example_slots
       [run_job 0 100 [1], run_job 0 200 [2], run_job 0 150 [3]] True of
       Inl _ \<Rightarrow> False
     | Inr ss' \<Rightarrow> linked (slots ss') 1 [1, 2, 3] 0 \<and>
         list_ex (\<lambda>s. slot_b s \<le> 120 \<and> 120 \<le> slot_e s \<and> 3 \<in> set (ps_ids list_procset (itvs s)))
           (slots_at (slots ss') [1, 2, 3])"
    by code_simp
  then show ?thesis
    by (auto simp: free_at_def job_end_def run_job_def job_pseudo_def split: sum.splits)
qed

text \<open>
  \<open>intersec_itvs_slots\<close> returns, without an exception, exactly the resources that are free in
  every slot from \<open>sid_left\<close> to \<open>sid_right\<close>.
\<close>

theorem intersec_itvs_slots_exact:
  assumes "procset P" "linked m i ids j" "ids \<noteq> []" "distinct ids" "length ids \<le> fuel"
  shows "\<exists>acc. intersec_itvs_slots P fuel m i (last ids) = Inr acc \<and>
     elems P acc = (\<Inter>i \<in> set ids. elems P (itvs (the (m i))))"
  by (rule procset.intersec_itvs_slots_spec [OF assms(1-4) refl assms(5)])

definition two_slots :: "nat list \<Rightarrow> nat list \<Rightarrow> nat \<rightharpoonup> nat list slot" where
  "two_slots is1 is2 =
     [1 \<mapsto> new_slot example_sched 1 0 2 is1 0 9 Map.empty Map.empty,
      2 \<mapsto> new_slot example_sched 2 1 0 is2 10 1000 Map.empty Map.empty]"

theorem intersec_itvs_slots_exact_witness:
  "\<exists>acc. intersec_itvs_slots list_procset 2 (two_slots [1,2,3] [2,3,4]) 1 2 = Inr acc \<and>
     elems list_procset acc = {2,3}"
proof -
  have "linked (two_slots [1,2,3] [2,3,4]) 1 [1,2] 0"
    by (simp add: two_slots_def new_slot_def)
  from intersec_itvs_slots_exact [OF list_ps.procset_axioms this, of 2] show ?thesis
    by (auto simp: two_slots_def new_slot_def list_procset_def)
qed

text \<open>
  \<open>intersec_ts_ph_itvs_slots\<close> is not the intersection of what the slots offer: an empty
  intermediate result is taken for "no slot seen yet". For a timesharing job the resource 5,
  which is not free in the first slot, is returned as free over both.
\<close>

theorem intersec_ts_ph_itvs_slots_empty:
  "intersec_ts_ph_itvs_slots list_procset 2 (two_slots [] [5]) 1 2
     (job_pseudo 1 0 20 [] True No_placeholder) = Inr [5] \<and>
   shared_itvs list_procset (the (two_slots [] [5] 1))
     (job_pseudo 1 0 20 [] True No_placeholder) = Inr []"
  by (simp add: intersec_ts_ph_itvs_slots_def two_slots_def new_slot_def shared_itvs_def
      job_pseudo_def list_procset_def id_list_def numeral_2_eq_2)

text \<open>
  C8. \<open>check_slots_quotas\<close> is sound: when it accepts a job over a range of slots, then in each of
  these slots the counters that result from placing the job there (\<open>Quotas.update\<close>, as
  \<open>sub_slot_during_job\<close> calls it) still satisfy the rules of the first slot of the range.
\<close>

theorem check_slots_quotas_sound:
  assumes "check_slots_quotas P E fuel m i (last ids) job nb dur = Inr Quota_ok"
    and "linked m i ids j" "ids \<noteq> []" "distinct ids"
    and "\<forall>k \<in> set ids. \<forall>sq. slot_quotas (the (m k)) = Some sq \<longrightarrow> counters_ok (counters sq)"
    and "res_set job = None" "walltime job = None" "0 \<le> dur"
    and "nb = int (ps_len P (ps_inter P rs (q_default_itvs (quotas_conf E))))"
    and "slot_quotas (the (m i)) = Some q0" "k \<in> set ids"
  shows "\<exists>sq. slot_quotas (the (m k)) = Some sq \<and>
     check_rules job (rules q0)
       (counters (quotas_update P (quotas_conf E) sq (job\<lparr>res_set := Some rs, walltime := Some dur\<rparr>) 0 0))
     = Quota_ok"
proof -
  from assms(2,3) obtain xs s where ids: "ids = i # xs" and s: "m i = Some s"
    by (cases ids) (auto split: option.splits)
  let ?q = "(new_quotas (quotas_conf E))\<lparr>rules := rules q0\<rparr>"
  from assms(1,10) s obtain q' where
    q': "combine_slots fuel m i (last ids) ?q = Inr (Some q')"
    and ok: "quotas_check (quotas_update P (quotas_conf E) q' job nb dur) job = Quota_ok"
    by (auto simp: check_slots_quotas_def res_simps split: option.splits)
  have "counters_ok (counters ?q)" by (simp add: new_quotas_def)
  from combine_slots_spec [OF _ _ _ this, of m i xs j "last ids" fuel q'] assms(2,4,5) q' ids
  have rules: "rules q' = rules q0"
    and le: "\<forall>k \<in> set ids. \<exists>sq. slot_quotas (the (m k)) = Some sq \<and>
        counters_le (counters sq) (counters q')" by auto
  from le assms(11) obtain sq where sq: "slot_quotas (the (m k)) = Some sq"
    "counters_le (counters sq) (counters q')" by blast
  have "quotas_update P (quotas_conf E) sq (job\<lparr>res_set := Some rs, walltime := Some dur\<rparr>) 0 0 =
      quotas_update P (quotas_conf E) sq job nb dur"
    using assms(6,7,9) by (simp add: quotas_update_def has_type_def)
  moreover have "counters_ok (counters (quotas_update P (quotas_conf E) sq job nb dur))"
    using assms(5-9,11) sq by (intro quotas_update_ok) auto
  moreover have "rules (quotas_update P (quotas_conf E) q' job nb dur) = rules q0"
    by (simp add: quotas_update_def Let_def rules)
  ultimately show ?thesis
    using ok check_rules_mono [OF _ quotas_update_mono [OF sq(2)]] sq(1)
    by (auto simp: quotas_check_def counters_ok_def)
qed

definition quota_slots :: "nat \<rightharpoonup> nat list slot" where
  "quota_slots =
     (let E = example_sched\<lparr>quotas_conf := example_env\<rparr>
      in [1 \<mapsto> new_slot E 1 0 2 [1,2,3] 0 9 Map.empty Map.empty,
          2 \<mapsto> new_slot E 2 1 0 [1,2,3] 10 1000 Map.empty Map.empty])"

theorem check_slots_quotas_sound_witness:
  "\<exists>sq. slot_quotas (the (quota_slots 2)) = Some sq \<and>
     check_rules (example_job\<lparr>res_set := None, walltime := None\<rparr>) (q_default_rules example_env)
       (counters (quotas_update list_procset example_env sq
          (example_job\<lparr>res_set := Some [1,2,3], walltime := Some 15\<rparr>) 0 0)) = Quota_ok"
proof -
  let ?E = "example_sched\<lparr>quotas_conf := example_env\<rparr>"
    and ?j = "example_job\<lparr>res_set := None, walltime := None\<rparr>"
  have "quotas_check (quotas_update list_procset example_env (new_quotas example_env) ?j 3 15) ?j =
      Quota_ok" by code_simp
  then have "check_slots_quotas list_procset ?E 2 quota_slots 1 2 ?j 3 15 = Inr Quota_ok"
    by (simp add: check_slots_quotas_def quota_slots_def new_slot_def Let_def numeral_2_eq_2
        example_env_def new_quotas_def quotas_combine_def)
  moreover have "linked quota_slots 1 [1, 2] 0"
    by (simp add: quota_slots_def new_slot_def Let_def)
  moreover have q: "slot_quotas (the (quota_slots 1)) = Some (new_quotas example_env)"
    "slot_quotas (the (quota_slots 2)) = Some (new_quotas example_env)"
    by (simp_all add: quota_slots_def new_slot_def Let_def) (simp_all add: example_env_def)
  moreover have "\<forall>k \<in> set [1, 2]. \<forall>sq. slot_quotas (the (quota_slots k)) = Some sq \<longrightarrow>
      counters_ok (counters sq)"
    using q by (simp add: new_quotas_def)
  moreover have "3 = int (ps_len list_procset
      (ps_inter list_procset [1,2,3] (q_default_itvs (quotas_conf ?E))))"
    by code_simp
  ultimately have "\<exists>sq. slot_quotas (the (quota_slots 2)) = Some sq \<and>
     check_rules ?j (rules (new_quotas example_env))
       (counters (quotas_update list_procset (quotas_conf ?E) sq
          (?j\<lparr>res_set := Some [1,2,3], walltime := Some 15\<rparr>) 0 0)) = Quota_ok"
    by (intro check_slots_quotas_sound [where ids = "[1, 2]" and m = quota_slots and i = 1 and j = 0])
      auto
  then show ?thesis by (simp add: new_quotas_def)
qed

end
