(* ===== verification/Scheduling.thy ===== *)
theory Scheduling
  imports Hierarchy Slot_Sets
begin

text \<open>
  \<open>oar/kao/scheduling.py\<close>: the search for the first window of slots that can serve a request, the
  choice among the moldable alternatives of a job, the assignment of jobs in order with their
  dependencies, containers and inner jobs, and the insertion of jobs scheduled before.
  The functions that change the slot sets, the calendar or a job return them changed. The pair
  \<open>(ProcSet(), -1, -1)\<close> of a failed search is \<open>None\<close>.
\<close>

section \<open>Resources for one request\<close>

fun find_resource_hierarchies_loop ::
  "'p procset_ops \<Rightarrow> 'p \<Rightarrow> 'p hy_res_rqt list \<Rightarrow> 'p hierarchy \<Rightarrow> 'p \<Rightarrow> 'p res" where
  "find_resource_hierarchies_loop P itvs_slots [] hy result = Inr result"
| "find_resource_hierarchies_loop P itvs_slots ((hy_level_nbs, constraints) # rqts) hy result =
     res_bind (map_res (\<lambda>(l_name, n). lookup_res hy l_name) hy_level_nbs) (\<lambda>hy_levels.
       let hy_nbs = map snd hy_level_nbs;
           itvs_cts_slots = ps_inter P constraints itvs_slots
       in res_bind (find_resource_hierarchies_scattered P itvs_cts_slots hy_levels hy_nbs) (\<lambda>res.
            if ps_len P res \<noteq> 0
            then find_resource_hierarchies_loop P itvs_slots rqts hy (ps_union P result res)
            else Inr (ps_empty P)))"

definition find_resource_hierarchies_job ::
  "'p procset_ops \<Rightarrow> 'p \<Rightarrow> 'p hy_res_rqt list \<Rightarrow> 'p hierarchy \<Rightarrow> 'p res" where
  "find_resource_hierarchies_job P itvs_slots hy_res_rqts hy =
     find_resource_hierarchies_loop P itvs_slots hy_res_rqts hy (ps_empty P)"

text \<open>The two loops of \<open>get_encompassing_slots\<close>.\<close>

fun advance_end :: "nat \<Rightarrow> (nat \<rightharpoonup> 'p slot) \<Rightarrow> nat \<Rightarrow> int \<Rightarrow> nat res" where
  "advance_end 0 m sid t = Inl Diverges"
| "advance_end (Suc fuel) m sid t =
     res_bind (lookup_res m sid) (\<lambda>s.
       if slot_e s < t then advance_end fuel m (nxt s) t else Inr sid)"

definition get_encompassing_slots ::
  "nat \<Rightarrow> (nat \<rightharpoonup> 'p slot) \<Rightarrow> int \<Rightarrow> int \<Rightarrow> (nat \<times> nat) res" where
  "get_encompassing_slots fuel m t_begin t_end =
     res_bind (advance_end fuel m 1 t_begin) (\<lambda>sid_left.
     res_bind (advance_end fuel m sid_left t_end) (\<lambda>sid_right. Inr (sid_left, sid_right)))"

section \<open>The first suitable window\<close>

text \<open>The first slot that begins at \<open>min_start_time\<close> or later.\<close>

fun skip_before :: "nat \<Rightarrow> (nat \<rightharpoonup> 'p slot) \<Rightarrow> nat \<Rightarrow> int \<Rightarrow> nat res" where
  "skip_before 0 m sid t = Inl Diverges"
| "skip_before (Suc fuel) m sid t =
     res_bind (lookup_res m sid) (\<lambda>s.
       if slot_b s < t then skip_before fuel m (nxt s) t else Inr sid)"

definition first_left :: "nat \<Rightarrow> 'p slot_set \<Rightarrow> 'p job \<Rightarrow> int \<Rightarrow> int \<Rightarrow> nat res" where
  "first_left fuel ss job mld_id min_start_time =
     (if min_start_time < 0
      then (if key_cache job \<noteq> []
            then res_bind (lookup_res (map_of (key_cache job)) mld_id) (\<lambda>key.
                   Inr (case map_of (cache ss) key of Some sid \<Rightarrow> sid | None \<Rightarrow> 1))
            else Inr 1)
      else skip_before fuel (slots ss) 1 min_start_time)"

text \<open>
  The loop that moves \<open>sid_right\<close> until the window is long enough; \<open>None\<close> when the slots end
  first.
\<close>

fun extend_right ::
  "nat \<Rightarrow> (nat \<rightharpoonup> 'p slot) \<Rightarrow> int \<Rightarrow> nat \<Rightarrow> int \<Rightarrow> int \<Rightarrow> (nat \<times> int) option res" where
  "extend_right 0 m b sid_right e wt = Inl Diverges"
| "extend_right (Suc fuel) m b sid_right e wt =
     (if e - b + 1 < wt
      then res_bind (lookup_res m sid_right) (\<lambda>s.
             if nxt s \<noteq> 0
             then res_bind (lookup_res m (nxt s)) (\<lambda>s'. extend_right fuel m b (nxt s) (slot_e s') wt)
             else Inr None)
      else Inr (Some (sid_right, e)))"

text \<open>
  The same loop under a calendar: it cuts slots that have no rules yet, gives up at the time
  limit, and moves \<open>sid_left\<close> when the rules change, \<open>slot_b\<close> keeping its value.
\<close>

fun extend_right_cal ::
  "nat \<Rightarrow> 'p sched_env \<Rightarrow> calendar \<Rightarrow> 'p slot_set \<Rightarrow> int \<Rightarrow> nat \<Rightarrow> nat \<Rightarrow> int \<Rightarrow> int \<Rightarrow>
   (calendar \<times> 'p slot_set \<times> (nat \<times> nat \<times> int) option) res" where
  "extend_right_cal 0 E cal ss b sid_left sid_right e wt = Inl Diverges"
| "extend_right_cal (Suc fuel) E cal ss b sid_left sid_right e wt =
     (if e - b + 1 < wt
      then
        if e > b + window_limit E then Inr (cal, ss, None)
        else
          res_bind (lookup_res (slots ss) sid_right) (\<lambda>s.
          res_bind (attr (quotas_rules_id s)) (\<lambda>rid.
          res_bind
            (if rid = - 1
             then res_bind (rules_at (week_origin E) cal (slot_b s)) (\<lambda>(cal', r, remaining).
                  res_bind (temporal_split E fuel cal' ss s r remaining) (\<lambda>(cal'', ss', _).
                    Inr (cal'', ss')))
             else Inr (cal, ss)) (\<lambda>(cal', ss').
          res_bind (lookup_res (slots ss') sid_right) (\<lambda>s'.
            if nxt s' \<noteq> 0
            then
              res_bind (lookup_res (slots ss') (nxt s')) (\<lambda>s_right.
              res_bind (lookup_res (slots ss') sid_left) (\<lambda>s_left.
              res_bind (attr (quotas_rules_id s_left)) (\<lambda>r1.
              res_bind (attr (quotas_rules_id s_right)) (\<lambda>r2.
                extend_right_cal fuel E cal' ss' b
                  (if r1 \<noteq> r2 then nxt s' else sid_left) (nxt s') (slot_e s_right) wt))))
            else Inr (cal', ss', None)))))
      else Inr (cal, ss, Some (sid_left, sid_right, e)))"

text \<open>The window for the current \<open>sid_left\<close>, with or without calendar.\<close>

definition next_window ::
  "nat \<Rightarrow> 'p sched_env \<Rightarrow> 'p slot_set \<Rightarrow> 'p job \<Rightarrow> int \<Rightarrow> nat \<Rightarrow> nat \<Rightarrow> int \<Rightarrow> int \<Rightarrow>
   ('p sched_env \<times> 'p slot_set \<times> (nat \<times> nat \<times> int) option) res" where
  "next_window fuel E ss job b sid_left sid_right e wt =
     (case (if no_quotas job then None else calendar_of E) of
        Some cal \<Rightarrow>
          res_bind (extend_right_cal fuel E cal ss b sid_left sid_right e wt) (\<lambda>(cal', ss', w).
            Inr (E\<lparr>calendar_of := Some cal'\<rparr>, ss', w))
      | None \<Rightarrow>
          res_bind (extend_right fuel (slots ss) b sid_right e wt) (\<lambda>w.
            Inr (E, ss, case w of None \<Rightarrow> None
                        | Some (sid_right', e') \<Rightarrow> Some (sid_left, sid_right', e'))))"

type_synonym 'p finder = "'p \<Rightarrow> 'p hy_res_rqt list \<Rightarrow> 'p hierarchy \<Rightarrow> bool \<Rightarrow> 'p res"

text \<open>\<open>job.find_func\<close> when the job has one, else \<open>find_resource_hierarchies_job\<close>.\<close>

definition finder_of :: "'p procset_ops \<Rightarrow> 'p job \<Rightarrow> 'p finder" where
  "finder_of P job =
     (case find_func job of
        Some f \<Rightarrow> f
      | None \<Rightarrow> (\<lambda>itvs rqts hy beginning. find_resource_hierarchies_job P itvs rqts hy))"

definition window_itvs ::
  "'p procset_ops \<Rightarrow> nat \<Rightarrow> 'p slot_set \<Rightarrow> nat \<Rightarrow> nat \<Rightarrow> 'p job \<Rightarrow> 'p res" where
  "window_itvs P fuel ss sid_left sid_right job =
     (if ts job \<or> ph job = Allow
      then intersec_ts_ph_itvs_slots P fuel (slots ss) sid_left sid_right job
      else intersec_itvs_slots P fuel (slots ss) sid_left sid_right)"

text \<open>\<open>Quotas.enabled and (not job.no_quotas)\<close>, then the check.\<close>

definition window_quotas_ok ::
  "'p procset_ops \<Rightarrow> 'p sched_env \<Rightarrow> nat \<Rightarrow> 'p slot_set \<Rightarrow> nat \<Rightarrow> nat \<Rightarrow> 'p job \<Rightarrow> 'p \<Rightarrow> int \<Rightarrow>
   bool res" where
  "window_quotas_ok P E fuel ss sid_left sid_right job res wt =
     (if q_enabled (quotas_conf E) \<and> \<not> no_quotas job
      then res_bind
             (check_slots_quotas P E fuel (slots ss) sid_left sid_right job
                (int (ps_len P (ps_inter P res (q_default_itvs (quotas_conf E))))) wt)
             (\<lambda>q. Inr (q = Quota_ok))
      else Inr True)"

text \<open>The outer loop; \<open>no_cache\<close> records that quotas refused a window.\<close>

fun window_loop ::
  "'p procset_ops \<Rightarrow> 'p finder \<Rightarrow> nat \<Rightarrow> 'p sched_env \<Rightarrow> 'p slot_set \<Rightarrow> 'p job \<Rightarrow> int \<Rightarrow>
   'p hy_res_rqt list \<Rightarrow> 'p hierarchy \<Rightarrow> nat \<Rightarrow> nat \<Rightarrow> int \<Rightarrow> bool \<Rightarrow>
   ('p sched_env \<times> 'p slot_set \<times> bool \<times> ('p \<times> nat \<times> nat) option) res" where
  "window_loop P fnd 0 E ss job wt rqts hy sid_left sid_right e no_cache = Inl Diverges"
| "window_loop P fnd (Suc fuel) E ss job wt rqts hy sid_left sid_right e no_cache =
     (if sid_left \<noteq> 0 \<and> sid_right \<noteq> 0
      then
        res_bind (lookup_res (slots ss) sid_left) (\<lambda>s_left.
        res_bind (next_window fuel E ss job (slot_b s_left) sid_left sid_right e wt)
          (\<lambda>(E, ss, window).
          case window of
            None \<Rightarrow> Inr (E, ss, no_cache, None)
          | Some (sid_left, sid_right, e) \<Rightarrow>
              res_bind (window_itvs P fuel ss sid_left sid_right job) (\<lambda>itvs_avail.
              res_bind (lookup_res (slots ss) 1) (\<lambda>s1.
              res_bind (fnd itvs_avail rqts hy (sid_left = 1 \<and> ss_begin ss = slot_b s1)) (\<lambda>res.
              res_bind (if ps_len P res \<noteq> 0
                        then window_quotas_ok P E fuel ss sid_left sid_right job res wt
                        else Inr False) (\<lambda>found.
                if found then Inr (E, ss, no_cache, Some (res, sid_left, sid_right))
                else
                  res_bind (lookup_res (slots ss) sid_left) (\<lambda>s.
                    window_loop P fnd fuel E ss job wt rqts hy (nxt s) sid_right e
                      (no_cache \<or> ps_len P res \<noteq> 0))))))))
      else Inr (E, ss, no_cache, None))"

definition find_first_suitable_contiguous_slots ::
  "'p procset_ops \<Rightarrow> nat \<Rightarrow> 'p sched_env \<Rightarrow> 'p slot_set \<Rightarrow> 'p job \<Rightarrow> 'p res_rqt \<Rightarrow> 'p hierarchy \<Rightarrow> int \<Rightarrow>
   ('p sched_env \<times> 'p slot_set \<times> ('p \<times> nat \<times> nat) option) res" where
  "find_first_suitable_contiguous_slots P fuel E ss job res_rqt hy min_start_time =
     (case res_rqt of (mld_id, wt, hy_res_rqts) \<Rightarrow>
        res_bind (first_left fuel ss job mld_id min_start_time) (\<lambda>sid_left.
        res_bind (lookup_res (slots ss) sid_left) (\<lambda>s.
        res_bind (window_loop P (finder_of P job) fuel E ss job wt hy_res_rqts hy
                    sid_left sid_left (slot_e s) False)
          (\<lambda>(E, ss, no_cache, found).
          case found of
            None \<Rightarrow> Inr (E, ss, None)
          | Some (res, l, r) \<Rightarrow>
              if key_cache job \<noteq> [] \<and> min_start_time < 0 \<and> \<not> no_cache
              then res_bind (lookup_res (map_of (key_cache job)) mld_id) (\<lambda>key.
                     Inr (E, ss\<lparr>cache := AList.update key l (cache ss)\<rparr>, Some (res, l, r)))
              else Inr (E, ss, Some (res, l, r))))))"

section \<open>Assignment of a job\<close>

text \<open>The best alternative so far: start, finish, resources, request, left and right slot.\<close>

type_synonym 'p choice = "int \<times> int \<times> 'p \<times> 'p res_rqt \<times> nat \<times> nat"

fun choose_moldable ::
  "'p procset_ops \<Rightarrow> nat \<Rightarrow> 'p job \<Rightarrow> 'p hierarchy \<Rightarrow> int \<Rightarrow> 'p res_rqt list \<Rightarrow>
   'p sched_env \<times> 'p slot_set \<times> 'p choice option \<times> bool \<Rightarrow>
   ('p sched_env \<times> 'p slot_set \<times> 'p choice option \<times> bool) res" where
  "choose_moldable P fuel job hy min_start_time [] st = Inr st"
| "choose_moldable P fuel job hy min_start_time (rqt # rqts) st =
     (case st of (E, ss, best, any) \<Rightarrow>
        res_bind (find_first_suitable_contiguous_slots P fuel E ss job rqt hy min_start_time)
          (\<lambda>(E, ss, found).
          case found of
            None \<Rightarrow> choose_moldable P fuel job hy min_start_time rqts (E, ss, best, any)
          | Some (res, l, r) \<Rightarrow>
              res_bind (lookup_res (slots ss) l) (\<lambda>s.
                let t_finish = slot_b s + fst (snd rqt);
                    limit = (case best of None \<Rightarrow> 2 ^ 32 - 1 | Some (_, f, _) \<Rightarrow> f)
                in choose_moldable P fuel job hy min_start_time rqts
                     (E, ss,
                      if t_finish < limit then Some (slot_b s, t_finish, res, rqt, l, r) else best,
                      True))))"

definition assign_resources_mld_job_split_slots ::
  "'p procset_ops \<Rightarrow> nat \<Rightarrow> 'p sched_env \<Rightarrow> 'p slot_set \<Rightarrow> 'p job \<Rightarrow> 'p hierarchy \<Rightarrow> int \<Rightarrow>
   ('p sched_env \<times> 'p slot_set \<times> 'p job \<times> (nat \<times> nat) option) res" where
  "assign_resources_mld_job_split_slots P fuel E ss job hy min_start_time =
     res_bind (lookup_res (slots ss) 1) (\<lambda>_.
     res_bind (choose_moldable P fuel job hy min_start_time (mld_res_rqts job) (E, ss, None, False))
       (\<lambda>(E, ss, best, any).
        if \<not> any
        then Inr (E, ss, job\<lparr>res_set := Some (ps_empty P), start_time := - 1, moldable_id := - 1\<rparr>,
                  None)
        else
          (case best of
             None \<Rightarrow> Inl ValueError
           | Some (start, _, res, (mld_id, wt, _), l, r) \<Rightarrow>
               (let job' = job\<lparr>moldable_id := mld_id, res_set := Some res, start_time := start,
                               walltime := Some wt\<rparr>
                in res_bind (split_slots P E ss l r job' True) (\<lambda>ss'.
                     Inr (E, ss', job', Some (l, r)))))))"

section \<open>The scheduling loop\<close>

text \<open>
  The dependencies of a job: \<open>None\<close> when it must be skipped, else the earliest start time that
  they allow.
\<close>

fun check_deps ::
  "(int \<rightharpoonup> 'p job) \<Rightarrow> (int \<times> string \<times> int) list \<Rightarrow> int \<Rightarrow> int option res" where
  "check_deps jobs [] min_start_time = Inr (Some min_start_time)"
| "check_deps jobs ((jid_dep, state, exit_code) # ds) min_start_time =
     (if state = ''Error'' then Inr None
      else if state = ''Waiting'' then
        (case jobs jid_dep of
           Some job_dep \<Rightarrow>
             res_bind (attr (walltime job_dep)) (\<lambda>wt.
               check_deps jobs ds (max min_start_time (start_time job_dep + wt)))
         | None \<Rightarrow> Inr None)
      else if state = ''Terminated'' \<and> exit_code = 0 then check_deps jobs ds min_start_time
      else Inr None)"

definition type_of :: "'p job \<Rightarrow> string \<Rightarrow> string option" where
  "type_of job t = map_of (types job) t"

text \<open>\<open>JobPseudo(id=0, ..., ts=job.ts, ph=job.ts)\<close>: \<open>True\<close> equals \<open>PLACEHOLDER\<close>.\<close>

definition container_pseudo :: "'p job \<Rightarrow> int \<Rightarrow> int \<Rightarrow> 'p \<Rightarrow> 'p job" where
  "container_pseudo job start wt rs =
     job_pseudo 0 start wt rs (ts job) (if ts job then Placeholder else No_placeholder)"

type_synonym 'p slots_sets = "(string \<times> 'p slot_set) list"

text \<open>What follows the assignment of a job of type container.\<close>

definition open_container ::
  "'p procset_ops \<Rightarrow> nat \<Rightarrow> 'p sched_env \<Rightarrow> 'p slots_sets \<Rightarrow> 'p job \<Rightarrow> int \<Rightarrow>
   ('p sched_env \<times> 'p slots_sets) res" where
  "open_container P fuel E sss job job_security_time =
     (case type_of job ''container'' of
        None \<Rightarrow> Inr (E, sss)
      | Some v \<Rightarrow>
          (let ss_name = (if v = [] then int_str (job_id job) else v)
           in res_bind (attr (walltime job)) (\<lambda>wt.
              res_bind (attr (res_set job)) (\<lambda>rs.
                case map_of sss ss_name of
                  Some ss \<Rightarrow>
                    res_bind (split_slots_jobs P E ss
                        [container_pseudo job (start_time job) (wt - job_security_time) rs] False) (\<lambda>ss'.
                      Inr (E, AList.update ss_name ss' sss))
                | None \<Rightarrow>
                    res_bind (slot_set_of_slot fuel E
                        (new_slot E 1 0 0 rs (start_time job)
                           (start_time job + wt - job_security_time) Map.empty Map.empty)) (\<lambda>(E', ss).
                      Inr (E', AList.update ss_name ss sss))))))"

type_synonym 'p assigner =
  "'p sched_env \<Rightarrow> 'p slot_set \<Rightarrow> 'p job \<Rightarrow> 'p hierarchy \<Rightarrow> int \<Rightarrow>
   ('p sched_env \<times> 'p slot_set \<times> 'p job) res"

text \<open>
  One turn of \<open>schedule_id_jobs_ct\<close>. \<open>assign\<close> is the \<open>assign_func\<close> of jobs that have one. When the
  slot set of an inner job is missing, the source logs it and goes on to \<open>slots_sets[ss_name]\<close>
  (the statement \<open>next\<close> is no \<open>continue\<close>), which raises.
\<close>

definition schedule_job ::
  "'p procset_ops \<Rightarrow> nat \<Rightarrow> 'p assigner \<Rightarrow> 'p hierarchy \<Rightarrow> int \<Rightarrow> int \<Rightarrow>
   'p sched_env \<times> 'p slots_sets \<times> (int \<rightharpoonup> 'p job) \<Rightarrow>
   ('p sched_env \<times> 'p slots_sets \<times> (int \<rightharpoonup> 'p job)) res" where
  "schedule_job P fuel assign hy job_security_time jid st =
     (case st of (E, sss, jobs) \<Rightarrow>
        res_bind (lookup_res jobs jid) (\<lambda>job.
        res_bind (check_deps jobs (deps job) (- 1)) (\<lambda>d.
          case d of
            None \<Rightarrow> Inr (E, sss, jobs(jid \<mapsto> job\<lparr>start_time := - 1\<rparr>))
          | Some min_start_time \<Rightarrow>
              (let ss_name = (case type_of job ''inner'' of None \<Rightarrow> ''default'' | Some n \<Rightarrow> n)
               in res_bind (lookup_res (map_of sss) ss_name) (\<lambda>ss.
                  res_bind
                    (if assign_func job then assign E ss job hy min_start_time
                     else res_bind (assign_resources_mld_job_split_slots P fuel E ss job hy min_start_time)
                            (\<lambda>(E, ss, job, _). Inr (E, ss, job)))
                    (\<lambda>(E, ss, job).
                  res_bind (open_container P fuel E (AList.update ss_name ss sss) job job_security_time)
                    (\<lambda>(E, sss). Inr (E, sss, jobs(jid \<mapsto> job)))))))))"

definition schedule_id_jobs_ct ::
  "'p procset_ops \<Rightarrow> nat \<Rightarrow> 'p assigner \<Rightarrow> 'p sched_env \<Rightarrow> 'p slots_sets \<Rightarrow> (int \<rightharpoonup> 'p job) \<Rightarrow>
   'p hierarchy \<Rightarrow> int list \<Rightarrow> int \<Rightarrow> ('p sched_env \<times> 'p slots_sets \<times> (int \<rightharpoonup> 'p job)) res" where
  "schedule_id_jobs_ct P fuel assign E sss jobs hy id_jobs job_security_time =
     fold_res (schedule_job P fuel assign hy job_security_time) id_jobs (E, sss, jobs)"

section \<open>Jobs scheduled before\<close>

definition considered :: "bool \<Rightarrow> bool \<Rightarrow> 'p job \<Rightarrow> bool" where
  "considered filter_besteffort only_besteffort job \<longleftrightarrow>
     \<not> filter_besteffort \<and> has_type job ''besteffort'' \<or>
     \<not> only_besteffort \<and> \<not> has_type job ''besteffort''"

text \<open>The container part of the first loop of \<open>set_slots_with_prev_scheduled_jobs\<close>.\<close>

definition prev_container ::
  "'p procset_ops \<Rightarrow> nat \<Rightarrow> 'p sched_env \<Rightarrow> 'p slots_sets \<Rightarrow> 'p job \<Rightarrow> int \<Rightarrow> int \<Rightarrow>
   ('p sched_env \<times> 'p slots_sets) res" where
  "prev_container P fuel E sss job job_security_time now =
     (case type_of job ''container'' of
        None \<Rightarrow> Inr (E, sss)
      | Some v \<Rightarrow>
          (let ss_name = (if v \<noteq> [] then v else int_str (job_id job))
           in res_bind (case map_of sss ss_name of
                          Some ss \<Rightarrow> Inr (E, ss)
                        | None \<Rightarrow> slot_set_of_itvs fuel E (ps_empty P) 1) (\<lambda>(E, ss).
              res_bind (attr (walltime job)) (\<lambda>wt. res_bind (attr (res_set job)) (\<lambda>rs.
              res_bind (split_slots_jobs P E ss
                  [container_pseudo job (if start_time job < now then now else start_time job)
                     (wt - job_security_time) rs] False) (\<lambda>ss'.
                Inr (E, AList.update ss_name ss' sss)))))))"

definition prev_job ::
  "'p procset_ops \<Rightarrow> nat \<Rightarrow> int \<Rightarrow> int \<Rightarrow> bool \<Rightarrow> bool \<Rightarrow> 'p job \<Rightarrow>
   'p sched_env \<times> 'p slots_sets \<times> (string \<times> 'p job list) list \<Rightarrow>
   ('p sched_env \<times> 'p slots_sets \<times> (string \<times> 'p job list) list) res" where
  "prev_job P fuel job_security_time now filter_besteffort only_besteffort job st =
     (case st of (E, sss, jobs_slotsets) \<Rightarrow>
        if considered filter_besteffort only_besteffort job
        then res_bind (prev_container P fuel E sss job job_security_time now) (\<lambda>(E, sss).
               let ss_name = (case type_of job ''inner'' of None \<Rightarrow> ''default'' | Some n \<Rightarrow> n);
                   js = (case map_of jobs_slotsets ss_name of None \<Rightarrow> [] | Some js \<Rightarrow> js)
               in Inr (E, sss, AList.update ss_name (js @ [job]) jobs_slotsets))
        else Inr (E, sss, jobs_slotsets))"

definition set_slots_with_prev_scheduled_jobs ::
  "'p procset_ops \<Rightarrow> nat \<Rightarrow> 'p sched_env \<Rightarrow> 'p slots_sets \<Rightarrow> 'p job list \<Rightarrow> int \<Rightarrow> int \<Rightarrow> bool \<Rightarrow> bool \<Rightarrow>
   ('p sched_env \<times> 'p slots_sets) res" where
  "set_slots_with_prev_scheduled_jobs P fuel E sss jobs job_security_time now fb ob =
     res_bind (fold_res (prev_job P fuel job_security_time now fb ob) jobs
                 (E, sss, [(''default'', [])])) (\<lambda>(E, sss, jobs_slotsets).
     res_bind (map_res (\<lambda>(name, ss).
                 case map_of jobs_slotsets name of
                   None \<Rightarrow> Inr (name, ss)
                 | Some js \<Rightarrow> res_bind (split_slots_jobs P E ss js True) (\<lambda>ss'. Inr (name, ss')))
                 sss) (\<lambda>sss'. Inr (E, sss')))"

end
