(* ===== verification/Scheduling_Correct.thy ===== *)
theory Scheduling_Correct
  imports Scheduling
begin

text \<open>
  Correctness of \<open>oar/kao/scheduling.py\<close>. The search only relies on what \<open>resource_finder\<close> states of
  the function that picks resources; \<open>find_resource_hierarchies_job\<close> provides it.
\<close>

section \<open>The interface of resource finders\<close>

text \<open>A finder answers with resources out of those it is offered.\<close>

locale resource_finder = procset P for P :: "'p procset_ops" +
  fixes fnd :: "'p finder"
  assumes inside: "fnd is rqts hy beginning = Inr r \<Longrightarrow> elems P r \<subseteq> elems P is"

context procset
begin

lemma extract_inside: "elems P (extract_n_scattered_block_itv P av bs n) \<subseteq> elems P av"
proof (cases "0 \<le> n")
  case True
  let ?free = "filter (\<lambda>x. elems P x \<subseteq> elems P av) bs"
  have "(\<Union>b \<in> set (take (nat n) ?free). elems P b) \<subseteq> elems P av"
  proof (rule UN_least)
    fix b assume "b \<in> set (take (nat n) ?free)"
    then have "b \<in> set ?free" by (rule in_set_takeD)
    then show "elems P b \<subseteq> elems P av" by simp
  qed
  then show ?thesis unfolding extract_spec [OF True, of av bs] by simp
qed (use extract_negative in simp)

lemma collect_inside:
  assumes "collect_blocks P win need bks acc nb = Inr (acc', nb')"
    and "\<And>b r. b \<in> set bks \<Longrightarrow> win b = Inr r \<Longrightarrow> elems P r \<subseteq> S" and "elems P acc \<subseteq> S"
  shows "elems P acc' \<subseteq> S"
  using assms
proof (induction bks arbitrary: acc nb)
  case (Cons b bks)
  show ?case
  proof (cases "nb = need")
    case False
    with Cons.prems(1) obtain r where r: "win b = Inr r"
      "collect_blocks P win need bks (if ps_len P r \<noteq> 0 then ps_union P acc r else acc)
         (if ps_len P r \<noteq> 0 then nb + 1 else nb) = Inr (acc', nb')"
      by (auto simp: res_simps split: if_splits)
    have "elems P r \<subseteq> S" by (rule Cons.prems(2) [OF _ r(1)]) simp
    with Cons.prems(3) have
      acc: "elems P (if ps_len P r \<noteq> 0 then ps_union P acc r else acc) \<subseteq> S"
      by simp
    show ?thesis by (rule Cons.IH [OF r(2) _ acc]) (rule Cons.prems(2), simp_all)
  qed (use Cons.prems in simp)
qed simp

lemma find_resource_n_h_inside:
  "find_resource_n_h P av hy rqts blks h hb = Inr r \<Longrightarrow> elems P r \<subseteq> elems P av"
proof (induction "length hy - h" arbitrary: h blks r rule: less_induct)
  case less
  let ?win1 = "\<lambda>bk. res_bind (nth_res hy (h + 1)) (\<lambda>level.
                          let avail_sub_bks =
                            [ps_inter P bk x. x \<leftarrow> level, ps_len P (ps_inter P bk x) \<noteq> 0]
                          in res_bind (nth_res rqts (h + 1)) (\<lambda>n.
                               Inr (extract_n_scattered_block_itv P av avail_sub_bks n)))"
  let ?win2 = "\<lambda>bk. res_bind (nth_res hy (h + 1)) (\<lambda>level.
                          find_resource_n_h P av hy rqts
                            [sub \<leftarrow> level. ps_issubset P sub bk] (h + 1) hb)"
  have win1: "elems P r' \<subseteq> elems P av" if "?win1 b = Inr r'" for b r'
    using that extract_inside by (auto simp: res_simps Let_def)
  have win2: "elems P r' \<subseteq> elems P av" if "?win2 b = Inr r'" for b r'
    using that less.hyps [of "h + 1"] by (fastforce simp: res_simps)
  from less.prems have "r = ps_empty P \<or> (\<exists>need bks acc nb. r = acc \<and>
      (collect_blocks P ?win1 need bks (ps_empty P) 0 = Inr (acc, nb) \<or>
       collect_blocks P ?win2 need bks (ps_empty P) 0 = Inr (acc, nb)))"
    by (subst (asm) find_resource_n_h.simps) (auto simp: res_simps Let_def split: if_splits)
  then show ?case
  proof (elim disjE exE conjE)
    fix need bks acc nb
    assume "collect_blocks P ?win1 need bks (ps_empty P) 0 = Inr (acc, nb)" "r = acc"
    from collect_inside [OF this(1) win1] this(2) show ?thesis by simp
  next
    fix need bks acc nb
    assume "collect_blocks P ?win2 need bks (ps_empty P) 0 = Inr (acc, nb)" "r = acc"
    from collect_inside [OF this(1) win2] this(2) show ?thesis by simp
  qed simp
qed

lemma scattered_inside:
  "find_resource_hierarchies_scattered P av hy rqts = Inr r \<Longrightarrow> elems P r \<subseteq> elems P av"
  unfolding find_resource_hierarchies_scattered_def Let_def
  by (auto simp: res_simps split: if_splits dest!: subsetD [OF extract_inside]
      subsetD [OF find_resource_n_h_inside])

lemma hierarchies_loop_inside:
  "\<lbrakk>find_resource_hierarchies_loop P is rqts hy acc = Inr r; elems P acc \<subseteq> elems P is\<rbrakk>
   \<Longrightarrow> elems P r \<subseteq> elems P is"
proof (induction rqts arbitrary: acc)
  case (Cons rq rqts)
  obtain levels constraints where rq: "rq = (levels, constraints)" by (cases rq)
  from Cons.prems(1) obtain res where
    res: "elems P res \<subseteq> elems P is"
    and r: "r = ps_empty P \<or>
      find_resource_hierarchies_loop P is rqts hy (ps_union P acc res) = Inr r"
    unfolding rq
    by (auto simp: res_simps Let_def split: if_splits dest!: scattered_inside)
  from res Cons.prems(2) have "elems P (ps_union P acc res) \<subseteq> elems P is" by simp
  with Cons.IH [of "ps_union P acc res"] r show ?case by (elim disjE) simp_all
qed simp

end

sublocale procset \<subseteq> hierarchy_finder:
  resource_finder P "\<lambda>is rqts hy beginning. find_resource_hierarchies_job P is rqts hy"
  by unfold_locales (use hierarchies_loop_inside in \<open>simp add: find_resource_hierarchies_job_def\<close>)

section \<open>The window loop\<close>

text \<open>
  A window of a chain: slots that follow each other, from \<open>l\<close> to \<open>r\<close>, at least \<open>wt\<close> long, the last
  one beginning before the walltime is over.
\<close>

definition window :: "'p slot_set \<Rightarrow> nat list \<Rightarrow> int \<Rightarrow> nat \<Rightarrow> nat \<Rightarrow> nat list \<Rightarrow> bool" where
  "window ss is wt l r mid \<longleftrightarrow>
     mid \<noteq> [] \<and> hd mid = l \<and> last mid = r \<and> (\<exists>pre post. is = pre @ mid @ post) \<and>
     wt \<le> slot_e (the (slots ss r)) - slot_b (the (slots ss l)) + 1 \<and>
     slot_b (the (slots ss r)) \<le> slot_b (the (slots ss l)) + wt"

lemma contig_cover:
  "\<lbrakk>contig b ss e; b \<le> t; t \<le> e\<rbrakk> \<Longrightarrow> \<exists>s \<in> set ss. slot_b s \<le> t \<and> t \<le> slot_e s"
proof (induction ss arbitrary: b)
  case (Cons s ss)
  then show ?case by (cases "t \<le> slot_e s") force+
qed simp

text \<open>\<open>extract_right\<close> from a slot \<open>r\<close> of the chain.\<close>

lemma extend_right_spec:
  assumes "linked m r (r # post) 0" "contig k (slots_at m (r # post)) e" "0 \<notin> set post"
    and "length (r # post) \<le> fuel" "slot_b (the (m r)) \<le> b + wt"
  shows "extend_right fuel m b r (slot_e (the (m r))) wt = Inr None \<or>
    (\<exists>xs r' zs. r # post = xs @ r' # zs \<and>
       extend_right fuel m b r (slot_e (the (m r))) wt = Inr (Some (r', slot_e (the (m r')))) \<and>
       wt \<le> slot_e (the (m r')) - b + 1 \<and> slot_b (the (m r')) \<le> b + wt)"
  using assms
proof (induction post arbitrary: r k fuel)
  case Nil
  then obtain s fuel' where s: "m r = Some s" "nxt s = 0" and f: "fuel = Suc fuel'"
    by (cases fuel) (auto split: option.splits)
  with Nil show ?case by (cases "slot_e s - b + 1 < wt") auto
next
  case (Cons n post)
  then obtain s fuel' where s: "m r = Some s" and f: "fuel = Suc fuel'"
    by (cases fuel) (auto split: option.splits)
  from linked_next [OF Cons.prems(1) s] obtain s' where
    n: "nxt s = n" "linked m n (n # post) 0" "m n = Some s'" by auto
  from Cons.prems s n have cont: "contig (slot_e s + 1) (slots_at m (n # post)) e"
    "slot_b s' = slot_e s + 1" and n0: "n \<noteq> 0" by auto
  show ?case
  proof (cases "slot_e s - b + 1 < wt")
    case True
    with Cons.IH [OF n(2) cont(1), of fuel'] Cons.prems(3,4) f n cont(2) have
      "extend_right fuel' m b n (slot_e (the (m n))) wt = Inr None \<or>
       (\<exists>xs r' zs. n # post = xs @ r' # zs \<and>
          extend_right fuel' m b n (slot_e (the (m n))) wt = Inr (Some (r', slot_e (the (m r')))) \<and>
          wt \<le> slot_e (the (m r')) - b + 1 \<and> slot_b (the (m r')) \<le> b + wt)" by simp
    moreover have "extend_right fuel m b r (slot_e (the (m r))) wt =
        extend_right fuel' m b n (slot_e (the (m n))) wt"
      using True s n n0 f by simp
    ultimately show ?thesis by (metis append_Cons)
  next
    case False
    with s f Cons.prems(5) have "r # n # post = [] @ r # (n # post) \<and>
       extend_right fuel m b r (slot_e (the (m r))) wt = Inr (Some (r, slot_e (the (m r)))) \<and>
       wt \<le> slot_e (the (m r)) - b + 1 \<and> slot_b (the (m r)) \<le> b + wt" by simp
    then show ?thesis by blast
  qed
qed

lemma skip_before_spec:
  assumes "skip_before fuel m i t = Inr l" "linked m i ids 0" "0 \<notin> dom m"
  shows "l \<in> set ids \<and> t \<le> slot_b (the (m l))"
  using assms
proof (induction fuel arbitrary: i ids)
  case (Suc fuel)
  then obtain s where s: "m i = Some s" by (auto simp: res_simps)
  with Suc.prems obtain xs where ids: "ids = i # xs" "linked m (nxt s) xs 0"
    by (cases ids) (auto split: option.splits)
  with Suc s show ?case by (auto split: if_splits)
qed simp

lemma skip_before_total:
  "\<lbrakk>linked m i ids 0; \<exists>x \<in> set ids. t \<le> slot_b (the (m x)); length ids \<le> fuel\<rbrakk> \<Longrightarrow>
   \<exists>l. skip_before fuel m i t = Inr l"
proof (induction ids arbitrary: i fuel)
  case (Cons x xs)
  then obtain s f where "m i = Some s" "fuel = Suc f" by (cases fuel) (auto split: option.splits)
  with Cons show ?case by (cases "t \<le> slot_b s") auto
qed simp

section \<open>Quotas over a window\<close>

lemma combine_slots_total:
  assumes "linked m x (x # xs) j" "last (x # xs) = r" "distinct (x # xs)" "0 \<notin> set xs"
    and "\<forall>i \<in> set (x # xs). slot_quotas (the (m i)) \<noteq> None \<and> quotas_rules_id (the (m i)) \<noteq> None"
    and "length (x # xs) \<le> fuel"
  shows "\<exists>c. combine_slots fuel m x r q = Inr c"
  using assms
proof (induction xs arbitrary: x q fuel)
  case Nil
  then show ?case by (cases fuel) (auto split: option.splits)
next
  case (Cons y ys)
  then obtain s fuel' where s: "m x = Some s" and f: "fuel = Suc fuel'"
    by (cases fuel) (auto split: option.splits)
  from linked_next [OF Cons.prems(1) s] obtain s' where
    n: "nxt s = y" "linked m y (y # ys) j" "m y = Some s'" by auto
  from Cons.prems s n obtain sq r1 r2 where "slot_quotas s = Some sq"
    "quotas_rules_id s = Some r1" "quotas_rules_id s' = Some r2" by auto
  with Cons.IH [OF n(2), of fuel' "quotas_combine q sq"] Cons.prems s n f
  show ?case by (auto simp: Let_def)
qed

section \<open>The search for the first window\<close>

lemma chain_parts:
  assumes "chain ss (pre @ x # post) b e"
  shows "linked (slots ss) x (x # post) 0" "\<exists>k. contig k (slots_at (slots ss) (x # post)) e \<and> b \<le> k"
    "0 \<notin> set (pre @ x # post)" "length (x # post) \<le> last_id ss" "\<exists>s. slots ss x = Some s"
proof -
  from assms show l: "linked (slots ss) x (x # post) 0"
    by (auto simp: chain_def linked_append split: option.splits)
  from assms show "\<exists>k. contig k (slots_at (slots ss) (x # post)) e \<and> b \<le> k"
    using contig_bounds unfolding chain_def map_append contig_append by force
  show "0 \<notin> set (pre @ x # post)" using chain_ids [OF assms] by force
  show "length (x # post) \<le> last_id ss" using chain_length [OF assms] by simp
  from l show "\<exists>s. slots ss x = Some s" by (auto split: option.splits)
qed

lemma chain_neighbours:
  assumes "chain ss (pre @ x # y # post) b e"
  shows "nxt (the (slots ss x)) = y" "slot_b (the (slots ss y)) = slot_e (the (slots ss x)) + 1"
    "slot_b (the (slots ss x)) \<le> slot_b (the (slots ss y))"
proof -
  from chain_parts(1) [OF assms] show "nxt (the (slots ss x)) = y"
    by (auto split: option.splits)
  from chain_parts(2) [OF assms] show
    "slot_b (the (slots ss y)) = slot_e (the (slots ss x)) + 1"
    "slot_b (the (slots ss x)) \<le> slot_b (the (slots ss y))" by auto
qed

text \<open>
  Where \<open>sid_right\<close> can be when the loop arrives at \<open>sid_left\<close>: at or after it, or just before.
\<close>

definition right_pos :: "'p slot_set \<Rightarrow> int \<Rightarrow> nat list \<Rightarrow> nat \<Rightarrow> nat list \<Rightarrow> nat \<Rightarrow> bool" where
  "right_pos ss wt pre left post right \<longleftrightarrow>
     ((\<exists>xs ys. left # post = xs @ right # ys) \<or> pre \<noteq> [] \<and> last pre = right) \<and>
     slot_b (the (slots ss right)) \<le> slot_b (the (slots ss left)) + wt"

lemma next_window_spec:
  assumes ch: "chain ss (pre @ left # post) b e" and pos: "right_pos ss wt pre left post right"
    and wt: "1 \<le> wt" and nocal: "no_quotas job \<or> calendar_of E = None"
    and fuel: "Suc (length (pre @ left # post)) \<le> fuel"
  shows "\<exists>w. next_window fuel E ss job (slot_b (the (slots ss left))) left right
                (slot_e (the (slots ss right))) wt = Inr (E, ss, w) \<and>
     (\<forall>l r' e'. w = Some (l, r', e') \<longrightarrow> l = left \<and> e' = slot_e (the (slots ss r')) \<and>
        (\<exists>xs zs. left # post = xs @ r' # zs) \<and>
        wt \<le> slot_e (the (slots ss r')) - slot_b (the (slots ss left)) + 1 \<and>
        slot_b (the (slots ss r')) \<le> slot_b (the (slots ss left)) + wt)"
proof -
  let ?m = "slots ss" and ?b = "slot_b (the (slots ss left))"
  have ext: "extend_right fu ?m ?b r (slot_e (the (?m r))) wt = Inr None \<or>
    (\<exists>xs' r' zs. left # post = xs' @ r' # zs \<and>
       extend_right fu ?m ?b r (slot_e (the (?m r))) wt = Inr (Some (r', slot_e (the (?m r')))) \<and>
       wt \<le> slot_e (the (?m r')) - ?b + 1 \<and> slot_b (the (?m r')) \<le> ?b + wt)"
    if r: "left # post = xs @ r # ys" "slot_b (the (?m r)) \<le> ?b + wt"
      and fu: "length (left # post) \<le> fu" for xs r ys fu
  proof -
    have ch': "chain ss ((pre @ xs) @ r # ys) b e" using ch r(1) by simp
    from chain_parts(2) [OF ch'] obtain k where k: "contig k (slots_at ?m (r # ys)) e" by blast
    have "0 \<notin> set ys" using chain_parts(3) [OF ch'] by simp
    moreover have "length (r # ys) \<le> fu" using fu arg_cong [OF r(1), of length] by simp
    ultimately have "extend_right fu ?m ?b r (slot_e (the (?m r))) wt = Inr None \<or>
      (\<exists>us r' zs. r # ys = us @ r' # zs \<and>
         extend_right fu ?m ?b r (slot_e (the (?m r))) wt = Inr (Some (r', slot_e (the (?m r')))) \<and>
         wt \<le> slot_e (the (?m r')) - ?b + 1 \<and> slot_b (the (?m r')) \<le> ?b + wt)"
      using extend_right_spec [OF chain_parts(1) [OF ch'] k _ _ r(2)] by blast
    then show ?thesis using r(1) by (metis append_assoc)
  qed
  have "extend_right fuel ?m ?b right (slot_e (the (?m right))) wt = Inr None \<or>
    (\<exists>xs' r' zs. left # post = xs' @ r' # zs \<and>
       extend_right fuel ?m ?b right (slot_e (the (?m right))) wt = Inr (Some (r', slot_e (the (?m r')))) \<and>
       wt \<le> slot_e (the (?m r')) - ?b + 1 \<and> slot_b (the (?m r')) \<le> ?b + wt)"
  proof (cases "\<exists>xs ys. left # post = xs @ right # ys")
    case True
    then obtain xs ys where "left # post = xs @ right # ys" by blast
    from ext [OF this] pos fuel show ?thesis by (simp add: right_pos_def)
  next
    case False
    with pos obtain us where pre: "pre = us @ [right]"
      by (metis append_butlast_last_id right_pos_def)
    from fuel obtain f where f: "fuel = Suc f" by (cases fuel) auto
    from ch pre have ch': "chain ss (us @ right # left # post) b e" by simp
    have left0: "left \<noteq> 0" "\<exists>s. ?m left = Some s" "\<exists>s. ?m right = Some s"
      using chain_parts(3,5) [OF ch] chain_parts(5) [OF ch'] by auto
    have "extend_right fuel ?m ?b right (slot_e (the (?m right))) wt =
        extend_right f ?m ?b left (slot_e (the (?m left))) wt"
      using chain_neighbours [OF ch'] left0 wt f by auto
    with ext [of "[]" left post f] wt fuel f show ?thesis by simp
  qed
  moreover have "next_window fuel E ss job ?b left right (slot_e (the (?m right))) wt =
      res_bind (extend_right fuel ?m ?b right (slot_e (the (?m right))) wt) (\<lambda>w.
        Inr (E, ss, case w of None \<Rightarrow> None | Some (r, e') \<Rightarrow> Some (left, r, e')))"
    using nocal by (auto simp: next_window_def split: option.splits)
  ultimately show ?thesis
  proof (elim disjE exE conjE)
    fix xs r' zs
    assume "left # post = xs @ r' # zs"
      and "extend_right fuel ?m ?b right (slot_e (the (?m right))) wt = Inr (Some (r', slot_e (the (?m r'))))"
      and "wt \<le> slot_e (the (?m r')) - ?b + 1" "slot_b (the (?m r')) \<le> ?b + wt"
      and "next_window fuel E ss job ?b left right (slot_e (the (?m right))) wt =
        res_bind (extend_right fuel ?m ?b right (slot_e (the (?m right))) wt) (\<lambda>w.
          Inr (E, ss, case w of None \<Rightarrow> None | Some (r, e') \<Rightarrow> Some (left, r, e')))"
    then show ?thesis
      by (intro exI [of _ "Some (left, r', slot_e (the (?m r')))"]) (simp, blast)
  qed (auto intro: exI [of _ None])
qed

lemma window_quotas_total:
  assumes ok: "slot_set_ok E ss (pre @ mid @ post) b e" and "mid \<noteq> []" "length mid \<le> fuel"
  shows "\<exists>q. window_quotas_ok P E fuel ss (hd mid) (last mid) job res wt = Inr q"
proof (cases "q_enabled (quotas_conf E) \<and> \<not> no_quotas job")
  case True
  obtain x xs where mid: "mid = x # xs" using assms(2) by (cases mid) auto
  have ch: "chain ss (pre @ mid @ post) b e" using ok by (simp add: slot_set_ok_def)
  then obtain j where link: "linked (slots ss) x (x # xs) j"
    by (auto simp: chain_def mid linked_append split: option.splits)
  have ready: "\<forall>i \<in> set (x # xs). slot_quotas (the (slots ss i)) \<noteq> None \<and>
      quotas_rules_id (the (slots ss i)) \<noteq> None"
    using ok True by (auto simp: slot_set_ok_def slot_ready_def mid split: option.splits)
  have "distinct (x # xs)" "0 \<notin> set xs"
    using ch chain_ids [OF ch] by (auto simp: chain_def mid)
  with combine_slots_total [OF link refl _ _ ready, of fuel] assms(3) mid have
    "\<exists>c. combine_slots fuel (slots ss) x (last (x # xs)) q = Inr c" for q by auto
  moreover from ready link obtain s sq where "slots ss x = Some s" "slot_quotas s = Some sq"
    by (auto split: option.splits)
  ultimately obtain c where
    "combine_slots fuel (slots ss) x (last (x # xs))
       ((new_quotas (quotas_conf E))\<lparr>rules := rules sq\<rparr>) = Inr c"
    and "slots ss x = Some s" "slot_quotas s = Some sq" by blast
  with True show ?thesis
    by (cases c) (auto simp: window_quotas_ok_def check_slots_quotas_def mid)
next
  case False
  then show ?thesis by (auto simp: window_quotas_ok_def)
qed

context resource_finder
begin

definition good_window where
  "good_window ss is wt left found \<longleftrightarrow>
     (\<forall>res l r. found = Some (res, l, r) \<longrightarrow>
        (\<exists>mid. window ss is wt l r mid \<and> elems P res \<noteq> {} \<and>
           (\<forall>i \<in> set mid. elems P res \<subseteq> elems P (itvs (the (slots ss i)))) \<and>
           slot_b (the (slots ss left)) \<le> slot_b (the (slots ss l))))"

text \<open>One turn: it ends with a good answer or goes on with the next slot.\<close>

lemma window_step:
  assumes ok: "slot_set_ok E ss (pre @ left # post) b e" and wt: "1 \<le> wt"
    and nocal: "no_quotas job \<or> calendar_of E = None" and plain: "\<not> ts job" "ph job \<noteq> Allow"
    and total: "\<And>is beginning. \<exists>r. fnd is rqts hy beginning = Inr r"
    and pos: "right_pos ss wt pre left post right"
    and fuel: "Suc (length (pre @ left # post)) \<le> fuel"
  shows "(\<exists>nc' found. window_loop P fnd (Suc fuel) E ss job wt rqts hy left right
             (slot_e (the (slots ss right))) nc = Inr (E, ss, nc', found) \<and>
           good_window ss (pre @ left # post) wt left found) \<or>
     (\<exists>nc' r' xs zs. left # post = xs @ r' # zs \<and>
        slot_b (the (slots ss r')) \<le> slot_b (the (slots ss left)) + wt \<and>
        window_loop P fnd (Suc fuel) E ss job wt rqts hy left right (slot_e (the (slots ss right))) nc =
        window_loop P fnd fuel E ss job wt rqts hy (nxt (the (slots ss left))) r'
          (slot_e (the (slots ss r'))) nc')"
proof -
  let ?m = "slots ss"
  let ?loop = "window_loop P fnd (Suc fuel) E ss job wt rqts hy left right
    (slot_e (the (slots ss right))) nc"
  have ch: "chain ss (pre @ left # post) b e" using ok by (simp add: slot_set_ok_def)
  from chain_parts(5) [OF ch] obtain sl where sl: "?m left = Some sl" by blast
  have in_ids: "right \<in> set (pre @ left # post)"
  proof -
    have "\<exists>xs ys. left # post = xs @ right # ys \<Longrightarrow> right \<in> set (left # post)" by force
    with pos show ?thesis by (auto simp: right_pos_def)
  qed
  have "right \<noteq> 0" using chain_parts(3) [OF ch] in_ids by metis
  moreover have "left \<noteq> 0" using chain_parts(3) [OF ch] by simp
  ultimately have nz: "left \<noteq> 0" "right \<noteq> 0" by simp_all
  from ch have "linked ?m 1 (pre @ left # post) 0" by (simp add: chain_def)
  then obtain s1 where s1: "?m 1 = Some s1" by (cases pre) (auto split: option.splits)
  from next_window_spec [OF ch pos wt nocal fuel] obtain w where
    w: "next_window fuel E ss job (slot_b sl) left right (slot_e (the (?m right))) wt = Inr (E, ss, w)"
    and good: "\<And>l r' e'. w = Some (l, r', e') \<Longrightarrow> l = left \<and> e' = slot_e (the (?m r')) \<and>
        (\<exists>xs zs. left # post = xs @ r' # zs) \<and>
        wt \<le> slot_e (the (?m r')) - slot_b sl + 1 \<and> slot_b (the (?m r')) \<le> slot_b sl + wt"
    using sl by auto
  show ?thesis
  proof (cases w)
    case None
    with nz sl w have "?loop = Inr (E, ss, nc, None)" by simp
    then show ?thesis by (auto simp: good_window_def)
  next
    case (Some wv)
    then obtain l r' e' where "w = Some (l, r', e')" by (cases wv) auto
    with good have r': "w = Some (left, r', slot_e (the (?m r')))"
      "wt \<le> slot_e (the (?m r')) - slot_b sl + 1" "slot_b (the (?m r')) \<le> slot_b sl + wt"
      and "\<exists>xs zs. left # post = xs @ r' # zs" by auto
    then obtain xs zs where split: "left # post = xs @ r' # zs" by blast
    define mid where "mid = xs @ [r']"
    have mid: "mid \<noteq> []" "hd mid = left" "last mid = r'" "left # post = mid @ zs"
      using split by (cases xs; auto simp: mid_def)+
    have ids: "pre @ left # post = pre @ mid @ zs" using mid(4) by simp
    have len: "length mid \<le> fuel" using fuel unfolding ids by simp
    from ch obtain k where "linked ?m left mid k"
      using chain_parts(1) [OF ch] unfolding mid(4) linked_append by blast
    moreover have "distinct mid" using ch by (simp add: chain_def ids)
    ultimately obtain av where
      av: "intersec_itvs_slots P fuel ?m left r' = Inr av"
        "elems P av = (\<Inter>i \<in> set mid. elems P (itvs (the (?m i))))"
      using intersec_itvs_slots_spec [of ?m left mid k r' fuel] mid len by auto
    from total obtain res where res: "fnd av rqts hy (left = 1 \<and> ss_begin ss = slot_b s1) = Inr res"
      by blast
    from window_quotas_total [OF ok [unfolded ids] mid(1) len, of P job res wt] mid obtain q where
      q: "window_quotas_ok P E fuel ss left r' job res wt = Inr q" by auto
    have loop: "?loop =
      (if ps_len P res \<noteq> 0 \<and> q then Inr (E, ss, nc, Some (res, left, r'))
       else window_loop P fnd fuel E ss job wt rqts hy (nxt sl) r' (slot_e (the (?m r')))
              (nc \<or> ps_len P res \<noteq> 0))"
      using nz sl s1 w r'(1) av(1) res q plain by (simp add: window_itvs_def)
    have "good_window ss (pre @ left # post) wt left (Some (res, left, r'))" if "elems P res \<noteq> {}"
    proof -
      have "window ss (pre @ left # post) wt left r' mid"
        unfolding window_def ids using mid r'(2,3) sl by auto
      moreover have "\<forall>i \<in> set mid. elems P res \<subseteq> elems P (itvs (the (?m i)))"
        using inside [OF res] av(2) by blast
      ultimately show ?thesis using that unfolding good_window_def by auto
    qed
    note found = this
    show ?thesis
    proof (cases "ps_len P res \<noteq> 0 \<and> q")
      case True
      with loop found show ?thesis by (intro disjI1) (simp del: window_loop.simps)
    next
      case False
      then have "?loop = window_loop P fnd fuel E ss job wt rqts hy (nxt (the (?m left))) r'
          (slot_e (the (?m r'))) (nc \<or> ps_len P res \<noteq> 0)"
        unfolding loop using sl by (simp only: if_False option.sel)
      with split r'(3) sl show ?thesis by (intro disjI2) (simp del: window_loop.simps, blast)
    qed
  qed
qed

lemma window_loop_spec:
  assumes "slot_set_ok E ss (pre @ left # post) b e" and wt: "1 \<le> wt"
    and nocal: "no_quotas job \<or> calendar_of E = None" and plain: "\<not> ts job" "ph job \<noteq> Allow"
    and total: "\<And>is beginning. \<exists>r. fnd is rqts hy beginning = Inr r"
    and "right_pos ss wt pre left post right"
    and "length (left # post) + Suc (length (pre @ left # post)) \<le> fuel"
  shows "\<exists>nc' found. window_loop P fnd fuel E ss job wt rqts hy left right
             (slot_e (the (slots ss right))) nc = Inr (E, ss, nc', found) \<and>
           good_window ss (pre @ left # post) wt left found"
  using assms(1,7,8)
proof (induction post arbitrary: pre left right fuel nc)
  case Nil
  then obtain f where f: "fuel = Suc (Suc f)" by (cases fuel; cases "fuel - 1") auto
  have "chain ss (pre @ [left]) b e" using Nil.prems(1) by (simp add: slot_set_ok_def)
  from chain_parts(1,5) [OF this] have "nxt (the (slots ss left)) = 0" by auto
  then have "window_loop P fnd (Suc f) E ss job wt rqts hy (nxt (the (slots ss left))) r' e' nc' =
      Inr (E, ss, nc', None)" for r' e' nc' by simp
  with window_step [OF Nil.prems(1) wt nocal plain total Nil.prems(2), of "Suc f" nc] Nil.prems(3) f
  show ?case by (fastforce simp: good_window_def)
next
  case (Cons n post)
  then obtain f where f: "fuel = Suc f" by (cases fuel) auto
  have ch: "chain ss (pre @ left # n # post) b e" using Cons.prems(1) by (simp add: slot_set_ok_def)
  note nb = chain_neighbours [OF ch]
  from window_step [OF Cons.prems(1) wt nocal plain total Cons.prems(2), of f nc] Cons.prems(3) f
  consider (stop) nc' found where
      "window_loop P fnd fuel E ss job wt rqts hy left right (slot_e (the (slots ss right))) nc =
         Inr (E, ss, nc', found)" "good_window ss (pre @ left # n # post) wt left found"
    | (more) nc' r' xs zs where "left # n # post = xs @ r' # zs"
      "slot_b (the (slots ss r')) \<le> slot_b (the (slots ss left)) + wt"
      "window_loop P fnd fuel E ss job wt rqts hy left right (slot_e (the (slots ss right))) nc =
       window_loop P fnd f E ss job wt rqts hy n r' (slot_e (the (slots ss r'))) nc'"
    unfolding f nb(1) by auto
  then show ?case
  proof cases
    case stop
    then show ?thesis by blast
  next
    case more
    have ok': "slot_set_ok E ss ((pre @ [left]) @ n # post) b e" using Cons.prems(1) by simp
    have "right_pos ss wt (pre @ [left]) n post r'"
      using more(1,2) nb(3) by (cases xs) (auto simp: right_pos_def)
    from Cons.IH [OF ok' this, of f nc'] Cons.prems(3) f more(3) nb(3)
    show ?thesis by (fastforce simp: good_window_def)
  qed
qed

end

section \<open>Requests that the platform can express\<close>

definition rqts_ok :: "'p procset_ops \<Rightarrow> 'p hierarchy \<Rightarrow> 'p hy_res_rqt list \<Rightarrow> bool" where
  "rqts_ok P hy rqts \<longleftrightarrow>
     (\<forall>(levels, constraints) \<in> set rqts.
        case map_res (\<lambda>(l_name, n). lookup_res hy l_name) levels of
          Inl _ \<Rightarrow> False
        | Inr hl \<Rightarrow> request_ok P hl (map snd levels))"

definition job_request_ok :: "'p procset_ops \<Rightarrow> 'p hierarchy \<Rightarrow> 'p job \<Rightarrow> bool" where
  "job_request_ok P hy job \<longleftrightarrow>
     (\<forall>(mld_id, wt, rqts) \<in> set (mld_res_rqts job).
        1 \<le> wt \<and> rqts_ok P hy rqts \<and>
        (key_cache job \<noteq> [] \<longrightarrow> mld_id \<in> set (map fst (key_cache job))))"

text \<open>A job that neither shares resources nor uses a function of its own, without calendar.\<close>

definition plain_job :: "'p sched_env \<Rightarrow> 'p job \<Rightarrow> bool" where
  "plain_job E job \<longleftrightarrow>
     \<not> ts job \<and> ph job = No_placeholder \<and> find_func job = None \<and>
     (no_quotas job \<or> calendar_of E = None)"

definition cache_ok :: "'p slot_set \<Rightarrow> nat list \<Rightarrow> bool" where
  "cache_ok ss is \<longleftrightarrow> ran (map_of (cache ss)) \<subseteq> set is"

definition same_slots :: "'p slot_set \<Rightarrow> 'p slot_set \<Rightarrow> bool" where
  "same_slots ss ss' \<longleftrightarrow>
     slots ss' = slots ss \<and> last_id ss' = last_id ss \<and> ss_begin ss' = ss_begin ss"

lemma cache_ok_update:
  "\<lbrakk>cache_ok ss is; v \<in> set is\<rbrakk> \<Longrightarrow> cache_ok (ss\<lparr>cache := AList.update k v (cache ss)\<rparr>) is"
  by (auto simp: cache_ok_def update_conv' ran_def split: if_splits)

context procset
begin

lemma hierarchies_loop_total:
  "rqts_ok P hy rqts \<Longrightarrow> \<exists>r. find_resource_hierarchies_loop P is rqts hy acc = Inr r"
proof (induction rqts arbitrary: acc)
  case (Cons rq rqts)
  obtain levels constraints where rq: "rq = (levels, constraints)" by (cases rq)
  from Cons.prems obtain hl where
    hl: "map_res (\<lambda>(l_name, n). lookup_res hy l_name) levels = Inr hl"
      "request_ok P hl (map snd levels)" and "rqts_ok P hy rqts"
    by (auto simp: rqts_ok_def rq split: sum.splits)
  moreover from search_good [OF hl(2), of "ps_inter P constraints is"] obtain res where
    "find_resource_hierarchies_scattered P (ps_inter P constraints is) hl (map snd levels) = Inr res"
    by blast
  ultimately show ?case using Cons.IH by (simp add: rq Let_def)
qed simp

lemma find_first_spec:
  assumes ok: "slot_set_ok E ss ids b e" and job: "plain_job E job" and wt: "1 \<le> wt"
    and rq: "rqts_ok P hy rqts" and cache: "cache_ok ss ids"
    and key: "key_cache job \<noteq> [] \<longrightarrow> mld_id \<in> set (map fst (key_cache job))"
    and start: "min_start < 0 \<or> (\<exists>i \<in> set ids. min_start \<le> slot_b (the (slots ss i)))"
    and fuel: "2 * last_id ss + 2 \<le> fuel"
  shows "\<exists>ss' found.
     find_first_suitable_contiguous_slots P fuel E ss job (mld_id, wt, rqts) hy min_start =
       Inr (E, ss', found) \<and> same_slots ss ss' \<and> cache_ok ss' ids \<and>
     (\<forall>res l r. found = Some (res, l, r) \<longrightarrow>
        (\<exists>mid. window ss ids wt l r mid \<and> elems P res \<noteq> {} \<and>
           (\<forall>i \<in> set mid. elems P res \<subseteq> elems P (itvs (the (slots ss i)))) \<and>
           (min_start < 0 \<or> min_start \<le> slot_b (the (slots ss l)))))"
proof -
  have ch: "chain ss ids b e" using ok by (simp add: slot_set_ok_def)
  have nocal: "no_quotas job \<or> calendar_of E = None" and plain: "\<not> ts job" "ph job \<noteq> Allow"
    using job by (auto simp: plain_job_def)
  have link: "linked (slots ss) 1 ids 0" "ids \<noteq> []" using ch by (auto simp: chain_def)
  then obtain xs where one: "ids = 1 # xs" by (cases ids) (auto split: option.splits)
  have zero: "0 \<notin> dom (slots ss)" using ch by (auto simp: chain_def)
  obtain left where left: "first_left fuel ss job mld_id min_start = Inr left" "left \<in> set ids"
    "min_start < 0 \<or> min_start \<le> slot_b (the (slots ss left))"
  proof (cases "min_start < 0")
    case True
    show ?thesis
    proof (cases "key_cache job = []")
      case True
      with \<open>min_start < 0\<close> one that show ?thesis by (auto simp: first_left_def)
    next
      case False
      with key obtain kc where kc: "map_of (key_cache job) mld_id = Some kc"
        by (cases "map_of (key_cache job) mld_id") (auto simp: map_of_eq_None_iff)
      show ?thesis
      proof (cases "map_of (cache ss) kc")
        case None
        with \<open>min_start < 0\<close> False kc one that show ?thesis by (auto simp: first_left_def)
      next
        case (Some sid)
        then have "sid \<in> set ids" using cache by (auto simp: cache_ok_def ran_def)
        with Some \<open>min_start < 0\<close> False kc that show ?thesis by (auto simp: first_left_def)
      qed
    qed
  next
    case False
    with start have "\<exists>i \<in> set ids. min_start \<le> slot_b (the (slots ss i))" by blast
    from skip_before_total [OF link(1) this] chain_length [OF ch] fuel obtain l where
      l: "skip_before fuel (slots ss) 1 min_start = Inr l" by fastforce
    from skip_before_spec [OF l link(1) zero] l False that show ?thesis
      by (auto simp: first_left_def)
  qed
  then obtain pre post where ids: "ids = pre @ left # post" by (meson split_list)
  from chain_parts(5) [of ss pre left post b e] ch obtain s where s: "slots ss left = Some s"
    by (auto simp: ids)
  have len: "length ids \<le> last_id ss" using chain_length [OF ch] .
  have pos: "right_pos ss wt pre left post left" using wt by (auto simp: right_pos_def)
  have "length (left # post) + Suc (length (pre @ left # post)) \<le> fuel"
    using len fuel by (simp add: ids)
  from hierarchy_finder.window_loop_spec [OF ok [unfolded ids] wt nocal plain _ pos this,
      where hy = hy and rqts = rqts and nc = False] hierarchies_loop_total [OF rq]
  obtain nc found where
    loop: "window_loop P (finder_of P job) fuel E ss job wt rqts hy left left (slot_e s) False =
      Inr (E, ss, nc, found)"
    and good: "hierarchy_finder.good_window ss ids wt left found"
    using job s by (auto simp: finder_of_def plain_job_def find_resource_hierarchies_job_def ids)
  have found: "\<exists>mid. window ss ids wt l r mid \<and> elems P res \<noteq> {} \<and>
      (\<forall>i \<in> set mid. elems P res \<subseteq> elems P (itvs (the (slots ss i)))) \<and>
      (min_start < 0 \<or> min_start \<le> slot_b (the (slots ss l)))"
    if "found = Some (res, l, r)" for res l r
    using good that left(3) unfolding hierarchy_finder.good_window_def by fastforce
  show ?thesis
  proof (cases found)
    case None
    with loop left(1) s cache show ?thesis
      by (auto simp: find_first_suitable_contiguous_slots_def same_slots_def)
  next
    case (Some f)
    then obtain res l r where f: "found = Some (res, l, r)" by (cases f) auto
    with found obtain mid where "window ss ids wt l r mid" by blast
    then have l: "l \<in> set ids" by (auto simp: window_def)
    show ?thesis
    proof (cases "key_cache job \<noteq> [] \<and> min_start < 0 \<and> \<not> nc")
      case True
      with key obtain kc where kc: "map_of (key_cache job) mld_id = Some kc"
        by (cases "map_of (key_cache job) mld_id") (auto simp: map_of_eq_None_iff)
      let ?ss = "ss\<lparr>cache := AList.update kc l (cache ss)\<rparr>"
      have "find_first_suitable_contiguous_slots P fuel E ss job (mld_id, wt, rqts) hy min_start =
          Inr (E, ?ss, found)"
        using loop left(1) s f True kc by (simp add: find_first_suitable_contiguous_slots_def)
      moreover have "same_slots ss ?ss" "cache_ok ?ss ids"
        using cache_ok_update [OF cache l] by (simp_all add: same_slots_def)
      ultimately show ?thesis using found by blast
    next
      case False
      then have "find_first_suitable_contiguous_slots P fuel E ss job (mld_id, wt, rqts) hy min_start =
          Inr (E, ss, found)"
        using loop left(1) s f by (auto simp: find_first_suitable_contiguous_slots_def)
      then show ?thesis using found cache by (auto simp: same_slots_def)
    qed
  qed
qed

end

section \<open>The choice of an alternative and the assignment\<close>

lemma same_slots_ok:
  "same_slots ss ss' \<Longrightarrow> slot_set_ok E ss' ids b e \<longleftrightarrow> slot_set_ok E ss ids b e"
  by (simp add: same_slots_def slot_set_ok_def chain_def)

lemma same_slots_trans: "\<lbrakk>same_slots a b; same_slots b c\<rbrakk> \<Longrightarrow> same_slots a c"
  by (simp add: same_slots_def)

lemma window_same_slots:
  "same_slots ss ss' \<Longrightarrow> window ss' ids wt l r mid \<longleftrightarrow> window ss ids wt l r mid"
  by (simp add: same_slots_def window_def)

lemma window_times:
  assumes "slot_set_ok E ss ids b e" "window ss ids wt l r mid"
  shows "slot_e (the (slots ss r)) \<le> e" "b \<le> slot_b (the (slots ss l))"
    "slot_b (the (slots ss l)) \<le> slot_e (the (slots ss l)) + 1"
proof -
  from assms have "l \<in> set ids" "r \<in> set ids" by (auto simp: window_def)
  moreover from assms(1) have c: "contig b (slots_at (slots ss) ids) e"
    by (simp add: slot_set_ok_def chain_def)
  ultimately show "slot_e (the (slots ss r)) \<le> e" "b \<le> slot_b (the (slots ss l))"
    using contig_bounds [OF c] by auto
  from \<open>l \<in> set ids\<close> obtain xs ys where "ids = xs @ l # ys" by (meson split_list)
  with c show "slot_b (the (slots ss l)) \<le> slot_e (the (slots ss l)) + 1"
    by (auto simp: contig_append)
qed

context procset
begin

text \<open>An alternative that can be placed: what the search found for one request of the job.\<close>

definition placeable where
  "placeable ss ids job min_start start res rqt l r \<longleftrightarrow>
     (\<exists>mid. window ss ids (fst (snd rqt)) l r mid \<and> elems P res \<noteq> {} \<and>
        (\<forall>i \<in> set mid. elems P res \<subseteq> elems P (itvs (the (slots ss i)))) \<and>
        start = slot_b (the (slots ss l)) \<and> (min_start < 0 \<or> min_start \<le> start) \<and>
        rqt \<in> set (mld_res_rqts job) \<and> 1 \<le> fst (snd rqt))"

lemma placeable_same_slots:
  "same_slots ss ss' \<Longrightarrow>
   placeable ss' ids job ms start res rqt l r \<longleftrightarrow> placeable ss ids job ms start res rqt l r"
  by (simp add: placeable_def window_same_slots) (simp add: same_slots_def)

lemma choose_spec:
  assumes "slot_set_ok E ss ids b e" "e + 1 < 2 ^ 32 - 1" "plain_job E job" "cache_ok ss ids"
    and "job_request_ok P hy job" "set rqts \<subseteq> set (mld_res_rqts job)"
    and "min_start < 0 \<or> (\<exists>i \<in> set ids. min_start \<le> slot_b (the (slots ss i)))"
    and "2 * last_id ss + 2 \<le> fuel"
    and "\<forall>s f res rqt l r. best = Some (s, f, res, rqt, l, r) \<longrightarrow>
           placeable ss ids job min_start s res rqt l r"
    and "any \<longrightarrow> best \<noteq> None"
  shows "\<exists>ss' best' any'.
     choose_moldable P fuel job hy min_start rqts (E, ss, best, any) = Inr (E, ss', best', any') \<and>
     same_slots ss ss' \<and> cache_ok ss' ids \<and> (any' \<longrightarrow> best' \<noteq> None) \<and>
     (\<forall>s f res rqt l r. best' = Some (s, f, res, rqt, l, r) \<longrightarrow>
        placeable ss ids job min_start s res rqt l r)"
  using assms
proof (induction rqts arbitrary: ss best any)
  case Nil
  then show ?case by (auto simp: same_slots_def)
next
  case (Cons rqt rqts)
  obtain mld_id wt rq where rqt: "rqt = (mld_id, wt, rq)" by (cases rqt)
  from Cons.prems(5,6) have rqt_ok: "1 \<le> wt" "rqts_ok P hy rq"
    "key_cache job \<noteq> [] \<longrightarrow> mld_id \<in> set (map fst (key_cache job))" and mem: "rqt \<in> set (mld_res_rqts job)"
    by (auto simp: job_request_ok_def rqt)
  from find_first_spec [OF Cons.prems(1,3) rqt_ok(1,2) Cons.prems(4) rqt_ok(3) Cons.prems(7,8)]
  obtain ss1 found where
    ff: "find_first_suitable_contiguous_slots P fuel E ss job rqt hy min_start = Inr (E, ss1, found)"
    and same: "same_slots ss ss1" and cache: "cache_ok ss1 ids"
    and found: "\<And>res l r. found = Some (res, l, r) \<Longrightarrow>
        (\<exists>mid. window ss ids wt l r mid \<and> elems P res \<noteq> {} \<and>
           (\<forall>i \<in> set mid. elems P res \<subseteq> elems P (itvs (the (slots ss i)))) \<and>
           (min_start < 0 \<or> min_start \<le> slot_b (the (slots ss l))))"
    by (auto simp: rqt)
  have slots1: "slots ss1 = slots ss" "last_id ss1 = last_id ss"
    using same by (simp_all add: same_slots_def)
  have sub: "set rqts \<subseteq> set (mld_res_rqts job)" using Cons.prems(6) by simp
  have start1: "min_start < 0 \<or> (\<exists>i \<in> set ids. min_start \<le> slot_b (the (slots ss1 i)))"
    and fuel1: "2 * last_id ss1 + 2 \<le> fuel"
    using Cons.prems(7,8) slots1 by simp_all
  note step = Cons.IH [OF same_slots_ok [OF same, THEN iffD2, OF Cons.prems(1)] Cons.prems(2,3) cache
      Cons.prems(5) sub start1 fuel1, unfolded placeable_same_slots [OF same]]
  show ?case
  proof (cases found)
    case None
    with step [of best any] Cons.prems(9,10) ff same show ?thesis
      by (auto intro: same_slots_trans)
  next
    case (Some f)
    then obtain res l r where f: "found = Some (res, l, r)" by (cases f) auto
    with found obtain mid where mid: "window ss ids wt l r mid" "elems P res \<noteq> {}"
      "\<forall>i \<in> set mid. elems P res \<subseteq> elems P (itvs (the (slots ss i)))"
      "min_start < 0 \<or> min_start \<le> slot_b (the (slots ss l))" by blast
    then have "l \<in> set ids" by (auto simp: window_def)
    with Cons.prems(1) obtain s where s: "slots ss l = Some s"
      using linked_slot by (fastforce simp: slot_set_ok_def chain_def)
    have pl: "placeable ss ids job min_start (slot_b s) res rqt l r"
      unfolding placeable_def using mid s mem rqt_ok(1) by (auto simp: rqt)
    have fin: "slot_b s + wt < 2 ^ 32 - 1"
      using mid(1) window_times(1) [OF Cons.prems(1) mid(1)] Cons.prems(2) s
      by (auto simp: window_def)
    define best1 where "best1 = (if slot_b s + wt < (case best of None \<Rightarrow> 2 ^ 32 - 1 | Some (_, f, _) \<Rightarrow> f)
      then Some (slot_b s, slot_b s + wt, res, rqt, l, r) else best)"
    have b1: "\<forall>s f res rqt l r. best1 = Some (s, f, res, rqt, l, r) \<longrightarrow>
           placeable ss ids job min_start s res rqt l r"
      using pl Cons.prems(9) by (auto simp: best1_def)
    have "best1 \<noteq> None" using fin by (auto simp: best1_def simp del: not_None_eq split: option.splits)
    then have any1: "True \<longrightarrow> best1 \<noteq> None" by simp
    from step [OF b1 any1] obtain ss' best' any' where
      "choose_moldable P fuel job hy min_start rqts (E, ss1, best1, True) = Inr (E, ss', best', any')"
      "same_slots ss1 ss'" "cache_ok ss' ids" "any' \<longrightarrow> best' \<noteq> None"
      "\<forall>s f res rqt l r. best' = Some (s, f, res, rqt, l, r) \<longrightarrow>
        placeable ss ids job min_start s res rqt l r" by blast
    moreover have "choose_moldable P fuel job hy min_start (rqt # rqts) (E, ss, best, any) =
        choose_moldable P fuel job hy min_start rqts (E, ss1, best1, True)"
      using ff f s slots1 by (simp add: best1_def rqt Let_def)
    ultimately show ?thesis using same_slots_trans [OF same] by auto
  qed
qed

text \<open>What an assignment that placed the job did.\<close>

definition assigned where
  "assigned E ss ids b e job min_start ss' job' l r \<longleftrightarrow>
     (\<exists>ids' wt rs rqts. set ids \<subseteq> set ids' \<and> cache_ok ss' ids' \<and> last_id ss' \<le> 3 * last_id ss \<and>
        (moldable_id job', wt, rqts) \<in> set (mld_res_rqts job) \<and>
        walltime job' = Some wt \<and> res_set job' = Some rs \<and> elems P rs \<noteq> {} \<and>
        start_time job' = slot_b (the (slots ss l)) \<and>
        (min_start < 0 \<or> min_start \<le> start_time job') \<and>
        b \<le> start_time job' \<and> start_time job' + wt \<le> e + 1 \<and>
        (\<forall>t. start_time job' \<le> t \<and> t < start_time job' + wt \<longrightarrow>
           elems P rs \<subseteq> free_at P (slots_at (slots ss) ids) t) \<and>
        slot_set_ok E ss' ids' b e \<and>
        (\<forall>t. free_at P (slots_at (slots ss') ids') t =
           free_at P (slots_at (slots ss) ids) t -
           (if start_time job' \<le> t \<and> t < start_time job' + wt then elems P rs else {})))"

lemma placeable_free:
  assumes ok: "slot_set_ok E ss ids b e" and w: "window ss ids wt l r mid"
    and res: "\<forall>i \<in> set mid. elems P res \<subseteq> elems P (itvs (the (slots ss i)))"
    and t: "slot_b (the (slots ss l)) \<le> t" "t < slot_b (the (slots ss l)) + wt"
  shows "elems P res \<subseteq> free_at P (slots_at (slots ss) ids) t"
proof -
  from w obtain pre post where ids: "ids = pre @ mid @ post" and mid: "mid \<noteq> []" "hd mid = l" "last mid = r"
    and e: "wt \<le> slot_e (the (slots ss r)) - slot_b (the (slots ss l)) + 1"
    by (auto simp: window_def)
  from ok have "contig b (slots_at (slots ss) ids) e" by (simp add: slot_set_ok_def chain_def)
  then obtain k k' where k: "contig k (slots_at (slots ss) mid) k'"
    unfolding ids map_append contig_append by blast
  have "k = slot_b (the (slots ss l))" using k mid by (cases mid) auto
  moreover have "k' = slot_e (the (slots ss r))"
    using k mid by (cases mid rule: rev_cases) (auto simp: contig_append)
  ultimately obtain s where "s \<in> set (slots_at (slots ss) mid)" "slot_b s \<le> t" "t \<le> slot_e s"
    using contig_cover [OF k, of t] t e by auto
  with res ids show ?thesis by (fastforce simp: free_at_def)
qed

lemma assign_spec:
  assumes ok: "slot_set_ok E ss ids b e" "e + 1 < 2 ^ 32 - 1" "plain_job E job" "cache_ok ss ids"
    and rq: "job_request_ok P hy job"
    and start: "min_start < 0 \<or> (\<exists>i \<in> set ids. min_start \<le> slot_b (the (slots ss i)))"
    and fuel: "2 * last_id ss + 2 \<le> fuel"
  shows "\<exists>ss' job' lr.
     assign_resources_mld_job_split_slots P fuel E ss job hy min_start = Inr (E, ss', job', lr) \<and>
     (case lr of
        None \<Rightarrow> same_slots ss ss' \<and> cache_ok ss' ids \<and>
          job' = job\<lparr>res_set := Some (ps_empty P), start_time := - 1, moldable_id := - 1\<rparr>
      | Some (l, r) \<Rightarrow> assigned E ss ids b e job min_start ss' job' l r)"
proof -
  from ok(1) obtain xs where "ids = 1 # xs" "linked (slots ss) 1 ids 0"
    by (cases ids) (auto simp: slot_set_ok_def chain_def split: option.splits)
  then obtain s1 where s1: "slots ss 1 = Some s1" by (auto split: option.splits)
  from choose_spec [OF ok rq subset_refl start fuel, of None False] obtain ss1 best any where
    ch: "choose_moldable P fuel job hy min_start (mld_res_rqts job) (E, ss, None, False) =
      Inr (E, ss1, best, any)"
    and same: "same_slots ss ss1" and cache: "cache_ok ss1 ids" and any: "any \<longrightarrow> best \<noteq> None"
    and best: "\<And>s f res rqt l r. best = Some (s, f, res, rqt, l, r) \<Longrightarrow>
        placeable ss ids job min_start s res rqt l r" by auto
  show ?thesis
  proof (cases any)
    case False
    with ch s1 same cache show ?thesis by (simp add: assign_resources_mld_job_split_slots_def)
  next
    case True
    with any obtain s f res mld_id wt rqts l r where b: "best = Some (s, f, res, (mld_id, wt, rqts), l, r)"
      by (cases best) auto
    from best [OF b] obtain mid where
      mid: "window ss ids wt l r mid" "elems P res \<noteq> {}"
        "\<forall>i \<in> set mid. elems P res \<subseteq> elems P (itvs (the (slots ss i)))"
      and s: "s = slot_b (the (slots ss l))" "min_start < 0 \<or> min_start \<le> s"
        "(mld_id, wt, rqts) \<in> set (mld_res_rqts job)" "1 \<le> wt"
      by (auto simp: placeable_def)
    define job' where "job' = job\<lparr>moldable_id := mld_id, res_set := Some res, start_time := s,
                               walltime := Some wt\<rparr>"
    have placed: "placed job' wt res"
      using ok(3) s(4) by (simp add: placed_def job_ready_def job'_def plain_job_def)
    from mid(1) obtain pre post where ids: "ids = pre @ mid @ post" and m: "mid \<noteq> []" "hd mid = l" "last mid = r"
      by (auto simp: window_def)
    have slots1: "slots ss1 = slots ss" using same by (simp add: same_slots_def)
    have ok1: "slot_set_ok E ss1 (pre @ mid @ post) b e"
      using same_slots_ok [OF same] ok(1) by (simp add: ids)
    from split_slots_held_replaces [OF ok1 m(1) placed, of True] m slots1 mid(1)
      window_times [OF ok(1) mid(1)] s(1)
    obtain ss' cur seg where
      sp: "split_slots_held P E ss1 r l r job' True = Inr (ss', cur)"
      and ok': "slot_set_ok E ss' (pre @ seg @ post) b e"
      and free: "\<forall>t. free_at P (slots_at (slots ss') (pre @ seg @ post)) t =
        after_job job' wt res True (slot_b (the (slots ss l))) (slot_e (the (slots ss r)))
          (free_at P (slots_at (slots ss) ids)) t"
      and more: "set mid \<subseteq> set seg" "last_id ss' \<le> last_id ss1 + 2 * length mid" "cache ss' = cache ss1"
      by (auto simp: job'_def window_def ids simp del: append_assoc)
    have "length mid \<le> last_id ss" "last_id ss1 = last_id ss"
      using chain_length [of ss ids b e] ok(1) same by (auto simp: slot_set_ok_def ids same_slots_def)
    with more have grown: "set ids \<subseteq> set (pre @ seg @ post)" "cache_ok ss' (pre @ seg @ post)"
      "last_id ss' \<le> 3 * last_id ss"
      using cache by (auto simp: ids cache_ok_def)
    from split_slots_held_any [OF sp, of 0] have split: "split_slots P E ss1 l r job' True = Inr ss'"
      by (auto simp: split_slots_def)
    have "after_job job' wt res True (slot_b (the (slots ss l))) (slot_e (the (slots ss r))) G t =
        G t - (if s \<le> t \<and> t < s + wt then elems P res else {})" for G t
      using mid(1) s(1) by (auto simp: after_job_def job'_def job_effect_def window_def)
    with free have "\<forall>t. free_at P (slots_at (slots ss') (pre @ seg @ post)) t =
        free_at P (slots_at (slots ss) ids) t - (if s \<le> t \<and> t < s + wt then elems P res else {})"
      by simp
    moreover have "\<forall>t. s \<le> t \<and> t < s + wt \<longrightarrow> elems P res \<subseteq> free_at P (slots_at (slots ss) ids) t"
      using placeable_free [OF ok(1) mid(1,3)] s(1) by blast
    moreover have "s + wt \<le> e + 1" "b \<le> s"
      using window_times [OF ok(1) mid(1)] mid(1) s(1) by (auto simp: window_def)
    ultimately have "assigned E ss ids b e job min_start ss' job' l r"
      unfolding assigned_def using ok' s mid(2) grown
      by (intro exI [of _ "pre @ seg @ post"] exI [of _ wt] exI [of _ res] exI [of _ rqts])
        (simp add: job'_def)
    with ch s1 True b split show ?thesis
      by (auto simp: assign_resources_mld_job_split_slots_def job'_def)
  qed
qed

end

end
