(* ===== verification/Scheduling_Props.thy ===== *)
theory Scheduling_Props
  imports Scheduling_Correct
begin

text \<open>
  The properties of \<open>oar/kao/scheduling.py\<close> that follow from \<open>Scheduling_Correct\<close>: a job is placed on
  free resources only, jobs placed one after the other never share a resource at an instant, and
  three situations in which the loop raises instead of skipping a job.
\<close>

section \<open>A sequence of jobs\<close>

definition occupies :: "'p procset_ops \<Rightarrow> 'p job \<Rightarrow> int \<Rightarrow> nat set" where
  "occupies P job t =
     (case res_set job of
        None \<Rightarrow> {}
      | Some rs \<Rightarrow> if start_time job \<le> t \<and> t < job_end job then elems P rs else {})"

definition simple_job :: "'p procset_ops \<Rightarrow> 'p sched_env \<Rightarrow> 'p hierarchy \<Rightarrow> 'p job \<Rightarrow> bool" where
  "simple_job P E hy job \<longleftrightarrow>
     plain_job E job \<and> job_request_ok P hy job \<and> deps job = [] \<and> \<not> assign_func job \<and>
     type_of job ''inner'' = None \<and> type_of job ''container'' = None"

text \<open>The scheduler left the job without a place, or chose one of its alternatives from \<open>b\<close> on.\<close>

definition chosen :: "'p procset_ops \<Rightarrow> int \<Rightarrow> 'p job \<Rightarrow> 'p job \<Rightarrow> bool" where
  "chosen P b job job' \<longleftrightarrow> job_id job' = job_id job \<and>
     (start_time job' = - 1 \<or>
      (\<exists>wt rs rqts. (moldable_id job', wt, rqts) \<in> set (mld_res_rqts job) \<and> walltime job' = Some wt \<and> 1 \<le> wt \<and>
         res_set job' = Some rs \<and> elems P rs \<noteq> {} \<and> b \<le> start_time job'))"

context procset
begin

lemma schedule_job_simple:
  assumes "slot_set_ok E ss ids b e" "e + 1 < 2 ^ 32 - 1" "cache_ok ss ids"
    and job: "jobs jid = Some job" "simple_job P E hy job"
    and "2 * last_id ss + 2 \<le> fuel"
  shows "\<exists>ss' ids' job'.
     schedule_job P fuel asg hy jst jid (E, [(''default'', ss)], jobs) =
       Inr (E, [(''default'', ss')], jobs(jid \<mapsto> job')) \<and>
     slot_set_ok E ss' ids' b e \<and> cache_ok ss' ids' \<and> last_id ss' \<le> 3 * last_id ss \<and> chosen P b job job' \<and>
     (\<forall>t. occupies P job' t \<subseteq> free_at P (slots_at (slots ss) ids) t \<and>
          free_at P (slots_at (slots ss') ids') t =
            free_at P (slots_at (slots ss) ids) t - occupies P job' t)"
proof -
  from job(2) have j: "plain_job E job" "job_request_ok P hy job" "deps job = []" "\<not> assign_func job"
    "type_of job ''inner'' = None" "type_of job ''container'' = None"
    by (simp_all add: simple_job_def)
  from assign_spec [OF assms(1,2) j(1) assms(3) j(2) _ assms(6), of "- 1"] obtain ss' job' lr where
    a: "assign_resources_mld_job_split_slots P fuel E ss job hy (- 1) = Inr (E, ss', job', lr)"
    and r: "case lr of
        None \<Rightarrow> same_slots ss ss' \<and> cache_ok ss' ids \<and>
          job' = job\<lparr>res_set := Some (ps_empty P), start_time := - 1, moldable_id := - 1\<rparr>
      | Some (l, r) \<Rightarrow> assigned E ss ids b e job (- 1) ss' job' l r" by auto
  have types: "types job' = types job" and same_id: "job_id job' = job_id job"
    using a j(3) by (auto simp: assign_resources_mld_job_split_slots_def res_simps Let_def
        split: if_splits option.splits prod.splits)
  have s: "schedule_job P fuel asg hy jst jid (E, [(''default'', ss)], jobs) =
      Inr (E, [(''default'', ss')], jobs(jid \<mapsto> job'))"
    using a j job(1) types
    by (simp add: schedule_job_def Let_def open_container_def type_of_def)
  show ?thesis
  proof (cases lr)
    case None
    with r have "same_slots ss ss'" "cache_ok ss' ids" "occupies P job' t = {}" for t
      by (auto simp: occupies_def)
    moreover have "chosen P b job job'" using r None by (simp add: chosen_def)
    ultimately show ?thesis using same_slots_ok [of ss ss' E ids b e] assms(1) s
      by (intro exI [of _ ss'] exI [of _ ids] exI [of _ job']) (auto simp: same_slots_def)
  next
    case (Some lr')
    then obtain l r' where "lr = Some (l, r')" by (cases lr') auto
    with r obtain ids' wt rs rqts where
      "cache_ok ss' ids'" "last_id ss' \<le> 3 * last_id ss" "walltime job' = Some wt" "res_set job' = Some rs"
      "slot_set_ok E ss' ids' b e"
      and rqts: "(moldable_id job', wt, rqts) \<in> set (mld_res_rqts job)" "elems P rs \<noteq> {}" "b \<le> start_time job'"
      and in_free: "\<forall>t. start_time job' \<le> t \<and> t < start_time job' + wt \<longrightarrow>
           elems P rs \<subseteq> free_at P (slots_at (slots ss) ids) t"
      and free: "\<forall>t. free_at P (slots_at (slots ss') ids') t =
           free_at P (slots_at (slots ss) ids) t -
           (if start_time job' \<le> t \<and> t < start_time job' + wt then elems P rs else {})"
      by (auto simp: assigned_def)
    then have "\<forall>t. occupies P job' t =
        (if start_time job' \<le> t \<and> t < start_time job' + wt then elems P rs else {})"
      by (simp add: occupies_def job_end_def)
    moreover have "1 \<le> wt" using rqts(1) j(2) by (fastforce simp: job_request_ok_def)
    then have "chosen P b job job'"
      using rqts same_id \<open>walltime job' = Some wt\<close> \<open>res_set job' = Some rs\<close> by (auto simp: chosen_def)
    ultimately show ?thesis using s in_free free \<open>cache_ok ss' ids'\<close> \<open>last_id ss' \<le> 3 * last_id ss\<close> \<open>slot_set_ok E ss' ids' b e\<close>
      by (intro exI [of _ ss'] exI [of _ ids'] exI [of _ job']) auto
  qed
qed

lemma schedule_simple_jobs:
  assumes "slot_set_ok E ss ids b e" "e + 1 < 2 ^ 32 - 1" "cache_ok ss ids" "distinct id_jobs"
    and "\<forall>i \<in> set id_jobs. \<exists>job. jobs i = Some job \<and> simple_job P E hy job"
    and "2 * (3 ^ length id_jobs * last_id ss) + 2 \<le> fuel"
  shows "\<exists>ss' ids' jobs'.
     fold_res (schedule_job P fuel asg hy jst) id_jobs (E, [(''default'', ss)], jobs) =
       Inr (E, [(''default'', ss')], jobs') \<and>
     slot_set_ok E ss' ids' b e \<and>
     (\<forall>k. k \<notin> set id_jobs \<longrightarrow> jobs' k = jobs k) \<and>
     (\<forall>i \<in> set id_jobs. \<exists>job'. jobs' i = Some job' \<and> chosen P b (the (jobs i)) job') \<and>
     (\<forall>i \<in> set id_jobs. \<forall>t. occupies P (the (jobs' i)) t \<subseteq> free_at P (slots_at (slots ss) ids) t) \<and>
     (\<forall>i \<in> set id_jobs. \<forall>j \<in> set id_jobs. i \<noteq> j \<longrightarrow>
        (\<forall>t. occupies P (the (jobs' i)) t \<inter> occupies P (the (jobs' j)) t = {}))"
  using assms
proof (induction id_jobs arbitrary: ss ids jobs)
  case Nil
  then show ?case by auto
next
  case (Cons jid js)
  from Cons.prems(5) obtain job where job: "jobs jid = Some job" "simple_job P E hy job" by auto
  define x where "x = 3 ^ length js * last_id ss"
  have "last_id ss \<le> x" by (simp add: x_def)
  moreover have x3: "2 * (3 * x) + 2 \<le> fuel" using Cons.prems(6) by (simp add: x_def)
  ultimately have "2 * last_id ss + 2 \<le> fuel" by linarith
  from schedule_job_simple [where jobs = jobs and jid = jid, OF Cons.prems(1-3) job this] obtain ss1 ids1 job1 where
    one: "schedule_job P fuel asg hy jst jid (E, [(''default'', ss)], jobs) =
       Inr (E, [(''default'', ss1)], jobs(jid \<mapsto> job1))"
    and ok1: "slot_set_ok E ss1 ids1 b e" "cache_ok ss1 ids1" "last_id ss1 \<le> 3 * last_id ss"
    and ch: "chosen P b job job1"
    and occ: "\<forall>t. occupies P job1 t \<subseteq> free_at P (slots_at (slots ss) ids) t"
    and free: "\<forall>t. free_at P (slots_at (slots ss1) ids1) t =
            free_at P (slots_at (slots ss) ids) t - occupies P job1 t" by blast
  have "3 ^ length js * last_id ss1 \<le> 3 * x"
    using mult_le_mono2 [OF ok1(3), of "3 ^ length js"] by (simp add: x_def)
  with x3 have fuel: "2 * (3 ^ length js * last_id ss1) + 2 \<le> fuel" by linarith
  have rest: "\<forall>i \<in> set js. \<exists>job. (jobs(jid \<mapsto> job1)) i = Some job \<and> simple_job P E hy job"
    using Cons.prems(4,5) by auto
  have "distinct js" using Cons.prems(4) by simp
  from Cons.IH [OF ok1(1) Cons.prems(2) ok1(2) this rest fuel] obtain ss' ids' jobs' where
    fold: "fold_res (schedule_job P fuel asg hy jst) js (E, [(''default'', ss1)], jobs(jid \<mapsto> job1)) =
       Inr (E, [(''default'', ss')], jobs')" "slot_set_ok E ss' ids' b e"
    and same: "\<forall>k. k \<notin> set js \<longrightarrow> jobs' k = (jobs(jid \<mapsto> job1)) k"
      "\<forall>i \<in> set js. \<exists>job'. jobs' i = Some job' \<and> chosen P b (the ((jobs(jid \<mapsto> job1)) i)) job'"
    and occ': "\<forall>i \<in> set js. \<forall>t. occupies P (the (jobs' i)) t \<subseteq> free_at P (slots_at (slots ss1) ids1) t"
    and dis: "\<forall>i \<in> set js. \<forall>j \<in> set js. i \<noteq> j \<longrightarrow>
        (\<forall>t. occupies P (the (jobs' i)) t \<inter> occupies P (the (jobs' j)) t = {})" by blast
  have j1: "jobs' jid = Some job1" using same(1) Cons.prems(4) by simp
  have "fold_res (schedule_job P fuel asg hy jst) (jid # js) (E, [(''default'', ss)], jobs) =
      Inr (E, [(''default'', ss')], jobs')" using one fold(1) by simp
  moreover have "\<forall>i \<in> set js. \<forall>t. occupies P (the (jobs' i)) t \<inter> occupies P job1 t = {}"
    using occ' free by blast
  note disj = this
  have "occupies P (the (jobs' i)) t \<subseteq> free_at P (slots_at (slots ss) ids) t"
    if "i \<in> set (jid # js)" for i t
  proof (cases "i = jid")
    case True
    with occ j1 show ?thesis by simp
  next
    case False
    with that occ' free have "occupies P (the (jobs' i)) t \<subseteq>
        free_at P (slots_at (slots ss) ids) t - occupies P job1 t" by (metis set_ConsD)
    then show ?thesis by blast
  qed
  moreover have "occupies P (the (jobs' i)) t \<inter> occupies P (the (jobs' k)) t = {}"
    if "i \<in> set (jid # js)" "k \<in> set (jid # js)" "i \<noteq> k" for i k t
    using that disj dis j1 by (metis Int_commute option.sel set_ConsD)
  moreover have "\<forall>i \<in> set js. \<exists>job'. jobs' i = Some job' \<and> chosen P b (the (jobs i)) job'"
    using same(2) Cons.prems(4) by (metis distinct.simps(2) fun_upd_other)
  hence "\<forall>k. k \<notin> set (jid # js) \<longrightarrow> jobs' k = jobs k"
      "\<forall>i \<in> set (jid # js). \<exists>job'. jobs' i = Some job' \<and> chosen P b (the (jobs i)) job'"
    using same(1) j1 ch job(1) by auto
  ultimately show ?case using fold(2) by blast
qed

end

section \<open>Properties\<close>

text \<open>
  C4. The assignment of a job is total and sound. For a job without timesharing, placeholder or
  function of its own, whose requests the platform can express, it raises nothing; it either
  finds no place, changes no slot and marks the job as not placed, or places the job: on a
  non-empty set of resources, for the walltime of one of its alternatives, not before the start
  that the dependencies allow, inside the slot set, on resources that were free during all of the
  walltime; afterwards the slots are again a contiguous chain in which exactly these resources
  are no longer free during the job.
\<close>

theorem assign_resources_sound:
  assumes "procset P" "slot_set_ok E ss ids b e" "e + 1 < 2 ^ 32 - 1" "plain_job E job"
    and "cache_ok ss ids" "job_request_ok P hy job"
    and "min_start < 0 \<or> (\<exists>i \<in> set ids. min_start \<le> slot_b (the (slots ss i)))"
    and "2 * last_id ss + 2 \<le> fuel"
  shows "\<exists>ss' job' lr.
     assign_resources_mld_job_split_slots P fuel E ss job hy min_start = Inr (E, ss', job', lr) \<and>
     (lr = None \<longrightarrow> slots ss' = slots ss \<and> start_time job' = - 1 \<and>
        res_set job' = Some (ps_empty P)) \<and>
     (lr \<noteq> None \<longrightarrow> (\<exists>ids' wt rs rqts.
        (moldable_id job', wt, rqts) \<in> set (mld_res_rqts job) \<and>
        walltime job' = Some wt \<and> res_set job' = Some rs \<and> elems P rs \<noteq> {} \<and>
        (min_start < 0 \<or> min_start \<le> start_time job') \<and>
        b \<le> start_time job' \<and> start_time job' + wt \<le> e + 1 \<and>
        (\<forall>t. start_time job' \<le> t \<and> t < start_time job' + wt \<longrightarrow>
           elems P rs \<subseteq> free_at P (slots_at (slots ss) ids) t) \<and>
        slot_set_ok E ss' ids' b e \<and>
        (\<forall>t. free_at P (slots_at (slots ss') ids') t =
           free_at P (slots_at (slots ss) ids) t -
           (if start_time job' \<le> t \<and> t < start_time job' + wt then elems P rs else {}))))"
proof -
  from procset.assign_spec [OF assms] obtain ss' job' lr where
    a: "assign_resources_mld_job_split_slots P fuel E ss job hy min_start = Inr (E, ss', job', lr)"
    and r: "case lr of
        None \<Rightarrow> same_slots ss ss' \<and> cache_ok ss' ids \<and>
          job' = job\<lparr>res_set := Some (ps_empty P), start_time := - 1, moldable_id := - 1\<rparr>
      | Some (l, r) \<Rightarrow> procset.assigned P E ss ids b e job min_start ss' job' l r" by blast
  show ?thesis
  proof (cases lr)
    case None
    with a r show ?thesis by (auto simp: same_slots_def)
  next
    case (Some x)
    then obtain l k where "lr = Some (l, k)" by (cases x) auto
    with r have "procset.assigned P E ss ids b e job min_start ss' job' l k" by simp
    then have "\<exists>ids' wt rs rqts.
        (moldable_id job', wt, rqts) \<in> set (mld_res_rqts job) \<and>
        walltime job' = Some wt \<and> res_set job' = Some rs \<and> elems P rs \<noteq> {} \<and>
        (min_start < 0 \<or> min_start \<le> start_time job') \<and>
        b \<le> start_time job' \<and> start_time job' + wt \<le> e + 1 \<and>
        (\<forall>t. start_time job' \<le> t \<and> t < start_time job' + wt \<longrightarrow>
           elems P rs \<subseteq> free_at P (slots_at (slots ss) ids) t) \<and>
        slot_set_ok E ss' ids' b e \<and>
        (\<forall>t. free_at P (slots_at (slots ss') ids') t =
           free_at P (slots_at (slots ss) ids) t -
           (if start_time job' \<le> t \<and> t < start_time job' + wt then elems P rs else {}))"
      unfolding procset.assigned_def [OF assms(1)] by blast
    with a \<open>lr = Some (l, k)\<close> show ?thesis by (intro exI [of _ ss'] exI [of _ job'] exI [of _ lr]) simp
  qed
qed

definition example_hierarchy :: "nat list hierarchy" where
  "example_hierarchy = [''resource_id'' \<mapsto> [[1],[2],[3],[4]]]"

definition waiting_job :: "int \<Rightarrow> int \<Rightarrow> nat list job" where
  "waiting_job n wt = (job_pseudo 1 0 0 [] False No_placeholder)\<lparr>
     walltime := None, res_set := None,
     mld_res_rqts := [(1, wt, [([(''resource_id'', n)], [1,2,3,4])])]\<rparr>"

lemma waiting_job_ok:
  assumes "n \<noteq> 0" "1 \<le> wt"
  shows "job_request_ok list_procset example_hierarchy (waiting_job n wt)"
    "plain_job example_sched (waiting_job n wt)"
  using assms
  by (simp_all add: job_request_ok_def rqts_ok_def waiting_job_def job_pseudo_def
      example_hierarchy_def lookup_res_def request_ok_def blocks_ok_def list_procset_def id_list_def
      plain_job_def example_sched_def)

theorem assign_resources_sound_witness:
  "\<exists>ss' job' lr. assign_resources_mld_job_split_slots list_procset 4 example_sched example_slots
       (waiting_job 2 60) example_hierarchy (- 1) = Inr (example_sched, ss', job', lr)"
proof -
  have "cache_ok example_slots [1]" "2 * last_id example_slots + 2 \<le> 4"
    by (simp_all add: cache_ok_def example_slots_def)
  from assign_resources_sound [OF list_ps.procset_axioms example_slots_ok _ waiting_job_ok(2) this(1)
      waiting_job_ok(1) _ this(2), of 2 60 "- 1"]
  show ?thesis by auto
qed

text \<open>
  C1. Jobs scheduled in one run never share a resource at an instant. For jobs as in C16, without
  dependencies, containers or inner jobs, \<open>schedule_id_jobs_ct\<close> raises nothing, every job keeps
  inside what was free at the beginning, and two different jobs use disjoint resources at every
  instant at which both run.
\<close>

theorem schedule_id_jobs_ct_disjoint:
  assumes "procset P" "slot_set_ok E ss ids b e" "e + 1 < 2 ^ 32 - 1" "cache_ok ss ids"
    and "distinct id_jobs" "\<forall>i \<in> set id_jobs. \<exists>job. jobs i = Some job \<and> simple_job P E hy job"
    and "2 * (3 ^ length id_jobs * last_id ss) + 2 \<le> fuel"
  shows "\<exists>ss' jobs'.
     schedule_id_jobs_ct P fuel asg E [(''default'', ss)] jobs hy id_jobs jst =
       Inr (E, [(''default'', ss')], jobs') \<and>
     (\<forall>i \<in> set id_jobs. \<forall>t. occupies P (the (jobs' i)) t \<subseteq> free_at P (slots_at (slots ss) ids) t) \<and>
     (\<forall>i \<in> set id_jobs. \<forall>j \<in> set id_jobs. i \<noteq> j \<longrightarrow>
        (\<forall>t. occupies P (the (jobs' i)) t \<inter> occupies P (the (jobs' j)) t = {}))"
  unfolding schedule_id_jobs_ct_def
  using procset.schedule_simple_jobs [OF assms, of asg jst] by blast

theorem schedule_id_jobs_ct_disjoint_witness:
  "\<exists>ss' jobs'. schedule_id_jobs_ct list_procset 20 (\<lambda>_ _ _ _ _. Inl NotImplementedError)
       example_sched [(''default'', example_slots)] [1 \<mapsto> waiting_job 2 60, 2 \<mapsto> waiting_job 3 60]
       example_hierarchy [1, 2] 0 = Inr (example_sched, [(''default'', ss')], jobs') \<and>
     (\<forall>t. occupies list_procset (the (jobs' 1)) t \<inter> occupies list_procset (the (jobs' 2)) t = {})"
proof -
  let ?jobs = "[1 \<mapsto> waiting_job 2 60, 2 \<mapsto> waiting_job 3 60] :: int \<rightharpoonup> nat list job"
  have jobs: "\<forall>i \<in> set [1, 2]. \<exists>job. ?jobs i = Some job \<and>
      simple_job list_procset example_sched example_hierarchy job"
    using waiting_job_ok [of 2 60] waiting_job_ok [of 3 60]
    by (simp add: simple_job_def) (simp add: waiting_job_def job_pseudo_def type_of_def)
  have cache: "cache_ok example_slots [1]"
    and fuel: "2 * (3 ^ length [1 :: int, 2] * last_id example_slots) + 2 \<le> 20"
    and bound: "(1000 :: int) + 1 < 2 ^ 32 - 1" and dist: "distinct [1 :: int, 2]"
    by (simp_all add: cache_ok_def example_slots_def)
  from schedule_id_jobs_ct_disjoint [OF list_ps.procset_axioms example_slots_ok bound cache dist jobs fuel,
      of "\<lambda>_ _ _ _ _. Inl NotImplementedError" 0]
  obtain ss' jobs' where
    s: "schedule_id_jobs_ct list_procset 20 (\<lambda>_ _ _ _ _. Inl NotImplementedError)
       example_sched [(''default'', example_slots)] ?jobs
       example_hierarchy [1, 2] 0 = Inr (example_sched, [(''default'', ss')], jobs')"
    and d: "\<forall>i \<in> set [1, 2]. \<forall>j \<in> set [1, 2]. i \<noteq> j \<longrightarrow>
        (\<forall>t. occupies list_procset (the (jobs' i)) t \<inter> occupies list_procset (the (jobs' j)) t = {})"
    by blast
  have "\<forall>t. occupies list_procset (the (jobs' 1)) t \<inter> occupies list_procset (the (jobs' 2)) t = {}"
    using d by simp
  with s show ?thesis by blast
qed

text \<open>
  An inner job whose container has no slot set stops the whole run with a \<open>KeyError\<close>; the
  message says that it is skipped for this round.
\<close>

theorem schedule_missing_slot_set:
  assumes "jobs jid = Some job" "check_deps jobs (deps job) (- 1) = Inr (Some t)"
    and "type_of job ''inner'' = Some name" "map_of sss name = None"
  shows "schedule_id_jobs_ct P fuel asg E sss jobs hy (jid # rest) jst = Inl KeyError"
  using assms
  by (simp add: schedule_id_jobs_ct_def schedule_job_def Let_def lookup_res_def)

theorem schedule_missing_slot_set_witness:
  "schedule_id_jobs_ct list_procset 20 (\<lambda>_ _ _ _ _. Inl NotImplementedError) example_sched
     [(''default'', example_slots)]
     [1 \<mapsto> (waiting_job 2 60)\<lparr>types := [(''inner'', ''7'')]\<rparr>, 2 \<mapsto> waiting_job 1 60]
     example_hierarchy [1, 2] 0 = Inl KeyError"
  by (rule schedule_missing_slot_set
      [of _ 1 "(waiting_job 2 60)\<lparr>types := [(''inner'', ''7'')]\<rparr>" "- 1" "''7''"])
    (simp_all add: waiting_job_def job_pseudo_def type_of_def)

text \<open>
  A container that finds no place, and a job that depends on a waiting job that found no
  place, stop the whole run with an \<open>AttributeError\<close>: the job that was not placed has no walltime.
\<close>

theorem schedule_unplaced_raises:
  "schedule_id_jobs_ct list_procset 20 (\<lambda>_ _ _ _ _. Inl NotImplementedError) example_sched
     [(''default'', example_slots)]
     [1 \<mapsto> (waiting_job 9 60)\<lparr>types := [(''container'', [])]\<rparr>]
     example_hierarchy [1] 0 = Inl AttributeError \<and>
   schedule_id_jobs_ct list_procset 20 (\<lambda>_ _ _ _ _. Inl NotImplementedError) example_sched
     [(''default'', example_slots)]
     [1 \<mapsto> waiting_job 9 60, 2 \<mapsto> (waiting_job 1 60)\<lparr>deps := [(1, ''Waiting'', 0)]\<rparr>]
     example_hierarchy [1, 2] 0 = Inl AttributeError"
proof -
  have "case schedule_id_jobs_ct list_procset 20 (\<lambda>_ _ _ _ _. Inl NotImplementedError) example_sched
     [(''default'', example_slots)]
     [1 \<mapsto> (waiting_job 9 60)\<lparr>types := [(''container'', [])]\<rparr>]
     example_hierarchy [1] 0 of Inl e \<Rightarrow> e = AttributeError | Inr _ \<Rightarrow> False"
    by code_simp
  moreover have "case schedule_id_jobs_ct list_procset 20 (\<lambda>_ _ _ _ _. Inl NotImplementedError) example_sched
     [(''default'', example_slots)]
     [1 \<mapsto> waiting_job 9 60, 2 \<mapsto> (waiting_job 1 60)\<lparr>deps := [(1, ''Waiting'', 0)]\<rparr>]
     example_hierarchy [1, 2] 0 of Inl e \<Rightarrow> e = AttributeError | Inr _ \<Rightarrow> False"
    by code_simp
  ultimately show ?thesis by (simp split: sum.splits)
qed

end
