(* ===== verification/Db.thy ===== *)
theory Db
  imports Tools
begin

text \<open>
  The database of OAR (\<open>oar/lib/models.py\<close>): one record per table row that the modelled code reads
  or writes, and one record \<open>db\<close> with a list of rows per table. The order of a list is the order
  of insertion. A query is a filter of the product of the tables it names, \<open>update\<close> is
  \<open>sql_update\<close>, \<open>delete\<close> is a filter, an insertion appends a row whose primary key is \<open>fresh_id\<close> of
  the keys in use.

  Beside the tables, \<open>db\<close> holds what the handlers observe or emit: the clock that \<open>get_date\<close> reads
  (it does not move during one handler), the configuration, the process environment, whether the
  engine is SQLite, and the messages sent to the other processes, in order.
\<close>

section \<open>Rows\<close>

text \<open>The columns of \<open>jobs\<close>; a nullable text column is an option.\<close>

record job_row =
  j_id :: int
  j_array_id :: int
  j_array_index :: int
  j_initial_request :: "string option"
  j_name :: "string option"
  j_env :: "string option"
  j_type :: string
  j_info_type :: "string option"
  j_state :: string
  j_reservation :: string
  j_message :: string
  j_scheduler_info :: string
  j_user :: string
  j_project :: string
  j_group :: string
  j_command :: "string option"
  j_exit_code :: "int option"
  j_queue_name :: string
  j_properties :: "string option"
  j_launching_directory :: string
  j_submission_time :: int
  j_start_time :: int
  j_stop_time :: int
  j_file_id :: "int option"
  j_accounted :: string
  j_notify :: "string option"
  j_assigned_moldable_job :: int
  j_checkpoint :: int
  j_checkpoint_signal :: int
  j_stdout_file :: "string option"
  j_stderr_file :: "string option"
  j_resubmit_job_id :: int
  j_suspended :: string

record moldable_row =
  m_id :: int
  m_job :: int
  m_walltime :: int
  m_index :: string

record assigned_row =
  a_mld :: int
  a_res :: int
  a_index :: string

record state_log_row =
  l_id :: int
  l_job :: int
  l_state :: string
  l_start :: int
  l_stop :: int

record type_row =
  ty_id :: int
  ty_job :: int
  ty_type :: string
  ty_index :: string

record dep_row =
  d_job :: int
  d_required :: int
  d_index :: string

record frag_row =
  f_job :: int
  f_date :: int
  f_state :: string

record event_row =
  e_id :: int
  e_type :: string
  e_job :: int
  e_date :: int
  e_description :: string
  e_to_check :: string

record event_host_row =
  eh_event :: int
  eh_host :: string

text \<open>
  A resource: the columns that the code reads by name and, in \<open>r_props\<close>, the others, among them the
  property columns that the administrator adds (\<open>Resource\<close> is reflected from the database).
\<close>

record resource_row =
  r_id :: int
  r_type :: string
  r_network_address :: string
  r_state :: string
  r_next_state :: string
  r_finaud_decision :: string
  r_next_finaud_decision :: string
  r_state_num :: int
  r_suspended_jobs :: string
  r_scheduler_priority :: int
  r_cpuset :: string
  r_expiry_date :: int
  r_desktop_computing :: string
  r_last_job_date :: int
  r_available_upto :: int
  r_last_available_upto :: int
  r_props :: "string \<Rightarrow> string"

record res_log_row =
  rl_id :: int
  rl_res :: int
  rl_attribute :: string
  rl_value :: string
  rl_start :: int
  rl_stop :: int
  rl_finaud_decision :: string

record queue_row =
  q_name :: string
  q_priority :: int
  q_policy :: string
  q_state :: string

record prediction_row =
  p_mld :: int
  p_start :: int

record gantt_res_row =
  g_mld :: int
  g_res :: int

record challenge_row =
  c_job :: int
  c_challenge :: string
  c_private_key :: string
  c_public_key :: string

record group_row =
  gr_id :: int
  gr_mld :: int
  gr_property :: "string option"
  gr_index :: string

record descr_row =
  de_group :: int
  de_type :: string
  de_value :: int
  de_order :: int
  de_index :: string

record walltime_row =
  w_job :: int
  w_pending :: int
  w_force :: string
  w_delay :: string
  w_granted :: int
  w_granted_force :: int
  w_granted_delay :: int

record accounting_row =
  ac_start :: int
  ac_stop :: int
  ac_user :: string
  ac_project :: string
  ac_queue :: string
  ac_type :: string
  ac_consumption :: int

section \<open>The database\<close>

datatype message =
    Almighty string
  | Almighty_job string int
  | Bipbip string int "string list"
  | Tcp_client string string
  | Signal_oarexec string int string
  | User_notification int string string
  | Mail string string
  | Hulot string "string list"

record db =
  db_now :: int
  db_sqlite :: bool
  db_config :: "string \<Rightarrow> string option"
  db_config_int :: "string \<Rightarrow> int option"
  db_environ :: "string \<Rightarrow> string option"
  db_outbox :: "message list"
  t_jobs :: "job_row list"
  t_moldables :: "moldable_row list"
  t_assigned :: "assigned_row list"
  t_state_logs :: "state_log_row list"
  t_types :: "type_row list"
  t_deps :: "dep_row list"
  t_frags :: "frag_row list"
  t_events :: "event_row list"
  t_event_hosts :: "event_host_row list"
  t_resources :: "resource_row list"
  t_res_logs :: "res_log_row list"
  t_queues :: "queue_row list"
  t_predictions :: "prediction_row list"
  t_gantt :: "gantt_res_row list"
  t_predictions_visu :: "prediction_row list"
  t_gantt_visu :: "gantt_res_row list"
  t_challenges :: "challenge_row list"
  t_groups :: "group_row list"
  t_descrs :: "descr_row list"
  t_walltimes :: "walltime_row list"
  t_accounting :: "accounting_row list"

text \<open>An empty database at date 0, for examples.\<close>

definition empty_db :: db where
  "empty_db = \<lparr>db_now = 0, db_sqlite = True, db_config = \<lambda>k. None, db_config_int = \<lambda>k. None,
     db_environ = \<lambda>k. None, db_outbox = [], t_jobs = [], t_moldables = [], t_assigned = [],
     t_state_logs = [], t_types = [], t_deps = [], t_frags = [], t_events = [],
     t_event_hosts = [], t_resources = [], t_res_logs = [], t_queues = [], t_predictions = [],
     t_gantt = [], t_predictions_visu = [], t_gantt_visu = [], t_challenges = [], t_groups = [],
     t_descrs = [], t_walltimes = [], t_accounting = []\<rparr>"

text \<open>A running job, for examples.\<close>

definition example_job_row :: job_row where
  "example_job_row = \<lparr>j_id = 1, j_array_id = 1, j_array_index = 1, j_initial_request = None,
     j_name = None, j_env = None, j_type = ''PASSIVE'', j_info_type = None, j_state = ''Running'',
     j_reservation = ''None'', j_message = '''', j_scheduler_info = '''', j_user = ''bob'',
     j_project = ''default'', j_group = '''', j_command = None, j_exit_code = None,
     j_queue_name = ''default'', j_properties = None, j_launching_directory = ''/'',
     j_submission_time = 10, j_start_time = 15, j_stop_time = 0, j_file_id = None,
     j_accounted = ''NO'', j_notify = None, j_assigned_moldable_job = 1, j_checkpoint = 0,
     j_checkpoint_signal = 0, j_stdout_file = None, j_stderr_file = None, j_resubmit_job_id = 0,
     j_suspended = ''NO''\<rparr>"

section \<open>Queries\<close>

definition sql_update :: "('r \<Rightarrow> bool) \<Rightarrow> ('r \<Rightarrow> 'r) \<Rightarrow> 'r list \<Rightarrow> 'r list" where
  "sql_update P f rows = map (\<lambda>r. if P r then f r else r) rows"

definition sql_count :: "('r \<Rightarrow> bool) \<Rightarrow> 'r list \<Rightarrow> int" where
  "sql_count P rows = int (length (filter P rows))"

text \<open>\<open>Query.one()\<close> and \<open>Query.one_or_none()\<close>.\<close>

fun sql_one :: "'r list \<Rightarrow> 'r res" where
  "sql_one [] = Inl NoResultFound"
| "sql_one [r] = Inr r"
| "sql_one (r # s # rows) = Inl MultipleResultsFound"

text \<open>The key that SQLite gives to a new row: one more than the largest in use.\<close>

definition fresh_id :: "int list \<Rightarrow> int" where
  "fresh_id ids = 1 + fold max ids 0"

definition get_date :: "db \<Rightarrow> int" where
  "get_date w = db_now w"

definition send :: "message \<Rightarrow> db \<Rightarrow> db" where
  "send msg w = w\<lparr>db_outbox := db_outbox w @ [msg]\<rparr>"

definition notify_almighty :: "string \<Rightarrow> db \<Rightarrow> db" where
  "notify_almighty cmd w = send (Almighty cmd) w"

text \<open>
  \<open>get_job\<close> answers \<open>None\<close> on any exception, so also when two rows have the id.
\<close>

definition get_job :: "db \<Rightarrow> int \<Rightarrow> job_row option" where
  "get_job w i = (case sql_one (filter (\<lambda>j. j_id j = i) (t_jobs w)) of
     Inl e \<Rightarrow> None | Inr j \<Rightarrow> Some j)"

text \<open>The user a command acts for, when its caller gives none.\<close>

definition calling_user :: "db \<Rightarrow> string option \<Rightarrow> string res" where
  "calling_user w u = (case u of
     Some name \<Rightarrow> if name \<noteq> '''' then Inr name else
       (case db_environ w ''OARDO_USER'' of Some d \<Rightarrow> Inr d | None \<Rightarrow>
         (case db_environ w ''USER'' of Some d \<Rightarrow> Inr d | None \<Rightarrow> Inl KeyError))
   | None \<Rightarrow>
       (case db_environ w ''OARDO_USER'' of Some d \<Rightarrow> Inr d | None \<Rightarrow>
         (case db_environ w ''USER'' of Some d \<Rightarrow> Inr d | None \<Rightarrow> Inl KeyError)))"

section \<open>Lemmas\<close>

lemma set_sql_update: "set (sql_update P f rows) = {if P r then f r else r | r. r \<in> set rows}"
  by (auto simp: sql_update_def)

lemma length_sql_update [simp]: "length (sql_update P f rows) = length rows"
  by (simp add: sql_update_def)

lemma sql_update_nil [simp]: "sql_update P f [] = []"
  by (simp add: sql_update_def)

lemma map_sql_update: "(\<And>r. P r \<Longrightarrow> k (f r) = k r) \<Longrightarrow> map k (sql_update P f rows) = map k rows"
  by (auto simp: sql_update_def)

lemma sql_update_none: "(\<And>r. r \<in> set rows \<Longrightarrow> \<not> P r) \<Longrightarrow> sql_update P f rows = rows"
  by (auto simp: sql_update_def intro: map_idI)

lemma filter_sql_update:
  "(\<And>r. P r \<Longrightarrow> Q (f r) = Q r) \<Longrightarrow>
   filter Q (sql_update P f rows) = sql_update P f (filter Q rows)"
  by (induction rows) (auto simp: sql_update_def)

lemma filter_sql_update_away:
  "(\<And>r. P r \<Longrightarrow> \<not> Q (f r)) \<Longrightarrow> (\<And>r. Q r \<Longrightarrow> P r) \<Longrightarrow> filter Q (sql_update P f rows) = []"
  by (induction rows) (auto simp: sql_update_def)

lemma fold_max_ge: "i \<le> fold max (ids :: int list) i \<and> (\<forall>k \<in> set ids. k \<le> fold max ids i)"
proof (induction ids arbitrary: i)
  case (Cons a ids)
  from Cons.IH [of "max a i"] show ?case by auto
qed simp

lemma fresh_id_fresh [simp]: "fresh_id ids \<notin> set ids"
proof
  assume "fresh_id ids \<in> set ids"
  with fold_max_ge [of 0 ids] have "fresh_id ids \<le> fold max ids 0" by blast
  thus False by (simp add: fresh_id_def)
qed

lemma fresh_id_pos: "0 < fresh_id ids"
  using fold_max_ge [of 0 ids] by (simp add: fresh_id_def)

lemma fresh_id_gt: "k \<in> set ids \<Longrightarrow> k < fresh_id ids"
  using fold_max_ge [of 0 ids] by (auto simp: fresh_id_def)

lemma sql_one_eq_Inr [res_simps]: "sql_one rows = Inr r \<longleftrightarrow> rows = [r]"
  by (cases rows rule: sql_one.cases) auto

lemma get_job_Some: "get_job w i = Some j \<longleftrightarrow> filter (\<lambda>j. j_id j = i) (t_jobs w) = [j]"
  by (auto simp: get_job_def sql_one_eq_Inr split: sum.splits)

lemma get_job_in:
  assumes "get_job w i = Some j"
  shows "j \<in> set (t_jobs w) \<and> j_id j = i"
proof -
  from assms have "set (filter (\<lambda>j. j_id j = i) (t_jobs w)) = {j}" by (simp add: get_job_Some)
  hence "j \<in> set (filter (\<lambda>j. j_id j = i) (t_jobs w))" by simp
  thus ?thesis by simp
qed

lemma distinct_filter_key:
  "distinct (map k xs) \<Longrightarrow> x \<in> set xs \<Longrightarrow> filter (\<lambda>y. k y = k x) xs = [x]"
  by (induction xs) (auto simp: filter_empty_conv image_iff)

lemma filter_key_cases:
  assumes "distinct (map k xs)"
  obtains "filter (\<lambda>x. k x = c) xs = []" "c \<notin> k ` set xs"
    | x where "filter (\<lambda>x. k x = c) xs = [x]" "k x = c" "x \<in> set xs"
proof (cases "c \<in> k ` set xs")
  case True
  then obtain x where x: "x \<in> set xs" "k x = c" by auto
  with distinct_filter_key [OF assms, of x] that(2) [of x] show ?thesis by auto
next
  case False
  with that(1) show ?thesis by (auto simp: filter_empty_conv)
qed

lemma get_job_distinct:
  "distinct (map j_id (t_jobs w)) \<Longrightarrow> j \<in> set (t_jobs w) \<Longrightarrow> get_job w (j_id j) = Some j"
  by (simp add: get_job_Some distinct_filter_key)

lemma get_job_outbox [simp]: "get_job (w\<lparr>db_outbox := x\<rparr>) i = get_job w i"
  by (simp add: get_job_def)

lemma send_simps [simp]:
  "t_jobs (send m w) = t_jobs w" "t_state_logs (send m w) = t_state_logs w"
  "t_frags (send m w) = t_frags w" "t_events (send m w) = t_events w"
  "t_assigned (send m w) = t_assigned w" "t_resources (send m w) = t_resources w"
  "t_moldables (send m w) = t_moldables w" "t_types (send m w) = t_types w"
  "t_queues (send m w) = t_queues w" "t_res_logs (send m w) = t_res_logs w"
  "db_now (send m w) = db_now w" "db_config (send m w) = db_config w"
  "db_config_int (send m w) = db_config_int w" "db_environ (send m w) = db_environ w"
  "db_sqlite (send m w) = db_sqlite w" "t_event_hosts (send m w) = t_event_hosts w"
  by (simp_all add: send_def)

end
