(* ===== verification/Events.thy ===== *)
theory Events
  imports Db
begin

text \<open>
  The event log (\<open>oar/lib/event.py\<close>) and the queues (\<open>oar/lib/queue.py\<close>). Events are how the
  modules of OAR talk to each other across processes: a command or a launcher adds an event, and
  the node-change-state module reads those still to check and turns them off by type and job.

  The lemmas give the effect of an insertion on the queries, the frame of each operation, and the
  exact grouping of the queues.
\<close>

section \<open>oar/lib/event.py\<close>

text \<open>
  \<open>add_new_event\<close> writes \<open>to_check="YES"\<close> whatever its parameter says.
\<close>

definition add_new_event :: "string \<Rightarrow> int \<Rightarrow> string \<Rightarrow> string \<Rightarrow> db \<Rightarrow> db" where
  "add_new_event ev_type jid description to_check w =
     w\<lparr>t_events := t_events w @
        [\<lparr>e_id = fresh_id (map e_id (t_events w)), e_type = ev_type, e_job = jid,
          e_date = get_date w, e_description = take 255 description, e_to_check = ''YES''\<rparr>]\<rparr>"

definition add_new_event_with_host :: "string \<Rightarrow> int \<Rightarrow> string \<Rightarrow> string list \<Rightarrow> db \<Rightarrow> db" where
  "add_new_event_with_host ev_type jid description hostnames w =
     (let eid = fresh_id (map e_id (t_events w)) in
      w\<lparr>t_events := t_events w @
          [\<lparr>e_id = eid, e_type = ev_type, e_job = jid, e_date = get_date w,
            e_description = take 255 description, e_to_check = ''YES''\<rparr>],
        t_event_hosts := t_event_hosts w @
          map (\<lambda>h. \<lparr>eh_event = eid, eh_host = h\<rparr>) (remdups hostnames)\<rparr>)"

definition is_an_event_exists :: "int \<Rightarrow> string \<Rightarrow> db \<Rightarrow> int" where
  "is_an_event_exists jid event w = sql_count (\<lambda>e. e_job e = jid \<and> e_type e = event) (t_events w)"

definition get_job_events :: "int \<Rightarrow> db \<Rightarrow> event_row list" where
  "get_job_events jid w = sort_key e_date (filter (\<lambda>e. e_job e = jid) (t_events w))"

definition get_jobs_events :: "int list \<Rightarrow> db \<Rightarrow> event_row list" where
  "get_jobs_events jids w =
     sort_key e_job (sort_key e_date (filter (\<lambda>e. e_job e \<in> set jids) (t_events w)))"

definition get_to_check_events :: "db \<Rightarrow> event_row list" where
  "get_to_check_events w = sort_key e_id (filter (\<lambda>e. e_to_check e = ''YES'') (t_events w))"

definition check_event :: "string \<Rightarrow> int \<Rightarrow> db \<Rightarrow> db" where
  "check_event event_type jid w =
     w\<lparr>t_events := sql_update
         (\<lambda>e. e_job e = jid \<and> e_type e = event_type \<and> e_to_check e = ''YES'')
         (\<lambda>e. e\<lparr>e_to_check := ''NO''\<rparr>) (t_events w)\<rparr>"

definition get_hostname_event :: "int \<Rightarrow> db \<Rightarrow> string list" where
  "get_hostname_event event_id w =
     map eh_host (filter (\<lambda>h. eh_event h = event_id) (t_event_hosts w))"

text \<open>The date is given as the epoch that \<open>sql_to_local\<close> makes of it.\<close>

definition get_events_for_hostname_from :: "string \<Rightarrow> int option \<Rightarrow> db \<Rightarrow> event_row list" where
  "get_events_for_hostname_from host date w =
     (let joined = map fst (filter (\<lambda>(e, h). eh_event h = e_id e \<and> eh_host h = host)
                              (List.product (t_events w) (t_event_hosts w))) in
      case date of
        Some d \<Rightarrow> sort_key (\<lambda>e. - e_date e) (filter (\<lambda>e. d \<le> e_date e) joined)
      | None \<Rightarrow> take 30 (sort_key (\<lambda>e. - e_date e) joined))"

section \<open>oar/lib/queue.py\<close>

definition get_all_queue_by_priority :: "db \<Rightarrow> queue_row list" where
  "get_all_queue_by_priority w = sort_key (\<lambda>q. - q_priority q) (t_queues w)"

text \<open>\<open>itertools.groupby\<close>: the maximal runs of equal keys.\<close>

function groupby :: "('a \<Rightarrow> 'k) \<Rightarrow> 'a list \<Rightarrow> 'a list list" where
  "groupby k [] = []"
| "groupby k (x # xs) =
     (x # takeWhile (\<lambda>y. k y = k x) xs) # groupby k (dropWhile (\<lambda>y. k y = k x) xs)"
  by pat_completeness auto
termination
  by (relation "measure (\<lambda>(k, xs). length xs)") (auto simp: le_imp_less_Suc length_dropWhile_le)

definition get_queues_groupby_priority :: "db \<Rightarrow> queue_row list list" where
  "get_queues_groupby_priority w = groupby q_priority (sort_key q_priority (t_queues w))"

definition stop_queue :: "string \<Rightarrow> db \<Rightarrow> db" where
  "stop_queue name w =
     w\<lparr>t_queues := sql_update (\<lambda>q. q_name q = name) (\<lambda>q. q\<lparr>q_state := ''notActive''\<rparr>) (t_queues w)\<rparr>"

definition start_queue :: "string \<Rightarrow> db \<Rightarrow> db" where
  "start_queue name w =
     w\<lparr>t_queues := sql_update (\<lambda>q. q_name q = name) (\<lambda>q. q\<lparr>q_state := ''Active''\<rparr>) (t_queues w)\<rparr>"

definition stop_all_queues :: "db \<Rightarrow> db" where
  "stop_all_queues w =
     w\<lparr>t_queues := sql_update (\<lambda>q. True) (\<lambda>q. q\<lparr>q_state := ''notActive''\<rparr>) (t_queues w)\<rparr>"

definition start_all_queues :: "db \<Rightarrow> db" where
  "start_all_queues w =
     w\<lparr>t_queues := sql_update (\<lambda>q. True) (\<lambda>q. q\<lparr>q_state := ''Active''\<rparr>) (t_queues w)\<rparr>"

definition create_queue :: "string \<Rightarrow> int \<Rightarrow> string \<Rightarrow> db \<Rightarrow> db" where
  "create_queue name priority policy w =
     w\<lparr>t_queues := t_queues w @
        [\<lparr>q_name = name, q_priority = priority, q_policy = policy, q_state = ''Active''\<rparr>]\<rparr>"

definition change_queue :: "string \<Rightarrow> int \<Rightarrow> string \<Rightarrow> db \<Rightarrow> db" where
  "change_queue name priority policy w =
     w\<lparr>t_queues := sql_update (\<lambda>q. q_name q = name)
        (\<lambda>q. q\<lparr>q_priority := priority, q_policy := policy\<rparr>) (t_queues w)\<rparr>"

definition remove_queue :: "string \<Rightarrow> db \<Rightarrow> db" where
  "remove_queue name w = w\<lparr>t_queues := filter (\<lambda>q. q_name q \<noteq> name) (t_queues w)\<rparr>"

section \<open>Lemmas\<close>

text \<open>An event operation touches the event tables only.\<close>

lemma add_new_event_frame [simp]:
  "t_jobs (add_new_event t i d c w) = t_jobs w"
  "t_state_logs (add_new_event t i d c w) = t_state_logs w"
  "t_frags (add_new_event t i d c w) = t_frags w"
  "t_assigned (add_new_event t i d c w) = t_assigned w"
  "t_moldables (add_new_event t i d c w) = t_moldables w"
  "t_types (add_new_event t i d c w) = t_types w"
  "t_resources (add_new_event t i d c w) = t_resources w"
  "t_queues (add_new_event t i d c w) = t_queues w"
  "t_res_logs (add_new_event t i d c w) = t_res_logs w"
  "t_walltimes (add_new_event t i d c w) = t_walltimes w"
  "db_now (add_new_event t i d c w) = db_now w"
  "db_config (add_new_event t i d c w) = db_config w"
  "db_config_int (add_new_event t i d c w) = db_config_int w"
  "db_environ (add_new_event t i d c w) = db_environ w"
  "db_sqlite (add_new_event t i d c w) = db_sqlite w"
  "db_outbox (add_new_event t i d c w) = db_outbox w"
  by (simp_all add: add_new_event_def)

lemma add_new_event_with_host_frame [simp]:
  "t_jobs (add_new_event_with_host t i d c w) = t_jobs w"
  "t_state_logs (add_new_event_with_host t i d c w) = t_state_logs w"
  "t_frags (add_new_event_with_host t i d c w) = t_frags w"
  "t_assigned (add_new_event_with_host t i d c w) = t_assigned w"
  "t_moldables (add_new_event_with_host t i d c w) = t_moldables w"
  "t_types (add_new_event_with_host t i d c w) = t_types w"
  "t_resources (add_new_event_with_host t i d c w) = t_resources w"
  "t_queues (add_new_event_with_host t i d c w) = t_queues w"
  "t_res_logs (add_new_event_with_host t i d c w) = t_res_logs w"
  "db_now (add_new_event_with_host t i d c w) = db_now w"
  "db_config (add_new_event_with_host t i d c w) = db_config w"
  "db_config_int (add_new_event_with_host t i d c w) = db_config_int w"
  "db_environ (add_new_event_with_host t i d c w) = db_environ w"
  "db_sqlite (add_new_event_with_host t i d c w) = db_sqlite w"
  "db_outbox (add_new_event_with_host t i d c w) = db_outbox w"
  by (simp_all add: add_new_event_with_host_def Let_def)

lemma check_event_frame [simp]:
  "t_jobs (check_event t i w) = t_jobs w"
  "t_state_logs (check_event t i w) = t_state_logs w"
  "t_frags (check_event t i w) = t_frags w"
  "t_resources (check_event t i w) = t_resources w"
  "db_now (check_event t i w) = db_now w"
  "db_config (check_event t i w) = db_config w"
  "db_environ (check_event t i w) = db_environ w"
  by (simp_all add: check_event_def)

lemma get_job_add_new_event [simp]: "get_job (add_new_event t i d c w) k = get_job w k"
  "get_job (add_new_event_with_host t i d hs w) k = get_job w k"
  by (simp_all add: get_job_def)

lemma is_an_event_exists_add:
  "is_an_event_exists j t (add_new_event t' i d c w) =
     is_an_event_exists j t w + (if i = j \<and> t' = t then 1 else 0)"
  by (simp add: is_an_event_exists_def add_new_event_def sql_count_def)

lemma check_event_to_check:
  "get_to_check_events (check_event t i w) =
     filter (\<lambda>e. \<not> (e_job e = i \<and> e_type e = t)) (get_to_check_events w)"
proof -
  have "filter (\<lambda>e. e_to_check e = ''YES'')
          (sql_update (\<lambda>e. e_job e = i \<and> e_type e = t \<and> e_to_check e = ''YES'')
             (\<lambda>e. e\<lparr>e_to_check := ''NO''\<rparr>) rows) =
        filter (\<lambda>e. \<not> (e_job e = i \<and> e_type e = t)) (filter (\<lambda>e. e_to_check e = ''YES'') rows)"
    for rows :: "event_row list" by (induction rows) (simp_all add: sql_update_def)
  thus ?thesis
    unfolding get_to_check_events_def check_event_def filter_sort by simp
qed

lemma groupby_concat: "concat (groupby k xs) = xs"
proof (induction k xs rule: groupby.induct)
  case (2 k x xs)
  have "takeWhile (\<lambda>y. k y = k x) xs @ dropWhile (\<lambda>y. k y = k x) xs = xs"
    by (rule takeWhile_dropWhile_id)
  with 2 show ?case by (simp del: takeWhile_dropWhile_id)
qed simp

lemma groupby_runs: "g \<in> set (groupby k xs) \<Longrightarrow> g \<noteq> [] \<and> (\<forall>x \<in> set g. k x = k (hd g))"
proof (induction k xs rule: groupby.induct)
  case (2 k x xs)
  show ?case
  proof (cases "g = x # takeWhile (\<lambda>y. k y = k x) xs")
    case True
    have "k z = k x" if "z \<in> set g" for z
    proof -
      from that True consider "z = x" | "z \<in> set (takeWhile (\<lambda>y. k y = k x) xs)" by auto
      thus ?thesis
      proof cases
        case 2
        from set_takeWhileD [OF this] show ?thesis by (rule conjunct2)
      qed simp
    qed
    moreover have "hd g = x" and "g \<noteq> []" using True by simp_all
    ultimately show ?thesis by blast
  next
    case False
    with 2(2) have "g \<in> set (groupby k (dropWhile (\<lambda>y. k y = k x) xs))" by simp
    thus ?thesis by (rule 2(1))
  qed
qed simp

lemma groupby_heads_in: "g \<in> set (groupby k xs) \<Longrightarrow> hd g \<in> set xs"
proof (induction k xs rule: groupby.induct)
  case (2 k x xs)
  show ?case
  proof (cases "g = x # takeWhile (\<lambda>y. k y = k x) xs")
    case False
    with 2 have "hd g \<in> set (dropWhile (\<lambda>y. k y = k x) xs)" by simp
    hence "hd g \<in> set xs" by (rule set_dropWhileD)
    thus ?thesis by simp
  qed simp
qed simp

lemma sorted_dropWhile_gt:
  fixes k :: "'a \<Rightarrow> 'b :: linorder"
  assumes "sorted (map k (x # xs))" and "y \<in> set (dropWhile (\<lambda>y. k y = k x) xs)"
  shows "k x < k y"
  using assms by (induction xs) (auto split: if_splits)

lemma groupby_sorted:
  fixes k :: "'a \<Rightarrow> 'b :: linorder"
  assumes "sorted (map k xs)"
  shows "sorted_wrt (<) (map (\<lambda>g. k (hd g)) (groupby k xs))"
  using assms
proof (induction k xs rule: groupby.induct)
  case (2 k x xs)
  have "sorted (map k (dropWhile (\<lambda>y. k y = k x) xs))"
    using 2(2) by (metis dropWhile_eq_drop drop_map list.simps(9) sorted_wrt.simps(2) sorted_wrt_drop)
  moreover have "k x < k (hd g)" if "g \<in> set (groupby k (dropWhile (\<lambda>y. k y = k x) xs))" for g
    using sorted_dropWhile_gt [OF 2(2)] groupby_heads_in [OF that] by blast
  ultimately show ?case using 2(1) by simp
qed simp

section \<open>Properties\<close>

text \<open>
  \<open>get_queues_groupby_priority\<close> partitions the queues: concatenated, the groups are the queues in
  ascending order of priority, each group holds the queues of one priority, and the priorities of
  the groups increase strictly. The lowest priority comes first, where the docstring promises
  the highest.
\<close>

theorem queues_groupby_priority_ascending:
  "concat (get_queues_groupby_priority w) = sort_key q_priority (t_queues w) \<and>
   sorted_wrt (<) (map (\<lambda>g. q_priority (hd g)) (get_queues_groupby_priority w)) \<and>
   list_all (\<lambda>g. g \<noteq> [] \<and> list_all (\<lambda>q. q_priority q = q_priority (hd g)) g)
     (get_queues_groupby_priority w)"
  by (auto simp: get_queues_groupby_priority_def groupby_concat list_all_iff dest: groupby_runs
      intro: groupby_sorted)

text \<open>
  The check of an event takes exactly the events of that job and type off the list of events to
  check: the others stay, in order.
\<close>

theorem check_event_exact:
  "get_to_check_events (check_event t i w) =
     filter (\<lambda>e. \<not> (e_job e = i \<and> e_type e = t)) (get_to_check_events w)"
  by (rule check_event_to_check)

end
