(* ===== verification/Resources_Db.thy ===== *)
theory Resources_Db
  imports Events
begin

text \<open>
  The resources of the database: \<open>oar/lib/resource_handling.py\<close> and \<open>oar/lib/node.py\<close>. A node is the
  set of resources that share a network address. Every change of state closes the open row of
  \<open>resource_logs\<close> for that resource and attribute and opens a new one.

  \<open>State_to_num\<close> is a Python dictionary: a state outside it is a \<open>KeyError\<close>, so the operations that
  write a state return a result. \<open>res_attr\<close> is \<open>getattr(Resource, f)\<close> on one row; a property that is
  not a fixed column is read in \<open>r_props\<close>.
\<close>

section \<open>oar/lib/resource_handling.py\<close>

definition state_to_num :: "string \<Rightarrow> int res" where
  "state_to_num s = (if s = ''Alive'' then Inr 1 else if s = ''Absent'' then Inr 2
     else if s = ''Suspected'' then Inr 3 else if s = ''Dead'' then Inr 4 else Inl KeyError)"

definition default_resource :: resource_row where
  "default_resource = \<lparr>r_id = 0, r_type = ''default'', r_network_address = '''', r_state = ''Alive'',
     r_next_state = ''UnChanged'', r_finaud_decision = ''NO'', r_next_finaud_decision = ''NO'',
     r_state_num = 0, r_suspended_jobs = ''NO'', r_scheduler_priority = 0, r_cpuset = ''0'',
     r_expiry_date = 0, r_desktop_computing = ''NO'', r_last_job_date = 0,
     r_available_upto = 2147483647, r_last_available_upto = 0, r_props = \<lambda>p. ''''\<rparr>"

definition res_log :: "db \<Rightarrow> int \<Rightarrow> string \<Rightarrow> string \<Rightarrow> int \<Rightarrow> string \<Rightarrow> res_log_row" where
  "res_log w r attribute val start fin =
     \<lparr>rl_id = fresh_id (map rl_id (t_res_logs w)), rl_res = r, rl_attribute = attribute, rl_value = val,
      rl_start = start, rl_stop = 0, rl_finaud_decision = fin\<rparr>"

definition add_resource :: "string \<Rightarrow> string \<Rightarrow> db \<Rightarrow> (int \<times> db) res" where
  "add_resource name state w =
     res_bind (state_to_num state) (\<lambda>num.
       let r = fresh_id (map r_id (t_resources w)) in
       Inr (r, w\<lparr>t_resources := t_resources w @
                   [default_resource\<lparr>r_id := r, r_network_address := name, r_state := state,
                      r_state_num := num\<rparr>],
                 t_res_logs := t_res_logs w @ [res_log w r ''state'' state (get_date w) ''NO'']\<rparr>))"

definition get_resource :: "int \<Rightarrow> db \<Rightarrow> resource_row res" where
  "get_resource r w = sql_one (filter (\<lambda>x. r_id x = r) (t_resources w))"

definition get_resources_from_ids :: "int list \<Rightarrow> db \<Rightarrow> resource_row list" where
  "get_resources_from_ids ids w = sort_key r_id (filter (\<lambda>x. r_id x \<in> set ids) (t_resources w))"

definition close_state_logs :: "(int \<Rightarrow> bool) \<Rightarrow> db \<Rightarrow> db" where
  "close_state_logs P w =
     w\<lparr>t_res_logs := sql_update (\<lambda>l. rl_stop l = 0 \<and> rl_attribute l = ''state'' \<and> P (rl_res l))
                       (\<lambda>l. l\<lparr>rl_stop := get_date w\<rparr>) (t_res_logs w)\<rparr>"

definition set_resource_state :: "int \<Rightarrow> string \<Rightarrow> string \<Rightarrow> db \<Rightarrow> db res" where
  "set_resource_state r state fin w =
     res_bind (state_to_num state) (\<lambda>num.
       let w1 = w\<lparr>t_resources := sql_update (\<lambda>x. r_id x = r)
                    (\<lambda>x. x\<lparr>r_state := state, r_finaud_decision := fin, r_state_num := num\<rparr>)
                    (t_resources w)\<rparr>;
           w2 = close_state_logs (\<lambda>k. k = r) w1 in
       Inr (w2\<lparr>t_res_logs := t_res_logs w2 @ [res_log w2 r ''state'' state (get_date w2) fin]\<rparr>))"

definition set_resource_nextState :: "int \<Rightarrow> string \<Rightarrow> db \<Rightarrow> db" where
  "set_resource_nextState r next_state w =
     w\<lparr>t_resources := sql_update (\<lambda>x. r_id x = r)
         (\<lambda>x. x\<lparr>r_next_state := next_state, r_next_finaud_decision := ''NO''\<rparr>) (t_resources w)\<rparr>"

definition set_resources_nextState :: "int list \<Rightarrow> string \<Rightarrow> db \<Rightarrow> int \<times> db" where
  "set_resources_nextState rs next_state w =
     (sql_count (\<lambda>x. r_id x \<in> set rs) (t_resources w),
      w\<lparr>t_resources := sql_update (\<lambda>x. r_id x \<in> set rs)
         (\<lambda>x. x\<lparr>r_next_state := next_state, r_next_finaud_decision := ''NO''\<rparr>) (t_resources w)\<rparr>)"

definition remove_resource_job :: "int \<times> int \<Rightarrow> db \<Rightarrow> db" where
  "remove_resource_job job_mod w =
     (case job_mod of (jid, mid) \<Rightarrow>
       w\<lparr>t_events := filter (\<lambda>e. e_job e \<noteq> jid) (t_events w),
         t_frags := filter (\<lambda>f. f_job f \<noteq> jid) (t_frags w),
         t_jobs := filter (\<lambda>j. j_id j \<noteq> jid) (t_jobs w),
         t_assigned := filter (\<lambda>a. a_mld a \<noteq> mid) (t_assigned w)\<rparr>)"

text \<open>The exit code and the message of \<open>remove_resource\<close>, with the database it leaves.\<close>

definition remove_resource :: "int \<Rightarrow> string option \<Rightarrow> db \<Rightarrow> ((int \<times> string option) \<times> db) res" where
  "remove_resource r user w =
     res_bind (calling_user w user) (\<lambda>u.
       if u \<noteq> ''oar'' \<and> u \<noteq> ''root'' then
         Inr ((4, Some ''Only the oar or root users can delete resources''), w)
       else res_bind (get_resource r w) (\<lambda>res.
         if r_state res = ''Dead'' then
           let joined = [(j_id j, j_assigned_moldable_job j).
                          a \<leftarrow> t_assigned w, j \<leftarrow> t_jobs w,
                          a_res a = r \<and> a_mld a = j_assigned_moldable_job j];
               w1 = fold remove_resource_job joined w in
           Inr ((0, None),
             w1\<lparr>t_assigned := filter (\<lambda>a. a_res a \<noteq> r) (t_assigned w1),
                t_res_logs := filter (\<lambda>l. rl_res l \<noteq> r) (t_res_logs w1),
                t_resources := filter (\<lambda>x. r_id x \<noteq> r) (t_resources w1)\<rparr>)
         else Inr ((3, Some ''Resource must be in DEAD state.''), w)))"

definition get_current_resources_with_suspended_job :: "db \<Rightarrow> int list" where
  "get_current_resources_with_suspended_job w =
     [a_res a. a \<leftarrow> t_assigned w, j \<leftarrow> t_jobs w,
       a_index a = ''CURRENT'' \<and> j_state j = ''Suspended'' \<and> j_assigned_moldable_job j = a_mld a]"

definition get_current_assigned_job_resources :: "int \<Rightarrow> db \<Rightarrow> resource_row list" where
  "get_current_assigned_job_resources mid w =
     [r. a \<leftarrow> t_assigned w, r \<leftarrow> t_resources w,
       a_index a = ''CURRENT'' \<and> a_mld a = mid \<and> r_id r = a_res a]"

definition get_resources_change_state :: "db \<Rightarrow> (int \<times> string) list" where
  "get_resources_change_state w =
     map (\<lambda>r. (r_id r, r_next_state r)) (filter (\<lambda>r. r_next_state r \<noteq> ''UnChanged'') (t_resources w))"

definition get_expired_resources :: "db \<Rightarrow> int list" where
  "get_expired_resources w =
     map r_id (filter (\<lambda>r. r_state r = ''Alive'' \<and> 0 < r_expiry_date r \<and>
       r_desktop_computing r = ''YES'' \<and> r_expiry_date r < get_date w) (t_resources w))"

text \<open>
  The query keeps every resource whose current state is old, whatever that state is, unlike its
  name says.
\<close>

definition get_absent_suspected_resources_for_a_timeout :: "int \<Rightarrow> db \<Rightarrow> int list" where
  "get_absent_suspected_resources_for_a_timeout timeout w =
     map rl_res (filter (\<lambda>l. rl_attribute l = ''state'' \<and> rl_stop l = 0 \<and>
       rl_start l + timeout < get_date w) (t_res_logs w))"

definition update_resource_nextFinaudDecision :: "int \<Rightarrow> string \<Rightarrow> db \<Rightarrow> db" where
  "update_resource_nextFinaudDecision r fin w =
     w\<lparr>t_resources := sql_update (\<lambda>x. r_id x = r) (\<lambda>x. x\<lparr>r_next_finaud_decision := fin\<rparr>)
         (t_resources w)\<rparr>"

definition assigned_to :: "int \<Rightarrow> db \<Rightarrow> int list" where
  "assigned_to mid w = map a_res (filter (\<lambda>a. a_mld a = mid) (t_assigned w))"

definition update_scheduler_last_job_date :: "int \<Rightarrow> int \<Rightarrow> db \<Rightarrow> db" where
  "update_scheduler_last_job_date date mid w =
     w\<lparr>t_resources := sql_update (\<lambda>r. r_id r \<in> set (assigned_to mid w))
         (\<lambda>r. r\<lparr>r_last_job_date := date\<rparr>) (t_resources w)\<rparr>"

definition res_attr :: "string \<Rightarrow> resource_row \<Rightarrow> string" where
  "res_attr f r = (if f = ''id'' then int_str (r_id r)
     else if f = ''network_address'' then r_network_address r
     else if f = ''type'' then r_type r
     else if f = ''cpuset'' then r_cpuset r else r_props r f)"

text \<open>\<open>get_job_types\<close>: the three shapes of a type, by the two regular expressions of the code.\<close>

datatype type_value = Type_token string string | Type_value string | Type_flag

definition word_char :: "char \<Rightarrow> bool" where
  "word_char c \<longleftrightarrow> c \<in> set ''abcdefghijklmnopqrstuvwxyzABCDEFGHIJKLMNOPQRSTUVWXYZ0123456789_''"

definition skip_space :: "string \<Rightarrow> string" where
  "skip_space s = dropWhile is_space s"

text \<open>\<open>^\s*(\w+)\s*=\s*(.+)$\<close>: the value keeps its trailing spaces and may not be empty.\<close>

definition match_key_value :: "string \<Rightarrow> (string \<times> string) option" where
  "match_key_value s =
     (let s1 = skip_space s; k = takeWhile word_char s1;
          s2 = skip_space (dropWhile word_char s1) in
      case s2 of [] \<Rightarrow> None
      | c # s3 \<Rightarrow> if k \<noteq> '''' \<and> c = CHR ''='' \<and> s3 \<noteq> '''' then
          (let v = skip_space s3 in Some (k, if v = '''' then [last s3] else v)) else None)"

text \<open>\<open>^\s*(token)\s*\:\s*(\w+)\s*=\s*(\d+)\s*$\<close>\<close>

definition match_token :: "string \<Rightarrow> (string \<times> string) option" where
  "match_token s =
     (let s1 = skip_space s in
      if take 5 s1 = ''token'' then
        (case skip_space (drop 5 s1) of [] \<Rightarrow> None
         | c # s2 \<Rightarrow> if c = CHR '':'' then
             (case match_key_value s2 of None \<Rightarrow> None
              | Some (k, v) \<Rightarrow>
                 (let d = takeWhile is_digit v in
                  if d \<noteq> '''' \<and> skip_space (dropWhile is_digit v) = '''' then Some (k, d) else None))
           else None)
      else None)"

definition job_type_entry :: "string \<Rightarrow> string \<times> type_value" where
  "job_type_entry s = (case match_token s of
     Some (k, d) \<Rightarrow> (''token'', Type_token k d)
   | None \<Rightarrow> (case match_key_value s of Some (k, v) \<Rightarrow> (k, Type_value v) | None \<Rightarrow> (s, Type_flag)))"

text \<open>A dictionary built row by row: the last row of a key wins.\<close>

definition get_job_types :: "int \<Rightarrow> db \<Rightarrow> (string \<times> type_value) list" where
  "get_job_types jid w =
     fold (\<lambda>(k, v) d. AList.update k v d)
       (map (\<lambda>t. job_type_entry (ty_type t)) (filter (\<lambda>t. ty_job t = jid) (t_types w))) []"

definition has_job_type :: "string \<Rightarrow> (string \<times> type_value) list \<Rightarrow> bool" where
  "has_job_type k d \<longleftrightarrow> k \<in> set (map fst d)"

section \<open>The scheduling priority of resources\<close>

text \<open>
  One level of \<open>SCHEDULER_PRIORITY_HIERARCHY_ORDER\<close> at a time; the flag is false when the code
  returned because no resource is assigned.
\<close>

fun priority_levels :: "string list \<Rightarrow> int \<Rightarrow> int \<Rightarrow> int \<Rightarrow> int \<Rightarrow> db \<Rightarrow> db \<times> bool" where
  "priority_levels [] index incr coeff mid w = (w, True)"
| "priority_levels (g # gs) index incr coeff mid w =
     (if g = '''' then priority_levels gs index incr coeff mid w
      else
        let f = (if g = ''resource_id'' then ''id'' else g);
            resources = remdups [res_attr f r. a \<leftarrow> t_assigned w, r \<leftarrow> t_resources w,
               a_index a = ''CURRENT'' \<and> a_mld a = mid \<and> a_res a = r_id r] in
        if resources = [] then (w, False)
        else priority_levels gs (index + 1) incr coeff mid
          (w\<lparr>t_resources := sql_update (\<lambda>r. res_attr f r \<in> set resources)
              (\<lambda>r. r\<lparr>r_scheduler_priority := incr * (index + 1) * coeff\<rparr>) (t_resources w)\<rparr>))"

definition update_current_scheduler_priority :: "job_row \<Rightarrow> int \<Rightarrow> string \<Rightarrow> db \<Rightarrow> db" where
  "update_current_scheduler_priority job incr state w =
     (case db_config w ''SCHEDULER_PRIORITY_HIERARCHY_ORDER'' of None \<Rightarrow> w
      | Some sched_priority \<Rightarrow>
        let jt = get_job_types (j_id job) w;
            started = is_an_event_exists (j_id job) ''SCHEDULER_PRIORITY_UPDATED_START'' w in
        if (has_job_type ''besteffort'' jt \<or> has_job_type ''timesharing'' jt) \<and>
           (state = ''START'' \<and> started \<le> 0 \<or> state = ''STOP'' \<and> started > 0) then
          let coeff = (if has_job_type ''besteffort'' jt \<and> \<not> has_job_type ''timesharing'' jt
                       then 10 else 1);
              (w1, completed) = priority_levels (split_on (CHR ''/'') sched_priority) 0 incr coeff
                                 (j_assigned_moldable_job job) w in
          if completed then
            add_new_event (''SCHEDULER_PRIORITY_UPDATED_'' @ state) (j_id job)
              (''Scheduler priority for job '' @ int_str (j_id job) @ ''updated ('' @ sched_priority @
               '')'') ''YES'' w1
          else w1
        else w)"

section \<open>Queries on resources\<close>

definition cosystem_jobs :: "db \<Rightarrow> int list" where
  "cosystem_jobs w = map ty_job (filter (\<lambda>t. (ty_type t = ''cosystem'' \<or> ty_type t = ''noop'') \<and>
     ty_index t = ''CURRENT'') (t_types w))"

definition get_resource_job_to_frag :: "int \<Rightarrow> db \<Rightarrow> int list" where
  "get_resource_job_to_frag r w =
     sort [j_id j. a \<leftarrow> t_assigned w, m \<leftarrow> t_moldables w, j \<leftarrow> t_jobs w,
       a_index a = ''CURRENT'' \<and> m_index m = ''CURRENT'' \<and> a_res a = r \<and> a_mld a = m_id m \<and>
       m_job m = j_id j \<and> j_state j \<noteq> ''Terminated'' \<and> j_state j \<noteq> ''Error'' \<and>
       j_id j \<notin> set (cosystem_jobs w)]"

definition log_resource_maintenance_event :: "int \<Rightarrow> string \<Rightarrow> int \<Rightarrow> db \<Rightarrow> db" where
  "log_resource_maintenance_event r maintenance date w =
     (if maintenance = ''on'' then
        w\<lparr>t_res_logs := t_res_logs w @ [res_log w r ''maintenance'' maintenance date ''NO'']\<rparr>
      else
        w\<lparr>t_res_logs := sql_update
            (\<lambda>l. rl_stop l = 0 \<and> rl_attribute l = ''maintenance'' \<and> rl_res l = r)
            (\<lambda>l. l\<lparr>rl_stop := date\<rparr>) (t_res_logs w)\<rparr>)"

definition get_resources_state :: "int list \<Rightarrow> db \<Rightarrow> (int \<times> string) list" where
  "get_resources_state ids w =
     map (\<lambda>r. (r_id r, if r_state r = ''Absent'' \<and> get_date w \<le> r_available_upto r then ''Standby''
                       else r_state r))
       (sort_key r_id (filter (\<lambda>r. r_id r \<in> set ids) (t_resources w)))"

definition get_count_busy_resources :: "db \<Rightarrow> int" where
  "get_count_busy_resources w =
     (let active = map j_assigned_moldable_job (filter (\<lambda>j.
            j_state j \<in> set [''toLaunch'', ''Running'', ''Resuming'']) (t_jobs w)) in
      int (length (remdups (map a_res (filter (\<lambda>a. a_mld a \<in> set active) (t_assigned w))))))"

text \<open>\<open>range(nb_nodes * nb_core * vfactor)\<close>, one resource at a time.\<close>

definition resources_creation :: "string \<Rightarrow> int \<Rightarrow> int \<Rightarrow> int \<Rightarrow> db \<Rightarrow> db" where
  "resources_creation node_name nb_nodes nb_core vfactor w =
     fold (\<lambda>i w. w\<lparr>t_resources := t_resources w @
         [default_resource\<lparr>r_id := fresh_id (map r_id (t_resources w)),
            r_network_address := node_name @ int_str (i div (nb_core * vfactor) + 1),
            r_cpuset := int_str (i mod nb_core), r_state := ''Alive''\<rparr>]\<rparr>)
       (map int [0..<nat (nb_nodes * nb_core * vfactor)]) w"

end
