(* ===== verification/Resource_Set.thy ===== *)
theory Resource_Set
  imports Resources_Db Procset_Spec
begin

text \<open>
  The resources as the schedulers number them (\<open>oar/lib/resource.py\<close>, and the constructor of
  \<open>Hierarchy\<close> in \<open>oar/lib/hierarchy.py\<close>): the constructor of \<open>ResourceSet\<close> reads the table in the
  order of the configuration and gives the resource at position \<open>n\<close> the number \<open>n\<close>, its \<open>roid\<close>. Only the
  \<open>Alive\<close> and \<open>Absent\<close> resources enter the sets, the hierarchy and the two arrays; an array entry that
  was never written is 0.

  \<open>order\<close> stands for the \<open>ORDER BY\<close> clause, which is a text of the configuration.
\<close>

section \<open>The constructor\<close>

record 'p resource_set =
  rs_nb_all :: int
  rs_nb_not_dead :: int
  rs_nb_default_not_dead :: int
  rs_nb :: int
  rs_nb_default :: int
  rs_i2o :: "int \<Rightarrow> int"
  rs_o2i :: "int \<Rightarrow> int"
  rs_network_address :: "(nat \<times> string) list"
  rs_hierarchy :: "(string \<times> 'p list) list"
  rs_available_upto :: "(int \<times> 'p) list"
  rs_roid_itvs :: 'p
  rs_suspendable_roid_itvs :: 'p
  rs_default_itvs :: 'p

definition MAX_NB_RESOURCES :: int where "MAX_NB_RESOURCES = 100000"

text \<open>The place of an index in one of the two arrays; a negative one counts from the end.\<close>

definition array_index :: "int \<Rightarrow> int res" where
  "array_index i =
     (if 0 \<le> i \<and> i < MAX_NB_RESOURCES then Inr i
      else if - MAX_NB_RESOURCES \<le> i \<and> i < 0 then Inr (MAX_NB_RESOURCES + i) else Inl IndexError)"

definition array_get :: "(int \<Rightarrow> int) \<Rightarrow> int \<Rightarrow> int res" where
  "array_get a i = res_bind (array_index i) (\<lambda>k. Inr (a k))"

definition array_set :: "(int \<Rightarrow> int) \<Rightarrow> int \<Rightarrow> int \<Rightarrow> (int \<Rightarrow> int) res" where
  "array_set a i v = res_bind (array_index i) (\<lambda>k. Inr (a(k := v)))"

text \<open>What the loop over the resources fills.\<close>

record res_build =
  b_nb_all :: int
  b_nb_not_dead :: int
  b_nb_default_not_dead :: int
  b_nb :: int
  b_nb_default :: int
  b_i2o :: "int \<Rightarrow> int"
  b_o2i :: "int \<Rightarrow> int"
  b_network_address :: "(nat \<times> string) list"
  b_hy :: "(string \<times> (string \<times> nat list) list) list"
  b_available_upto :: "(int \<times> nat list) list"
  b_roids :: "nat list"
  b_default_rids :: "int list"
  b_suspendable :: "nat list"

text \<open>\<open>d[k].append(x)\<close> when the key is there, \<open>d[k] = [x]\<close> otherwise.\<close>

definition dict_append :: "'k \<Rightarrow> 'v \<Rightarrow> ('k \<times> 'v list) list \<Rightarrow> ('k \<times> 'v list) list" where
  "dict_append k x d = (case map_of d k of
     Some xs \<Rightarrow> AList.update k (xs @ [x]) d | None \<Rightarrow> d @ [(k, [x])])"

definition hy_append :: "resource_row \<Rightarrow> nat \<Rightarrow> string \<Rightarrow> (string \<times> (string \<times> nat list) list) list \<Rightarrow>
    (string \<times> (string \<times> nat list) list) list" where
  "hy_append r roid label hy =
     AList.update label (dict_append (res_attr label r) roid (the (map_of hy label))) hy"

definition usable :: "resource_row \<Rightarrow> bool" where
  "usable r \<longleftrightarrow> r_state r = ''Alive'' \<or> r_state r = ''Absent''"

text \<open>One usable resource. \<open>self.nb_resources += 0\<close> and \<open>self.nb_resources_default = +1\<close> are the code's.\<close>

definition add_usable :: "string list \<Rightarrow> string list \<Rightarrow> nat \<Rightarrow> resource_row \<Rightarrow> res_build \<Rightarrow> res_build res" where
  "add_usable labels suspend_types roid r b =
     res_bind (array_set (b_i2o b) (r_id r) (int roid)) (\<lambda>i2o.
     res_bind (array_set (b_o2i b) (int roid) (r_id r)) (\<lambda>o2i.
     Inr (b\<lparr>b_nb := b_nb b + 0,
            b_roids := b_roids b @ [roid],
            b_default_rids := (if r_type r = ''default'' then b_default_rids b @ [r_id r] else b_default_rids b),
            b_nb_default := (if r_type r = ''default'' then 1 else b_nb_default b),
            b_i2o := i2o, b_o2i := o2i,
            b_hy := fold (hy_append r roid) labels (b_hy b),
            b_available_upto := dict_append (r_available_upto r) roid (b_available_upto b),
            b_suspendable := (if r_type r \<in> set suspend_types then b_suspendable b @ [roid]
                              else b_suspendable b)\<rparr>)))"

definition add_resource_row ::
    "string list \<Rightarrow> string list \<Rightarrow> nat \<times> resource_row \<Rightarrow> res_build \<Rightarrow> res_build res" where
  "add_resource_row labels suspend_types x b = (case x of (roid, r) \<Rightarrow>
     let b1 = b\<lparr>b_nb_all := b_nb_all b + 1,
                b_nb_not_dead := b_nb_not_dead b + (if r_state r \<noteq> ''Dead'' then 1 else 0),
                b_nb_default_not_dead := b_nb_default_not_dead b +
                  (if r_state r \<noteq> ''Dead'' \<and> r_type r = ''default'' then 1 else 0)\<rparr> in
     res_bind (if usable r then add_usable labels suspend_types roid r b1 else Inr b1) (\<lambda>b2.
       Inr (b2\<lparr>b_network_address := b_network_address b2 @ [(roid, r_network_address r)]\<rparr>)))"

definition config_or :: "string \<Rightarrow> string \<Rightarrow> db \<Rightarrow> string" where
  "config_or k d w = (case db_config w k of None \<Rightarrow> d | Some v \<Rightarrow> v)"

definition hy_labels :: "db \<Rightarrow> string list" where
  "hy_labels w = map (\<lambda>v. if v = ''resource_id'' then ''id'' else v)
     (split_on (CHR '','') (config_or ''HIERARCHY_LABELS'' ''resource_id,network_address'' w))"

text \<open>\<open>hy_roid["resource_id"] = hy_roid["id"]; del hy_roid["id"]\<close>\<close>

definition rename_id :: "(string \<times> 'v) list \<Rightarrow> (string \<times> 'v) list" where
  "rename_id hy = (case map_of hy ''id'' of
     None \<Rightarrow> hy
   | Some v \<Rightarrow> AList.delete ''id'' (AList.update ''resource_id'' v hy))"

text \<open>\<open>Hierarchy(hy_rid=hy_roid).hy\<close>; an empty dictionary is no description.\<close>

definition hierarchy_of :: "'p procset_ops \<Rightarrow> (string \<times> (string \<times> nat list) list) list \<Rightarrow>
    (string \<times> 'p list) list res" where
  "hierarchy_of P hy_rid =
     (if hy_rid \<noteq> [] then Inr (map (\<lambda>(label, level). (label, map (\<lambda>(k, ids). ps_of_ids P ids) level)) hy_rid)
      else Inl Raised_exception)"

definition empty_build :: "string list \<Rightarrow> res_build" where
  "empty_build labels = \<lparr>b_nb_all = 0, b_nb_not_dead = 0, b_nb_default_not_dead = 0, b_nb = 0,
     b_nb_default = 0, b_i2o = (\<lambda>i. 0), b_o2i = (\<lambda>i. 0), b_network_address = [],
     b_hy = map (\<lambda>l. (l, [])) (remdups labels), b_available_upto = [], b_roids = [], b_default_rids = [],
     b_suspendable = []\<rparr>"

definition build_resource_set :: "'p procset_ops \<Rightarrow> res_build \<Rightarrow> 'p resource_set res" where
  "build_resource_set P b =
     res_bind (hierarchy_of P (rename_id (b_hy b))) (\<lambda>hy.
     res_bind (map_res (array_get (b_i2o b)) (b_default_rids b)) (\<lambda>default_roids.
     Inr \<lparr>rs_nb_all = b_nb_all b, rs_nb_not_dead = b_nb_not_dead b,
          rs_nb_default_not_dead = b_nb_default_not_dead b, rs_nb = b_nb b, rs_nb_default = b_nb_default b,
          rs_i2o = b_i2o b, rs_o2i = b_o2i b, rs_network_address = b_network_address b,
          rs_hierarchy = hy,
          rs_available_upto = map (\<lambda>(k, v). (k, ps_of_ids P v)) (b_available_upto b),
          rs_roid_itvs = ps_of_ids P (b_roids b),
          rs_suspendable_roid_itvs = ps_of_ids P (b_suspendable b),
          rs_default_itvs = ps_of_ids P (map nat default_roids)\<rparr>))"

definition resource_set_of ::
    "'p procset_ops \<Rightarrow> (resource_row list \<Rightarrow> resource_row list) \<Rightarrow> db \<Rightarrow> 'p resource_set res" where
  "resource_set_of P order w =
     (let suspend_types = py_split (config_or ''SCHEDULER_AVAILABLE_SUSPENDED_RESOURCE_TYPE'' ''default'' w);
          labels = hy_labels w in
      res_bind (fold_res (add_resource_row labels suspend_types) (enumerate 0 (order (t_resources w)))
                  (empty_build labels))
        (build_resource_set P))"

section \<open>Lemmas\<close>

lemma fold_res_append: "fold_res f (xs @ ys) s = res_bind (fold_res f xs s) (fold_res f ys)"
proof (induction xs arbitrary: s)
  case (Cons x xs)
  thus ?case by (cases "f x s") simp_all
qed simp

lemma map_of_dict_append:
  "map_of (dict_append k x d) = (map_of d)(k \<mapsto> (case map_of d k of None \<Rightarrow> [x] | Some xs \<Rightarrow> xs @ [x]))"
proof (cases "map_of d k")
  case None
  thus ?thesis by (auto simp: dict_append_def map_add_def split: option.splits)
next
  case (Some xs)
  thus ?thesis by (simp add: dict_append_def update_conv')
qed

lemma distinct_dict_append: "distinct (map fst d) \<Longrightarrow> distinct (map fst (dict_append k x d))"
  by (auto simp: dict_append_def distinct_update map_of_eq_None_iff split: option.splits)

lemma keys_fold_hy_append: "map fst (fold (hy_append r n) ls hy) = map fst hy"
  if "set ls \<subseteq> set (map fst hy)"
  using that
proof (induction ls arbitrary: hy)
  case (Cons l ls)
  hence "map fst (hy_append r n l hy) = map fst hy"
    by (auto simp: hy_append_def update_keys)
  moreover from this have "set ls \<subseteq> set (map fst (hy_append r n l hy))" using Cons.prems by simp
  ultimately show ?case using Cons.IH [of "hy_append r n l hy"] by simp
qed simp

lemma map_of_fold_hy_append:
  assumes "distinct ls" "set ls \<subseteq> set (map fst hy)"
  shows "map_of (fold (hy_append r n) ls hy) l =
    (if l \<in> set ls then map_option (dict_append (res_attr l r) n) (map_of hy l) else map_of hy l)"
  using assms
proof (induction ls arbitrary: hy)
  case (Cons a ls)
  have keys: "map fst (hy_append r n a hy) = map fst hy"
    using Cons.prems by (auto simp: hy_append_def update_keys)
  have "a \<in> dom (map_of hy)" using Cons.prems by (simp add: dom_map_of_conv_image_fst)
  then obtain lev where "map_of hy a = Some lev" by auto
  hence "map_of (hy_append r n a hy) = (map_of hy)(a \<mapsto> dict_append (res_attr a r) n lev)"
    by (simp add: hy_append_def update_conv')
  moreover have "set ls \<subseteq> set (map fst (hy_append r n a hy))" using Cons.prems by (simp add: keys)
  ultimately show ?case using Cons \<open>map_of hy a = Some lev\<close> by auto
qed simp

text \<open>The places of the usable resources, and what one level of the hierarchy says about them.\<close>

definition usable_at :: "resource_row list \<Rightarrow> nat set" where
  "usable_at rows = {n. n < length rows \<and> usable (rows ! n)}"

definition at_key :: "string \<Rightarrow> resource_row list \<Rightarrow> string \<Rightarrow> nat set" where
  "at_key label rows k = {n \<in> usable_at rows. res_attr label (rows ! n) = k}"

definition level_ok :: "string \<Rightarrow> resource_row list \<Rightarrow> (string \<times> nat list) list \<Rightarrow> bool" where
  "level_ok label rows level \<longleftrightarrow> distinct (map fst level) \<and>
     (\<forall>k. case map_of level k of None \<Rightarrow> at_key label rows k = {}
      | Some ids \<Rightarrow> ids \<noteq> [] \<and> set ids = at_key label rows k)"

definition build_ok :: "string list \<Rightarrow> resource_row list \<Rightarrow> res_build \<Rightarrow> bool" where
  "build_ok labels rows b \<longleftrightarrow>
     set (b_roids b) = usable_at rows \<and>
     (\<forall>n \<in> usable_at rows. b_i2o b (r_id (rows ! n)) = int n \<and> b_o2i b (int n) = r_id (rows ! n)) \<and>
     map fst (b_hy b) = labels \<and>
     (\<forall>label \<in> set labels. \<exists>level. map_of (b_hy b) label = Some level \<and> level_ok label rows level) \<and>
     set (b_default_rids b) \<subseteq> r_id ` set rows"

lemma usable_at_snoc:
  "usable_at (rows @ [r]) = usable_at rows \<union> (if usable r then {length rows} else {})"
  by (auto simp: usable_at_def nth_append)

lemma nth_usable [simp]: "n \<in> usable_at rows \<Longrightarrow> (rows @ [r]) ! n = rows ! n"
  by (simp add: usable_at_def nth_append)

lemma usable_at_less: "n \<in> usable_at rows \<Longrightarrow> n < length rows \<and> rows ! n \<in> set rows"
  by (simp add: usable_at_def)

lemma at_key_snoc:
  "at_key label (rows @ [r]) k =
     at_key label rows k \<union> (if usable r \<and> res_attr label r = k then {length rows} else {})"
  by (auto simp: at_key_def usable_at_snoc)

lemma level_ok_snoc:
  assumes "level_ok label rows level" and "usable r"
  shows "level_ok label (rows @ [r]) (dict_append (res_attr label r) (length rows) level)"
  unfolding level_ok_def map_of_dict_append at_key_snoc
proof (intro conjI allI)
  from assms show "distinct (map fst (dict_append (res_attr label r) (length rows) level))"
    by (simp add: level_ok_def distinct_dict_append)
next
  fix k
  from assms have "case map_of level k of None \<Rightarrow> at_key label rows k = {}
      | Some ids \<Rightarrow> ids \<noteq> [] \<and> set ids = at_key label rows k" by (simp add: level_ok_def)
  with assms(2) show "case ((map_of level)(res_attr label r \<mapsto> (case map_of level (res_attr label r) of
        None \<Rightarrow> [length rows] | Some xs \<Rightarrow> xs @ [length rows]))) k of
      None \<Rightarrow> at_key label rows k \<union> (if usable r \<and> res_attr label r = k then {length rows} else {}) = {}
    | Some ids \<Rightarrow> ids \<noteq> [] \<and> set ids =
        at_key label rows k \<union> (if usable r \<and> res_attr label r = k then {length rows} else {})"
    by (cases "k = res_attr label r"; cases "map_of level k") auto
qed

lemma level_ok_unusable: "\<not> usable r \<Longrightarrow> level_ok label (rows @ [r]) level = level_ok label rows level"
  unfolding level_ok_def at_key_snoc by (simp cong: option.case_cong)

definition rows_ok :: "resource_row list \<Rightarrow> bool" where
  "rows_ok rows \<longleftrightarrow> distinct (map r_id rows) \<and> (\<forall>r \<in> set rows. 0 \<le> r_id r \<and> r_id r < MAX_NB_RESOURCES) \<and>
     int (length rows) \<le> MAX_NB_RESOURCES"

lemma array_set_in: "0 \<le> i \<Longrightarrow> i < MAX_NB_RESOURCES \<Longrightarrow> array_set a i v = Inr (a(i := v))"
  by (simp add: array_set_def array_index_def)

lemma add_resource_row_ok:
  assumes "build_ok labels rows b" "rows_ok (rows @ [r])" "distinct labels"
  shows "\<exists>b'. add_resource_row labels suspend (length rows, r) b = Inr b' \<and> build_ok labels (rows @ [r]) b'"
proof (cases "usable r")
  case False
  with assms show ?thesis
    by (auto simp: add_resource_row_def Let_def build_ok_def usable_at_snoc level_ok_unusable)
next
  case True
  from assms(2) have r: "0 \<le> r_id r" "r_id r < MAX_NB_RESOURCES" "int (length rows) < MAX_NB_RESOURCES"
    "r_id r \<notin> r_id ` set rows"
    by (auto simp: rows_ok_def)
  obtain b' where run: "add_resource_row labels suspend (length rows, r) b = Inr b'"
    and b': "b_roids b' = b_roids b @ [length rows]" "b_i2o b' = (b_i2o b)(r_id r := int (length rows))"
      "b_o2i b' = (b_o2i b)(int (length rows) := r_id r)" "b_hy b' = fold (hy_append r (length rows)) labels (b_hy b)"
      "set (b_default_rids b') \<subseteq> insert (r_id r) (set (b_default_rids b))"
  proof (cases "add_resource_row labels suspend (length rows, r) b")
    case (Inl e)
    with True r show thesis by (simp add: add_resource_row_def add_usable_def array_set_in Let_def)
  next
    case (Inr b')
    with True r show thesis
      by (intro that [OF Inr])
        (auto simp: add_resource_row_def add_usable_def array_set_in Let_def split: if_splits)
  qed
  have keys: "map fst (b_hy b) = labels" using assms(1) by (simp add: build_ok_def)
  have "map fst (b_hy b') = labels" using keys by (simp add: b' keys_fold_hy_append)
  moreover have "\<exists>level. map_of (b_hy b') label = Some level \<and> level_ok label (rows @ [r]) level"
    if label: "label \<in> set labels" for label
  proof -
    from assms(1) label obtain level where "map_of (b_hy b) label = Some level" "level_ok label rows level"
      by (auto simp: build_ok_def)
    thus ?thesis
      using label keys assms(3) True by (auto simp: b' map_of_fold_hy_append level_ok_snoc)
  qed
  moreover have "b_i2o b' (r_id ((rows @ [r]) ! n)) = int n \<and> b_o2i b' (int n) = r_id ((rows @ [r]) ! n)"
    if n: "n \<in> usable_at (rows @ [r])" for n
  proof (cases "n = length rows")
    case False
    with n have m: "n \<in> usable_at rows" by (auto simp: usable_at_snoc split: if_splits)
    hence "r_id (rows ! n) \<noteq> r_id r" using r(4) usable_at_less [OF m] by (metis imageI)
    with False m assms(1) show ?thesis by (auto simp: b' build_ok_def)
  qed (simp add: b')
  moreover have "set (b_default_rids b') \<subseteq> r_id ` set (rows @ [r])"
    using assms(1) b'(5) by (auto simp: build_ok_def)
  ultimately have "build_ok labels (rows @ [r]) b'"
    using assms(1) True by (auto simp: build_ok_def b'(1) usable_at_snoc)
  with run show ?thesis by blast
qed

lemma fold_resource_rows_ok:
  assumes "rows_ok rows" "distinct labels"
  shows "\<exists>b. fold_res (add_resource_row labels suspend) (enumerate 0 rows) (empty_build labels) = Inr b \<and>
    build_ok labels rows b"
  using assms(1)
proof (induction rows rule: rev_induct)
  case Nil
  have "map_of (map (\<lambda>l. (l, [])) labels) l = (if l \<in> set labels then Some [] else None)" for l
    by (induction labels) auto
  moreover have "level_ok label [] []" for label
    by (simp add: level_ok_def at_key_def usable_at_def)
  ultimately have "\<forall>label \<in> set labels. \<exists>level. map_of (map (\<lambda>l. (l, [])) labels) label = Some level \<and>
      level_ok label [] level" by (metis (no_types))
  thus ?case using assms(2)
    by (simp add: build_ok_def empty_build_def usable_at_def distinct_remdups_id o_def)
next
  case (snoc r rows)
  hence "rows_ok rows" by (auto simp: rows_ok_def)
  with snoc obtain b where b: "fold_res (add_resource_row labels suspend) (enumerate 0 rows) (empty_build labels) = Inr b"
    "build_ok labels rows b" by blast
  from add_resource_row_ok [OF b(2) snoc.prems assms(2), of suspend] obtain b'
    where "add_resource_row labels suspend (length rows, r) b = Inr b'" "build_ok labels (rows @ [r]) b'" by blast
  with b(1) show ?case by (simp add: enumerate_append_eq fold_res_append)
qed

text \<open>A hierarchy level: non-empty blocks, apart from each other, that cover the usable resources.\<close>

definition partitions :: "'p procset_ops \<Rightarrow> 'p list \<Rightarrow> nat set \<Rightarrow> bool" where
  "partitions P blocks ns \<longleftrightarrow> (\<Union>b \<in> set blocks. elems P b) = ns \<and>
     (\<forall>b \<in> set blocks. elems P b \<noteq> {}) \<and>
     (\<forall>i < length blocks. \<forall>j < length blocks. i \<noteq> j \<longrightarrow> elems P (blocks ! i) \<inter> elems P (blocks ! j) = {})"

context procset
begin

lemma level_partitions:
  assumes "level_ok label rows level"
  shows "partitions P (map (\<lambda>(k, ids). ps_of_ids P ids) level) (usable_at rows)"
proof -
  let ?blocks = "map (\<lambda>x. ps_of_ids P (snd x)) level"
  from assms have dist: "distinct (map fst level)" by (simp add: level_ok_def)
  have member: "ids \<noteq> [] \<and> set ids = at_key label rows k" if "(k, ids) \<in> set level" for k ids
  proof -
    from that dist have "map_of level k = Some ids" by simp
    moreover from assms have "case map_of level k of None \<Rightarrow> at_key label rows k = {}
        | Some ids \<Rightarrow> ids \<noteq> [] \<and> set ids = at_key label rows k" unfolding level_ok_def by blast
    ultimately show ?thesis by simp
  qed
  have covered: "\<exists>ids. (res_attr label (rows ! n), ids) \<in> set level \<and> n \<in> set ids" if "n \<in> usable_at rows" for n
  proof -
    let ?k = "res_attr label (rows ! n)"
    from that have "n \<in> at_key label rows ?k" by (simp add: at_key_def)
    moreover from assms have "case map_of level ?k of None \<Rightarrow> at_key label rows ?k = {}
        | Some ids \<Rightarrow> ids \<noteq> [] \<and> set ids = at_key label rows ?k" unfolding level_ok_def by blast
    ultimately obtain ids where "map_of level ?k = Some ids" "n \<in> set ids"
      by (auto split: option.splits)
    thus ?thesis using map_of_SomeD by fastforce
  qed
  have nth: "elems P (?blocks ! i) = at_key label rows (fst (level ! i))" if "i < length level" for i
    using that member [of "fst (level ! i)" "snd (level ! i)"] by simp
  have "elems P (?blocks ! i) \<inter> elems P (?blocks ! j) = {}"
    if "i < length level" "j < length level" "i \<noteq> j" for i j
  proof -
    have "fst (level ! i) \<noteq> fst (level ! j)" using dist that by (auto simp: distinct_conv_nth)
    thus ?thesis unfolding nth [OF that(1)] nth [OF that(2)] by (auto simp: at_key_def)
  qed
  moreover have "(\<Union>b \<in> set ?blocks. elems P b) = usable_at rows"
    using covered member by (fastforce simp: at_key_def)
  moreover have "\<forall>b \<in> set ?blocks. elems P b \<noteq> {}" using member by (auto simp del: set_empty)
  ultimately have "partitions P ?blocks (usable_at rows)" unfolding partitions_def by simp
  thus ?thesis by (simp add: case_prod_beta')
qed

end

lemma map_of_rename_id:
  assumes "distinct (map fst hy)" "''resource_id'' \<notin> set (map fst hy)"
  shows "(l, v) \<in> set (rename_id hy) \<longleftrightarrow>
    (if l = ''resource_id'' then (''id'', v) \<in> set hy else l \<noteq> ''id'' \<and> (l, v) \<in> set hy)"
proof (cases "map_of hy ''id''")
  case None
  hence "''id'' \<notin> fst ` set hy" by (simp add: map_of_eq_None_iff)
  with None assms show ?thesis by (force simp: rename_id_def)
next
  case (Some x)
  hence "(''id'', v) \<in> set hy \<longleftrightarrow> v = x"
    using assms(1) eq_key_imp_eq_value map_of_SomeD by metis
  moreover have "distinct (map fst (AList.delete ''id'' (AList.update ''resource_id'' x hy)))"
    using assms(1) by (simp add: distinct_update distinct_delete)
  hence "(l, v) \<in> set (AList.delete ''id'' (AList.update ''resource_id'' x hy)) \<longleftrightarrow>
      map_of (AList.delete ''id'' (AList.update ''resource_id'' x hy)) l = Some v" by simp
  moreover have "map_of hy l = Some v \<longleftrightarrow> (l, v) \<in> set hy" using assms(1) by simp
  ultimately show ?thesis using Some
    by (auto simp: rename_id_def delete_conv' update_conv' simp del: map_of_eq_Some_iff)
qed

lemma split_on_nonempty [simp]: "split_on c s \<noteq> []"
  by (induction s) (auto split: list.splits)

lemma hy_labels_id: "''resource_id'' \<notin> set (hy_labels w)" "hy_labels w \<noteq> []"
  by (auto simp: hy_labels_def)

lemma array_get_in: "0 \<le> i \<Longrightarrow> i < MAX_NB_RESOURCES \<Longrightarrow> array_get a i = Inr (a i)"
  by (simp add: array_get_def array_index_def)

context procset
begin

lemma build_resource_set_ok:
  assumes "build_ok (hy_labels w) rows b" "rows_ok rows" "distinct (hy_labels w)"
  shows "\<exists>rs. build_resource_set P b = Inr rs \<and> rs_roid_itvs rs = ps_of_ids P (b_roids b) \<and>
    rs_i2o rs = b_i2o b \<and> rs_o2i rs = b_o2i b \<and>
    (\<forall>(label, blocks) \<in> set (rs_hierarchy rs). partitions P blocks (usable_at rows))"
proof -
  have keys: "map fst (b_hy b) = hy_labels w" using assms(1) by (simp add: build_ok_def)
  hence renamed: "(l, v) \<in> set (rename_id (b_hy b)) \<longleftrightarrow>
      (if l = ''resource_id'' then (''id'', v) \<in> set (b_hy b) else l \<noteq> ''id'' \<and> (l, v) \<in> set (b_hy b))" for l v
    using map_of_rename_id [of "b_hy b"] assms(3) hy_labels_id by simp
  have level: "level_ok l rows v" if "(l, v) \<in> set (b_hy b)" for l v
  proof -
    from that keys assms(3) have "map_of (b_hy b) l = Some v" by simp
    moreover from that keys have "l \<in> set (hy_labels w)" by (metis fst_conv image_eqI set_map)
    ultimately show ?thesis using assms(1) by (auto simp: build_ok_def)
  qed
  have "b_hy b \<noteq> []" using keys hy_labels_id(2) [of w] by auto
  then obtain l v where "(l, v) \<in> set (b_hy b)" by (metis list.set_intros(1) neq_Nil_conv surj_pair)
  moreover from this have "l \<noteq> ''resource_id''" using keys hy_labels_id(1) [of w] by (metis fst_conv image_eqI set_map)
  ultimately have "rename_id (b_hy b) \<noteq> []"
    using renamed [of l v] renamed [of "''resource_id''" v] by (cases "l = ''id''") auto
  moreover have "\<exists>roids. map_res (array_get (b_i2o b)) ids = Inr roids"
    if "set ids \<subseteq> r_id ` set rows" for ids
    using that assms(2)
    by (induction ids) (auto simp: rows_ok_def array_get_in)
  moreover have "set (b_default_rids b) \<subseteq> r_id ` set rows" using assms(1) by (simp add: build_ok_def)
  moreover have "\<forall>(label, level) \<in> set (rename_id (b_hy b)).
      partitions P (map (\<lambda>(k, ids). ps_of_ids P ids) level) (usable_at rows)"
    using renamed level level_partitions by (fastforce split: if_splits)
  ultimately show ?thesis
    by (fastforce simp: build_resource_set_def hierarchy_of_def)
qed

end

lemma resource_set_numbered:
  assumes "procset P" and "rows_ok (order (t_resources w))" and "distinct (hy_labels w)"
  shows "\<exists>rs. resource_set_of P order w = Inr rs \<and>
    elems P (rs_roid_itvs rs) = usable_at (order (t_resources w)) \<and>
    (\<forall>n \<in> usable_at (order (t_resources w)).
       array_get (rs_i2o rs) (r_id (order (t_resources w) ! n)) = Inr (int n) \<and>
       array_get (rs_o2i rs) (int n) = Inr (r_id (order (t_resources w) ! n))) \<and>
    (\<forall>(label, blocks) \<in> set (rs_hierarchy rs). partitions P blocks (usable_at (order (t_resources w))))"
proof -
  let ?rows = "order (t_resources w)"
  obtain b where run: "fold_res (add_resource_row (hy_labels w)
        (py_split (config_or ''SCHEDULER_AVAILABLE_SUSPENDED_RESOURCE_TYPE'' ''default'' w)))
      (enumerate 0 ?rows) (empty_build (hy_labels w)) = Inr b"
    and b: "build_ok (hy_labels w) ?rows b"
    using fold_resource_rows_ok [OF assms(2,3)] by blast
  obtain rs where rs: "build_resource_set P b = Inr rs" "rs_roid_itvs rs = ps_of_ids P (b_roids b)"
    "rs_i2o rs = b_i2o b" "rs_o2i rs = b_o2i b"
    "\<forall>(label, blocks) \<in> set (rs_hierarchy rs). partitions P blocks (usable_at ?rows)"
    using procset.build_resource_set_ok [OF assms(1) b assms(2,3)] by blast
  have "array_get (rs_i2o rs) (r_id (?rows ! n)) = Inr (int n) \<and>
      array_get (rs_o2i rs) (int n) = Inr (r_id (?rows ! n))" if n: "n \<in> usable_at ?rows" for n
  proof -
    have "0 \<le> r_id (?rows ! n)" "r_id (?rows ! n) < MAX_NB_RESOURCES" "int n < MAX_NB_RESOURCES"
      using assms(2) usable_at_less [OF n] by (auto simp: rows_ok_def)
    thus ?thesis using b n by (simp add: build_ok_def rs array_get_in)
  qed
  moreover have "elems P (rs_roid_itvs rs) = usable_at ?rows"
    using b by (simp add: build_ok_def rs procset.elems_of_ids [OF assms(1)])
  moreover have "resource_set_of P order w = Inr rs"
    using run rs(1) by (simp add: resource_set_of_def Let_def)
  ultimately show ?thesis using rs(5) by blast
qed

section \<open>Properties\<close>

text \<open>
  C26. The resource set of a table. The two arrays are inverse of each other on the usable resources, the
  set of all the numbers is the set of the places of the usable resources, and every level of the
  hierarchy is a partition of it into non-empty blocks.
\<close>

theorem resource_set_partitions:
  assumes "procset P" and "rows_ok (order (t_resources w))" and "distinct (hy_labels w)"
  shows "\<exists>rs. resource_set_of P order w = Inr rs \<and>
    elems P (rs_roid_itvs rs) = usable_at (order (t_resources w)) \<and>
    (\<forall>n \<in> usable_at (order (t_resources w)).
       array_get (rs_i2o rs) (r_id (order (t_resources w) ! n)) = Inr (int n) \<and>
       array_get (rs_o2i rs) (int n) = Inr (r_id (order (t_resources w) ! n))) \<and>
    (\<forall>(label, blocks) \<in> set (rs_hierarchy rs). partitions P blocks (usable_at (order (t_resources w))))"
  by (rule resource_set_numbered [of P order w, OF assms])

definition resource_db :: db where
  "resource_db = empty_db\<lparr>t_resources :=
     [default_resource\<lparr>r_id := 1, r_network_address := ''n1''\<rparr>,
      default_resource\<lparr>r_id := 2, r_network_address := ''n1'', r_state := ''Dead''\<rparr>,
      default_resource\<lparr>r_id := 3, r_network_address := ''n2''\<rparr>]\<rparr>"

theorem resource_set_partitions_witness:
  "\<exists>rs. resource_set_of list_procset (\<lambda>rows. rows) resource_db = Inr rs \<and>
     elems list_procset (rs_roid_itvs rs) = {0, 2} \<and> array_get (rs_i2o rs) 3 = Inr 2"
proof -
  have "rows_ok (t_resources resource_db)"
    by (simp add: rows_ok_def resource_db_def default_resource_def MAX_NB_RESOURCES_def)
  moreover have "distinct (hy_labels resource_db)"
    by (simp add: hy_labels_def resource_db_def empty_db_def config_or_def)
  moreover have u: "usable_at (t_resources resource_db) = {0, 2}"
    by (auto simp: usable_at_def usable_def resource_db_def default_resource_def less_Suc_eq numeral_2_eq_2)
  moreover have "r_id (t_resources resource_db ! 2) = 3" by (simp add: resource_db_def)
  ultimately show ?thesis
    using resource_set_partitions [OF list_ps.procset_axioms, of "\<lambda>rows. rows" resource_db] by fastforce
qed

end
