(* ===== verification/Job_State.thy ===== *)
theory Job_State
  imports Resources_Db
begin

text \<open>
  The life cycle of a job in the database (\<open>oar/lib/job_handling.py\<close>): \<open>set_job_state\<close>, through which
  every module changes a state, the operations built on it, the commands of the users (hold, resume,
  kill, checkpoint), and the queries of the state and of the time spent in it.

  \<open>job_log_ok\<close> is the invariant of \<open>job_state_logs\<close>: a job has at most one open row, and it names the
  state the job is in. \<open>keeps_final\<close> relates two databases when a job in \<open>Terminated\<close> or \<open>Error\<close> is still
  there and in the same state.
\<close>

section \<open>Changing the state\<close>

definition notify_user :: "job_row \<Rightarrow> string \<Rightarrow> string \<Rightarrow> db \<Rightarrow> db" where
  "notify_user job tag msg w = (case j_notify job of None \<Rightarrow> w
     | Some n \<Rightarrow> if n = '''' then w else send (User_notification (j_id job) tag msg) w)"

text \<open>\<open>log_job\<close>: on PostgreSQL, the rows that describe the job leave the \<open>CURRENT\<close> index.\<close>

definition log_job :: "job_row \<Rightarrow> db \<Rightarrow> db" where
  "log_job job w =
     (if db_sqlite w then w
      else
        let w1 = w\<lparr>t_moldables := sql_update (\<lambda>m. m_index m = ''CURRENT'' \<and> m_job m = j_id job)
                     (\<lambda>m. m\<lparr>m_index := ''LOG''\<rparr>) (t_moldables w)\<rparr>;
            mlds = map m_id (filter (\<lambda>m. m_job m = j_id job) (t_moldables w1));
            logged = map m_id (filter (\<lambda>m. m_index m = ''LOG'' \<and> m_job m = j_id job) (t_moldables w1));
            grps = map gr_id (filter (\<lambda>g. gr_mld g \<in> set mlds) (t_groups w1));
            w2 = w1\<lparr>t_descrs := sql_update (\<lambda>d. de_group d \<in> set grps)
                     (\<lambda>d. d\<lparr>de_index := ''LOG''\<rparr>) (t_descrs w1)\<rparr>;
            w3 = w2\<lparr>t_groups := sql_update (\<lambda>g. gr_index g = ''CURRENT'' \<and> gr_mld g \<in> set logged)
                     (\<lambda>g. g\<lparr>gr_index := ''LOG''\<rparr>) (t_groups w2)\<rparr>;
            w4 = w3\<lparr>t_types := sql_update (\<lambda>t. ty_index t = ''CURRENT'' \<and> ty_job t = j_id job)
                     (\<lambda>t. t\<lparr>ty_index := ''LOG''\<rparr>) (t_types w3)\<rparr>;
            w5 = w4\<lparr>t_deps := sql_update (\<lambda>d. d_index d = ''CURRENT'' \<and> d_job d = j_id job)
                     (\<lambda>d. d\<lparr>d_index := ''LOG''\<rparr>) (t_deps w4)\<rparr> in
        if j_assigned_moldable_job job \<noteq> 0 then
          w5\<lparr>t_assigned := sql_update
               (\<lambda>a. a_index a = ''CURRENT'' \<and> a_mld a = j_assigned_moldable_job job)
               (\<lambda>a. a\<lparr>a_index := ''LOG''\<rparr>) (t_assigned w5)\<rparr>
        else w5)"

text \<open>The reset of the flag of the resources that hold no suspended job any more.\<close>

definition unflag_suspended :: "db \<Rightarrow> db" where
  "unflag_suspended w =
     (let rs = get_current_resources_with_suspended_job w in
      w\<lparr>t_resources := sql_update (\<lambda>r. r_id r \<notin> set rs) (\<lambda>r. r\<lparr>r_suspended_jobs := ''NO''\<rparr>)
          (t_resources w)\<rparr>)"

definition log_state :: "int \<Rightarrow> string \<Rightarrow> int \<Rightarrow> db \<Rightarrow> db" where
  "log_state jid state date w =
     (let closed = sql_update (\<lambda>l. l_stop l = 0 \<and> l_job l = jid) (\<lambda>l. l\<lparr>l_stop := date\<rparr>)
                     (t_state_logs w) in
      w\<lparr>t_state_logs := closed @ [\<lparr>l_id = fresh_id (map l_id closed), l_job = jid,
          l_state = state, l_start = date, l_stop = 0\<rparr>]\<rparr>)"

definition settable :: "int \<Rightarrow> string \<Rightarrow> job_row \<Rightarrow> bool" where
  "settable jid state j \<longleftrightarrow> j_id j = jid \<and> j_state j \<noteq> ''Error'' \<and> j_state j \<noteq> ''Terminated'' \<and>
     j_state j \<noteq> state"

text \<open>
  What follows the log row. The first test asks for \<open>"Suspend"\<close>, so a job that becomes
  \<open>Suspended\<close> goes through the last branch, the one of a job that ended.
\<close>

definition job_ended :: "job_row \<Rightarrow> string \<Rightarrow> int \<Rightarrow> db \<Rightarrow> db" where
  "job_ended job state date w =
     (let w1 = (if j_stop_time job < j_start_time job then
                  w\<lparr>t_jobs := sql_update (\<lambda>j. j_id j = j_id job)
                      (\<lambda>j. j\<lparr>j_stop_time := j_start_time job\<rparr>) (t_jobs w)\<rparr> else w);
          w2 = update_scheduler_last_job_date date (j_assigned_moldable_job job) w1;
          w3 = (if state = ''Terminated'' then notify_user job ''END'' ''Job stopped normally.'' w2
                else notify_user job ''ERROR'' ''Job stopped abnormally or an OAR error occured.''
                  (if j_suspended job = ''YES'' then unflag_suspended w2 else w2));
          w4 = log_job job (update_current_scheduler_priority job (- 2) ''STOP'' w3) in
      notify_almighty ''ChState'' w4)"

definition after_state :: "job_row \<Rightarrow> string \<Rightarrow> int \<Rightarrow> db \<Rightarrow> db" where
  "after_state job state date w =
     (if state = ''Suspend'' then notify_user job ''SUSPENDED'' ''Job is suspended.'' w
      else if state = ''Resuming'' then notify_user job ''RESUMING'' ''Job is resuming.'' w
      else if state = ''Running'' then notify_user job ''RUNNING'' ''Job is running.'' w
      else if state = ''toLaunch'' then update_current_scheduler_priority job 2 ''START'' w
      else job_ended job state date w)"

definition set_job_state :: "int \<Rightarrow> string \<Rightarrow> db \<Rightarrow> db" where
  "set_job_state jid state w =
     (let n = sql_count (settable jid state) (t_jobs w);
          w1 = w\<lparr>t_jobs := sql_update (settable jid state) (\<lambda>j. j\<lparr>j_state := state\<rparr>) (t_jobs w)\<rparr> in
      if n = 1 then
        let date = get_date w1; w2 = log_state jid state date w1 in
        if state \<in> set [''Terminated'', ''Error'', ''toLaunch'', ''Running'', ''Suspended'', ''Resuming'']
        then (case get_job w2 jid of None \<Rightarrow> w2 | Some job \<Rightarrow> after_state job state date w2)
        else w2
      else w1)"

section \<open>Other fields of a job\<close>

definition update_job :: "int \<Rightarrow> (job_row \<Rightarrow> job_row) \<Rightarrow> db \<Rightarrow> db" where
  "update_job jid f w = w\<lparr>t_jobs := sql_update (\<lambda>j. j_id j = jid) f (t_jobs w)\<rparr>"

definition set_job_resa_state :: "int \<Rightarrow> string \<Rightarrow> db \<Rightarrow> db" where
  "set_job_resa_state jid state w = update_job jid (\<lambda>j. j\<lparr>j_reservation := state\<rparr>) w"

definition set_job_message :: "int \<Rightarrow> string \<Rightarrow> db \<Rightarrow> db" where
  "set_job_message jid msg w = update_job jid (\<lambda>j. j\<lparr>j_message := msg\<rparr>) w"

definition set_job_exit_code :: "int \<Rightarrow> int \<Rightarrow> db \<Rightarrow> db" where
  "set_job_exit_code jid code w = update_job jid (\<lambda>j. j\<lparr>j_exit_code := Some code\<rparr>) w"

definition set_job_start_time_assigned_moldable_id :: "int \<Rightarrow> int \<Rightarrow> int \<Rightarrow> db \<Rightarrow> db" where
  "set_job_start_time_assigned_moldable_id jid start mid w =
     update_job jid (\<lambda>j. j\<lparr>j_start_time := start, j_assigned_moldable_job := mid\<rparr>) w"

definition set_jobs_start_time :: "int list \<Rightarrow> int \<Rightarrow> db \<Rightarrow> db" where
  "set_jobs_start_time jids start w =
     w\<lparr>t_jobs := sql_update (\<lambda>j. j_id j \<in> set jids) (\<lambda>j. j\<lparr>j_start_time := start\<rparr>) (t_jobs w)\<rparr>"

definition set_finish_date :: "job_row \<Rightarrow> db \<Rightarrow> db" where
  "set_finish_date job w =
     (let date = (if get_date w < j_start_time job then j_start_time job else get_date w) in
      update_job (j_id job) (\<lambda>j. j\<lparr>j_stop_time := date\<rparr>) w)"

definition set_running_date :: "int \<Rightarrow> db \<Rightarrow> db" where
  "set_running_date jid w = update_job jid (\<lambda>j. j\<lparr>j_start_time := get_date w\<rparr>) w"

definition set_moldable_job_max_time :: "int \<Rightarrow> int \<Rightarrow> db \<Rightarrow> db" where
  "set_moldable_job_max_time mid wt w =
     w\<lparr>t_moldables := sql_update (\<lambda>m. m_id m = mid) (\<lambda>m. m\<lparr>m_walltime := wt\<rparr>) (t_moldables w)\<rparr>"

definition suspend_job_action :: "int \<Rightarrow> int \<Rightarrow> db \<Rightarrow> db" where
  "suspend_job_action jid mid w =
     (let w1 = update_job jid (\<lambda>j. j\<lparr>j_suspended := ''YES''\<rparr>) (set_job_state jid ''Suspended'' w);
          rs = get_current_resources_with_suspended_job w1 in
      w1\<lparr>t_resources := sql_update (\<lambda>r. r_id r \<in> set rs) (\<lambda>r. r\<lparr>r_suspended_jobs := ''YES''\<rparr>)
          (t_resources w1)\<rparr>)"

definition resume_job_action :: "int \<Rightarrow> db \<Rightarrow> db" where
  "resume_job_action jid w = unflag_suspended (set_job_state jid ''Running'' w)"

definition change_walltime :: "int \<Rightarrow> int \<Rightarrow> string \<Rightarrow> db \<Rightarrow> db" where
  "change_walltime jid wt msg w =
     add_new_event ''WALLTIME'' jid msg ''NO''
       (w\<lparr>t_moldables := sql_update (\<lambda>m. m_job m = jid) (\<lambda>m. m\<lparr>m_walltime := wt\<rparr>) (t_moldables w)\<rparr>)"

section \<open>Commands of the users\<close>

definition privileged :: "string \<Rightarrow> bool" where
  "privileged u \<longleftrightarrow> u = ''oar'' \<or> u = ''root''"

definition frag_job :: "int \<Rightarrow> string option \<Rightarrow> db \<Rightarrow> (int \<times> db) res" where
  "frag_job jid user w =
     res_bind (calling_user w user) (\<lambda>u.
       case get_job w jid of None \<Rightarrow> Inr (- 3, w)
       | Some job \<Rightarrow>
           if u = j_user job \<or> privileged u then
             if filter (\<lambda>f. f_job f = jid) (t_frags w) = [] then
               Inr (0, add_new_event ''FRAG_JOB_REQUEST'' jid
                         (''User '' @ u @ '' requested to frag the job '' @ int_str jid) ''YES''
                         (w\<lparr>t_frags := t_frags w @
                             [\<lparr>f_job = jid, f_date = get_date w, f_state = ''LEON''\<rparr>]\<rparr>))
             else Inr (- 2, w)
           else Inr (- 1, w))"

text \<open>
  The event of a checkpoint and the one of a signal are swapped in the code: a signal writes
  \<open>CHECKPOINT\<close>, a checkpoint writes \<open>SIGNAL_None\<close>.
\<close>

definition ask_checkpoint_signal_job ::
    "int \<Rightarrow> string option \<Rightarrow> string option \<Rightarrow> db \<Rightarrow> ((int \<times> string option) \<times> db) res" where
  "ask_checkpoint_signal_job jid signal user w =
     res_bind (calling_user w user) (\<lambda>u.
       let has_signal = (case signal of None \<Rightarrow> False | Some s \<Rightarrow> s \<noteq> '''');
           name = (case signal of None \<Rightarrow> ''None'' | Some s \<Rightarrow> s);
           error_msg = (if has_signal then ''Cannot signal '' else ''Cannot checkpoint '') @
                         int_str jid @ '' ; '' in
       case get_job w jid of
         None \<Rightarrow> Inr ((1, Some (error_msg @ ''You are not the right user.'')), w)
       | Some job \<Rightarrow>
           if j_type job = ''INTERACTIVE'' then
             Inr ((3, Some (error_msg @ ''The job is Interactive.'')), w)
           else if u = j_user job \<or> privileged u then
             if j_state job = ''Running'' then
               Inr ((0, None),
                 if has_signal then
                   add_new_event ''CHECKPOINT'' jid
                     (''User '' @ u @ '' requested a checkpoint on the job '' @ int_str jid) ''YES'' w
                 else
                   add_new_event (''SIGNAL_'' @ name) jid
                     (''User '' @ u @ '' requested the signal '' @ name @ '' on the job '' @ int_str jid)
                     ''YES'' w)
             else Inr ((2, Some (error_msg @ ''This job is not running.'')), w)
           else Inr ((1, Some (error_msg @ ''You are not the right user.'')), w))"

definition users_allowed_hold_resume :: "db \<Rightarrow> bool" where
  "users_allowed_hold_resume w \<longleftrightarrow> db_config w ''USERS_ALLOWED_HOLD_RESUME'' = Some ''yes''"

definition hold_job :: "int \<Rightarrow> bool \<Rightarrow> string option \<Rightarrow> db \<Rightarrow> (int \<times> db) res" where
  "hold_job jid running user w =
     res_bind (calling_user w user) (\<lambda>u.
       let event_type = (if running then ''HOLD_RUNNING_JOB'' else ''HOLD_WAITING_JOB'') in
       case get_job w jid of None \<Rightarrow> Inr (- 1, w)
       | Some job \<Rightarrow>
           if running \<and> \<not> users_allowed_hold_resume w \<and> \<not> privileged u then Inr (- 4, w)
           else if u = j_user job \<or> privileged u then
             if j_state job = ''Waiting'' \<or> j_state job = ''Resuming'' \<or>
                running \<and> (j_state job = ''toLaunch'' \<or> j_state job = ''Launching'' \<or>
                           j_state job = ''Running'') then
               Inr (0, add_new_event event_type jid
                        (''User '' @ u @ '' launched oarhold on the job '' @ int_str jid) ''YES'' w)
             else Inr (- 3, w)
           else Inr (- 2, w))"

definition resume_job :: "int \<Rightarrow> string option \<Rightarrow> db \<Rightarrow> (int \<times> db) res" where
  "resume_job jid user w =
     res_bind (calling_user w user) (\<lambda>u.
       case get_job w jid of None \<Rightarrow> Inr (- 1, w)
       | Some job \<Rightarrow>
           if j_state job = ''Suspended'' \<and> \<not> users_allowed_hold_resume w \<and> \<not> privileged u then
             Inr (- 4, w)
           else if u = j_user job \<or> privileged u then
             if j_state job = ''Hold'' \<or> j_state job = ''Suspended'' then
               Inr (0, add_new_event ''RESUME_JOB'' jid
                        (''User '' @ u @ '' launched oarresume on the job '' @ int_str jid) ''YES'' w)
             else Inr (- 3, w)
           else Inr (- 2, w))"

end
