(* ===== verification/Job_Life.thy ===== *)
theory Job_Life
  imports Job_State
begin

text \<open>
  What the modules promise about the states of jobs, as an abstract machine, and the proof that the
  operations of \<open>Job_State\<close> implement it.

  The abstract state \<open>life\<close> is the clock, the state of each job and the rows of \<open>job_state_logs\<close>.
  Three steps: a job that is neither \<open>Terminated\<close> nor \<open>Error\<close> takes another state, which closes its
  open row and opens one; a new job starts in \<open>Waiting\<close> or on \<open>Hold\<close>; time passes. \<open>life_ok\<close> says that the rows of a
  job form one contiguous history: each row ends when the next starts, the last one is open and
  names the state the job is in.

  \<open>refines w w'\<close> says that the handler that took the database from \<open>w\<close> to \<open>w'\<close> did a sequence of such
  steps; it composes, so a handler inherits the invariants from its parts.
\<close>

section \<open>The abstract machine\<close>

record life =
  lf_now :: int
  lf_states :: "(int \<times> string) list"
  lf_logs :: "state_log_row list"

definition final_state :: "string \<Rightarrow> bool" where
  "final_state s \<longleftrightarrow> s = ''Terminated'' \<or> s = ''Error''"

definition relog :: "int \<Rightarrow> string \<Rightarrow> int \<Rightarrow> state_log_row list \<Rightarrow> state_log_row list" where
  "relog i t now logs =
     (let closed = sql_update (\<lambda>l. l_stop l = 0 \<and> l_job l = i) (\<lambda>l. l\<lparr>l_stop := now\<rparr>) logs in
      closed @ [\<lparr>l_id = fresh_id (map l_id closed), l_job = i, l_state = t, l_start = now, l_stop = 0\<rparr>])"

definition set_state :: "int \<Rightarrow> string \<Rightarrow> (int \<times> string) list \<Rightarrow> (int \<times> string) list" where
  "set_state i t ss = map (\<lambda>(k, u). (k, if k = i then t else u)) ss"

inductive life_step :: "life \<Rightarrow> life \<Rightarrow> bool" where
  change: "(i, s) \<in> set (lf_states x) \<Longrightarrow> \<not> final_state s \<Longrightarrow> t \<noteq> s \<Longrightarrow>
     life_step x (x\<lparr>lf_states := set_state i t (lf_states x),
                    lf_logs := relog i t (lf_now x) (lf_logs x)\<rparr>)"
| create: "i \<notin> fst ` set (lf_states x) \<Longrightarrow> t \<in> {''Waiting'', ''Hold''} \<Longrightarrow>
     life_step x (x\<lparr>lf_states := lf_states x @ [(i, t)],
                    lf_logs := lf_logs x @ [\<lparr>l_id = fresh_id (map l_id (lf_logs x)), l_job = i,
                      l_state = t, l_start = lf_now x, l_stop = 0\<rparr>]\<rparr>)"
| tick: "lf_now x \<le> d \<Longrightarrow> life_step x (x\<lparr>lf_now := d\<rparr>)"

fun chained :: "state_log_row list \<Rightarrow> bool" where
  "chained [] = True"
| "chained [l] = (l_stop l = 0)"
| "chained (l # m # ls) = (l_stop l = l_start m \<and> l_start l \<le> l_stop l \<and> chained (m # ls))"

definition history_ok :: "int \<Rightarrow> string \<Rightarrow> state_log_row list \<Rightarrow> bool" where
  "history_ok now s rows \<longleftrightarrow> chained rows \<and> (\<forall>l \<in> set rows. 0 < l_start l \<and> l_start l \<le> now) \<and>
     (rows \<noteq> [] \<longrightarrow> l_state (last rows) = s)"

definition rows_of :: "int \<Rightarrow> state_log_row list \<Rightarrow> state_log_row list" where
  "rows_of i logs = filter (\<lambda>l. l_job l = i) logs"

definition life_ok :: "life \<Rightarrow> bool" where
  "life_ok x \<longleftrightarrow> 0 < lf_now x \<and> distinct (map fst (lf_states x)) \<and>
     l_job ` set (lf_logs x) \<subseteq> fst ` set (lf_states x) \<and>
     (\<forall>(i, s) \<in> set (lf_states x). history_ok (lf_now x) s (rows_of i (lf_logs x)))"

section \<open>The invariant\<close>

lemma chained_relog:
  assumes "chained rows" and "\<forall>l \<in> set rows. 0 < l_start l \<and> l_start l \<le> now"
    and "l_start new = now" "l_stop new = 0" and "0 < now"
  shows "chained (sql_update (\<lambda>l. l_stop l = 0) (\<lambda>l. l\<lparr>l_stop := now\<rparr>) rows @ [new])"
  using assms by (induction rows rule: chained.induct) (auto simp: sql_update_def)

lemma rows_of_relog_same:
  "rows_of i (relog i t now logs) =
     sql_update (\<lambda>l. l_stop l = 0) (\<lambda>l. l\<lparr>l_stop := now\<rparr>) (rows_of i logs) @
     [\<lparr>l_id = fresh_id (map l_id logs), l_job = i, l_state = t, l_start = now, l_stop = 0\<rparr>]"
proof -
  have "map l_id (sql_update P (\<lambda>l. l\<lparr>l_stop := now\<rparr>) ls) = map l_id ls"
    for P and ls :: "state_log_row list"
    by (rule map_sql_update) simp
  moreover have "filter (\<lambda>l. l_job l = i)
      (sql_update (\<lambda>l. l_stop l = 0 \<and> l_job l = i) (\<lambda>l. l\<lparr>l_stop := now\<rparr>) logs) =
    sql_update (\<lambda>l. l_stop l = 0) (\<lambda>l. l\<lparr>l_stop := now\<rparr>) (filter (\<lambda>l. l_job l = i) logs)"
    by (induction logs) (auto simp: sql_update_def)
  ultimately show ?thesis by (simp add: rows_of_def relog_def Let_def)
qed

lemma rows_of_relog_other: "k \<noteq> i \<Longrightarrow> rows_of k (relog i t now logs) = rows_of k logs"
  by (induction logs) (auto simp: rows_of_def relog_def Let_def sql_update_def)

lemma history_relog:
  assumes "history_ok now s (rows_of i logs)" and "0 < now"
  shows "history_ok now t (rows_of i (relog i t now logs))"
  using assms chained_relog [of "rows_of i logs" now]
  by (auto simp: rows_of_relog_same history_ok_def sql_update_def)

lemma history_later: "history_ok now s rows \<Longrightarrow> now \<le> d \<Longrightarrow> history_ok d s rows"
  by (force simp: history_ok_def)

lemma relog_jobs: "l_job ` set (relog i t now logs) = insert i (l_job ` set logs)"
  by (force simp: relog_def Let_def sql_update_def)

lemma fst_set_state [simp]: "map fst (set_state i t ss) = map fst ss"
  by (auto simp: set_state_def)

lemma fst_image_set_state [simp]: "fst ` set (set_state i t ss) = fst ` set ss"
  by (force simp: set_state_def)

lemma distinct_fst_unique:
  "distinct (map fst xs) \<Longrightarrow> (i, s) \<in> set xs \<Longrightarrow> (i, t) \<in> set xs \<Longrightarrow> s = t"
  by (meson eq_key_imp_eq_value)

lemma life_step_ok:
  assumes "life_step x y" and "life_ok x"
  shows "life_ok y"
  using assms
proof (induction rule: life_step.induct)
  case (change i s x t)
  have i: "i \<in> fst ` set (lf_states x)" using change.hyps(1) by force
  have "history_ok (lf_now x) u (rows_of k (relog i t (lf_now x) (lf_logs x)))"
    if "(k, u) \<in> set (set_state i t (lf_states x))" for k u
  proof -
    from that obtain v where v: "(k, v) \<in> set (lf_states x)" "u = (if k = i then t else v)"
      by (auto simp: set_state_def)
    hence "history_ok (lf_now x) v (rows_of k (lf_logs x))" "0 < lf_now x"
      using change.prems by (auto simp: life_ok_def)
    thus ?thesis using v by (cases "k = i") (auto simp: rows_of_relog_other intro: history_relog)
  qed
  thus ?case using change.prems i by (auto simp: life_ok_def relog_jobs)
next
  case (create i x t)
  have none: "rows_of i (lf_logs x) = []"
    using create by (auto simp: life_ok_def rows_of_def filter_empty_conv)
  have "rows_of k (lf_logs x @ [\<lparr>l_id = n, l_job = i, l_state = t, l_start = d, l_stop = 0\<rparr>]) =
     (if k = i then [\<lparr>l_id = n, l_job = i, l_state = t, l_start = d, l_stop = 0\<rparr>]
      else rows_of k (lf_logs x))" for k n d
    using none by (auto simp: rows_of_def)
  moreover have "history_ok (lf_now x) t
      [\<lparr>l_id = n, l_job = i, l_state = t, l_start = lf_now x, l_stop = 0\<rparr>]" for n
    using create by (simp add: history_ok_def life_ok_def)
  moreover have "k \<noteq> i" if "(k, u) \<in> set (lf_states x)" for k u
    using that create(1) by force
  ultimately show ?case using create by (auto simp: life_ok_def)
next
  case (tick x d)
  thus ?case by (auto simp: life_ok_def intro: history_later)
qed

lemma life_steps_ok: "life_step\<^sup>*\<^sup>* x y \<Longrightarrow> life_ok x \<Longrightarrow> life_ok y"
  by (induction rule: rtranclp_induct) (auto intro: life_step_ok)

lemma set_state_mem: "(i, s) \<in> set ss \<Longrightarrow> i \<noteq> k \<Longrightarrow> (i, s) \<in> set (set_state k t ss)"
  by (force simp: set_state_def)

lemma life_step_final:
  "life_step x y \<Longrightarrow> distinct (map fst (lf_states x)) \<Longrightarrow> (i, s) \<in> set (lf_states x) \<Longrightarrow>
   final_state s \<Longrightarrow> (i, s) \<in> set (lf_states y)"
proof (induction rule: life_step.induct)
  case (change k u x t)
  hence "i \<noteq> k" by (auto dest: distinct_fst_unique)
  with change show ?case by (simp add: set_state_mem)
qed auto

lemma life_step_distinct:
  "life_step x y \<Longrightarrow> distinct (map fst (lf_states x)) \<Longrightarrow> distinct (map fst (lf_states y))"
  by (induction rule: life_step.induct) auto

lemma life_steps_distinct:
  "life_step\<^sup>*\<^sup>* x y \<Longrightarrow> distinct (map fst (lf_states x)) \<Longrightarrow> distinct (map fst (lf_states y))"
  by (induction rule: rtranclp_induct) (auto intro: life_step_distinct)

lemma life_steps_final:
  assumes "life_step\<^sup>*\<^sup>* x y" and "distinct (map fst (lf_states x))"
    and "(i, s) \<in> set (lf_states x)" and "final_state s"
  shows "(i, s) \<in> set (lf_states y)"
  using assms(1)
proof (induction rule: rtranclp_induct)
  case (step y z)
  from life_steps_distinct [OF step.hyps(1) assms(2)] step show ?case
    using assms(4) by (blast intro: life_step_final)
qed (rule assms(3))

text \<open>No job disappears.\<close>

lemma life_step_ids: "life_step x y \<Longrightarrow> fst ` set (lf_states x) \<subseteq> fst ` set (lf_states y)"
  by (induction rule: life_step.induct) auto

lemma life_steps_ids: "life_step\<^sup>*\<^sup>* x y \<Longrightarrow> fst ` set (lf_states x) \<subseteq> fst ` set (lf_states y)"
proof (induction rule: rtranclp_induct)
  case (step y z)
  from step.IH life_step_ids [OF step.hyps(2)] show ?case by (rule order_trans)
qed simp

section \<open>The database as an instance of the machine\<close>

definition states :: "db \<Rightarrow> (int \<times> string) list" where
  "states w = map (\<lambda>j. (j_id j, j_state j)) (t_jobs w)"

definition life_of :: "db \<Rightarrow> life" where
  "life_of w = \<lparr>lf_now = db_now w, lf_states = states w, lf_logs = t_state_logs w\<rparr>"

definition refines :: "db \<Rightarrow> db \<Rightarrow> bool" where
  "refines w w' \<longleftrightarrow> (distinct (map j_id (t_jobs w)) \<longrightarrow> life_step\<^sup>*\<^sup>* (life_of w) (life_of w'))"

named_theorems life_simps \<open>operations that leave the states and the log of the jobs alone\<close>

lemma fst_states: "map fst (states w) = map j_id (t_jobs w)"
  by (simp add: states_def)

lemma refines_same: "life_of w' = life_of w \<Longrightarrow> refines w w'"
  by (simp add: refines_def)

lemma refines_refl [simp, intro]: "refines w w"
  by (simp add: refines_def)

lemma refines_distinct:
  assumes "refines w w'" and "distinct (map j_id (t_jobs w))"
  shows "distinct (map j_id (t_jobs w'))"
  using assms life_steps_distinct [of "life_of w" "life_of w'"]
  by (simp add: refines_def life_of_def fst_states)

lemma refines_trans [trans]: "refines w w' \<Longrightarrow> refines w' w'' \<Longrightarrow> refines w w''"
  using refines_distinct [of w w'] by (auto simp: refines_def)

lemma refines_life_right: "life_of w'' = life_of w' \<Longrightarrow> refines w w' \<Longrightarrow> refines w w''"
  by (simp add: refines_def)

lemma refines_then: "refines w w' \<Longrightarrow> (\<And>v. refines v (f v)) \<Longrightarrow> refines w (f w')"
  by (blast intro: refines_trans)

lemma life_of_t_jobs:
  "life_of (w\<lparr>t_jobs := js\<rparr>) =
     (life_of w)\<lparr>lf_states := map (\<lambda>j. (j_id j, j_state j)) js\<rparr>"
  by (simp add: life_of_def states_def)

lemma states_sql_update:
  "(\<And>j. P j \<Longrightarrow> j_id (f j) = j_id j \<and> j_state (f j) = j_state j) \<Longrightarrow>
   map (\<lambda>j. (j_id j, j_state j)) (sql_update P f js) = map (\<lambda>j. (j_id j, j_state j)) js"
  by (auto simp: sql_update_def)

lemma life_other [life_simps]:
  "life_of (w\<lparr>db_outbox := a\<rparr>) = life_of w"
  "life_of (w\<lparr>t_events := b\<rparr>) = life_of w"
  "life_of (w\<lparr>t_event_hosts := c\<rparr>) = life_of w"
  "life_of (w\<lparr>t_resources := d\<rparr>) = life_of w"
  "life_of (w\<lparr>t_res_logs := e\<rparr>) = life_of w"
  "life_of (w\<lparr>t_frags := f\<rparr>) = life_of w"
  "life_of (w\<lparr>t_moldables := g\<rparr>) = life_of w"
  "life_of (w\<lparr>t_assigned := h\<rparr>) = life_of w"
  "life_of (w\<lparr>t_types := i\<rparr>) = life_of w"
  "life_of (w\<lparr>t_deps := k\<rparr>) = life_of w"
  "life_of (w\<lparr>t_groups := l\<rparr>) = life_of w"
  "life_of (w\<lparr>t_descrs := m\<rparr>) = life_of w"
  "life_of (w\<lparr>t_queues := n\<rparr>) = life_of w"
  "life_of (w\<lparr>t_challenges := q\<rparr>) = life_of w"
  "life_of (w\<lparr>t_predictions := r\<rparr>) = life_of w"
  "life_of (w\<lparr>t_gantt := s\<rparr>) = life_of w"
  "life_of (w\<lparr>t_predictions_visu := t\<rparr>) = life_of w"
  "life_of (w\<lparr>t_gantt_visu := u\<rparr>) = life_of w"
  "life_of (w\<lparr>t_walltimes := x\<rparr>) = life_of w"
  "life_of (w\<lparr>t_accounting := y\<rparr>) = life_of w"
  by (simp_all add: life_of_def states_def)

lemma life_events [life_simps]:
  "life_of (add_new_event ty i d c w) = life_of w"
  "life_of (add_new_event_with_host ty i d hs w) = life_of w"
  "life_of (check_event ty i w) = life_of w"
  "life_of (send msg w) = life_of w"
  "life_of (notify_almighty cmd w) = life_of w"
  "life_of (notify_user job tag txt w) = life_of w"
  "life_of (stop_all_queues w) = life_of w"
  by (simp_all add: add_new_event_def add_new_event_with_host_def check_event_def send_def
      notify_almighty_def notify_user_def stop_all_queues_def Let_def life_simps split: option.splits)

lemma life_priority_levels [life_simps]:
  "life_of (fst (priority_levels gs i incr c mid w)) = life_of w"
  by (induction gs i incr c mid w rule: priority_levels.induct) (simp_all add: Let_def life_simps)

lemma life_resources [life_simps]:
  "life_of (update_scheduler_last_job_date d mid w) = life_of w"
  "life_of (unflag_suspended w) = life_of w"
  "life_of (log_job job w) = life_of w"
  "life_of (set_resource_nextState r s w) = life_of w"
  "life_of (update_resource_nextFinaudDecision r s w) = life_of w"
  "life_of (set_moldable_job_max_time mid wt w) = life_of w"
  by (simp_all add: update_scheduler_last_job_date_def unflag_suspended_def log_job_def Let_def
      set_resource_nextState_def update_resource_nextFinaudDecision_def
      set_moldable_job_max_time_def life_simps)

lemma life_priority [life_simps]:
  "life_of (update_current_scheduler_priority job incr s w) = life_of w"
proof (cases "db_config w ''SCHEDULER_PRIORITY_HIERARCHY_ORDER''")
  case (Some order)
  obtain w1 b where 1: "priority_levels (split_on (CHR ''/'') order) 0 incr c
      (j_assigned_moldable_job job) w = (w1 c, b c)" for c
    using that [of "\<lambda>c. fst (priority_levels (split_on (CHR ''/'') order) 0 incr c
      (j_assigned_moldable_job job) w)" "\<lambda>c. snd (priority_levels (split_on (CHR ''/'') order) 0 incr c
      (j_assigned_moldable_job job) w)"] by simp
  have "life_of (w1 c) = life_of w" for c
    using life_priority_levels [of "split_on (CHR ''/'') order" 0 incr c "j_assigned_moldable_job job" w]
    by (simp add: 1)
  thus ?thesis by (simp add: update_current_scheduler_priority_def Some 1 Let_def life_simps)
qed (simp add: update_current_scheduler_priority_def)

lemma life_update_job:
  "(\<And>j. j_id (f j) = j_id j \<and> j_state (f j) = j_state j) \<Longrightarrow> life_of (update_job i f w) = life_of w"
  by (simp add: update_job_def life_of_t_jobs states_sql_update) (simp add: life_of_def states_def)

lemma life_fields [life_simps]:
  "life_of (set_job_resa_state i s w) = life_of w"
  "life_of (set_job_message i msg w) = life_of w"
  "life_of (set_job_exit_code i c w) = life_of w"
  "life_of (set_job_start_time_assigned_moldable_id i st mid w) = life_of w"
  "life_of (set_finish_date job w) = life_of w"
  "life_of (set_running_date i w) = life_of w"
  by (simp_all add: set_job_resa_state_def set_job_message_def set_job_exit_code_def Let_def
      set_job_start_time_assigned_moldable_id_def set_finish_date_def set_running_date_def
      life_update_job)

lemma life_jobs_start [life_simps]: "life_of (set_jobs_start_time is st w) = life_of w"
  by (simp add: set_jobs_start_time_def life_of_t_jobs states_sql_update)
     (simp add: life_of_def states_def)

lemma life_job_ended [life_simps]: "life_of (job_ended job s d w) = life_of w"
proof -
  have "life_of (w\<lparr>t_jobs := sql_update (\<lambda>j. j_id j = i) (\<lambda>j. j\<lparr>j_stop_time := t\<rparr>) (t_jobs w)\<rparr>) =
      life_of w" for i t
    by (simp add: life_of_t_jobs states_sql_update) (simp add: life_of_def states_def)
  thus ?thesis by (simp add: job_ended_def Let_def life_simps)
qed

lemma life_after_state [life_simps]: "life_of (after_state job s d w) = life_of w"
  by (simp add: after_state_def life_simps)

lemma states_set_job_state:
  assumes "distinct (map j_id js)" and "sql_count (settable i t) js = 1"
  obtains s where "(i, s) \<in> set (map (\<lambda>j. (j_id j, j_state j)) js)" "\<not> final_state s" "t \<noteq> s"
    "map (\<lambda>j. (j_id j, j_state j)) (sql_update (settable i t) (\<lambda>j. j\<lparr>j_state := t\<rparr>) js) =
     set_state i t (map (\<lambda>j. (j_id j, j_state j)) js)"
proof -
  from assms(2) have "filter (settable i t) js \<noteq> []" by (auto simp: sql_count_def)
  then obtain j where j: "j \<in> set js" "settable i t j"
    by (auto simp: filter_empty_conv)
  have only: "j' = j" if "j' \<in> set js" "j_id j' = i" for j'
    using assms(1) j that by (auto simp: settable_def distinct_map dest: inj_onD)
  have "map (\<lambda>j. (j_id j, j_state j)) (sql_update (settable i t) (\<lambda>j. j\<lparr>j_state := t\<rparr>) js) =
     set_state i t (map (\<lambda>j. (j_id j, j_state j)) js)"
    using only j(2) by (auto simp: sql_update_def set_state_def settable_def)
  thus ?thesis
    using that [of "j_state j"] j by (force simp: settable_def final_state_def)
qed

lemma settable_none:
  assumes "distinct (map j_id js)" and "sql_count (settable i t) js \<noteq> 1"
  shows "sql_update (settable i t) f js = js"
proof -
  have "length (filter (settable i t) js) \<le> length (filter (\<lambda>j. j_id j = i) js)"
    by (induction js) (auto simp: settable_def)
  also have "\<dots> \<le> 1"
  proof (cases "\<exists>j \<in> set js. j_id j = i")
    case True
    then obtain j where "j \<in> set js" "j_id j = i" by blast
    thus ?thesis using distinct_filter_key [OF assms(1), of j] by simp
  next
    case False
    hence "filter (\<lambda>j. j_id j = i) js = []" by (simp add: filter_empty_conv)
    thus ?thesis by simp
  qed
  finally have "filter (settable i t) js = []"
    using assms(2) by (cases "filter (settable i t) js") (auto simp: sql_count_def)
  thus ?thesis by (auto simp: filter_empty_conv intro: sql_update_none)
qed

lemma life_log_state:
  "life_of (log_state i t d w) = (life_of w)\<lparr>lf_logs := relog i t d (t_state_logs w)\<rparr>"
  by (simp add: log_state_def relog_def life_of_def states_def Let_def)

lemma life_set_job_state:
  assumes "distinct (map j_id (t_jobs w))"
  shows "life_of (set_job_state i t w) =
    (if sql_count (settable i t) (t_jobs w) = 1 then
       (life_of w)\<lparr>lf_states := set_state i t (states w), lf_logs := relog i t (db_now w) (t_state_logs w)\<rparr>
     else life_of w)"
proof (cases "sql_count (settable i t) (t_jobs w) = 1")
  case True
  obtain s where "map (\<lambda>j. (j_id j, j_state j))
      (sql_update (settable i t) (\<lambda>j. j\<lparr>j_state := t\<rparr>) (t_jobs w)) = set_state i t (states w)"
    using states_set_job_state [OF assms True] by (auto simp: states_def)
  thus ?thesis
    using True
    by (simp add: set_job_state_def Let_def life_simps life_log_state life_of_t_jobs get_date_def
        split: option.splits)
next
  case False
  thus ?thesis by (simp add: set_job_state_def Let_def settable_none [OF assms])
qed

lemma refines_set_job_state: "refines w (set_job_state i t w)"
  unfolding refines_def
proof
  assume d: "distinct (map j_id (t_jobs w))"
  show "life_step\<^sup>*\<^sup>* (life_of w) (life_of (set_job_state i t w))"
  proof (cases "sql_count (settable i t) (t_jobs w) = 1")
    case True
    from states_set_job_state [OF d True]
    obtain s where s: "(i, s) \<in> set (states w)" "\<not> final_state s" "t \<noteq> s"
      unfolding states_def by blast
    have "life_step (life_of w) ((life_of w)\<lparr>lf_states := set_state i t (lf_states (life_of w)),
        lf_logs := relog i t (lf_now (life_of w)) (lf_logs (life_of w))\<rparr>)"
      by (rule life_step.change [of i s]) (use s in \<open>simp_all add: life_of_def\<close>)
    thus ?thesis by (simp add: life_set_job_state [OF d] True) (simp add: life_of_def)
  qed (simp add: life_set_job_state [OF d])
qed

lemma refines_suspend_job_action: "refines w (suspend_job_action i mid w)"
proof -
  have "life_of (update_job i (\<lambda>j. j\<lparr>j_suspended := ''YES''\<rparr>) v) = life_of v" for v
    by (rule life_update_job) simp
  thus ?thesis
    unfolding suspend_job_action_def Let_def
    by (intro refines_life_right [OF _ refines_set_job_state]) (simp add: life_simps)
qed

lemma refines_resume_job_action: "refines w (resume_job_action i w)"
  unfolding resume_job_action_def
  by (rule refines_life_right [OF _ refines_set_job_state]) (simp add: life_simps)

end
