(* ===== verification/Job_End.thy ===== *)
theory Job_End
  imports Job_Life "HOL-Library.List_Lexorder"
begin

text \<open>
  The end of a job (\<open>oar/lib/job_handling.py\<close>): the queries that the modules use, the states of a
  request to kill a job (\<open>frag_jobs\<close>), the resubmission, \<open>check_end_of_job\<close> with its table of the exit
  codes of \<open>oarexec\<close>, and \<open>job_finishing_sequence\<close>.

  The commands run on the nodes are the external functions of the record \<open>remote\<close>: the server
  epilogue, the cleaning of the cpusets and the test of the nodes; \<open>rnd\<close> is the random number of the
  challenge of a resubmitted job.
\<close>

section \<open>Queries\<close>

definition get_job_challenge :: "int \<Rightarrow> db \<Rightarrow> (string \<times> string \<times> string) res" where
  "get_job_challenge jid w =
     res_bind (sql_one (filter (\<lambda>c. c_job c = jid) (t_challenges w)))
       (\<lambda>c. Inr (c_challenge c, c_private_key c, c_public_key c))"

definition active_states :: "string list" where
  "active_states = [''Waiting'', ''Hold'', ''toLaunch'', ''toError'', ''toAckReservation'', ''Launching'',
     ''Running'', ''Suspended'', ''Resuming'']"

definition get_count_same_ssh_keys_current_jobs :: "string \<Rightarrow> string \<Rightarrow> string \<Rightarrow> db \<Rightarrow> int" where
  "get_count_same_ssh_keys_current_jobs user private public w =
     int (length [c_job c. c \<leftarrow> t_challenges w, j \<leftarrow> t_jobs w,
       c_job c = j_id j \<and> j_state j \<in> set active_states \<and> c_private_key c = private \<and>
       c_public_key c = public \<and> j_user j \<noteq> user \<and> c_private_key c \<noteq> ''''])"

definition get_jobs_in_state :: "string \<Rightarrow> db \<Rightarrow> job_row list" where
  "get_jobs_in_state state w = filter (\<lambda>j. j_state j = state) (t_jobs w)"

definition get_jobs_ids_in_multiple_states :: "string list \<Rightarrow> db \<Rightarrow> (int \<times> string) list" where
  "get_jobs_ids_in_multiple_states ss w =
     fold (\<lambda>j d. AList.update (j_id j) (j_state j) d)
       (sort_key j_id (filter (\<lambda>j. j_state j \<in> set ss) (t_jobs w))) []"

definition get_job_host_log :: "int \<Rightarrow> db \<Rightarrow> string list" where
  "get_job_host_log mid w = remdups [r_network_address r. a \<leftarrow> t_assigned w, r \<leftarrow> t_resources w,
     a_mld a = mid \<and> r_id r = a_res a \<and> r_network_address r \<noteq> '''' \<and> r_type r = ''default'']"

definition get_job_current_hostnames :: "int \<Rightarrow> db \<Rightarrow> string list" where
  "get_job_current_hostnames jid w =
     sort_key (map (of_char :: char \<Rightarrow> nat)) (remdups [r_network_address r.
       a \<leftarrow> t_assigned w, m \<leftarrow> t_moldables w, r \<leftarrow> t_resources w,
       a_index a = ''CURRENT'' \<and> m_index m = ''CURRENT'' \<and> a_res a = r_id r \<and> m_id m = a_mld a \<and>
       m_job m = jid \<and> r_network_address r \<noteq> '''' \<and> r_type r = ''default''])"

definition get_current_moldable_job :: "int \<Rightarrow> db \<Rightarrow> moldable_row res" where
  "get_current_moldable_job mid w =
     sql_one (filter (\<lambda>m. m_index m = ''CURRENT'' \<and> m_id m = mid) (t_moldables w))"

definition get_job_state :: "int \<Rightarrow> db \<Rightarrow> string res" where
  "get_job_state jid w =
     res_bind (sql_one (filter (\<lambda>j. j_id j = jid) (t_jobs w))) (\<lambda>j. Inr (j_state j))"

definition get_jobs_state :: "int list \<Rightarrow> db \<Rightarrow> (int \<times> string) list" where
  "get_jobs_state jids w =
     map (\<lambda>j. (j_id j, j_state j)) (sort_key j_id (filter (\<lambda>j. j_id j \<in> set jids) (t_jobs w)))"

definition get_job_duration_in_state :: "int \<Rightarrow> string \<Rightarrow> db \<Rightarrow> int" where
  "get_job_duration_in_state jid state w =
     sum_list (map (\<lambda>l. (if l_stop l = 0 then get_date w else l_stop l) - l_start l)
       (filter (\<lambda>l. l_job l = jid \<and> l_state l = state) (t_state_logs w)))"

definition get_job_suspended_sum_duration :: "int \<Rightarrow> int \<Rightarrow> db \<Rightarrow> int" where
  "get_job_suspended_sum_duration jid now w =
     sum_list (map (\<lambda>l. let res_time = (if l_stop l = 0 then now else l_stop l) - l_start l in
                     if res_time > 0 then res_time else 0)
       (filter (\<lambda>l. l_job l = jid \<and> (l_state l = ''Suspended'' \<or> l_state l = ''Resuming''))
         (t_state_logs w)))"

definition is_job_already_resubmitted :: "int \<Rightarrow> db \<Rightarrow> int" where
  "is_job_already_resubmitted jid w = sql_count (\<lambda>j. j_resubmit_job_id j = jid) (t_jobs w)"

definition get_array_job_ids :: "int \<Rightarrow> db \<Rightarrow> int list" where
  "get_array_job_ids array_id w = sort (map j_id (filter (\<lambda>j. j_array_id j = array_id) (t_jobs w)))"

section \<open>Requests to kill a job\<close>

definition set_frag_state :: "int \<Rightarrow> string \<Rightarrow> db \<Rightarrow> db" where
  "set_frag_state jid s w =
     w\<lparr>t_frags := sql_update (\<lambda>f. f_job f = jid) (\<lambda>f. f\<lparr>f_state := s\<rparr>) (t_frags w)\<rparr>"

definition job_fragged :: "int \<Rightarrow> db \<Rightarrow> db" where
  "job_fragged jid w = set_frag_state jid ''FRAGGED'' w"

definition job_arm_leon_timer :: "int \<Rightarrow> db \<Rightarrow> db" where
  "job_arm_leon_timer jid w = set_frag_state jid ''TIMER_ARMED'' w"

definition job_refrag :: "int \<Rightarrow> db \<Rightarrow> db" where
  "job_refrag jid w = set_frag_state jid ''LEON'' w"

definition job_leon_exterminate :: "int \<Rightarrow> db \<Rightarrow> db" where
  "job_leon_exterminate jid w = set_frag_state jid ''LEON_EXTERMINATE'' w"

definition get_frag_date :: "int \<Rightarrow> db \<Rightarrow> int res" where
  "get_frag_date jid w = res_bind (sql_one (filter (\<lambda>f. f_job f = jid) (t_frags w))) (\<lambda>f. Inr (f_date f))"

definition get_job_frag_state :: "int \<Rightarrow> db \<Rightarrow> string option res" where
  "get_job_frag_state jid w =
     (case filter (\<lambda>f. f_job f = jid) (t_frags w) of
        [] \<Rightarrow> Inr None | [f] \<Rightarrow> Inr (Some (f_state f)) | f # g # fs \<Rightarrow> Inl MultipleResultsFound)"

definition jobs_with_frag :: "string \<Rightarrow> db \<Rightarrow> job_row list" where
  "jobs_with_frag s w = [j. f \<leftarrow> t_frags w, j \<leftarrow> t_jobs w, f_state f = s \<and> j_id j = f_job f]"

definition get_jobs_to_kill :: "db \<Rightarrow> job_row list" where
  "get_jobs_to_kill w = filter (\<lambda>j. j_state j \<notin> set [''Error'', ''Terminated'', ''Finishing''])
     (jobs_with_frag ''LEON'' w)"

definition get_to_exterminate_jobs :: "db \<Rightarrow> job_row list" where
  "get_to_exterminate_jobs w = jobs_with_frag ''LEON_EXTERMINATE'' w"

definition get_timer_armed_job :: "db \<Rightarrow> job_row list" where
  "get_timer_armed_job w = jobs_with_frag ''TIMER_ARMED'' w"

section \<open>Resubmission\<close>

text \<open>The descriptions of one resource group, then the groups of one moldable, are copied.\<close>

definition copy_descr :: "int \<Rightarrow> descr_row \<Rightarrow> db \<Rightarrow> db" where
  "copy_descr gid d w = w\<lparr>t_descrs := t_descrs w @
     [\<lparr>de_group = gid, de_type = de_type d, de_value = de_value d, de_order = de_order d,
       de_index = ''CURRENT''\<rparr>]\<rparr>"

definition copy_group :: "int \<Rightarrow> group_row \<Rightarrow> db \<Rightarrow> db" where
  "copy_group mid g w =
     (let gid = fresh_id (map gr_id (t_groups w));
          w1 = w\<lparr>t_groups := t_groups w @
                  [\<lparr>gr_id = gid, gr_mld = mid, gr_property = gr_property g, gr_index = ''CURRENT''\<rparr>]\<rparr> in
      fold (copy_descr gid) (filter (\<lambda>d. de_group d = gr_id g) (t_descrs w1)) w1)"

definition copy_moldable :: "int \<Rightarrow> moldable_row \<Rightarrow> db \<Rightarrow> db" where
  "copy_moldable jid m w =
     (let mid = fresh_id (map m_id (t_moldables w));
          w1 = w\<lparr>t_moldables := t_moldables w @
                  [\<lparr>m_id = mid, m_job = jid, m_walltime = m_walltime m, m_index = ''CURRENT''\<rparr>]\<rparr> in
      fold (copy_group mid) (filter (\<lambda>g. gr_mld g = m_id m) (t_groups w1)) w1)"

text \<open>
  An \<open>INSERT\<close> executed with a list of rows; SQLAlchemy executes it once with the defaults of the
  columns when the list is empty.
\<close>

definition insert_rows :: "'r \<Rightarrow> 'r list \<Rightarrow> 'r list" where
  "insert_rows row rows = (if rows = [] then [row] else rows)"

text \<open>A job without types leaves a row with the defaults of the columns: no type for the job 0.\<close>

definition copy_types :: "int \<Rightarrow> type_row list \<Rightarrow> db \<Rightarrow> db" where
  "copy_types jid rows w =
     (let n = fresh_id (map ty_id (t_types w)) in
      w\<lparr>t_types := t_types w @
          insert_rows \<lparr>ty_id = n, ty_job = 0, ty_type = '''', ty_index = ''CURRENT''\<rparr>
            (map (\<lambda>(k, t). \<lparr>ty_id = n + int k, ty_job = jid, ty_type = ty_type t, ty_index = ''CURRENT''\<rparr>)
              (enumerate 0 rows))\<rparr>)"

text \<open>
  The row of the job is copied with its start date, because \<open>reservation\<close> is never \<open>None\<close> (it is the
  string \<open>"None"\<close>), and \<open>resubmit_job_id\<close> is not set.
\<close>

definition resubmitted_row :: "job_row \<Rightarrow> int \<Rightarrow> job_row" where
  "resubmitted_row job i = job\<lparr>j_id := i, j_state := ''Hold'', j_message := '''',
     j_scheduler_info := '''', j_exit_code := None, j_assigned_moldable_job := 0\<rparr>"

definition reinsert_job :: "job_row \<Rightarrow> string \<Rightarrow> string \<Rightarrow> int \<Rightarrow> db \<Rightarrow> int \<times> db" where
  "reinsert_job job private public rnd w =
     (let i = fresh_id (map j_id (t_jobs w));
          w1 = w\<lparr>t_jobs := t_jobs w @ [resubmitted_row job i]\<rparr>;
          w2 = w1\<lparr>t_challenges := t_challenges w1 @ [\<lparr>c_job = i, c_challenge = int_str rnd,
                    c_private_key = private, c_public_key = public\<rparr>]\<rparr>;
          w3 = fold (copy_moldable i) (filter (\<lambda>m. m_job m = j_id job) (t_moldables w2)) w2;
          w4 = copy_types i (filter (\<lambda>t. ty_job t = j_id job) (t_types w3)) w3;
          w5 = w4\<lparr>t_deps := sql_update (\<lambda>d. d_required d = j_id job) (\<lambda>d. d\<lparr>d_required := i\<rparr>)
                   (t_deps w4)\<rparr>;
          w6 = update_job i (\<lambda>j. j\<lparr>j_state := ''Waiting''\<rparr>) w5 in
      (i, w6\<lparr>t_state_logs := t_state_logs w6 @
              [\<lparr>l_id = fresh_id (map l_id (t_state_logs w6)), l_job = i, l_state = ''Waiting'',
                l_start = get_date w, l_stop = 0\<rparr>]\<rparr>))"

definition resubmit_job :: "int \<Rightarrow> int \<Rightarrow> db \<Rightarrow> (((int \<times> string) \<times> int) \<times> db) res" where
  "resubmit_job rnd jid w =
     (let user = (case db_environ w ''OARDO_USER'' of Some u \<Rightarrow> u | None \<Rightarrow> ''oar'') in
      case get_job w jid of
        None \<Rightarrow> Inr (((- 5, ''Unable to retrieve initial job:'' @ int_str jid), 0), w)
      | Some job \<Rightarrow>
          if j_type job \<noteq> ''PASSIVE'' then
            Inr (((- 1, ''Interactive jobs and advance reservations cannot be resubmitted.''), 0), w)
          else if j_state job \<noteq> ''Error'' \<and> j_state job \<noteq> ''Terminated'' \<and> j_state job \<noteq> ''Finishing'' then
            Inr (((- 2, ''Only jobs in the Error or Terminated state can be resubmitted.''), 0), w)
          else if user \<noteq> j_user job \<and> \<not> privileged user then
            Inr (((- 3, ''Resubmitted job user mismatch.''), 0), w)
          else res_bind (get_job_challenge jid w) (\<lambda>(ch, private, public).
            if (public \<noteq> '''' \<or> private \<noteq> '''') \<and>
               get_count_same_ssh_keys_current_jobs user private public w > 0 then
              Inr (((- 4, ''Another active job is using the same job key.''), 0), w)
            else
              let (i, w') = reinsert_job job private public rnd w in Inr (((0, ''''), i), w')))"

definition str_resubmit :: "(int \<times> string) \<times> int \<Rightarrow> string" where
  "str_resubmit r = (case r of ((code, msg), i) \<Rightarrow>
     ''(('' @ int_str code @ '', '' @ [CHR 0x27] @ msg @ [CHR 0x27] @ ''), '' @ int_str i @ '')'')"

section \<open>The finishing sequence\<close>

datatype epilogue_result = Epilogue_exit int | Epilogue_oserror | Epilogue_timeout

record remote =
  server_epilogue :: "string \<Rightarrow> int \<Rightarrow> epilogue_result"
  clean_cpusets :: "string list \<Rightarrow> int \<times> string list"
  pingchecker :: "string list \<Rightarrow> bool \<times> string list"

text \<open>
  An event is a pair, or a triple with the hosts. Two of the triples carry something that is not a
  list (\<open>None\<close>, or the text of a list), for which \<open>add_new_event_with_host\<close> raises.
\<close>

datatype job_event =
    Event string string
  | Event_hosts string string "string list"
  | Event_not_list string string

definition register_event :: "int \<Rightarrow> job_event \<Rightarrow> db \<Rightarrow> db res" where
  "register_event jid ev w = (case ev of
     Event ty msg \<Rightarrow> Inr (add_new_event ty jid msg ''YES'' w)
   | Event_hosts ty msg hosts \<Rightarrow> Inr (add_new_event_with_host ty jid msg hosts w)
   | Event_not_list ty msg \<Rightarrow> Inl TypeError)"

definition str_list :: "string list \<Rightarrow> string" where
  "str_list xs = ''['' @ py_join '', '' (map (\<lambda>x. [CHR 0x27] @ x @ [CHR 0x27]) xs) @ '']''"

definition config_value :: "string \<Rightarrow> db \<Rightarrow> string res" where
  "config_value k w = (case db_config w k of None \<Rightarrow> Inl KeyError | Some v \<Rightarrow> Inr v)"

text \<open>The events of the server epilogue.\<close>

definition epilogue_events :: "remote \<Rightarrow> string option \<Rightarrow> int \<Rightarrow> job_event list" where
  "epilogue_events rm script jid = (case script of None \<Rightarrow> []
     | Some s \<Rightarrow> if s = '''' then [] else
        (case server_epilogue rm s jid of
           Epilogue_exit code \<Rightarrow>
             if code \<noteq> 0 then [Event_not_list ''SERVER_EPILOGUE_EXIT_CODE_ERROR''
               (''[JOB FINISHING SEQUENCE] Server epilogue exit code: '' @ int_str code @
                '' (!=0) (cmd: '' @ str_list [s, int_str jid] @ '')'')]
             else []
         | Epilogue_oserror \<Rightarrow> []
         | Epilogue_timeout \<Rightarrow> [Event_not_list ''SERVER_EPILOGUE_TIMEOUT''
             (''[JOB FINISHING SEQUENCE] Server epilogue timeouted (cmd: '' @
              str_list [s, int_str jid] @ '')'')]))"

text \<open>\<open>get_cpuset_values\<close>: for each host the cpusets of the resources assigned to the moldable.\<close>

definition get_cpuset_values :: "string \<Rightarrow> int \<Rightarrow> db \<Rightarrow> (string \<times> string list) list" where
  "get_cpuset_values field mid w =
     (let rows = remdups [(r_network_address r, res_attr field r).
            r \<leftarrow> t_resources w, a \<leftarrow> t_assigned w,
            a_mld a = mid \<and> a_res a = r_id r \<and> r_network_address r \<noteq> '''' \<and>
            (r_type r = ''default'' \<or>
             db_config w ''SCHEDULER_RESOURCES_ALWAYS_ASSIGNED_TYPE'' = Some (r_type r))] in
      fold (\<lambda>(h, c) d. case map_of d h of
              None \<Rightarrow> d @ [(h, [c])] | Some cs \<Rightarrow> AList.update h (cs @ [c]) d) rows [])"

definition get_job_cpuset_name :: "int \<Rightarrow> db \<Rightarrow> string res" where
  "get_job_cpuset_name jid w =
     res_bind (sql_one (filter (\<lambda>j. j_id j = jid) (t_jobs w)))
       (\<lambda>j. Inr (j_user j @ ''_'' @ int_str jid))"

text \<open>
  The events of the cleaning of the cpusets. The description of the job that is sent to the nodes
  needs its challenge and its two output files; what is sent does not come back.
\<close>

definition cpuset_events :: "remote \<Rightarrow> int \<Rightarrow> db \<Rightarrow> job_event list res" where
  "cpuset_events rm jid w =
     (case db_config w ''JOB_RESOURCE_MANAGER_PROPERTY_DB_FIELD'' of None \<Rightarrow> Inr []
      | Some field \<Rightarrow>
        res_bind (get_job_cpuset_name jid w) (\<lambda>cpuset_name.
        res_bind (config_value ''OPENSSH_CMD'' w) (\<lambda>ssh.
        let file0 = (case db_config w ''JOB_RESOURCE_MANAGER_FILE'' of None \<Rightarrow> '''' | Some f \<Rightarrow> f) in
        res_bind (if take 1 file0 = ''/'' then Inr file0
                  else (case db_environ w ''OARDIR'' of None \<Rightarrow> Inl Raised_exception
                        | Some d \<Rightarrow> Inr (d @ ''/'' @ file0))) (\<lambda>cpuset_file.
        res_bind (config_value ''CPUSET_PATH'' w) (\<lambda>path.
        case get_job w jid of None \<Rightarrow> Inl AttributeError
        | Some job \<Rightarrow>
          let nodes = get_cpuset_values field (j_assigned_moldable_job job) w in
          if nodes = [] then Inr []
          else
            res_bind (config_value ''TAKTUK_CMD'' w) (\<lambda>taktuk.
            res_bind (get_job_challenge jid w) (\<lambda>challenge.
            if j_stdout_file job = None \<or> j_stderr_file job = None then Inl AttributeError
            else
              let (tag, bad) = clean_cpusets rm (map fst nodes) in
              Inr (if tag = 0 then [Event ''CPUSET_MANAGER_FILE''
                     (''[JOB FINISHING SEQUENCE] [CPUSET] ['' @ int_str jid @ ''] Bad cpuset file: '' @
                      cpuset_file)]
                   else if bad \<noteq> [] then [Event_not_list ''CPUSET_CLEAN_ERROR''
                     (''[job_finishing_sequence] OAR suspects nodes for the job '' @ int_str jid @
                      '' : '' @ str_list bad)]
                   else [])))))))) "

definition ping_events :: "remote \<Rightarrow> int \<Rightarrow> db \<Rightarrow> job_event list" where
  "ping_events rm jid w =
     (let hosts = get_job_current_hostnames jid w;
          (pingcheck, bad_hosts) = pingchecker rm hosts in
      if pingcheck \<and> bad_hosts \<noteq> [] \<or> \<not> pingcheck then
        let reason = (if pingcheck then ''OAR suspects nodes'' else ''timeout triggered'');
            suspected = (if pingcheck then bad_hosts else hosts) in
        [Event_hosts ''PING_CHECKER_NODE_SUSPECTED_END_JOB''
          (''[job_finishing_sequence] '' @ reason @ '', job '' @ int_str jid @ '', nodes: '' @
           str_list suspected) suspected]
      else [])"

definition job_finishing_sequence ::
    "remote \<Rightarrow> string option \<Rightarrow> int \<Rightarrow> job_event list \<Rightarrow> db \<Rightarrow> db res" where
  "job_finishing_sequence rm script jid events w =
     (let ev1 = events @ epilogue_events rm script jid; jt = get_job_types jid w in
      res_bind (if \<not> has_job_type ''deploy'' jt \<and> \<not> has_job_type ''cosystem'' jt \<and>
                   \<not> has_job_type ''noop'' jt
                then cpuset_events rm jid w else Inr []) (\<lambda>cp.
      let ev2 = ev1 @ cp;
          ev3 = ev2 @ (if db_config w ''ACTIVATE_PINGCHECKER_AT_JOB_END'' = Some ''yes'' \<and>
                          \<not> has_job_type ''deploy'' jt \<and> \<not> has_job_type ''noop'' jt
                       then ping_events rm jid w else []) in
      res_bind (fold_res (register_event jid) ev3 w) (\<lambda>w1.
      Inr (if ev3 \<noteq> [] then notify_almighty ''ChState'' w1 else w1))))"

section \<open>check_end_of_job\<close>

text \<open>
  The table of the exit codes of \<open>oarexec\<close>: the events and whether \<open>Almighty\<close> is told to terminate.
  Code 3 is apart, because it may resubmit the job. The messages name the first host.
\<close>

definition ask_terminate :: "string \<Rightarrow> job_event" where
  "ask_terminate log_jid = Event ''SWITCH_INTO_TERMINATE_STATE'' (log_jid @ ''Ask to change the job state'')"

definition ask_error :: "string \<Rightarrow> job_event" where
  "ask_error log_jid = Event ''SWITCH_INTO_ERROR_STATE'' (log_jid @ ''Ask to change the job state'')"

definition exit_code_events ::
    "string \<Rightarrow> int \<Rightarrow> string list \<Rightarrow> string \<Rightarrow> string \<Rightarrow> string \<Rightarrow> (job_event list \<times> bool) res" where
  "exit_code_events lj err hosts user launch_dir exec_dir =
     (let host = nth_res hosts 0 in
      if err = 0 then Inr ([ask_terminate lj], True)
      else if err = 1 then Inr ([Event ''PROLOGUE_ERROR'' (lj @ ''error of oarexec prologue'')], False)
      else if err = 2 then Inr ([Event ''EPILOGUE_ERROR'' (lj @ ''error of oarexec epilogue'')], False)
      else if err = 5 then
        Inr ([Event ''CANNOT_WRITE_NODE_FILE'' (lj @ ''oarexec cannot create the node file\"'')], False)
      else if err = 6 then
        Inr ([Event ''CANNOT_WRITE_PID_FILE'' (lj @ ''oarexec cannot create its pid file'')], False)
      else if err = 7 then
        res_bind host (\<lambda>h. Inr ([Event ''USER_SHELL''
          (lj @ ''Cannot get shell of user '' @ user @ '', so I suspect node '' @ h)], False))
      else if err = 8 then
        res_bind host (\<lambda>h. Inr ([Event ''CANNOT_CREATE_TMP_DIRECTORY''
          (lj @ ''oarexec cannot create tmp directory on '' @ h @ '': '' @ exec_dir)], False))
      else if err = 10 then
        res_bind host (\<lambda>h. Inr ([ask_error lj, Event ''WORKING_DIRECTOR''
          (lj @ ''Cannot go into the working directory '' @ launch_dir @ '' of the job on node '' @ h)],
          False))
      else if err = 20 then
        res_bind host (\<lambda>h. Inr ([ask_error lj, Event ''OUTPUT_FILES''
          (lj @ ''Cannot create .stdout and .stderr files in '' @ launch_dir @ '' on the node '' @ h)],
          False))
      else if err = 12 then
        res_bind host (\<lambda>h.
          let warning = lj @ ''Cannot go into the working directory '' @ launch_dir @
                 '' of the job on node '' @ h @ '' AND epilogue is in error'' in
          Inr ([ask_error lj, Event ''WORKING_DIRECTORY'' warning, Event ''EPILOGUE_ERROR'' warning], False))
      else if err = 22 then
        let warning = lj @ ''Cannot create STDOUT and STDERR files AND epilogue is in error'' in
        Inr ([ask_error lj, Event ''OUTPUT_FILES'' warning, Event ''EPILOGUE_ERROR'' warning], False)
      else if err = 30 then
        res_bind host (\<lambda>h. Inr ([Event ''SSH_TRANSFER_TIMEOUT''
          (lj @ ''Timeout SSH hashtable transfer on '' @ h)], False))
      else if err = 31 then
        res_bind host (\<lambda>h. Inr ([Event ''BAD_HASHTABLE_DUMP'' (lj @ ''Bad hashtable dump on '' @ h)], False))
      else if err = 33 then
        Inr ([ask_terminate lj, Event ''EPILOGUE_ERROR''
          (lj @ ''oarexec received a SIGUSR1 signal and there was an epilogue error'')], False)
      else if err = 34 then Inr ([ask_terminate lj], True)
      else if err = 50 then
        res_bind host (\<lambda>h. Inr ([Event ''LAUNCHING_OAREXEC_TIMEOUT''
          (lj @ ''launching oarexec timeout, exit value = '' @ int_str err @
           ''; the job $job_id is in Error and the node '' @ h @ ''is Suspected'')], False))
      else if err = 40 then Inr ([ask_terminate lj], True)
      else if err = 42 then Inr ([ask_terminate lj], True)
      else if err = 41 then
        Inr ([ask_terminate lj, Event ''EPILOGUE_ERROR''
          (lj @ ''oarexec received a SIGUSR2 signal and there was an epilogue error; so user process has received a checkpoint signal'')],
          True)
      else
        res_bind host (\<lambda>h. Inr ([Event ''EXIT_VALUE_OAREXEC''
          (lj @ ''Error of oarexec, exit value = '' @ int_str err @ ''; the job is in Error and the node '' @
           h @ '' is Suspected; If this job is of type cosystem or deploy, check if the oar server is able to connect to the corresponding nodes, oar-node started'')],
          False)))"

text \<open>Code 3: the job was killed; a besteffort and idempotent one is resubmitted.\<close>

definition killed_events :: "int \<Rightarrow> string \<Rightarrow> int \<Rightarrow> db \<Rightarrow> (job_event list \<times> db) res" where
  "killed_events rnd lj jid w =
     (let jt = get_job_types jid w in
      if has_job_type ''besteffort'' jt \<and> has_job_type ''idempotent'' jt \<and>
         is_an_event_exists jid ''BESTEFFORT_KILL'' w \<noteq> 0 then
        res_bind (resubmit_job rnd jid w) (\<lambda>(new_job_id, w').
          Inr ([ask_error lj, Event ''RESUBMIT_JOB_AUTOMATICALLY''
                 (lj @ ''The job '' @ int_str jid @
                  '' is a besteffort and idempotent job so we resubmit it (new id = '' @
                  str_resubmit new_job_id)], w'))
      else Inr ([ask_error lj], w))"

definition record_exit_value :: "int \<Rightarrow> string \<Rightarrow> db \<Rightarrow> db" where
  "record_exit_value jid script_value w =
     (if script_value = '''' then w
      else case py_int script_value of Inr v \<Rightarrow> set_job_exit_code jid v w | Inl e \<Rightarrow> w)"

definition check_end_of_job :: "remote \<Rightarrow> int \<Rightarrow> int \<Rightarrow> string \<Rightarrow> int \<Rightarrow> string list \<Rightarrow> string \<Rightarrow> string \<Rightarrow>
    string option \<Rightarrow> db \<Rightarrow> db res" where
  "check_end_of_job rm rnd jid script_value err hosts user launch_dir epilogue w =
     (let lj = ''['' @ int_str jid @ ''] '' in
      case get_job w jid of None \<Rightarrow> Inl AttributeError
      | Some job \<Rightarrow>
        if j_state job \<in> set [''Running'', ''Launching'', ''Suspended'', ''Resuming''] then
          let w1 = record_exit_value jid script_value
                     (set_job_state jid ''Finishing'' (set_finish_date job w));
              exec_dir = (case db_config w1 ''OAREXEC_DIRECTORY'' of None \<Rightarrow> '''' | Some d \<Rightarrow> d) in
          res_bind (if err = 3
                    then res_bind (killed_events rnd lj jid w1) (\<lambda>(evs, w2). Inr (evs, False, w2))
                    else res_bind (exit_code_events lj err hosts user launch_dir exec_dir)
                           (\<lambda>(evs, term). Inr (evs, term, w1))) (\<lambda>(evs, term, w2).
          res_bind (job_finishing_sequence rm epilogue jid evs w2) (\<lambda>w3.
          Inr (notify_almighty ''BipBip'' (if term then notify_almighty ''Term'' w3 else w3))))
        else Inr (notify_almighty ''BipBip'' w))"

section \<open>Refinement\<close>

lemma life_frag [life_simps]:
  "life_of (set_frag_state jid s w) = life_of w"
  "life_of (job_fragged jid w) = life_of w"
  "life_of (job_arm_leon_timer jid w) = life_of w"
  "life_of (job_refrag jid w) = life_of w"
  "life_of (job_leon_exterminate jid w) = life_of w"
  by (simp_all add: set_frag_state_def job_fragged_def job_arm_leon_timer_def job_refrag_def
      job_leon_exterminate_def life_simps)

lemma frag_job_life:
  assumes "frag_job jid user w = Inr (c, w')"
  shows "life_of w' = life_of w"
proof -
  obtain u where u: "calling_user w user = Inr u"
    using assms by (cases "calling_user w user") (simp_all add: frag_job_def)
  show ?thesis
  proof (cases "get_job w jid")
    case None
    thus ?thesis using assms by (simp add: frag_job_def u)
  next
    case (Some job)
    show ?thesis
      using assms by (simp add: frag_job_def u Some split: if_splits) (auto simp: life_simps)
  qed
qed

text \<open>A loop whose body leaves \<open>k\<close> of the state alone leaves it alone.\<close>

lemma fold_keeps: "(\<And>x s. k (f x s) = k s) \<Longrightarrow> k (fold f xs s) = k s"
  by (induction xs arbitrary: s) auto

lemma copy_descr_keeps: "t_jobs (copy_descr g d w) = t_jobs w" "life_of (copy_descr g d w) = life_of w"
  by (simp_all add: copy_descr_def life_simps)

lemma copy_group_keeps: "t_jobs (copy_group i g w) = t_jobs w" "life_of (copy_group i g w) = life_of w"
  by (simp_all add: copy_group_def Let_def fold_keeps [where k = t_jobs]
      fold_keeps [where k = life_of] copy_descr_keeps life_simps)

lemma copy_moldable_keeps:
  "t_jobs (copy_moldable i m w) = t_jobs w" "life_of (copy_moldable i m w) = life_of w"
  by (simp_all add: copy_moldable_def Let_def fold_keeps [where k = t_jobs]
      fold_keeps [where k = life_of] copy_group_keeps life_simps)

lemma copy_types_keeps: "t_jobs (copy_types i ts w) = t_jobs w" "life_of (copy_types i ts w) = life_of w"
  by (simp_all add: copy_types_def Let_def life_simps)

lemma resubmit_without_types:
  "filter (\<lambda>t. ty_job t = j_id job) (t_types w) = [] \<Longrightarrow>
   map ty_job (t_types (copy_types i (filter (\<lambda>t. ty_job t = j_id job) (t_types w)) w)) = map ty_job (t_types w) @ [0]"
  by (simp add: copy_types_def insert_rows_def Let_def)

lemma reinsert_job_life:
  assumes "reinsert_job job private public rnd w = (i, w')"
  shows "i = fresh_id (map j_id (t_jobs w)) \<and>
     t_jobs w' = t_jobs w @ [(resubmitted_row job i)\<lparr>j_state := ''Waiting''\<rparr>] \<and>
     life_of w' = (life_of w)\<lparr>lf_states := states w @ [(i, ''Waiting'')],
       lf_logs := t_state_logs w @ [\<lparr>l_id = fresh_id (map l_id (t_state_logs w)), l_job = i,
                   l_state = ''Waiting'', l_start = db_now w, l_stop = 0\<rparr>]\<rparr>"
proof -
  define w1 where "w1 = w\<lparr>t_jobs := t_jobs w @ [resubmitted_row job i]\<rparr>"
  define w2 where "w2 = w1\<lparr>t_challenges := t_challenges w1 @ [\<lparr>c_job = i, c_challenge = int_str rnd,
      c_private_key = private, c_public_key = public\<rparr>]\<rparr>"
  define w3 where "w3 = fold (copy_moldable i) (filter (\<lambda>m. m_job m = j_id job) (t_moldables w2)) w2"
  define w4 where "w4 = copy_types i (filter (\<lambda>t. ty_job t = j_id job) (t_types w3)) w3"
  define w5 where "w5 = w4\<lparr>t_deps := sql_update (\<lambda>d. d_required d = j_id job) (\<lambda>d. d\<lparr>d_required := i\<rparr>)
      (t_deps w4)\<rparr>"
  define w6 where "w6 = update_job i (\<lambda>j. j\<lparr>j_state := ''Waiting''\<rparr>) w5"
  have i: "i = fresh_id (map j_id (t_jobs w))" using assms by (simp add: reinsert_job_def Let_def)
  have w': "w' = w6\<lparr>t_state_logs := t_state_logs w6 @ [\<lparr>l_id = fresh_id (map l_id (t_state_logs w6)),
      l_job = i, l_state = ''Waiting'', l_start = get_date w, l_stop = 0\<rparr>]\<rparr>"
    using assms
    unfolding reinsert_job_def Let_def i [symmetric] w1_def [symmetric] w2_def [symmetric]
      w3_def [symmetric] w4_def [symmetric] w5_def [symmetric] w6_def [symmetric]
    by simp
  have j5: "t_jobs w5 = t_jobs w @ [resubmitted_row job i]"
    by (simp add: w5_def w4_def w3_def w2_def w1_def fold_keeps [where k = t_jobs]
        copy_types_keeps copy_moldable_keeps)
  have l5: "life_of w5 = (life_of w)\<lparr>lf_states := states w @ [(i, ''Hold'')]\<rparr>"
    by (simp add: w5_def w4_def w3_def w2_def life_simps fold_keeps [where k = life_of]
        copy_types_keeps copy_moldable_keeps)
      (simp add: w1_def life_of_def states_def resubmitted_row_def)
  have "sql_update (\<lambda>j. j_id j = i) (\<lambda>j. j\<lparr>j_state := ''Waiting''\<rparr>) (t_jobs w) = t_jobs w"
  proof (rule sql_update_none)
    fix j assume "j \<in> set (t_jobs w)"
    thus "j_id j \<noteq> i" using fresh_id_gt [of "j_id j" "map j_id (t_jobs w)"] unfolding i by simp
  qed
  hence j6: "t_jobs w6 = t_jobs w @ [(resubmitted_row job i)\<lparr>j_state := ''Waiting''\<rparr>]"
    by (simp add: w6_def update_job_def j5) (simp add: sql_update_def resubmitted_row_def)
  have rest: "db_now w6 = db_now w" "t_state_logs w6 = t_state_logs w"
    using l5 by (simp_all add: w6_def update_job_def life_of_def)
  show ?thesis
    using i j6 rest by (simp add: w' life_of_def states_def get_date_def resubmitted_row_def)
qed

lemma reinsert_refines:
  assumes "reinsert_job job private public rnd w = (i, w')"
  shows "refines w w'"
proof -
  note r = reinsert_job_life [OF assms]
  have "i \<notin> fst ` set (lf_states (life_of w))"
    using r fresh_id_fresh [of "map j_id (t_jobs w)"]
    by (auto simp: life_of_def states_def image_image)
  hence "life_step (life_of w) (life_of w')"
    using life_step.create [of i "life_of w" "''Waiting''"] r by (simp add: life_of_def)
  thus ?thesis unfolding refines_def by blast
qed

lemma resubmit_refines:
  assumes "resubmit_job rnd jid w = Inr (r, w')"
  shows "refines w w'"
  using assms
  by (auto simp: resubmit_job_def Let_def res_simps reinsert_refines
      split: option.splits if_splits prod.splits)

lemma register_event_life: "register_event jid ev w = Inr w' \<Longrightarrow> life_of w' = life_of w"
  by (cases ev) (auto simp: register_event_def life_simps)

lemma register_events_life:
  assumes "fold_res (register_event jid) evs w = Inr w'"
  shows "life_of w' = life_of w"
  by (rule fold_res_invariant [OF assms, where I = "\<lambda>v. life_of v = life_of w"])
     (auto dest: register_event_life)

lemma finishing_life:
  "job_finishing_sequence rm script jid evs w = Inr w' \<Longrightarrow> life_of w' = life_of w"
  by (auto simp: job_finishing_sequence_def Let_def res_simps life_simps
      dest!: register_events_life split: if_splits)

lemma record_exit_life [life_simps]: "life_of (record_exit_value i v w) = life_of w"
  by (simp add: record_exit_value_def life_simps split: sum.splits)

lemma killed_refines: "killed_events rnd lj jid w = Inr (evs, w') \<Longrightarrow> refines w w'"
  by (auto simp: killed_events_def Let_def res_simps resubmit_refines split: if_splits)

lemma check_end_refines:
  assumes "check_end_of_job rm rnd jid v err hosts user dir epi w = Inr w'"
  shows "refines w w'"
proof (cases "get_job w jid")
  case (Some job)
  show ?thesis
  proof (cases "j_state job \<in> set [''Running'', ''Launching'', ''Suspended'', ''Resuming'']")
    case True
    define w1 where "w1 = record_exit_value jid v
      (set_job_state jid ''Finishing'' (set_finish_date job w))"
    have 1: "refines w w1"
      unfolding w1_def
      by (rule refines_life_right [OF record_exit_life])
         (rule refines_trans [OF refines_same [OF life_fields(5)] refines_set_job_state])
    define r where "r = (if err = 3
        then res_bind (killed_events rnd (''['' @ int_str jid @ ''] '') jid w1)
               (\<lambda>(evs, w2). Inr (evs, False, w2))
        else res_bind (exit_code_events (''['' @ int_str jid @ ''] '') err hosts user dir
                (case db_config w1 ''OAREXEC_DIRECTORY'' of None \<Rightarrow> '''' | Some d \<Rightarrow> d))
               (\<lambda>(evs, trm). Inr (evs, trm, w1)))"
    have "check_end_of_job rm rnd jid v err hosts user dir epi w =
        res_bind r (\<lambda>(evs, trm, w2).
          res_bind (job_finishing_sequence rm epi jid evs w2) (\<lambda>w3.
          Inr (notify_almighty ''BipBip'' (if trm then notify_almighty ''Term'' w3 else w3))))"
      unfolding check_end_of_job_def Some r_def w1_def Let_def option.case if_P [OF True]
      by (rule refl)
    with assms obtain evs trm w2 w3 where r: "r = Inr (evs, trm, w2)"
      and 3: "job_finishing_sequence rm epi jid evs w2 = Inr w3"
      and w': "w' = notify_almighty ''BipBip'' (if trm then notify_almighty ''Term'' w3 else w3)"
      by (auto simp: res_simps)
    have 2: "w2 = w1 \<or> killed_events rnd (''['' @ int_str jid @ ''] '') jid w1 = Inr (evs, w2)"
      using r unfolding r_def by (auto simp: res_simps split: if_splits)
    have "refines w1 w2" using 2 killed_refines by blast
    hence "refines w w2" by (rule refines_trans [OF 1])
    moreover have "life_of w' = life_of w2" using 3 w' by (simp add: life_simps finishing_life)
    ultimately show ?thesis by (simp add: refines_life_right)
  next
    case False
    hence "w' = notify_almighty ''BipBip'' w"
      using assms Some by (simp add: check_end_of_job_def Let_def)
    thus ?thesis by (simp add: refines_same life_simps)
  qed
qed (use assms in \<open>simp add: check_end_of_job_def Let_def\<close>)

lemma finishing_registers:
  assumes "job_finishing_sequence rm script jid evs w = Inr w'"
  shows "\<exists>es w1. fold_res (register_event jid) es w = Inr w1 \<and>
     set (epilogue_events rm script jid) \<subseteq> set es \<and> set evs \<subseteq> set es"
proof -
  from assms obtain cp w1 where
    "fold_res (register_event jid) ((evs @ epilogue_events rm script jid) @ cp @
       (if db_config w ''ACTIVATE_PINGCHECKER_AT_JOB_END'' = Some ''yes'' \<and>
           \<not> has_job_type ''deploy'' (get_job_types jid w) \<and>
           \<not> has_job_type ''noop'' (get_job_types jid w)
        then ping_events rm jid w else [])) w = Inr w1"
    unfolding job_finishing_sequence_def Let_def res_bind_eq_Inr append_assoc by blast
  thus ?thesis by (intro exI conjI) auto
qed

section \<open>Properties of resubmission and of the end of a job\<close>

text \<open>
  C20. A resubmission adds one job, in \<open>Waiting\<close>, with a fresh identifier and its own log row, and leaves
  every existing job as it is. The original is not marked, so the count of its resubmissions does not
  change and the next check resubmits it again.
\<close>

theorem resubmit_job_adds_waiting_job:
  assumes "resubmit_job rnd jid w = Inr (((0, ''''), i), w')" and "get_job w jid = Some job"
  shows "i \<notin> set (map j_id (t_jobs w)) \<and>
     t_jobs w' = t_jobs w @ [(resubmitted_row job i)\<lparr>j_state := ''Waiting''\<rparr>] \<and>
     is_job_already_resubmitted jid w' =
       is_job_already_resubmitted jid w + (if j_resubmit_job_id job = jid then 1 else 0)"
proof -
  from assms obtain kpriv kpub where
    r: "reinsert_job job kpriv kpub rnd w = (i, w')"
    by (auto simp: resubmit_job_def Let_def res_simps split: if_splits prod.splits)
  note l = reinsert_job_life [OF this]
  moreover have "i \<notin> set (map j_id (t_jobs w))" using l fresh_id_fresh by metis
  ultimately show ?thesis
    by (simp add: is_job_already_resubmitted_def sql_count_def resubmitted_row_def)
qed

text \<open>
  When the server epilogue of a job ends with a non-zero code or times out, the finishing
  sequence raises: its event carries \<open>None\<close> for the list of hosts. Almighty is not told to look at
  the events.
\<close>

theorem finishing_sequence_raises_on_epilogue_error:
  assumes "script \<noteq> ''''"
    and "server_epilogue rm script jid = Epilogue_timeout \<or>
         server_epilogue rm script jid = Epilogue_exit code \<and> code \<noteq> 0"
  shows "\<exists>e. job_finishing_sequence rm (Some script) jid evs w = Inl e"
proof (rule ccontr)
  assume "\<nexists>e. job_finishing_sequence rm (Some script) jid evs w = Inl e"
  then obtain w' where "job_finishing_sequence rm (Some script) jid evs w = Inr w'"
    by (metis obj_sumE)
  then obtain es w1 where f: "fold_res (register_event jid) es w = Inr w1"
    and sub: "set (epilogue_events rm (Some script) jid) \<subseteq> set es"
    using finishing_registers by blast
  obtain ty msg where "Event_not_list ty msg \<in> set (epilogue_events rm (Some script) jid)"
    using assms by (auto simp: epilogue_events_def)
  moreover have "fold_res (register_event jid) es v = Inr v' \<Longrightarrow> Event_not_list ty msg \<notin> set es" for es v v'
    by (induction es arbitrary: v) (auto simp: res_simps register_event_def)
  ultimately show False using f sub by blast
qed

section \<open>Witnesses\<close>

definition ended_job :: job_row where
  "ended_job = \<lparr>j_id = 1, j_array_id = 1, j_array_index = 1, j_initial_request = None,
     j_name = None, j_env = None, j_type = ''PASSIVE'', j_info_type = None, j_state = ''Error'',
     j_reservation = ''None'', j_message = '''', j_scheduler_info = '''', j_user = ''bob'',
     j_project = ''default'', j_group = '''', j_command = None, j_exit_code = Some 25344,
     j_queue_name = ''default'', j_properties = None, j_launching_directory = ''/'',
     j_submission_time = 10, j_start_time = 15, j_stop_time = 90, j_file_id = None,
     j_accounted = ''NO'', j_notify = None, j_assigned_moldable_job = 1, j_checkpoint = 0,
     j_checkpoint_signal = 0, j_stdout_file = None, j_stderr_file = None, j_resubmit_job_id = 0,
     j_suspended = ''NO''\<rparr>"

definition ended_db :: db where
  "ended_db = empty_db\<lparr>db_now := 100, t_jobs := [ended_job],
     t_challenges := [\<lparr>c_job = 1, c_challenge = '''', c_private_key = '''', c_public_key = ''''\<rparr>]\<rparr>"

theorem resubmit_job_adds_waiting_job_witness:
  "case resubmit_job 7 1 ended_db of Inl e \<Rightarrow> False
   | Inr (r, w') \<Rightarrow> snd r = 2 \<and> is_job_already_resubmitted 1 w' = 0 \<and>
       t_jobs w' = [ended_job, (resubmitted_row ended_job 2)\<lparr>j_state := ''Waiting''\<rparr>]"
proof -
  have g: "get_job ended_db 1 = Some ended_job"
    by (simp add: get_job_def ended_db_def ended_job_def)
  have c: "get_job_challenge 1 ended_db = Inr ('''', '''', '''')"
    by (simp add: get_job_challenge_def ended_db_def)
  have u: "db_environ ended_db ''OARDO_USER'' = None" by (simp add: ended_db_def empty_db_def)
  obtain i w' where i: "reinsert_job ended_job '''' '''' 7 ended_db = (i, w')" by fastforce
  have r: "resubmit_job 7 1 ended_db = Inr (((0, ''''), i), w')"
    by (simp add: resubmit_job_def g c u i privileged_def ended_job_def)
       (simp add: i [unfolded ended_job_def])
  note i
  hence "i = 2" using reinsert_job_life by (fastforce simp: ended_db_def ended_job_def fresh_id_def)
  with resubmit_job_adds_waiting_job [OF r g] r show ?thesis
    by (simp add: is_job_already_resubmitted_def sql_count_def ended_db_def ended_job_def
        resubmitted_row_def)
qed

theorem finishing_sequence_raises_on_epilogue_error_witness:
  "\<exists>e. job_finishing_sequence \<lparr>server_epilogue = \<lambda>f i. Epilogue_exit 1, clean_cpusets = \<lambda>h. (1, []),
     pingchecker = \<lambda>h. (True, [])\<rparr> (Some ''epilogue'') 1 [] ended_db = Inl e"
  by (rule finishing_sequence_raises_on_epilogue_error [where code = 1]) simp_all

end
