(* ===== verification/Gantt.thy ===== *)
theory Gantt
  imports Resource_Set Jobs Job_End
begin

text \<open>
  The database as the schedulers read and write it (\<open>oar/lib/job_handling.py\<close>): the waiting jobs and
  their requests, the jobs that already have a place in the gantt tables, and the storage of new
  places. A row of \<open>jobs\<close> becomes a \<open>job\<close> of \<open>Jobs\<close>; the attributes that the code sets on the loaded
  objects are its fields. \<open>start_time\<close> is also a column of the table: what the schedulers put there
  is written back by the next flush of the session (\<open>flush_start_times\<close>).

  Parameters: \<open>lib\<close> gives the functions of \<open>oar/kao/custom_scheduling.py\<close> by name, \<open>sql\<close> decides a
  text of SQL on a resource, \<open>show_rqts\<close> is \<open>str\<close> of a list of requests.
\<close>

section \<open>The gantt tables\<close>

definition gantt_flush_tables :: "int list \<Rightarrow> db \<Rightarrow> db" where
  "gantt_flush_tables keep w =
     (if keep \<noteq> [] then
        w\<lparr>t_predictions := filter (\<lambda>p. p_mld p \<in> set keep) (t_predictions w),
          t_gantt := filter (\<lambda>g. g_mld g \<in> set keep) (t_gantt w)\<rparr>
      else w\<lparr>t_predictions := [], t_gantt := []\<rparr>)"

definition set_gantt_job_start_time :: "int \<Rightarrow> int \<Rightarrow> db \<Rightarrow> db" where
  "set_gantt_job_start_time mld now w =
     w\<lparr>t_predictions := sql_update (\<lambda>p. p_mld p = mld) (\<lambda>p. p\<lparr>p_start := now\<rparr>) (t_predictions w)\<rparr>"

text \<open>The rows that stay are those of the given resources: the condition of the code is negated.\<close>

definition remove_gantt_resource_job ::
    "'p procset_ops \<Rightarrow> int \<Rightarrow> 'p \<Rightarrow> 'p resource_set \<Rightarrow> db \<Rightarrow> db res" where
  "remove_gantt_resource_job P mld job_res_set rs w =
     (if ps_len P job_res_set \<noteq> 0 then
        res_bind (map_res (\<lambda>rid. array_get (rs_o2i rs) (int rid)) (ps_ids P job_res_set)) (\<lambda>ids.
          Inr (w\<lparr>t_gantt := filter (\<lambda>g. \<not> (g_mld g = mld \<and> g_res g \<notin> set ids)) (t_gantt w)\<rparr>))
      else Inr w)"

definition add_resource_job_pairs :: "int \<Rightarrow> db \<Rightarrow> db" where
  "add_resource_job_pairs mld w = w\<lparr>t_assigned := t_assigned w @
     insert_rows \<lparr>a_mld = 0, a_res = 0, a_index = ''CURRENT''\<rparr>
       (map (\<lambda>g. \<lparr>a_mld = g_mld g, a_res = g_res g, a_index = ''CURRENT''\<rparr>)
         (filter (\<lambda>g. g_mld g = mld) (t_gantt w)))\<rparr>"

definition get_gantt_waiting_interactive_prediction_date ::
    "db \<Rightarrow> (int \<times> string option \<times> int \<times> string) list" where
  "get_gantt_waiting_interactive_prediction_date w =
     [(j_id j, j_info_type j, p_start p, j_message j).
      j \<leftarrow> t_jobs w, p \<leftarrow> t_predictions w, m \<leftarrow> t_moldables w,
      j_state j = ''Waiting'' \<and> j_type j = ''INTERACTIVE'' \<and> j_reservation j = ''None'' \<and>
      m_job m = j_id j \<and> p_mld p = m_id m]"

definition get_waiting_moldable_of_reservations_already_scheduled :: "db \<Rightarrow> int list" where
  "get_waiting_moldable_of_reservations_already_scheduled w = remdups
     [m_id m. j \<leftarrow> sort_key j_id (t_jobs w), m \<leftarrow> t_moldables w, p \<leftarrow> t_predictions w, g \<leftarrow> t_gantt w,
      (j_state j = ''Waiting'' \<or> j_state j = ''toAckReservation'') \<and> j_reservation j = ''Scheduled'' \<and>
      j_id j = m_job m \<and> p_mld p = m_id m \<and> g_mld g = m_id m]"

section \<open>Queries on jobs\<close>

definition get_waiting_jobs :: "string list \<Rightarrow> string \<Rightarrow> db \<Rightarrow> job_row list" where
  "get_waiting_jobs queues reservation w = sort_key j_id (filter (\<lambda>j. j_state j = ''Waiting'' \<and>
     j_queue_name j \<in> set queues \<and> j_reservation j = reservation) (t_jobs w))"

definition get_waiting_reservation_jobs_specific_queue :: "string \<Rightarrow> db \<Rightarrow> job_row list" where
  "get_waiting_reservation_jobs_specific_queue queue w = sort_key j_id (filter (\<lambda>j.
     (j_state j = ''Waiting'' \<or> j_state j = ''toAckReservation'') \<and> j_reservation j = ''Scheduled'' \<and>
     j_queue_name j = queue) (t_jobs w))"

definition get_current_not_waiting_jobs :: "db \<Rightarrow> (string \<times> job_row list) list" where
  "get_current_not_waiting_jobs w =
     fold (\<lambda>j d. dict_append (j_state j) j d) (filter (\<lambda>j. j_state j \<noteq> ''Waiting'') (t_jobs w)) []"

text \<open>
  The query joins \<open>j2\<close> with nothing but its state: every job in one of the states is returned, as soon as
  the given job has a resource. One of the states is misspelt.
\<close>

definition get_jobs_on_resuming_job_resources :: "int \<Rightarrow> db \<Rightarrow> int list" where
  "get_jobs_on_resuming_job_resources jid w = remdups
     [j_id j2. j1 \<leftarrow> t_jobs w, j2 \<leftarrow> t_jobs w, a1 \<leftarrow> t_assigned w, a2 \<leftarrow> t_assigned w,
      a_index a1 = ''CURRENT'' \<and> a_index a2 = ''CURRENT'' \<and> j_id j1 = jid \<and> j_id j1 \<noteq> j_id j2 \<and>
      a_mld a1 = j_assigned_moldable_job j1 \<and> a_res a2 = a_res a1 \<and>
      j_state j2 \<in> set [''toLaunch'', ''toError'', ''toAckReservation'', ''Launching'', ''Running '', ''Finishing'']]"

definition add_current_job_types :: "int \<Rightarrow> string \<Rightarrow> db \<Rightarrow> db" where
  "add_current_job_types jid t w = w\<lparr>t_types := t_types w @
     [\<lparr>ty_id = fresh_id (map ty_id (t_types w)), ty_job = jid, ty_type = t, ty_index = ''CURRENT''\<rparr>]\<rparr>"

definition remove_current_job_types :: "int \<Rightarrow> string \<Rightarrow> db \<Rightarrow> db" where
  "remove_current_job_types jid t w = w\<lparr>t_types :=
     filter (\<lambda>r. \<not> (ty_job r = jid \<and> ty_type r = t \<and> ty_index r = ''CURRENT'')) (t_types w)\<rparr>"

definition archive_some_moldable_job_nodes :: "int \<Rightarrow> string list \<Rightarrow> db \<Rightarrow> db res" where
  "archive_some_moldable_job_nodes mld hosts w = (case db_config w ''DB_TYPE'' of
     None \<Rightarrow> Inl KeyError
   | Some t \<Rightarrow> Inr (if t = ''Pg'' then
       w\<lparr>t_assigned := sql_update (\<lambda>a. a_mld a = mld \<and>
            (\<exists>r \<in> set (t_resources w). r_id r = a_res a \<and> r_network_address r \<in> set hosts))
          (\<lambda>a. a\<lparr>a_index := ''LOG''\<rparr>) (t_assigned w)\<rparr> else w))"

definition get_job_resources_properties :: "int \<Rightarrow> db \<Rightarrow> resource_row list" where
  "get_job_resources_properties jid w = sort_key r_id
     [r. j \<leftarrow> t_jobs w, r \<leftarrow> t_resources w, a \<leftarrow> t_assigned w,
      j_id j = jid \<and> j_assigned_moldable_job j = a_mld a \<and> a_res a = r_id r]"

section \<open>Jobs of the schedulers\<close>

definition job_of_row :: "job_row \<Rightarrow> 'p job" where
  "job_of_row j =
     \<lparr>job_id = j_id j, job_name = (case j_name j of None \<Rightarrow> '''' | Some n \<Rightarrow> n), job_user = j_user j,
      project = j_project j, queue_name = j_queue_name j, job_state = j_state j, types = [], deps = [],
      mld_res_rqts = [], key_cache = [], start_time = j_start_time j, walltime = None, res_set = None,
      moldable_id = 0, ts = False, ts_user = None, ts_name = None, ph = No_placeholder, ph_name = None,
      no_quotas = False, assign_func = False, find_func = None,
      submission_time = j_submission_time j, karma = None\<rparr>"

text \<open>\<open>extract_find_assign_args\<close> of \<open>oar/kao/helpers.py\<close>: a name, then arguments, some of them named.\<close>

definition extract_find_assign_args :: "string \<Rightarrow> string \<times> string list \<times> (string \<times> string) list" where
  "extract_find_assign_args raw_args =
     (let parts = split_on (CHR '':'') raw_args in
      fold (\<lambda>arg (funcname, args, kwargs).
          case split_on (CHR ''='') arg of
            k # v # vs \<Rightarrow> if k \<noteq> '''' then (funcname, args, AList.update k (py_join ''='' (v # vs)) kwargs)
                         else (funcname, args @ [arg], kwargs)
          | _ \<Rightarrow> (funcname, args @ [arg], kwargs))
        (tl parts) (hd parts, [], []))"

text \<open>The functions of \<open>custom_scheduling\<close> whose names begin with \<open>assign_\<close> and \<open>find_\<close>.\<close>

record 'p custom_lib =
  lib_assign :: "string \<Rightarrow> string list \<Rightarrow> (string \<times> string) list \<Rightarrow> unit option"
  lib_find :: "string \<Rightarrow> string list \<Rightarrow> (string \<times> string) list \<Rightarrow>
    ('p \<Rightarrow> 'p hy_res_rqt list \<Rightarrow> 'p hierarchy \<Rightarrow> bool \<Rightarrow> 'p res) option"

text \<open>What one row of \<open>job_types\<close> sets on its job.\<close>

definition apply_job_type :: "'p custom_lib \<Rightarrow> string \<Rightarrow> 'p job \<Rightarrow> 'p job res" where
  "apply_job_type lib typ job =
     (let t_v = split_on (CHR ''='') typ; t = hd t_v; rest = py_join ''='' (tl t_v) in
      if t = ''timesharing'' then
        res_bind (nth_res t_v 1) (\<lambda>v. case split_on (CHR '','') v of
          [user, name] \<Rightarrow> Inr (job\<lparr>ts := True, ts_user := Some user, ts_name := Some name\<rparr>)
        | _ \<Rightarrow> Inl ValueError)
      else if t = ''placeholder'' then
        res_bind (nth_res t_v 1) (\<lambda>v. Inr (job\<lparr>ph := Placeholder, ph_name := Some v\<rparr>))
      else if t = ''allow'' then
        res_bind (nth_res t_v 1) (\<lambda>v. Inr (job\<lparr>ph := Allow, ph_name := Some v\<rparr>))
      else if t = ''assign'' then
        (case extract_find_assign_args rest of (funcname, args, kwargs) \<Rightarrow>
           case lib_assign lib funcname args kwargs of
             None \<Rightarrow> Inl AttributeError | Some u \<Rightarrow> Inr (job\<lparr>assign_func := True\<rparr>))
      else if t = ''find'' then
        (case extract_find_assign_args rest of (funcname, args, kwargs) \<Rightarrow>
           case lib_find lib funcname args kwargs of
             None \<Rightarrow> Inl AttributeError | Some f \<Rightarrow> Inr (job\<lparr>find_func := Some f\<rparr>))
      else if t = ''no_quotas'' then Inr (job\<lparr>no_quotas := True\<rparr>)
      else
        let v = (case t_v of [a, b] \<Rightarrow> b | _ \<Rightarrow> '''') in
        Inr (job\<lparr>types := AList.update t v (types job)\<rparr>))"

definition get_jobs_types :: "'p custom_lib \<Rightarrow> db \<Rightarrow> 'p job list \<Rightarrow> 'p job list res" where
  "get_jobs_types lib w jobs =
     fold_res (\<lambda>row jobs. map_res (\<lambda>job. if job_id job = ty_job row then apply_job_type lib (ty_type row) job
                                     else Inr job) jobs)
       (filter (\<lambda>row. ty_job row \<in> set (map job_id jobs)) (t_types w))
       (map (\<lambda>job. job\<lparr>types := []\<rparr>) jobs)"

text \<open>The exit code is only compared with 0; \<open>None\<close> is written -1.\<close>

definition get_current_jobs_dependencies :: "db \<Rightarrow> 'p job list \<Rightarrow> 'p job list" where
  "get_current_jobs_dependencies w jobs =
     fold (\<lambda>(jid, dep). map (\<lambda>job. if job_id job = jid then job\<lparr>deps := deps job @ [dep]\<rparr> else job))
       [(d_job d, (d_required d, j_state j, case j_exit_code j of None \<Rightarrow> - 1 | Some c \<Rightarrow> c)).
        d \<leftarrow> t_deps w, j \<leftarrow> t_jobs w, d_index d = ''CURRENT'' \<and> j_id j = d_required d] jobs"

definition set_jobs_cache_keys :: "('p hy_res_rqt list \<Rightarrow> string) \<Rightarrow> 'p job list \<Rightarrow> 'p job list" where
  "set_jobs_cache_keys show_rqts jobs =
     map (\<lambda>job. if \<not> ts job \<and> ph job = No_placeholder then
                  job\<lparr>key_cache := fold (\<lambda>(mld, wt, rqts). AList.update mld (int_str wt @ show_rqts rqts))
                                    (mld_res_rqts job) (key_cache job)\<rparr>
                else job) jobs"

definition is_timesharing_for_two_jobs :: "'p job \<Rightarrow> 'p job \<Rightarrow> bool" where
  "is_timesharing_for_two_jobs j1 j2 =
     (case (map_of (types j1) ''timesharing'', map_of (types j2) ''timesharing'') of
        (Some t1, Some t2) \<Rightarrow>
          t1 = ''*,*'' \<and> t2 = ''*,*'' \<or>
          job_user j1 = job_user j2 \<and> job_name j1 = job_name j2 \<or>
          job_user j1 = job_user j2 \<and> t1 = ''user,*'' \<and> t2 = ''user,*'' \<or>
          job_name j1 = job_name j2 \<and> t1 = ''*,name'' \<and> t1 = ''*,name''
      | _ \<Rightarrow> False)"

section \<open>Jobs with a place in the gantt\<close>

type_synonym gantt_line = "job_row \<times> int \<times> int \<times> int \<times> int"

text \<open>
  The state of the loop of \<open>extract_scheduled_jobs\<close>: the id of the last row, the current job, its
  resources, the finished jobs and the job of each resource.
\<close>

record 'p extract_state =
  ex_prev :: int
  ex_job :: "'p job option"
  ex_roids :: "nat list"
  ex_jobs :: "'p job list"
  ex_rid2jid :: "(nat \<times> int) list"

definition scheduled_job :: "int \<Rightarrow> int \<Rightarrow> db \<Rightarrow> gantt_line \<Rightarrow> 'p job" where
  "scheduled_job security now w line = (case line of (j, mld, start, wt, rid) \<Rightarrow>
     (job_of_row j)\<lparr>start_time := start,
        walltime := Some (wt + security + (if j_suspended j = ''YES'' then
          get_job_suspended_sum_duration (j_id j) now w else 0)),
        moldable_id := mld\<rparr>)"

definition extract_line ::
    "'p procset_ops \<Rightarrow> 'p resource_set \<Rightarrow> int \<Rightarrow> int \<Rightarrow> db \<Rightarrow> gantt_line \<Rightarrow> 'p extract_state \<Rightarrow>
     'p extract_state res" where
  "extract_line P rs security now w line s = (case line of (j, mld, start, wt, rid) \<Rightarrow>
     let s1 = (if j_id j \<noteq> ex_prev s then
           (let closed = (if ex_prev s \<noteq> 0 then
                  (case ex_job s of None \<Rightarrow> s | Some job \<Rightarrow>
                     s\<lparr>ex_jobs := ex_jobs s @ [job\<lparr>res_set := Some (ps_of_ids P (ex_roids s))\<rparr>],
                       ex_roids := []\<rparr>) else s) in
            closed\<lparr>ex_prev := j_id j, ex_job := Some (scheduled_job security now w line)\<rparr>)
         else s) in
     res_bind (array_get (rs_i2o rs) rid) (\<lambda>roid.
       Inr (s1\<lparr>ex_roids := ex_roids s1 @ [nat roid],
               ex_rid2jid := AList.update (nat roid) (j_id j) (ex_rid2jid s1)\<rparr>)))"

text \<open>Only the last job loses the resources that a suspended job lends.\<close>

definition close_last_job ::
    "'p procset_ops \<Rightarrow> 'p resource_set \<Rightarrow> 'p extract_state \<Rightarrow> 'p job list res" where
  "close_last_job P rs s = (case ex_job s of None \<Rightarrow> Inl AttributeError | Some job \<Rightarrow>
     let all = ps_of_ids P (ex_roids s) in
     Inr (ex_jobs s @ [job\<lparr>res_set := Some (if job_state job = ''Suspended''
            then ps_diff P all (rs_suspendable_roid_itvs rs) else all)\<rparr>]))"

definition extract_scheduled_jobs ::
    "'p procset_ops \<Rightarrow> 'p custom_lib \<Rightarrow> gantt_line list \<Rightarrow> 'p resource_set \<Rightarrow> int \<Rightarrow> int \<Rightarrow> db \<Rightarrow>
     ('p job list \<times> (nat \<times> int) list) res" where
  "extract_scheduled_jobs P lib lines rs security now w =
     (if lines = [] then Inr ([], []) else
      res_bind (fold_res (extract_line P rs security now w) lines
         \<lparr>ex_prev = 0, ex_job = None, ex_roids = [], ex_jobs = [], ex_rid2jid = []\<rparr>) (\<lambda>s.
      res_bind (close_last_job P rs s) (\<lambda>jobs.
      res_bind (get_jobs_types lib w jobs) (\<lambda>jobs'. Inr (jobs', ex_rid2jid s)))))"

text \<open>The join of the queries, for the jobs that satisfy \<open>Q\<close>, by start date and id.\<close>

definition gantt_lines :: "(job_row \<Rightarrow> bool) \<Rightarrow> db \<Rightarrow> gantt_line list" where
  "gantt_lines Q w =
     [(j, p_mld p, p_start p, m_walltime m, g_res g).
      j \<leftarrow> sort_key j_start_time (sort_key j_id (filter Q (t_jobs w))), p \<leftarrow> t_predictions w,
      m \<leftarrow> t_moldables w, g \<leftarrow> t_gantt w,
      m_index m = ''CURRENT'' \<and> g_mld g = p_mld p \<and> m_id m = p_mld p \<and> j_id j = m_job m]"

definition get_scheduled_jobs ::
    "'p procset_ops \<Rightarrow> 'p custom_lib \<Rightarrow> 'p resource_set \<Rightarrow> int \<Rightarrow> int \<Rightarrow> db \<Rightarrow> 'p job list res" where
  "get_scheduled_jobs P lib rs security now w =
     res_bind (extract_scheduled_jobs P lib (gantt_lines (\<lambda>j. True) w) rs security now w)
       (\<lambda>(jobs, rid2jid). Inr jobs)"

definition get_after_sched_no_AR_jobs ::
    "'p procset_ops \<Rightarrow> 'p custom_lib \<Rightarrow> string \<Rightarrow> 'p resource_set \<Rightarrow> int \<Rightarrow> int \<Rightarrow> db \<Rightarrow> 'p job list res" where
  "get_after_sched_no_AR_jobs P lib queue rs security now w =
     res_bind (extract_scheduled_jobs P lib (gantt_lines (\<lambda>j. j_queue_name j = queue \<and>
         j_state j = ''Waiting'' \<and> j_reservation j = ''None'') w) rs security now w)
       (\<lambda>(jobs, rid2jid). Inr jobs)"

definition get_waiting_scheduled_AR_jobs ::
    "'p procset_ops \<Rightarrow> 'p custom_lib \<Rightarrow> string \<Rightarrow> 'p resource_set \<Rightarrow> int \<Rightarrow> int \<Rightarrow> db \<Rightarrow> 'p job list res" where
  "get_waiting_scheduled_AR_jobs P lib queue rs security now w =
     res_bind (extract_scheduled_jobs P lib (gantt_lines (\<lambda>j. j_queue_name j = queue \<and>
         j_reservation j = ''Scheduled'' \<and> j_state j = ''Waiting'') w) rs security now w)
       (\<lambda>(jobs, rid2jid). Inr jobs)"

definition get_gantt_jobs_to_launch ::
    "'p procset_ops \<Rightarrow> 'p custom_lib \<Rightarrow> 'p resource_set \<Rightarrow> int \<Rightarrow> int \<Rightarrow> int \<Rightarrow> db \<Rightarrow>
     ('p job list \<times> (nat \<times> int) list) res" where
  "get_gantt_jobs_to_launch P lib rs security now kill_duration w =
     extract_scheduled_jobs P lib
       [(j, p_mld p, p_start p, m_walltime m, g_res g).
        j \<leftarrow> t_jobs w, p \<leftarrow> t_predictions w, m \<leftarrow> t_moldables w, g \<leftarrow> t_gantt w, r \<leftarrow> t_resources w,
        p_start p \<le> now + kill_duration \<and> j_state j = ''Waiting'' \<and> j_id j = m_job m \<and>
        m_id m = p_mld p \<and> g_mld g = p_mld p \<and> r_id r = g_res g \<and> r_state r = ''Alive'']
       rs security now w"

text \<open>\<open>get_jobs_in_multiple_states\<close>: the jobs with the resources they are assigned, by id.\<close>

definition assigned_line ::
    "'p procset_ops \<Rightarrow> 'p resource_set \<Rightarrow> job_row \<times> int \<times> int \<Rightarrow> 'p extract_state \<Rightarrow> 'p extract_state res" where
  "assigned_line P rs line s = (case line of (j, mld, rid) \<Rightarrow>
     let s1 = (if j_id j \<noteq> ex_prev s then
           (let closed = (case ex_job s of None \<Rightarrow> s | Some job \<Rightarrow>
                  s\<lparr>ex_jobs := ex_jobs s @ [job\<lparr>res_set := Some (ps_of_ids P (ex_roids s))\<rparr>],
                    ex_roids := []\<rparr>) in
            closed\<lparr>ex_prev := j_id j, ex_job := Some ((job_of_row j)\<lparr>moldable_id := mld\<rparr>)\<rparr>)
         else s) in
     res_bind (array_get (rs_i2o rs) rid) (\<lambda>roid.
       Inr (s1\<lparr>ex_roids := ex_roids s1 @ [nat roid]\<rparr>)))"

definition get_jobs_in_multiple_states ::
    "'p procset_ops \<Rightarrow> string list \<Rightarrow> 'p resource_set \<Rightarrow> db \<Rightarrow> 'p job list res" where
  "get_jobs_in_multiple_states P wanted rs w =
     (let lines = [(j, a_mld a, a_res a). j \<leftarrow> sort_key j_id (filter (\<lambda>j. j_state j \<in> set wanted) (t_jobs w)),
                   a \<leftarrow> t_assigned w, j_assigned_moldable_job j = a_mld a] in
      if lines = [] then Inr [] else
      res_bind (fold_res (assigned_line P rs) lines
         \<lparr>ex_prev = 0, ex_job = None, ex_roids = [], ex_jobs = [], ex_rid2jid = []\<rparr>) (\<lambda>s.
      case ex_job s of None \<Rightarrow> Inl AttributeError | Some job \<Rightarrow>
        Inr (ex_jobs s @ [job\<lparr>res_set := Some (ps_of_ids P (ex_roids s))\<rparr>])))"

section \<open>The requests of the waiting jobs\<close>

text \<open>
  The loop of \<open>get_data_jobs\<close> over the joined rows. The last pair of \<open>da_groups\<close> shares its list with
  \<open>da_descr\<close> while \<open>da_shared\<close> is set: an element appended to one is seen in the other.
  \<open>da_done\<close> are the jobs whose requests are complete.
\<close>

record data_line =
  dl_job :: int
  dl_properties :: "string option"
  dl_mld :: int
  dl_walltime :: int
  dl_group :: int
  dl_property :: "string option"
  dl_type :: string
  dl_value :: int

definition data_lines :: "int list \<Rightarrow> db \<Rightarrow> data_line list" where
  "data_lines jids w = map fst (sort_key (\<lambda>x. dl_mld (fst x)) (sort_key (\<lambda>x. dl_group (fst x)) (sort_key snd
     [(\<lparr>dl_job = j_id j, dl_properties = j_properties j, dl_mld = m_id m, dl_walltime = m_walltime m,
        dl_group = gr_id gr, dl_property = gr_property gr, dl_type = de_type de, dl_value = de_value de\<rparr>,
       de_order de).
      j \<leftarrow> t_jobs w, m \<leftarrow> t_moldables w, gr \<leftarrow> t_groups w, de \<leftarrow> t_descrs w,
      m_index m = ''CURRENT'' \<and> gr_index gr = ''CURRENT'' \<and> de_index de = ''CURRENT'' \<and>
      j_id j \<in> set jids \<and> j_id j = m_job m \<and> gr_mld gr = m_id m \<and> de_group de = gr_id gr])))"

record 'p data_state =
  da_first :: bool
  da_job :: int
  da_mld :: int
  da_group :: int
  da_res_group :: int
  da_rqts :: "'p res_rqt list"
  da_groups :: "'p hy_res_rqt list"
  da_descr :: "(string \<times> int) list"
  da_shared :: bool
  da_constraints :: 'p
  da_walltime :: int
  da_done :: "(int \<times> 'p res_rqt list) list"

definition quoted_default :: string where
  "quoted_default = ''type = '' @ [CHR 0x27] @ ''default'' @ [CHR 0x27]"

text \<open>The resources that satisfy the properties of the job and of the group.\<close>

definition res_constraints ::
    "'p procset_ops \<Rightarrow> (string \<Rightarrow> resource_row \<Rightarrow> bool) \<Rightarrow> 'p resource_set \<Rightarrow> db \<Rightarrow>
     string option \<Rightarrow> string option \<Rightarrow> 'p res" where
  "res_constraints P sql rs w job_properties group_property =
     (if job_properties = Some '''' \<and>
         (group_property = Some '''' \<or> group_property = Some quoted_default)
      then Inr (rs_default_itvs rs)
      else
        let text = (\<lambda>p. case p of None \<Rightarrow> '''' | Some t \<Rightarrow> t);
            and_sql = (if text job_properties \<noteq> '''' \<and> text group_property \<noteq> '''' then '' AND '' else '''');
            sql_constraints = text job_properties @ and_sql @ text group_property in
        res_bind (map_res (\<lambda>r. array_get (rs_i2o rs) (r_id r)) (filter (sql sql_constraints) (t_resources w)))
          (\<lambda>roids. Inr (ps_of_ids P (map nat roids))))"

definition job_walltime :: "int \<Rightarrow> int \<Rightarrow> int \<Rightarrow> int" where
  "job_walltime besteffort_duration security wt =
     (if besteffort_duration \<noteq> 0 then besteffort_duration else wt + security)"

definition enter_job :: "int \<Rightarrow> int \<Rightarrow> data_line \<Rightarrow> 'p data_state \<Rightarrow> 'p data_state" where
  "enter_job besteffort_duration security x s =
     (if dl_job x \<noteq> da_job s then
        let s1 = (if da_first s then s\<lparr>da_first := False\<rparr> else
              s\<lparr>da_done := da_done s @ [(da_job s, da_rqts s @
                    [(da_mld s, da_walltime s, da_groups s @ [(da_descr s, da_constraints s)])])],
                da_rqts := [], da_groups := [], da_descr := [], da_shared := False\<rparr>) in
        s1\<lparr>da_mld := dl_mld x, da_job := dl_job x,
           da_walltime := job_walltime besteffort_duration security (dl_walltime x)\<rparr>
      else if dl_mld x \<noteq> da_mld s then
        s\<lparr>da_rqts := (if da_groups s \<noteq> [] then da_rqts s @ [(da_mld s, da_walltime s, da_groups s)]
                      else da_rqts s),
          da_mld := dl_mld x, da_groups := [], da_descr := [], da_shared := False,
          da_walltime := job_walltime besteffort_duration security (dl_walltime x)\<rparr>
      else s)"

definition data_line_step ::
    "'p procset_ops \<Rightarrow> (string \<Rightarrow> resource_row \<Rightarrow> bool) \<Rightarrow> 'p resource_set \<Rightarrow> db \<Rightarrow> int \<Rightarrow> int \<Rightarrow>
     data_line \<Rightarrow> 'p data_state \<Rightarrow> 'p data_state res" where
  "data_line_step P sql rs w besteffort_duration security x s =
     (let s1 = enter_job besteffort_duration security x s; item = (dl_type x, dl_value x) in
      res_bind
        (if dl_group x \<noteq> da_res_group s1 then
           res_bind (res_constraints P sql rs w (dl_properties x) (dl_property x)) (\<lambda>constraints.
             Inr (s1\<lparr>da_res_group := dl_group x, da_descr := [item], da_shared := False,
                     da_constraints := constraints\<rparr>))
         else
           Inr (s1\<lparr>da_descr := da_descr s1 @ [item],
                   da_groups := (if da_shared s1 then
                       butlast (da_groups s1) @ [(da_descr s1 @ [item], snd (last (da_groups s1)))]
                     else da_groups s1)\<rparr>)) (\<lambda>s2.
      Inr (if dl_group x \<noteq> da_group s2 then
             (if da_descr s2 \<noteq> [] then
                s2\<lparr>da_group := dl_group x, da_groups := da_groups s2 @ [(da_descr s2, da_constraints s2)],
                   da_shared := True\<rparr>
              else s2\<lparr>da_group := dl_group x\<rparr>)
           else s2)))"

text \<open>
  A job without a request never gets the attributes that the loop sets, and the functions called at the
  end raise for it.
\<close>

definition get_data_jobs ::
    "'p procset_ops \<Rightarrow> 'p custom_lib \<Rightarrow> (string \<Rightarrow> resource_row \<Rightarrow> bool) \<Rightarrow> ('p hy_res_rqt list \<Rightarrow> string) \<Rightarrow>
     'p job list \<Rightarrow> 'p resource_set \<Rightarrow> int \<Rightarrow> int \<Rightarrow> db \<Rightarrow> 'p job list res" where
  "get_data_jobs P lib sql show_rqts jobs rs security besteffort_duration w =
     res_bind (fold_res (data_line_step P sql rs w besteffort_duration security)
         (data_lines (map job_id jobs) w)
         \<lparr>da_first = True, da_job = 0, da_mld = 0, da_group = 0, da_res_group = 0, da_rqts = [],
          da_groups = [], da_descr = [], da_shared = False, da_constraints = ps_empty P,
          da_walltime = 0, da_done = []\<rparr>) (\<lambda>s.
     if da_first s then Inl AttributeError else
     let requests = da_done s @ [(da_job s, da_rqts s @ [(da_mld s, da_walltime s, da_groups s)])];
         jobs1 = map (\<lambda>job. case map_of (rev requests) (job_id job) of None \<Rightarrow> job
                            | Some r \<Rightarrow> job\<lparr>mld_res_rqts := r\<rparr>) jobs in
     res_bind (get_jobs_types lib w jobs1) (\<lambda>jobs2.
     if \<not> set (map job_id jobs) \<subseteq> set (map fst requests) then Inl AttributeError
     else Inr (set_jobs_cache_keys show_rqts (get_current_jobs_dependencies w jobs2))))"

section \<open>Storing places\<close>

definition job_message :: "'p procset_ops \<Rightarrow> string \<Rightarrow> 'p job \<Rightarrow> int \<Rightarrow> string" where
  "job_message P jtype job nb_resources = py_join '',''
     ((if nb_resources \<noteq> 0 then [''R='' @ int_str nb_resources]
       else (case res_set job of None \<Rightarrow> [] | Some r \<Rightarrow> [''R='' @ int_str (int (ps_len P r))])) @
      (case walltime job of None \<Rightarrow> [] | Some wt \<Rightarrow> [''W='' @ int_str wt]) @
      [if jtype = ''PASSIVE'' then ''J=P'' else ''J=I''] @ [''Q='' @ queue_name job]) @
     (case karma job of None \<Rightarrow> [] | Some k \<Rightarrow> '' (Karma='' @ k @ '')'')"

definition flush_start_times :: "'p job list \<Rightarrow> db \<Rightarrow> db" where
  "flush_start_times jobs w = w\<lparr>t_jobs := map (\<lambda>j. case map_of (map (\<lambda>job. (job_id job, start_time job)) jobs) (j_id j) of
       None \<Rightarrow> j | Some s \<Rightarrow> j\<lparr>j_start_time := s\<rparr>) (t_jobs w)\<rparr>"

definition job_gantt_rows :: "'p procset_ops \<Rightarrow> 'p resource_set \<Rightarrow> 'p job \<Rightarrow> gantt_res_row list res" where
  "job_gantt_rows P rs job = res_bind (attr (res_set job)) (\<lambda>r.
     map_res (\<lambda>rid. res_bind (array_get (rs_o2i rs) (int rid)) (\<lambda>i. Inr \<lparr>g_mld = moldable_id job, g_res = i\<rparr>))
       (ps_ids P r))"

definition save_assigns :: "'p procset_ops \<Rightarrow> 'p job list \<Rightarrow> 'p resource_set \<Rightarrow> db \<Rightarrow> db res" where
  "save_assigns P jobs rs w =
     (if jobs = [] then Inr w else
      let placed = filter (\<lambda>job. start_time job > - 1) jobs;
          w1 = flush_start_times jobs w;
          message = (\<lambda>j. map_of (map (\<lambda>job. (job_id job,
             job_message P (j_type j) job (case res_set job of None \<Rightarrow> 0 | Some r \<Rightarrow> int (ps_len P r)))) placed) (j_id j)) in
      res_bind (map_res (job_gantt_rows P rs) placed) (\<lambda>rows.
      Inr (w1\<lparr>t_jobs := map (\<lambda>j. case message j of None \<Rightarrow> j | Some t \<Rightarrow> j\<lparr>j_message := t\<rparr>) (t_jobs w1),
              t_predictions := t_predictions w1 @ insert_rows \<lparr>p_mld = 0, p_start = 0\<rparr>
                (map (\<lambda>job. \<lparr>p_mld = moldable_id job, p_start = start_time job\<rparr>) placed),
              t_gantt := t_gantt w1 @ insert_rows \<lparr>g_mld = 0, g_res = 0\<rparr> (concat rows)\<rparr>)))"

section \<open>Insertion of a job\<close>

text \<open>\<open>"switch=2/nodes=20"\<close>: one description per level; the database converts the number.\<close>

definition hierarchy_descrs :: "int \<Rightarrow> string \<Rightarrow> descr_row list res" where
  "hierarchy_descrs gid res_hy = map_res (\<lambda>(idx, val).
     let tv = split_on (CHR ''='') val in
     res_bind (nth_res tv 1) (\<lambda>v. res_bind (py_int v) (\<lambda>n.
       Inr \<lparr>de_group = gid, de_type = hd tv, de_value = n, de_order = int idx, de_index = ''CURRENT''\<rparr>)))
     (enumerate 0 (split_on (CHR ''/'') res_hy))"

definition insert_groups :: "int \<times> (string \<times> string) list \<Rightarrow> db \<Rightarrow> db res" where
  "insert_groups x w = (case x of (mld, res_grp) \<Rightarrow>
     let gid = fresh_id (map gr_id (t_groups w));
         numbered = map (\<lambda>(idx, r). (gid + int idx, r)) (enumerate 0 res_grp);
         w1 = w\<lparr>t_groups := t_groups w @
                insert_rows \<lparr>gr_id = gid, gr_mld = 0, gr_property = Some '''', gr_index = ''CURRENT''\<rparr>
                  (map (\<lambda>(i, (res_hy, properties)).
                     \<lparr>gr_id = i, gr_mld = mld, gr_property = Some properties, gr_index = ''CURRENT''\<rparr>) numbered)\<rparr> in
     res_bind (map_res (\<lambda>(i, (res_hy, properties)). hierarchy_descrs i res_hy) numbered) (\<lambda>descrs.
       Inr (w1\<lparr>t_descrs := t_descrs w1 @ concat descrs\<rparr>)))"

text \<open>\<open>columns\<close> is the row given by the keyword arguments and the defaults of the other columns.\<close>

definition insert_job ::
    "job_row \<Rightarrow> (int \<times> (string \<times> string) list) list \<Rightarrow> string list \<Rightarrow> db \<Rightarrow> (int \<times> db) res" where
  "insert_job columns res typs w =
     (let jid = fresh_id (map j_id (t_jobs w));
          mid = fresh_id (map m_id (t_moldables w));
          w1 = w\<lparr>t_jobs := t_jobs w @ [columns\<lparr>j_id := jid\<rparr>],
                 t_moldables := t_moldables w @
                   insert_rows \<lparr>m_id = mid, m_job = 0, m_walltime = 0, m_index = ''CURRENT''\<rparr>
                     (map (\<lambda>(idx, (walltime, grp)).
                        \<lparr>m_id = mid + int idx, m_job = jid, m_walltime = walltime, m_index = ''CURRENT''\<rparr>)
                      (enumerate 0 res))\<rparr> in
      res_bind (fold_res insert_groups
          (map (\<lambda>(idx, (walltime, grp)). (mid + int idx, grp)) (enumerate 0 res)) w1) (\<lambda>w2.
      Inr (jid, fold (add_current_job_types jid) typs w2)))"

section \<open>Lemmas\<close>

text \<open>No type ends up in \<open>types\<close> under \<open>timesharing\<close>: the loop keeps it in \<open>ts\<close>.\<close>

definition no_ts_key :: "'p job \<Rightarrow> bool" where
  "no_ts_key job \<longleftrightarrow> map_of (types job) ''timesharing'' = None"

lemma apply_job_type_no_ts:
  "apply_job_type lib t job = Inr job' \<Longrightarrow> no_ts_key job \<Longrightarrow> no_ts_key job'"
  by (auto simp: apply_job_type_def Let_def no_ts_key_def res_simps update_conv'
      split: if_splits list.splits prod.splits option.splits)

lemma map_res_Inr: "map_res f xs = Inr ys \<longleftrightarrow> list_all2 (\<lambda>x y. f x = Inr y) xs ys"
  by (induction xs arbitrary: ys) (auto simp: res_simps list_all2_Cons1)

lemma get_jobs_types_no_ts:
  assumes "get_jobs_types lib w jobs = Inr jobs'"
  shows "list_all no_ts_key jobs'"
  using assms unfolding get_jobs_types_def
proof (rule fold_res_invariant)
  show "list_all no_ts_key (map (\<lambda>job. job\<lparr>types := []\<rparr>) jobs)"
    by (simp add: list_all_iff no_ts_key_def)
next
  fix row and js ks :: "'a job list"
  assume "list_all no_ts_key js" and
    "map_res (\<lambda>job. if job_id job = ty_job row then apply_job_type lib (ty_type row) job else Inr job) js = Inr ks"
  thus "list_all no_ts_key ks"
    unfolding map_res_Inr list_all2_conv_all_nth list_all_length
    by (metis apply_job_type_no_ts sum.inject(2))
qed

text \<open>A block of the lines of one job, and what the loop makes of it.\<close>

definition block_lines :: "job_row \<times> int \<times> int \<times> int \<times> int list \<Rightarrow> gantt_line list" where
  "block_lines x = (case x of (j, mld, start, wt, rids) \<Rightarrow> map (\<lambda>rid. (j, mld, start, wt, rid)) rids)"

definition block_job ::
    "'p procset_ops \<Rightarrow> 'p resource_set \<Rightarrow> int \<Rightarrow> int \<Rightarrow> db \<Rightarrow> job_row \<times> int \<times> int \<times> int \<times> int list \<Rightarrow> 'p job" where
  "block_job P rs security now w x = (case x of (j, mld, start, wt, rids) \<Rightarrow>
     (scheduled_job security now w (j, mld, start, wt, 0))
       \<lparr>res_set := Some (ps_of_ids P (map (\<lambda>r. nat (rs_i2o rs r)) rids))\<rparr>)"

definition block_ok :: "job_row \<times> int \<times> int \<times> int \<times> int list \<Rightarrow> bool" where
  "block_ok x = (case x of (j, mld, start, wt, rids) \<Rightarrow>
     j_id j \<noteq> 0 \<and> j_state j \<noteq> ''Suspended'' \<and> rids \<noteq> [] \<and> (\<forall>r \<in> set rids. 0 \<le> r \<and> r < MAX_NB_RESOURCES))"

definition block_state ::
    "'p procset_ops \<Rightarrow> 'p resource_set \<Rightarrow> int \<Rightarrow> int \<Rightarrow> db \<Rightarrow> 'p job list \<Rightarrow>
     job_row \<times> int \<times> int \<times> int \<times> int list \<Rightarrow> 'p extract_state \<Rightarrow> bool" where
  "block_state P rs security now w jobs x s \<longleftrightarrow> (case x of (j, mld, start, wt, rids) \<Rightarrow>
     ex_prev s = j_id j \<and> ex_job s = Some (scheduled_job security now w (j, mld, start, wt, 0)) \<and>
     ex_roids s = map (\<lambda>r. nat (rs_i2o rs r)) rids \<and> ex_jobs s = jobs)"

lemma scheduled_job_rid: "scheduled_job security now w (j, mld, start, wt, rid) =
    scheduled_job security now w (j, mld, start, wt, 0)"
  by (simp add: scheduled_job_def)

lemma extract_rest:
  assumes "block_state P rs security now w jobs (j, mld, start, wt, pre) s"
    and "\<forall>r \<in> set rids. 0 \<le> r \<and> r < MAX_NB_RESOURCES"
  shows "\<exists>s'. fold_res (extract_line P rs security now w) (block_lines (j, mld, start, wt, rids)) s = Inr s' \<and>
    block_state P rs security now w jobs (j, mld, start, wt, pre @ rids) s'"
  using assms
proof (induction rids arbitrary: s pre)
  case Nil
  thus ?case by (simp add: block_lines_def)
next
  case (Cons r rids)
  let ?s = "s\<lparr>ex_roids := ex_roids s @ [nat (rs_i2o rs r)],
              ex_rid2jid := AList.update (nat (rs_i2o rs r)) (j_id j) (ex_rid2jid s)\<rparr>"
  have "extract_line P rs security now w (j, mld, start, wt, r) s = Inr ?s"
    using Cons.prems by (simp add: extract_line_def block_state_def array_get_in Let_def)
  moreover have "block_state P rs security now w jobs (j, mld, start, wt, pre @ [r]) ?s"
    using Cons.prems(1) by (simp add: block_state_def)
  ultimately show ?case
    using Cons.IH [of "pre @ [r]" ?s] Cons.prems(2) by (simp add: block_lines_def)
qed

text \<open>The state after the blocks of \<open>done\<close>, of which the last is still open.\<close>

lemma extract_block:
  assumes "block_ok x" "j_id (fst x) \<noteq> ex_prev s"
    and "ex_prev s = 0 \<and> ex_jobs s = jobs \<and> ex_roids s = [] \<or>
         (\<exists>y js. ex_prev s \<noteq> 0 \<and> block_state P rs security now w js y s \<and>
            jobs = js @ [block_job P rs security now w y])"
  shows "\<exists>s'. fold_res (extract_line P rs security now w) (block_lines x) s = Inr s' \<and>
    block_state P rs security now w jobs x s'"
proof -
  obtain j mld start wt rids where x: "x = (j, mld, start, wt, rids)" by (cases x) auto
  with assms(1) obtain r rest where rids: "rids = r # rest" "0 \<le> r" "r < MAX_NB_RESOURCES"
      "\<forall>r \<in> set rest. 0 \<le> r \<and> r < MAX_NB_RESOURCES"
    by (cases rids) (auto simp: block_ok_def)
  have "\<exists>s1. extract_line P rs security now w (j, mld, start, wt, r) s = Inr s1 \<and>
      block_state P rs security now w jobs (j, mld, start, wt, [r]) s1"
    using assms(2,3) rids x
    by (auto simp: extract_line_def Let_def array_get_in block_state_def scheduled_job_rid [of _ _ _ _ _ _ _ r]
        block_job_def split: prod.splits option.splits)
  then obtain s1 where s1: "extract_line P rs security now w (j, mld, start, wt, r) s = Inr s1"
    "block_state P rs security now w jobs (j, mld, start, wt, [r]) s1" by blast
  from extract_rest [OF s1(2) rids(4)] s1(1) show ?thesis
    by (simp add: x rids(1) block_lines_def)
qed

lemma extract_blocks:
  assumes "\<forall>x \<in> set (x # xs). block_ok x" "distinct (map (\<lambda>x. j_id (fst x)) (x # xs))"
    and "j_id (fst x) \<noteq> ex_prev s" "ex_prev s \<notin> set (map (\<lambda>x. j_id (fst x)) xs)"
    and "ex_prev s = 0 \<and> ex_jobs s = jobs \<and> ex_roids s = [] \<or>
         (\<exists>y js. ex_prev s \<noteq> 0 \<and> block_state P rs security now w js y s \<and>
            jobs = js @ [block_job P rs security now w y])"
  shows "\<exists>s'. fold_res (extract_line P rs security now w) (concat (map block_lines (x # xs))) s = Inr s' \<and>
    block_state P rs security now w (jobs @ map (block_job P rs security now w) (butlast (x # xs)))
      (last (x # xs)) s'"
  using assms
proof (induction xs arbitrary: x s jobs)
  case Nil
  from extract_block [OF _ Nil(3,5)] Nil(1) show ?case by (simp add: fold_res_append)
next
  case (Cons y xs)
  from extract_block [OF _ Cons.prems(3,5)] Cons.prems(1) obtain s1
    where s1: "fold_res (extract_line P rs security now w) (block_lines x) s = Inr s1"
      "block_state P rs security now w jobs x s1" by auto
  have prev: "ex_prev s1 = j_id (fst x)" using s1(2) by (simp add: block_state_def split: prod.splits)
  have nonzero: "ex_prev s1 \<noteq> 0" using Cons.prems(1) prev by (auto simp: block_ok_def)
  have "\<exists>z js. ex_prev s1 \<noteq> 0 \<and> block_state P rs security now w js z s1 \<and>
      jobs @ [block_job P rs security now w x] = js @ [block_job P rs security now w z]"
    using s1(2) nonzero by blast
  with Cons.IH [of y s1 "jobs @ [block_job P rs security now w x]"] Cons.prems(1,2) prev
  obtain s' where "fold_res (extract_line P rs security now w) (concat (map block_lines (y # xs))) s1 = Inr s'"
    "block_state P rs security now w ((jobs @ [block_job P rs security now w x]) @
       map (block_job P rs security now w) (butlast (y # xs))) (last (y # xs)) s'" by auto
  with s1(1) show ?case by (simp add: fold_res_append)
qed

lemma close_block:
  assumes "block_state P rs security now w jobs x s" "block_ok x"
  shows "close_last_job P rs s = Inr (jobs @ [block_job P rs security now w x])"
proof -
  obtain j mld start wt rids where x: "x = (j, mld, start, wt, rids)" by (cases x) auto
  have "job_state (scheduled_job security now w (j, mld, start, wt, 0) :: 'a job) = j_state j"
    by (simp add: scheduled_job_def job_of_row_def)
  with assms show ?thesis
    by (simp add: x close_last_job_def block_state_def block_job_def block_ok_def Let_def)
qed

lemma extract_scheduled_jobs_blocks:
  assumes "\<forall>x \<in> set blocks. block_ok x" "distinct (map (\<lambda>x. j_id (fst x)) blocks)"
  shows "\<exists>rid2jid. extract_scheduled_jobs P lib (concat (map block_lines blocks)) rs security now w =
    res_bind (get_jobs_types lib w (map (block_job P rs security now w) blocks)) (\<lambda>jobs. Inr (jobs, rid2jid))"
proof (cases blocks)
  case Nil
  have "fold_res (\<lambda>row jobs. map_res (f row) jobs) rows [] = Inr ([] :: 'a job list)" for f and rows :: "type_row list"
    by (induction rows) auto
  with Nil show ?thesis by (simp add: extract_scheduled_jobs_def get_jobs_types_def)
next
  case (Cons x xs)
  let ?s = "\<lparr>ex_prev = 0, ex_job = None, ex_roids = [], ex_jobs = [], ex_rid2jid = []\<rparr> :: 'a extract_state"
  have nonzero: "\<forall>x \<in> set blocks. j_id (fst x) \<noteq> 0" using assms(1) by (auto simp: block_ok_def)
  hence "j_id (fst x) \<noteq> ex_prev ?s" "ex_prev ?s \<notin> set (map (\<lambda>x. j_id (fst x)) xs)" using Cons by auto
  from extract_blocks [OF assms [unfolded Cons] this, of "[]" P rs security now w] obtain s'
    where s': "fold_res (extract_line P rs security now w) (concat (map block_lines blocks)) ?s = Inr s'"
      "block_state P rs security now w (map (block_job P rs security now w) (butlast blocks)) (last blocks) s'"
    using Cons by auto
  have "block_ok (last blocks)" using assms(1) Cons by (metis last_in_set list.distinct(1))
  from close_block [OF s'(2) this] Cons have close: "close_last_job P rs s' =
      Inr (map (block_job P rs security now w) blocks)"
    by (metis append_butlast_last_id list.distinct(1) map_append list.simps(8,9))
  have "block_lines x \<noteq> []" using assms(1) Cons by (auto simp: block_lines_def block_ok_def)
  hence "concat (map block_lines blocks) \<noteq> []" using Cons by simp
  with s'(1) close have "extract_scheduled_jobs P lib (concat (map block_lines blocks)) rs security now w =
      res_bind (get_jobs_types lib w (map (block_job P rs security now w) blocks))
        (\<lambda>jobs. Inr (jobs, ex_rid2jid s'))"
    by (simp only: extract_scheduled_jobs_def if_False res_bind_simps)
  thus ?thesis by blast
qed

text \<open>A type that neither shares resources nor names a function of \<open>custom_scheduling\<close>.\<close>

definition plain_type :: "string \<Rightarrow> bool" where
  "plain_type t \<longleftrightarrow> hd (split_on (CHR ''='') t) \<notin>
     {''timesharing'', ''placeholder'', ''allow'', ''assign'', ''find''}"

definition place_of :: "'p job \<Rightarrow> int \<times> int \<times> int \<times> int option \<times> 'p option" where
  "place_of job = (job_id job, moldable_id job, start_time job, walltime job, res_set job)"

lemma apply_job_type_plain:
  "plain_type t \<Longrightarrow> \<exists>job'. apply_job_type lib t job = Inr job' \<and> place_of job' = place_of job"
  by (cases "hd (split_on (CHR ''='') t) = ''no_quotas''")
    (simp_all add: apply_job_type_def plain_type_def place_of_def Let_def)

lemma map_res_keeps:
  assumes "\<And>x. x \<in> set xs \<Longrightarrow> \<exists>y. f x = Inr y \<and> k y = k x"
  shows "\<exists>ys. map_res f xs = Inr ys \<and> map k ys = map k xs"
  using assms
proof (induction xs)
  case (Cons x xs)
  then obtain y ys where "f x = Inr y" "k y = k x" "map_res f xs = Inr ys" "map k ys = map k xs"
    by (metis list.set_intros)
  thus ?case by simp
qed simp

lemma get_jobs_types_plain:
  assumes "\<forall>t \<in> set (t_types w). plain_type (ty_type t)"
  shows "\<exists>jobs'. get_jobs_types lib w jobs = Inr jobs' \<and> map place_of jobs' = map place_of jobs"
  unfolding get_jobs_types_def
proof (rule fold_res_total)
  show "map place_of (map (\<lambda>job. job\<lparr>types := []\<rparr>) jobs) = map place_of jobs"
    by (simp add: place_of_def)
next
  fix row and js :: "'a job list"
  assume row: "row \<in> set (filter (\<lambda>row. ty_job row \<in> set (map job_id jobs)) (t_types w))"
    and js: "map place_of js = map place_of jobs"
  have "\<exists>ks. map_res (\<lambda>job. if job_id job = ty_job row then apply_job_type lib (ty_type row) job else Inr job) js =
      Inr ks \<and> map place_of ks = map place_of js"
  proof (rule map_res_keeps)
    fix job
    show "\<exists>y. (if job_id job = ty_job row then apply_job_type lib (ty_type row) job else Inr job) = Inr y \<and>
        place_of y = place_of job"
      using assms row apply_job_type_plain [of "ty_type row" lib job] by (cases "job_id job = ty_job row") auto
  qed
  with js show "\<exists>t. map_res (\<lambda>job. if job_id job = ty_job row then apply_job_type lib (ty_type row) job
      else Inr job) js = Inr t \<and> map place_of t = map place_of jobs" by simp
qed

lemma concat_map_single:
  "distinct xs \<Longrightarrow> x \<in> set xs \<Longrightarrow> (\<And>y. y \<in> set xs \<Longrightarrow> y \<noteq> x \<Longrightarrow> f y = []) \<Longrightarrow> concat (map f xs) = f x"
proof (induction xs)
  case (Cons a xs)
  show ?case
  proof (cases "x = a")
    case True
    with Cons.prems have "\<forall>y \<in> set xs. f y = []" by auto
    with True show ?thesis by simp
  next
    case False
    with Cons show ?thesis by simp
  qed
qed simp

lemma concat_map_cond: "concat (map (\<lambda>g. if Q g then [h g] else []) gs) = map h (filter Q gs)"
  by (induction gs) auto

lemma concat_map_option:
  "concat (map (\<lambda>j. case F j of None \<Rightarrow> [] | Some x \<Rightarrow> k x) js) = concat (map k (List.map_filter F js))"
  by (induction js) (auto simp: map_filter_simps split: option.splits)

text \<open>A job that was given a place, as the database and the resource set see it.\<close>

definition storable :: "'p procset_ops \<Rightarrow> 'p resource_set \<Rightarrow> int \<Rightarrow> db \<Rightarrow> 'p job \<Rightarrow> bool" where
  "storable P rs security w job \<longleftrightarrow>
     (\<exists>j \<in> set (t_jobs w). j_id j = job_id job \<and> j_id j \<noteq> 0 \<and> j_state j \<noteq> ''Suspended'' \<and> j_suspended j \<noteq> ''YES'') \<and>
     (\<exists>m \<in> set (t_moldables w). m_id m = moldable_id job \<and> m_job m = job_id job \<and> m_index m = ''CURRENT'' \<and>
        walltime job = Some (m_walltime m + security)) \<and>
     (\<exists>r. res_set job = Some r \<and> elems P r \<noteq> {} \<and>
        (\<forall>n \<in> elems P r. int n < MAX_NB_RESOURCES \<and> 0 \<le> rs_o2i rs (int n) \<and>
           rs_o2i rs (int n) < MAX_NB_RESOURCES \<and> rs_i2o rs (rs_o2i rs (int n)) = int n))"

definition stored_rows :: "'p procset_ops \<Rightarrow> 'p resource_set \<Rightarrow> 'p job \<Rightarrow> gantt_res_row list" where
  "stored_rows P rs job = map (\<lambda>n. \<lparr>g_mld = moldable_id job, g_res = rs_o2i rs (int n)\<rparr>) (ps_ids P (the (res_set job)))"

lemma gantt_rows_stored:
  assumes "res_set job = Some r" "\<forall>n \<in> elems P r. int n < MAX_NB_RESOURCES"
  shows "job_gantt_rows P rs job = Inr (stored_rows P rs job)"
proof -
  have "map_res (\<lambda>rid. res_bind (array_get (rs_o2i rs) (int rid)) (\<lambda>i. Inr \<lparr>g_mld = mld, g_res = i\<rparr>)) ns =
      Inr (map (\<lambda>n. \<lparr>g_mld = mld, g_res = rs_o2i rs (int n)\<rparr>) ns)"
    if "\<forall>n \<in> set ns. int n < MAX_NB_RESOURCES" for ns mld
    using that by (induction ns) (auto simp: array_get_in)
  with assms show ?thesis by (simp add: job_gantt_rows_def stored_rows_def)
qed

lemma gantt_rows_storable: "storable P rs security w job \<Longrightarrow> job_gantt_rows P rs job = Inr (stored_rows P rs job)"
  using gantt_rows_stored by (fastforce simp: storable_def)

lemma map_res_all: "(\<And>x. x \<in> set xs \<Longrightarrow> f x = Inr (g x)) \<Longrightarrow> map_res f xs = Inr (map g xs)"
  by (induction xs) auto

definition block_of :: "'p procset_ops \<Rightarrow> 'p resource_set \<Rightarrow> int \<Rightarrow> 'p job \<Rightarrow> job_row \<Rightarrow>
    job_row \<times> int \<times> int \<times> int \<times> int list" where
  "block_of P rs security job j = (j, moldable_id job, start_time job, the (walltime job) - security,
     map (\<lambda>n. rs_o2i rs (int n)) (ps_ids P (the (res_set job))))"

definition row_lines ::
    "job_row \<Rightarrow> moldable_row list \<Rightarrow> gantt_res_row list \<Rightarrow> prediction_row \<Rightarrow> gantt_line list" where
  "row_lines j mlds gs p = [(j, p_mld p, p_start p, m_walltime m, g_res g). m \<leftarrow> mlds, g \<leftarrow> gs,
     m_index m = ''CURRENT'' \<and> g_mld g = p_mld p \<and> m_id m = p_mld p \<and> j_id j = m_job m]"

lemma gantt_lines_rows:
  "gantt_lines Q w = concat (map (\<lambda>j. concat (map (row_lines j (t_moldables w) (t_gantt w)) (t_predictions w)))
     (sort_key j_start_time (sort_key j_id (filter Q (t_jobs w)))))"
  by (simp add: gantt_lines_def row_lines_def [abs_def])

lemma row_lines_other:
  assumes "distinct (map m_id mlds)" "m \<in> set mlds" "m_id m = p_mld p" "m_job m \<noteq> j_id j"
  shows "row_lines j mlds gs p = []"
proof -
  have "m' = m" if "m' \<in> set mlds" "m_id m' = p_mld p" for m'
    using that assms(1,2,3) by (metis distinct_map inj_onD)
  hence "\<forall>m' \<in> set mlds. m_id m' = p_mld p \<longrightarrow> j_id j \<noteq> m_job m'" using assms(4) by metis
  thus ?thesis by (auto simp: row_lines_def)
qed

lemma row_lines_own:
  assumes "distinct (map m_id mlds)" "m \<in> set mlds" "m_id m = p_mld p" "m_job m = j_id j" "m_index m = ''CURRENT''"
  shows "row_lines j mlds gs p =
    map (\<lambda>g. (j, p_mld p, p_start p, m_walltime m, g_res g)) (filter (\<lambda>g. g_mld g = p_mld p) gs)"
proof -
  let ?f = "\<lambda>m. concat (map (\<lambda>g. if m_index m = ''CURRENT'' \<and> g_mld g = p_mld p \<and> m_id m = p_mld p \<and>
    j_id j = m_job m then [(j, p_mld p, p_start p, m_walltime m, g_res g)] else []) gs)"
  have "row_lines j mlds gs p = concat (map ?f mlds)" by (simp add: row_lines_def)
  also have "\<dots> = ?f m"
  proof (rule concat_map_single)
    show "distinct mlds" using assms(1) by (simp add: distinct_map)
    show "m \<in> set mlds" by (rule assms(2))
  next
    fix m' assume "m' \<in> set mlds" "m' \<noteq> m"
    hence "m_id m' \<noteq> p_mld p" using assms(1,2,3) by (metis distinct_map inj_onD)
    thus "?f m' = []" by simp
  qed
  also have "\<dots> = map (\<lambda>g. (j, p_mld p, p_start p, m_walltime m, g_res g)) (filter (\<lambda>g. g_mld g = p_mld p) gs)"
    using assms(3-5) by (simp add: concat_map_cond)
  finally show ?thesis .
qed

lemma filter_stored_rows:
  assumes "distinct (map moldable_id placed)" "job \<in> set placed"
  shows "filter (\<lambda>g. g_mld g = moldable_id job) (concat (map (stored_rows P rs) placed)) = stored_rows P rs job"
  using assms
proof (induction placed)
  case (Cons a placed)
  have own: "filter (\<lambda>g. g_mld g = moldable_id b) (stored_rows P rs b) = stored_rows P rs b" for b
    by (simp add: stored_rows_def)
  have other: "filter (\<lambda>g. g_mld g = i) (stored_rows P rs b) = []" if "moldable_id b \<noteq> i" for b i
    using that by (simp add: stored_rows_def filter_empty_conv)
  show ?case
  proof (cases "job = a")
    case True
    with Cons.prems(1) have "\<forall>b \<in> set placed. moldable_id b \<noteq> moldable_id job" by (metis distinct.simps(2) image_eqI list.simps(9) set_map)
    hence "filter (\<lambda>g. g_mld g = moldable_id job) (concat (map (stored_rows P rs) placed)) = []"
      by (auto simp: filter_empty_conv stored_rows_def)
    with True own show ?thesis by simp
  next
    case False
    with Cons.prems have "job \<in> set placed" "moldable_id a \<noteq> moldable_id job" by auto
    with Cons other show ?thesis by simp
  qed
qed simp

text \<open>The lines of one row of \<open>jobs\<close>, when the gantt tables hold the places of \<open>placed\<close>.\<close>

lemma lines_of_row:
  assumes storable: "\<forall>job \<in> set placed. storable P rs security w job"
    and dist: "distinct (map job_id placed)" "distinct (map moldable_id placed)"
      "distinct (map m_id (t_moldables w))"
  shows "concat (map (row_lines j (t_moldables w) (concat (map (stored_rows P rs) placed)))
      (map (\<lambda>job. \<lparr>p_mld = moldable_id job, p_start = start_time job\<rparr>) placed)) =
    (case find (\<lambda>job. job_id job = j_id j) placed of None \<Rightarrow> []
     | Some job \<Rightarrow> block_lines (block_of P rs security job j))"
proof -
  let ?f = "\<lambda>job. row_lines j (t_moldables w) (concat (map (stored_rows P rs) placed))
    \<lparr>p_mld = moldable_id job, p_start = start_time job\<rparr>"
  have mld: "\<exists>m \<in> set (t_moldables w). m_id m = moldable_id job \<and> m_job m = job_id job \<and>
      m_index m = ''CURRENT'' \<and> walltime job = Some (m_walltime m + security)" if "job \<in> set placed" for job
    using storable that unfolding storable_def by blast
  have other: "?f job = []" if "job \<in> set placed" "job_id job \<noteq> j_id j" for job
  proof -
    from mld [OF that(1)] obtain m where "m \<in> set (t_moldables w)" "m_id m = moldable_id job" "m_job m = job_id job"
      by blast
    with dist(3) that(2) show ?thesis by (intro row_lines_other) auto
  qed
  show ?thesis
  proof (cases "find (\<lambda>job. job_id job = j_id j) placed")
    case None
    hence "\<forall>job \<in> set placed. ?f job = []" using other by (simp add: find_None_iff)
    thus ?thesis by (simp add: None)
  next
    case (Some job)
    hence job: "job \<in> set placed" "job_id job = j_id j" by (auto simp: find_Some_iff)
    have "concat (map ?f placed) = ?f job"
    proof (rule concat_map_single)
      show "distinct placed" using dist(1) by (simp add: distinct_map)
      show "job \<in> set placed" by (rule job(1))
    next
      fix b assume "b \<in> set placed" "b \<noteq> job"
      hence "job_id b \<noteq> j_id j" using job dist(1) by (metis distinct_map inj_onD)
      with \<open>b \<in> set placed\<close> show "?f b = []" by (rule other)
    qed
    moreover from mld [OF job(1)] obtain m where m: "m \<in> set (t_moldables w)" "m_id m = moldable_id job"
      "m_job m = j_id j" "m_index m = ''CURRENT''" "walltime job = Some (m_walltime m + security)"
      using job(2) by auto
    have "?f job = block_lines (block_of P rs security job j)"
      using row_lines_own [OF dist(3) m(1), of "\<lparr>p_mld = moldable_id job, p_start = start_time job\<rparr>" j] m(2-5)
      by (simp add: filter_stored_rows [OF dist(2) job(1)] block_lines_def block_of_def stored_rows_def o_def)
    ultimately show ?thesis by (simp add: Some o_def)
  qed
qed

definition seen :: "'p procset_ops \<Rightarrow> 'p job \<Rightarrow> int \<times> int \<times> int \<times> int option \<times> nat set option" where
  "seen P job = (job_id job, moldable_id job, start_time job, walltime job, map_option (elems P) (res_set job))"

lemma in_set_map_filter: "x \<in> set xs \<Longrightarrow> F x = Some y \<Longrightarrow> y \<in> set (List.map_filter F xs)"
  by (force simp: map_filter_def)

lemma map_eq_via:
  assumes "map f xs = map f ys" and "\<And>a b. f a = f b \<Longrightarrow> g a = g b"
  shows "map g xs = map g ys"
proof (rule nth_equalityI)
  show "length (map g xs) = length (map g ys)" using assms(1) by (metis length_map)
  fix i assume "i < length (map g xs)"
  with assms(1) show "map g xs ! i = map g ys ! i"
    using assms(2) [of "xs ! i" "ys ! i"] by (metis length_map nth_map)
qed

lemma seen_place_of: "place_of a = place_of b \<Longrightarrow> seen P a = seen P b"
  by (simp add: place_of_def seen_def)

lemma save_assigns_stores:
  assumes "placed = filter (\<lambda>job. start_time job > - 1) jobs" "placed \<noteq> []"
    and "\<forall>job \<in> set placed. storable P rs security w job" and "procset P"
  shows "\<exists>w' h. save_assigns P jobs rs w = Inr w' \<and>
    t_predictions w' = t_predictions w @ map (\<lambda>job. \<lparr>p_mld = moldable_id job, p_start = start_time job\<rparr>) placed \<and>
    t_gantt w' = t_gantt w @ concat (map (stored_rows P rs) placed) \<and>
    t_moldables w' = t_moldables w \<and> t_types w' = t_types w \<and> t_jobs w' = map h (t_jobs w) \<and>
    (\<forall>j. j_id (h j) = j_id j \<and> j_state (h j) = j_state j \<and> j_suspended (h j) = j_suspended j)"
proof -
  have rows: "map_res (job_gantt_rows P rs) placed = Inr (map (stored_rows P rs) placed)"
    using assms(3) gantt_rows_storable by (intro map_res_all) blast
  obtain job where "job \<in> set placed" using assms(2) by (cases placed) auto
  moreover from this assms(3) have "stored_rows P rs job \<noteq> []"
    by (auto simp: storable_def stored_rows_def)
  ultimately have "concat (map (stored_rows P rs) placed) \<noteq> []" by auto
  moreover have "jobs \<noteq> []" using assms(1,2) by auto
  ultimately have run: "save_assigns P jobs rs w =
      Inr ((flush_start_times jobs w)\<lparr>t_jobs := map (\<lambda>j. case map_of (map (\<lambda>job. (job_id job,
                 job_message P (j_type j) job (case res_set job of None \<Rightarrow> 0 | Some r \<Rightarrow> int (ps_len P r)))) placed)
                 (j_id j) of None \<Rightarrow> j | Some t \<Rightarrow> j\<lparr>j_message := t\<rparr>) (t_jobs (flush_start_times jobs w)),
             t_predictions := t_predictions (flush_start_times jobs w) @
               map (\<lambda>job. \<lparr>p_mld = moldable_id job, p_start = start_time job\<rparr>) placed,
             t_gantt := t_gantt (flush_start_times jobs w) @ concat (map (stored_rows P rs) placed)\<rparr>)"
    using assms(2) unfolding save_assigns_def Let_def assms(1) [symmetric] rows res_bind_simps insert_rows_def
    by (simp del: concat_eq_Nil_conv)
  let ?msg = "\<lambda>j. case map_of (map (\<lambda>job. (job_id job,
                 job_message P (j_type j) job (case res_set job of None \<Rightarrow> 0 | Some r \<Rightarrow> int (ps_len P r)))) placed)
                 (j_id j) of None \<Rightarrow> j | Some t \<Rightarrow> j\<lparr>j_message := t\<rparr>"
    and ?start = "\<lambda>j. case map_of (map (\<lambda>job. (job_id job, start_time job)) jobs) (j_id j) of
       None \<Rightarrow> j | Some s \<Rightarrow> j\<lparr>j_start_time := s\<rparr>"
  have keeps: "j_id (?msg (?start j)) = j_id j \<and> j_state (?msg (?start j)) = j_state j \<and>
      j_suspended (?msg (?start j)) = j_suspended j" for j
    by (simp split: option.split)
  show ?thesis unfolding run
    by (rule exI, rule exI [where x = "\<lambda>j. ?msg (?start j)"], intro conjI, rule refl)
      (simp_all only: keeps simp_thms, simp_all add: flush_start_times_def)
qed

lemma map_filter_keys: "map (\<lambda>x. k (fst x)) (List.map_filter F js) = map k (filter (\<lambda>j. F j \<noteq> None) js)"
  if "\<And>j x. F j = Some x \<Longrightarrow> fst x = j"
  by (induction js) (auto simp: map_filter_simps that split: option.splits)

text \<open>What is read back from gantt tables that hold the places of \<open>placed\<close>.\<close>

lemma read_back:
  assumes P: "procset P" and preds: "t_predictions w = map (\<lambda>job. \<lparr>p_mld = moldable_id job, p_start = start_time job\<rparr>) placed"
    and gantt: "t_gantt w = concat (map (stored_rows P rs) placed)"
    and storable: "\<forall>job \<in> set placed. storable P rs security w job"
    and dist: "distinct (map job_id placed)" "distinct (map moldable_id placed)"
      "distinct (map m_id (t_moldables w))" "distinct (map j_id (t_jobs w))"
    and types: "\<forall>t \<in> set (t_types w). plain_type (ty_type t)"
  shows "\<exists>jobs. get_scheduled_jobs P lib rs security now w = Inr jobs \<and> seen P ` set jobs = seen P ` set placed"
proof -
  let ?js = "sort_key j_start_time (sort_key j_id (filter (\<lambda>j. True) (t_jobs w)))"
  let ?F = "\<lambda>j. map_option (\<lambda>job. block_of P rs security job j) (find (\<lambda>job. job_id job = j_id j) placed)"
  let ?blocks = "List.map_filter ?F ?js"
  have set_js: "set ?js = set (t_jobs w)" by simp
  have dist_js: "distinct (map j_id ?js)"
    using dist(4) by (simp add: distinct_map inj_on_def)
  have "gantt_lines (\<lambda>j. True) w =
      concat (map (\<lambda>j. case ?F j of None \<Rightarrow> [] | Some x \<Rightarrow> block_lines x) ?js)"
    unfolding gantt_lines_rows preds gantt lines_of_row [OF storable dist(1-3)]
    by (intro arg_cong [where f = concat] map_cong refl) (simp split: option.split)
  hence lines: "gantt_lines (\<lambda>j. True) w = concat (map block_lines ?blocks)"
    by (simp only: concat_map_option)
  have own: "j_state j \<noteq> ''Suspended'' \<and> j_suspended j \<noteq> ''YES'' \<and> j_id j \<noteq> 0"
    if "job \<in> set placed" "j \<in> set (t_jobs w)" "job_id job = j_id j" for job j
  proof -
    from storable that(1) obtain k where "k \<in> set (t_jobs w)" "j_id k = job_id job" "j_id k \<noteq> 0"
      "j_state k \<noteq> ''Suspended''" "j_suspended k \<noteq> ''YES''" by (auto simp: storable_def)
    moreover have "k = j" using calculation that dist(4) by (metis distinct_map inj_onD)
    ultimately show ?thesis by simp
  qed
  have blocks: "\<exists>j job. x = block_of P rs security job j \<and> job \<in> set placed \<and> j \<in> set (t_jobs w) \<and> job_id job = j_id j"
    if "x \<in> set ?blocks" for x
  proof -
    from that obtain j where "j \<in> set ?js" "?F j = Some x" by (auto simp: map_filter_def)
    moreover from this obtain job where "find (\<lambda>job. job_id job = j_id j) placed = Some job"
      and x: "x = block_of P rs security job j" by auto
    hence "job \<in> set placed" "job_id job = j_id j" by (auto simp: find_Some_iff)
    ultimately show ?thesis using x set_js by blast
  qed
  have ok: "block_ok x" if "x \<in> set ?blocks" for x
  proof -
    from blocks [OF that] obtain j job where x: "x = block_of P rs security job j" "job \<in> set placed"
      "j \<in> set (t_jobs w)" "job_id job = j_id j" by blast
    from storable x(2) obtain r where "res_set job = Some r" "elems P r \<noteq> {}"
      "\<forall>n \<in> elems P r. 0 \<le> rs_o2i rs (int n) \<and> rs_o2i rs (int n) < MAX_NB_RESOURCES" by (auto simp: storable_def)
    with own [OF x(2-4)] show ?thesis by (simp add: x(1) block_ok_def block_of_def)
  qed
  have "distinct (map (\<lambda>x. j_id (fst x)) ?blocks)"
    using dist_js by (subst map_filter_keys) (auto simp: block_of_def distinct_map_filter)
  with extract_scheduled_jobs_blocks [of ?blocks P lib rs security now w] ok obtain rid2jid
    where extracted: "extract_scheduled_jobs P lib (concat (map block_lines ?blocks)) rs security now w =
      res_bind (get_jobs_types lib w (map (block_job P rs security now w) ?blocks)) (\<lambda>jobs. Inr (jobs, rid2jid))"
    by blast
  obtain jobs where jobs: "get_jobs_types lib w (map (block_job P rs security now w) ?blocks) = Inr jobs"
    "map place_of jobs = map place_of (map (block_job P rs security now w) ?blocks)"
    using get_jobs_types_plain [OF types] by blast
  have seen_block: "seen P (block_job P rs security now w (block_of P rs security job j)) = seen P job"
    if "job \<in> set placed" "j \<in> set (t_jobs w)" "job_id job = j_id j" for job j
  proof -
    have "storable P rs security w job" using storable that(1) by blast
    then obtain r m where r: "res_set job = Some r"
      "\<forall>n \<in> elems P r. rs_i2o rs (rs_o2i rs (int n)) = int n" "m \<in> set (t_moldables w)"
      "walltime job = Some (m_walltime m + security)"
      unfolding storable_def by blast
    have "map (\<lambda>i. nat (rs_i2o rs i)) (map (\<lambda>n. rs_o2i rs (int n)) (ps_ids P r)) = ps_ids P r"
      using r(2) by (simp add: map_idI)
    thus ?thesis
      using r own [OF that] that(3)
      by (simp add: block_job_def block_of_def scheduled_job_def job_of_row_def seen_def
          procset.elems_of_ids [OF P] o_def)
  qed
  have "seen P ` set jobs = seen P ` set (map (block_job P rs security now w) ?blocks)"
    using arg_cong [where f = set, OF map_eq_via [OF jobs(2) seen_place_of]] by (simp only: set_map)
  also have "\<dots> = seen P ` set placed"
  proof
    have "seen P (block_job P rs security now w x) \<in> seen P ` set placed" if "x \<in> set ?blocks" for x
    proof -
      from blocks [OF that] obtain j job where x: "x = block_of P rs security job j" "job \<in> set placed"
        "j \<in> set (t_jobs w)" "job_id job = j_id j" by blast
      show ?thesis unfolding x(1) seen_block [OF x(2-4)] using x(2) by (rule imageI)
    qed
    thus "seen P ` set (map (block_job P rs security now w) ?blocks) \<subseteq> seen P ` set placed"
      unfolding set_map image_image by (rule image_subsetI)
    show "seen P ` set placed \<subseteq> seen P ` set (map (block_job P rs security now w) ?blocks)"
    proof (rule image_subsetI)
      fix job assume job: "job \<in> set placed"
      with storable obtain j where j: "j \<in> set (t_jobs w)" "j_id j = job_id job" by (auto simp: storable_def)
      obtain job' where f: "find (\<lambda>job. job_id job = j_id j) placed = Some job'"
        using job j(2) by (cases "find (\<lambda>job. job_id job = j_id j) placed") (auto simp: find_None_iff)
      hence "job' \<in> set placed" "job_id job' = j_id j" by (auto simp: find_Some_iff)
      hence "job' = job" using job j(2) dist(1) by (metis distinct_map inj_onD)
      hence "?F j = Some (block_of P rs security job j)" using f by simp
      hence "block_of P rs security job j \<in> set ?blocks"
        using j(1) set_js by (metis (no_types, lifting) in_set_map_filter)
      thus "seen P job \<in> seen P ` set (map (block_job P rs security now w) ?blocks)"
        unfolding set_map seen_block [OF job j(1) j(2) [symmetric], symmetric] by (intro imageI)
    qed
  qed
  finally show ?thesis
    using extracted jobs(1) lines by (simp add: get_scheduled_jobs_def)
qed

section \<open>Properties\<close>

text \<open>
  C25. What \<open>save_assigns\<close> stores, \<open>get_scheduled_jobs\<close> reads back. For jobs whose places the database can
  hold, none of which is suspended, and empty gantt tables: both functions return, and the jobs read are
  those that were given a place, with the same moldable alternative, start, walltime and resources. A job
  without a place is not stored.
\<close>

theorem save_assigns_roundtrip:
  assumes "procset P" and "t_predictions w = []" and "t_gantt w = []"
    and "placed = filter (\<lambda>job. start_time job > - 1) jobs" and "placed \<noteq> []"
    and "\<forall>job \<in> set placed. storable P rs security w job"
    and "distinct (map job_id placed)" and "distinct (map moldable_id placed)"
    and "distinct (map m_id (t_moldables w))" and "distinct (map j_id (t_jobs w))"
    and "\<forall>t \<in> set (t_types w). plain_type (ty_type t)"
  shows "\<exists>w' again. save_assigns P jobs rs w = Inr w' \<and>
    get_scheduled_jobs P lib rs security now w' = Inr again \<and> seen P ` set again = seen P ` set placed"
proof -
  from save_assigns_stores [OF assms(4,5,6,1)] obtain w' h where w': "save_assigns P jobs rs w = Inr w'"
    "t_predictions w' = map (\<lambda>job. \<lparr>p_mld = moldable_id job, p_start = start_time job\<rparr>) placed"
    "t_gantt w' = concat (map (stored_rows P rs) placed)"
    "t_moldables w' = t_moldables w" "t_types w' = t_types w" "t_jobs w' = map h (t_jobs w)"
    and h: "\<And>j. j_id (h j) = j_id j \<and> j_state (h j) = j_state j \<and> j_suspended (h j) = j_suspended j"
    unfolding assms(2,3) by (metis append_Nil)
  have "\<forall>job \<in> set placed. storable P rs security w' job"
    using assms(6) unfolding storable_def w'(4,6) by (auto simp: h)
  moreover have "distinct (map j_id (t_jobs w'))" using assms(10) by (simp add: w'(6) h o_def)
  ultimately show ?thesis
    using read_back [OF assms(1) w'(2,3), of security lib now] assms(7-11) w'(1,4,5) by auto
qed

definition gantt_db :: db where
  "gantt_db = resource_db\<lparr>db_now := 20, t_jobs := [example_job_row\<lparr>j_state := ''Waiting''\<rparr>],
     t_moldables := [\<lparr>m_id = 7, m_job = 1, m_walltime = 60, m_index = ''CURRENT''\<rparr>]\<rparr>"

definition gantt_set :: "nat list resource_set" where
  "gantt_set = \<lparr>rs_nb_all = 3, rs_nb_not_dead = 2, rs_nb_default_not_dead = 2, rs_nb = 0, rs_nb_default = 1,
     rs_i2o = (\<lambda>i. 0)(1 := 0, 3 := 2), rs_o2i = (\<lambda>i. 0)(0 := 1, 2 := 3),
     rs_network_address = [(0, ''n1''), (1, ''n1''), (2, ''n2'')],
     rs_hierarchy = [(''resource_id'', [[0], [2]])], rs_available_upto = [(2147483647, [0, 2])],
     rs_roid_itvs = [0, 2], rs_suspendable_roid_itvs = [0, 2], rs_default_itvs = [0, 2]\<rparr>"

definition gantt_job :: "nat list job" where
  "gantt_job = (job_of_row (example_job_row\<lparr>j_state := ''Waiting''\<rparr>))
     \<lparr>start_time := 30, moldable_id := 7, walltime := Some 120, res_set := Some [2]\<rparr>"

theorem save_assigns_roundtrip_witness:
  "\<forall>lib. \<exists>w' again. save_assigns list_procset [gantt_job] gantt_set gantt_db = Inr w' \<and>
     get_scheduled_jobs list_procset lib gantt_set 60 20 w' = Inr again \<and>
     seen list_procset ` set again = {(1, 7, 30, Some 120, Some {2})}"
proof
  fix lib
  have "storable list_procset gantt_set 60 gantt_db gantt_job"
    by (auto simp: storable_def gantt_db_def gantt_job_def job_of_row_def example_job_row_def gantt_set_def
        list_procset_def MAX_NB_RESOURCES_def id_list_def)
  moreover have "start_time gantt_job > - 1" "t_predictions gantt_db = []" "t_gantt gantt_db = []"
    "distinct (map m_id (t_moldables gantt_db))" "distinct (map j_id (t_jobs gantt_db))" "t_types gantt_db = []"
    by (simp_all add: gantt_job_def gantt_db_def resource_db_def empty_db_def)
  ultimately obtain w' again where "save_assigns list_procset [gantt_job] gantt_set gantt_db = Inr w'"
    "get_scheduled_jobs list_procset lib gantt_set 60 20 w' = Inr again"
    "seen list_procset ` set again = seen list_procset ` set [gantt_job]"
    using save_assigns_roundtrip [OF list_ps.procset_axioms, of gantt_db "[gantt_job]" "[gantt_job]" gantt_set 60 lib 20]
    by auto
  moreover have "seen list_procset gantt_job = (1, 7, 30, Some 120, Some {2})"
    by (simp add: seen_def gantt_job_def job_of_row_def example_job_row_def list_procset_def id_list_def)
  ultimately show "\<exists>w' again. save_assigns list_procset [gantt_job] gantt_set gantt_db = Inr w' \<and>
     get_scheduled_jobs list_procset lib gantt_set 60 20 w' = Inr again \<and>
     seen list_procset ` set again = {(1, 7, 30, Some 120, Some {2})}" by auto
qed

text \<open>
  Two jobs never count as sharing their time: \<open>get_jobs_types\<close> keeps the type \<open>timesharing\<close> out of the
  dictionary in which \<open>is_timesharing_for_two_jobs\<close> looks for it.
\<close>

theorem never_timesharing:
  assumes "get_jobs_types lib w jobs = Inr jobs'" and "j1 \<in> set jobs'"
  shows "\<not> is_timesharing_for_two_jobs j1 j2"
  using get_jobs_types_no_ts [OF assms(1)] assms(2)
  by (auto simp: list_all_iff no_ts_key_def is_timesharing_for_two_jobs_def split: option.splits)

end
