(* ===== verification/Submission.thy ===== *)
theory Submission
  imports Gantt Hierarchy "HOL-Library.List_Lexorder"
begin

text \<open>
  Submission of jobs (\<open>oar/lib/submission.py\<close>, \<open>format_job_message_text\<close> of \<open>oar/lib/tools.py\<close>):
  the resource requests of the command line, the directives of a script, the parameters of a
  submission, the estimation of the resources of a request and the insertion of a single job or of an array of
  jobs.

  Parameters: the SQL properties (\<open>sql\<close> answers \<open>None\<close> on a request that the database refuses), the
  pieces of Python code of the administrator (\<open>apply_rules\<close>), the random numbers of the challenges,
  and what the files, the processes and \<open>ssh-keygen\<close> answer. Of the error messages that quote an
  exception of the system only the beginning is kept, and the error of the estimation is its code.
\<close>

section \<open>Resource requests\<close>

text \<open>The number of blocks: \<open>ALL\<close>, \<open>BESTHALF\<close> and \<open>BEST\<close> are numbers, any other text is kept.\<close>

datatype request_value = Special int | Literal string

type_synonym prop_res = "string \<times> (string \<times> request_value) list"
type_synonym moldable_request = "prop_res list \<times> int option"

definition newline :: char where "newline = CHR 0x0A"

definition py_lstrip :: "string \<Rightarrow> string" where
  "py_lstrip s = dropWhile is_space s"

text \<open>\<open>re.search(r"^\{(.+?)\}(.*)$", s)\<close>: a dot is no newline, \<open>$\<close> may stand before a last one.\<close>

definition match_braces :: "string \<Rightarrow> (string \<times> string) option" where
  "match_braces s = (case s of
     CHR ''{'' # c # cs \<Rightarrow>
       (case dropWhile (\<lambda>x. x \<noteq> CHR ''}'') cs of
          [] \<Rightarrow> None
        | b # r \<Rightarrow>
            let g = c # takeWhile (\<lambda>x. x \<noteq> CHR ''}'') cs;
                r' = (if r \<noteq> [] \<and> last r = newline then butlast r else r) in
            if newline \<in> set g \<or> newline \<in> set r' then None else Some (g, r'))
   | _ \<Rightarrow> None)"

definition parse_value :: "string \<Rightarrow> string \<Rightarrow> (string \<times> request_value) res" where
  "parse_value nodes_resources str_res_value = (case split_on (CHR ''='') (py_lstrip str_res_value) of
     [r, value] \<Rightarrow>
       Inr (if r = ''nodes'' then nodes_resources else r,
            if value = ''ALL'' then Special (- 1)
            else if value = ''BESTHALF'' then Special (- 2)
            else if value = ''BEST'' then Special (- 3)
            else Literal value)
   | _ \<Rightarrow> Inl ValueError)"

definition parse_prop_res :: "string \<Rightarrow> string \<Rightarrow> prop_res res" where
  "parse_prop_res nodes_resources prop_res_req =
     (let (property, str_res_req) = (case match_braces prop_res_req of
            Some m \<Rightarrow> m | None \<Rightarrow> ('''', prop_res_req)) in
      res_bind (map_res (parse_value nodes_resources)
          (filter (\<lambda>v. py_lstrip v \<noteq> '''') (split_on (CHR ''/'') str_res_req))) (\<lambda>resources.
        Inr (property, resources)))"

definition request_walltime :: "string list \<Rightarrow> int option res" where
  "request_walltime res_req_walltime = (case res_req_walltime of
     [r, wt] \<Rightarrow> (case split_on (CHR ''='') wt of
         [k, v] \<Rightarrow> res_bind (hms_str_to_duration v) (\<lambda>d. Inr (Some d))
       | _ \<Rightarrow> Inr None)
   | _ \<Rightarrow> Inr None)"

definition parse_moldable :: "string \<Rightarrow> string \<Rightarrow> string \<Rightarrow> moldable_request res" where
  "parse_moldable default_resources nodes_resources str_resource_request =
     (let parts = split_on (CHR '','') str_resource_request;
          parts' = (if prefix ''walltime='' (hd parts) then [default_resources, hd parts] else parts) in
      res_bind (request_walltime parts') (\<lambda>wt.
      res_bind (map_res (parse_prop_res nodes_resources) (split_on (CHR ''+'') (hd parts'))) (\<lambda>desc.
        Inr (desc, wt))))"

definition parse_resource_descriptions ::
    "string list option \<Rightarrow> string \<Rightarrow> string \<Rightarrow> moldable_request list res" where
  "parse_resource_descriptions str_resource_request_list default_resources nodes_resources =
     map_res (parse_moldable default_resources nodes_resources)
       (case str_resource_request_list of
          None \<Rightarrow> [default_resources]
        | Some l \<Rightarrow> if l = [] then [default_resources] else l)"

section \<open>Estimation of the resources of a request\<close>

definition value_int :: "request_value \<Rightarrow> int res" where
  "value_int v = (case v of Special n \<Rightarrow> Inr n | Literal s \<Rightarrow> py_int s)"

text \<open>A text that may be absent, as a condition and as a part of an SQL request.\<close>

definition text_or_empty :: "string option \<Rightarrow> string" where
  "text_or_empty t = (case t of None \<Rightarrow> '''' | Some s \<Rightarrow> s)"

definition default_type_property :: string where
  "default_type_property = ''type='' @ [CHR 0x27] @ ''default'' @ [CHR 0x27]"

text \<open>\<open>Inr None\<close> is a request that the database refuses.\<close>

definition request_constraints ::
    "'p procset_ops \<Rightarrow> (string \<Rightarrow> (resource_row \<Rightarrow> bool) option) \<Rightarrow> 'p resource_set \<Rightarrow> db \<Rightarrow>
     string option \<Rightarrow> string \<Rightarrow> 'p option res" where
  "request_constraints P sql rs w job_props property =
     (if text_or_empty job_props = '''' \<and> (property = '''' \<or> property = default_type_property)
      then Inr (Some (rs_roid_itvs rs))
      else
        let and_sql = (if text_or_empty job_props \<noteq> '''' \<and> property \<noteq> '''' then '' AND '' else '''') in
        case sql (text_or_empty job_props @ and_sql @ property) of
          None \<Rightarrow> Inr None
        | Some cond \<Rightarrow>
            res_bind (map_res (\<lambda>r. array_get (rs_i2o rs) (r_id r)) (filter cond (t_resources w)))
              (\<lambda>roids. Inr (Some (ps_of_ids P (map nat roids)))))"

text \<open>The number of resources found for one group, \<open>Inr None\<close> as above.\<close>

definition estimate_group ::
    "'p procset_ops \<Rightarrow> (string \<Rightarrow> (resource_row \<Rightarrow> bool) option) \<Rightarrow> 'p resource_set \<Rightarrow> db \<Rightarrow>
     string option \<Rightarrow> prop_res \<Rightarrow> nat option res" where
  "estimate_group P sql rs w job_props prop_res = (case prop_res of (property, resources) \<Rightarrow>
     res_bind (request_constraints P sql rs w job_props property) (\<lambda>constraints. case constraints of
       None \<Rightarrow> Inr None
     | Some itvs \<Rightarrow>
       res_bind (map_res (\<lambda>(r, value). res_bind (lookup_res (map_of (rs_hierarchy rs)) r) (\<lambda>level.
           res_bind (value_int value) (\<lambda>n. Inr (level, n)))) resources) (\<lambda>levels.
       res_bind (find_resource_hierarchies_scattered P (ps_inter P itvs (rs_roid_itvs rs))
           (map fst levels) (map snd levels)) (\<lambda>res_itvs.
         Inr (Some (ps_len P res_itvs))))))"

text \<open>The loop over the groups of an alternative stops at the first refused request.\<close>

fun estimate_groups ::
    "(prop_res \<Rightarrow> nat option res) \<Rightarrow> prop_res list \<Rightarrow> nat \<Rightarrow> nat option res" where
  "estimate_groups est [] n = Inr (Some n)"
| "estimate_groups est (g # gs) n = res_bind (est g) (\<lambda>r. case r of
     None \<Rightarrow> Inr None
   | Some k \<Rightarrow> estimate_groups est gs (n + k))"

definition default_walltime :: "int option \<Rightarrow> db \<Rightarrow> int res" where
  "default_walltime wt w = (case wt of
     Some t \<Rightarrow> if t \<noteq> 0 then Inr t else lookup_res (db_config_int w) ''DEFAULT_JOB_WALLTIME''
   | None \<Rightarrow> lookup_res (db_config_int w) ''DEFAULT_JOB_WALLTIME'')"

fun estimate_alternatives ::
    "(prop_res \<Rightarrow> nat option res) \<Rightarrow> db \<Rightarrow> moldable_request list \<Rightarrow> (nat \<times> int) list option res" where
  "estimate_alternatives est w [] = Inr (Some [])"
| "estimate_alternatives est w ((desc, wt) # ms) =
     res_bind (default_walltime wt w) (\<lambda>walltime.
     res_bind (estimate_groups est desc 0) (\<lambda>r. case r of
       None \<Rightarrow> Inr None
     | Some n \<Rightarrow> res_bind (estimate_alternatives est w ms) (\<lambda>rest.
         Inr (map_option (\<lambda>ns. (n, walltime) # ns) rest))))"

text \<open>The error code, and the estimates when it is 0.\<close>

definition estimate_job_nb_resources ::
    "'p procset_ops \<Rightarrow> (string \<Rightarrow> (resource_row \<Rightarrow> bool) option) \<Rightarrow> (resource_row list \<Rightarrow> resource_row list) \<Rightarrow>
     moldable_request list \<Rightarrow> string option \<Rightarrow> db \<Rightarrow> (int \<times> (nat \<times> int) list option) res" where
  "estimate_job_nb_resources P sql order resource_request job_props w =
     res_bind (resource_set_of P order w) (\<lambda>rs.
     res_bind (estimate_alternatives (estimate_group P sql rs w job_props) w resource_request) (\<lambda>estimates.
     case estimates of
       None \<Rightarrow> Inr (- 5, None)
     | Some ns \<Rightarrow> if \<exists>n \<in> set ns. 0 < fst n then Inr (0, Some ns) else Inr (- 5, None)))"


section \<open>Directives of a script\<close>

text \<open>A value of the dictionaries of options, and its truth.\<close>

datatype arg =
    None_arg | Text string | Number int | Flag bool | Texts "string list" | Numbers "int list"

fun truthy :: "arg \<Rightarrow> bool" where
  "truthy None_arg = False"
| "truthy (Text s) = (s \<noteq> '''')"
| "truthy (Number n) = (n \<noteq> 0)"
| "truthy (Flag b) = b"
| "truthy (Texts l) = (l \<noteq> [])"
| "truthy (Numbers l) = (l \<noteq> [])"

datatype directive = Text_directive | Texts_directive | Number_directive | Numbers_directive | Flag_directive

text \<open>The regular expressions of \<open>scan_script\<close> in their order: the two options, the key of the result.\<close>

definition script_directives :: "(string list \<times> directive \<times> string) list" where
  "script_directives =
     [([''-l'', ''--resource''], Texts_directive, ''resource''),
      ([''-q'', ''--queue''], Text_directive, ''queue''),
      ([''-p'', ''--property''], Text_directive, ''property''),
      ([''--checkpoint''], Number_directive, ''checkpoint''),
      ([''--notify''], Text_directive, ''notify''),
      ([''-t'', ''--type''], Texts_directive, ''types''),
      ([''-d'', ''--directory''], Text_directive, ''directory''),
      ([''-n'', ''--name''], Text_directive, ''name''),
      ([''--project''], Text_directive, ''project''),
      ([''--hold''], Flag_directive, ''hold''),
      ([''-a'', ''--after''], Numbers_directive, ''dependencies''),
      ([''--signal''], Number_directive, ''signal''),
      ([''-O'', ''--stdout''], Text_directive, ''stdout''),
      ([''-E'', ''--stderr''], Text_directive, ''stderr''),
      ([''-k'', ''--use-job-key''], Flag_directive, ''use_job_key''),
      ([''--import-job-key-inline-priv''], Text_directive, ''import_job_key_inline''),
      ([''-i'', ''--import-job-key-from-file''], Text_directive, ''import_job_key_file''),
      ([''-e'', ''--export-job-key-to-file''], Text_directive, ''export_job_key_file''),
      ([''-s'', ''--stagein''], Text_directive, ''stagein''),
      ([''--stagein-md5sum''], Text_directive, ''stagein_md5sum''),
      ([''--array''], Number_directive, ''array''),
      ([''--array-param-file''], Text_directive, ''array_param_file'')]"

text \<open>
  One expression on the part of a stripped line after \<open>#OAR\<close> and its white space: the option that
  matched and the second group.
\<close>

definition match_option :: "string list \<Rightarrow> directive \<Rightarrow> string \<Rightarrow> (string \<times> string) option" where
  "match_option options kind line = (case filter (\<lambda>opt. prefix opt line) options of
     [] \<Rightarrow> None
   | opt # _ \<Rightarrow>
       let arg = py_lstrip (drop (length opt) line);
           ok = (case kind of
                   Flag_directive \<Rightarrow> arg = ''''
                 | Number_directive \<Rightarrow> arg \<noteq> '''' \<and> list_all is_digit arg
                 | Numbers_directive \<Rightarrow> arg \<noteq> '''' \<and> list_all is_digit arg
                 | _ \<Rightarrow> arg \<noteq> '''') in
       if ok then Some (opt, arg) else None)"

fun find_directive ::
    "(string list \<times> directive \<times> string) list \<Rightarrow> string \<Rightarrow> (directive \<times> string \<times> string \<times> string) option" where
  "find_directive [] line = None"
| "find_directive ((options, kind, key) # ds) line = (case match_option options kind line of
     Some (opt, arg) \<Rightarrow> Some (kind, key, opt, arg)
   | None \<Rightarrow> find_directive ds line)"

definition digits_int :: "string \<Rightarrow> int" where
  "digits_int s = foldl (\<lambda>n c. 10 * n + digit_val c) 0 s"

definition directive_value :: "directive \<Rightarrow> string \<Rightarrow> arg option \<Rightarrow> arg" where
  "directive_value kind arg old = (case kind of
     Text_directive \<Rightarrow> Text arg
   | Number_directive \<Rightarrow> Number (digits_int arg)
   | Flag_directive \<Rightarrow> Flag True
   | Texts_directive \<Rightarrow> Texts ((case old of Some (Texts l) \<Rightarrow> l | _ \<Rightarrow> []) @ [arg])
   | Numbers_directive \<Rightarrow> Numbers ((case old of Some (Numbers l) \<Rightarrow> l | _ \<Rightarrow> []) @ [digits_int arg]))"

record scan_state =
  sc_error :: "int \<times> string"
  sc_result :: "(string \<times> arg) list"
  sc_request :: string

text \<open>
  One line. A directive that is recognised ends the round (\<open>continue\<close>), so that only the other lines
  copy the initial request into the result.
\<close>

definition scan_line :: "string \<Rightarrow> scan_state \<Rightarrow> scan_state" where
  "scan_line line s =
     (let copied = (\<lambda>s. s\<lparr>sc_result := AList.update ''initial_request'' (Text (sc_request s)) (sc_result s)\<rparr>) in
      if prefix ''#OAR'' line \<and> drop 4 line \<noteq> '''' \<and> is_space (hd (drop 4 line)) then
        let stripped = py_strip line in
        case (if drop 4 stripped \<noteq> '''' \<and> is_space (hd (drop 4 stripped))
              then find_directive script_directives (py_lstrip (drop 4 stripped)) else None) of
          Some (kind, key, opt, arg) \<Rightarrow>
            s\<lparr>sc_result := AList.update key (directive_value kind arg (map_of (sc_result s) key)) (sc_result s),
              sc_request := sc_request s @ '' '' @ opt @ (if kind = Flag_directive then '''' else '' '' @ arg)\<rparr>
        | None \<Rightarrow> copied (s\<lparr>sc_error := (- 72, ''Not able to parse line: '' @ stripped)\<rparr>)
      else copied s)"

text \<open>\<open>output\<close> is what \<open>cat\<close> printed, \<open>None\<close> when it could not be started.\<close>

definition scan_script ::
    "string \<Rightarrow> string option \<Rightarrow> string \<Rightarrow> string option \<Rightarrow> db \<Rightarrow>
     ((int \<times> string) \<times> (string \<times> arg) list) res" where
  "scan_script submitted_filename output initial_request_str user w =
     res_bind (case user of Some u \<Rightarrow> if u \<noteq> '''' then Inr u else lookup_res (db_environ w) ''OARDO_USER''
                          | None \<Rightarrow> lookup_res (db_environ w) ''OARDO_USER'') (\<lambda>u.
     case output of
       None \<Rightarrow> Inr ((- 70, ''Unable to read: '' @ submitted_filename), [])
     | Some t \<Rightarrow>
         let s = fold scan_line (split_on newline t)
                   \<lparr>sc_error = (0, ''''), sc_result = [], sc_request = initial_request_str\<rparr> in
         Inr (sc_error s, sc_result s))"

section \<open>Parameters of a submission\<close>

record job_parameters =
  jp_job_type :: "string option"
  jp_resource_request :: "moldable_request list"
  jp_command :: "string option"
  jp_info_type :: string
  jp_queue :: string
  jp_properties :: "string option"
  jp_checkpoint :: "int option"
  jp_signal :: int
  jp_notify :: "string option"
  jp_name :: "string option"
  jp_types :: "string list"
  jp_launching_directory :: string
  jp_dependencies :: "int list"
  jp_stdout :: "string option"
  jp_stderr :: "string option"
  jp_hold :: bool
  jp_project :: string
  jp_initial_request :: "string option"
  jp_user :: "string option"
  jp_interactive :: bool
  jp_reservation_date :: "int option"
  jp_connect :: bool
  jp_array_nb :: int
  jp_array_params :: "string list"
  jp_array_param_file :: "string option"
  jp_use_job_key :: bool
  jp_import_job_key_inline :: "string option"
  jp_import_job_key_file :: "string option"
  jp_export_job_key_file :: "string option"
  jp_start_time :: int
  jp_array_id :: int

text \<open>The attribute that the loop over the keys sets.\<close>

definition attribute :: "(string \<Rightarrow> arg option) \<Rightarrow> bool \<Rightarrow> (string \<times> arg) list \<Rightarrow> string \<Rightarrow> arg" where
  "attribute kwargs scanscript scanned key =
     (let given = (case kwargs key of Some a \<Rightarrow> a | None \<Rightarrow> None_arg) in
      if scanscript \<and> (case kwargs key of Some a \<Rightarrow> \<not> truthy a | None \<Rightarrow> False)
      then (case map_of scanned key of Some a \<Rightarrow> a | None \<Rightarrow> given) else given)"

text \<open>The types of the attributes; other types of values are outside of the model.\<close>

definition as_text :: "arg \<Rightarrow> string option res" where
  "as_text a = (case a of None_arg \<Rightarrow> Inr None | Text s \<Rightarrow> Inr (Some s) | _ \<Rightarrow> Inl Unmodelled)"

definition as_number :: "arg \<Rightarrow> int option res" where
  "as_number a = (case a of None_arg \<Rightarrow> Inr None | Number n \<Rightarrow> Inr (Some n) | _ \<Rightarrow> Inl Unmodelled)"

definition as_texts :: "arg \<Rightarrow> string list res" where
  "as_texts a = (case a of None_arg \<Rightarrow> Inr [] | Texts l \<Rightarrow> Inr l | _ \<Rightarrow> Inl Unmodelled)"

definition as_numbers :: "arg \<Rightarrow> int list res" where
  "as_numbers a = (case a of None_arg \<Rightarrow> Inr [] | Numbers l \<Rightarrow> Inr l | _ \<Rightarrow> Inl Unmodelled)"

text \<open>\<open>if not x: x = default\<close>\<close>

definition text_or :: "string option \<Rightarrow> string res \<Rightarrow> string res" where
  "text_or t d = (case t of Some s \<Rightarrow> if s \<noteq> '''' then Inr s else d | None \<Rightarrow> d)"

definition config_text :: "db \<Rightarrow> string \<Rightarrow> string res" where
  "config_text w k = lookup_res (db_config w) k"

text \<open>What the system answers to a submission.\<close>

record submit_env =
  se_script :: "string \<Rightarrow> string option"        \<comment> \<open>\<open>cat\<close> of a file\<close>
  se_home :: "string \<Rightarrow> string"                 \<comment> \<open>\<open>os.path.expanduser("~" + user)\<close>\<close>
  se_hostname :: string

definition new_job_parameters ::
    "submit_env \<Rightarrow> (string \<Rightarrow> arg option) \<Rightarrow> db \<Rightarrow> ((int \<times> string) + job_parameters) res" where
  "new_job_parameters S kwargs w =
     (let scanscript = (case kwargs ''scanscript'' of Some a \<Rightarrow> truthy a | None \<Rightarrow> False) in
      res_bind (if scanscript then
          res_bind (case kwargs ''command'' of None \<Rightarrow> Inl KeyError | Some a \<Rightarrow> as_text a) (\<lambda>command.
          res_bind (case kwargs ''initial_request'' of None \<Rightarrow> Inr None | Some a \<Rightarrow> as_text a) (\<lambda>request.
          res_bind (if kwargs ''initial_request'' \<noteq> None
                    then (case kwargs ''user'' of None \<Rightarrow> Inr None | Some a \<Rightarrow> as_text a) else Inr None) (\<lambda>user.
          case command of None \<Rightarrow> Inl TypeError | Some file_name \<Rightarrow>
            scan_script file_name (se_script S file_name) (text_or_empty request) user w)))
        else Inr ((0, ''''), [])) (\<lambda>(error, scanned).
      if fst error \<noteq> 0 then Inr (Inl error) else
      let attr = attribute kwargs scanscript scanned in
      res_bind (as_text (attr ''job_type'')) (\<lambda>job_type.
      res_bind (as_texts (attr ''resource'')) (\<lambda>resource.
      res_bind (as_text (attr ''command'')) (\<lambda>command.
      res_bind (as_text (attr ''info_type'')) (\<lambda>info_type.
      res_bind (as_text (attr ''queue'')) (\<lambda>queue.
      res_bind (as_text (attr ''properties'')) (\<lambda>properties.
      res_bind (as_number (attr ''checkpoint'')) (\<lambda>checkpoint.
      res_bind (as_number (attr ''signal'')) (\<lambda>signal.
      res_bind (as_text (attr ''notify'')) (\<lambda>notify.
      res_bind (as_text (attr ''name'')) (\<lambda>name.
      res_bind (as_texts (attr ''types'')) (\<lambda>typs.
      res_bind (as_text (attr ''directory'')) (\<lambda>directory.
      res_bind (as_numbers (attr ''dependencies'')) (\<lambda>dependencies.
      res_bind (as_text (attr ''stdout'')) (\<lambda>stdout.
      res_bind (as_text (attr ''stderr'')) (\<lambda>stderr.
      res_bind (as_text (attr ''project'')) (\<lambda>proj.
      res_bind (as_text (attr ''initial_request'')) (\<lambda>request.
      res_bind (as_text (attr ''user'')) (\<lambda>user.
      res_bind (as_number (attr ''reservation_date'')) (\<lambda>reservation_date.
      res_bind (as_number (attr ''array'')) (\<lambda>array.
      res_bind (as_texts (attr ''array_params'')) (\<lambda>array_params.
      res_bind (as_text (attr ''array_param_file'')) (\<lambda>array_param_file.
      res_bind (as_text (attr ''import_job_key_inline'')) (\<lambda>import_inline.
      res_bind (as_text (attr ''import_job_key_file'')) (\<lambda>import_file.
      res_bind (as_text (attr ''export_job_key_file'')) (\<lambda>export_file.
      res_bind (if scanscript then res_bind (lookup_res (map_of scanned) ''initial_request'') as_text
                else Inr (if text_or_empty request = '''' then command else request)) (\<lambda>initial_request.
      res_bind (text_or queue (config_text w ''QUEUE'')) (\<lambda>queue.
      res_bind (text_or proj (config_text w ''PROJECT'')) (\<lambda>proj.
      res_bind (case signal of Some n \<Rightarrow> if n \<noteq> 0 then Inr n else lookup_res (db_config_int w) ''SIGNAL''
                | None \<Rightarrow> lookup_res (db_config_int w) ''SIGNAL'') (\<lambda>signal.
      res_bind (text_or directory (case user of None \<Rightarrow> Inl TypeError | Some u \<Rightarrow> Inr (se_home S u)))
        (\<lambda>launching_directory.
      res_bind (text_or info_type (Inr (se_hostname S @ '':''))) (\<lambda>info_type.
      res_bind (config_text w ''OARSUB_DEFAULT_RESOURCES'') (\<lambda>default_resources.
      res_bind (config_text w ''OARSUB_NODES_RESOURCES'') (\<lambda>nodes_resources.
      res_bind (parse_resource_descriptions (Some resource) default_resources nodes_resources) (\<lambda>rqts.
        Inr (Inr \<lparr>jp_job_type = job_type, jp_resource_request = rqts, jp_command = command,
          jp_info_type = info_type, jp_queue = queue, jp_properties = properties,
          jp_checkpoint = checkpoint, jp_signal = signal, jp_notify = notify, jp_name = name,
          jp_types = typs, jp_launching_directory = launching_directory,
          jp_dependencies = dependencies, jp_stdout = stdout, jp_stderr = stderr,
          jp_hold = truthy (attr ''hold''), jp_project = proj, jp_initial_request = initial_request,
          jp_user = user, jp_interactive = truthy (attr ''interactive''),
          jp_reservation_date = reservation_date, jp_connect = truthy (attr ''connect''),
          jp_array_nb = (case array of Some n \<Rightarrow> if n \<noteq> 0 then n else 1 | None \<Rightarrow> 1),
          jp_array_params = array_params, jp_array_param_file = array_param_file,
          jp_use_job_key = truthy (attr ''use_job_key''), jp_import_job_key_inline = import_inline,
          jp_import_job_key_file = import_file, jp_export_job_key_file = export_file,
          jp_start_time = 0, jp_array_id = 0\<rparr>)))))))))))))))))))))))))))))))))))))"


section \<open>Checks of the parameters\<close>

text \<open>\<open>$\<close> also stands before a last newline.\<close>

definition before_newline :: "string \<Rightarrow> string" where
  "before_newline s = (if s \<noteq> [] \<and> last s = newline then butlast s else s)"

text \<open>\<open>^[...]+$\<close> and \<open>.+$\<close>\<close>

definition matches_all :: "(char \<Rightarrow> bool) \<Rightarrow> string \<Rightarrow> bool" where
  "matches_all ok s = (before_newline s \<noteq> [] \<and> list_all ok (before_newline s))"

definition name_char :: "char \<Rightarrow> bool" where
  "name_char c \<longleftrightarrow> is_digit c \<or> (65 \<le> (of_char c :: nat) \<and> (of_char c :: nat) \<le> 90) \<or>
     (97 \<le> (of_char c :: nat) \<and> (of_char c :: nat) \<le> 122) \<or> c = CHR ''_''"

text \<open>The splits of a text at \<open>exec\s*:\<close>, before and after.\<close>

definition exec_matches :: "string \<Rightarrow> (string \<times> string) list" where
  "exec_matches s = concat (map (\<lambda>i.
     if prefix ''exec'' (drop i s) then
       (case dropWhile is_space (drop (i + 4) s) of
          c # r \<Rightarrow> if c = CHR '':'' then [(take i s, r)] else []
        | [] \<Rightarrow> [])
     else []) [0..<length s])"

definition exec_notify :: "string \<Rightarrow> bool" where
  "exec_notify s = list_ex (\<lambda>(a, r). newline \<notin> set a \<and> matches_all (\<lambda>c. c \<noteq> newline) r) (exec_matches s)"

definition safe_exec_notify :: "string \<Rightarrow> bool" where
  "safe_exec_notify s = list_ex (\<lambda>(a, r).
     matches_all (\<lambda>c. name_char c \<or> c \<in> set [CHR ''.'', CHR ''/'', CHR '' '', CHR ''-'']) r) (exec_matches s)"

definition check_parameters :: "job_parameters \<Rightarrow> int \<times> string" where
  "check_parameters p =
     (if text_or_empty (jp_command p) = '''' \<and> \<not> jp_interactive p \<and>
         (case jp_reservation_date p of None \<Rightarrow> True | Some d \<Rightarrow> d = 0) \<and> \<not> jp_connect p \<and>
         ''noop'' \<notin> set (jp_types p)
      then (5, ''Command or interactive flag or advance reservation time or connection directive must be provided'')
      else if jp_interactive p \<and> (case jp_reservation_date p of None \<Rightarrow> False | Some d \<Rightarrow> d \<noteq> 0)
      then (7, ''An advance reservation cannot be interactive.'')
      else if jp_interactive p \<and> ''desktop_computing'' \<in> set (jp_types p)
      then (17, ''A desktop computing job cannot be interactive'')
      else if (\<exists>t \<in> set (jp_types p). before_newline t = ''noop'') \<and> jp_interactive p
      then (17, ''a NOOP job cannot be interactive.'')
      else if (\<exists>t \<in> set (jp_types p). before_newline t = ''noop'') \<and> jp_connect p
      then (17, ''A NOOP job does not have a shell to connect to.'')
      else if exec_notify (text_or_empty (jp_notify p)) \<and> \<not> safe_exec_notify (text_or_empty (jp_notify p))
      then (16, ''insecure characters found in the notification method (the allowed regexp is: [a-zA-Z0-9_.'' @
                [CHR 0x5C] @ ''/ -]+).'')
      else (0, ''''))"

text \<open>The lines of the file of the parameters that are no comment and not blank; \<open>None\<close> as above.\<close>

definition read_array_param_file ::
    "string option \<Rightarrow> job_parameters \<Rightarrow> (int \<times> string) \<times> job_parameters" where
  "read_array_param_file output p = (case output of
     None \<Rightarrow> ((12, ''Cannot open the parameter file '' @ text_or_empty (jp_array_param_file p)),
              p\<lparr>jp_array_nb := 0, jp_array_params := []\<rparr>)
   | Some t \<Rightarrow>
       let kept = filter (\<lambda>line. \<not> (prefix ''#'' line \<or> list_all is_space line)) (split_on newline t);
           p' = p\<lparr>jp_array_nb := int (length kept), jp_array_params := kept\<rparr> in
       (if kept = [] then ((6, ''An array of job must have a number of sub-jobs greater than 0.''), p')
        else ((0, ''''), p')))"

section \<open>Job keys\<close>

text \<open>
  What the key files and \<open>ssh-keygen\<close> give: the text of an error when a process failed, and the two files,
  \<open>None\<close> when one cannot be read.
\<close>

record key_io =
  key_generated :: "string option"
  key_extracted :: "string option"
  key_written :: "string option"
  key_private_file :: "string option"
  key_public_file :: "string option"

text \<open>\<open>^(ssh-rsa|ssh-dss)\s.+\n*$\<close>\<close>

definition valid_public_key :: "string \<Rightarrow> bool" where
  "valid_public_key key \<longleftrightarrow> (prefix ''ssh-rsa'' key \<or> prefix ''ssh-dss'' key) \<and>
     (case drop 7 key of
        [] \<Rightarrow> False
      | c # r \<Rightarrow> is_space c \<and> takeWhile (\<lambda>x. x \<noteq> newline) r \<noteq> [] \<and>
          list_all (\<lambda>x. x = newline) (dropWhile (\<lambda>x. x \<noteq> newline) r))"

text \<open>
  The temporary file receives \<open>import_job_key_inline\<close> also when the key is imported from a file: writing
  \<open>None\<close> raises, which the handler turns into an error.
\<close>

definition job_key_management ::
    "key_io \<Rightarrow> bool \<Rightarrow> string option \<Rightarrow> string option \<Rightarrow> string option \<Rightarrow> db \<Rightarrow>
     ((int \<times> string) \<times> string \<times> string) res" where
  "job_key_management K use_job_key import_inline import_file0 export_file w =
     (let import_file = (if use_job_key \<and> text_or_empty import_inline = '''' \<and>
              text_or_empty import_file0 = '''' then
            (case db_environ w ''OAR_JOB_KEY_FILE'' of Some f \<Rightarrow> Some f | None \<Rightarrow> import_file0) else import_file0);
          inline = text_or_empty import_inline \<noteq> ''''; from_file = text_or_empty import_file \<noteq> '''' in
      if \<not> use_job_key then
        Inr (if inline \<or> from_file \<or> text_or_empty export_file \<noteq> '''' then
          ((- 15, ''You must set the --use-job-key (or -k) option in order to use other job key related options.''),
            '''', '''')
         else ((0, ''''), '''', ''''))
      else if inline \<and> from_file then
        Inr ((- 15, ''You cannot import a job key both inline and from a file at the same time.''), '''', '''')
      else if from_file \<and> db_environ w ''OARDO_USER'' = None then Inl KeyError
      else if (inline \<or> from_file) \<and> (key_written K \<noteq> None \<or> import_inline = None) then
        Inr ((- 14, ''Cannot open tmp file and write in: '' @ text_or_empty (key_written K)), '''', '''')
      else if (inline \<or> from_file) \<and> key_extracted K \<noteq> None then
        Inr ((- 14, ''Fail to extract the public key. '' @ text_or_empty (key_extracted K)), '''', '''')
      else if \<not> (inline \<or> from_file) \<and> key_generated K \<noteq> None then
        Inr ((- 14, ''Job key generation failed. '' @ text_or_empty (key_generated K)), '''', '''')
      else (case key_private_file K of
          None \<Rightarrow> Inr ((- 14, '' Fail to read private key. ''), '''', '''')
        | Some private \<Rightarrow> (case key_public_file K of
            None \<Rightarrow> Inr ((- 14, '' Fail to read public key. ''), '''', '''')
          | Some public \<Rightarrow> Inr
              (if public = '''' then ((- 15, ''Missing job public key (private key found);''), '''', '''')
               else if private = '''' then ((- 15, ''Missing job private key.''), '''', '''')
               else if \<not> valid_public_key public then
                 ((- 14, ''Bad job key format. The public key must begin with either '' @
                    [CHR 0x27] @ ''ssh-rsa'' @ [CHR 0x27] @ '' or '' @ [CHR 0x27] @ ''ssh-dss'' @ [CHR 0x27] @
                    '' and is only 1 line.''), '''', '''')
               else ((0, ''''), private, filter (\<lambda>c. c \<noteq> newline) public)))))"

section \<open>Insertion of a job\<close>

definition format_job_message_text ::
    "string option \<Rightarrow> nat \<Rightarrow> int \<Rightarrow> string option \<Rightarrow> int option \<Rightarrow> string \<Rightarrow> string \<Rightarrow> string list \<Rightarrow>
     string \<Rightarrow> string" where
  "format_job_message_text name estimated_nb_resources estimated_walltime job_type reservation queue proj
     types_list additional_msg =
     (let job_mode = (if (case reservation of None \<Rightarrow> False | Some d \<Rightarrow> d \<noteq> 0) then ''R''
                      else if job_type = Some ''INTERACTIVE'' then ''I'' else ''B'');
          types_to_text = (if types_list \<noteq> [] then ''T='' @ py_join ''|'' types_list @ '','' else '''');
          message = ''R='' @ nat_str estimated_nb_resources @ '',W='' @ duration_to_sql estimated_walltime @
            '',J='' @ job_mode @ '','' @
            (if text_or_empty name \<noteq> '''' then ''N='' @ text_or_empty name @ '','' else '''') @
            (if queue \<noteq> ''default'' \<and> queue \<noteq> ''besteffort'' then ''Q='' @ queue @ '','' else '''') @
            (if proj \<noteq> ''default'' then ''P='' @ proj @ '','' else '''') @ types_to_text in
      butlast message @ (if additional_msg \<noteq> '''' then '' ('' @ additional_msg @ '')'' else ''''))"

text \<open>
  \<open>re.sub(r"%jobname%", name, s)\<close>; a backslash in the name would be a reference to a group and is
  outside of the model.
\<close>

function substitute :: "string \<Rightarrow> string \<Rightarrow> string \<Rightarrow> string" where
  "substitute pat new s =
     (if s = [] \<or> pat = [] then s
      else if prefix pat s then new @ substitute pat new (drop (length pat) s)
      else hd s # substitute pat new (tl s))"
  by pat_completeness auto
termination
  by (relation "measure (\<lambda>(pat, new, s). length s)") auto

declare substitute.simps [simp del]

definition output_file :: "string option \<Rightarrow> string option \<Rightarrow> string \<Rightarrow> string res" where
  "output_file given name ending =
     (if text_or_empty given = '''' then
        Inr (''OAR'' @ (case name of None \<Rightarrow> '''' | Some n \<Rightarrow> ''.'' @ n) @ ending)
      else (case name of
          None \<Rightarrow> Inr (text_or_empty given)
        | Some n \<Rightarrow> if CHR 0x5C \<in> set n then Inl Unmodelled
                    else Inr (substitute ''%jobname%'' n (text_or_empty given))))"

text \<open>A column that the model keeps as a value.\<close>

definition column :: "'a option \<Rightarrow> 'a res" where
  "column x = (case x of None \<Rightarrow> Inl Unmodelled | Some v \<Rightarrow> Inr v)"

text \<open>\<open>JobParameters.kwargs\<close> and the columns that the two insertions add; the others have their defaults.\<close>

definition job_columns ::
    "job_parameters \<Rightarrow> string option \<Rightarrow> int \<Rightarrow> string \<Rightarrow> string \<Rightarrow> string \<Rightarrow> job_row res" where
  "job_columns p command date message stdout stderr =
     res_bind (column (jp_job_type p)) (\<lambda>job_type.
     res_bind (column (jp_checkpoint p)) (\<lambda>checkpoint.
     res_bind (column (jp_user p)) (\<lambda>user.
       Inr \<lparr>j_id = 0, j_array_id = jp_array_id p, j_array_index = 1,
         j_initial_request = jp_initial_request p, j_name = jp_name p, j_env = None, j_type = job_type,
         j_info_type = Some (jp_info_type p), j_state = ''Hold'', j_reservation = ''None'',
         j_message = message, j_scheduler_info = '''', j_user = user, j_project = jp_project p,
         j_group = '''', j_command = command, j_exit_code = None, j_queue_name = jp_queue p,
         j_properties = jp_properties p, j_launching_directory = jp_launching_directory p,
         j_submission_time = date, j_start_time = jp_start_time p, j_stop_time = 0, j_file_id = None,
         j_accounted = ''NO'', j_notify = jp_notify p, j_assigned_moldable_job = 0,
         j_checkpoint = checkpoint, j_checkpoint_signal = jp_signal p, j_stdout_file = Some stdout,
         j_stderr_file = Some stderr, j_resubmit_job_id = 0, j_suspended = ''NO''\<rparr>)))"

text \<open>The parts of a request: rows of the moldables, of their groups and of the levels of a group.\<close>

definition insert_moldables :: "(int \<times> int) list \<Rightarrow> db \<Rightarrow> db" where
  "insert_moldables rows w =
     (let mid = fresh_id (map m_id (t_moldables w)) in
      w\<lparr>t_moldables := t_moldables w @
          insert_rows \<lparr>m_id = mid, m_job = 0, m_walltime = 0, m_index = ''CURRENT''\<rparr>
            (map (\<lambda>(k, (jid, wt)). \<lparr>m_id = mid + int k, m_job = jid, m_walltime = wt, m_index = ''CURRENT''\<rparr>)
              (enumerate 0 rows))\<rparr>)"

definition insert_group_rows :: "(int \<times> string) list \<Rightarrow> db \<Rightarrow> db" where
  "insert_group_rows rows w =
     (let gid = fresh_id (map gr_id (t_groups w)) in
      w\<lparr>t_groups := t_groups w @
          insert_rows \<lparr>gr_id = gid, gr_mld = 0, gr_property = Some '''', gr_index = ''CURRENT''\<rparr>
            (map (\<lambda>(k, (mld, property)). \<lparr>gr_id = gid + int k, gr_mld = mld, gr_property = Some property,
                    gr_index = ''CURRENT''\<rparr>) (enumerate 0 rows))\<rparr>)"

definition level_descrs :: "int \<Rightarrow> (string \<times> request_value) list \<Rightarrow> descr_row list res" where
  "level_descrs gid resources =
     map_res (\<lambda>(idx, (r, value)). res_bind (value_int value) (\<lambda>n.
       Inr \<lparr>de_group = gid, de_type = r, de_value = n, de_order = int idx, de_index = ''CURRENT''\<rparr>))
       (enumerate 0 resources)"

definition insert_descrs :: "descr_row list \<Rightarrow> db \<Rightarrow> db" where
  "insert_descrs rows w = w\<lparr>t_descrs := t_descrs w @
     insert_rows \<lparr>de_group = 0, de_type = '''', de_value = 0, de_order = 0, de_index = ''CURRENT''\<rparr> rows\<rparr>"

text \<open>
  The keys of the inserted rows: the primary key when there is one row, otherwise all the rows that
  refer to the same job or moldable.
\<close>

definition inserted_ids :: "nat \<Rightarrow> int \<Rightarrow> int list \<Rightarrow> int list" where
  "inserted_ids n inserted found = (if n = 1 then [inserted] else found)"

definition submit_alternative :: "int list \<Rightarrow> nat \<times> prop_res list \<Rightarrow> db \<Rightarrow> db res" where
  "submit_alternative mld_ids x w = (case x of (mld_idx, desc) \<Rightarrow>
     res_bind (nth_res mld_ids mld_idx) (\<lambda>mld.
     let w1 = insert_group_rows (map (\<lambda>(property, r). (mld, property)) desc) w;
         grp_ids = inserted_ids (length desc) (fresh_id (map gr_id (t_groups w)))
           (map gr_id (filter (\<lambda>g. gr_mld g = mld) (t_groups w1))) in
     fold_res (\<lambda>(grp_idx, (property, resources)) w.
       res_bind (nth_res grp_ids grp_idx) (\<lambda>gid.
       res_bind (level_descrs gid resources) (\<lambda>rows. Inr (insert_descrs rows w))))
       (enumerate 0 desc) w1))"

definition submit_request :: "int \<Rightarrow> moldable_request list \<Rightarrow> db \<Rightarrow> db res" where
  "submit_request jid rqts w =
     res_bind (map_res (\<lambda>(desc, wt). default_walltime wt w) rqts) (\<lambda>wts.
     let w1 = insert_moldables (map (\<lambda>wt. (jid, wt)) wts) w;
         mld_ids = inserted_ids (length rqts) (fresh_id (map m_id (t_moldables w)))
           (map m_id (filter (\<lambda>m. m_job m = jid) (t_moldables w1))) in
     fold_res (submit_alternative mld_ids) (enumerate 0 (map fst rqts)) w1)"

definition insert_dependencies :: "int \<Rightarrow> int list \<Rightarrow> db \<Rightarrow> db" where
  "insert_dependencies jid required w = w\<lparr>t_deps := t_deps w @
     map (\<lambda>d. \<lparr>d_job = jid, d_required = d, d_index = ''CURRENT''\<rparr>) required\<rparr>"

definition insert_state_log :: "string \<Rightarrow> int \<Rightarrow> int \<Rightarrow> db \<Rightarrow> db" where
  "insert_state_log state date jid w = w\<lparr>t_state_logs := t_state_logs w @
     [\<lparr>l_id = fresh_id (map l_id (t_state_logs w)), l_job = jid, l_state = state, l_start = date,
       l_stop = 0\<rparr>]\<rparr>"

definition insert_challenge :: "int \<Rightarrow> int \<Rightarrow> string \<Rightarrow> string \<Rightarrow> db \<Rightarrow> db" where
  "insert_challenge jid rnd private public w = w\<lparr>t_challenges := t_challenges w @
     [\<lparr>c_job = jid, c_challenge = int_str rnd, c_private_key = private, c_public_key = public\<rparr>]\<rparr>"

definition insert_job_row :: "job_row \<Rightarrow> db \<Rightarrow> db" where
  "insert_job_row row w = w\<lparr>t_jobs := t_jobs w @ [row\<lparr>j_id := fresh_id (map j_id (t_jobs w))\<rparr>]\<rparr>"

text \<open>The rest of a submission, given what it does not compute itself.\<close>

record 'p submit_site =
  ss_sql :: "string \<Rightarrow> (resource_row \<Rightarrow> bool) option"
  ss_order :: "resource_row list \<Rightarrow> resource_row list"
  ss_random :: "int \<Rightarrow> int"                   \<comment> \<open>the challenge of a job\<close>
  ss_keys :: "int \<Rightarrow> key_io"                  \<comment> \<open>by number of the job in its array\<close>

text \<open>
  The guard of the properties of the administrator names an attribute with a colon, which no object
  has: they are never added.
\<close>

definition add_micheline_subjob ::
    "'p procset_ops \<Rightarrow> 'p submit_site \<Rightarrow> job_parameters \<Rightarrow> string \<Rightarrow> string \<Rightarrow> int \<Rightarrow> int \<Rightarrow> string option \<Rightarrow>
     db \<Rightarrow> ((int \<times> int) \<times> db) res" where
  "add_micheline_subjob P S p private public array_id arr_index command w =
     res_bind (estimate_job_nb_resources P (ss_sql S) (ss_order S) (jp_resource_request p) (jp_properties p) w)
       (\<lambda>(code, estimates).
     case estimates of
       None \<Rightarrow> Inr ((code, - 1), w)
     | Some ns \<Rightarrow>
       res_bind (output_file (jp_stdout p) (jp_name p) ''.%jobid%.stdout'') (\<lambda>stdout.
       res_bind (output_file (jp_stderr p) (jp_name p) ''.%jobid%.stderr'') (\<lambda>stderr.
       let (nbr, wt) = hd ns;
           date = get_date w;
           resa = (case jp_reservation_date p of None \<Rightarrow> False | Some d \<Rightarrow> d \<noteq> 0);
           message = format_job_message_text (jp_name p) nbr wt (jp_job_type p) (jp_reservation_date p)
             (jp_queue p) (jp_project p) (jp_types p) '''';
           jid = fresh_id (map j_id (t_jobs w)) in
       res_bind (job_columns p command date message stdout stderr) (\<lambda>row.
       let w1 = insert_job_row (row\<lparr>j_reservation := (if resa then ''toSchedule'' else ''None''),
             j_array_index := arr_index, j_array_id := (if array_id > 0 then array_id else jid)\<rparr>) w;
           w2 = insert_challenge jid (ss_random S jid) private public w1 in
       res_bind (submit_request jid (jp_resource_request p) w2) (\<lambda>w3.
       let w4 = fold (add_current_job_types jid) (jp_types p) w3;
           w5 = insert_dependencies jid (jp_dependencies p) w4;
           state = (if jp_hold p then ''Hold'' else ''Waiting'');
           w6 = insert_state_log state date jid w5 in
       Inr ((0, jid), if jp_hold p then w6 else update_job jid (\<lambda>j. j\<lparr>j_state := ''Waiting''\<rparr>) w6))))))"


section \<open>An array of jobs\<close>

text \<open>
  \<open>add_micheline_simple_array_job\<close>. The error of the estimation is not looked at: its missing estimates
  are indexed, a \<open>TypeError\<close>.
\<close>

definition array_rows :: "job_row \<Rightarrow> int \<Rightarrow> string list \<Rightarrow> job_row list" where
  "array_rows row arr_index commands =
     map (\<lambda>(k, command). row\<lparr>j_command := Some command, j_array_index := arr_index + int k\<rparr>) (enumerate 0 commands)"

definition add_micheline_simple_array_job ::
    "'p procset_ops \<Rightarrow> 'p submit_site \<Rightarrow> job_parameters \<Rightarrow> int \<Rightarrow> string list \<Rightarrow> db \<Rightarrow>
     (((int \<times> string) \<times> int list) \<times> db) res" where
  "add_micheline_simple_array_job P S p arr_index array_commands w =
     (if length (jp_resource_request p) > 1
      then Inr (((- 30, ''array jobs cannot be moldable''), []), w)
      else
        res_bind (estimate_job_nb_resources P (ss_sql S) (ss_order S) (jp_resource_request p)
            (jp_properties p) w) (\<lambda>(code, estimates).
        res_bind (output_file (jp_stdout p) (jp_name p) ''.%jobid%.stdout'') (\<lambda>stdout.
        res_bind (output_file (jp_stderr p) (jp_name p) ''.%jobid%.stderr'') (\<lambda>stderr.
        res_bind (nth_res array_commands 0) (\<lambda>command.
        case estimates of
          None \<Rightarrow> Inl TypeError
        | Some ns \<Rightarrow>
          let (nbr, wt) = hd ns;
              date = get_date w;
              message = format_job_message_text (jp_name p) nbr wt (jp_job_type p) (jp_reservation_date p)
                (jp_queue p) (jp_project p) (jp_types p) '''';
              first = fresh_id (map j_id (t_jobs w)) in
          if tl array_commands = [] then Inl Unmodelled else
          res_bind (job_columns p (Some command) date message stdout stderr) (\<lambda>row.
          let w1 = insert_job_row (row\<lparr>j_array_index := arr_index, j_array_id := first\<rparr>) w;
              w2 = fold insert_job_row
                     (array_rows (row\<lparr>j_array_id := first\<rparr>) (arr_index + 1) (tl array_commands)) w1;
              ids = map j_id (filter (\<lambda>j. j_array_id j = first) (t_jobs w2));
              w3 = fold (\<lambda>jid. insert_challenge jid (ss_random S jid) '''' '''') ids w2 in
          res_bind (nth_res (jp_resource_request p) 0) (\<lambda>(desc, moldable_wt).
          res_bind (default_walltime moldable_wt w) (\<lambda>walltime.
          let w4 = insert_moldables (map (\<lambda>jid. (jid, walltime)) ids) w3;
              mlds = map m_id (filter (\<lambda>m. m_job m \<in> set ids) (sort_key m_id (t_moldables w4)));
              w5 = insert_group_rows
                (concat (map (\<lambda>mld. map (\<lambda>(property, resources). (mld, property)) desc) mlds)) w4;
              grps = map gr_id (filter (\<lambda>g. gr_mld g \<in> set mlds) (sort_key gr_id (t_groups w5))) in
          res_bind (map_res (\<lambda>(k, (property, resources)).
              res_bind (nth_res grps k) (\<lambda>gid. level_descrs gid resources))
              (enumerate 0 (concat (map (\<lambda>command. desc) array_commands)))) (\<lambda>descrs.
          let w6 = insert_descrs (concat descrs) w5;
              w7 = fold (\<lambda>jid. fold (add_current_job_types jid) (jp_types p)) ids w6;
              w8 = fold (\<lambda>jid. insert_dependencies jid (jp_dependencies p)) ids w7;
              state = (if jp_hold p then ''Hold'' else ''Waiting'');
              w9 = (if jp_hold p then w8
                    else w8\<lparr>t_jobs := sql_update (\<lambda>j. j_array_id j = first)
                           (\<lambda>j. j\<lparr>j_state := state\<rparr>) (t_jobs w8)\<rparr>) in
          Inr (((0, ''''), ids), fold (insert_state_log state date) ids w9))))))))))"

section \<open>The whole submission\<close>

text \<open>
  \<open>^\s*(\[\s*(.+)\s*\]\s*)?(mail|exec)\s*:.+$\<close>: the method after an optional list of tags in brackets.
\<close>

definition notify_method :: "string \<Rightarrow> bool" where
  "notify_method s = ((prefix ''mail'' s \<or> prefix ''exec'' s) \<and>
     (case dropWhile is_space (drop 4 s) of
        [] \<Rightarrow> False
      | c # r \<Rightarrow> c = CHR '':'' \<and> matches_all (\<lambda>x. x \<noteq> newline) r))"

definition notify_tags :: "string \<Rightarrow> bool" where
  "notify_tags g = (if py_strip g = '''' then list_ex (\<lambda>c. c \<noteq> newline) g else newline \<notin> set (py_strip g))"

definition valid_notify :: "string \<Rightarrow> bool" where
  "valid_notify s =
     (let t = py_lstrip s in
      notify_method t \<or>
      (prefix ''['' t \<and> list_ex (\<lambda>i. t ! i = CHR '']'' \<and> notify_tags (take (i - 1) (tl t)) \<and>
          notify_method (py_lstrip (drop (i + 1) t))) [1..<length t]))"

definition path_char :: "char \<Rightarrow> bool" where
  "path_char c \<longleftrightarrow> name_char c \<or> c \<in> set [CHR ''.'', CHR ''/'', CHR ''-'', CHR ''%'', CHR 0x5C, CHR '' '']"

text \<open>
  The rules of the administrator: rows of \<open>admission_rules\<close> or files of a directory, pieces of Python
  code. \<open>apply_rules\<close> gives the parameters after the execution, or the text of the exception; \<open>None\<close> when the
  code does not compile.
\<close>

record admission_rule_row =
  ar_id :: int
  ar_rule :: string
  ar_priority :: int
  ar_enabled :: string

record admission =
  rule_rows :: "admission_rule_row list"
  rule_files :: "(string \<times> string) list"
  apply_rules :: "string \<Rightarrow> job_parameters \<Rightarrow> (string + job_parameters) option"

definition rule_file_name :: "string \<Rightarrow> bool" where
  "rule_file_name s = (takeWhile is_digit s \<noteq> '''' \<and> prefix ''_'' (dropWhile is_digit s))"

definition admission_rules :: "admission \<Rightarrow> db \<Rightarrow> string" where
  "admission_rules A w =
     (if db_config w ''ADMISSION_RULES_IN_FILES'' = Some ''yes'' then
        concat (map snd (filter (\<lambda>(name, content). rule_file_name name)
          (sort_key (\<lambda>(name, content). map (of_char :: char \<Rightarrow> nat) name) (rule_files A))))
      else py_join [newline] (map ar_rule (sort_key ar_priority (sort_key ar_id
          (filter (\<lambda>r. ar_enabled r = ''YES'') (rule_rows A))))))"

text \<open>The loop over the commands; it stops at the first error with the jobs that are already in.\<close>

fun add_subjobs ::
    "'p procset_ops \<Rightarrow> 'p submit_site \<Rightarrow> job_parameters \<Rightarrow> string option list \<Rightarrow> int \<Rightarrow> int \<Rightarrow> int list \<Rightarrow> db \<Rightarrow>
     (((int \<times> string) \<times> int list) \<times> db) res" where
  "add_subjobs P S p [] array_id arr_index ids w = Inr (((0, ''''), ids), w)"
| "add_subjobs P S p (command # commands) array_id arr_index ids w =
     res_bind (job_key_management (ss_keys S arr_index) (jp_use_job_key p) (jp_import_job_key_inline p)
         (jp_import_job_key_file p) (jp_export_job_key_file p) w) (\<lambda>(error, private, public).
     if fst error \<noteq> 0 then Inr ((error, ids), w) else
     res_bind (add_micheline_subjob P S p private public array_id arr_index command w) (\<lambda>((code, jid), w').
     if code \<noteq> 0 then Inr (((code, ''''), ids), w') else
     let ids' = ids @ [jid] in
     if jp_use_job_key p \<and> text_or_empty (jp_export_job_key_file p) \<noteq> '''' \<and>
        db_environ w ''OARDO_BECOME_USER'' = None then Inl KeyError else
     add_subjobs P S p commands (if array_id \<le> 0 then hd ids' else array_id) (arr_index + 1) ids' w'))"

text \<open>The steps before the rules: syntax of the parameters.\<close>

definition check_syntax :: "job_parameters \<Rightarrow> (int \<times> string) option res" where
  "check_syntax p = (case jp_user p of
     None \<Rightarrow> Inl TypeError
   | Some user \<Rightarrow> Inr
      (if \<not> matches_all (\<lambda>c. name_char c \<or> c = CHR ''-'') user then Some (- 11, ''invalid username:'')
       else if text_or_empty (jp_notify p) \<noteq> '''' \<and> \<not> valid_notify (text_or_empty (jp_notify p))
       then Some (- 6, ''bad syntax for the notify option.'')
       else if text_or_empty (jp_stdout p) \<noteq> '''' \<and> \<not> matches_all path_char (text_or_empty (jp_stdout p))
       then Some (12, ''invalid stdout file name (bad character)'')
       else if text_or_empty (jp_stderr p) \<noteq> '''' \<and> \<not> matches_all path_char (text_or_empty (jp_stderr p))
       then Some (- 13, ''invalid stderr file name (bad character)'')
       else None))"

definition array_commands_of :: "job_parameters \<Rightarrow> string option list res" where
  "array_commands_of p =
     (if jp_array_params p \<noteq> [] then
        (case jp_command p of None \<Rightarrow> Inl TypeError
         | Some c \<Rightarrow> Inr (map (\<lambda>params. Some (c @ '' '' @ params)) (jp_array_params p)))
      else Inr (replicate (nat (jp_array_nb p)) (jp_command p)))"

definition add_micheline_jobs ::
    "'p procset_ops \<Rightarrow> 'p submit_site \<Rightarrow> admission \<Rightarrow> job_parameters \<Rightarrow> db \<Rightarrow>
     (((int \<times> string) \<times> int list) \<times> db) res" where
  "add_micheline_jobs P S A p0 w =
     (let p1 = (case jp_reservation_date p0 of
            Some d \<Rightarrow> if d \<noteq> 0 then p0\<lparr>jp_start_time := d\<rparr> else p0 | None \<Rightarrow> p0) in
      res_bind (check_syntax p1) (\<lambda>bad. case bad of
        Some error \<Rightarrow> Inr ((error, []), w)
      | None \<Rightarrow>
        res_bind (config_text w ''QUOTAS'') (\<lambda>quotas.
        let p2 = (if quotas = ''yes'' then p1\<lparr>jp_types := remove1 ''no_quotas'' (jp_types p1)\<rparr> else p1) in
        case apply_rules A (admission_rules A w) p2 of
          None \<Rightarrow> Inl Raised_exception
        | Some (Inl msg) \<Rightarrow>
            Inr (((- 2, msg @ '', a failed admission rule prevented submitting the job.''), []), w)
        | Some (Inr p3) \<Rightarrow>
          if filter (\<lambda>q. q_name q = jp_queue p3) (t_queues w) = []
          then Inr (((- 8, ''queue '' @ jp_queue p3 @ '' does not exist''), []), w)
          else
            let p4 = (if quotas = ''yes'' \<and> jp_queue p3 = ''admin''
                      then p3\<lparr>jp_types := jp_types p3 @ [''no_quotas'']\<rparr> else p3) in
            res_bind (array_commands_of p4) (\<lambda>commands.
            let p5 = (if jp_array_params p4 \<noteq> [] then p4\<lparr>jp_array_nb := int (length commands)\<rparr> else p4) in
            if jp_array_nb p5 > 1 \<and> \<not> jp_use_job_key p5
            then (if None \<in> set commands then Inl Unmodelled
                  else res_bind (add_micheline_simple_array_job P S p5 1 (map the commands) w) (\<lambda>((error, ids), w').
                    Inr (((0, ''''), ids), w')))
            else add_subjobs P S p5 commands 0 1 [] w))))"


definition submit ::
    "'p procset_ops \<Rightarrow> 'p submit_site \<Rightarrow> admission \<Rightarrow> job_parameters \<Rightarrow> db \<Rightarrow>
     (((int \<times> string) \<times> int list) \<times> db) res" where
  "submit P S A p w = add_micheline_jobs P S A p w"

text \<open>
  The date of an advance reservation, \<open>YYYY-MM-DD hh:mm:ss\<close>; \<open>to_local\<close> is \<open>sql_to_local\<close>, which reads it in
  the time zone of the server.
\<close>

definition number_word :: "nat set \<Rightarrow> string \<Rightarrow> bool" where
  "number_word ns s \<longleftrightarrow> length s \<in> ns \<and> list_all is_digit s"

definition match_reservation :: "string \<Rightarrow> string option" where
  "match_reservation s = (case py_split s of
     [d, t] \<Rightarrow> (case (split_on (CHR ''-'') d, split_on (CHR '':'') t) of
         ([y, m, d'], [h, mi, s']) \<Rightarrow>
           if number_word {4} y \<and> list_all (number_word {1, 2}) [m, d', h, mi, s'] then Some (d @ '' '' @ t) else None
       | _ \<Rightarrow> None)
   | _ \<Rightarrow> None)"

definition check_reservation ::
    "(string \<Rightarrow> int res) \<Rightarrow> string option \<Rightarrow> ((int \<times> string) \<times> int option) res" where
  "check_reservation to_local reservation_date_str =
     (case match_reservation (py_lstrip (text_or_empty reservation_date_str)) of
        Some t \<Rightarrow> res_bind (to_local t) (\<lambda>d. Inr ((0, ''''), Some d))
      | None \<Rightarrow> Inr ((7, ''syntax error for the advance reservation start date specification.''), None))"

end
