(* ===== verification/Almighty.thy ===== *)
theory Almighty
  imports Submission Complex_Main
begin

text \<open>
  The processes of the server (\<open>oar/modules/almighty.py\<close>, \<open>appendice_proxy.py\<close>,
  \<open>bipbip_commander.py\<close>): the proxy that sorts the messages of the clients, the automaton of Almighty that
  launches the modules one after the other, and the commander that runs the processes of the jobs.

  The world outside of the automaton is the parameter \<open>M\<close>: the clock, the messages that arrive, the exit codes of
  the modules, the presence of the process of Hulot and the signals. \<open>al_step\<close> is one turn of the loop of
  \<open>Almighty.run\<close>. Commands are plain words (a command with other characters would be a regular expression in
  \<open>add_command\<close>; it is the value \<open>Unmodelled\<close>). Times are rational numbers, the rounding of the floats is left out.
\<close>

section \<open>The proxy\<close>

datatype proxied = To_bipbip int string "string list" | To_almighty string

text \<open>
  \<open>re.search(r"(OAREXEC|OARRUNJOB|LEONEXTERMINATE)_(\d+)(.*)", msg)\<close> at one place of the message: a dot is no
  newline.
\<close>

definition match_at :: "string \<Rightarrow> (string \<times> string \<times> string) option" where
  "match_at s = (case filter (\<lambda>c. prefix (c @ ''_'') s) [''OAREXEC'', ''OARRUNJOB'', ''LEONEXTERMINATE''] of
     [] \<Rightarrow> None
   | c # _ \<Rightarrow>
       let r = drop (length c + 1) s; digits = takeWhile is_digit r in
       if digits = '''' then None
       else Some (c, digits, takeWhile (\<lambda>x. x \<noteq> newline) (dropWhile is_digit r)))"

fun search_notification :: "string \<Rightarrow> (string \<times> string \<times> string) option" where
  "search_notification [] = None"
| "search_notification (x # s) = (case match_at (x # s) of
     Some m \<Rightarrow> Some m | None \<Rightarrow> search_notification s)"

definition py_rstrip :: "string \<Rightarrow> string" where
  "py_rstrip s = rev (dropWhile is_space (rev s))"

text \<open>One message of a client; an empty one is a connection.\<close>

definition proxy_message :: "string \<Rightarrow> proxied option" where
  "proxy_message message =
     (if message = '''' then None
      else let msg = py_rstrip message in
        Some (case search_notification msg of
          Some (command, jid, rest) \<Rightarrow> To_bipbip (digits_int jid) command (tl (split_on (CHR ''_'') rest))
        | None \<Rightarrow> To_almighty msg))"

section \<open>The automaton\<close>

datatype program = Meta_scheduler | Sarko_program | Finaud_program | Leon_program | Node_change_state

datatype received = No_message | Null_message | Message "string option"

record 'w modules =
  clock :: "'w \<Rightarrow> rat"
  receive :: "'w \<Rightarrow> received \<times> 'w"
  launch :: "program \<Rightarrow> 'w \<Rightarrow> int \<times> 'w"
  hulot_alive :: "'w \<Rightarrow> bool"
  signalled :: "'w \<Rightarrow> bool"

record al_conf =
  min_between_2_calls :: int
  check_nodes_timeout :: int

record almighty =
  al_state :: string
  lastscheduler :: rat
  lastvillains :: rat
  lastchecknodes :: rat
  command_queue :: "string list"
  scheduler_wanted :: int
  finish_tag :: bool
  hulot_started :: bool

definition schedulertimeout :: rat where "schedulertimeout = 60"
definition villainstimeout :: rat where "villainstimeout = 10"
definition max_successive_read :: nat where "max_successive_read = 1"

definition new_almighty :: "bool \<Rightarrow> almighty" where
  "new_almighty energy_saving_internal = \<lparr>al_state = ''Qget'', lastscheduler = 0, lastvillains = 0,
     lastchecknodes = 0, command_queue = [], scheduler_wanted = 0, finish_tag = False,
     hulot_started = energy_saving_internal\<rparr>"

definition plain_command :: "string \<Rightarrow> bool" where
  "plain_command c \<longleftrightarrow> list_all (\<lambda>x. name_char x \<or> x = CHR '' '' \<or> x = CHR ''-'') c"

text \<open>\<open>re.match("^" + command + "$", cmd)\<close> for a plain command.\<close>

definition add_command :: "string \<Rightarrow> almighty \<Rightarrow> almighty res" where
  "add_command command a =
     (if \<not> plain_command command then Inl Unmodelled
      else Inr (if \<exists>cmd \<in> set (command_queue a). cmd = command \<or> cmd = command @ [newline] then a
                else a\<lparr>command_queue := command_queue a @ [command]\<rparr>))"

definition add_if :: "bool \<Rightarrow> string \<Rightarrow> almighty \<Rightarrow> almighty res" where
  "add_if b command a = (if b then add_command command a else Inr a)"

definition time_update :: "'w modules \<Rightarrow> al_conf \<Rightarrow> 'w \<Rightarrow> almighty \<Rightarrow> almighty res" where
  "time_update M C w a =
     (let current = clock M w in
      res_bind (add_if (current \<ge> lastscheduler a + schedulertimeout \<or>
          scheduler_wanted a \<ge> 1 \<and> current \<ge> lastscheduler a + of_int (min_between_2_calls C))
        ''Scheduling'' a) (\<lambda>a.
      res_bind (add_if (current \<ge> lastvillains a + villainstimeout) ''Villains'' a) (\<lambda>a.
      add_if (current \<ge> lastchecknodes a + of_int (check_nodes_timeout C) \<and> check_nodes_timeout C > 0)
        ''Finaud'' a)))"

text \<open>\<open>qget\<close> and the loop of \<open>read_commands\<close>; a dictionary is never equal to the text \<open>Time\<close>.\<close>

fun read_commands :: "'w modules \<Rightarrow> nat \<Rightarrow> almighty \<Rightarrow> 'w \<Rightarrow> (almighty \<times> 'w) res" where
  "read_commands M 0 a w = Inr (a, w)"
| "read_commands M (Suc remaining) a w = (case receive M w of (r, w') \<Rightarrow>
     (case r of
        Null_message \<Rightarrow> Inr (a, w')
      | Message None \<Rightarrow> Inl KeyError
      | Message (Some command) \<Rightarrow> res_bind (add_command command a) (\<lambda>a. read_commands M remaining a w')
      | No_message \<Rightarrow> res_bind (add_command ''Time'' a) (\<lambda>a. read_commands M remaining a w')))"

text \<open>The state for a command; an unknown command leaves the state as it is.\<close>

definition command_state :: "string \<Rightarrow> string" where
  "command_state command =
     (if command \<in> set [''Qsub'', ''Qsub -I'', ''Term'', ''BipBip'', ''Scheduling'', ''Qresume'', ''Walltime'']
      then ''Scheduler''
      else if command = ''Qdel'' then ''Leon''
      else if command = ''Villains'' then ''Check for villains''
      else if command = ''Finaud'' then ''Check node states''
      else if command = ''Time'' then ''Time update''
      else if command = ''ChState'' then ''Change node state''
      else ''Qget'')"

definition pop_command :: "string list \<Rightarrow> (string \<times> string list) res" where
  "pop_command queue = (case queue of
     [] \<Rightarrow> Inl IndexError
   | command # rest \<Rightarrow>
       if command = ''Time'' \<and> rest \<noteq> [] then Inr (hd rest, tl rest) else Inr (command, rest))"

definition qget_state :: "'w modules \<Rightarrow> almighty \<Rightarrow> 'w \<Rightarrow> (almighty \<times> 'w) res" where
  "qget_state M a w =
     res_bind (read_commands M max_successive_read a w) (\<lambda>(a, w).
     res_bind (pop_command (command_queue a)) (\<lambda>(command, rest).
       Inr (a\<lparr>command_queue := rest, al_state := command_state command\<rparr>, w)))"

definition scheduler_state :: "'w modules \<Rightarrow> al_conf \<Rightarrow> almighty \<Rightarrow> 'w \<Rightarrow> (almighty \<times> 'w) res" where
  "scheduler_state M C a w =
     (if clock M w \<ge> lastscheduler a + of_int (min_between_2_calls C) then
        let a = a\<lparr>scheduler_wanted := 0\<rparr>; (check_result, w) = launch M Node_change_state w in
        if check_result = 2 then
          res_bind (add_command ''Term'' (a\<lparr>al_state := ''Leon''\<rparr>)) (\<lambda>a. Inr (a, w))
        else if check_result = 1 then Inr (a\<lparr>al_state := ''Scheduler''\<rparr>, w)
        else if check_result = 0 then
          let (scheduler_result, w) = launch M Meta_scheduler w;
              a = a\<lparr>lastscheduler := clock M w\<rparr> in
          Inr (if scheduler_result = 0 then a\<lparr>al_state := ''Time update''\<rparr>
               else if scheduler_result = 1 then a\<lparr>al_state := ''Scheduler''\<rparr>
               else if scheduler_result = 2 then a\<lparr>al_state := ''Leon''\<rparr>
               else a\<lparr>finish_tag := True\<rparr>, w)
        else Inr (a\<lparr>finish_tag := True\<rparr>, w)
      else Inr (a\<lparr>scheduler_wanted := 1, al_state := ''Time update''\<rparr>, w))"

definition chstate_state :: "'w modules \<Rightarrow> almighty \<Rightarrow> 'w \<Rightarrow> (almighty \<times> 'w) res" where
  "chstate_state M a w =
     (let (check_result, w) = launch M Node_change_state w in
      if check_result = 2 then
        res_bind (add_command ''Term'' (a\<lparr>al_state := ''Leon''\<rparr>)) (\<lambda>a. Inr (a, w))
      else if check_result = 1 then Inr (a\<lparr>al_state := ''Scheduler''\<rparr>, w)
      else if check_result = 0 then Inr (a\<lparr>al_state := ''Time update''\<rparr>, w)
      else Inr (a\<lparr>finish_tag := True\<rparr>, w))"

text \<open>
  One turn of the loop: \<open>Some 10\<close> is the value that \<open>run\<close> returns. A dead Hulot is restarted with one
  argument too many.
\<close>

definition al_step :: "'w modules \<Rightarrow> al_conf \<Rightarrow> almighty \<times> 'w \<Rightarrow> (int option \<times> almighty \<times> 'w) res" where
  "al_step M C s = (case s of (a, w) \<Rightarrow>
     if finish_tag a \<or> signalled M w then Inr (Some 10, a, w)
     else if hulot_started a \<and> \<not> hulot_alive M w then Inl TypeError
     else res_bind
       (if al_state a = ''Qget'' then qget_state M a w
        else if al_state a = ''Scheduler'' then scheduler_state M C a w
        else if al_state a = ''Time update'' then
          res_bind (time_update M C w a) (\<lambda>a. Inr (a\<lparr>al_state := ''Qget''\<rparr>, w))
        else if al_state a = ''Check for villains'' then
          let (check_result, w) = launch M Sarko_program w; a = a\<lparr>lastvillains := clock M w\<rparr> in
          Inr (if check_result = 1 then a\<lparr>al_state := ''Leon''\<rparr>
               else if check_result = 0 then a\<lparr>al_state := ''Time update''\<rparr>
               else a\<lparr>finish_tag := True\<rparr>, w)
        else if al_state a = ''Check node states'' then
          let (check_result, w) = launch M Finaud_program w; a = a\<lparr>lastchecknodes := clock M w\<rparr> in
          Inr (if check_result = 1 then a\<lparr>al_state := ''Change node state''\<rparr>
               else if check_result = 0 then a\<lparr>al_state := ''Time update''\<rparr>
               else a\<lparr>finish_tag := True\<rparr>, w)
        else if al_state a = ''Leon'' then
          let (check_result, w) = launch M Leon_program w; a = a\<lparr>al_state := ''Time update''\<rparr> in
          res_bind (add_if (check_result = 1) ''Term'' a) (\<lambda>a. Inr (a, w))
        else if al_state a = ''Change node state'' then chstate_state M a w
        else Inr (a\<lparr>finish_tag := True\<rparr>, w)) (\<lambda>s. Inr (None, s)))"

section \<open>The bipbip commander\<close>

text \<open>A command is the number of a job, the name and the arguments; an executor is the number of its process.\<close>

type_synonym bipbip_command = "int \<times> string \<times> string list"

record commander =
  to_run :: "bipbip_command list"
  executors :: "(int \<times> nat) list"
  launched :: "(nat \<times> bipbip_command) list"

text \<open>\<open>bipbip_leon_executor\<close>: the command line that the process runs.\<close>

definition executor_args :: "string \<Rightarrow> string \<Rightarrow> bipbip_command \<Rightarrow> string list" where
  "executor_args leon_command bipbip_command cmd = (case cmd of (jid, name, args) \<Rightarrow>
     if name = ''LEONEXTERMINATE'' then [leon_command, int_str jid]
     else [bipbip_command, int_str jid] @ args)"

definition start_process :: "bipbip_command \<Rightarrow> commander \<Rightarrow> commander" where
  "start_process command s =
     s\<lparr>executors := AList.update (fst command) (length (launched s)) (executors s),
       launched := launched s @ [(length (launched s), command)]\<rparr>"

text \<open>
  The loop over the waiting commands; the requeued ones are collected in \<open>requeue\<close>. \<open>alive\<close> tells which
  processes still run.
\<close>

fun run_commands ::
    "(nat \<Rightarrow> bool) \<Rightarrow> nat \<Rightarrow> bipbip_command list \<Rightarrow> bipbip_command list \<Rightarrow> commander \<Rightarrow> commander" where
  "run_commands alive max_processes [] requeue s = s\<lparr>to_run := requeue\<rparr>"
| "run_commands alive max_processes (command # commands) requeue s =
     (if length (executors s) \<le> max_processes then
        (case map_of (executors s) (fst command) of
           Some p \<Rightarrow>
             if alive p then run_commands alive max_processes commands (requeue @ [command]) s
             else run_commands alive max_processes commands requeue
               (start_process command (s\<lparr>executors := AList.delete (fst command) (executors s)\<rparr>))
         | None \<Rightarrow> run_commands alive max_processes commands requeue (start_process command s))
      else s\<lparr>to_run := (command # commands) @ requeue\<rparr>)"

text \<open>One round: a notification, or the timeout; then the processes that have ended are removed.\<close>

definition commander_round ::
    "(nat \<Rightarrow> bool) \<Rightarrow> (nat \<Rightarrow> bool) \<Rightarrow> nat \<Rightarrow> bipbip_command option \<Rightarrow> commander \<Rightarrow> commander" where
  "commander_round alive alive_later max_processes notification s =
     (let s1 = run_commands alive max_processes
            (to_run s @ (case notification of Some c \<Rightarrow> [c] | None \<Rightarrow> [])) [] s in
      s1\<lparr>executors := filter (\<lambda>(jid, p). alive_later p) (executors s1)\<rparr>)"

end
