(* ===== verification/Almighty_Props.thy ===== *)
theory Almighty_Props
  imports Almighty "HOL-Library.Multiset"
begin

text \<open>
  Properties of the processes of the server: the automaton of Almighty never loses its way and serves every
  command it has read, unless a module keeps answering that it has changed something; the commander runs
  one process per job and loses no command.
\<close>

section \<open>The automaton\<close>

definition al_states :: "string set" where
  "al_states = {''Qget'', ''Scheduler'', ''Time update'', ''Check for villains'', ''Check node states'',
     ''Leon'', ''Change node state''}"

definition al_ok :: "almighty \<Rightarrow> bool" where
  "al_ok a \<longleftrightarrow> al_state a \<in> al_states \<and> distinct (command_queue a) \<and>
     (\<forall>c \<in> set (command_queue a). plain_command c)"

lemma plain_no_newline: "plain_command c \<Longrightarrow> newline \<notin> set c"
  by (auto simp: plain_command_def list_all_iff name_char_def newline_def is_digit_def)

lemma add_command_ok:
  assumes "al_ok a" "plain_command c"
  shows "\<exists>q. add_command c a = Inr (a\<lparr>command_queue := command_queue a @ q\<rparr>) \<and>
    al_ok (a\<lparr>command_queue := command_queue a @ q\<rparr>) \<and> c \<in> set (command_queue a @ q)"
proof (cases "c \<in> set (command_queue a)")
  case True
  thus ?thesis using assms by (intro exI [of _ "[]"]) (auto simp: add_command_def)
next
  case False
  have "c @ [newline] \<notin> set (command_queue a)"
    using assms(1) plain_no_newline by (force simp: al_ok_def)
  thus ?thesis
    using assms False by (intro exI [of _ "[c]"]) (auto simp: add_command_def al_ok_def)
qed

lemma add_if_ok:
  assumes "al_ok a" "plain_command c"
  shows "\<exists>q. add_if b c a = Inr (a\<lparr>command_queue := command_queue a @ q\<rparr>) \<and>
    al_ok (a\<lparr>command_queue := command_queue a @ q\<rparr>)"
proof (cases b)
  case True
  thus ?thesis using add_command_ok [OF assms] by (auto simp: add_if_def)
next
  case False
  thus ?thesis using assms(1) by (intro exI [of _ "[]"]) (simp add: add_if_def)
qed

lemma plain_words [simp]:
  "plain_command ''Time''" "plain_command ''Term''" "plain_command ''Scheduling''"
  "plain_command ''Villains''" "plain_command ''Finaud''"
  by code_simp+

lemma time_update_ok:
  assumes "al_ok a"
  shows "\<exists>q. time_update M C w a = Inr (a\<lparr>command_queue := command_queue a @ q\<rparr>) \<and>
    al_ok (a\<lparr>command_queue := command_queue a @ q\<rparr>)"
proof -
  define b1 where "b1 = (clock M w \<ge> lastscheduler a + schedulertimeout \<or>
      scheduler_wanted a \<ge> 1 \<and> clock M w \<ge> lastscheduler a + of_int (min_between_2_calls C))"
  define b2 where "b2 = (clock M w \<ge> lastvillains a + villainstimeout)"
  define b3 where "b3 = (clock M w \<ge> lastchecknodes a + of_int (check_nodes_timeout C) \<and> check_nodes_timeout C > 0)"
  obtain q1 where q1: "add_if b1 ''Scheduling'' a = Inr (a\<lparr>command_queue := command_queue a @ q1\<rparr>)"
    "al_ok (a\<lparr>command_queue := command_queue a @ q1\<rparr>)" using add_if_ok [OF assms] by force
  obtain q2 where q2: "add_if b2 ''Villains'' (a\<lparr>command_queue := command_queue a @ q1\<rparr>) =
      Inr (a\<lparr>command_queue := command_queue a @ q1 @ q2\<rparr>)"
    "al_ok (a\<lparr>command_queue := command_queue a @ q1 @ q2\<rparr>)" using add_if_ok [OF q1(2)] by force
  obtain q3 where "add_if b3 ''Finaud'' (a\<lparr>command_queue := command_queue a @ q1 @ q2\<rparr>) =
      Inr (a\<lparr>command_queue := command_queue a @ q1 @ q2 @ q3\<rparr>)"
    "al_ok (a\<lparr>command_queue := command_queue a @ q1 @ q2 @ q3\<rparr>)" using add_if_ok [OF q2(2)] by force
  thus ?thesis
    using q1(1) q2(1) unfolding time_update_def Let_def
    by (intro exI [of _ "q1 @ q2 @ q3"]) (simp add: b1_def b2_def b3_def)
qed

text \<open>What one turn does to the queue and to the state.\<close>

lemma pop_command_ok:
  assumes "pop_command queue = Inr (c, rest)" and "distinct queue"
  shows "c \<in> set queue" "distinct rest" "set rest \<subseteq> set queue - {c}"
    and "x \<in> set queue \<Longrightarrow> x \<noteq> ''Time'' \<Longrightarrow> x \<noteq> c \<Longrightarrow>
      x \<in> set rest \<and> length (takeWhile (\<lambda>y. y \<noteq> x) rest) < length (takeWhile (\<lambda>y. y \<noteq> x) queue)"
proof -
  from assms(1) consider "queue = c # rest" | "queue = ''Time'' # c # rest"
    by (auto simp: pop_command_def neq_Nil_conv split: list.splits if_splits)
  note cases = this
  show "c \<in> set queue" "distinct rest" "set rest \<subseteq> set queue - {c}"
    using cases assms(2) by (cases; auto)+
  show "x \<in> set rest \<and> length (takeWhile (\<lambda>y. y \<noteq> x) rest) < length (takeWhile (\<lambda>y. y \<noteq> x) queue)"
    if "x \<in> set queue" "x \<noteq> ''Time''" "x \<noteq> c"
    using cases that by cases auto
qed

lemma command_state_known: "command_state c \<in> al_states"
  by (simp add: command_state_def al_states_def)

lemma read_commands_ok:
  assumes "read_commands M n a w = Inr (a', w')" "al_ok a"
  shows "\<exists>q. a' = a\<lparr>command_queue := command_queue a @ q\<rparr> \<and> al_ok a'"
  using assms
proof (induction n arbitrary: a w)
  case 0
  thus ?case by (intro exI [of _ "[]"]) simp
next
  case (Suc n)
  have step: ?case if "add_command c a = Inr a1" "read_commands M n a1 v = Inr (a', w')" for c a1 v
  proof -
    have "plain_command c" using that(1) by (auto simp: add_command_def split: if_splits)
    from add_command_ok [OF Suc.prems(2) this] that(1) obtain q where
      "a1 = a\<lparr>command_queue := command_queue a @ q\<rparr>" "al_ok a1" by auto
    with Suc.IH [OF that(2)] show ?thesis by auto
  qed
  from Suc.prems(1) consider (same) "a' = a"
    | (added) c a1 v where "add_command c a = Inr a1" "read_commands M n a1 v = Inr (a', w')"
    by (auto simp: res_simps split: prod.splits received.splits option.splits)
  thus ?case
  proof cases
    case same
    thus ?thesis using Suc.prems(2) by (intro exI [of _ "[]"]) simp
  qed (rule step)
qed

lemma qget_step:
  assumes "qget_state M a w = Inr (a', w')" "al_ok a"
  shows "\<exists>q c. pop_command (command_queue a @ q) = Inr (c, command_queue a') \<and> al_state a' = command_state c \<and>
     distinct (command_queue a @ q) \<and> al_ok a' \<and> finish_tag a' = finish_tag a \<and> hulot_started a' = hulot_started a"
proof -
  from assms(1) obtain a1 c rest where
    a1: "read_commands M max_successive_read a w = Inr (a1, w')" and
    pop: "pop_command (command_queue a1) = Inr (c, rest)" and
    a': "a' = a1\<lparr>command_queue := rest, al_state := command_state c\<rparr>"
    by (auto simp: qget_state_def res_simps)
  from read_commands_ok [OF a1 assms(2)] obtain q where
    q: "a1 = a\<lparr>command_queue := command_queue a @ q\<rparr>" "al_ok a1" by auto
  have "al_ok a'"
    using pop_command_ok(2,3) [OF pop] q(2) command_state_known by (auto simp: a' al_ok_def)
  thus ?thesis using pop q by (intro exI [of _ q] exI [of _ c]) (simp add: a' al_ok_def)
qed

text \<open>The states that can follow, when the turn does not end the automaton.\<close>

definition follows :: "string \<Rightarrow> string set" where
  "follows s = (if s = ''Scheduler'' then {''Scheduler'', ''Leon'', ''Time update''}
     else if s = ''Time update'' then {''Qget''}
     else if s = ''Check for villains'' then {''Leon'', ''Time update''}
     else if s = ''Check node states'' then {''Change node state'', ''Time update''}
     else if s = ''Leon'' then {''Time update''}
     else if s = ''Change node state'' then {''Leon'', ''Scheduler'', ''Time update''}
     else al_states)"


lemma known_states [simp]:
  "''Qget'' \<in> al_states" "''Scheduler'' \<in> al_states" "''Time update'' \<in> al_states" "''Leon'' \<in> al_states"
  "''Change node state'' \<in> al_states"
  by (simp_all add: al_states_def)

lemma al_ok_fields:
  "al_ok (a\<lparr>scheduler_wanted := n\<rparr>) = al_ok a" "al_ok (a\<lparr>lastscheduler := t\<rparr>) = al_ok a"
  "al_ok (a\<lparr>lastvillains := t\<rparr>) = al_ok a" "al_ok (a\<lparr>lastchecknodes := t\<rparr>) = al_ok a"
  "al_ok (a\<lparr>finish_tag := b\<rparr>) = al_ok a"
  "al_ok a \<Longrightarrow> s \<in> al_states \<Longrightarrow> al_ok (a\<lparr>al_state := s\<rparr>)"
  by (simp_all add: al_ok_def)

text \<open>
  A turn in another state than \<open>Qget\<close> returns: it appends commands and moves on, or it raises the flag that
  ends the automaton.
\<close>

definition moves :: "almighty \<Rightarrow> almighty \<Rightarrow> bool" where
  "moves a a' \<longleftrightarrow> (\<exists>q. command_queue a' = command_queue a @ q) \<and> al_ok a' \<and>
     hulot_started a' = hulot_started a \<and> (finish_tag a' \<or> al_state a' \<in> follows (al_state a))"

lemma moves_add:
  assumes "al_ok b" "plain_command c" "command_queue b = command_queue a" "hulot_started b = hulot_started a"
    and "al_state b \<in> follows (al_state a)"
  shows "\<exists>a'. add_if p c b = Inr a' \<and> moves a a'"
  using add_if_ok [OF assms(1,2), of p] assms(3-) by (auto simp: moves_def)

lemma moves_none:
  assumes "al_ok b" "command_queue b = command_queue a" "hulot_started b = hulot_started a"
    and "finish_tag b \<or> al_state b \<in> follows (al_state a)"
  shows "moves a b"
  using assms by (auto simp: moves_def)

lemma add_command_if: "add_command c a = add_if True c a"
  by (simp add: add_if_def)

lemma scheduler_moves:
  assumes "al_ok a" "al_state a = ''Scheduler''"
  shows "\<exists>a' w'. scheduler_state M C a w = Inr (a', w') \<and> moves a a'"
proof (cases "clock M w \<ge> lastscheduler a + of_int (min_between_2_calls C)")
  case False
  thus ?thesis using assms by (simp add: scheduler_state_def moves_none follows_def al_ok_fields)
next
  case True
  obtain r v where ncs: "launch M Node_change_state w = (r, v)" by fastforce
  obtain r' v' where meta: "launch M Meta_scheduler v = (r', v')" by fastforce
  obtain a1 where "add_if True ''Term'' (a\<lparr>scheduler_wanted := 0, al_state := ''Leon''\<rparr>) = Inr a1" "moves a a1"
    using moves_add [of "a\<lparr>scheduler_wanted := 0, al_state := ''Leon''\<rparr>" "''Term''" a True] assms
    by (auto simp: follows_def al_ok_fields)
  thus ?thesis
    using True assms
    by (auto simp: scheduler_state_def Let_def ncs meta add_command_if follows_def al_ok_fields intro!: moves_none)
qed

lemma change_moves:
  assumes "al_ok a" "al_state a = ''Change node state''"
  shows "\<exists>a' w'. chstate_state M a w = Inr (a', w') \<and> moves a a'"
proof -
  obtain r v where ncs: "launch M Node_change_state w = (r, v)" by fastforce
  obtain a1 where "add_if True ''Term'' (a\<lparr>al_state := ''Leon''\<rparr>) = Inr a1" "moves a a1"
    using moves_add [of "a\<lparr>al_state := ''Leon''\<rparr>" "''Term''" a True] assms
    by (auto simp: follows_def al_ok_fields)
  thus ?thesis
    using assms
    by (auto simp: chstate_state_def Let_def ncs add_command_if follows_def al_ok_fields intro!: moves_none)
qed

lemma al_step_moves:
  assumes ok: "al_ok a" and "al_state a \<noteq> ''Qget''" and "\<not> finish_tag a" "\<not> signalled M w"
    and "hulot_started a \<longrightarrow> hulot_alive M w"
  shows "\<exists>a' w'. al_step M C (a, w) = Inr (None, a', w') \<and> moves a a'"
proof -
  have "al_state a \<in> al_states" using ok by (simp add: al_ok_def)
  then consider "al_state a = ''Scheduler''" | "al_state a = ''Time update''" | "al_state a = ''Check for villains''"
    | "al_state a = ''Check node states''" | "al_state a = ''Leon''" | "al_state a = ''Change node state''"
    using assms(2) by (auto simp: al_states_def)
  thus ?thesis
  proof cases
    case 1
    thus ?thesis using scheduler_moves [OF ok 1, of M C w] assms by (auto simp: al_step_def)
  next
    case 2
    obtain q where "time_update M C w a = Inr (a\<lparr>command_queue := command_queue a @ q\<rparr>)"
      "al_ok (a\<lparr>command_queue := command_queue a @ q\<rparr>)" using time_update_ok [OF ok, of M C w] by blast
    thus ?thesis using 2 assms by (auto simp: al_step_def moves_def follows_def al_ok_fields)
  next
    case 3
    obtain r v where "launch M Sarko_program w = (r, v)" by fastforce
    thus ?thesis using 3 assms by (auto simp: al_step_def Let_def follows_def al_ok_fields intro!: moves_none)
  next
    case 4
    obtain r v where "launch M Finaud_program w = (r, v)" by fastforce
    thus ?thesis using 4 assms by (auto simp: al_step_def Let_def follows_def al_ok_fields intro!: moves_none)
  next
    case 5
    obtain r v where "launch M Leon_program w = (r, v)" by fastforce
    thus ?thesis
      using 5 assms moves_add [of "a\<lparr>al_state := ''Time update''\<rparr>" "''Term''" a "r = 1"]
      by (auto simp: al_step_def Let_def follows_def al_ok_fields)
  next
    case 6
    thus ?thesis using change_moves [OF ok 6, of M w] assms by (auto simp: al_step_def)
  qed
qed

text \<open>Messages that are commands in plain words.\<close>

definition plain_world :: "'w modules \<Rightarrow> bool" where
  "plain_world M \<longleftrightarrow> (\<forall>w. case fst (receive M w) of
     No_message \<Rightarrow> True | Null_message \<Rightarrow> False
   | Message c \<Rightarrow> (case c of None \<Rightarrow> False | Some c \<Rightarrow> plain_command c))"

lemma qget_total:
  assumes "plain_world M" "al_ok a"
  shows "\<exists>a' w'. qget_state M a w = Inr (a', w')"
proof -
  obtain r v where r: "receive M w = (r, v)" by fastforce
  have "case r of No_message \<Rightarrow> True | Null_message \<Rightarrow> False
      | Message c \<Rightarrow> (case c of None \<Rightarrow> False | Some c \<Rightarrow> plain_command c)"
    using assms(1) r unfolding plain_world_def by (metis fst_conv)
  then obtain c where c: "plain_command c" "r = Message (Some c) \<or> r = No_message \<and> c = ''Time''"
    using plain_words(1) by (cases r) (auto split: option.splits)
  hence c: "plain_command c" "read_commands M max_successive_read a w =
      res_bind (add_command c a) (\<lambda>a. Inr (a, v))"
    by (auto simp: max_successive_read_def r)
  from add_command_ok [OF assms(2) c(1)] obtain q where
    q: "read_commands M max_successive_read a w = Inr (a\<lparr>command_queue := command_queue a @ q\<rparr>, v)"
      "c \<in> set (command_queue a @ q)" using c(2) by auto
  have "\<exists>x rest. pop_command (command_queue a @ q) = Inr (x, rest)"
    using q(2) by (cases "command_queue a @ q") (auto simp: pop_command_def)
  thus ?thesis using q(1) by (auto simp: qget_state_def)
qed

text \<open>
  What Almighty promises to do with an answer of a program: the next state, or \<open>None\<close> when the answer is unknown. The
  answer of Leon is never unknown.
\<close>

definition reaction :: "program \<times> int \<Rightarrow> string option" where
  "reaction pv = (case pv of (p, v) \<Rightarrow> case p of
       Meta_scheduler \<Rightarrow> map_of [(0, ''Time update''), (1, ''Scheduler''), (2, ''Leon'')] v
     | Node_change_state \<Rightarrow> map_of [(0, ''Time update''), (1, ''Scheduler''), (2, ''Leon'')] v
     | Sarko_program \<Rightarrow> map_of [(0, ''Time update''), (1, ''Leon'')] v
     | Finaud_program \<Rightarrow> map_of [(0, ''Time update''), (1, ''Change node state'')] v
     | Leon_program \<Rightarrow> Some ''Time update'')"

text \<open>The programs that a turn launches, with their answers; the metascheduler only when nothing has changed.\<close>

definition turn_answers :: "'w modules \<Rightarrow> al_conf \<Rightarrow> almighty \<Rightarrow> 'w \<Rightarrow> (program \<times> int) list" where
  "turn_answers M C a w = (let s = al_state a in
     if s = ''Scheduler'' then
       (if clock M w < lastscheduler a + of_int (min_between_2_calls C) then []
        else let (v, w1) = launch M Node_change_state w in
          (Node_change_state, v) # (if v = 0 then [(Meta_scheduler, fst (launch M Meta_scheduler w1))] else []))
     else if s = ''Check for villains'' then [(Sarko_program, fst (launch M Sarko_program w))]
     else if s = ''Check node states'' then [(Finaud_program, fst (launch M Finaud_program w))]
     else if s = ''Leon'' then [(Leon_program, fst (launch M Leon_program w))]
     else if s = ''Change node state'' then [(Node_change_state, fst (launch M Node_change_state w))]
     else [])"

text \<open>
  The reaction to the last answer of a turn; after the answers that announce jobs to end, \<open>Term\<close> is in the queue.
\<close>

definition reacts :: "(program \<times> int) list \<Rightarrow> almighty \<Rightarrow> bool" where
  "reacts answers a' \<longleftrightarrow> (if answers = [] then \<not> finish_tag a' else
     case reaction (last answers) of
       None \<Rightarrow> finish_tag a'
     | Some s \<Rightarrow> \<not> finish_tag a' \<and> al_state a' = s \<and>
         (last answers \<in> {(Leon_program, 1), (Node_change_state, 2)} \<longrightarrow> ''Term'' \<in> set (command_queue a')))"

lemma add_term_reacts:
  assumes "add_command ''Term'' a = Inr a'" "al_ok a"
  shows "''Term'' \<in> set (command_queue a') \<and> al_state a' = al_state a \<and> finish_tag a' = finish_tag a"
  using add_command_ok [OF assms(2) plain_words(2)] assms(1) by auto

lemma scheduler_reacts:
  assumes "scheduler_state M C a w = Inr (a', w')" "al_ok a" "al_state a = ''Scheduler''" "\<not> finish_tag a"
  shows "reacts (turn_answers M C a w) a'"
proof (cases "clock M w < lastscheduler a + of_int (min_between_2_calls C)")
  case True
  thus ?thesis using assms by (auto simp: scheduler_state_def turn_answers_def reacts_def)
next
  case False
  obtain v w1 where ncs: "launch M Node_change_state w = (v, w1)" by fastforce
  obtain v' w2 where meta: "launch M Meta_scheduler w1 = (v', w2)" by fastforce
  have answers: "turn_answers M C a w =
      (Node_change_state, v) # (if v = 0 then [(Meta_scheduler, v')] else [])"
    using False assms(3) by (simp add: turn_answers_def ncs meta)
  have ok: "al_ok (a\<lparr>scheduler_wanted := 0, al_state := ''Leon''\<rparr>)" using assms(2) by (simp add: al_ok_fields)
  consider "v = 0" | "v = 1" | "v = 2" | "v \<notin> {0, 1, 2}" by auto
  thus ?thesis
  proof cases
    case 3
    with assms(1) False obtain a1 where
      "add_command ''Term'' (a\<lparr>scheduler_wanted := 0, al_state := ''Leon''\<rparr>) = Inr a1" "a' = a1"
      by (auto simp: scheduler_state_def Let_def ncs res_simps)
    with add_term_reacts [OF this(1) ok] 3 assms(4) show ?thesis by (simp add: answers reacts_def reaction_def)
  qed (use assms(1,4) False in \<open>auto simp: scheduler_state_def Let_def ncs meta answers reacts_def reaction_def\<close>)
qed

lemma change_reacts:
  assumes "chstate_state M a w = Inr (a', w')" "al_ok a" "al_state a = ''Change node state''" "\<not> finish_tag a"
  shows "reacts (turn_answers M C a w) a'"
proof -
  obtain v w1 where ncs: "launch M Node_change_state w = (v, w1)" by fastforce
  have answers: "turn_answers M C a w = [(Node_change_state, v)]" using assms(3) by (simp add: turn_answers_def ncs)
  have ok: "al_ok (a\<lparr>al_state := ''Leon''\<rparr>)" using assms(2) by (simp add: al_ok_fields)
  show ?thesis
  proof (cases "v = 2")
    case True
    with assms(1) obtain a1 where "add_command ''Term'' (a\<lparr>al_state := ''Leon''\<rparr>) = Inr a1" "a' = a1"
      by (auto simp: chstate_state_def Let_def ncs res_simps)
    with add_term_reacts [OF this(1) ok] True assms(4) show ?thesis by (simp add: answers reacts_def reaction_def)
  qed (use assms(1,4) in \<open>auto simp: chstate_state_def Let_def ncs answers reacts_def reaction_def split: if_splits\<close>)
qed

lemma step_reacts:
  assumes step: "al_step M C (a, w) = Inr (None, a', w')" and ok: "al_ok a"
  shows "reacts (turn_answers M C a w) a'"
proof -
  have on: "\<not> finish_tag a" "\<not> signalled M w" "\<not> (hulot_started a \<and> \<not> hulot_alive M w)"
    using step by (auto simp: al_step_def split: if_splits)
  have "al_state a \<in> al_states" using ok by (simp add: al_ok_def)
  then consider "al_state a = ''Qget''" | "al_state a = ''Scheduler''" | "al_state a = ''Time update''"
    | "al_state a = ''Check for villains''" | "al_state a = ''Check node states''" | "al_state a = ''Leon''"
    | "al_state a = ''Change node state''"
    by (auto simp: al_states_def)
  thus ?thesis
  proof cases
    case 1
    hence "qget_state M a w = Inr (a', w')" using step on by (auto simp: al_step_def res_simps)
    from qget_step [OF this ok] on(1) 1 show ?thesis by (auto simp: turn_answers_def reacts_def)
  next
    case 2
    hence "scheduler_state M C a w = Inr (a', w')" using step on by (auto simp: al_step_def res_simps)
    thus ?thesis by (rule scheduler_reacts [OF _ ok 2 on(1)])
  next
    case 3
    with step on obtain a1 where "time_update M C w a = Inr a1" "a' = a1\<lparr>al_state := ''Qget''\<rparr>"
      by (auto simp: al_step_def res_simps)
    thus ?thesis using time_update_ok [OF ok, of M C w] on(1) 3 by (auto simp: turn_answers_def reacts_def)
  next
    case 4
    obtain v w1 where "launch M Sarko_program w = (v, w1)" by fastforce
    thus ?thesis using 4 step on
      by (auto simp: al_step_def Let_def turn_answers_def reacts_def reaction_def split: if_splits)
  next
    case 5
    obtain v w1 where "launch M Finaud_program w = (v, w1)" by fastforce
    thus ?thesis using 5 step on
      by (auto simp: al_step_def Let_def turn_answers_def reacts_def reaction_def split: if_splits)
  next
    case 6
    obtain v w1 where v: "launch M Leon_program w = (v, w1)" by fastforce
    have "al_ok (a\<lparr>al_state := ''Time update''\<rparr>)" using ok by (simp add: al_ok_fields)
    from add_term_reacts [OF _ this] show ?thesis using 6 v step on
      by (cases "v = 1") (auto simp: al_step_def Let_def turn_answers_def reacts_def reaction_def add_if_def res_simps)
  next
    case 7
    hence "chstate_state M a w = Inr (a', w')" using step on by (auto simp: al_step_def res_simps)
    thus ?thesis by (rule change_reacts [OF _ ok 7 on(1)])
  qed
qed

text \<open>
  C28. The automaton never loses its way: as long as the messages are commands in plain words and Hulot, if it was
  started, is alive, a turn from a consistent state returns; the state is one of the seven the automaton
  knows, and no command is twice in the queue. It ends by a signal, or in the turn after the flag was raised, which
  happens exactly when the last program that a turn launched gave an answer that \<open>reaction\<close> does not know; after any
  other answer the automaton goes to the state that \<open>reaction\<close> says, with \<open>Term\<close> in the queue when jobs are to be ended.
\<close>

theorem almighty_never_lost:
  assumes "plain_world M" and "al_ok a" and "hulot_started a \<longrightarrow> hulot_alive M w"
  shows "\<exists>r a' w'. al_step M C (a, w) = Inr (r, a', w') \<and> al_ok a' \<and> hulot_started a' = hulot_started a \<and>
     (r \<noteq> None \<longleftrightarrow> finish_tag a \<or> signalled M w) \<and>
     (r = None \<longrightarrow> reacts (turn_answers M C a w) a')"
proof (cases "finish_tag a \<or> signalled M w")
  case True
  thus ?thesis using assms(2) by (auto simp: al_step_def)
next
  case False
  have "\<exists>a' w'. al_step M C (a, w) = Inr (None, a', w') \<and> al_ok a' \<and> hulot_started a' = hulot_started a"
    (is "\<exists>a' w'. ?returns a' w'")
  proof (cases "al_state a = ''Qget''")
    case True
    obtain a' w' where q: "qget_state M a w = Inr (a', w')" using qget_total [OF assms(1,2)] by blast
    thus ?thesis using qget_step [OF q assms(2)] False True assms(3) by (auto simp: al_step_def)
  next
    case other: False
    have "\<not> finish_tag a" "\<not> signalled M w" using False by auto
    from al_step_moves [OF assms(2) other this assms(3), of C] show ?thesis by (auto simp: moves_def)
  qed
  then obtain a' w' where r: "?returns a' w'" by (elim exE)
  hence "reacts (turn_answers M C a w) a'" by (intro step_reacts [OF _ assms(2)]) (elim conjE)
  thus ?thesis using r False by (intro exI [of _ None] exI [of _ a'] exI [of _ w']) simp
qed

text \<open>A world in which a user submits a job again and again.\<close>

definition busy_world :: "nat modules" where
  "busy_world = \<lparr>clock = of_nat, receive = (\<lambda>w. (Message (Some ''Qsub''), w)), launch = (\<lambda>p w. (0, w + 5)),
     hulot_alive = (\<lambda>w. True), signalled = (\<lambda>w. False)\<rparr>"

text \<open>In the same world Sarko once answers 3.\<close>

theorem almighty_never_lost_witness:
  "(\<exists>a' w'. al_step busy_world \<lparr>min_between_2_calls = 1, check_nodes_timeout = 300\<rparr> (new_almighty False, 0) =
     Inr (None, a', w') \<and> al_ok a' \<and> \<not> finish_tag a') \<and>
   (\<exists>a' w'. al_step (busy_world\<lparr>launch := \<lambda>p w. (3, w)\<rparr>) \<lparr>min_between_2_calls = 1, check_nodes_timeout = 300\<rparr>
     ((new_almighty False)\<lparr>al_state := ''Check for villains''\<rparr>, 0) = Inr (None, a', w') \<and> finish_tag a')"
proof (rule conjI)
  have w: "plain_world busy_world" by (simp add: plain_world_def busy_world_def) code_simp
  have a: "al_ok (new_almighty False)" by (simp add: al_ok_def new_almighty_def)
  show "\<exists>a' w'. al_step busy_world \<lparr>min_between_2_calls = 1, check_nodes_timeout = 300\<rparr> (new_almighty False, 0) =
     Inr (None, a', w') \<and> al_ok a' \<and> \<not> finish_tag a'"
    using almighty_never_lost [OF w a, of 0 "\<lparr>min_between_2_calls = 1, check_nodes_timeout = 300\<rparr>"]
    by (auto simp: new_almighty_def busy_world_def turn_answers_def reacts_def)
  have w': "plain_world (busy_world\<lparr>launch := \<lambda>p w. (3, w)\<rparr>)" using w by (simp add: plain_world_def)
  have a': "al_ok ((new_almighty False)\<lparr>al_state := ''Check for villains''\<rparr>)"
    by (simp add: al_ok_def new_almighty_def al_states_def)
  show "\<exists>a' w'. al_step (busy_world\<lparr>launch := \<lambda>p w. (3, w)\<rparr>) \<lparr>min_between_2_calls = 1, check_nodes_timeout = 300\<rparr>
     ((new_almighty False)\<lparr>al_state := ''Check for villains''\<rparr>, 0) = Inr (None, a', w') \<and> finish_tag a'"
    using almighty_never_lost [OF w' a', of 0 "\<lparr>min_between_2_calls = 1, check_nodes_timeout = 300\<rparr>"]
    by (auto simp: new_almighty_def busy_world_def turn_answers_def reacts_def reaction_def)
qed

section \<open>Every command is served\<close>

text \<open>A run of the loop that does not end.\<close>

definition al_run :: "'w modules \<Rightarrow> al_conf \<Rightarrow> (nat \<Rightarrow> almighty \<times> 'w) \<Rightarrow> bool" where
  "al_run M C r \<longleftrightarrow> (\<forall>n. al_step M C (r n) = Inr (None, r (Suc n)))"

lemma al_run_step:
  assumes "al_run M C r" "al_ok (fst (r n))"
  shows "al_ok (fst (r (Suc n)))"
    and "al_state (fst (r n)) \<noteq> ''Qget'' \<Longrightarrow>
      (\<exists>q. command_queue (fst (r (Suc n))) = command_queue (fst (r n)) @ q) \<and>
      al_state (fst (r (Suc n))) \<in> follows (al_state (fst (r n)))"
    and "al_state (fst (r n)) = ''Qget'' \<Longrightarrow>
      \<exists>q c. pop_command (command_queue (fst (r n)) @ q) = Inr (c, command_queue (fst (r (Suc n)))) \<and>
        al_state (fst (r (Suc n))) = command_state c \<and> distinct (command_queue (fst (r n)) @ q)"
proof -
  obtain a w where s: "r n = (a, w)" by fastforce
  obtain a' w' where s': "r (Suc n) = (a', w')" by fastforce
  have step: "al_step M C (a, w) = Inr (None, a', w')"
    using assms(1) by (simp add: al_run_def s [symmetric] s' [symmetric])
  have ok: "al_ok a" using assms(2) by (simp add: s)
  have a: "\<not> finish_tag a" "\<not> signalled M w" "hulot_started a \<longrightarrow> hulot_alive M w"
    using step by (auto simp: al_step_def split: if_splits)
  have "al_step M C (a', w') = Inr (None, r (Suc (Suc n)))"
    using assms(1) by (simp add: al_run_def s' [symmetric])
  hence a': "\<not> finish_tag a'" by (auto simp: al_step_def)
  have qget: "qget_state M a w = Inr (a', w')" if "al_state a = ''Qget''"
    using step a that by (cases "qget_state M a w") (auto simp: al_step_def)
  have other: "moves a a'" if "al_state a \<noteq> ''Qget''"
    using al_step_moves [OF ok that a, of C] step by simp
  show "al_ok (fst (r (Suc n)))"
    using qget_step [OF qget ok] other by (cases "al_state a = ''Qget''") (auto simp: s' moves_def)
  show "(\<exists>q. command_queue (fst (r (Suc n))) = command_queue (fst (r n)) @ q) \<and>
      al_state (fst (r (Suc n))) \<in> follows (al_state (fst (r n)))" if "al_state (fst (r n)) \<noteq> ''Qget''"
    using other that a' by (auto simp: s s' moves_def)
  show "\<exists>q c. pop_command (command_queue (fst (r n)) @ q) = Inr (c, command_queue (fst (r (Suc n)))) \<and>
        al_state (fst (r (Suc n))) = command_state c \<and> distinct (command_queue (fst (r n)) @ q)"
    if "al_state (fst (r n)) = ''Qget''"
    using qget_step [OF qget ok] that by (auto simp: s s')
qed

lemma al_run_ok: "al_run M C r \<Longrightarrow> al_ok (fst (r 0)) \<Longrightarrow> al_ok (fst (r n))"
  by (induction n) (auto intro: al_run_step(1))

text \<open>The automaton comes back to \<open>Qget\<close>, if it does not stay in \<open>Scheduler\<close>.\<close>

lemma back_to_qget:
  assumes run: "al_run M C r" and ok: "al_ok (fst (r 0))"
    and leaves: "\<And>n. al_state (fst (r n)) = ''Scheduler'' \<Longrightarrow> \<exists>m > n. al_state (fst (r m)) \<noteq> ''Scheduler''"
  shows "\<exists>m \<ge> n. al_state (fst (r m)) = ''Qget'' \<and> (\<forall>k. n \<le> k \<and> k < m \<longrightarrow> al_state (fst (r k)) \<noteq> ''Qget'')"
proof -
  let ?s = "\<lambda>n. al_state (fst (r n))"
  have next_state: "?s (Suc n) \<in> follows (?s n)" if "?s n \<noteq> ''Qget''" for n
    using al_run_step(2) [OF run al_run_ok [OF run ok] that] by simp
  have update: "\<exists>m \<ge> n. ?s m = ''Qget''" if "?s n = ''Time update''" for n
    using next_state [of n] that by (intro exI [of _ "Suc n"]) (simp add: follows_def)
  have later: "\<exists>m \<ge> n. ?s m = ''Qget''" if "\<exists>m \<ge> Suc n. ?s m = ''Qget''" for n
    using that by (meson Suc_leD)
  have leon: "\<exists>m \<ge> n. ?s m = ''Qget''" if "?s n = ''Leon'' \<or> ?s n = ''Time update''" for n
    using next_state [of n] update [of n] update [of "Suc n", THEN later] that
    by (auto simp: follows_def)
  have scheduler: "\<exists>m \<ge> n. ?s m = ''Qget''" if s: "?s n = ''Scheduler''" for n
  proof -
    define m where "m = (LEAST m. n < m \<and> ?s m \<noteq> ''Scheduler'')"
    have m: "n < m" "?s m \<noteq> ''Scheduler''"
      using LeastI_ex [of "\<lambda>m. n < m \<and> ?s m \<noteq> ''Scheduler''"] leaves [OF s] by (auto simp: m_def)
    have "?s (m - 1) = ''Scheduler''"
    proof (cases "n = m - 1")
      case False
      thus ?thesis using not_less_Least [of "m - 1" "\<lambda>m. n < m \<and> ?s m \<noteq> ''Scheduler''"] m(1)
        by (auto simp: m_def)
    qed (use s in simp)
    hence "?s m \<in> follows ''Scheduler''" using next_state [of "m - 1"] m(1) by simp
    hence "?s m = ''Leon'' \<or> ?s m = ''Time update''" using m(2) by (auto simp: follows_def)
    from leon [OF this] m(1) show ?thesis by (meson less_imp_le order_trans)
  qed
  have change: "\<exists>m \<ge> n. ?s m = ''Qget''" if "?s n = ''Change node state''" for n
    using next_state [of n] leon [of "Suc n", THEN later] scheduler [of "Suc n", THEN later] that
    by (auto simp: follows_def)
  have "\<exists>m \<ge> n. ?s m = ''Qget''"
  proof -
    have "?s n \<in> al_states" using al_run_ok [OF run ok] by (simp add: al_ok_def)
    thus ?thesis
      using next_state [of n] leon [of n] leon [of "Suc n", THEN later] scheduler [of n] change [of n]
        change [of "Suc n", THEN later]
      by (auto simp: al_states_def follows_def)
  qed
  then obtain m where "n \<le> m \<and> ?s m = ''Qget''" by blast
  from LeastI [of "\<lambda>m. n \<le> m \<and> ?s m = ''Qget''", OF this] show ?thesis
    using not_less_Least [of _ "\<lambda>m. n \<le> m \<and> ?s m = ''Qget''"] by blast
qed

lemma queue_grows:
  assumes run: "al_run M C r" and ok: "al_ok (fst (r 0))" and "n \<le> m"
    and "\<forall>k. n \<le> k \<and> k < m \<longrightarrow> al_state (fst (r k)) \<noteq> ''Qget''"
  shows "\<exists>q. command_queue (fst (r m)) = command_queue (fst (r n)) @ q"
  using assms(3,4)
proof (induction m rule: dec_induct)
  case (step k)
  then obtain q where "command_queue (fst (r k)) = command_queue (fst (r n)) @ q" by auto
  moreover obtain q' where "command_queue (fst (r (Suc k))) = command_queue (fst (r k)) @ q'"
    using al_run_step(2) [OF run al_run_ok [OF run ok], of k] step by auto
  ultimately show ?case by simp
qed simp

text \<open>
  C27. Every command that is in the queue is served: in a run that goes on, if the automaton never
  stays in the state \<open>Scheduler\<close> for ever, a command that waits is taken out of the queue by a turn in
  \<open>Qget\<close>, which enters the state of that command. (\<open>Time\<close>, which may be dropped, is the exception.)
\<close>

theorem queued_command_served:
  assumes "al_run M C r" and "al_ok (fst (r 0))"
    and "\<forall>n. al_state (fst (r n)) = ''Scheduler'' \<longrightarrow> (\<exists>m > n. al_state (fst (r m)) \<noteq> ''Scheduler'')"
    and "c \<in> set (command_queue (fst (r n)))" and "c \<noteq> ''Time''"
  shows "\<exists>m \<ge> n. al_state (fst (r m)) = ''Qget'' \<and> c \<in> set (command_queue (fst (r m))) \<and>
     c \<notin> set (command_queue (fst (r (Suc m)))) \<and> al_state (fst (r (Suc m))) = command_state c"
  using assms(4)
proof (induction "length (takeWhile (\<lambda>x. x \<noteq> c) (command_queue (fst (r n))))" arbitrary: n rule: less_induct)
  case less
  note run = assms(1) and ok = al_run_ok [OF assms(1,2)]
  obtain m where m: "n \<le> m" "al_state (fst (r m)) = ''Qget''"
    "\<forall>k. n \<le> k \<and> k < m \<longrightarrow> al_state (fst (r k)) \<noteq> ''Qget''"
    using back_to_qget [OF assms(1,2), of n] assms(3) by blast
  obtain q where q: "command_queue (fst (r m)) = command_queue (fst (r n)) @ q"
    using queue_grows [OF assms(1,2) m(1,3)] by blast
  obtain q' d where pop: "pop_command (command_queue (fst (r m)) @ q') = Inr (d, command_queue (fst (r (Suc m))))"
    "al_state (fst (r (Suc m))) = command_state d" "distinct (command_queue (fst (r m)) @ q')"
    using al_run_step(3) [OF run ok m(2)] by blast
  show ?case
  proof (cases "d = c")
    case True
    hence "c \<notin> set (command_queue (fst (r (Suc m))))" using pop_command_ok(3) [OF pop(1,3)] by blast
    thus ?thesis using m(1,2) pop(2) True q less.prems by auto
  next
    case False
    have "c \<in> set (command_queue (fst (r m)) @ q')" using less.prems q by simp
    from pop_command_ok(4) [OF pop(1,3) this assms(5)] False
    have "c \<in> set (command_queue (fst (r (Suc m))))"
      "length (takeWhile (\<lambda>x. x \<noteq> c) (command_queue (fst (r (Suc m))))) <
       length (takeWhile (\<lambda>x. x \<noteq> c) (command_queue (fst (r m)) @ q'))" by auto
    moreover have "takeWhile (\<lambda>x. x \<noteq> c) (command_queue (fst (r m)) @ q') =
        takeWhile (\<lambda>x. x \<noteq> c) (command_queue (fst (r n)))"
      using less.prems by (simp add: q takeWhile_append1)
    ultimately obtain k where "k \<ge> Suc m" "al_state (fst (r k)) = ''Qget''" "c \<in> set (command_queue (fst (r k)))"
      "c \<notin> set (command_queue (fst (r (Suc k))))" "al_state (fst (r (Suc k))) = command_state c"
      using less.hyps [of "Suc m"] by auto
    thus ?thesis using m(1) by (intro exI [of _ k]) auto
  qed
qed


text \<open>A quiet world in which nothing is sent and the clock stands still, and the run of a server in it.\<close>

definition quiet_world :: "unit modules" where
  "quiet_world = \<lparr>clock = (\<lambda>w. 0), receive = (\<lambda>w. (No_message, w)), launch = (\<lambda>p w. (0, w)),
     hulot_alive = (\<lambda>w. True), signalled = (\<lambda>w. False)\<rparr>"

definition quiet_state :: "string \<Rightarrow> int \<Rightarrow> string list \<Rightarrow> almighty" where
  "quiet_state s wanted queue = (new_almighty False)\<lparr>al_state := s, scheduler_wanted := wanted, command_queue := queue\<rparr>"

definition quiet_run :: "nat \<Rightarrow> almighty \<times> unit" where
  "quiet_run n = (if n = 0 then quiet_state ''Qget'' 0 [''Qsub'']
     else if n = 1 then quiet_state ''Scheduler'' 0 [''Time'']
     else if n = 2 then quiet_state ''Time update'' 1 [''Time'']
     else if n = 3 then quiet_state ''Qget'' 1 [''Time'']
     else if even n then quiet_state ''Time update'' 1 [] else quiet_state ''Qget'' 1 [], ())"

lemma quiet_run_runs: "al_run quiet_world \<lparr>min_between_2_calls = 1, check_nodes_timeout = 300\<rparr> quiet_run"
proof -
  let ?C = "\<lparr>min_between_2_calls = 1, check_nodes_timeout = 300\<rparr> :: al_conf"
  note defs = al_step_def quiet_state_def new_almighty_def quiet_world_def qget_state_def max_successive_read_def
    add_command_def pop_command_def command_state_def scheduler_state_def time_update_def add_if_def
    schedulertimeout_def villainstimeout_def
  have steps:
    "al_step quiet_world ?C (quiet_state ''Qget'' 0 [''Qsub''], ()) =
       Inr (None, quiet_state ''Scheduler'' 0 [''Time''], ())"
    "al_step quiet_world ?C (quiet_state ''Scheduler'' 0 [''Time''], ()) =
       Inr (None, quiet_state ''Time update'' 1 [''Time''], ())"
    "al_step quiet_world ?C (quiet_state ''Time update'' 1 q, ()) = Inr (None, quiet_state ''Qget'' 1 q, ())"
    "al_step quiet_world ?C (quiet_state ''Qget'' 1 [''Time''], ()) = Inr (None, quiet_state ''Time update'' 1 [], ())"
    "al_step quiet_world ?C (quiet_state ''Qget'' 1 [], ()) = Inr (None, quiet_state ''Time update'' 1 [], ())"
    for q
    by (simp_all add: defs)
  have "al_step quiet_world ?C (quiet_run n) = Inr (None, quiet_run (Suc n))" for n
  proof -
    consider "n = 0" | "n = 1" | "n = 2" | "n = 3" | "n > 3" "even n" | "n > 3" "odd n" by linarith
    thus ?thesis by cases (simp_all add: quiet_run_def steps)
  qed
  thus ?thesis by (simp add: al_run_def)
qed

theorem queued_command_served_witness:
  "\<exists>m. al_state (fst (quiet_run m)) = ''Qget'' \<and> ''Qsub'' \<in> set (command_queue (fst (quiet_run m))) \<and>
     ''Qsub'' \<notin> set (command_queue (fst (quiet_run (Suc m)))) \<and> al_state (fst (quiet_run (Suc m))) = ''Scheduler''"
proof -
  have leaves: "\<forall>n. al_state (fst (quiet_run n)) = ''Scheduler'' \<longrightarrow>
      (\<exists>m > n. al_state (fst (quiet_run m)) \<noteq> ''Scheduler'')"
  proof (intro allI impI)
    fix n assume "al_state (fst (quiet_run n)) = ''Scheduler''"
    show "\<exists>m > n. al_state (fst (quiet_run m)) \<noteq> ''Scheduler''"
      by (intro exI [of _ "Suc (Suc n)"]) (simp add: quiet_run_def quiet_state_def)
  qed
  have ok: "al_ok (fst (quiet_run 0))" "''Qsub'' \<in> set (command_queue (fst (quiet_run 0)))"
    by (simp_all add: al_ok_def quiet_run_def quiet_state_def) code_simp
  show ?thesis
    using queued_command_served [OF quiet_run_runs ok(1) leaves ok(2)] by (auto simp: command_state_def)
qed

text \<open>
  A module that always answers 1 keeps the automaton in \<open>Scheduler\<close>: it never reads its queue again.
\<close>

lemma answering_one_starves:
  assumes step: "\<And>w. Q w \<Longrightarrow> fst (launch M Node_change_state w) = 1 \<and> Q (snd (launch M Node_change_state w)) \<and>
      \<not> signalled M w \<and> clock M w \<ge> lastscheduler a + of_int (min_between_2_calls C)"
    and "Q w" and a: "al_state a = ''Scheduler''" "\<not> finish_tag a" "\<not> hulot_started a"
  shows "\<exists>r. r 0 = (a, w) \<and> al_run M C r \<and> (\<forall>n. al_state (fst (r n)) = ''Scheduler'' \<and>
    command_queue (fst (r n)) = command_queue a \<and> Q (snd (r n)))"
proof -
  define v where "v n = ((\<lambda>w. snd (launch M Node_change_state w)) ^^ n) w" for n
  define r where "r n = (if n = 0 then a else a\<lparr>scheduler_wanted := 0\<rparr>, v n)" for n
  have Q: "Q (v n)" for n
    using assms(2) step by (induction n) (simp_all add: v_def)
  have state: "a\<lparr>scheduler_wanted := 0, al_state := ''Scheduler''\<rparr> = a\<lparr>scheduler_wanted := 0\<rparr>"
    using a(1) by (cases a) simp
  have "al_step M C (r n) = Inr (None, r (Suc n))" for n
  proof -
    obtain w' where w': "launch M Node_change_state (v n) = (1, w')"
      using step [OF Q [of n]] by (metis prod.collapse)
    hence "v (Suc n) = w'" by (simp add: v_def)
    thus ?thesis
      using step [OF Q [of n]] a w' state
      by (auto simp: r_def al_step_def scheduler_state_def Let_def)
  qed
  thus ?thesis using a(1) Q by (intro exI [of _ r]) (simp add: r_def v_def al_run_def)
qed

section \<open>The commander\<close>

text \<open>
  \<open>consistent alive s\<close>: one executor per job, each the process of a command of that job, and every process
  that is alive is the executor of its job.
\<close>

definition consistent :: "(nat \<Rightarrow> bool) \<Rightarrow> commander \<Rightarrow> bool" where
  "consistent alive s \<longleftrightarrow> distinct (map fst (executors s)) \<and> map fst (launched s) = [0..<length (launched s)] \<and>
     (\<forall>(j, p) \<in> set (executors s). \<exists>c. (p, c) \<in> set (launched s) \<and> fst c = j) \<and>
     (\<forall>(p, c) \<in> set (launched s). alive p \<longrightarrow> (fst c, p) \<in> set (executors s))"

lemma update_new: "k \<notin> fst ` set al \<Longrightarrow> AList.update k v al = al @ [(k, v)]"
  by (induction al) auto

lemma consistent_delete:
  assumes "consistent alive s" "map_of (executors s) j = Some p" "\<not> alive p"
  shows "consistent alive (s\<lparr>executors := AList.delete j (executors s)\<rparr>)"
proof -
  have "(j, q) \<in> set (executors s) \<Longrightarrow> q = p" for q
    using assms(1,2) by (auto simp: consistent_def)
  thus ?thesis
    using assms(1,3) unfolding consistent_def
    by (auto simp: AList.delete_eq distinct_map_filter)
qed

lemma consistent_start:
  assumes "consistent alive s" "fst c \<notin> fst ` set (executors s)"
  shows "consistent alive (start_process c s)"
proof -
  let ?n = "length (launched s)" and ?t = "start_process c s"
  have t: "launched ?t = launched s @ [(?n, c)]" "executors ?t = executors s @ [(fst c, ?n)]"
    using assms(2) by (simp_all add: start_process_def update_new)
  have s: "distinct (map fst (executors s))" "map fst (launched s) = [0..<?n]"
    "\<And>j p. (j, p) \<in> set (executors s) \<Longrightarrow> \<exists>c. (p, c) \<in> set (launched s) \<and> fst c = j"
    "\<And>p c. (p, c) \<in> set (launched s) \<Longrightarrow> alive p \<Longrightarrow> (fst c, p) \<in> set (executors s)"
    using assms(1) unfolding consistent_def by blast+
  have "distinct (map fst (executors ?t))" "map fst (launched ?t) = [0..<length (launched ?t)]"
    using s(1,2) assms(2) by (simp_all add: t)
  moreover have "\<exists>d. (p, d) \<in> set (launched ?t) \<and> fst d = j" if "(j, p) \<in> set (executors ?t)" for j p
  proof (cases "(j, p) = (fst c, ?n)")
    case False
    hence "(j, p) \<in> set (executors s)" using that by (auto simp: t)
    thus ?thesis using s(3) unfolding t by fastforce
  next
    case True
    hence "(p, c) \<in> set (launched ?t) \<and> fst c = j" by (simp add: t)
    thus ?thesis by blast
  qed
  moreover have "(fst d, p) \<in> set (executors ?t)" if "(p, d) \<in> set (launched ?t)" "alive p" for p d
    using that s(4) [of p d] by (auto simp: t)
  ultimately show ?thesis unfolding consistent_def by blast
qed

definition commands_of :: "commander \<Rightarrow> bipbip_command multiset" where
  "commands_of s = mset (to_run s) + mset (map snd (launched s))"

lemma run_commands_keeps:
  assumes "consistent alive s" "length (executors s) \<le> Suc max_processes"
  shows "consistent alive (run_commands alive max_processes cs requeue s)"
    and "length (executors (run_commands alive max_processes cs requeue s)) \<le> Suc max_processes"
    and "commands_of (run_commands alive max_processes cs requeue s) =
       mset cs + mset requeue + mset (map snd (launched s))"
proof -
  have "consistent alive (run_commands alive max_processes cs requeue s) \<and>
    length (executors (run_commands alive max_processes cs requeue s)) \<le> Suc max_processes \<and>
    commands_of (run_commands alive max_processes cs requeue s) = mset cs + mset requeue + mset (map snd (launched s))"
    using assms
  proof (induction alive max_processes cs requeue s rule: run_commands.induct)
    case (1 alive max_processes requeue s)
    thus ?case by (auto simp: consistent_def commands_of_def)
  next
    case (2 alive max_processes c cs requeue s)
    show ?case
    proof (cases "length (executors s) \<le> max_processes")
      case False
      thus ?thesis using 2 by (auto simp: consistent_def commands_of_def)
    next
      case room: True
      have start: "consistent alive (start_process c s') \<and> length (executors (start_process c s')) \<le> Suc max_processes \<and>
          map snd (launched (start_process c s')) = map snd (launched s') @ [c]"
        if "consistent alive s'" "length (executors s') \<le> max_processes" "fst c \<notin> fst ` set (executors s')" for s'
        using consistent_start [OF that(1,3)] that(2,3) by (simp add: start_process_def update_new)
      show ?thesis
      proof (cases "map_of (executors s) (fst c)")
        case None
        hence "fst c \<notin> fst ` set (executors s)" by (simp add: map_of_eq_None_iff)
        thus ?thesis using start [OF 2(4) room] 2(1) [OF room None] room None by (simp add: ac_simps)
      next
        case (Some p)
        show ?thesis
        proof (cases "alive p")
          case True
          thus ?thesis using 2(2) [OF room Some True 2(4,5)] room Some by (simp add: ac_simps)
        next
          case False
          let ?s = "s\<lparr>executors := AList.delete (fst c) (executors s)\<rparr>"
          have "consistent alive ?s" by (rule consistent_delete [OF 2(4) Some False])
          moreover have "length (executors ?s) \<le> max_processes"
            using length_delete_le [of "fst c" "executors s"] room by simp
          moreover have "fst c \<notin> fst ` set (executors ?s)" by (simp add: delete_notin_dom)
          ultimately show ?thesis
            using start [of ?s] 2(3) [OF room Some False] room Some False by (simp add: ac_simps)
        qed
      qed
    qed
  qed
  thus "consistent alive (run_commands alive max_processes cs requeue s)"
    "length (executors (run_commands alive max_processes cs requeue s)) \<le> Suc max_processes"
    "commands_of (run_commands alive max_processes cs requeue s) =
       mset cs + mset requeue + mset (map snd (launched s))" by blast+
qed

text \<open>
  Rounds of the commander; \<open>death p\<close> is the time at which process \<open>p\<close> ends, the round \<open>k\<close> looks at the
  processes at the times \<open>2 * k\<close> and \<open>2 * k + 1\<close>.
\<close>

fun rounds :: "(nat \<Rightarrow> nat) \<Rightarrow> nat \<Rightarrow> nat \<Rightarrow> bipbip_command option list \<Rightarrow> commander \<Rightarrow> commander" where
  "rounds death max_processes k [] s = s"
| "rounds death max_processes k (n # ns) s = rounds death max_processes (Suc k) ns
     (commander_round (\<lambda>p. 2 * k < death p) (\<lambda>p. 2 * k + 1 < death p) max_processes n s)"

definition no_commander :: commander where
  "no_commander = \<lparr>to_run = [], executors = [], launched = []\<rparr>"

lemma consistent_later:
  assumes "consistent alive s" "\<And>p. later p \<Longrightarrow> alive p"
  shows "consistent later (s\<lparr>executors := filter (\<lambda>(j, p). later p) (executors s)\<rparr>)"
  using assms by (auto simp: consistent_def distinct_map_filter)

lemma rounds_keep:
  assumes "consistent (\<lambda>p. 2 * k < death p) s" "length (executors s) \<le> Suc max_processes"
  shows "consistent (\<lambda>p. 2 * (k + length ns) < death p) (rounds death max_processes k ns s) \<and>
    length (executors (rounds death max_processes k ns s)) \<le> Suc max_processes \<and>
    commands_of (rounds death max_processes k ns s) = commands_of s + mset (concat (map (case_option [] (\<lambda>c. [c])) ns))"
  using assms
proof (induction ns arbitrary: k s)
  case (Cons n ns)
  define s1 where "s1 = run_commands (\<lambda>p. 2 * k < death p) max_processes
    (to_run s @ (case n of Some c \<Rightarrow> [c] | None \<Rightarrow> [])) [] s"
  define s2 where "s2 = s1\<lparr>executors := filter (\<lambda>(j, p). 2 * k + 1 < death p) (executors s1)\<rparr>"
  note keeps = run_commands_keeps [OF Cons.prems, of "to_run s @ (case n of Some c \<Rightarrow> [c] | None \<Rightarrow> [])" "[]",
      folded s1_def]
  have "consistent (\<lambda>p. 2 * k + 1 < death p) s2"
    unfolding s2_def by (rule consistent_later [OF keeps(1)]) simp
  hence "consistent (\<lambda>p. 2 * Suc k < death p) s2"
    by (auto simp: consistent_def)
  moreover have "length (executors s2) \<le> Suc max_processes"
    unfolding s2_def using order_trans [OF length_filter_le keeps(2), of "\<lambda>(j, p). 2 * k + 1 < death p"] by simp
  moreover have "commands_of s2 = commands_of s + mset (concat (map (case_option [] (\<lambda>c. [c])) [n]))"
    using keeps(3) by (cases n) (simp_all add: s2_def commands_of_def ac_simps)
  moreover have "rounds death max_processes k (n # ns) s = rounds death max_processes (Suc k) ns s2"
    by (simp add: commander_round_def Let_def s1_def s2_def)
  ultimately show ?case using Cons.IH [of "Suc k" s2] by (simp add: ac_simps)
qed simp

text \<open>
  C33. The commander runs the processes of a job one at a time and forgets no command: after any number of rounds
  at most one process of each job is alive, at most \<open>max_processes + 1\<close> processes are known, and every
  command that was notified has either been launched, once, or still waits.
\<close>

theorem commander_one_process_per_job:
  fixes death max_processes notifications
  defines "s \<equiv> rounds death max_processes 0 notifications no_commander"
    and "alive \<equiv> \<lambda>p. 2 * length notifications < death p"
  shows "((p, c) \<in> set (launched s) \<and> (q, d) \<in> set (launched s) \<and> fst c = fst d \<and> alive p \<and> alive q \<longrightarrow> p = q) \<and>
    length (executors s) \<le> max_processes + 1 \<and>
    mset (to_run s) + mset (map snd (launched s)) = mset (concat (map (case_option [] (\<lambda>c. [c])) notifications))"
proof -
  have "consistent (\<lambda>p. 2 * 0 < death p) no_commander" "length (executors no_commander) \<le> Suc max_processes"
    by (simp_all add: consistent_def no_commander_def)
  from rounds_keep [OF this, of notifications] have
    c: "consistent alive s" and l: "length (executors s) \<le> Suc max_processes" and
    m: "commands_of s = mset (concat (map (case_option [] (\<lambda>c. [c])) notifications))"
    by (simp_all add: s_def alive_def) (simp add: commands_of_def no_commander_def)
  have "p = q" if "(p, c) \<in> set (launched s)" "(q, d) \<in> set (launched s)" "fst c = fst d" "alive p" "alive q"
  proof -
    have "(fst c, p) \<in> set (executors s)" "(fst c, q) \<in> set (executors s)"
      using c that by (fastforce simp: consistent_def)+
    thus ?thesis using c by (auto simp: consistent_def dest: eq_key_imp_eq_value)
  qed
  thus ?thesis using l m by (auto simp: commands_of_def)
qed

theorem commander_one_process_per_job_witness:
  "\<exists>s. s = rounds (\<lambda>p. 9) 1 0 [Some (5, ''OARRUNJOB'', []), Some (5, ''LEONEXTERMINATE'', [])] no_commander \<and>
    length (launched s) = 1 \<and> length (executors s) \<le> 1 + 1"
  using commander_one_process_per_job [of 0 "(5, ''OARRUNJOB'', [])" "\<lambda>p. 9" 1
      "[Some (5, ''OARRUNJOB'', []), Some (5, ''LEONEXTERMINATE'', [])]" 0 "(5, ''OARRUNJOB'', [])"]
  by (simp add: commander_round_def no_commander_def start_process_def)

text \<open>
  With a limit of one process, two run; and a command that was put back runs after a later one for the same
  job, when the limit stopped the round in between.
\<close>

lemma limit_is_exceeded:
  "length (executors (rounds (\<lambda>p. 9) 1 0 [Some (5, ''OARRUNJOB'', []), Some (6, ''OARRUNJOB'', [])] no_commander)) = 2"
  by (simp add: commander_round_def no_commander_def start_process_def)

lemma commands_of_a_job_exchanged:
  "to_run (run_commands (\<lambda>p. True) 1 [(5, ''a'', []), (6, ''b'', []), (5, ''c'', [])] []
     \<lparr>to_run = [], executors = [(5, 0)], launched = [(0, (5, ''x'', []))]\<rparr>) = [(5, ''c'', []), (5, ''a'', [])]"
  by (simp add: start_process_def)

end
