(* ===== verification/Killer.thy ===== *)
theory Killer
  imports Job_End
begin

text \<open>
  The modules that end jobs: \<open>oar/modules/leon.py\<close>, which kills or exterminates the jobs of
  \<open>frag_jobs\<close>, and \<open>oar/modules/sarko.py\<close>, which watches the timers of Leon, the walltimes of the
  running jobs and the resources that have been down for long.

  A loop over rows re-reads each row when it handles it, as the session does after a commit
  (\<open>refresh\<close>). \<open>self.exit_code\<close> and \<open>self.guilty_found\<close> are threaded beside the database.
\<close>

definition refresh :: "int \<Rightarrow> db \<Rightarrow> job_row res" where
  "refresh jid w = (case get_job w jid of None \<Rightarrow> Inl NoResultFound | Some j \<Rightarrow> Inr j)"

section \<open>Leon\<close>

text \<open>\<open>addr, port = job.info_type.split(":")\<close>\<close>

definition client_address :: "job_row \<Rightarrow> (string \<times> string) res" where
  "client_address job = (case j_info_type job of None \<Rightarrow> Inl AttributeError
     | Some s \<Rightarrow> (case split_on (CHR '':'') s of [a, p] \<Rightarrow> Inr (a, p) | _ \<Rightarrow> Inl ValueError))"

definition notify_client :: "job_row \<Rightarrow> string \<Rightarrow> db \<Rightarrow> db res" where
  "notify_client job msg w =
     res_bind (client_address job) (\<lambda>(a, p). Inr (send (Tcp_client (a @ '':'' @ p) msg) w))"

definition head_host :: "int \<Rightarrow> db \<Rightarrow> string option" where
  "head_host jid w =
     (let jt = get_job_types jid w; hosts = get_job_current_hostnames jid w in
      if has_job_type ''cosystem'' jt \<or> hosts = [] then db_config w ''COSYSTEM_HOSTNAME''
      else if has_job_type ''deploy'' jt then db_config w ''DEPLOY_HOSTNAME''
      else Some (hd hosts))"

definition leon_kill :: "remote \<Rightarrow> job_row \<Rightarrow> int \<times> db \<Rightarrow> (int \<times> db) res" where
  "leon_kill rm row st = (case st of (code, w0) \<Rightarrow>
     let jid = j_id row; epilogue = db_config w0 ''SERVER_EPILOGUE_EXEC_FILE'' in
     res_bind (refresh jid w0) (\<lambda>job.
     res_bind
       (if j_state job = ''Waiting'' \<or> j_state job = ''Hold'' then
          let w1 = set_job_message jid ''Job killed by Leon directly'' (set_job_state jid ''Error'' w0) in
          res_bind (if j_type job = ''INTERACTIVE'' then notify_client job ''JOB_KILLED'' w1 else Inr w1)
            (\<lambda>w2. Inr (1, w2))
        else if j_state job = ''Terminated'' \<or> j_state job = ''Error'' \<or> j_state job = ''Finishing'' then
          Inr (code, w0)
        else if has_job_type ''noop'' (get_job_types jid w0) then
          res_bind (job_finishing_sequence rm epilogue jid []
                     (set_job_state jid ''Terminated'' (set_finish_date job w0)))
            (\<lambda>w1. Inr (1, w1))
        else
          (case head_host jid w0 of None \<Rightarrow> Inr (code, w0)
           | Some h \<Rightarrow> if h = '''' then Inr (code, w0) else
               Inr (code, send (Signal_oarexec h jid ''TERM'')
                 (add_new_event ''SEND_KILL_JOB'' jid
                   (''Send the kill signal to oarexec on '' @ h @ '' for job '' @ int_str jid) ''YES'' w0))))
       (\<lambda>(code', w'). Inr (code', job_arm_leon_timer jid w'))))"

definition leon_exterminate :: "job_row \<Rightarrow> db \<Rightarrow> db res" where
  "leon_exterminate row w =
     (let jid = j_id row; w1 = set_job_state jid ''Finishing'' w in
      res_bind (refresh jid w1) (\<lambda>job.
      let w2 = (if j_start_time job = 0 then set_running_date jid w1 else w1) in
      res_bind (refresh jid w2) (\<lambda>job2.
      Inr (send (Bipbip ''LEONEXTERMINATE'' jid [])
            (set_job_message jid ''Job exterminated by Leon'' (set_finish_date job2 w2))))))"

text \<open>\<open>Leon(args).run()\<close>: with an argument, the finishing sequence of one exterminated job.\<close>

definition leon_run :: "remote \<Rightarrow> string list \<Rightarrow> db \<Rightarrow> (int \<times> db) res" where
  "leon_run rm args w =
     (let epilogue = db_config w ''SERVER_EPILOGUE_EXEC_FILE'' in
      res_bind (config_value ''OPENSSH_CMD'' w) (\<lambda>ssh.
      case args of
        a # rest \<Rightarrow>
          (case py_int a of Inl e \<Rightarrow> Inr (1, w)
           | Inr jid \<Rightarrow>
               res_bind (get_job_frag_state jid w) (\<lambda>frag.
               if frag = Some ''LEON_EXTERMINATE'' then
                 res_bind (job_finishing_sequence rm epilogue jid
                            [Event ''EXTERMINATE_JOB'' (''I exterminate the job '' @ int_str jid)]
                            (job_arm_leon_timer jid w))
                   (\<lambda>w1. Inr (0, notify_almighty ''ChState'' w1))
               else Inr (0, w)))
      | [] \<Rightarrow>
          res_bind (fold_res (leon_kill rm) (get_jobs_to_kill w) (0, w)) (\<lambda>(code, w1).
          res_bind (fold_res leon_exterminate (get_to_exterminate_jobs w1) w1) (\<lambda>w2.
          Inr (code, w2)))))"

section \<open>Sarko\<close>

definition config_number :: "string \<Rightarrow> db \<Rightarrow> int res" where
  "config_number k w = (case db_config_int w k of None \<Rightarrow> Inl KeyError | Some v \<Rightarrow> Inr v)"

text \<open>The two delays of Leon; the second is raised above the first when it is not.\<close>

definition leon_walltimes :: "db \<Rightarrow> (int \<times> int) res" where
  "leon_walltimes w =
     res_bind (config_number ''LEON_SOFT_WALLTIME'' w) (\<lambda>s0.
     res_bind (config_number ''LEON_WALLTIME'' w) (\<lambda>h0.
     let s = (case db_config_int w ''JOBDEL_SOFTWALLTIME'' of None \<Rightarrow> s0 | Some v \<Rightarrow> v);
         h = (case db_config_int w ''JOBDEL_WALLTIME'' of None \<Rightarrow> h0 | Some v \<Rightarrow> v) in
     Inr (s, if h \<le> s then s + 10 else h)))"

definition sarko_timer :: "int \<Rightarrow> int \<Rightarrow> int \<Rightarrow> job_row \<Rightarrow> int \<times> db \<Rightarrow> (int \<times> db) res" where
  "sarko_timer date soft hard row st = (case st of (guilty, w) \<Rightarrow>
     let jid = j_id row in
     res_bind (refresh jid w) (\<lambda>job.
     if j_state job \<in> set [''Terminated'', ''Error'', ''Finishing''] then Inr (guilty, job_fragged jid w)
     else
       res_bind (get_frag_date jid w) (\<lambda>frag_date.
       if date > frag_date + soft \<and> date \<le> frag_date + hard then Inr (1, job_refrag jid w)
       else if date > frag_date + hard then Inr (1, job_leon_exterminate jid w)
       else Inr (guilty, w))))"

text \<open>
  A job that was suspended gets as its walltime the time it spent suspended: the code overwrites
  \<open>max_time\<close> instead of adding to it.
\<close>

definition max_time :: "int \<Rightarrow> job_row \<Rightarrow> db \<Rightarrow> int res" where
  "max_time date job w =
     res_bind (get_current_moldable_job (j_assigned_moldable_job job) w) (\<lambda>m.
     Inr (if j_suspended job = ''YES'' then get_job_suspended_sum_duration (j_id job) date w
          else m_walltime m))"

definition sarko_checkpoint :: "(string \<Rightarrow> int \<Rightarrow> string option) \<Rightarrow> int \<Rightarrow> db \<Rightarrow> db res" where
  "sarko_checkpoint usr2 jid w =
     (case head_host jid w of None \<Rightarrow> Inl TypeError
      | Some h \<Rightarrow>
         let w1 = add_new_event ''CHECKPOINT'' jid
                (''User oar (sarko) requested a checkpoint on the job:'' @ int_str jid @ '' on '' @ h)
                ''YES'' w;
             w2 = send (Signal_oarexec h jid ''SIGUSR2'') w1 in
         Inr (case usr2 h jid of
             Some comment \<Rightarrow> if comment \<noteq> '''' then
               add_new_event ''CHECKPOINT_ERROR'' jid (''[Sarko]'' @ comment) ''YES'' w2
             else add_new_event ''CHECKPOINT_SUCCESSFULL'' jid (''[Sarko]'' @ ''The job '' @ int_str jid @
                    '' was notified to checkpoint itself on the node '' @ h) ''YES'' w2
           | None \<Rightarrow> add_new_event ''CHECKPOINT_SUCCESSFULL'' jid (''[Sarko]'' @ ''The job '' @ int_str jid @
                    '' was notified to checkpoint itself on the node '' @ h) ''YES'' w2))"

definition sarko_walltime :: "(string \<Rightarrow> int \<Rightarrow> string option) \<Rightarrow> int \<Rightarrow> job_row \<Rightarrow> int \<times> db \<Rightarrow>
    (int \<times> db) res" where
  "sarko_walltime usr2 date row st = (case st of (guilty, w) \<Rightarrow>
     let jid = j_id row in
     res_bind (refresh jid w) (\<lambda>job.
     let start = j_start_time job in
     res_bind (max_time date job w) (\<lambda>mt.
     if date > start + mt then
       res_bind (frag_job jid None w) (\<lambda>(code, w1).
       Inr (1, add_new_event ''WALLTIME'' jid
         (''Job: '' @ int_str jid @ '' from '' @ int_str start @ '' with '' @ int_str mt @
          ''; current time='' @ int_str date @ '' (Elapsed)'') ''YES'' w1))
     else if 0 < j_checkpoint job \<and> start + mt - j_checkpoint job \<le> date then
       res_bind (sarko_checkpoint usr2 jid w) (\<lambda>w1. Inr (guilty, w1))
     else Inr (guilty, w))))"

definition sarko_expired :: "int \<Rightarrow> db \<Rightarrow> db res" where
  "sarko_expired r w =
     (let w1 = set_resource_nextState r ''Suspected'' w in
      res_bind (get_resource r w1) (\<lambda>res.
      Inr (add_new_event_with_host ''LOG_SUSPECTED'' 0
            (''The DESKTOP COMPUTING resource $r has expired on node '' @ r_network_address res)
            [r_network_address res] w1)))"

definition sarko_dead :: "int \<Rightarrow> db \<Rightarrow> db" where
  "sarko_dead r w = update_resource_nextFinaudDecision r ''YES'' (set_resource_nextState r ''Dead'' w)"

definition sarko_run :: "(string \<Rightarrow> int \<Rightarrow> string option) \<Rightarrow> db \<Rightarrow> (int \<times> db) res" where
  "sarko_run usr2 w =
     res_bind (leon_walltimes w) (\<lambda>(soft, hard).
     res_bind (config_value ''OPENSSH_CMD'' w) (\<lambda>ssh.
     let date = get_date w in
     res_bind (fold_res (sarko_timer date soft hard) (get_timer_armed_job w) (0, w)) (\<lambda>(g1, w1).
     res_bind (fold_res (sarko_walltime usr2 date) (get_jobs_in_state ''Running'' w1) (g1, w1)) (\<lambda>(g2, w2).
     let expired = get_expired_resources w2 in
     res_bind (fold_res sarko_expired expired w2) (\<lambda>w3.
     let w4 = (if expired \<noteq> [] then notify_almighty ''ChState'' w3 else w3) in
     res_bind (config_number ''DEAD_SWITCH_TIME'' w4) (\<lambda>dead.
     if dead > 0 then
       let rs = get_absent_suspected_resources_for_a_timeout dead w4;
           w5 = fold sarko_dead rs w4 in
       Inr (g2, if rs \<noteq> [] then notify_almighty ''ChState'' w5 else w5)
     else Inr (g2, w4)))))))"

section \<open>Refinement\<close>

text \<open>The rule of a loop that threads a code beside the database.\<close>

lemma fold_res_refines:
  assumes "fold_res f xs (c, w) = Inr (c', w')"
    and "\<And>x c v c' v'. f x (c, v) = Inr (c', v') \<Longrightarrow> refines v v'"
  shows "refines w w'"
proof -
  have "case (c', w') of (c', w') \<Rightarrow> refines w w'"
    using assms(1)
  proof (rule fold_res_invariant [where I = "\<lambda>(c, v). refines w v"])
    fix x s t assume "case s of (c, v) \<Rightarrow> refines w v" "f x s = Inr t"
    thus "case t of (c, v) \<Rightarrow> refines w v"
      using assms(2) refines_trans by (cases s; cases t) blast
  qed simp
  thus ?thesis by simp
qed

lemma fold_res_refines_db:
  assumes "fold_res f xs w = Inr w'" and "\<And>x v v'. f x v = Inr v' \<Longrightarrow> refines v v'"
  shows "refines w w'"
  by (rule fold_res_invariant [OF assms(1), where I = "refines w"])
     (auto intro: refines_trans assms(2))

lemma notify_client_life: "notify_client job msg w = Inr w' \<Longrightarrow> life_of w' = life_of w"
  by (auto simp: notify_client_def res_simps life_simps)

lemma leon_kill_refines:
  assumes "leon_kill rm row (c, w) = Inr (c', w')"
  shows "refines w w'"
proof -
  let ?i = "j_id row"
  from assms obtain job where job: "refresh ?i w = Inr job"
    by (cases "refresh ?i w") (simp_all add: leon_kill_def)
  have armed: "refines w (job_arm_leon_timer i v)" if "refines w v" for i v
    using that by (rule refines_life_right [rotated]) (simp add: life_simps)
  consider (idle) "j_state job = ''Waiting'' \<or> j_state job = ''Hold''"
    | (over) "\<not> (j_state job = ''Waiting'' \<or> j_state job = ''Hold'')"
        "j_state job = ''Terminated'' \<or> j_state job = ''Error'' \<or> j_state job = ''Finishing''"
    | (noop) "\<not> (j_state job = ''Waiting'' \<or> j_state job = ''Hold'')"
        "\<not> (j_state job = ''Terminated'' \<or> j_state job = ''Error'' \<or> j_state job = ''Finishing'')"
        "has_job_type ''noop'' (get_job_types ?i w)"
    | (other) "\<not> (j_state job = ''Waiting'' \<or> j_state job = ''Hold'')"
        "\<not> (j_state job = ''Terminated'' \<or> j_state job = ''Error'' \<or> j_state job = ''Finishing'')"
        "\<not> has_job_type ''noop'' (get_job_types ?i w)" by blast
  thus ?thesis
  proof cases
    case idle
    define w1 where "w1 = set_job_message ?i ''Job killed by Leon directly'' (set_job_state ?i ''Error'' w)"
    have 1: "refines w w1"
      unfolding w1_def by (rule refines_life_right [OF _ refines_set_job_state]) (simp add: life_simps)
    obtain w2 where w2: "life_of w2 = life_of w1" "w' = job_arm_leon_timer ?i w2"
      using assms idle job
      by (auto simp: leon_kill_def Let_def res_simps w1_def [symmetric] dest: notify_client_life
          split: if_splits)
    show ?thesis unfolding w2(2) using 1 by (intro armed) (rule refines_life_right [OF w2(1)])
  next
    case over
    hence "w' = job_arm_leon_timer ?i w"
      using assms job by (simp add: leon_kill_def Let_def)
    thus ?thesis by (simp add: armed)
  next
    case noop
    define w1 where "w1 = set_job_state ?i ''Terminated'' (set_finish_date job w)"
    have 1: "refines w w1"
      unfolding w1_def
      by (rule refines_trans [OF refines_same refines_set_job_state]) (simp add: life_simps)
    obtain w2 where "job_finishing_sequence rm (db_config w ''SERVER_EPILOGUE_EXEC_FILE'') ?i [] w1 = Inr w2"
      "w' = job_arm_leon_timer ?i w2"
      using assms noop job by (auto simp: leon_kill_def Let_def res_simps w1_def)
    thus ?thesis using 1 by (auto intro!: armed intro: refines_life_right finishing_life)
  next
    case other
    hence "life_of w' = life_of w"
      using assms job by (auto simp: leon_kill_def Let_def life_simps split: option.splits if_splits)
    thus ?thesis by (rule refines_same)
  qed
qed

lemma leon_exterminate_refines:
  assumes "leon_exterminate row w = Inr w'"
  shows "refines w w'"
proof -
  let ?w1 = "set_job_state (j_id row) ''Finishing'' w"
  have "life_of w' = life_of ?w1"
    using assms by (auto simp: leon_exterminate_def Let_def res_simps life_simps)
  thus ?thesis by (rule refines_life_right) (rule refines_set_job_state)
qed

lemma leon_refines:
  assumes "leon_run rm args w = Inr (c, w')"
  shows "refines w w'"
proof (cases args)
  case Nil
  then obtain c1 w1 where "fold_res (leon_kill rm) (get_jobs_to_kill w) (0, w) = Inr (c1, w1)"
    and "fold_res leon_exterminate (get_to_exterminate_jobs w1) w1 = Inr w'"
    using assms by (auto simp: leon_run_def res_simps Let_def)
  thus ?thesis
    by (meson fold_res_refines leon_kill_refines fold_res_refines_db leon_exterminate_refines
        refines_trans)
next
  case (Cons a rest)
  have "life_of w' = life_of w"
    using assms Cons
    by (auto simp: leon_run_def Let_def res_simps life_simps dest!: finishing_life
        split: sum.splits if_splits)
  thus ?thesis by (rule refines_same)
qed

lemma sarko_timer_life: "sarko_timer date s h row (g, w) = Inr (g', w') \<Longrightarrow> life_of w' = life_of w"
  by (auto simp: sarko_timer_def Let_def res_simps life_simps split: if_splits)

lemma sarko_checkpoint_life: "sarko_checkpoint usr2 jid w = Inr w' \<Longrightarrow> life_of w' = life_of w"
  by (auto simp: sarko_checkpoint_def Let_def life_simps split: option.splits if_splits)

lemma sarko_walltime_life:
  "sarko_walltime usr2 date row (g, w) = Inr (g', w') \<Longrightarrow> life_of w' = life_of w"
  by (auto simp: sarko_walltime_def Let_def res_simps life_simps
      dest: frag_job_life sarko_checkpoint_life split: if_splits)

lemma sarko_expired_life: "sarko_expired r w = Inr w' \<Longrightarrow> life_of w' = life_of w"
  by (auto simp: sarko_expired_def Let_def res_simps life_simps)

lemma sarko_dead_life [life_simps]: "life_of (sarko_dead r w) = life_of w"
  by (simp add: sarko_dead_def life_simps)

lemma sarko_refines:
  assumes "sarko_run usr2 w = Inr (c, w')"
  shows "refines w w'"
proof -
  from assms obtain date s h g1 w1 w2 w3 where
    1: "fold_res (sarko_timer date s h) (get_timer_armed_job w) (0, w) = Inr (g1, w1)"
    and 2: "fold_res (sarko_walltime usr2 date) (get_jobs_in_state ''Running'' w1) (g1, w1) = Inr (c, w2)"
    and 3: "fold_res sarko_expired (get_expired_resources w2) w2 = Inr w3"
    and 4: "life_of w' = life_of w3"
    by (auto simp: sarko_run_def Let_def res_simps life_simps fold_keeps [where k = life_of]
        split: if_splits)
  have "refines w w1" using 1 by (rule fold_res_refines) (blast intro: refines_same sarko_timer_life)
  also have "refines w1 w2"
    using 2 by (rule fold_res_refines) (blast intro: refines_same sarko_walltime_life)
  also have "refines w2 w3"
    using 3 by (rule fold_res_refines_db) (blast intro: refines_same sarko_expired_life)
  finally show ?thesis by (rule refines_life_right [OF 4])
qed

section \<open>The timers of Leon\<close>

text \<open>What Sarko makes of one request whose timer is armed.\<close>

definition timer_verdict :: "int \<Rightarrow> int \<Rightarrow> int \<Rightarrow> string \<Rightarrow> frag_row \<Rightarrow> frag_row" where
  "timer_verdict date soft hard s f =
     (if s \<in> set [''Terminated'', ''Error'', ''Finishing''] then f\<lparr>f_state := ''FRAGGED''\<rparr>
      else if date > f_date f + soft \<and> date \<le> f_date f + hard then f\<lparr>f_state := ''LEON''\<rparr>
      else if date > f_date f + hard then f\<lparr>f_state := ''LEON_EXTERMINATE''\<rparr>
      else f)"

definition timer_of :: "int \<Rightarrow> int \<Rightarrow> int \<Rightarrow> job_row list \<Rightarrow> frag_row \<Rightarrow> frag_row" where
  "timer_of date soft hard js f =
     (case filter (\<lambda>j. j_id j = f_job f) js of [] \<Rightarrow> f | j # r \<Rightarrow> timer_verdict date soft hard (j_state j) f)"

lemma timer_verdict_job [simp]:
  "f_job (timer_verdict d s h st f) = f_job f" "f_date (timer_verdict d s h st f) = f_date f"
  by (simp_all add: timer_verdict_def)

lemma timer_of_job [simp]: "f_job (timer_of d s h js f) = f_job f"
  by (simp add: timer_of_def split: list.splits)

lemma sarko_timer_step:
  assumes "distinct (map j_id (t_jobs w))" "distinct (map f_job (t_frags w))"
    and j: "j \<in> set (t_jobs w)" and f: "f \<in> set (t_frags w)" "f_job f = j_id j"
  shows "\<exists>g'. sarko_timer date soft hard j (g, w) =
     Inr (g', w\<lparr>t_frags := map (timer_of date soft hard [j]) (t_frags w)\<rparr>)"
proof -
  have r: "refresh (j_id j) w = Inr j"
    using get_job_distinct [OF assms(1) j] by (simp add: refresh_def)
  have only: "f' = f" if "f' \<in> set (t_frags w)" "f_job f' = j_id j" for f'
  proof -
    have "inj_on f_job (set (t_frags w))" using assms(2) by (simp add: distinct_map)
    from inj_onD [OF this, of f' f] f that show ?thesis by simp
  qed
  have d: "get_frag_date (j_id j) w = Inr (f_date f)"
    using distinct_filter_key [OF assms(2) f(1)] f(2) by (simp add: get_frag_date_def)
  let ?v = "timer_verdict date soft hard (j_state j) f"
  have v: "?v = f\<lparr>f_state := f_state ?v\<rparr>"
    by (simp add: timer_verdict_def)
  have "timer_of date soft hard [j] f' =
      (if f_job f' = j_id j then f'\<lparr>f_state := f_state ?v\<rparr> else f')" if "f' \<in> set (t_frags w)" for f'
  proof (cases "f_job f' = j_id j")
    case True
    from only [OF that True] f(2) v show ?thesis by (simp add: timer_of_def)
  qed (simp add: timer_of_def)
  hence upd: "w\<lparr>t_frags := map (timer_of date soft hard [j]) (t_frags w)\<rparr> =
      set_frag_state (j_id j) (f_state ?v) w"
    by (simp add: set_frag_state_def sql_update_def)
  have "map (\<lambda>f'. if f_job f' = j_id j then f'\<lparr>f_state := f_state f\<rparr> else f') (t_frags w) = t_frags w"
    using only by (intro map_idI) auto
  hence noop: "set_frag_state (j_id j) (f_state f) w = w"
    by (simp add: set_frag_state_def sql_update_def)
  show ?thesis
    unfolding upd
    by (simp add: sarko_timer_def r d Let_def timer_verdict_def job_fragged_def job_refrag_def
        job_leon_exterminate_def noop)
qed

lemma timer_of_compose:
  assumes "j_id j \<notin> set (map j_id js)"
  shows "timer_of d s h js (timer_of d s h [j] f) = timer_of d s h (j # js) f"
proof (cases "j_id j = f_job f")
  case True
  have "filter (\<lambda>k. j_id k = f_job f) js = []"
    unfolding filter_empty_conv
  proof
    fix k assume "k \<in> set js"
    hence "j_id k \<in> set (map j_id js)" by simp
    with assms True show "j_id k \<noteq> f_job f" by metis
  qed
  with True show ?thesis by (simp add: timer_of_def)
qed (simp add: timer_of_def)

lemma sarko_timer_fold:
  assumes "distinct (map j_id js)" "set js \<subseteq> set (t_jobs w)" "j_id ` set js \<subseteq> f_job ` set (t_frags w)"
    and "distinct (map j_id (t_jobs w))" "distinct (map f_job (t_frags w))"
  shows "\<exists>g'. fold_res (sarko_timer date soft hard) js (g, w) =
     Inr (g', w\<lparr>t_frags := map (timer_of date soft hard js) (t_frags w)\<rparr>)"
  using assms
proof (induction js arbitrary: g w)
  case Nil
  have "timer_of date soft hard [] = id" by (auto simp: timer_of_def)
  thus ?case by simp
next
  case (Cons j js)
  define w1 where "w1 = w\<lparr>t_frags := map (timer_of date soft hard [j]) (t_frags w)\<rparr>"
  from Cons.prems obtain f where "f \<in> set (t_frags w)" "f_job f = j_id j" by force
  moreover from Cons.prems have "j \<in> set (t_jobs w)" by simp
  ultimately obtain g1 where g1: "sarko_timer date soft hard j (g, w) = Inr (g1, w1)"
    using sarko_timer_step [OF Cons.prems(4,5)] unfolding w1_def by blast
  have jobs: "map f_job (t_frags w1) = map f_job (t_frags w)" by (simp add: w1_def)
  have "f_job ` set (t_frags w1) = f_job ` set (t_frags w)"
    using arg_cong [OF jobs, of set] by (simp only: set_map)
  with Cons.prems jobs have "\<exists>g'. fold_res (sarko_timer date soft hard) js (g1, w1) =
      Inr (g', w1\<lparr>t_frags := map (timer_of date soft hard js) (t_frags w1)\<rparr>)"
    by (intro Cons.IH) (auto simp: w1_def comp_def)
  moreover have "map (timer_of date soft hard js) (t_frags w1) =
      map (timer_of date soft hard (j # js)) (t_frags w)"
    using Cons.prems(1) by (auto simp: w1_def timer_of_compose)
  ultimately show ?case by (auto simp: g1 w1_def)
qed

lemma jobs_with_frag_distinct:
  assumes "distinct (map j_id js)" and "distinct (map f_job fs)"
  shows "distinct (map j_id [j. f \<leftarrow> fs, j \<leftarrow> js, f_state f = s \<and> j_id j = f_job f])"
  using assms(2)
proof (induction fs)
  case (Cons f fs)
  have 1: "distinct (map j_id (filter (\<lambda>j. f_state f = s \<and> j_id j = f_job f) js))"
    using assms(1) by (rule distinct_map_filter)
  have "concat (map (\<lambda>j. if f_state f = s \<and> j_id j = f_job f then [j] else []) js) =
      filter (\<lambda>j. f_state f = s \<and> j_id j = f_job f) js"
    by (induction js) auto
  thus ?case using Cons 1 by (auto simp: image_iff)
qed simp

text \<open>
  C16. A round of Sarko over the timers of Leon always returns and decides each armed request exactly:
  \<open>FRAGGED\<close> when the job is over or finishing, back to \<open>LEON\<close> between the soft and the hard delay,
  \<open>LEON_EXTERMINATE\<close> after the hard delay, untouched before the soft one; it writes nothing else.
\<close>

theorem sarko_timers_exact:
  assumes "distinct (map j_id (t_jobs w))" and "distinct (map f_job (t_frags w))"
  shows "\<exists>g. fold_res (sarko_timer date soft hard) (get_timer_armed_job w) (0, w) =
     Inr (g, w\<lparr>t_frags := map (\<lambda>f. if f_state f = ''TIMER_ARMED'' then
        (case get_job w (f_job f) of None \<Rightarrow> f
         | Some j \<Rightarrow> timer_verdict date soft hard (j_state j) f) else f) (t_frags w)\<rparr>)"
proof -
  let ?js = "get_timer_armed_job w"
  have mem: "j \<in> set ?js \<longleftrightarrow> j \<in> set (t_jobs w) \<and>
      (\<exists>f \<in> set (t_frags w). f_state f = ''TIMER_ARMED'' \<and> j_id j = f_job f)" for j
    by (auto simp: get_timer_armed_job_def jobs_with_frag_def)
  have dist: "distinct (map j_id ?js)"
    unfolding get_timer_armed_job_def jobs_with_frag_def by (rule jobs_with_frag_distinct [OF assms])
  have "timer_of date soft hard ?js f = (if f_state f = ''TIMER_ARMED'' then
        (case get_job w (f_job f) of None \<Rightarrow> f
         | Some j \<Rightarrow> timer_verdict date soft hard (j_state j) f) else f)"
    if f: "f \<in> set (t_frags w)" for f
  proof (cases "\<exists>j \<in> set ?js. j_id j = f_job f")
    case True
    then obtain j where j: "j \<in> set ?js" "j_id j = f_job f" by blast
    obtain f' where f': "f' \<in> set (t_frags w)" "f_state f' = ''TIMER_ARMED''" "j_id j = f_job f'"
      using j(1) mem by blast
    have "inj_on f_job (set (t_frags w))" using assms(2) by (simp add: distinct_map)
    from inj_onD [OF this, of f' f] f f' j have "f' = f" by simp
    moreover have "filter (\<lambda>k. j_id k = f_job f) ?js = [j]"
      using distinct_filter_key [OF dist j(1)] j(2) by simp
    moreover have "get_job w (f_job f) = Some j"
      using get_job_distinct [OF assms(1)] j mem by metis
    ultimately show ?thesis using f' by (simp add: timer_of_def)
  next
    case False
    hence "filter (\<lambda>k. j_id k = f_job f) ?js = []" by (simp add: filter_empty_conv)
    moreover have "f_state f \<noteq> ''TIMER_ARMED'' \<or> get_job w (f_job f) = None"
      using False f mem get_job_in by (metis not_None_eq)
    ultimately show ?thesis by (auto simp: timer_of_def)
  qed
  moreover have "set ?js \<subseteq> set (t_jobs w)" "j_id ` set ?js \<subseteq> f_job ` set (t_frags w)"
    using mem by auto
  ultimately show ?thesis
    using sarko_timer_fold [OF dist _ _ assms, of date soft hard 0]
    by (auto cong: map_cong)
qed

theorem sarko_timers_exact_witness:
  "\<exists>g. fold_res (sarko_timer 100 20 50)
     (get_timer_armed_job (empty_db\<lparr>t_frags := [\<lparr>f_job = 1, f_date = 30, f_state = ''TIMER_ARMED''\<rparr>]\<rparr>))
     (0, empty_db\<lparr>t_frags := [\<lparr>f_job = 1, f_date = 30, f_state = ''TIMER_ARMED''\<rparr>]\<rparr>) =
   Inr (g, empty_db\<lparr>t_frags := [\<lparr>f_job = 1, f_date = 30, f_state = ''TIMER_ARMED''\<rparr>]\<rparr>)"
  using sarko_timers_exact [of "empty_db\<lparr>t_frags := [\<lparr>f_job = 1, f_date = 30, f_state = ''TIMER_ARMED''\<rparr>]\<rparr>"
    100 20 50]
  by (simp add: empty_db_def get_job_def)

end
