(* ===== verification/Nodes.thy ===== *)
theory Nodes
  imports Resources_Db
begin

text \<open>
  \<open>oar/lib/node.py\<close>: the operations and queries on nodes, and \<open>oar/modules/finaud.py\<close>, which tests the
  nodes and asks for a change of their state.

  \<open>res_log_ok\<close> is the invariant of the log of the resources: a resource has at most one open row for
  its state, and the open row names the state the resource is in. The operations that write a state
  keep it; the SQLite branch of \<open>set_node_state\<close> does not.
\<close>

section \<open>oar/lib/node.py\<close>

definition get_all_resources_on_node :: "string \<Rightarrow> db \<Rightarrow> int list" where
  "get_all_resources_on_node host w =
     map r_id (filter (\<lambda>r. r_network_address r = host) (t_resources w))"

definition get_resources_of_nodes :: "string list \<Rightarrow> db \<Rightarrow> resource_row list" where
  "get_resources_of_nodes hosts w =
     sort_key r_id (filter (\<lambda>r. r_network_address r \<in> set hosts) (t_resources w))"

definition get_nodes_with_state :: "string list \<Rightarrow> db \<Rightarrow> (string \<times> string) list" where
  "get_nodes_with_state nodes w =
     map (\<lambda>r. (r_network_address r, r_state r))
       (filter (\<lambda>r. r_network_address r \<in> set nodes) (t_resources w))"

definition gantt_rows :: "db \<Rightarrow> (prediction_row \<times> gantt_res_row \<times> resource_row) list" where
  "gantt_rows w = [(p, g, r). p \<leftarrow> t_predictions w, g \<leftarrow> t_gantt w, r \<leftarrow> t_resources w,
     p_mld p = g_mld g \<and> g_res g = r_id r]"

definition busy_nodes :: "int \<Rightarrow> db \<Rightarrow> string list" where
  "busy_nodes date w = remdups [r_network_address r. (p, g, r) \<leftarrow> gantt_rows w,
     p_start p \<le> date \<and> r_network_address r \<noteq> '''' \<and> r_type r = ''default'']"

text \<open>The idle nodes with the date of their last job: a \<open>group by\<close> with a maximum.\<close>

definition search_idle_nodes :: "int \<Rightarrow> db \<Rightarrow> (string \<times> int) list" where
  "search_idle_nodes date w =
     (let cand = filter (\<lambda>r. r_state r = ''Alive'' \<and> r_network_address r \<noteq> '''' \<and>
                   r_type r = ''default'' \<and> r_available_upto r < 2147483647 \<and>
                   0 < r_available_upto r) (t_resources w);
          grouped = map (\<lambda>h. (h, fold max (map r_last_job_date
                       (filter (\<lambda>r. r_network_address r = h) cand))
                       (r_last_job_date (hd (filter (\<lambda>r. r_network_address r = h) cand)))))
                    (remdups (map r_network_address cand)) in
      filter (\<lambda>(h, d). h \<notin> set (busy_nodes date w)) grouped)"

definition get_gantt_hostname_to_wake_up :: "int \<Rightarrow> int \<Rightarrow> db \<Rightarrow> string list" where
  "get_gantt_hostname_to_wake_up date wakeup_time w =
     remdups [r_network_address r. (p, g, r) \<leftarrow> gantt_rows w, m \<leftarrow> t_moldables w, j \<leftarrow> t_jobs w,
       m_id m = p_mld p \<and> j_id j = m_job m \<and> p_start p \<le> date + wakeup_time \<and>
       j_state j = ''Waiting'' \<and> r_state r = ''Absent'' \<and> r_network_address r \<noteq> '''' \<and>
       r_type r = ''default'' \<and> p_start p + m_walltime m \<le> r_available_upto r]"

definition get_next_job_date_on_node :: "string \<Rightarrow> db \<Rightarrow> int option" where
  "get_next_job_date_on_node host w =
     (case [p_start p. (p, g, r) \<leftarrow> gantt_rows w, r_network_address r = host] of
        [] \<Rightarrow> None | d # ds \<Rightarrow> Some (fold min ds d))"

definition get_last_wake_up_date_of_node :: "string \<Rightarrow> db \<Rightarrow> int option" where
  "get_last_wake_up_date_of_node host w =
     (case sort_key uminus [e_date e. e \<leftarrow> t_events w, h \<leftarrow> t_event_hosts w,
              eh_event h = e_id e \<and> eh_host h = host \<and> e_type e = ''WAKEUP_NODE''] of
        [] \<Rightarrow> None | d # ds \<Rightarrow> Some d)"

text \<open>The list of states has \<open>"Suspended "\<close>, with a space, as the code has it.\<close>

definition get_alive_nodes_with_jobs :: "db \<Rightarrow> string list" where
  "get_alive_nodes_with_jobs w =
     remdups [r_network_address r. r \<leftarrow> t_resources w, a \<leftarrow> t_assigned w, m \<leftarrow> t_moldables w,
       j \<leftarrow> t_jobs w,
       r_id r = a_res a \<and> a_mld a = m_id m \<and> m_job m = j_id j \<and>
       j_state j \<in> set [''Waiting'', ''Hold'', ''toLaunch'', ''toError'', ''toAckReservation'',
         ''Launching'', ''Running'', ''Suspended '', ''Resuming''] \<and>
       (r_state r = ''Alive'' \<or> r_next_state r = ''Alive'')]"

definition get_nodes_that_can_be_waked_up :: "int \<Rightarrow> db \<Rightarrow> string list" where
  "get_nodes_that_can_be_waked_up date w =
     remdups (map r_network_address (filter (\<lambda>r. r_state r = ''Absent'' \<and> date < r_available_upto r)
       (t_resources w)))"

text \<open>The guard of \<open>set_node_state\<close> that is meant for \<open>"Suspected"\<close> tests \<open>"Suspect"\<close>.\<close>

definition suspect_guard :: "string \<Rightarrow> string \<Rightarrow> resource_row \<Rightarrow> bool" where
  "suspect_guard host finaud_tag r \<longleftrightarrow> r_network_address r = host \<and>
     (if finaud_tag = ''YES'' then r_state r = ''Alive''
      else r_state r = ''Alive'' \<or> r_state r = ''Suspected'' \<and> r_finaud_decision r = ''YES'')"

definition open_node_logs :: "string \<Rightarrow> string \<Rightarrow> string \<Rightarrow> db \<Rightarrow> db" where
  "open_node_logs host state finaud_tag w =
     fold (\<lambda>r w. w\<lparr>t_res_logs := t_res_logs w @ [res_log w r ''state'' state (get_date w) finaud_tag]\<rparr>)
       (get_all_resources_on_node host w) w"

definition set_node_state :: "string \<Rightarrow> string \<Rightarrow> string \<Rightarrow> db \<Rightarrow> db res" where
  "set_node_state host state finaud_tag w =
     res_bind (state_to_num state) (\<lambda>num.
       let P = (if state = ''Suspect'' then suspect_guard host finaud_tag
                else (\<lambda>r. r_network_address r = host));
           w1 = w\<lparr>t_resources := sql_update P
                  (\<lambda>x. x\<lparr>r_state := state, r_finaud_decision := finaud_tag, r_state_num := num\<rparr>)
                  (t_resources w)\<rparr> in
       if state = ''Suspect'' \<and> sql_count P (t_resources w) = 0 then Inr w1
       else (case db_config w ''DB_TYPE'' of None \<Rightarrow> Inl KeyError
         | Some db_type \<Rightarrow>
             let attribute = (if db_type = ''Pg'' then ''state'' else state);
                 w2 = w1\<lparr>t_res_logs := sql_update
                        (\<lambda>l. rl_stop l = 0 \<and> rl_attribute l = attribute \<and>
                             rl_res l \<in> set (get_all_resources_on_node host w1))
                        (\<lambda>l. l\<lparr>rl_stop := get_date w1\<rparr>) (t_res_logs w1)\<rparr> in
             Inr (open_node_logs host state finaud_tag w2)))"

definition set_node_nextState :: "string \<Rightarrow> string \<Rightarrow> db \<Rightarrow> int \<times> db" where
  "set_node_nextState host next_state w =
     (sql_count (\<lambda>r. r_network_address r = host) (t_resources w),
      w\<lparr>t_resources := sql_update (\<lambda>r. r_network_address r = host)
          (\<lambda>r. r\<lparr>r_next_state := next_state, r_next_finaud_decision := ''NO''\<rparr>) (t_resources w)\<rparr>)"

definition change_node_state :: "string \<Rightarrow> string \<Rightarrow> db \<Rightarrow> db" where
  "change_node_state node state w = notify_almighty ''ChState'' (snd (set_node_nextState node state w))"

text \<open>\<open>distinct(network_address)\<close> keeps one row of each address, here the first.\<close>

fun distinct_on :: "('a \<Rightarrow> 'k) \<Rightarrow> 'a list \<Rightarrow> 'a list" where
  "distinct_on k [] = []"
| "distinct_on k (x # xs) = x # filter (\<lambda>y. k y \<noteq> k x) (distinct_on k xs)"

definition get_finaud_nodes :: "db \<Rightarrow> resource_row list" where
  "get_finaud_nodes w = distinct_on r_network_address (filter (\<lambda>r.
     (r_state r = ''Alive'' \<or> r_state r = ''Suspected'' \<and> r_finaud_decision r = ''YES'') \<and>
     r_type r = ''default'' \<and> r_desktop_computing r = ''NO'' \<and> r_next_state r = ''UnChanged'')
     (t_resources w))"

definition get_current_assigned_nodes :: "db \<Rightarrow> string list" where
  "get_current_assigned_nodes w = remdups [r_network_address r. a \<leftarrow> t_assigned w, r \<leftarrow> t_resources w,
     a_index a = ''CURRENT'' \<and> r_id r = a_res a \<and> r_type r = ''default'']"

definition update_node_nextFinaudDecision :: "string \<Rightarrow> string \<Rightarrow> db \<Rightarrow> db" where
  "update_node_nextFinaudDecision host fin w =
     w\<lparr>t_resources := sql_update (\<lambda>r. r_network_address r = host)
         (\<lambda>r. r\<lparr>r_next_finaud_decision := fin\<rparr>) (t_resources w)\<rparr>"

definition get_node_job_to_frag :: "string \<Rightarrow> db \<Rightarrow> int list" where
  "get_node_job_to_frag host w =
     sort [j_id j. a \<leftarrow> t_assigned w, r \<leftarrow> t_resources w, m \<leftarrow> t_moldables w, j \<leftarrow> t_jobs w,
       a_index a = ''CURRENT'' \<and> m_index m = ''CURRENT'' \<and> r_network_address r = host \<and>
       a_res a = r_id r \<and> a_mld a = m_id m \<and> m_job m = j_id j \<and>
       j_state j \<noteq> ''Terminated'' \<and> j_state j \<noteq> ''Error'' \<and> j_id j \<notin> set (cosystem_jobs w)]"

definition get_all_network_address :: "db \<Rightarrow> string list" where
  "get_all_network_address w = remdups (map r_network_address (t_resources w))"

definition get_resources_state_for_host :: "string \<Rightarrow> db \<Rightarrow> (int \<times> string) list" where
  "get_resources_state_for_host host w =
     get_resources_state (sort (get_all_resources_on_node host w)) w"

section \<open>oar/modules/finaud.py\<close>

text \<open>
  \<open>ping\<close> is the external test of the nodes: its verdict (false on a timeout) and the bad hosts. A
  node that appears once per address in \<open>nodes_to_check\<close>; the dictionary keeps the last row of an
  address.
\<close>

definition finaud_decide :: "string list \<Rightarrow> resource_row \<Rightarrow> int \<times> db \<Rightarrow> int \<times> db" where
  "finaud_decide bad node st = (case st of (ret, w) \<Rightarrow>
     let host = r_network_address node in
     if host \<in> set bad \<and> r_state node = ''Alive'' then
       (1, add_new_event_with_host ''FINAUD_ERROR'' 0 ''Finaud has detected an error on the node'' [host]
             (update_node_nextFinaudDecision host ''YES''
               (snd (set_node_nextState host ''Suspected'' w))))
     else if host \<notin> set bad \<and> r_state node = ''Suspected'' then
       (1, add_new_event_with_host ''FINAUD_RECOVER'' 0
             ''Finaud has detected that the node comes back'' [host]
             (update_node_nextFinaudDecision host ''YES''
               (snd (set_node_nextState host ''Alive'' w))))
     else (ret, w))"

definition finaud_run :: "(string list \<Rightarrow> bool \<times> string list) \<Rightarrow> db \<Rightarrow> int \<times> db" where
  "finaud_run ping w =
     (let check = (case db_config w ''CHECK_NODES_WITH_RUNNING_JOB'' of None \<Rightarrow> ''NO'' | Some c \<Rightarrow> c);
          occupied = (if check = ''NO'' then get_current_assigned_nodes w else []);
          nodes = filter (\<lambda>n. check = ''NO'' \<longrightarrow> r_network_address n \<notin> set occupied)
                    (get_finaud_nodes w);
          addresses = map r_network_address nodes;
          (pingcheck, reported) = ping addresses;
          bad = (if pingcheck then reported else addresses) in
      fold (finaud_decide bad) nodes (0, w))"

section \<open>The log of the resources\<close>

definition open_values :: "int \<Rightarrow> db \<Rightarrow> string list" where
  "open_values r w = map rl_value
     (filter (\<lambda>l. rl_stop l = 0 \<and> rl_attribute l = ''state'' \<and> rl_res l = r) (t_res_logs w))"

definition res_log_ok :: "db \<Rightarrow> bool" where
  "res_log_ok w \<longleftrightarrow> 0 < db_now w \<and> distinct (map r_id (t_resources w)) \<and>
     (\<forall>l \<in> set (t_res_logs w). rl_res l \<in> set (map r_id (t_resources w))) \<and>
     (\<forall>x \<in> set (t_resources w). open_values (r_id x) w = [] \<or> open_values (r_id x) w = [r_state x])"


lemma open_values_append:
  "open_values r (w\<lparr>t_res_logs := t_res_logs w @ [res_log w' k ''state'' s d f]\<rparr>) =
     open_values r w @ (if k = r then [s] else [])"
  by (simp add: open_values_def res_log_def)

lemma open_values_update:
  assumes "0 < d"
  shows "map rl_value (filter (\<lambda>l. rl_stop l = 0 \<and> rl_attribute l = ''state'' \<and> rl_res l = r)
     (sql_update (\<lambda>l. rl_stop l = 0 \<and> rl_attribute l = ''state'' \<and> P (rl_res l))
        (\<lambda>l. l\<lparr>rl_stop := d\<rparr>) logs)) =
   (if P r then [] else map rl_value
     (filter (\<lambda>l. rl_stop l = 0 \<and> rl_attribute l = ''state'' \<and> rl_res l = r) logs))"
  using assms by (induction logs) (auto simp: sql_update_def)

lemma open_values_close:
  "0 < db_now w \<Longrightarrow> open_values r (close_state_logs P w) = (if P r then [] else open_values r w)"
  by (simp add: open_values_def close_state_logs_def get_date_def open_values_update)






lemma res_log_okI:
  assumes "0 < db_now w" "distinct (map r_id (t_resources w))"
    "\<And>k. k \<in> set (map rl_res (t_res_logs w)) \<Longrightarrow> k \<in> set (map r_id (t_resources w))"
    "\<And>x. x \<in> set (t_resources w) \<Longrightarrow> open_values (r_id x) w = [] \<or> open_values (r_id x) w = [r_state x]"
  shows "res_log_ok w"
  using assms by (auto simp: res_log_ok_def)

lemma set_resource_state_ok:
  assumes ok: "res_log_ok w" and r: "r \<in> set (map r_id (t_resources w))"
    and set': "set_resource_state r state fin w = Inr w'"
  shows "res_log_ok w'"
proof -
  obtain num where num: "state_to_num state = Inr num"
    using set' by (auto simp: set_resource_state_def res_simps)
  define f where "f x = x\<lparr>r_state := state, r_finaud_decision := fin, r_state_num := num\<rparr>"
    for x :: resource_row
  define w1 where "w1 = w\<lparr>t_resources := sql_update (\<lambda>x. r_id x = r) f (t_resources w)\<rparr>"
  define w2 where "w2 = close_state_logs (\<lambda>k. k = r) w1"
  have w': "w' = w2\<lparr>t_res_logs := t_res_logs w2 @ [res_log w2 r ''state'' state (get_date w2) fin]\<rparr>"
    using set' num by (simp add: set_resource_state_def w1_def w2_def f_def [abs_def] Let_def)
  have ids: "map r_id (t_resources w') = map r_id (t_resources w)"
    by (simp add: w' w2_def close_state_logs_def w1_def map_sql_update f_def)
  have now: "db_now w1 = db_now w" "0 < db_now w" using ok by (simp_all add: w1_def res_log_ok_def)
  have vals: "open_values k w' = (if k = r then [state] else open_values k w)" for k
    using now by (simp add: w' open_values_append w2_def open_values_close)
      (simp add: w1_def open_values_def)
  show ?thesis
  proof (rule res_log_okI)
    show "0 < db_now w'" using now by (simp add: w' w2_def close_state_logs_def w1_def)
    show "distinct (map r_id (t_resources w'))" using ok by (simp add: ids res_log_ok_def)
  next
    fix k assume "k \<in> set (map rl_res (t_res_logs w'))"
    hence "k = r \<or> k \<in> set (map rl_res (t_res_logs w))"
      by (auto simp: w' w2_def close_state_logs_def w1_def sql_update_def res_log_def)
    thus "k \<in> set (map r_id (t_resources w'))" using ok r by (auto simp: ids res_log_ok_def)
  next
    fix x assume "x \<in> set (t_resources w')"
    then obtain y where y: "y \<in> set (t_resources w)" "x = (if r_id y = r then f y else y)"
      by (auto simp: w' w2_def close_state_logs_def w1_def sql_update_def)
    thus "open_values (r_id x) w' = [] \<or> open_values (r_id x) w' = [r_state x]"
      using ok by (auto simp: vals f_def res_log_ok_def)
  qed
qed


lemma add_resource_ok:
  assumes ok: "res_log_ok w" and add': "add_resource name state w = Inr (r, w')"
  shows "res_log_ok w'"
proof -
  obtain num where num: "state_to_num state = Inr num"
    using add' by (auto simp: add_resource_def res_simps)
  define new where "new = default_resource\<lparr>r_id := r, r_network_address := name, r_state := state,
    r_state_num := num\<rparr>"
  have r: "r = fresh_id (map r_id (t_resources w))" and
    w': "w' = w\<lparr>t_resources := t_resources w @ [new],
                t_res_logs := t_res_logs w @ [res_log w r ''state'' state (get_date w) ''NO'']\<rparr>"
    using add' num by (auto simp: add_resource_def new_def Let_def)
  have fresh: "r \<notin> set (map r_id (t_resources w))" unfolding r by (rule fresh_id_fresh)
  have none: "open_values r w = []"
    using ok fresh by (auto simp: open_values_def res_log_ok_def filter_empty_conv)
  have vals: "open_values k w' = open_values k w @ (if r = k then [state] else [])" for k
    by (simp add: w' open_values_def res_log_def)
  have ids: "map r_id (t_resources w') = map r_id (t_resources w) @ [r]"
    "set (map rl_res (t_res_logs w')) = insert r (set (map rl_res (t_res_logs w)))"
    "db_now w' = db_now w" and res: "t_resources w' = t_resources w @ [new]"
    and new: "r_id new = r" "r_state new = state"
    by (simp_all add: w' new_def res_log_def)
  show ?thesis
  proof (rule res_log_okI)
    show "0 < db_now w'" "distinct (map r_id (t_resources w'))"
      using ok fresh unfolding ids by (simp_all add: res_log_ok_def)
  next
    fix k assume "k \<in> set (map rl_res (t_res_logs w'))"
    thus "k \<in> set (map r_id (t_resources w'))"
      using ok unfolding ids by (auto simp: res_log_ok_def)
  next
    fix x assume "x \<in> set (t_resources w')"
    hence "x \<in> set (t_resources w) \<or> x = new" by (auto simp: res)
    thus "open_values (r_id x) w' = [] \<or> open_values (r_id x) w' = [r_state x]"
    proof
      assume x: "x \<in> set (t_resources w)"
      with fresh have "r \<noteq> r_id x" by auto
      with x ok show ?thesis by (simp add: vals res_log_ok_def)
    qed (simp add: vals none new)
  qed
qed

section \<open>Finaud\<close>

definition finaud_next :: "string list \<Rightarrow> resource_row list \<Rightarrow> resource_row \<Rightarrow> resource_row" where
  "finaud_next bad nodes r =
     (case filter (\<lambda>n. r_network_address n = r_network_address r) nodes of
        [] \<Rightarrow> r
      | n # ns \<Rightarrow>
          if r_network_address r \<in> set bad \<and> r_state n = ''Alive'' then
            r\<lparr>r_next_state := ''Suspected'', r_next_finaud_decision := ''YES''\<rparr>
          else if r_network_address r \<notin> set bad \<and> r_state n = ''Suspected'' then
            r\<lparr>r_next_state := ''Alive'', r_next_finaud_decision := ''YES''\<rparr>
          else r)"

lemma finaud_decide_resources:
  "t_resources (snd (finaud_decide bad n (ret, w))) =
     map (finaud_next bad [n]) (t_resources w)"
proof -
  consider (error) "r_network_address n \<in> set bad \<and> r_state n = ''Alive''"
    | (recover) "r_network_address n \<notin> set bad \<and> r_state n = ''Suspected''"
    | (none) "\<not> (r_network_address n \<in> set bad \<and> r_state n = ''Alive'')"
        "\<not> (r_network_address n \<notin> set bad \<and> r_state n = ''Suspected'')" by blast
  thus ?thesis
  proof cases
    case none
    have "finaud_next bad [n] r = r" for r
      using none by (auto simp: finaud_next_def)
    hence "map (finaud_next bad [n]) (t_resources w) = t_resources w" by (simp add: map_idI)
    moreover have "snd (finaud_decide bad n (ret, w)) = w"
      using none by (auto simp: finaud_decide_def Let_def)
    ultimately show ?thesis by simp
  qed (auto simp: finaud_decide_def finaud_next_def set_node_nextState_def sql_update_def
      update_node_nextFinaudDecision_def Let_def)
qed

lemma finaud_next_address [simp]: "r_network_address (finaud_next bad ns r) = r_network_address r"
  by (auto simp: finaud_next_def split: list.splits)

lemma finaud_next_compose:
  assumes "r_network_address n \<notin> set (map r_network_address ns)"
  shows "finaud_next bad ns (finaud_next bad [n] r) = finaud_next bad (n # ns) r"
proof (cases "r_network_address n = r_network_address r")
  case True
  have none: "filter (\<lambda>m. r_network_address m = r_network_address r) ns = []"
    unfolding filter_empty_conv
  proof
    fix m assume "m \<in> set ns"
    hence "r_network_address m \<in> set (map r_network_address ns)" by simp
    with assms True show "r_network_address m \<noteq> r_network_address r" by metis
  qed
  hence "finaud_next bad ns (finaud_next bad [n] r) = finaud_next bad [n] r"
    by (simp add: finaud_next_def [of bad ns])
  moreover have "finaud_next bad (n # ns) r = finaud_next bad [n] r"
    using True none by (simp add: finaud_next_def)
  ultimately show ?thesis by simp
next
  case False
  hence "finaud_next bad [n] r = r" by (simp add: finaud_next_def)
  with False show ?thesis by (simp add: finaud_next_def)
qed

lemma finaud_fold_resources:
  assumes "distinct (map r_network_address ns)"
  shows "t_resources (snd (fold (finaud_decide bad) ns st)) =
     map (finaud_next bad ns) (t_resources (snd st))"
  using assms
proof (induction ns arbitrary: st)
  case Nil
  have "finaud_next bad [] = id" by (auto simp: finaud_next_def)
  thus ?case by simp
next
  case (Cons n ns)
  obtain ret w where st: "st = (ret, w)" by (cases st)
  from Cons.prems have "distinct (map r_network_address ns)" by simp
  from Cons.IH [OF this] Cons.prems show ?case
    by (simp add: st finaud_decide_resources finaud_next_compose del: set_map)
qed

lemma distinct_on_subset: "set (distinct_on k xs) \<subseteq> set xs"
  by (induction xs) auto

lemma distinct_on_distinct: "distinct (map k (distinct_on k xs))"
  by (induction xs) (auto simp: distinct_map_filter)

section \<open>Properties\<close>


text \<open>
  The change of state of a resource keeps the log of the resources consistent and reaches the
  wanted state with its number; an unknown state raises before anything is written.
\<close>

theorem set_resource_state_log:
  assumes "res_log_ok w" and "r \<in> set (map r_id (t_resources w))"
  shows "(case state_to_num state of
     Inl e \<Rightarrow> set_resource_state r state fin w = Inl e
   | Inr num \<Rightarrow> (case set_resource_state r state fin w of Inl e \<Rightarrow> False
       | Inr w' \<Rightarrow> res_log_ok w' \<and> open_values r w' = [state] \<and>
           t_resources w' = map (\<lambda>x. if r_id x = r
              then x\<lparr>r_state := state, r_finaud_decision := fin, r_state_num := num\<rparr> else x)
             (t_resources w)))"
proof (cases "state_to_num state")
  case (Inl e)
  thus ?thesis by (simp add: set_resource_state_def)
next
  case (Inr num)
  then obtain w' where w': "set_resource_state r state fin w = Inr w'"
    by (simp add: set_resource_state_def Let_def)
  have now: "0 < db_now w" using assms(1) by (simp add: res_log_ok_def)
  have "open_values r w' = [state]"
    using w' Inr now by (auto simp: set_resource_state_def Let_def open_values_append open_values_close)
  moreover have "t_resources w' = map (\<lambda>x. if r_id x = r
      then x\<lparr>r_state := state, r_finaud_decision := fin, r_state_num := num\<rparr> else x) (t_resources w)"
    using w' Inr by (auto simp: set_resource_state_def Let_def close_state_logs_def sql_update_def)
  moreover have "res_log_ok w'" using assms w' by (rule set_resource_state_ok)
  ultimately show ?thesis using Inr w' by simp
qed

text \<open>
  C19. What Finaud asks for, exactly: a resource gets a next state only when its node was tested, is the
  one row kept for its address, and is \<open>Alive\<close> and bad (then \<open>Suspected\<close>) or \<open>Suspected\<close> and good
  (then \<open>Alive\<close>). Every resource of the address gets it, whatever its own state; no current state
  changes.
\<close>

theorem finaud_run_exact:
  "t_resources (snd (finaud_run ping w)) =
     (let check = (case db_config w ''CHECK_NODES_WITH_RUNNING_JOB'' of None \<Rightarrow> ''NO'' | Some c \<Rightarrow> c);
          busy = (if check = ''NO'' then get_current_assigned_nodes w else []);
          nodes = filter (\<lambda>n. r_network_address n \<notin> set busy) (get_finaud_nodes w);
          (alive, reported) = ping (map r_network_address nodes) in
      map (finaud_next (if alive then reported else map r_network_address nodes) nodes)
        (t_resources w))"
proof -
  have "distinct (map r_network_address (filter P (get_finaud_nodes w)))" for P
    unfolding get_finaud_nodes_def by (rule distinct_map_filter) (rule distinct_on_distinct)
  moreover define check where "check =
    (case db_config w ''CHECK_NODES_WITH_RUNNING_JOB'' of None \<Rightarrow> ''NO'' | Some c \<Rightarrow> c)"
  moreover have "filter (\<lambda>n. check = ''NO'' \<longrightarrow> r_network_address n \<notin>
        set (if check = ''NO'' then get_current_assigned_nodes w else [])) (get_finaud_nodes w) =
      filter (\<lambda>n. r_network_address n \<notin> set (if check = ''NO'' then get_current_assigned_nodes w else []))
        (get_finaud_nodes w)" by simp
  ultimately show ?thesis
    unfolding finaud_run_def Let_def check_def [symmetric]
    by (simp only: finaud_fold_resources snd_conv split: prod.split) simp
qed

text \<open>
  The guard that should keep a node from becoming \<open>Suspected\<close> unless it is \<open>Alive\<close> never applies:
  it tests \<open>"Suspect"\<close>, a state for which the function raises. So a \<open>Dead\<close> node becomes \<open>Suspected\<close>.
\<close>

theorem set_node_state_suspects_dead_node:
  "set_node_state host ''Suspect'' tag w = Inl KeyError \<and>
   (case set_node_state ''n1'' ''Suspected'' ''YES''
      (empty_db\<lparr>db_now := 5, db_config := [''DB_TYPE'' \<mapsto> ''Pg''],
         t_resources := [default_resource\<lparr>r_id := 1, r_network_address := ''n1'', r_state := ''Dead''\<rparr>]\<rparr>)
    of Inl e \<Rightarrow> False | Inr w' \<Rightarrow> map r_state (t_resources w') = [''Suspected''])"
  by (simp add: set_node_state_def state_to_num_def empty_db_def default_resource_def sql_update_def
      open_node_logs_def get_all_resources_on_node_def Let_def)

section \<open>Witnesses\<close>

definition node_db :: db where
  "node_db = empty_db\<lparr>db_now := 5, db_config := [''DB_TYPE'' \<mapsto> ''Pg''],
     t_resources := [default_resource\<lparr>r_id := 1, r_network_address := ''n1''\<rparr>],
     t_res_logs := [\<lparr>rl_id = 1, rl_res = 1, rl_attribute = ''state'', rl_value = ''Alive'',
       rl_start = 1, rl_stop = 0, rl_finaud_decision = ''NO''\<rparr>]\<rparr>"

lemma node_db_ok: "res_log_ok node_db" "db_config node_db ''DB_TYPE'' = Some ''Pg''"
  "1 \<in> set (map r_id (t_resources node_db))"
  by (simp_all add: node_db_def empty_db_def default_resource_def res_log_ok_def open_values_def)


theorem set_resource_state_log_witness:
  "case set_resource_state 1 ''Absent'' ''NO'' node_db of Inl e \<Rightarrow> False
   | Inr w' \<Rightarrow> res_log_ok w' \<and> open_values 1 w' = [''Absent'']"
  using set_resource_state_log [OF node_db_ok(1,3), of "''Absent''" "''NO''"]
  by (simp add: state_to_num_def split: sum.splits)

end
