(* ===== verification/Node_Change.thy ===== *)
theory Node_Change
  imports Killer Nodes
begin

text \<open>
  \<open>oar/modules/node_change_state.py\<close>: the module that reacts to the events, changes the states of jobs
  and nodes accordingly, and applies the requested next states of the resources.

  The module's own state (\<open>exit_code\<close> and \<open>resources_to_heal\<close>) is the record \<open>ncs\<close> with the database.
  The commands run on the nodes are parameters: the suspension of a job and the administrator's
  script after it.
\<close>

record ncs =
  exit_code :: int
  to_heal :: "string list"
  the_db :: db

record suspend_env =
  suspend_nodes :: "string list \<Rightarrow> int \<times> string list"
  after_suspend :: "string \<Rightarrow> int \<Rightarrow> string"

definition lift_db :: "(db \<Rightarrow> db) \<Rightarrow> ncs \<Rightarrow> ncs" where
  "lift_db f s = s\<lparr>the_db := f (the_db s)\<rparr>"

definition lift_res :: "(db \<Rightarrow> db res) \<Rightarrow> ncs \<Rightarrow> ncs res" where
  "lift_res f s = res_bind (f (the_db s)) (\<lambda>w. Inr (s\<lparr>the_db := w\<rparr>))"

definition job_attr :: "int \<Rightarrow> db \<Rightarrow> job_row res" where
  "job_attr jid w = (case get_job w jid of None \<Rightarrow> Inl AttributeError | Some j \<Rightarrow> Inr j)"

section \<open>The lists of event types\<close>

definition error_types :: "string list" where
  "error_types = [''PING_CHECKER_NODE_SUSPECTED'', ''CPUSET_ERROR'', ''PROLOGUE_ERROR'',
     ''CANNOT_WRITE_NODE_FILE'', ''CANNOT_WRITE_PID_FILE'', ''USER_SHELL'', ''EXTERMINATE_JOB'',
     ''CANNOT_CREATE_TMP_DIRECTORY'', ''LAUNCHING_OAREXEC_TIMEOUT'', ''RESERVATION_NO_NODE'',
     ''BAD_HASHTABLE_DUMP'', ''SSH_TRANSFER_TIMEOUT'', ''EXIT_VALUE_OAREXEC'']"

definition suspect_types :: "string list" where
  "suspect_types = [''PING_CHECKER_NODE_SUSPECTED'', ''PING_CHECKER_NODE_SUSPECTED_END_JOB'',
     ''CPUSET_ERROR'', ''CPUSET_CLEAN_ERROR'', ''SUSPEND_ERROR'', ''RESUME_ERROR'', ''PROLOGUE_ERROR'',
     ''EPILOGUE_ERROR'', ''CANNOT_WRITE_NODE_FILE'', ''CANNOT_WRITE_PID_FILE'', ''USER_SHELL'',
     ''EXTERMINATE_JOB'', ''CANNOT_CREATE_TMP_DIRECTORY'', ''SSH_TRANSFER_TIMEOUT'',
     ''BAD_HASHTABLE_DUMP'', ''LAUNCHING_OAREXEC_TIMEOUT'', ''EXIT_VALUE_OAREXEC'',
     ''FORCE_TERMINATE_FINISHING_JOB'']"

definition cpuset_SR_types :: "string list" where
  "cpuset_SR_types = [''CPUSET_ERROR'', ''CPUSET_CLEAN_ERROR'', ''SUSPEND_ERROR'', ''RESUME_ERROR'']"

definition cpuset_LT_types :: "string list" where
  "cpuset_LT_types = [''EXTERMINATE_JOB'', ''PROLOGUE_ERROR'', ''EPILOGUE_ERROR'', ''CPUSET_ERROR'',
     ''CPUSET_CLEAN_ERROR'', ''FORCE_TERMINATE_FINISHING_JOB'']"

definition stop_types :: "string list" where
  "stop_types = [''SERVER_PROLOGUE_TIMEOUT'', ''SERVER_PROLOGUE_EXIT_CODE_ERROR'',
     ''SERVER_EPILOGUE_TIMEOUT'', ''SERVER_EPILOGUE_EXIT_CODE_ERROR'']"

definition resubmit_types :: "string list" where
  "resubmit_types = [''SERVER_PROLOGUE_TIMEOUT'', ''SERVER_PROLOGUE_EXIT_CODE_ERROR'',
     ''SERVER_EPILOGUE_TIMEOUT'', ''PING_CHECKER_NODE_SUSPECTED'', ''CPUSET_ERROR'', ''PROLOGUE_ERROR'',
     ''CANNOT_WRITE_NODE_FILE'', ''CANNOT_WRITE_PID_FILE'', ''USER_SHELL'',
     ''CANNOT_CREATE_TMP_DIRECTORY'', ''LAUNCHING_OAREXEC_TIMEOUT'']"

section \<open>The steps for one event, in the order of the code\<close>

text \<open>Resubmission of an idempotent job that ended with the exit code 99.\<close>

definition resubmit_idempotent :: "int \<Rightarrow> event_row \<Rightarrow> db \<Rightarrow> db res" where
  "resubmit_idempotent rnd e w =
     (let jid = e_job e in
      if e_type e = ''SWITCH_INTO_TERMINATE_STATE'' \<or> e_type e = ''SWITCH_INTO_ERROR_STATE'' then
        res_bind (job_attr jid w) (\<lambda>job.
        if (case j_exit_code job of None \<Rightarrow> False | Some c \<Rightarrow> c \<noteq> 0 \<and> c div 256 = 99) \<and>
           has_job_type ''idempotent'' (get_job_types jid w) \<and>
           j_reservation job = ''None'' \<and> j_type job = ''PASSIVE'' \<and>
           is_job_already_resubmitted jid w = 0 \<and> is_an_event_exists jid ''SEND_KILL_JOB'' w = 0 \<and>
           j_stop_time job - j_start_time job > 60
        then res_bind (resubmit_job rnd jid w) (\<lambda>(r, w'). Inr w')
        else Inr w)
      else Inr w)"

definition switch_state :: "event_row \<Rightarrow> db \<Rightarrow> db" where
  "switch_state e w =
     (if e_type e = ''SWITCH_INTO_TERMINATE_STATE'' then set_job_state (e_job e) ''Terminated'' w
      else if e_type e = ''SWITCH_INTO_ERROR_STATE'' \<or> e_type e = ''FORCE_TERMINATE_FINISHING_JOB'' then
        set_job_state (e_job e) ''Error'' w
      else w)"

definition error_state :: "event_row \<Rightarrow> db \<Rightarrow> db res" where
  "error_state e w =
     (if e_type e \<in> set error_types then
        res_bind (job_attr (e_job e) w) (\<lambda>job. Inr (
          if j_reservation job = ''None'' \<or> e_type e = ''RESERVATION_NO_NODE'' \<or>
             j_assigned_moldable_job job = 0 then set_job_state (e_job e) ''Error'' w
          else if j_reservation job \<noteq> ''None'' \<and> e_type e \<noteq> ''PING_CHECKER_NODE_SUSPECTED'' \<and>
                  e_type e \<noteq> ''CPUSET_ERROR'' then set_job_state (e_job e) ''Error'' w
          else w))
      else Inr w)"

definition terminate_state :: "event_row \<Rightarrow> db \<Rightarrow> db" where
  "terminate_state e w =
     (if e_type e = ''CPUSET_CLEAN_ERROR'' \<or> e_type e = ''EPILOGUE_ERROR'' then
        set_job_state (e_job e) ''Terminated'' w else w)"

text \<open>The hosts to suspect, with the event the code adds on the way.\<close>

definition suspected_hosts :: "event_row \<Rightarrow> db \<Rightarrow> (string list \<times> string \<times> db) res" where
  "suspected_hosts e w =
     (if e_type e = ''PING_CHECKER_NODE_SUSPECTED'' \<or>
         e_type e = ''PING_CHECKER_NODE_SUSPECTED_END_JOB'' then
        Inr (get_hostname_event (e_id e) w, ''YES'', w)
      else if e_type e \<in> set cpuset_SR_types then Inr (get_hostname_event (e_id e) w, ''NO'', w)
      else
        res_bind (job_attr (e_job e) w) (\<lambda>job.
        let hosts = get_job_host_log (j_assigned_moldable_job job) w in
        res_bind (if e_type e \<notin> set cpuset_LT_types then
                    res_bind (nth_res hosts 0) (\<lambda>h. Inr [h])
                  else if db_config w ''JOB_RESOURCE_MANAGER_PROPERTY_DB_FIELD'' \<noteq> None \<and>
                          e_type e = ''EXTERMINATE_JOB'' then Inr []
                  else Inr hosts) (\<lambda>hosts'.
        Inr (hosts', ''NO'', add_new_event_with_host ''LOG_SUSPECTED'' 0 (e_description e) hosts' w))))"

definition suspect_host :: "string \<Rightarrow> string \<Rightarrow> ncs \<Rightarrow> ncs res" where
  "suspect_host tag host s =
     res_bind (set_node_state host ''Suspected'' tag (the_db s)) (\<lambda>w.
     Inr (s\<lparr>the_db := w, exit_code := 1, to_heal := to_heal s @
            map (\<lambda>r. int_str r @ '' '' @ host) (get_all_resources_on_node host w)\<rparr>))"

definition suspect_nodes :: "event_row \<Rightarrow> ncs \<Rightarrow> ncs res" where
  "suspect_nodes e s =
     (if e_type e \<in> set suspect_types then
        res_bind (suspected_hosts e (the_db s)) (\<lambda>(hosts, tag, w).
        fold_res (suspect_host tag)
          (rev (remdups (rev (filter (\<lambda>h. h \<noteq> '''') hosts)))) (s\<lparr>the_db := w\<rparr>))
      else Inr s)"

definition stop_scheduling :: "event_row \<Rightarrow> db \<Rightarrow> db" where
  "stop_scheduling e w =
     (if e_type e \<in> set stop_types then set_job_state (e_job e) ''Error'' (stop_all_queues w) else w)"

definition resubmit_failed :: "int \<Rightarrow> event_row \<Rightarrow> db \<Rightarrow> db res" where
  "resubmit_failed rnd e w =
     (if e_type e \<in> set resubmit_types then
        res_bind (job_attr (e_job e) w) (\<lambda>job.
        if j_reservation job = ''None'' \<and> j_type job = ''PASSIVE'' \<and>
           is_job_already_resubmitted (e_job e) w = 0
        then res_bind (resubmit_job rnd (e_job e) w) (\<lambda>(r, w').
             Inr (add_new_event ''RESUBMIT_JOB_AUTOMATICALLY'' (e_job e)
               (''Resubmiting job '' @ int_str (e_job e) @ '' => '' @ str_resubmit r @
                '' (due to event '' @ e_type e @ '' & job is neither a reservation nor an interactive job)'')
               ''YES'' w'))
        else Inr w)
      else Inr w)"

text \<open>\<open>suspend_job\<close>: the suspension runs on the nodes when the cpusets are managed.\<close>

definition suspend_on_nodes :: "suspend_env \<Rightarrow> job_row \<Rightarrow> string list \<Rightarrow> string \<Rightarrow> ncs \<Rightarrow> ncs res" where
  "suspend_on_nodes env job hosts file s =
     (let jid = j_id job; (tag, bad) = suspend_nodes env hosts in
      if tag = 0 then
        Inr (lift_db (add_new_event ''SUSPEND_RESUME_MANAGER_FILE'' jid
          (''[NodeChangeState] '' @ ''[SUSPEND_RESUME] ['' @ int_str jid @ ''] Bad suspend/resume file: '' @
           file) ''YES'') s)
      else if bad = [] then
        let s1 = lift_db (suspend_job_action jid (j_assigned_moldable_job job)) s in
        (case db_config (the_db s) ''JUST_AFTER_SUSPEND_EXEC_FILE'' of None \<Rightarrow> Inr s1
         | Some script \<Rightarrow> if script = '''' then Inr s1 else
            let error_msg = after_suspend env script jid in
            if error_msg = '''' then Inr s1
            else Inr (lift_db (\<lambda>w. notify_almighty ''Qresume'' (set_job_state jid ''Resuming''
                   (add_new_event ''SUSPEND_SCRIPT_ERROR'' jid
                     (''['' @ int_str jid @ ''] suspend script error, job will resume:'' @ error_msg)
                     ''YES'' w))) s1))
      else
        res_bind (lift_res (\<lambda>w. res_bind (frag_job jid None w) (\<lambda>(c, w'). Inr w'))
          (lift_db (add_new_event_with_host ''SUSPEND_ERROR'' jid
            (''[NodeChangeState] '' @ ''[SUSPEND_RESUME] ['' @ int_str jid @ ''] error on several nodes: '' @
             str_list bad) bad) s)) (\<lambda>s1. Inr (s1\<lparr>exit_code := 2\<rparr>)))"

definition suspend_job :: "suspend_env \<Rightarrow> job_row \<Rightarrow> ncs \<Rightarrow> ncs res" where
  "suspend_job env job s =
     (let w = the_db s in
      case db_config w ''JOB_RESOURCE_MANAGER_PROPERTY_DB_FIELD'' of None \<Rightarrow> Inr s
      | Some field \<Rightarrow>
        let nodes = get_cpuset_values field (j_assigned_moldable_job job) w in
        res_bind (if nodes = [] then Inr s
          else
            res_bind (config_value ''TAKTUK_CMD'' w) (\<lambda>taktuk.
            res_bind (config_value ''OPENSSH_CMD'' w) (\<lambda>ssh.
            case db_config w ''SUSPEND_RESUME_FILE'' of None \<Rightarrow> Inl Raised_exception
            | Some f \<Rightarrow>
                res_bind (if take 1 f = ''/'' then Inr f
                  else (case db_environ w ''OARDIR'' of None \<Rightarrow> Inl Raised_exception
                        | Some d \<Rightarrow> Inr (d @ ''/'' @ f))) (\<lambda>file.
                suspend_on_nodes env job (map fst nodes) file s))))
          (\<lambda>s1. Inr (lift_db (notify_almighty ''Term'') s1)))"

text \<open>
  The requests to hold and resume. A running job is suspended on \<open>HOLD_WAITING_JOB\<close>, although
  \<open>hold_job\<close> sends \<open>HOLD_RUNNING_JOB\<close> for it, and the resumption of a suspended job tests the state
  \<open>"Suspend"\<close>.
\<close>

definition hold_resume :: "suspend_env \<Rightarrow> event_row \<Rightarrow> ncs \<Rightarrow> ncs res" where
  "hold_resume env e s =
     (let jid = e_job e; w = the_db s in
      if e_type e \<in> set [''HOLD_WAITING_JOB'', ''HOLD_RUNNING_JOB'', ''RESUME_JOB''] then
        res_bind (job_attr jid w) (\<lambda>job.
        if e_type e \<noteq> ''RESUME_JOB'' \<and> j_state job = ''Waiting'' then
          (let s1 = lift_db (set_job_state jid ''Hold'') s in
           if j_type job = ''INTERACTIVE'' then
             lift_res (notify_client job ''Start prediction: undefined (Hold)'') s1
           else Inr s1)
        else if e_type e \<noteq> ''RESUME_JOB'' \<and> j_state job = ''Resuming'' then
          Inr (lift_db (\<lambda>w. notify_almighty ''Term'' (set_job_state jid ''Suspended'' w)) s)
        else if e_type e = ''HOLD_WAITING_JOB'' \<and> j_state job = ''Running'' then
          (if has_job_type ''noop'' (get_job_types jid w) then
             Inr (lift_db (\<lambda>w. notify_almighty ''Term''
                    (suspend_job_action jid (j_assigned_moldable_job job) w)) s)
           else suspend_job env job s)
        else if e_type e = ''RESUME_JOB'' \<and> j_state job = ''Suspend'' then
          Inr (lift_db (\<lambda>w. notify_almighty ''Qresume'' (set_job_state jid ''Resuming'' w)) s)
        else if e_type e = ''RESUME_JOB'' \<and> j_state job = ''Hold'' then
          Inr (lift_db (\<lambda>w. notify_almighty ''Qresume'' (set_job_state jid ''Waiting'' w)) s)
        else Inr s)
      else Inr s)"

definition notify_fragged :: "event_row \<Rightarrow> db \<Rightarrow> db res" where
  "notify_fragged e w =
     (if e_type e = ''FRAG_JOB_REQUEST'' then
        res_bind (job_attr (e_job e) w) (\<lambda>job.
        Inr (notify_user job ''INFO'' (''Your job was asked to be deleted - '' @ e_description e) w))
      else Inr w)"

definition handle_event :: "int \<Rightarrow> suspend_env \<Rightarrow> event_row \<Rightarrow> ncs \<Rightarrow> ncs res" where
  "handle_event rnd env e s =
     res_bind (lift_res (resubmit_idempotent rnd e) s) (\<lambda>s1.
     res_bind (lift_res (error_state e) (lift_db (switch_state e) s1)) (\<lambda>s2.
     res_bind (suspect_nodes e (lift_db (terminate_state e) s2)) (\<lambda>s3.
     res_bind (lift_res (resubmit_failed rnd e) (lift_db (stop_scheduling e) s3)) (\<lambda>s4.
     res_bind (hold_resume env e s4) (\<lambda>s5.
     res_bind (lift_res (notify_fragged e) s5) (\<lambda>s6.
     Inr (lift_db (check_event (e_type e) (e_job e)) s6)))))))"

section \<open>The next states of the resources\<close>

definition frag_jobs_of :: "int \<Rightarrow> ncs \<Rightarrow> ncs res" where
  "frag_jobs_of jid s =
     res_bind (frag_job jid None (the_db s)) (\<lambda>(c, w). Inr (s\<lparr>the_db := w, exit_code := 2\<rparr>))"

text \<open>
  The \<open>else\<close> of the loop over the jobs to kill always runs (the loop has no \<open>break\<close>), and nothing runs
  when the resource is already in its next state.
\<close>

definition change_resource :: "int \<times> string \<Rightarrow> ncs \<Rightarrow> ncs res" where
  "change_resource r_next s = (case r_next of (r, next_state) \<Rightarrow>
     res_bind (get_resource r (the_db s)) (\<lambda>res.
     if r_state res \<noteq> next_state then
       res_bind (set_resource_state r next_state (r_next_finaud_decision res) (the_db s)) (\<lambda>w1.
       let s1 = s\<lparr>the_db := set_resource_nextState r ''UnChanged'' w1,
                  to_heal := to_heal s @ (if next_state = ''Suspected''
                    then [int_str r @ '' '' @ r_network_address res] else [])\<rparr> in
       if next_state = ''Dead'' \<or> next_state = ''Absent'' then
         res_bind (fold_res frag_jobs_of (get_resource_job_to_frag r (the_db s1)) s1) (\<lambda>s2.
         Inr (lift_db (set_resource_nextState r ''UnChanged'') s2))
       else Inr s1)
     else Inr s))"

definition change_resources :: "ncs \<Rightarrow> ncs res" where
  "change_resources s =
     (let changes = get_resources_change_state (the_db s) in
      if changes = [] then Inr s
      else fold_res change_resource changes (s\<lparr>exit_code := 1\<rparr>))"

definition heal :: "ncs \<Rightarrow> ncs res" where
  "heal s =
     (case db_config (the_db s) ''SUSPECTED_HEALING_EXEC_FILE'' of None \<Rightarrow> Inr s
      | Some f \<Rightarrow> if f \<noteq> '''' \<and> to_heal s \<noteq> [] then Inl NotImplementedError else Inr s)"

definition node_change_state_run :: "int \<Rightarrow> suspend_env \<Rightarrow> db \<Rightarrow> ncs res" where
  "node_change_state_run rnd env w =
     res_bind (fold_res (handle_event rnd env) (get_to_check_events w)
                \<lparr>exit_code = 0, to_heal = [], the_db = w\<rparr>) (\<lambda>s1.
     res_bind (change_resources s1) heal)"

section \<open>Refinement\<close>

lemma lift_db_db [simp]: "the_db (lift_db f s) = f (the_db s)"
  by (simp add: lift_db_def)

lemma lift_res_refines:
  assumes "lift_res f s = Inr s'" and "\<And>w w'. f w = Inr w' \<Longrightarrow> refines w w'"
  shows "refines (the_db s) (the_db s')"
  using assms by (auto simp: lift_res_def res_simps)

lemma lift_db_refines:
  "(\<And>w. refines w (f w)) \<Longrightarrow> refines (the_db s) (the_db (lift_db f s))"
  by simp

lemma fold_res_refines_ncs:
  assumes "fold_res f xs s = Inr s'"
    and "\<And>x s s'. f x s = Inr s' \<Longrightarrow> refines (the_db s) (the_db s')"
  shows "refines (the_db s) (the_db s')"
  by (rule fold_res_invariant [OF assms(1), where I = "\<lambda>v. refines (the_db s) (the_db v)"])
     (auto intro: refines_trans assms(2))

lemma set_state_after: "life_of v = life_of w \<Longrightarrow> refines w (set_job_state i t v)"
  by (rule refines_trans [OF refines_same refines_set_job_state])

lemma resubmit_idempotent_refines: "resubmit_idempotent rnd e w = Inr w' \<Longrightarrow> refines w w'"
  by (auto simp: resubmit_idempotent_def Let_def res_simps resubmit_refines split: if_splits)

lemma refines_notify: "refines w w' \<Longrightarrow> refines w (notify_almighty c w')"
  by (rule refines_life_right [rotated]) (simp_all add: life_simps)

lemma switch_state_refines: "refines w (switch_state e w)"
  by (simp add: switch_state_def refines_set_job_state)

lemma error_state_refines: "error_state e w = Inr w' \<Longrightarrow> refines w w'"
  by (auto simp: error_state_def res_simps refines_set_job_state split: if_splits)

lemma terminate_state_refines: "refines w (terminate_state e w)"
  by (simp add: terminate_state_def refines_set_job_state)

lemma stop_scheduling_refines: "refines w (stop_scheduling e w)"
  by (simp add: stop_scheduling_def set_state_after life_simps)

lemma resubmit_failed_refines:
  assumes "resubmit_failed rnd e w = Inr w'"
  shows "refines w w'"
proof -
  from assms have "w' = w \<or> (\<exists>r w1. resubmit_job rnd (e_job e) w = Inr (r, w1) \<and> life_of w' = life_of w1)"
    by (auto simp: resubmit_failed_def res_simps life_simps split: if_splits)
  thus ?thesis using resubmit_refines refines_life_right by blast
qed

lemma open_node_logs_life [life_simps]: "life_of (open_node_logs h s t w) = life_of w"
  unfolding open_node_logs_def by (rule fold_keeps) (simp add: life_simps)

lemma set_node_state_life: "set_node_state h s t w = Inr w' \<Longrightarrow> life_of w' = life_of w"
  by (auto simp: set_node_state_def Let_def res_simps life_simps split: if_splits option.splits)

lemma set_resource_state_life: "set_resource_state r s f w = Inr w' \<Longrightarrow> life_of w' = life_of w"
  by (auto simp: set_resource_state_def close_state_logs_def Let_def res_simps life_simps)

lemma suspected_hosts_life: "suspected_hosts e w = Inr (hs, tag, w') \<Longrightarrow> life_of w' = life_of w"
  by (auto simp: suspected_hosts_def Let_def res_simps life_simps split: if_splits)

lemma suspect_nodes_refines:
  assumes "suspect_nodes e s = Inr s'"
  shows "refines (the_db s) (the_db s')"
proof (cases "e_type e \<in> set suspect_types")
  case True
  then obtain hosts tag w where 1: "suspected_hosts e (the_db s) = Inr (hosts, tag, w)"
    and 2: "fold_res (suspect_host tag)
      (rev (remdups (rev (filter (\<lambda>h. h \<noteq> '''') hosts)))) (s\<lparr>the_db := w\<rparr>) = Inr s'"
    using assms by (auto simp: suspect_nodes_def res_simps)
  have "refines (the_db (s\<lparr>the_db := w\<rparr>)) (the_db s')"
    using 2 by (rule fold_res_refines_ncs)
      (auto simp: suspect_host_def res_simps intro!: refines_same set_node_state_life)
  moreover have "refines (the_db s) w" using 1 by (blast intro: refines_same suspected_hosts_life)
  ultimately show ?thesis by (auto intro: refines_trans)
qed (use assms in \<open>simp add: suspect_nodes_def\<close>)

lemma suspend_on_nodes_refines:
  assumes "suspend_on_nodes env job hosts file s = Inr s'"
  shows "refines (the_db s) (the_db s')"
proof -
  obtain tag bad where tb: "suspend_nodes env hosts = (tag, bad)" by fastforce
  let ?sj = "suspend_job_action (j_id job) (j_assigned_moldable_job job)"
  consider (no_tag) "tag = 0" | (all) "tag \<noteq> 0" "bad = []" | (several) "tag \<noteq> 0" "bad \<noteq> []" by blast
  thus ?thesis
  proof cases
    case no_tag
    thus ?thesis using assms
      by (auto simp: suspend_on_nodes_def tb lift_db_def Let_def life_simps intro!: refines_same)
  next
    case all
    have sj: "refines (the_db s) (?sj (the_db s))" by (rule refines_suspend_job_action)
    have sja: "refines (the_db s) (set_job_state i t (add_new_event ty j d c (?sj (the_db s))))"
      for i t ty j d c
      by (rule refines_trans [OF sj set_state_after]) (simp add: life_simps)
    show ?thesis
      using assms all
      by (auto simp: suspend_on_nodes_def tb lift_db_def Let_def intro!: refines_notify sja sj
          split: option.splits if_splits)
  next
    case several
    thus ?thesis using assms
      by (auto simp: suspend_on_nodes_def tb lift_db_def lift_res_def Let_def res_simps life_simps
          dest!: frag_job_life intro!: refines_same)
  qed
qed

lemma suspend_job_refines:
  assumes "suspend_job env job s = Inr s'"
  shows "refines (the_db s) (the_db s')"
proof -
  from assms obtain s1 where s1: "s1 = s \<or> (\<exists>hosts file. suspend_on_nodes env job hosts file s = Inr s1)"
    and s': "s' = s \<or> s' = lift_db (notify_almighty ''Term'') s1"
    by (auto simp: suspend_job_def Let_def res_simps split: option.splits if_splits)
  from s1 have "refines (the_db s) (the_db s1)" using suspend_on_nodes_refines by blast
  with s' show ?thesis by (auto intro: refines_notify)
qed

lemma hold_resume_refines:
  assumes "hold_resume env e s = Inr s'"
  shows "refines (the_db s) (the_db s')"
proof -
  have via: "refines w v" if "life_of v = life_of (set_job_state i t w)" for w v i t
    using that refines_set_job_state by (rule refines_life_right)
  show ?thesis
    using assms
    by (auto simp: hold_resume_def Let_def lift_res_def res_simps simp del: set_simps
        dest!: notify_client_life intro!: refines_notify refines_set_job_state
        refines_suspend_job_action intro: via suspend_job_refines split: if_splits)
qed

lemma notify_fragged_life: "notify_fragged e w = Inr w' \<Longrightarrow> life_of w' = life_of w"
  by (auto simp: notify_fragged_def res_simps life_simps split: if_splits)

lemma handle_event_refines:
  assumes "handle_event rnd env e s = Inr s'"
  shows "refines (the_db s) (the_db s')"
proof -
  from assms obtain s1 s2 s3 s4 s5 s6 where
    1: "lift_res (resubmit_idempotent rnd e) s = Inr s1" and
    2: "lift_res (error_state e) (lift_db (switch_state e) s1) = Inr s2" and
    3: "suspect_nodes e (lift_db (terminate_state e) s2) = Inr s3" and
    4: "lift_res (resubmit_failed rnd e) (lift_db (stop_scheduling e) s3) = Inr s4" and
    5: "hold_resume env e s4 = Inr s5" and
    6: "lift_res (notify_fragged e) s5 = Inr s6" and
    s': "s' = lift_db (check_event (e_type e) (e_job e)) s6"
    unfolding handle_event_def by (auto simp: res_simps)
  have "refines (the_db s) (the_db s1)"
    using 1 by (rule lift_res_refines) (rule resubmit_idempotent_refines)
  also have "refines (the_db s1) (the_db (lift_db (switch_state e) s1))"
    by (rule lift_db_refines) (rule switch_state_refines)
  also have "refines \<dots> (the_db s2)"
    using 2 by (rule lift_res_refines) (rule error_state_refines)
  also have "refines \<dots> (the_db (lift_db (terminate_state e) s2))"
    by (rule lift_db_refines) (rule terminate_state_refines)
  also have "refines \<dots> (the_db s3)" using 3 by (rule suspect_nodes_refines)
  also have "refines \<dots> (the_db (lift_db (stop_scheduling e) s3))"
    by (rule lift_db_refines) (rule stop_scheduling_refines)
  also have "refines \<dots> (the_db s4)"
    using 4 by (rule lift_res_refines) (rule resubmit_failed_refines)
  also have "refines \<dots> (the_db s5)" using 5 by (rule hold_resume_refines)
  also have "refines \<dots> (the_db s6)"
    using 6 by (rule lift_res_refines) (blast intro: refines_same notify_fragged_life)
  finally show ?thesis unfolding s' by (rule refines_life_right [rotated]) (simp add: life_simps)
qed

lemma frag_jobs_of_life: "frag_jobs_of i s = Inr s' \<Longrightarrow> life_of (the_db s') = life_of (the_db s)"
  by (auto simp: frag_jobs_of_def res_simps dest: frag_job_life)

lemma change_resource_life:
  assumes "change_resource (r, nxt) s = Inr s'"
  shows "life_of (the_db s') = life_of (the_db s)"
proof -
  have "life_of (the_db s2) = life_of (the_db s1)" if "fold_res frag_jobs_of js s1 = Inr s2" for js s1 s2
    by (rule fold_res_invariant [OF that, where I = "\<lambda>v. life_of (the_db v) = life_of (the_db s1)"])
       (auto dest: frag_jobs_of_life)
  note loop = this
  from assms obtain res where res: "get_resource r (the_db s) = Inr res"
    by (cases "get_resource r (the_db s)") (simp_all add: change_resource_def)
  show ?thesis
  proof (cases "r_state res = nxt")
    case True
    thus ?thesis using assms by (simp add: change_resource_def res)
  next
    case False
    with assms res obtain w1 where
      w1: "set_resource_state r nxt (r_next_finaud_decision res) (the_db s) = Inr w1"
      by (cases "set_resource_state r nxt (r_next_finaud_decision res) (the_db s)")
        (simp_all add: change_resource_def)
    define s1 where "s1 = s\<lparr>the_db := set_resource_nextState r ''UnChanged'' w1,
        to_heal := to_heal s @ (if nxt = ''Suspected'' then [int_str r @ '' '' @ r_network_address res] else [])\<rparr>"
    have l1: "life_of (the_db s1) = life_of (the_db s)"
      using set_resource_state_life [OF w1] by (simp add: s1_def life_simps)
    have s': "(if nxt = ''Dead'' \<or> nxt = ''Absent''
        then res_bind (fold_res frag_jobs_of (get_resource_job_to_frag r (the_db s1)) s1)
               (\<lambda>s2. Inr (lift_db (set_resource_nextState r ''UnChanged'') s2))
        else Inr s1) = Inr s'"
      using assms False unfolding change_resource_def s1_def Let_def
      by (simp only: prod.case res res_bind_simps w1 False if_True not_False_eq_True)
    show ?thesis
    proof (cases "nxt = ''Dead'' \<or> nxt = ''Absent''")
      case True
      with s' obtain s2 where "fold_res frag_jobs_of (get_resource_job_to_frag r (the_db s1)) s1 = Inr s2"
        and "s' = lift_db (set_resource_nextState r ''UnChanged'') s2"
        by (auto simp only: if_True res_simps)
      thus ?thesis using loop l1 by (simp add: life_simps)
    next
      case False
      hence "s' = s1" using s' by simp
      thus ?thesis by (simp add: l1)
    qed
  qed
qed

lemma change_resources_refines:
  assumes "change_resources s = Inr s'"
  shows "refines (the_db s) (the_db s')"
proof (cases "get_resources_change_state (the_db s) = []")
  case False
  hence "fold_res change_resource (get_resources_change_state (the_db s)) (s\<lparr>exit_code := 1\<rparr>) = Inr s'"
    using assms by (simp add: change_resources_def Let_def)
  hence "refines (the_db (s\<lparr>exit_code := 1\<rparr>)) (the_db s')"
    by (rule fold_res_refines_ncs) (auto intro: refines_same change_resource_life)
  thus ?thesis by simp
qed (use assms in \<open>simp add: change_resources_def Let_def\<close>)

lemma node_change_refines:
  assumes "node_change_state_run rnd env w = Inr s'"
  shows "refines w (the_db s')"
proof -
  from assms obtain s1 s2 where
    1: "fold_res (handle_event rnd env) (get_to_check_events w)
          \<lparr>exit_code = 0, to_heal = [], the_db = w\<rparr> = Inr s1"
    and 2: "change_resources s1 = Inr s2" and 3: "heal s2 = Inr s'"
    by (auto simp: node_change_state_run_def res_simps)
  have "refines w (the_db s1)" using fold_res_refines_ncs [OF 1] handle_event_refines by simp
  moreover have "refines (the_db s1) (the_db s2)" using 2 by (rule change_resources_refines)
  moreover have "the_db s' = the_db s2"
    using 3 by (auto simp: heal_def split: option.splits if_splits)
  ultimately show ?thesis by (metis refines_trans)
qed

end
