(* ===== verification/Submission_Props.thy ===== *)
theory Submission_Props
  imports Submission
begin

text \<open>
  Properties of the submission of jobs: the resource requests are read back from their text, and
  what a submission adds to the database.
\<close>

section \<open>Texts of requests\<close>

definition show_value :: "request_value \<Rightarrow> string" where
  "show_value v = (case v of
     Special n \<Rightarrow> if n = - 1 then ''ALL'' else if n = - 2 then ''BESTHALF'' else ''BEST''
   | Literal s \<Rightarrow> s)"

definition show_level :: "string \<times> request_value \<Rightarrow> string" where
  "show_level l = fst l @ CHR ''='' # show_value (snd l)"

definition show_prop :: "prop_res \<Rightarrow> string" where
  "show_prop g = (if fst g = '''' then '''' else CHR ''{'' # fst g @ [CHR ''}'']) @
     CHR ''/'' # py_join [CHR ''/''] (map show_level (snd g))"

definition show_moldable :: "moldable_request \<Rightarrow> string" where
  "show_moldable m = py_join [CHR ''+''] (map show_prop (fst m)) @
     (case snd m of None \<Rightarrow> '''' | Some d \<Rightarrow> CHR '','' # ''walltime='' @ duration_to_sql d)"

text \<open>The requests that a text can stand for.\<close>

definition reserved :: "char set" where
  "reserved = {CHR '','', CHR ''+'', newline}"

definition level_ok :: "string \<times> request_value \<Rightarrow> bool" where
  "level_ok l \<longleftrightarrow> fst l \<noteq> '''' \<and> \<not> is_space (hd (fst l)) \<and> fst l \<noteq> ''nodes'' \<and>
     set (show_level l) \<inter> reserved = {} \<and> CHR ''/'' \<notin> set (show_level l) \<and>
     CHR ''='' \<notin> set (fst l) \<and> CHR ''='' \<notin> set (show_value (snd l)) \<and>
     (case snd l of Special n \<Rightarrow> n \<in> {- 1, - 2, - 3} | Literal s \<Rightarrow> s \<notin> {''ALL'', ''BESTHALF'', ''BEST''})"

definition prop_ok :: "prop_res \<Rightarrow> bool" where
  "prop_ok g \<longleftrightarrow> set (fst g) \<inter> reserved = {} \<and> CHR ''}'' \<notin> set (fst g) \<and> (\<forall>l \<in> set (snd g). level_ok l)"

definition moldable_ok :: "moldable_request \<Rightarrow> bool" where
  "moldable_ok m \<longleftrightarrow> fst m \<noteq> [] \<and> (\<forall>g \<in> set (fst m). prop_ok g) \<and>
     (case snd m of None \<Rightarrow> True | Some d \<Rightarrow> 0 \<le> d)"

lemma split_on_join:
  "ss \<noteq> [] \<Longrightarrow> \<forall>s \<in> set ss. c \<notin> set s \<Longrightarrow> split_on c (py_join [c] ss) = ss"
proof (induction ss)
  case (Cons s ss)
  thus ?case by (cases ss) (simp_all add: split_on_append split_on_none)
qed simp

lemma set_py_join: "set (py_join sep ss) \<subseteq> set sep \<union> (\<Union>s \<in> set ss. set s)"
  by (induction sep ss rule: py_join.induct) auto

lemma map_res_inverse: "(\<And>x. x \<in> set xs \<Longrightarrow> f (g x) = Inr x) \<Longrightarrow> map_res f (map g xs) = Inr xs"
  by (induction xs) auto

lemma parse_show_level:
  assumes "level_ok l"
  shows "parse_value nodes (show_level l) = Inr l" and "py_lstrip (show_level l) = show_level l"
proof -
  obtain c cs where l: "fst l = c # cs" "\<not> is_space c"
    using assms by (cases "fst l") (auto simp: level_ok_def)
  show strip: "py_lstrip (show_level l) = show_level l"
    using l by (simp add: py_lstrip_def show_level_def)
  have "split_on (CHR ''='') (show_level l) = [fst l, show_value (snd l)]"
    using assms by (simp add: show_level_def level_ok_def split_on_append split_on_none)
  hence "parse_value nodes (show_level l) = Inr (fst l,
      if show_value (snd l) = ''ALL'' then Special (- 1)
      else if show_value (snd l) = ''BESTHALF'' then Special (- 2)
      else if show_value (snd l) = ''BEST'' then Special (- 3) else Literal (show_value (snd l)))"
    using assms by (simp add: parse_value_def strip level_ok_def)
  thus "parse_value nodes (show_level l) = Inr l"
    using assms by (cases l; cases "snd l") (auto simp: level_ok_def show_value_def)
qed

lemma takeWhile_stop:
  "\<forall>x \<in> set xs. Q x \<Longrightarrow> \<not> Q y \<Longrightarrow> takeWhile Q (xs @ y # ys) = xs \<and> dropWhile Q (xs @ y # ys) = y # ys"
  by (induction xs) auto

lemma split_braces:
  assumes "CHR ''}'' \<notin> set p" "newline \<notin> set p" "newline \<notin> set r" "p \<noteq> ''''"
  shows "match_braces (CHR ''{'' # p @ CHR ''}'' # r) = Some (p, r)"
proof -
  obtain c cs where p: "p = c # cs" using assms(4) by (cases p) auto
  have "\<forall>x \<in> set cs. x \<noteq> CHR ''}''" using assms(1) p by auto
  hence w: "takeWhile (\<lambda>x. x \<noteq> CHR ''}'') (cs @ CHR ''}'' # r) = cs"
    "dropWhile (\<lambda>x. x \<noteq> CHR ''}'') (cs @ CHR ''}'' # r) = CHR ''}'' # r"
    using takeWhile_stop [of cs "\<lambda>x. x \<noteq> CHR ''}''" "CHR ''}''" r] by auto
  have "r = [] \<or> last r \<noteq> newline" using assms(3) last_in_set by metis
  thus ?thesis using assms p by (auto simp: match_braces_def w)
qed

lemma levels_chars:
  assumes "\<forall>l \<in> set ls. level_ok l"
  shows "set (py_join [CHR ''/''] (map show_level ls)) \<inter> reserved = {}"
  using set_py_join [of "[CHR ''/'']" "map show_level ls"] assms
  by (fastforce simp: level_ok_def reserved_def newline_def)

lemma parse_show_prop:
  assumes "prop_ok g"
  shows "parse_prop_res nodes (show_prop g) = Inr g" and "set (show_prop g) \<inter> reserved = {}"
proof -
  obtain p ls where g: "g = (p, ls)" by (cases g)
  define t where "t = CHR ''/'' # py_join [CHR ''/''] (map show_level ls)"
  have ls: "\<forall>l \<in> set ls. level_ok l" and p: "set p \<inter> reserved = {}" "CHR ''}'' \<notin> set p"
    using assms by (auto simp: g prop_ok_def)
  have t: "set t \<inter> reserved = {}" using levels_chars [OF ls] by (auto simp: t_def reserved_def newline_def)
  thus "set (show_prop g) \<inter> reserved = {}"
    using p by (auto simp: show_prop_def g t_def [symmetric] reserved_def newline_def)
  have "filter (\<lambda>v. py_lstrip v \<noteq> '''') (split_on (CHR ''/'') t) = map show_level ls"
  proof (cases "ls = []")
    case True
    thus ?thesis by (simp add: t_def py_lstrip_def)
  next
    case False
    hence "split_on (CHR ''/'') (py_join [CHR ''/''] (map show_level ls)) = map show_level ls"
      using ls by (intro split_on_join) (auto simp: level_ok_def)
    moreover have "py_lstrip v \<noteq> ''''" if "v \<in> set (map show_level ls)" for v
    proof -
      from that obtain l where l: "l \<in> set ls" "v = show_level l" unfolding set_map by blast
      with ls have "py_lstrip v = v" using parse_show_level(2) by simp
      thus ?thesis by (simp add: l(2) show_level_def)
    qed
    ultimately show ?thesis by (simp add: t_def py_lstrip_def filter_id_conv)
  qed
  moreover have "map_res (parse_value nodes) (map show_level ls) = Inr ls"
    using ls by (intro map_res_inverse) (simp add: parse_show_level(1))
  moreover have "(case match_braces (show_prop g) of Some m \<Rightarrow> m | None \<Rightarrow> ('''', show_prop g)) = (p, t)"
  proof (cases "p = ''''")
    case True
    thus ?thesis by (simp add: show_prop_def g t_def match_braces_def)
  next
    case False
    have "match_braces (CHR ''{'' # p @ CHR ''}'' # t) = Some (p, t)"
      using p t False by (intro split_braces) (auto simp: reserved_def)
    thus ?thesis using False by (simp add: show_prop_def g t_def)
  qed
  ultimately show "parse_prop_res nodes (show_prop g) = Inr g"
    unfolding parse_prop_res_def by (simp only: Let_def prod.case res_bind_simps) (simp add: g)
qed

lemma hms_of_duration:
  assumes "0 \<le> d"
  shows "hms_str_to_duration (duration_to_sql d) = Inr d"
proof -
  define h m s where "h = d div 3600" and "m = (d - h * 3600) div 60" and "s = d mod 60"
  have pos: "0 \<le> h" "0 \<le> m" "0 \<le> s"
    using assms by (simp_all add: h_def m_def s_def minus_div_mult_eq_mod)
  have "split_on (CHR '':'') (duration_to_sql d) = [int_str h, int_str m, int_str s]"
    using pos by (simp add: duration_to_sql_def duration_to_hms_def Let_def hms_to_sql_def
        h_def m_def s_def split_on_append split_on_none colon_int_str)
  moreover have "3600 * h + 60 * m + s = d"
  proof -
    have "(d - h * 3600) mod 60 = s" unfolding s_def by (simp add: mod_diff_right_eq [symmetric])
    moreover have "(d - h * 3600) div 60 * 60 + (d - h * 3600) mod 60 = d - h * 3600" by simp
    ultimately show ?thesis by (simp add: m_def)
  qed
  ultimately show ?thesis
    using pos by (simp add: hms_str_to_duration_def py_int_int_str)
qed

lemma duration_chars: "0 \<le> d \<Longrightarrow> \<forall>c \<in> set (duration_to_sql d). is_digit c \<or> c = CHR '':''"
proof -
  assume "0 \<le> d"
  hence "0 \<le> d div 3600" "0 \<le> (d - d div 3600 * 3600) div 60" "0 \<le> d mod 60"
    by (simp_all add: pos_imp_zdiv_nonneg_iff minus_div_mult_eq_mod)
  thus ?thesis
    using nat_str_digits by (auto simp: duration_to_sql_def duration_to_hms_def Let_def hms_to_sql_def int_str_def)
qed

text \<open>
  C32. A resource request whose names, numbers and properties hold no comma, plus sign or newline (and no
  slash or equal sign outside of the properties) is read back from its text: the alternatives in their order, each
  with its groups, their properties and levels, and the walltime to the second.
\<close>

theorem parse_resource_descriptions_roundtrip:
  assumes "rqts \<noteq> []" and "\<forall>m \<in> set rqts. moldable_ok m"
  shows "parse_resource_descriptions (Some (map show_moldable rqts)) default_resources nodes_resources = Inr rqts"
proof -
  have "parse_moldable default_resources nodes_resources (show_moldable m) = Inr m" if ok: "moldable_ok m" for m
  proof -
    obtain desc wt where m: "m = (desc, wt)" by (cases m)
    define t where "t = py_join [CHR ''+''] (map show_prop desc)"
    have props: "\<forall>g \<in> set desc. prop_ok g" "desc \<noteq> []" using ok by (auto simp: m moldable_ok_def)
    have split: "split_on (CHR ''+'') t = map show_prop desc"
      unfolding t_def using props parse_show_prop(2) by (intro split_on_join) (auto simp: reserved_def)
    have comma: "CHR '','' \<notin> set t"
      using set_py_join [of "[CHR ''+'']" "map show_prop desc"] props parse_show_prop(2)
      by (fastforce simp: t_def reserved_def)
    have first: "\<not> prefix ''walltime='' t"
    proof -
      obtain g gs where "desc = g # gs" using props by (cases desc) auto
      thus ?thesis by (cases gs) (simp_all add: t_def show_prop_def)
    qed
    have desc: "map_res (parse_prop_res nodes_resources) (map show_prop desc) = Inr desc"
      using props parse_show_prop(1) by (intro map_res_inverse) auto
    show ?thesis
    proof (cases wt)
      case None
      thus ?thesis
        by (simp add: parse_moldable_def show_moldable_def m t_def [symmetric] split_on_none comma first
            request_walltime_def split desc)
    next
      case (Some d)
      hence d: "0 \<le> d" using ok by (simp add: m moldable_ok_def)
      have "CHR '','' \<notin> set (duration_to_sql d)" "CHR ''='' \<notin> set (duration_to_sql d)"
        using duration_chars [OF d] by (auto simp: is_digit_def)
      thus ?thesis
        using Some d by (simp add: parse_moldable_def show_moldable_def m t_def [symmetric] split_on_none
            split_on_append comma first request_walltime_def split desc hms_of_duration)
    qed
  qed
  thus ?thesis
    using assms by (simp add: parse_resource_descriptions_def map_res_inverse)
qed


theorem parse_resource_descriptions_roundtrip_witness:
  "parse_resource_descriptions (Some (map show_moldable
       [([(''lic'', [(''licence'', Literal ''2'')]), ('''', [(''switch'', Literal ''2''), (''core'', Special (- 1))])],
         Some 7384),
        ([('''', [(''cpu'', Literal ''1'')])], None)])) ''/resource_id=1'' ''resource_id'' =
     Inr [([(''lic'', [(''licence'', Literal ''2'')]), ('''', [(''switch'', Literal ''2''), (''core'', Special (- 1))])],
           Some 7384),
          ([('''', [(''cpu'', Literal ''1'')])], None)]"
  by (rule parse_resource_descriptions_roundtrip)
    (simp_all add: moldable_ok_def prop_ok_def level_ok_def reserved_def newline_def show_level_def
      show_value_def is_space_def)

text \<open>A comma inside the braces cuts the property off, and the walltime is lost.\<close>

lemma property_with_comma:
  "parse_resource_descriptions (Some [''{cpu in (1,2)}/core=4,walltime=2'']) ''/resource_id=1'' ''resource_id'' =
     Inl ValueError"
  "parse_resource_descriptions (Some [''{cpu in (1,2)},walltime=2'']) ''/resource_id=1'' ''resource_id'' =
     Inl ValueError"
  by code_simp+

text \<open>The directive \<open>--stagein-md5sum\<close> of a script is read as the directive \<open>-s\<close>.\<close>

lemma stagein_md5sum_never_read:
  "find_directive script_directives ''--stagein-md5sum abc'' =
     Some (Text_directive, ''stagein'', ''--stagein'', ''-md5sum abc'')"
  by code_simp

section \<open>What a submission stores\<close>

definition int_of_value :: "request_value \<Rightarrow> int" where
  "int_of_value v = (case value_int v of Inr n \<Rightarrow> n | Inl e \<Rightarrow> 0)"

text \<open>The request as the tables hold it: alternatives with their groups, properties and levels.\<close>

definition requested_groups :: "prop_res list \<Rightarrow> (string option \<times> (string \<times> int) list) list" where
  "requested_groups desc = map (\<lambda>(property, resources).
     (Some property, map (\<lambda>(r, v). (r, int_of_value v)) resources)) desc"

definition stored_levels :: "int \<Rightarrow> descr_row list \<Rightarrow> (string \<times> int) list" where
  "stored_levels gid descrs = map (\<lambda>d. (de_type d, de_value d)) (filter (\<lambda>d. de_group d = gid) descrs)"

definition stored_groups :: "int \<Rightarrow> db \<Rightarrow> (string option \<times> (string \<times> int) list) list" where
  "stored_groups mld w = map (\<lambda>g. (gr_property g, stored_levels (gr_id g) (t_descrs w)))
     (filter (\<lambda>g. gr_mld g = mld) (t_groups w))"

definition stored_request :: "int \<Rightarrow> db \<Rightarrow> ((string option \<times> (string \<times> int) list) list \<times> int) list" where
  "stored_request jid w = map (\<lambda>m. (stored_groups (m_id m) w, m_walltime m))
     (filter (\<lambda>m. m_job m = jid) (t_moldables w))"

text \<open>No row of the request tables refers to a key that has not been given yet.\<close>

definition no_orphans :: "db \<Rightarrow> bool" where
  "no_orphans w \<longleftrightarrow>
     (\<forall>m \<in> set (t_moldables w). m_job m < fresh_id (map j_id (t_jobs w))) \<and>
     (\<forall>g \<in> set (t_groups w). 0 < gr_id g \<and> gr_mld g < fresh_id (map m_id (t_moldables w))) \<and>
     (\<forall>d \<in> set (t_descrs w). de_group d < fresh_id (map gr_id (t_groups w)))"

lemma level_descrs_rows:
  assumes "level_descrs gid resources = Inr rows"
  shows "map (\<lambda>d. (de_type d, de_value d)) rows = map (\<lambda>(r, v). (r, int_of_value v)) resources"
    and "\<forall>d \<in> set rows. de_group d = gid"
proof -
  have "map (\<lambda>d. (de_type d, de_value d)) rows = map (\<lambda>(r, v). (r, int_of_value v)) resources \<and>
      (\<forall>d \<in> set rows. de_group d = gid)"
    if "map_res (\<lambda>(idx, (r, value)). res_bind (value_int value) (\<lambda>n.
          Inr \<lparr>de_group = gid, de_type = r, de_value = n, de_order = int idx, de_index = ''CURRENT''\<rparr>))
          (enumerate k resources) = Inr rows" for k
    using that
    by (induction resources arbitrary: k rows) (auto simp: res_simps int_of_value_def)
  thus "map (\<lambda>d. (de_type d, de_value d)) rows = map (\<lambda>(r, v). (r, int_of_value v)) resources"
    "\<forall>d \<in> set rows. de_group d = gid"
    using assms by (simp_all add: level_descrs_def)
qed

text \<open>The loop over the groups of an alternative appends the levels of each group.\<close>

definition submit_group :: "int list \<Rightarrow> nat \<times> prop_res \<Rightarrow> db \<Rightarrow> db res" where
  "submit_group grp_ids = (\<lambda>(grp_idx, (property, resources)) w.
     res_bind (nth_res grp_ids grp_idx) (\<lambda>gid.
     res_bind (level_descrs gid resources) (\<lambda>rows. Inr (insert_descrs rows w))))"

lemma stored_levels_simps:
  "stored_levels g (xs @ ys) = stored_levels g xs @ stored_levels g ys"
  "\<forall>d \<in> set xs. de_group d \<noteq> g \<Longrightarrow> stored_levels g xs = []"
  by (simp_all add: stored_levels_def filter_empty_conv)

lemma submit_groups_loop:
  assumes "fold_res (submit_group (map (\<lambda>i. gid + int i) [0..<N])) (enumerate n desc) w = Inr w'"
    and "n + length desc \<le> N" and "0 < gid"
  shows "\<exists>R. w' = w\<lparr>t_descrs := t_descrs w @ R\<rparr> \<and>
     (\<forall>d \<in> set R. de_group d = 0 \<or> gid + int n \<le> de_group d \<and> de_group d < gid + int (n + length desc)) \<and>
     map (\<lambda>j. stored_levels (gid + int (n + j)) R) [0..<length desc] =
       map (\<lambda>g. map (\<lambda>(r, v). (r, int_of_value v)) (snd g)) desc"
  using assms
proof (induction desc arbitrary: n w)
  case Nil
  thus ?case by (intro exI [of _ "[]"]) simp
next
  case (Cons g desc)
  obtain p rs where g: "g = (p, rs)" by (cases g)
  from Cons.prems g obtain rows where rows: "level_descrs (gid + int n) rs = Inr rows"
    and rest: "fold_res (submit_group (map (\<lambda>i. gid + int i) [0..<N])) (enumerate (Suc n) desc)
        (insert_descrs rows w) = Inr w'"
    by (auto simp: res_simps submit_group_def)
  define R0 where "R0 = insert_rows \<lparr>de_group = 0, de_type = '''', de_value = 0, de_order = 0,
      de_index = ''CURRENT''\<rparr> rows"
  from Cons.IH [OF rest] Cons.prems(2,3) obtain R where
    R: "w' = (insert_descrs rows w)\<lparr>t_descrs := t_descrs (insert_descrs rows w) @ R\<rparr>"
       "\<forall>d \<in> set R. de_group d = 0 \<or> gid + int (Suc n) \<le> de_group d \<and>
          de_group d < gid + int (Suc n + length desc)"
       "map (\<lambda>j. stored_levels (gid + int (Suc n + j)) R) [0..<length desc] =
          map (\<lambda>g. map (\<lambda>(r, v). (r, int_of_value v)) (snd g)) desc" by auto
  have R0: "\<forall>d \<in> set R0. de_group d = 0 \<or> de_group d = gid + int n"
    using level_descrs_rows(2) [OF rows] by (auto simp: R0_def insert_rows_def)
  have own: "stored_levels (gid + int n) R0 = map (\<lambda>(r, v). (r, int_of_value v)) rs"
  proof (cases "rows = []")
    case True
    thus ?thesis
      using level_descrs_rows(1) [OF rows] Cons.prems(3) by (simp add: R0_def insert_rows_def stored_levels_def)
  next
    case False
    thus ?thesis
      using level_descrs_rows [OF rows] by (simp add: R0_def insert_rows_def stored_levels_def)
  qed
  have none: "stored_levels (gid + int n) R = []"
    using R(2) Cons.prems(3) by (intro stored_levels_simps(2)) fastforce
  have later: "stored_levels (gid + int (Suc n + j)) R0 = []" for j
    using R0 Cons.prems(3) by (intro stored_levels_simps(2)) fastforce
  have "map (\<lambda>j. stored_levels (gid + int (n + j)) (R0 @ R)) [0..<length (g # desc)] =
      map (\<lambda>g. map (\<lambda>(r, v). (r, int_of_value v)) (snd g)) (g # desc)"
    using R(3) later
    by (simp add: upt_conv_Cons map_Suc_upt [symmetric] stored_levels_simps(1) own none g o_def add.left_commute
        del: upt_Suc map_Suc_upt)
  moreover have "w' = w\<lparr>t_descrs := t_descrs w @ R0 @ R\<rparr>"
    using R(1) by (simp add: insert_descrs_def R0_def)
  moreover have "\<forall>d \<in> set (R0 @ R). de_group d = 0 \<or> gid + int n \<le> de_group d \<and>
      de_group d < gid + int (n + length (g # desc))"
    using R0 R(2) by fastforce
  ultimately show ?case by blast
qed


lemma submit_alternative_loop:
  "submit_alternative mld_ids (k, desc) w =
     res_bind (nth_res mld_ids k) (\<lambda>mld.
     let w1 = insert_group_rows (map (\<lambda>(property, r). (mld, property)) desc) w in
     fold_res (submit_group (inserted_ids (length desc) (fresh_id (map gr_id (t_groups w)))
           (map gr_id (filter (\<lambda>g. gr_mld g = mld) (t_groups w1))))) (enumerate 0 desc) w1)"
  by (simp add: submit_alternative_def submit_group_def Let_def case_prod_beta)

definition new_groups :: "int \<Rightarrow> int \<Rightarrow> prop_res list \<Rightarrow> group_row list" where
  "new_groups gid mld desc = map (\<lambda>(k, (property, r)).
     \<lparr>gr_id = gid + int k, gr_mld = mld, gr_property = Some property, gr_index = ''CURRENT''\<rparr>)
     (enumerate 0 desc)"

lemma insert_group_rows_new:
  "desc \<noteq> [] \<Longrightarrow> insert_group_rows (map (\<lambda>(property, r). (mld, property)) desc) w =
     w\<lparr>t_groups := t_groups w @ new_groups (fresh_id (map gr_id (t_groups w))) mld desc\<rparr>"
  by (simp add: insert_group_rows_def new_groups_def insert_rows_def Let_def enumerate_map_upt
      nth_enumerate_eq enumerate_eq_zip zip_map2 case_prod_beta o_def)

lemma new_groups_map:
  "new_groups gid mld desc = map (\<lambda>j. \<lparr>gr_id = gid + int j, gr_mld = mld,
     gr_property = Some (fst (desc ! j)), gr_index = ''CURRENT''\<rparr>) [0..<length desc]"
  by (rule nth_equalityI) (auto simp: new_groups_def nth_enumerate_eq split: prod.splits)

text \<open>What one alternative adds: its groups and levels, and nothing for another alternative.\<close>

definition groups_ok :: "db \<Rightarrow> bool" where
  "groups_ok w \<longleftrightarrow> (\<forall>g \<in> set (t_groups w). 0 < gr_id g) \<and>
     (\<forall>d \<in> set (t_descrs w). de_group d < fresh_id (map gr_id (t_groups w)))"

lemma submit_alternative_stores:
  assumes run: "submit_alternative mld_ids (k, desc) w = Inr w'" and desc: "desc \<noteq> []"
    and ok: "groups_ok w" and k: "k < length mld_ids" and mld: "mld = mld_ids ! k"
    and new: "\<forall>g \<in> set (t_groups w). gr_mld g \<noteq> mld"
  shows "\<exists>G D. w' = w\<lparr>t_groups := t_groups w @ G, t_descrs := t_descrs w @ D\<rparr> \<and>
     (\<forall>g \<in> set G. gr_mld g = mld)" and "groups_ok w'"
    and "stored_groups mld w' = requested_groups desc"
    and "m \<noteq> mld \<Longrightarrow> stored_groups m w' = stored_groups m w"
proof -
  define gid where "gid = fresh_id (map gr_id (t_groups w))"
  define G where "G = new_groups gid mld desc"
  define w1 where "w1 = w\<lparr>t_groups := t_groups w @ G\<rparr>"
  have gid: "0 < gid" by (simp add: gid_def fresh_id_pos)
  have ids: "map gr_id G = map (\<lambda>i. gid + int i) [0..<length desc]" "\<forall>g \<in> set G. gr_mld g = mld"
    by (auto simp: G_def new_groups_map)
  have "inserted_ids (length desc) gid (map gr_id (filter (\<lambda>g. gr_mld g = mld) (t_groups w)) @
      map gr_id (filter (\<lambda>g. gr_mld g = mld) G)) = map (\<lambda>i. gid + int i) [0..<length desc]"
    using new ids by (simp add: inserted_ids_def filter_empty_conv)
  hence "fold_res (submit_group (map (\<lambda>i. gid + int i) [0..<length desc])) (enumerate 0 desc) w1 = Inr w'"
    using run k desc by (simp add: submit_alternative_loop Let_def insert_group_rows_new
        mld [symmetric] gid_def [symmetric] G_def [symmetric] w1_def [symmetric])
  from submit_groups_loop [OF this _ gid] obtain D where
    D: "w' = w1\<lparr>t_descrs := t_descrs w1 @ D\<rparr>"
      "\<forall>d \<in> set D. de_group d = 0 \<or> gid \<le> de_group d \<and> de_group d < gid + int (length desc)"
      "map (\<lambda>j. stored_levels (gid + int j) D) [0..<length desc] =
         map (\<lambda>g. map (\<lambda>(r, v). (r, int_of_value v)) (snd g)) desc" by auto
  show "\<exists>G D. w' = w\<lparr>t_groups := t_groups w @ G, t_descrs := t_descrs w @ D\<rparr> \<and>
     (\<forall>g \<in> set G. gr_mld g = mld)"
    using D(1) ids(2) by (intro exI [of _ G] exI [of _ D]) (simp add: w1_def)
  have old: "\<forall>d \<in> set (t_descrs w). de_group d < gid" "\<forall>g \<in> set (t_groups w). 0 < gr_id g \<and> gr_id g < gid"
    using ok fresh_id_gt by (auto simp: groups_ok_def gid_def)
  have "gid + int i < fresh_id (map gr_id (t_groups w'))" if "i < length desc" for i
    using that ids(1) by (intro fresh_id_gt) (auto simp: D(1) w1_def)
  from this [of "length desc - 1"] have top: "gid + int (length desc) \<le> fresh_id (map gr_id (t_groups w'))"
    using desc by (cases desc) auto
  moreover have "0 < fresh_id (map gr_id (t_groups w'))" by (rule fresh_id_pos)
  ultimately show "groups_ok w'"
    using old D(2) gid ids(1) by (fastforce simp: groups_ok_def D(1) w1_def G_def new_groups_map)
  have stored: "stored_levels g (t_descrs w @ D) = (if gid \<le> g then stored_levels g D else stored_levels g (t_descrs w))"
    if "0 < g" for g
    using old(1) D(2) that
    by (auto simp: stored_levels_simps(1) intro!: stored_levels_simps(2))
  have lev: "stored_levels (gid + int j) D = map (\<lambda>(r, v). (r, int_of_value v)) (snd (desc ! j))"
    if "j < length desc" for j
    using arg_cong [OF D(3), of "\<lambda>l. l ! j"] that by simp
  have "stored_groups mld w' = map (\<lambda>g. (gr_property g, stored_levels (gr_id g) (t_descrs w @ D))) G"
    using new ids(2) by (simp add: stored_groups_def D(1) w1_def filter_empty_conv)
  also have "\<dots> = map (\<lambda>j. (Some (fst (desc ! j)), stored_levels (gid + int j) D)) [0..<length desc]"
    using gid by (simp add: G_def new_groups_map stored o_def)
  also have "\<dots> = requested_groups desc"
    using lev by (intro nth_equalityI) (auto simp: requested_groups_def split: prod.splits)
  finally show "stored_groups mld w' = requested_groups desc" .
  show "stored_groups m w' = stored_groups m w" if "m \<noteq> mld"
  proof -
    have "filter (\<lambda>g. gr_mld g = m) G = []" using ids(2) that by (auto simp: filter_empty_conv)
    thus ?thesis using old(2) by (simp add: stored_groups_def D(1) w1_def) (force simp: stored)
  qed
qed


lemma submit_alternatives_loop:
  assumes "fold_res (submit_alternative (map (\<lambda>i. mid + int i) [0..<N])) (enumerate n descs) w = Inr w'"
    and "n + length descs \<le> N" and "\<forall>d \<in> set descs. d \<noteq> []" and "groups_ok w"
    and "\<forall>g \<in> set (t_groups w). gr_mld g < mid + int n"
  shows "(\<exists>G D. w' = w\<lparr>t_groups := t_groups w @ G, t_descrs := t_descrs w @ D\<rparr>) \<and>
     (\<forall>m < mid + int n. stored_groups m w' = stored_groups m w) \<and>
     map (\<lambda>j. stored_groups (mid + int (n + j)) w') [0..<length descs] = map requested_groups descs"
  using assms
proof (induction descs arbitrary: n w)
  case Nil
  thus ?case by (intro conjI exI [of _ "[]"]) auto
next
  case (Cons desc descs)
  from Cons.prems(1) obtain w1 where
    w1: "submit_alternative (map (\<lambda>i. mid + int i) [0..<N]) (n, desc) w = Inr w1" and
    rest: "fold_res (submit_alternative (map (\<lambda>i. mid + int i) [0..<N])) (enumerate (Suc n) descs) w1 = Inr w'"
    by (auto simp: res_simps)
  have n: "n < length (map (\<lambda>i. mid + int i) [0..<N])" "mid + int n = map (\<lambda>i. mid + int i) [0..<N] ! n"
    using Cons.prems(2) by auto
  have new: "\<forall>g \<in> set (t_groups w). gr_mld g \<noteq> mid + int n" using Cons.prems(5) by auto
  have desc: "desc \<noteq> []" using Cons.prems(3) by simp
  note stores = submit_alternative_stores [OF w1 desc Cons.prems(4) n new]
  obtain G D where G: "w1 = w\<lparr>t_groups := t_groups w @ G, t_descrs := t_descrs w @ D\<rparr>"
    "\<forall>g \<in> set G. gr_mld g = mid + int n" using stores(1) by blast
  have "\<forall>g \<in> set (t_groups w1). gr_mld g < mid + int (Suc n)"
    using Cons.prems(5) G by fastforce
  from Cons.IH [OF rest _ _ stores(2) this] Cons.prems(2,3) obtain G' D' where
    IH: "w' = w1\<lparr>t_groups := t_groups w1 @ G', t_descrs := t_descrs w1 @ D'\<rparr>"
      "\<forall>m < mid + int (Suc n). stored_groups m w' = stored_groups m w1"
      "map (\<lambda>j. stored_groups (mid + int (Suc n + j)) w') [0..<length descs] = map requested_groups descs"
    by auto
  have "stored_groups (mid + int n) w' = requested_groups desc"
    using IH(2) stores(3) by simp
  moreover have "\<forall>m < mid + int n. stored_groups m w' = stored_groups m w"
    using IH(2) stores(4) by simp
  moreover have "w' = w\<lparr>t_groups := t_groups w @ G @ G', t_descrs := t_descrs w @ D @ D'\<rparr>"
    using IH(1) G(1) by simp
  ultimately show ?case
    using IH(3) by (auto simp: upt_conv_Cons map_Suc_upt [symmetric] o_def add.left_commute
        simp del: upt_Suc map_Suc_upt)
qed

definition asked_walltime :: "db \<Rightarrow> int option \<Rightarrow> int" where
  "asked_walltime w wt = (case default_walltime wt w of Inr t \<Rightarrow> t | Inl e \<Rightarrow> 0)"

lemma submit_request_stores:
  assumes run: "submit_request jid rqts w = Inr w'" and rqts: "rqts \<noteq> []" "\<forall>m \<in> set rqts. fst m \<noteq> []"
    and ok: "groups_ok w" "\<forall>m \<in> set (t_moldables w). m_job m \<noteq> jid"
      "\<forall>g \<in> set (t_groups w). gr_mld g < fresh_id (map m_id (t_moldables w))"
  shows "\<exists>M G D. w' = w\<lparr>t_moldables := t_moldables w @ M, t_groups := t_groups w @ G,
      t_descrs := t_descrs w @ D\<rparr>"
    and "stored_request jid w' = map (\<lambda>(desc, wt). (requested_groups desc, asked_walltime w wt)) rqts"
proof -
  define mid where "mid = fresh_id (map m_id (t_moldables w))"
  from run obtain wts where
    wts: "map_res (\<lambda>(desc, wt). default_walltime wt w) rqts = Inr wts"
    by (auto simp: submit_request_def res_simps)
  have walltimes: "wts = map (\<lambda>(desc, wt). asked_walltime w wt) rqts"
    using wts by (induction rqts arbitrary: wts) (auto simp: res_simps asked_walltime_def)
  define M where "M = map (\<lambda>j. \<lparr>m_id = mid + int j, m_job = jid, m_walltime = wts ! j, m_index = ''CURRENT''\<rparr>)
    [0..<length rqts]"
  define w1 where "w1 = w\<lparr>t_moldables := t_moldables w @ M\<rparr>"
  have M: "map (\<lambda>(k, (jid, wt)). \<lparr>m_id = mid + int k, m_job = jid, m_walltime = wt, m_index = ''CURRENT''\<rparr>)
      (enumerate 0 (map (\<lambda>wt. (jid, wt)) wts)) = M"
    using walltimes by (intro nth_equalityI) (auto simp: M_def nth_enumerate_eq)
  have "M \<noteq> []" using rqts(1) by (simp add: M_def)
  hence w1: "insert_moldables (map (\<lambda>wt. (jid, wt)) wts) w = w1"
    unfolding insert_moldables_def Let_def mid_def [symmetric] M by (simp add: insert_rows_def w1_def)
  have ids: "inserted_ids (length rqts) mid (map m_id (filter (\<lambda>m. m_job m = jid) (t_moldables w1))) =
      map (\<lambda>i. mid + int i) [0..<length rqts]"
    using ok(2) by (simp add: inserted_ids_def w1_def filter_empty_conv M_def o_def)
  have loop: "fold_res (submit_alternative (map (\<lambda>i. mid + int i) [0..<length rqts]))
      (enumerate 0 (map fst rqts)) w1 = Inr w'"
    using run wts ids by (simp add: submit_request_def Let_def w1 mid_def [symmetric])
  have "groups_ok w1" "\<forall>g \<in> set (t_groups w1). gr_mld g < mid + int 0" "\<forall>d \<in> set (map fst rqts). d \<noteq> []"
    using ok rqts(2) by (auto simp: groups_ok_def w1_def mid_def)
  from submit_alternatives_loop [OF loop _ this(3,1,2)] obtain G D where
    G: "w' = w1\<lparr>t_groups := t_groups w1 @ G, t_descrs := t_descrs w1 @ D\<rparr>"
      "map (\<lambda>j. stored_groups (mid + int j) w') [0..<length rqts] = map requested_groups (map fst rqts)" by auto
  thus "\<exists>M G D. w' = w\<lparr>t_moldables := t_moldables w @ M, t_groups := t_groups w @ G,
      t_descrs := t_descrs w @ D\<rparr>" by (simp add: w1_def) blast
  have stored: "stored_groups (mid + int j) w' = requested_groups (fst (rqts ! j))" if "j < length rqts" for j
    using arg_cong [OF G(2), of "\<lambda>l. l ! j"] that by simp
  have "stored_request jid w' = map (\<lambda>m. (stored_groups (m_id m) w', m_walltime m)) M"
    using ok(2) by (simp add: stored_request_def G(1) w1_def filter_empty_conv M_def filter_map o_def)
  also have "\<dots> = map (\<lambda>(desc, wt). (requested_groups desc, asked_walltime w wt)) rqts"
    using stored walltimes by (intro nth_equalityI) (auto simp: M_def split: prod.splits)
  finally show "stored_request jid w' = map (\<lambda>(desc, wt). (requested_groups desc, asked_walltime w wt)) rqts" .
qed


lemma submit_request_frame:
  assumes "submit_request jid rqts w = Inr w'"
  shows "\<exists>M G D. w' = w\<lparr>t_moldables := M, t_groups := G, t_descrs := D\<rparr>"
proof -
  define Q where "Q v \<longleftrightarrow> v\<lparr>t_moldables := t_moldables w, t_groups := t_groups w, t_descrs := t_descrs w\<rparr> = w" for v
  have descrs: "Q (insert_descrs rows v)" "Q (insert_group_rows rows' v)" "Q (insert_moldables rows'' v)"
    if "Q v" for v rows rows' rows''
    using that by (auto simp: Q_def insert_descrs_def insert_group_rows_def insert_moldables_def Let_def)
  have "Q w" by (simp add: Q_def)
  have group: "Q v'" if "submit_group ids x v = Inr v'" "Q v" for ids x v v'
    using that descrs(1) by (auto simp: submit_group_def res_simps split: prod.splits)
  have alt: "Q v'" if run: "submit_alternative ids x v = Inr v'" and v: "Q v" for ids x v v'
  proof -
    obtain k desc where x: "x = (k, desc)" by (cases x)
    from run obtain ids' mld where
      "fold_res (submit_group ids') (enumerate 0 desc)
         (insert_group_rows (map (\<lambda>(property, r). (mld, property)) desc) v) = Inr v'"
      by (auto simp: x submit_alternative_loop res_simps Let_def)
    thus ?thesis by (rule fold_res_invariant [where I = Q]) (auto intro: descrs v group)
  qed
  from assms obtain wts ids where
    "fold_res (submit_alternative ids) (enumerate 0 (map fst rqts)) (insert_moldables wts w) = Inr w'"
    by (auto simp: submit_request_def res_simps Let_def)
  hence "Q w'" by (rule fold_res_invariant [where I = Q]) (auto intro: descrs \<open>Q w\<close> alt)
  hence "w = w'\<lparr>t_moldables := t_moldables w, t_groups := t_groups w, t_descrs := t_descrs w\<rparr>"
    by (simp add: Q_def)
  hence "w\<lparr>t_moldables := t_moldables w', t_groups := t_groups w', t_descrs := t_descrs w'\<rparr> =
      w'\<lparr>t_moldables := t_moldables w, t_groups := t_groups w, t_descrs := t_descrs w\<rparr>
        \<lparr>t_moldables := t_moldables w', t_groups := t_groups w', t_descrs := t_descrs w'\<rparr>" by (rule arg_cong)
  thus ?thesis by (intro exI [of _ "t_moldables w'"] exI [of _ "t_groups w'"] exI [of _ "t_descrs w'"]) simp
qed

lemma fold_types:
  "\<exists>T. fold (add_current_job_types jid) typs w = w\<lparr>t_types := T\<rparr> \<and>
     map ty_type (filter (\<lambda>t. ty_job t = jid) T) = map ty_type (filter (\<lambda>t. ty_job t = jid) (t_types w)) @ typs"
proof (induction typs arbitrary: w)
  case Nil
  show ?case by (intro exI [of _ "t_types w"]) simp
next
  case (Cons t typs)
  from Cons.IH [of "add_current_job_types jid t w"] show ?case
    by (auto simp: add_current_job_types_def)
qed

lemma estimate_cases:
  assumes "estimate_job_nb_resources P sql order rqts props w = Inr (code, estimates)"
  shows "(\<exists>ns. code = 0 \<and> estimates = Some ns) \<or> code = - 5 \<and> estimates = None"
proof -
  from assms have "\<exists>r :: (nat \<times> int) list option. (case r of None \<Rightarrow> Inr (- 5, None)
      | Some ns \<Rightarrow> if \<exists>n \<in> set ns. 0 < fst n then Inr (0, Some ns) else Inr (- 5, None)) = (Inr (code, estimates) :: (int \<times> (nat \<times> int) list option) res)"
    unfolding estimate_job_nb_resources_def res_bind_eq_Inr by blast
  thus ?thesis by (elim exE) (auto split: option.splits if_splits)
qed

text \<open>The steps of a submission that succeeds.\<close>

lemma subjob_steps:
  assumes "add_micheline_subjob P S p private public aid arr_index command w = Inr ((0, jid), w')"
  obtains row w2 w3 T where
    "jid = fresh_id (map j_id (t_jobs w))" "jp_resource_request p \<noteq> []"
    "j_id row = jid" "j_state row = ''Hold''" "Some (j_user row) = jp_user p" "j_command row = command"
    "j_queue_name row = jp_queue p" "j_array_id row = (if aid > 0 then aid else jid)"
    "j_array_index row = arr_index" "j_submission_time row = db_now w"
    "w2 = insert_challenge jid (ss_random S jid) private public (w\<lparr>t_jobs := t_jobs w @ [row]\<rparr>)"
    "submit_request jid (jp_resource_request p) w2 = Inr w3"
    "map ty_type (filter (\<lambda>t. ty_job t = jid) T) =
       map ty_type (filter (\<lambda>t. ty_job t = jid) (t_types w3)) @ jp_types p"
    "w' = (let w6 = insert_state_log (if jp_hold p then ''Hold'' else ''Waiting'') (db_now w) jid
                (insert_dependencies jid (jp_dependencies p) (w3\<lparr>t_types := T\<rparr>)) in
           if jp_hold p then w6 else update_job jid (\<lambda>j. j\<lparr>j_state := ''Waiting''\<rparr>) w6)"
proof -
  obtain code estimates where e:
    "estimate_job_nb_resources P (ss_sql S) (ss_order S) (jp_resource_request p) (jp_properties p) w =
       Inr (code, estimates)"
    using assms by (auto simp: add_micheline_subjob_def res_simps)
  then obtain ns where ns: "estimates = Some ns"
    using assms estimate_cases [OF e] by (auto simp: add_micheline_subjob_def)
  have rqts: "jp_resource_request p \<noteq> []"
    using e ns by (auto simp: estimate_job_nb_resources_def res_simps)
  obtain stdout where so: "output_file (jp_stdout p) (jp_name p) ''.%jobid%.stdout'' = Inr stdout"
    using assms by (auto simp: add_micheline_subjob_def res_simps e ns)
  obtain stderr where se: "output_file (jp_stderr p) (jp_name p) ''.%jobid%.stderr'' = Inr stderr"
    using assms by (auto simp: add_micheline_subjob_def res_simps e ns)
  obtain nbr wt where hd: "hd ns = (nbr, wt)" by (cases "hd ns")
  define message where "message = format_job_message_text (jp_name p) nbr wt (jp_job_type p)
    (jp_reservation_date p) (jp_queue p) (jp_project p) (jp_types p) ''''"
  define i where "i = fresh_id (map j_id (t_jobs w))"
  obtain row0 where row0: "job_columns p command (get_date w) message stdout stderr = Inr row0"
    using assms by (auto simp: add_micheline_subjob_def res_simps e ns so se hd message_def Let_def)
  define row where "row = row0\<lparr>j_reservation := (if (case jp_reservation_date p of None \<Rightarrow> False | Some d \<Rightarrow> d \<noteq> 0)
      then ''toSchedule'' else ''None''), j_array_index := arr_index,
      j_array_id := (if aid > 0 then aid else i), j_id := i\<rparr>"
  define w2 where "w2 = insert_challenge i (ss_random S i) private public (w\<lparr>t_jobs := t_jobs w @ [row]\<rparr>)"
  have "add_micheline_subjob P S p private public aid arr_index command w =
      res_bind (submit_request i (jp_resource_request p) w2) (\<lambda>w3.
        let w6 = insert_state_log (if jp_hold p then ''Hold'' else ''Waiting'') (get_date w) i
              (insert_dependencies i (jp_dependencies p) (fold (add_current_job_types i) (jp_types p) w3)) in
        Inr ((0, i), if jp_hold p then w6 else update_job i (\<lambda>j. j\<lparr>j_state := ''Waiting''\<rparr>) w6))"
    using estimate_cases [OF e]
    by (simp add: add_micheline_subjob_def e ns so se hd Let_def message_def [symmetric] row0 i_def [symmetric]
        insert_job_row_def w2_def row_def)
  with assms obtain w3 where w3: "submit_request i (jp_resource_request p) w2 = Inr w3" and i: "jid = i"
    and w': "w' = (let w6 = insert_state_log (if jp_hold p then ''Hold'' else ''Waiting'') (get_date w) i
              (insert_dependencies i (jp_dependencies p) (fold (add_current_job_types i) (jp_types p) w3)) in
        if jp_hold p then w6 else update_job i (\<lambda>j. j\<lparr>j_state := ''Waiting''\<rparr>) w6)"
    by (auto simp: res_simps Let_def)
  obtain T where T: "fold (add_current_job_types i) (jp_types p) w3 = w3\<lparr>t_types := T\<rparr>"
    "map ty_type (filter (\<lambda>t. ty_job t = i) T) = map ty_type (filter (\<lambda>t. ty_job t = i) (t_types w3)) @ jp_types p"
    using fold_types by blast
  have columns: "j_state row0 = ''Hold'' \<and> Some (j_user row0) = jp_user p \<and> j_command row0 = command \<and>
      j_queue_name row0 = jp_queue p \<and> j_submission_time row0 = db_now w"
    using row0 by (auto simp: job_columns_def res_simps column_def get_date_def split: option.splits)
  show thesis
    by (rule that [of row w2 w3 T]) (use columns T w3 w' i rqts in \<open>auto simp: row_def i_def w2_def get_date_def\<close>)
qed


lemma subjob_rows:
  assumes "add_micheline_subjob P S p private public aid arr_index command w = Inr ((0, jid), w')"
  shows "\<exists>row. t_jobs w' = t_jobs w @ [row] \<and> j_id row = jid \<and>
      j_state row = (if jp_hold p then ''Hold'' else ''Waiting'') \<and> Some (j_user row) = jp_user p \<and>
      j_command row = command \<and> j_queue_name row = jp_queue p \<and> j_submission_time row = db_now w \<and>
      j_array_id row = (if aid > 0 then aid else jid) \<and> j_array_index row = arr_index" (is ?jobs)
    and "t_state_logs w' = t_state_logs w @ [\<lparr>l_id = fresh_id (map l_id (t_state_logs w)), l_job = jid,
      l_state = (if jp_hold p then ''Hold'' else ''Waiting''), l_start = db_now w, l_stop = 0\<rparr>]" (is ?logs)
    and "db_now w' = db_now w" (is ?now)
proof -
  obtain row w2 w3 T where
    jid: "jid = fresh_id (map j_id (t_jobs w))" "jp_resource_request p \<noteq> []" and
    row: "j_id row = jid" "j_state row = ''Hold''" "Some (j_user row) = jp_user p" "j_command row = command"
      "j_queue_name row = jp_queue p" "j_array_id row = (if aid > 0 then aid else jid)"
      "j_array_index row = arr_index" "j_submission_time row = db_now w" and
    w2: "w2 = insert_challenge jid (ss_random S jid) private public (w\<lparr>t_jobs := t_jobs w @ [row]\<rparr>)" and
    w3: "submit_request jid (jp_resource_request p) w2 = Inr w3" and
    T: "map ty_type (filter (\<lambda>t. ty_job t = jid) T) =
       map ty_type (filter (\<lambda>t. ty_job t = jid) (t_types w3)) @ jp_types p" and
    w': "w' = (let w6 = insert_state_log (if jp_hold p then ''Hold'' else ''Waiting'') (db_now w) jid
                (insert_dependencies jid (jp_dependencies p) (w3\<lparr>t_types := T\<rparr>)) in
           if jp_hold p then w6 else update_job jid (\<lambda>j. j\<lparr>j_state := ''Waiting''\<rparr>) w6)"
    by (rule subjob_steps [OF assms])
  obtain M G D where w3': "w3 = w2\<lparr>t_moldables := M, t_groups := G, t_descrs := D\<rparr>"
    using submit_request_frame [OF w3] by blast
  have "sql_update (\<lambda>j. j_id j = jid) f (t_jobs w) = t_jobs w" for f :: "job_row \<Rightarrow> job_row"
    using jid(1) fresh_id_gt [of _ "map j_id (t_jobs w)"] by (intro sql_update_none) fastforce
  hence upd: "sql_update (\<lambda>j. j_id j = jid) f (t_jobs w @ [row]) = t_jobs w @ [f row]" for f
    using row(1) by (simp add: sql_update_def)
  note step = w' Let_def update_job_def insert_state_log_def insert_dependencies_def w3' w2 insert_challenge_def
  define row' where "row' = (if jp_hold p then row else row\<lparr>j_state := ''Waiting''\<rparr>)"
  have "t_jobs w' = t_jobs w @ [row']" by (simp add: step upd row'_def)
  moreover have "j_id row' = jid \<and> j_state row' = (if jp_hold p then ''Hold'' else ''Waiting'') \<and>
      Some (j_user row') = jp_user p \<and> j_command row' = command \<and> j_queue_name row' = jp_queue p \<and>
      j_submission_time row' = db_now w \<and> j_array_id row' = (if aid > 0 then aid else jid) \<and>
      j_array_index row' = arr_index"
    using row by (simp add: row'_def)
  ultimately show ?jobs by blast
  show ?logs ?now by (simp_all add: step)
qed

text \<open>
  C31. A submission that succeeds adds one job under a new number, on Hold or Waiting as asked, for
  its user, queue and command, and one open row in the log of its states; and the tables of the requests hold, for
  this job, exactly the alternatives that were asked for: the groups in their order with their properties,
  levels and numbers, and the walltimes (the default one where none was given). The types of the job are
  those of the parameters.
\<close>

theorem submitted_job_stored:
  assumes "add_micheline_subjob P S p private public aid arr_index command w = Inr ((0, jid), w')"
    and "no_orphans w" and "\<forall>m \<in> set (jp_resource_request p). fst m \<noteq> []"
    and "\<forall>t \<in> set (t_types w). ty_job t < fresh_id (map j_id (t_jobs w))"
  shows "jid \<notin> j_id ` set (t_jobs w) \<and>
     (\<exists>row. t_jobs w' = t_jobs w @ [row] \<and> j_id row = jid \<and>
        j_state row = (if jp_hold p then ''Hold'' else ''Waiting'') \<and> Some (j_user row) = jp_user p \<and>
        j_command row = command \<and> j_queue_name row = jp_queue p) \<and>
     (\<exists>i. t_state_logs w' = t_state_logs w @ [\<lparr>l_id = i, l_job = jid,
        l_state = (if jp_hold p then ''Hold'' else ''Waiting''), l_start = db_now w, l_stop = 0\<rparr>]) \<and>
     stored_request jid w' =
       map (\<lambda>(desc, wt). (requested_groups desc, asked_walltime w wt)) (jp_resource_request p) \<and>
     map ty_type (filter (\<lambda>t. ty_job t = jid) (t_types w')) = jp_types p"
proof -
  obtain row w2 w3 T where
    jid: "jid = fresh_id (map j_id (t_jobs w))" "jp_resource_request p \<noteq> []" and
    row: "j_id row = jid" "j_state row = ''Hold''" "Some (j_user row) = jp_user p" "j_command row = command"
      "j_queue_name row = jp_queue p" "j_array_id row = (if aid > 0 then aid else jid)"
      "j_array_index row = arr_index" "j_submission_time row = db_now w" and
    w2: "w2 = insert_challenge jid (ss_random S jid) private public (w\<lparr>t_jobs := t_jobs w @ [row]\<rparr>)" and
    w3: "submit_request jid (jp_resource_request p) w2 = Inr w3" and
    T: "map ty_type (filter (\<lambda>t. ty_job t = jid) T) =
       map ty_type (filter (\<lambda>t. ty_job t = jid) (t_types w3)) @ jp_types p" and
    w': "w' = (let w6 = insert_state_log (if jp_hold p then ''Hold'' else ''Waiting'') (db_now w) jid
                (insert_dependencies jid (jp_dependencies p) (w3\<lparr>t_types := T\<rparr>)) in
           if jp_hold p then w6 else update_job jid (\<lambda>j. j\<lparr>j_state := ''Waiting''\<rparr>) w6)"
    by (rule subjob_steps [OF assms(1)])
  have tables: "t_moldables w2 = t_moldables w" "t_groups w2 = t_groups w" "t_descrs w2 = t_descrs w"
      "t_types w2 = t_types w" "default_walltime wt w2 = default_walltime wt w" for wt
    by (simp_all add: w2 insert_challenge_def default_walltime_def split: option.splits)
  have "groups_ok w2" "\<forall>m \<in> set (t_moldables w2). m_job m \<noteq> jid"
      "\<forall>g \<in> set (t_groups w2). gr_mld g < fresh_id (map m_id (t_moldables w2))"
    using assms(2) jid(1) by (auto simp: no_orphans_def groups_ok_def tables)
  from submit_request_stores [OF w3 jid(2) assms(3) this]
  have stored: "stored_request jid w3 =
      map (\<lambda>(desc, wt). (requested_groups desc, asked_walltime w wt)) (jp_resource_request p)"
    by (simp add: asked_walltime_def tables)
  obtain M G D where "w3 = w2\<lparr>t_moldables := M, t_groups := G, t_descrs := D\<rparr>"
    using submit_request_frame [OF w3] by blast
  hence "filter (\<lambda>t. ty_job t = jid) (t_types w3) = []"
    using assms(4) jid(1) by (auto simp: tables filter_empty_conv)
  hence "map ty_type (filter (\<lambda>t. ty_job t = jid) (t_types w')) = jp_types p"
    using T by (simp add: w' Let_def update_job_def insert_state_log_def insert_dependencies_def)
  moreover have "stored_request jid w' =
      map (\<lambda>(desc, wt). (requested_groups desc, asked_walltime w wt)) (jp_resource_request p)"
    unfolding stored [symmetric] by (simp add: w' Let_def update_job_def insert_state_log_def insert_dependencies_def stored_request_def
        stored_groups_def)
  moreover have "jid \<notin> j_id ` set (t_jobs w)"
    using fresh_id_fresh [of "map j_id (t_jobs w)"] jid(1) by simp
  moreover have "\<exists>row. t_jobs w' = t_jobs w @ [row] \<and> j_id row = jid \<and>
      j_state row = (if jp_hold p then ''Hold'' else ''Waiting'') \<and> Some (j_user row) = jp_user p \<and>
      j_command row = command \<and> j_queue_name row = jp_queue p"
    using subjob_rows(1) [OF assms(1)] by blast
  moreover have "\<exists>i. t_state_logs w' = t_state_logs w @ [\<lparr>l_id = i, l_job = jid,
      l_state = (if jp_hold p then ''Hold'' else ''Waiting''), l_start = db_now w, l_stop = 0\<rparr>]"
    by (intro exI [of _ "fresh_id (map l_id (t_state_logs w))"]) (rule subjob_rows(2) [OF assms(1)])
  ultimately show ?thesis by (intro conjI)
qed


section \<open>Examples and errors\<close>

definition submit_example_db :: db where
  "submit_example_db = resource_db\<lparr>db_now := 50,
     db_config_int := (\<lambda>k. if k = ''DEFAULT_JOB_WALLTIME'' then Some 3600 else None)\<rparr>"

definition submit_example :: job_parameters where
  "submit_example = \<lparr>jp_job_type = Some ''PASSIVE'',
     jp_resource_request = [([('''', [(''resource_id'', Literal ''1'')])], None),
                            ([('''', [(''network_address'', Literal ''1''), (''resource_id'', Literal ''1'')])], Some 60)],
     jp_command = Some ''sleep 1'', jp_info_type = ''host:'', jp_queue = ''default'', jp_properties = None,
     jp_checkpoint = Some 0, jp_signal = 12, jp_notify = None, jp_name = Some ''n'', jp_types = [''t''],
     jp_launching_directory = ''/'', jp_dependencies = [], jp_stdout = None, jp_stderr = None,
     jp_hold = False, jp_project = ''default'', jp_initial_request = None, jp_user = Some ''bob'',
     jp_interactive = False, jp_reservation_date = None, jp_connect = False, jp_array_nb = 1,
     jp_array_params = [], jp_array_param_file = None, jp_use_job_key = False,
     jp_import_job_key_inline = None, jp_import_job_key_file = None, jp_export_job_key_file = None,
     jp_start_time = 0, jp_array_id = 0\<rparr>"

definition submit_example_site :: "nat list submit_site" where
  "submit_example_site = \<lparr>ss_sql = (\<lambda>t. Some (\<lambda>r. True)), ss_order = (\<lambda>rs. rs), ss_random = (\<lambda>i. 7),
     ss_keys = (\<lambda>i. \<lparr>key_generated = None, key_extracted = None, key_written = None,
       key_private_file = None, key_public_file = None\<rparr>)\<rparr>"

definition submit_example_run :: "((int \<times> int) \<times> db) res" where
  "submit_example_run = add_micheline_subjob list_procset submit_example_site submit_example '''' '''' 0 1
     (Some ''sleep 1'') submit_example_db"

lemma submit_example_returns:
  "map_sum id fst submit_example_run = Inr (0, 1)"
  by code_simp


theorem submitted_job_stored_witness:
  "\<exists>w'. submit_example_run = Inr ((0, 1), w') \<and>
     stored_request 1 w' = [([(Some '''', [(''resource_id'', 1)])], 3600),
       ([(Some '''', [(''network_address'', 1), (''resource_id'', 1)])], 60)] \<and>
     map ty_type (filter (\<lambda>t. ty_job t = 1) (t_types w')) = [''t'']"
proof -
  obtain r where r: "submit_example_run = Inr r" "fst r = (0, 1)"
  proof (cases submit_example_run)
    case (Inl e)
    thus ?thesis using submit_example_returns unfolding Inl by simp
  next
    case (Inr r)
    thus ?thesis using submit_example_returns that unfolding Inr by simp
  qed
  define w' where "w' = snd r"
  have run: "add_micheline_subjob list_procset submit_example_site submit_example '''' '''' 0 1
      (Some ''sleep 1'') submit_example_db = Inr ((0, 1), w')"
    using r by (cases r) (simp add: submit_example_run_def w'_def)
  have ok: "no_orphans submit_example_db" "\<forall>m \<in> set (jp_resource_request submit_example). fst m \<noteq> []"
    "\<forall>t \<in> set (t_types submit_example_db). ty_job t < fresh_id (map j_id (t_jobs submit_example_db))"
    by (simp_all add: no_orphans_def submit_example_db_def submit_example_def resource_db_def empty_db_def)
  have "map (\<lambda>(desc, wt). (requested_groups desc, asked_walltime submit_example_db wt))
      (jp_resource_request submit_example) = [([(Some '''', [(''resource_id'', 1)])], 3600),
       ([(Some '''', [(''network_address'', 1), (''resource_id'', 1)])], 60)]"
    by code_simp
  moreover have "jp_types submit_example = [''t'']" by (simp add: submit_example_def)
  ultimately show ?thesis
    using submitted_job_stored [OF run ok] run by (auto simp: submit_example_run_def)
qed

text \<open>
  An array of jobs that asks for more than there is, or for properties that the database refuses, raises
  \<open>TypeError\<close>: unlike the submission of a single job, which answers with the error -5, the error of the
  estimation is not looked at and its missing estimates are indexed.
\<close>

theorem impossible_array_raises:
  assumes "estimate_job_nb_resources P (ss_sql S) (ss_order S) (jp_resource_request p) (jp_properties p) w =
      Inr (code, None)"
    and "length (jp_resource_request p) = 1" and "array_commands \<noteq> []"
    and "jp_stdout p = None" and "jp_stderr p = None"
  shows "add_micheline_simple_array_job P S p arr_index array_commands w = Inl TypeError \<and>
    add_micheline_subjob P S p private public aid arr_index command w = Inr ((- 5, - 1), w)"
  using assms estimate_cases [OF assms(1)]
  by (cases array_commands)
    (simp_all add: add_micheline_simple_array_job_def add_micheline_subjob_def output_file_def text_or_empty_def)

theorem impossible_array_raises_witness:
  "add_micheline_simple_array_job list_procset submit_example_site
      (submit_example\<lparr>jp_resource_request := [([('''', [(''resource_id'', Literal ''9'')])], None)]\<rparr>) 1
      [''a'', ''b''] submit_example_db = Inl TypeError"
proof -
  have "estimate_job_nb_resources list_procset (ss_sql submit_example_site) (ss_order submit_example_site)
      (jp_resource_request (submit_example\<lparr>jp_resource_request := [([('''', [(''resource_id'', Literal ''9'')])], None)]\<rparr>))
      (jp_properties (submit_example\<lparr>jp_resource_request := [([('''', [(''resource_id'', Literal ''9'')])], None)]\<rparr>))
      submit_example_db = Inr (- 5, None)"
    by code_simp
  from impossible_array_raises [OF this, of "[''a'', ''b'']"] show ?thesis
    by (simp add: submit_example_def)
qed

text \<open>A request whose second group can never be served is accepted: the estimates of the groups are added.\<close>

lemma half_impossible_request_accepted:
  "estimate_job_nb_resources list_procset (ss_sql submit_example_site) (ss_order submit_example_site)
     [([('''', [(''resource_id'', Literal ''1'')]), ('''', [(''resource_id'', Literal ''9'')])], None)] None
     submit_example_db = Inr (0, Some [(1, 3600)])"
  by code_simp

text \<open>
  The error of an array with several alternatives is replaced by success without any job.
\<close>

lemma moldable_array_answers_success:
  assumes "check_syntax p = Inr None" "jp_reservation_date p = None" "db_config w ''QUOTAS'' = Some ''no''"
    and "apply_rules A (admission_rules A w) p = Some (Inr p)"
    and "filter (\<lambda>q. q_name q = jp_queue p) (t_queues w) \<noteq> []"
    and "jp_array_params p = []" "jp_array_nb p > 1" "\<not> jp_use_job_key p" "jp_command p = Some c"
    and "length (jp_resource_request p) > 1"
  shows "add_micheline_jobs P S A p w = Inr (((0, ''''), []), w)"
  using assms by (simp add: add_micheline_jobs_def config_text_def array_commands_of_def Let_def
      add_micheline_simple_array_job_def del: replicate_Suc)

text \<open>A key imported from a file is never accepted: the text to write into the temporary file is the inline key.\<close>

lemma key_from_file_fails:
  "\<exists>msg. job_key_management K True None (Some (c # f)) export_file w = Inr ((- 14, msg), '''', '''')"
  if "db_environ w ''OARDO_USER'' = Some u"
  using that by (simp add: job_key_management_def text_or_empty_def Let_def)

end
