(* ===== verification/Job_Sorting.thy ===== *)
theory Job_Sorting
  imports Complex_Main Jobs Db "HOL-Library.Multiset"
begin

text \<open>
  The order in which Kamelot considers the waiting jobs: \<open>oar/kao/karma.py\<close> (fair sharing),
  \<open>oar/kao/multifactor_priority.py\<close>, \<open>oar/kao/custom_jobs_sorting.py\<close>, and \<open>jobs_sorting\<close> of
  \<open>oar/kao/kamelot.py\<close>, which chooses among them.

  Floating-point numbers are a parameter: a linearly ordered type \<open>'f\<close> (no NaN) with the operations of
  the record \<open>float_ops\<close>. The locale \<open>float_laws\<close> states the monotony of these operations, which
  rounding keeps; it is interpreted on the rational numbers. A dictionary from jobs to numbers is an
  association list in the order of the jobs.
\<close>

section \<open>Numbers\<close>

record 'f float_ops =
  fl_of_int :: "int \<Rightarrow> 'f"
  fl_of_string :: "string \<Rightarrow> 'f res"      \<comment> \<open>\<open>float(s)\<close>\<close>
  fl_string :: "'f \<Rightarrow> string"
  fl_trunc :: "'f \<Rightarrow> int res"              \<comment> \<open>\<open>int(x)\<close>\<close>
  fl_add :: "'f \<Rightarrow> 'f \<Rightarrow> 'f"
  fl_sub :: "'f \<Rightarrow> 'f \<Rightarrow> 'f"
  fl_mul :: "'f \<Rightarrow> 'f \<Rightarrow> 'f"
  fl_quotient :: "'f \<Rightarrow> 'f \<Rightarrow> 'f"

definition fl_div :: "'f float_ops \<Rightarrow> 'f \<Rightarrow> 'f \<Rightarrow> 'f res" where
  "fl_div F a b = (if b = fl_of_int F 0 then Inl ZeroDivisionError else Inr (fl_quotient F a b))"

locale float_laws =
  fixes F :: "'f::linorder float_ops"
  assumes of_int_mono: "i \<le> j \<Longrightarrow> fl_of_int F i \<le> fl_of_int F j"
    and add_mono: "a \<le> b \<Longrightarrow> c \<le> d \<Longrightarrow> fl_add F a c \<le> fl_add F b d"
    and sub_mono: "a \<le> b \<Longrightarrow> fl_sub F a c \<le> fl_sub F b c"
    and mul_mono: "fl_of_int F 0 \<le> c \<Longrightarrow> a \<le> b \<Longrightarrow> fl_mul F c a \<le> fl_mul F c b"
    and quotient_mono: "fl_of_int F 0 < c \<Longrightarrow> a \<le> b \<Longrightarrow> fl_quotient F a c \<le> fl_quotient F b c"

text \<open>Numbers that are not rounded: the operations are strictly monotone.\<close>

locale exact_laws = float_laws F for F :: "'f::linorder float_ops" +
  assumes add_strict: "a \<le> b \<Longrightarrow> c \<le> d \<Longrightarrow> a < b \<or> c < d \<Longrightarrow> fl_add F a c < fl_add F b d"
    and sub_strict: "a < b \<Longrightarrow> fl_sub F a c < fl_sub F b c"
    and mul_strict: "fl_of_int F 0 < c \<Longrightarrow> a < b \<Longrightarrow> fl_mul F c a < fl_mul F c b"
    and quotient_strict: "fl_of_int F 0 < c \<Longrightarrow> a < b \<Longrightarrow> fl_quotient F a c < fl_quotient F b c"

section \<open>Fair sharing\<close>

text \<open>\<open>re.split("=>", pair)\<close>\<close>

fun split_arrow :: "string \<Rightarrow> string list" where
  "split_arrow [] = [[]]"
| "split_arrow [c] = [[c]]"
| "split_arrow (c # d # cs) =
     (if c = CHR ''='' \<and> d = CHR ''>'' then [] # split_arrow cs
      else (case split_arrow (d # cs) of [] \<Rightarrow> [[c]] | w # ws \<Rightarrow> (c # w) # ws))"

definition perl_hash_2_dict :: "string \<Rightarrow> (string \<times> string) list res" where
  "perl_hash_2_dict text =
     fold_res (\<lambda>pair d. let kv = split_arrow pair in
         res_bind (nth_res kv 1) (\<lambda>v. Inr (AList.update (hd kv) v d)))
       (split_on (CHR '','') (filter (\<lambda>c. c \<noteq> CHR ''{'' \<and> c \<noteq> CHR ''}'' \<and> \<not> is_space c) text)) []"

text \<open>The sum of a group of the rows of \<open>accounting\<close>; no row, no group.\<close>

definition sum_of_group :: "'f float_ops \<Rightarrow> (accounting_row \<Rightarrow> bool) \<Rightarrow> accounting_row list \<Rightarrow> 'f option" where
  "sum_of_group F Q rows = (case filter Q rows of
     [] \<Rightarrow> None | r # rs \<Rightarrow> Some (fl_of_int F (sum_list (map ac_consumption (r # rs)))))"

definition get_sum_accounting_window ::
    "'f float_ops \<Rightarrow> string list \<Rightarrow> int \<Rightarrow> int \<Rightarrow> db \<Rightarrow> 'f \<times> 'f" where
  "get_sum_accounting_window F queues window_start window_stop w =
     (let rows = filter (\<lambda>a. ac_queue a \<in> set queues \<and> window_start \<le> ac_start a \<and>
                             ac_stop a < window_stop) (t_accounting w);
          total = (\<lambda>t. case sum_of_group F (\<lambda>a. ac_type a = t) rows of None \<Rightarrow> fl_of_int F 1 | Some x \<Rightarrow> x) in
      (total ''ASKED'', total ''USED''))"

definition get_sum_accounting_by_project ::
    "'f float_ops \<Rightarrow> string list \<Rightarrow> int \<Rightarrow> int \<Rightarrow> db \<Rightarrow> (string \<rightharpoonup> 'f) \<times> (string \<rightharpoonup> 'f)" where
  "get_sum_accounting_by_project F queues window_start window_stop w =
     (let rows = filter (\<lambda>a. ac_queue a \<in> set queues \<and> window_start \<le> ac_start a \<and>
                             ac_stop a < window_stop) (t_accounting w) in
      (\<lambda>p. sum_of_group F (\<lambda>a. ac_project a = p \<and> ac_type a = ''ASKED'') rows,
       \<lambda>p. sum_of_group F (\<lambda>a. ac_project a = p \<and> ac_type a = ''USED'') rows))"

text \<open>Here the last window may end at \<open>window_stop\<close>.\<close>

definition get_sum_accounting_by_user ::
    "'f float_ops \<Rightarrow> string list \<Rightarrow> int \<Rightarrow> int \<Rightarrow> db \<Rightarrow> (string \<rightharpoonup> 'f) \<times> (string \<rightharpoonup> 'f)" where
  "get_sum_accounting_by_user F queues window_start window_stop w =
     (let rows = filter (\<lambda>a. ac_queue a \<in> set queues \<and> window_start \<le> ac_start a \<and>
                             ac_stop a \<le> window_stop) (t_accounting w) in
      (\<lambda>u. sum_of_group F (\<lambda>a. ac_user a = u \<and> ac_type a = ''ASKED'') rows,
       \<lambda>u. sum_of_group F (\<lambda>a. ac_user a = u \<and> ac_type a = ''USED'') rows))"

text \<open>What \<open>evaluate_jobs_karma\<close> reads before its loop.\<close>

record 'f karma_conf =
  proj_targets :: "(string \<times> string) list"
  user_targets :: "(string \<times> string) list"
  coeff_proj :: 'f
  coeff_user :: 'f
  coeff_user_asked :: 'f

record 'f karma_sums =
  sum_time_asked :: 'f
  sum_time_used :: 'f
  projects_used :: "string \<rightharpoonup> 'f"
  users_asked :: "string \<rightharpoonup> 'f"
  users_used :: "string \<rightharpoonup> 'f"

definition config_text :: "db \<Rightarrow> string \<Rightarrow> string res" where
  "config_text w k = lookup_res (db_config w) k"

definition read_karma_conf :: "'f float_ops \<Rightarrow> db \<Rightarrow> 'f karma_conf res" where
  "read_karma_conf F w =
     res_bind (config_text w ''SCHEDULER_FAIRSHARING_PROJECT_TARGETS'') (\<lambda>t.
     res_bind (perl_hash_2_dict t) (\<lambda>pt.
     res_bind (config_text w ''SCHEDULER_FAIRSHARING_USER_TARGETS'') (\<lambda>t.
     res_bind (perl_hash_2_dict t) (\<lambda>ut.
     res_bind (res_bind (config_text w ''SCHEDULER_FAIRSHARING_COEF_PROJECT'') (fl_of_string F)) (\<lambda>cp.
     res_bind (res_bind (config_text w ''SCHEDULER_FAIRSHARING_COEF_USER'') (fl_of_string F)) (\<lambda>cu.
     res_bind (res_bind (config_text w ''SCHEDULER_FAIRSHARING_COEF_USER_ASK'') (fl_of_string F)) (\<lambda>ca.
       Inr \<lparr>proj_targets = pt, user_targets = ut, coeff_proj = cp, coeff_user = cu,
            coeff_user_asked = ca\<rparr>)))))))"

definition read_karma_sums :: "'f float_ops \<Rightarrow> string list \<Rightarrow> int \<Rightarrow> int \<Rightarrow> db \<Rightarrow> 'f karma_sums" where
  "read_karma_sums F queues now window_size w =
     (case get_sum_accounting_window F queues (now - window_size) now w of (asked, used) \<Rightarrow>
      case get_sum_accounting_by_project F queues (now - window_size) now w of (p_asked, p_used) \<Rightarrow>
      case get_sum_accounting_by_user F queues (now - window_size) now w of (u_asked, u_used) \<Rightarrow>
        \<lparr>sum_time_asked = asked, sum_time_used = used, projects_used = p_used,
         users_asked = u_asked, users_used = u_used\<rparr>)"

definition or_zero :: "'f float_ops \<Rightarrow> 'f option \<Rightarrow> 'f" where
  "or_zero F x = (case x of None \<Rightarrow> fl_of_int F 0 | Some v \<Rightarrow> v)"

text \<open>\<open>coeff * (used / total - target / 100.0)\<close>\<close>

definition karma_part :: "'f float_ops \<Rightarrow> 'f \<Rightarrow> 'f \<Rightarrow> 'f \<Rightarrow> 'f \<Rightarrow> 'f res" where
  "karma_part F coeff used used_by_all target =
     res_bind (fl_div F used used_by_all) (\<lambda>share.
     res_bind (fl_div F target (fl_of_int F 100)) (\<lambda>wanted.
       Inr (fl_mul F coeff (fl_sub F share wanted))))"

text \<open>
  The karma of one job. The target of a user is a text, which \<open>karma_user_targets[job.user] / 100.0\<close>
  divides: a \<open>TypeError\<close>.
\<close>

definition job_karma :: "'f float_ops \<Rightarrow> 'f karma_conf \<Rightarrow> 'f karma_sums \<Rightarrow> 'p job \<Rightarrow> 'f res" where
  "job_karma F conf totals job =
     res_bind (case map_of (proj_targets conf) (project job) of
         None \<Rightarrow> Inr (fl_of_int F 0) | Some t \<Rightarrow> fl_of_string F t) (\<lambda>proj_target.
     res_bind (case map_of (user_targets conf) (job_user job) of
         None \<Rightarrow> Inr (fl_of_int F 0) | Some t \<Rightarrow> Inl TypeError) (\<lambda>user_target.
     res_bind (karma_part F (coeff_proj conf) (or_zero F (projects_used totals (project job)))
         (sum_time_used totals) proj_target) (\<lambda>proj.
     res_bind (karma_part F (coeff_user conf) (or_zero F (users_used totals (job_user job)))
         (sum_time_used totals) user_target) (\<lambda>user.
     res_bind (karma_part F (coeff_user_asked conf) (or_zero F (users_asked totals (job_user job)))
         (sum_time_asked totals) user_target) (\<lambda>user_ask.
       Inr (fl_add F (fl_add F proj user) user_ask))))))"

definition evaluate_jobs_karma ::
    "'f float_ops \<Rightarrow> string list \<Rightarrow> int \<Rightarrow> 'p job list \<Rightarrow> db \<Rightarrow> (int \<times> 'f) list res" where
  "evaluate_jobs_karma F queues now jobs w =
     res_bind (lookup_res (db_config_int w) ''SCHEDULER_FAIRSHARING_WINDOW_SIZE'') (\<lambda>window_size.
     res_bind (read_karma_conf F w) (\<lambda>conf.
       map_res (\<lambda>job. res_bind (job_karma F conf (read_karma_sums F queues now window_size w) job)
                        (\<lambda>k. Inr (job_id job, k))) jobs))"

text \<open>The attribute \<open>karma\<close> of the jobs.\<close>

definition set_karma :: "'f float_ops \<Rightarrow> (int \<times> 'f) list \<Rightarrow> 'p job list \<Rightarrow> 'p job list" where
  "set_karma F karmas jobs =
     map (\<lambda>job. job\<lparr>karma := map_option (fl_string F) (map_of karmas (job_id job))\<rparr>) jobs"

text \<open>\<open>sorted(jids, key=...)\<close>, ascending or, with \<open>reverse=True\<close>, descending; both are stable.\<close>

definition sorted_by :: "(int \<times> 'f::linorder) list \<Rightarrow> int list \<Rightarrow> int list res" where
  "sorted_by values jids =
     res_bind (map_res (\<lambda>jid. res_bind (lookup_res (map_of values) jid) (\<lambda>v. Inr (jid, v))) jids)
       (\<lambda>pairs. Inr (map fst (sort_key snd pairs)))"

definition sorted_by_reverse :: "(int \<times> 'f::linorder) list \<Rightarrow> int list \<Rightarrow> int list res" where
  "sorted_by_reverse values jids =
     res_bind (sorted_by values (rev jids)) (\<lambda>ordered. Inr (rev ordered))"

definition karma_jobs_sorting ::
    "'f::linorder float_ops \<Rightarrow> string list \<Rightarrow> int \<Rightarrow> int list \<Rightarrow> 'p job list \<Rightarrow> db \<Rightarrow>
     (int list \<times> 'p job list) res" where
  "karma_jobs_sorting F queues now jids jobs w =
     res_bind (evaluate_jobs_karma F queues now jobs w) (\<lambda>karmas.
     res_bind (sorted_by karmas jids) (\<lambda>ordered. Inr (ordered, set_karma F karmas jobs)))"

section \<open>Priorities\<close>

text \<open>
  The file of \<open>PRIORITY_CONF_FILE\<close>, read by a YAML library: \<open>None\<close> is a file that is no YAML. A mode is
  the truth value of what the file says.
\<close>

record 'f priority_conf =
  age_weight :: "'f option"
  age_coef :: "'f option"
  queue_weight :: "'f option"
  queue_coefs :: "string \<rightharpoonup> 'f"
  work_weight :: "'f option"
  work_mode :: bool
  size_weight :: "'f option"
  size_mode :: bool
  karma_weight :: "'f option"
  qos_weight :: "'f option"
  nice_weight :: "'f option"

text \<open>
  The attributes \<open>work\<close>, \<open>size\<close>, \<open>qos\<close> and \<open>nice\<close> exist on no job, so that a positive weight for one of
  them raises, whatever the mode.
\<close>

definition missing_attribute :: "'f::linorder float_ops \<Rightarrow> 'f \<Rightarrow> unit res" where
  "missing_attribute F weight = (if weight > fl_of_int F 0 then Inl AttributeError else Inr ())"

definition job_priority ::
    "'f::linorder float_ops \<Rightarrow> 'f priority_conf \<Rightarrow> int \<Rightarrow> 'f \<Rightarrow> 'f \<Rightarrow> 'p job \<Rightarrow> 'f res" where
  "job_priority F conf now coef k job =
     (let weight = (\<lambda>x. or_zero F x); one = fl_of_int F 1;
          age = fl_mul F (weight (age_weight conf))
                  (max one (fl_mul F coef (fl_of_int F (now - submission_time job))));
          p = (if weight (queue_weight conf) > fl_of_int F 0 then
                 (case queue_coefs conf (queue_name job) of
                    Some c \<Rightarrow> fl_add F age (fl_mul F (weight (queue_weight conf)) c) | None \<Rightarrow> age)
               else age) in
      res_bind (missing_attribute F (weight (work_weight conf))) (\<lambda>_.
      res_bind (missing_attribute F (weight (size_weight conf))) (\<lambda>_.
      res_bind (fl_div F one (fl_add F one k)) (\<lambda>share.
      res_bind (missing_attribute F (weight (qos_weight conf))) (\<lambda>_.
      res_bind (missing_attribute F (weight (nice_weight conf))) (\<lambda>_.
        Inr (fl_add F p (fl_mul F (weight (karma_weight conf)) share))))))))"

definition evaluate_jobs_priority ::
    "'f::linorder float_ops \<Rightarrow> (string \<Rightarrow> 'f priority_conf option res) \<Rightarrow> string list \<Rightarrow> int \<Rightarrow> 'p job list \<Rightarrow>
     db \<Rightarrow> ((int \<times> 'f) list \<times> (int \<times> 'f) list) res" where
  "evaluate_jobs_priority F yaml queues now jobs w =
     res_bind (config_text w ''PRIORITY_CONF_FILE'') (\<lambda>file_name.
     res_bind (yaml file_name) (\<lambda>y.
     case y of None \<Rightarrow> Inl UnboundLocalError | Some conf \<Rightarrow>
     res_bind (case age_coef conf of Some c \<Rightarrow> Inr c | None \<Rightarrow> fl_of_string F ''1.65e-06'') (\<lambda>coef.
     res_bind (evaluate_jobs_karma F queues now jobs w) (\<lambda>karmas.
     res_bind (map_res (\<lambda>(job, (jid, k)). res_bind (job_priority F conf now coef k job) (\<lambda>p. Inr (jid, p)))
                 (zip jobs karmas)) (\<lambda>priorities.
       Inr (karmas, priorities))))))"

definition multifactor_jobs_sorting ::
    "'f::linorder float_ops \<Rightarrow> (string \<Rightarrow> 'f priority_conf option res) \<Rightarrow> string list \<Rightarrow> int \<Rightarrow> int list \<Rightarrow>
     'p job list \<Rightarrow> db \<Rightarrow> (int list \<times> 'p job list) res" where
  "multifactor_jobs_sorting F yaml queues now jids jobs w =
     res_bind (evaluate_jobs_priority F yaml queues now jobs w) (\<lambda>(karmas, priorities).
     res_bind (sorted_by_reverse priorities jids) (\<lambda>ordered. Inr (ordered, set_karma F karmas jobs)))"

text \<open>
  One job of \<open>jobs_sorting_simple_priority\<close>. The local variable \<open>priority\<close>, \<open>None\<close> while it is not bound,
  keeps the value of the previous job when the job has none of its own; the message for a value that is
  no number has no place for its argument, a \<open>TypeError\<close>.
\<close>

definition simple_priority ::
    "'f float_ops \<Rightarrow> 'f \<Rightarrow> int \<Rightarrow> 'p job \<Rightarrow> 'f option \<times> (int \<times> 'f) list \<Rightarrow>
     ('f option \<times> (int \<times> 'f) list) res" where
  "simple_priority F waiting_time_weight now job st = (case st of (priority, priorities) \<Rightarrow>
     res_bind (case map_of (types job) ''priority'' of
         Some t \<Rightarrow> (case fl_of_string F t of
             Inl e \<Rightarrow> Inl (if e = ValueError then TypeError else e) | Inr v \<Rightarrow> Inr v)
       | None \<Rightarrow> (case priority of None \<Rightarrow> Inl UnboundLocalError | Some v \<Rightarrow> Inr v)) (\<lambda>p.
     res_bind (fl_div F (fl_mul F waiting_time_weight (fl_of_int F (now - submission_time job)))
                 (fl_of_int F now)) (\<lambda>age.
       Inr (Some p, priorities @ [(job_id job, fl_add F p age)]))))"

text \<open>\<open>json\<close> reads the numbers of a dictionary in a text.\<close>

definition jobs_sorting_simple_priority ::
    "'f::linorder float_ops \<Rightarrow> (string \<Rightarrow> (string \<rightharpoonup> 'f) res) \<Rightarrow> int \<Rightarrow> int list \<Rightarrow> 'p job list \<Rightarrow> string \<Rightarrow>
     db \<Rightarrow> int list res" where
  "jobs_sorting_simple_priority F json now jids jobs str_config w =
     res_bind (json str_config) (\<lambda>priority_config.
     res_bind (if db_config w ''WAITING_TIME_WEIGHT'' \<noteq> None
               then lookup_res priority_config ''WAITING_TIME_WEIGHT'' else Inr (fl_of_int F 0))
       (\<lambda>waiting_time_weight.
     res_bind (fold_res (simple_priority F waiting_time_weight now) jobs (None, [])) (\<lambda>(p, priorities).
       sorted_by_reverse priorities jids)))"

section \<open>The choice of a policy\<close>

record 'f policies =
  floats :: "'f float_ops"
  yaml_conf :: "string \<Rightarrow> 'f priority_conf option res"
  json_conf :: "string \<Rightarrow> (string \<rightharpoonup> 'f) res"

definition jobs_sorting ::
    "'f::linorder policies \<Rightarrow> string list \<Rightarrow> int \<Rightarrow> int list \<Rightarrow> 'p job list \<Rightarrow> db \<Rightarrow>
     (int list \<times> 'p job list) res" where
  "jobs_sorting X queues now waiting_jids waiting_jobs w =
     (case db_config w ''JOB_PRIORITY'' of
        None \<Rightarrow> Inr (waiting_jids, waiting_jobs)
      | Some t \<Rightarrow>
          if t = ''FAIRSHARE'' then karma_jobs_sorting (floats X) queues now waiting_jids waiting_jobs w
          else if t = ''MULTIFACTOR'' then
            multifactor_jobs_sorting (floats X) (yaml_conf X) queues now waiting_jids waiting_jobs w
          else if t = ''CUSTOM'' then
            res_bind (lookup_res (db_config w) ''CUSTOM_JOB_SORTING'') (\<lambda>name.
            if name \<noteq> ''simple_priority'' then Inl AttributeError else
            res_bind (jobs_sorting_simple_priority (floats X) (json_conf X) now waiting_jids waiting_jobs
                (case db_config w ''CUSTOM_JOB_SORTING_CONFIG'' of None \<Rightarrow> ''{}'' | Some c \<Rightarrow> c) w)
              (\<lambda>ordered. Inr (ordered, waiting_jobs)))
          else Inr (waiting_jids, waiting_jobs))"

section \<open>Lemmas\<close>

text \<open>What the exact numbers give: an instance of \<open>float_ops\<close> whose literals are integers.\<close>

definition rat_floats :: "rat float_ops" where
  "rat_floats = \<lparr>fl_of_int = of_int, fl_of_string = (\<lambda>s. res_bind (py_int s) (\<lambda>i. Inr (of_int i))),
     fl_string = (\<lambda>q. int_str \<lfloor>q\<rfloor>),
     fl_trunc = (\<lambda>q. Inr (if q < 0 then - \<lfloor>- q\<rfloor> else \<lfloor>q\<rfloor>)), fl_add = (+), fl_sub = (-), fl_mul = (*), fl_quotient = (/)\<rparr>"

interpretation rat_laws: float_laws rat_floats
  by unfold_locales
    (auto simp: rat_floats_def intro: add_mono mult_left_mono divide_right_mono)

interpretation rat_exact: exact_laws rat_floats
  by unfold_locales (auto simp: rat_floats_def add_less_le_mono add_le_less_mono divide_strict_right_mono)

context float_laws
begin

lemma karma_part_mono:
  assumes "karma_part F coeff u1 by_all target = Inr k1" "karma_part F coeff u2 by_all target = Inr k2"
    and "u1 \<le> u2" "fl_of_int F 0 \<le> coeff" "fl_of_int F 0 < by_all"
  shows "k1 \<le> k2"
  using assms by (auto simp: karma_part_def fl_div_def res_simps split: if_splits
      intro!: mul_mono sub_mono quotient_mono)

end

context exact_laws
begin

lemma karma_part_strict:
  assumes "karma_part F coeff u1 by_all target = Inr k1" "karma_part F coeff u2 by_all target = Inr k2"
    and "u1 < u2" "fl_of_int F 0 < coeff" "fl_of_int F 0 < by_all"
  shows "k1 < k2"
  using assms by (auto simp: karma_part_def fl_div_def res_simps split: if_splits
      intro!: mul_strict sub_strict quotient_strict)

end

text \<open>The jobs \<open>a\<close> and \<open>b\<close> are of one project, and the user of \<open>a\<close> has used and asked no more.\<close>

definition uses_less :: "'f::linorder float_ops \<Rightarrow> 'f karma_sums \<Rightarrow> 'p job \<Rightarrow> 'p job \<Rightarrow> bool" where
  "uses_less F totals a b \<longleftrightarrow> project a = project b \<and>
     or_zero F (users_used totals (job_user a)) \<le> or_zero F (users_used totals (job_user b)) \<and>
     or_zero F (users_asked totals (job_user a)) \<le> or_zero F (users_asked totals (job_user b))"

text \<open>Moreover it has used or asked less where the configuration counts it.\<close>

definition uses_strictly_less ::
    "'f::linorder float_ops \<Rightarrow> 'f karma_conf \<Rightarrow> 'f karma_sums \<Rightarrow> 'p job \<Rightarrow> 'p job \<Rightarrow> bool" where
  "uses_strictly_less F conf totals a b \<longleftrightarrow> uses_less F totals a b \<and>
     (fl_of_int F 0 < coeff_user conf \<and>
        or_zero F (users_used totals (job_user a)) < or_zero F (users_used totals (job_user b)) \<or>
      fl_of_int F 0 < coeff_user_asked conf \<and>
        or_zero F (users_asked totals (job_user a)) < or_zero F (users_asked totals (job_user b)))"

definition conf_ok :: "'f::linorder float_ops \<Rightarrow> 'f karma_conf \<Rightarrow> 'f karma_sums \<Rightarrow> bool" where
  "conf_ok F conf totals \<longleftrightarrow> fl_of_int F 0 \<le> coeff_user conf \<and> fl_of_int F 0 \<le> coeff_user_asked conf \<and>
     fl_of_int F 0 < sum_time_used totals \<and> fl_of_int F 0 < sum_time_asked totals"

lemma job_karma_parts:
  assumes "job_karma F conf totals job = Inr k"
  obtains pt p u a where
    "karma_part F (coeff_proj conf) (or_zero F (projects_used totals (project job))) (sum_time_used totals) pt = Inr p"
    "(case map_of (proj_targets conf) (project job) of
         None \<Rightarrow> Inr (fl_of_int F 0) | Some t \<Rightarrow> fl_of_string F t) = Inr pt"
    "karma_part F (coeff_user conf) (or_zero F (users_used totals (job_user job))) (sum_time_used totals)
       (fl_of_int F 0) = Inr u"
    "karma_part F (coeff_user_asked conf) (or_zero F (users_asked totals (job_user job))) (sum_time_asked totals)
       (fl_of_int F 0) = Inr a"
    "map_of (user_targets conf) (job_user job) = None"
    "k = fl_add F (fl_add F p u) a"
  using assms by (cases "map_of (user_targets conf) (job_user job)") (auto simp: job_karma_def res_simps)

text \<open>The parts of the karmas of two jobs of one project.\<close>

lemma job_karma_pair:
  assumes "uses_less F totals a b" "job_karma F conf totals a = Inr ka" "job_karma F conf totals b = Inr kb"
  obtains p u x u' x' where
    "ka = fl_add F (fl_add F p u) x" "kb = fl_add F (fl_add F p u') x'"
    "karma_part F (coeff_user conf) (or_zero F (users_used totals (job_user a))) (sum_time_used totals)
       (fl_of_int F 0) = Inr u"
    "karma_part F (coeff_user conf) (or_zero F (users_used totals (job_user b))) (sum_time_used totals)
       (fl_of_int F 0) = Inr u'"
    "karma_part F (coeff_user_asked conf) (or_zero F (users_asked totals (job_user a))) (sum_time_asked totals)
       (fl_of_int F 0) = Inr x"
    "karma_part F (coeff_user_asked conf) (or_zero F (users_asked totals (job_user b))) (sum_time_asked totals)
       (fl_of_int F 0) = Inr x'"
  using assms(2,3)
  by (elim job_karma_parts) (use assms(1) that in \<open>simp add: uses_less_def\<close>)

lemma job_karma_mono:
  assumes "float_laws F" and "conf_ok F conf totals" and "uses_less F totals a b"
    and "job_karma F conf totals a = Inr ka" "job_karma F conf totals b = Inr kb"
  shows "ka \<le> kb"
  using job_karma_pair [OF assms(3-5)] float_laws.karma_part_mono [OF assms(1)] float_laws.add_mono [OF assms(1)]
    assms(2,3) unfolding uses_less_def conf_ok_def by (metis order_refl)

lemma job_karma_strict:
  assumes "exact_laws F" and "conf_ok F conf totals" and less: "uses_strictly_less F conf totals a b"
    and "job_karma F conf totals a = Inr ka" "job_karma F conf totals b = Inr kb"
  shows "ka < kb"
proof -
  have laws: "float_laws F" using assms(1) by (simp add: exact_laws_def)
  note mono = float_laws.karma_part_mono [OF laws] and strict = exact_laws.karma_part_strict [OF assms(1)]
    and add = exact_laws.add_strict [OF assms(1)]
  have "uses_less F totals a b" using less by (simp add: uses_strictly_less_def)
  from job_karma_pair [OF this assms(4,5)] obtain p u x u' x' where
    k: "ka = fl_add F (fl_add F p u) x" "kb = fl_add F (fl_add F p u') x'"
    and u: "karma_part F (coeff_user conf) (or_zero F (users_used totals (job_user a))) (sum_time_used totals)
       (fl_of_int F 0) = Inr u"
    "karma_part F (coeff_user conf) (or_zero F (users_used totals (job_user b))) (sum_time_used totals)
       (fl_of_int F 0) = Inr u'"
    and x: "karma_part F (coeff_user_asked conf) (or_zero F (users_asked totals (job_user a))) (sum_time_asked totals)
       (fl_of_int F 0) = Inr x"
    "karma_part F (coeff_user_asked conf) (or_zero F (users_asked totals (job_user b))) (sum_time_asked totals)
       (fl_of_int F 0) = Inr x'" .
  have le: "u \<le> u'" "x \<le> x'"
    using mono [OF u] mono [OF x] assms(2) less
    by (simp_all add: uses_strictly_less_def uses_less_def conf_ok_def)
  have "u < u' \<or> x < x'"
    using strict [OF u] strict [OF x] assms(2) less by (auto simp: uses_strictly_less_def conf_ok_def)
  thus ?thesis
    using le add [of p p u u'] add [of "fl_add F p u" "fl_add F p u'" x x'] float_laws.add_mono [OF laws order_refl le(1), of p]
    unfolding k by blast
qed

lemma map_res_fst: "map_res (\<lambda>x. res_bind (f x) (\<lambda>v. Inr (x, v))) xs = Inr ps \<Longrightarrow>
    map fst ps = xs \<and> (\<forall>p \<in> set ps. f (fst p) = Inr (snd p))"
  by (induction xs arbitrary: ps) (fastforce simp: res_simps)+

text \<open>The sort is a stable permutation into ascending order.\<close>

lemma sorted_by_stable:
  assumes "sorted_by values ids = Inr out"
  shows "mset out = mset ids" "sorted (map (\<lambda>i. the (map_of values i)) out)"
    "filter (\<lambda>i. map_of values i = Some v) out = filter (\<lambda>i. map_of values i = Some v) ids"
    "\<forall>i \<in> set ids. map_of values i \<noteq> None"
proof -
  from assms obtain ps where
    ps: "map_res (\<lambda>jid. res_bind (lookup_res (map_of values) jid) (\<lambda>v. Inr (jid, v))) ids = Inr ps"
    and out: "out = map fst (sort_key snd ps)" by (auto simp: sorted_by_def res_simps)
  from map_res_fst [OF ps] have fst: "map fst ps = ids" and
    snd: "\<forall>p \<in> set ps. map_of values (fst p) = Some (snd p)" by (auto simp: lookup_res_eq_Inr)
  show "mset out = mset ids" unfolding out fst [symmetric] mset_map mset_sort ..
  show "\<forall>i \<in> set ids. map_of values i \<noteq> None" using snd by (auto simp: fst [symmetric])
  have "map (\<lambda>i. the (map_of values i)) out = map snd (sort_key snd ps)"
    using snd by (simp add: out)
  thus "sorted (map (\<lambda>i. the (map_of values i)) out)" by simp
  have "filter (\<lambda>i. map_of values i = Some v) (map fst qs) = map fst (filter (\<lambda>p. snd p = v) qs)"
    if "set qs = set ps" for qs
    unfolding filter_map o_def using that snd
    by (intro arg_cong [where f = "map fst"] filter_cong) auto
  from this [of "sort_key snd ps"] this [of ps]
  show "filter (\<lambda>i. map_of values i = Some v) out = filter (\<lambda>i. map_of values i = Some v) ids"
    unfolding out fst [symmetric] by (simp add: sort_key_stable [of snd v])
qed

lemma evaluated_karma:
  assumes "map_res (\<lambda>job. res_bind (f job) (\<lambda>k. Inr (job_id job, k))) jobs = Inr karmas"
    and "distinct (map job_id jobs)"
  shows "map fst karmas = map job_id jobs"
    "job \<in> set jobs \<Longrightarrow> \<exists>k. f job = Inr k \<and> map_of karmas (job_id job) = Some k"
proof -
  show keys: "map fst karmas = map job_id jobs"
    using assms(1) by (induction jobs arbitrary: karmas) (auto simp: res_simps)
  have "\<forall>job \<in> set jobs. \<exists>k. f job = Inr k \<and> (job_id job, k) \<in> set karmas"
    using assms(1) by (induction jobs arbitrary: karmas) (fastforce simp: res_simps)+
  thus "job \<in> set jobs \<Longrightarrow> \<exists>k. f job = Inr k \<and> map_of karmas (job_id job) = Some k"
    using keys assms(2) by (metis map_of_is_SomeI)
qed

section \<open>Properties\<close>

text \<open>In a list sorted by \<open>k\<close> the smaller key comes first.\<close>

lemma sorted_key_first:
  assumes "sorted (map k out)" "k x < k y" "i < length out" "j < length out" "out ! i = x" "out ! j = y"
  shows "i < j"
  using sorted_nth_mono [OF assms(1), of j i] assms(2-) by (auto simp: not_less [symmetric] leD)

text \<open>
  C30. The fair sharing. When the totals are positive and the coefficients are not negative, the order of
  \<open>karma_jobs_sorting\<close> is a stable permutation of the waiting jobs by ascending karma; every job carries
  its karma; and of two jobs of the same project, the one whose user has used and asked for less has no
  larger karma, which is all that rounded numbers give. With exact numbers, if moreover the user has used or asked strictly
  less where the coefficient is positive, its job comes strictly first.
\<close>

theorem karma_jobs_sorting_fair:
  assumes "float_laws F" and "conf_ok F conf totals"
    and "read_karma_conf F w = Inr conf" and "db_config_int w ''SCHEDULER_FAIRSHARING_WINDOW_SIZE'' = Some window_size"
    and "totals = read_karma_sums F queues now window_size w"
    and "distinct (map job_id jobs)"
    and "karma_jobs_sorting F queues now jids jobs w = Inr (out, jobs')"
  shows "\<exists>k. mset out = mset jids \<and> sorted (map k out) \<and>
    (\<forall>v. filter (\<lambda>i. k i = v) out = filter (\<lambda>i. k i = v) jids) \<and>
    jobs' = map (\<lambda>job. job\<lparr>karma := Some (fl_string F (k (job_id job)))\<rparr>) jobs \<and>
    (\<forall>a \<in> set jobs. \<forall>b \<in> set jobs. uses_less F totals a b \<longrightarrow> k (job_id a) \<le> k (job_id b)) \<and>
    (exact_laws F \<longrightarrow> (\<forall>a \<in> set jobs. \<forall>b \<in> set jobs. uses_strictly_less F conf totals a b \<longrightarrow>
       k (job_id a) < k (job_id b) \<and>
       (\<forall>i < length out. \<forall>j < length out. out ! i = job_id a \<and> out ! j = job_id b \<longrightarrow> i < j)))"
proof -
  from assms(3-5,7) obtain karmas where
    e: "map_res (\<lambda>job. res_bind (job_karma F conf totals job) (\<lambda>k. Inr (job_id job, k))) jobs = Inr karmas"
    and s: "sorted_by karmas jids = Inr out" and jobs': "jobs' = set_karma F karmas jobs"
    by (auto simp: karma_jobs_sorting_def evaluate_jobs_karma_def res_simps)
  let ?k = "\<lambda>i. the (map_of karmas i)"
  note ev = evaluated_karma(2) [OF e assms(6)]
  note dom = sorted_by_stable(4) [OF s] and sorted = sorted_by_stable(2) [OF s]
  have stable: "filter (\<lambda>i. ?k i = v) out = filter (\<lambda>i. ?k i = v) jids" for v
  proof -
    have "filter (\<lambda>i. ?k i = v) xs = filter (\<lambda>i. map_of karmas i = Some v) xs" if "set xs \<subseteq> set jids" for xs
      using that dom by (intro filter_cong) auto
    from this [of out] this [of jids] show ?thesis
      using sorted_by_stable(3) [OF s] sorted_by_stable(1) [OF s] by (metis mset_eq_setD order_refl)
  qed
  have le: "?k (job_id a) \<le> ?k (job_id b)"
    if "a \<in> set jobs" "b \<in> set jobs" "uses_less F totals a b" for a b
    using ev [OF that(1)] ev [OF that(2)] job_karma_mono [OF assms(1,2) that(3)] by fastforce
  have less: "?k (job_id a) < ?k (job_id b)"
    if "exact_laws F" "a \<in> set jobs" "b \<in> set jobs" "uses_strictly_less F conf totals a b" for a b
    using ev [OF that(2)] ev [OF that(3)] job_karma_strict [OF that(1) assms(2) that(4)] by fastforce
  show ?thesis
  proof (intro exI conjI impI ballI allI)
    show "jobs' = map (\<lambda>job. job\<lparr>karma := Some (fl_string F (?k (job_id job)))\<rparr>) jobs"
      unfolding jobs' set_karma_def using ev by (intro map_cong) fastforce+
    show "i < j" if "exact_laws F" "a \<in> set jobs" "b \<in> set jobs" "uses_strictly_less F conf totals a b"
      "i < length out" "j < length out" "out ! i = job_id a \<and> out ! j = job_id b" for a b i j
      using sorted_key_first [OF sorted less [OF that(1-4)] that(5,6)] that(7) by blast
    show "mset out = mset jids" by (rule sorted_by_stable(1) [OF s])
    show "sorted (map ?k out)" by (rule sorted)
    show "filter (\<lambda>i. ?k i = v) out = filter (\<lambda>i. ?k i = v) jids" for v by (rule stable)
  qed (erule le less; assumption)+
qed

definition karma_db :: db where
  "karma_db = empty_db\<lparr>
     db_config := [''SCHEDULER_FAIRSHARING_PROJECT_TARGETS'' \<mapsto> ''{ p => 50 }'',
       ''SCHEDULER_FAIRSHARING_USER_TARGETS'' \<mapsto> ''{default => 22}'',
       ''SCHEDULER_FAIRSHARING_COEF_PROJECT'' \<mapsto> ''0'', ''SCHEDULER_FAIRSHARING_COEF_USER'' \<mapsto> ''1'',
       ''SCHEDULER_FAIRSHARING_COEF_USER_ASK'' \<mapsto> ''1''],
     db_config_int := [''SCHEDULER_FAIRSHARING_WINDOW_SIZE'' \<mapsto> 1000],
     t_accounting := [
       \<lparr>ac_start = 0, ac_stop = 99, ac_user = ''a'', ac_project = ''p'', ac_queue = ''q'', ac_type = ''USED'',
        ac_consumption = 30\<rparr>,
       \<lparr>ac_start = 0, ac_stop = 99, ac_user = ''a'', ac_project = ''p'', ac_queue = ''q'', ac_type = ''ASKED'',
        ac_consumption = 40\<rparr>,
       \<lparr>ac_start = 0, ac_stop = 99, ac_user = ''b'', ac_project = ''p'', ac_queue = ''q'', ac_type = ''USED'',
        ac_consumption = 10\<rparr>]\<rparr>"

definition karma_job :: "int \<Rightarrow> string \<Rightarrow> nat list job" where
  "karma_job i user = (job_pseudo i 0 0 [] False No_placeholder)\<lparr>job_user := user, project := ''p''\<rparr>"

definition karma_conf_of :: "rat karma_conf" where
  "karma_conf_of = \<lparr>proj_targets = [(''p'', ''50'')], user_targets = [(''default'', ''22'')], coeff_proj = 0,
     coeff_user = 1, coeff_user_asked = 1\<rparr>"

theorem karma_jobs_sorting_fair_witness:
  "\<exists>jobs'. karma_jobs_sorting rat_floats [''q''] 500 [1, 2] [karma_job 1 ''a'', karma_job 2 ''b''] karma_db =
     Inr ([2, 1], jobs') \<and> length jobs' = 2"
proof -
  let ?jobs = "[karma_job 1 ''a'', karma_job 2 ''b'']"
  let ?totals = "read_karma_sums rat_floats [''q''] 500 1000 karma_db"
  have conf: "read_karma_conf rat_floats karma_db = Inr karma_conf_of" by code_simp
  have size: "db_config_int karma_db ''SCHEDULER_FAIRSHARING_WINDOW_SIZE'' = Some 1000"
    by (simp add: karma_db_def)
  have ok: "conf_ok rat_floats karma_conf_of ?totals" by code_simp
  have sums: "users_used ?totals ''a'' = Some 30" "users_used ?totals ''b'' = Some 10"
    "users_asked ?totals ''a'' = Some 40" "users_asked ?totals ''b'' = None" by code_simp+
  hence less: "uses_strictly_less rat_floats karma_conf_of ?totals (karma_job 2 ''b'') (karma_job 1 ''a'')"
    by (simp add: uses_strictly_less_def uses_less_def karma_job_def job_pseudo_def karma_conf_of_def or_zero_def
        rat_floats_def)
  have ids: "job_id (karma_job 1 ''a'') = 1" "job_id (karma_job 2 ''b'') = 2"
    by (simp_all add: karma_job_def job_pseudo_def)
  hence dist: "distinct (map job_id ?jobs)" by simp
  have "case karma_jobs_sorting rat_floats [''q''] 500 [1, 2] ?jobs karma_db of Inl e \<Rightarrow> False | Inr x \<Rightarrow> True"
    by code_simp
  then obtain out jobs' where r:
    "karma_jobs_sorting rat_floats [''q''] 500 [1, 2] ?jobs karma_db = Inr (out, jobs')"
    by (auto split: sum.splits)
  note fair = karma_jobs_sorting_fair [OF rat_laws.float_laws_axioms ok conf size refl dist r]
  from fair have m: "mset out = mset [1, 2]" by (elim exE conjE)
  from fair have l: "length jobs' = 2" by (elim exE conjE) simp
  from fair have first: "\<forall>i < length out. \<forall>j < length out. out ! i = 2 \<and> out ! j = 1 \<longrightarrow> i < j"
  proof (elim exE conjE)
    fix k assume strict: "exact_laws rat_floats \<longrightarrow> (\<forall>a \<in> set ?jobs. \<forall>b \<in> set ?jobs.
       uses_strictly_less rat_floats karma_conf_of ?totals a b \<longrightarrow> k (job_id a) < k (job_id b) \<and>
       (\<forall>i < length out. \<forall>j < length out. out ! i = job_id a \<and> out ! j = job_id b \<longrightarrow> i < j))"
    show ?thesis
      using mp [OF bspec [OF bspec [OF mp [OF strict rat_exact.exact_laws_axioms]]] less] unfolding ids by simp
  qed
  have len: "length out = 2" using mset_eq_length [OF m] by simp
  then obtain x y where xy: "out = [x, y]" by (auto simp: length_Suc_conv numeral_2_eq_2)
  have "\<not> (x = 1 \<and> y = 2)" using first [rule_format, of 1 0] by (auto simp: xy)
  hence "out = [2, 1]" using m by (auto simp: xy add_eq_conv_ex)
  thus ?thesis using r l by blast
qed

text \<open>
  Two mistakes of the policies: the target of a user is a text that is divided, and a job without a
  priority takes the one of the job before it, or raises when it is the first.
\<close>

lemma karma_user_target_raises:
  "\<lbrakk>map_of (user_targets conf) (job_user job) \<noteq> None; map_of (proj_targets conf) (project job) = None\<rbrakk>
   \<Longrightarrow> job_karma F conf totals job = Inl TypeError"
  by (auto simp: job_karma_def)

lemma simple_priority_leaks:
  assumes "map_of (types job) ''priority'' = None"
  shows "simple_priority F wt now job (None, ps) = Inl UnboundLocalError"
    "simple_priority F wt now job (Some p, ps) = Inr st \<Longrightarrow> fst st = Some p"
  using assms by (auto simp: simple_priority_def res_simps)

end
