(* ===== verification/Kamelot.thy ===== *)
theory Kamelot
  imports Scheduling_Props Gantt Job_Sorting
begin

text \<open>
  \<open>oar/kao/kamelot.py\<close>: one round of the scheduler of the queues. It loads the resources, the waiting
  jobs with their requests and the jobs placed before, builds the slots, orders the jobs, places them
  and stores the places. The functions it composes are those of \<open>Resource_Set\<close>, \<open>Gantt\<close>,
  \<open>Job_Sorting\<close>, \<open>Slots\<close> and \<open>Scheduling\<close>.

  \<open>E\<close> is the state of the quotas (\<open>main\<close> enables them before), \<open>fuel\<close> bounds the traversals of the
  slots. The record \<open>site\<close> gathers what the code takes from elsewhere: the functions of
  \<open>custom_scheduling\<close>, the SQL texts of the configuration and of the jobs, the numbers.
\<close>

section \<open>The round\<close>

record ('p, 'f) site =
  site_lib :: "'p custom_lib"
  site_assign :: "'p assigner"
  site_sql :: "string \<Rightarrow> resource_row \<Rightarrow> bool"
  site_order :: "resource_row list \<Rightarrow> resource_row list"
  site_show :: "'p hy_res_rqt list \<Rightarrow> string"
  site_policies :: "'f policies"

text \<open>The resources that go away at a date, as jobs that begin then.\<close>

definition pseudo_jobs :: "'p resource_set \<Rightarrow> 'p job list" where
  "pseudo_jobs rs = map (\<lambda>(t, itvs). job_pseudo 0 t (MAX_TIME - t) itvs False No_placeholder)
     (sort_key fst (rs_available_upto rs))"

text \<open>\<open>schedule_id_jobs_ct\<close> on the dictionary of the jobs, then \<open>save_assigns\<close>.\<close>

definition schedule_and_save ::
    "'p procset_ops \<Rightarrow> nat \<Rightarrow> ('p, 'f) site \<Rightarrow> 'p sched_env \<Rightarrow> 'p slots_sets \<Rightarrow> 'p job list \<Rightarrow> int list \<Rightarrow> int \<Rightarrow>
     'p resource_set \<Rightarrow> db \<Rightarrow> ('p sched_env \<times> 'p slots_sets \<times> db) res" where
  "schedule_and_save P fuel X E sss jobs jids security rs w =
     res_bind (schedule_id_jobs_ct P fuel (site_assign X) E sss (map_of (map (\<lambda>job. (job_id job, job)) jobs))
         (map_of (rs_hierarchy rs)) jids security) (\<lambda>(E', sss', jobs').
     res_bind (save_assigns P (map (\<lambda>job. the (jobs' (job_id job))) jobs) rs w) (\<lambda>w'.
       Inr (E', sss', w')))"

definition load_jobs ::
    "'p procset_ops \<Rightarrow> ('p, 'f::linorder) site \<Rightarrow> string list \<Rightarrow> int \<Rightarrow> int \<Rightarrow> 'p resource_set \<Rightarrow>
     job_row list \<Rightarrow> db \<Rightarrow> (int list \<times> 'p job list) res" where
  "load_jobs P X queues now security rs rows w =
     res_bind (get_data_jobs P (site_lib X) (site_sql X) (site_show X) (map job_of_row rows) rs security 0 w)
       (\<lambda>jobs. jobs_sorting (site_policies X) queues now (map j_id rows) jobs w)"

text \<open>The round inside the metascheduler, on slots that are built already.\<close>

definition internal_schedule_cycle ::
    "'p procset_ops \<Rightarrow> nat \<Rightarrow> ('p, 'f::linorder) site \<Rightarrow> 'p sched_env \<Rightarrow> int \<Rightarrow> 'p slots_sets \<Rightarrow> int \<Rightarrow>
     string list \<Rightarrow> db \<Rightarrow> ('p sched_env \<times> 'p slots_sets \<times> db) res" where
  "internal_schedule_cycle P fuel X E now all_slot_sets security queues w =
     res_bind (resource_set_of P (site_order X) w) (\<lambda>rs.
     let rows = get_waiting_jobs queues ''None'' w in
     if rows \<noteq> [] then
       res_bind (load_jobs P X queues now security rs rows w) (\<lambda>(jids, jobs).
         schedule_and_save P fuel X E all_slot_sets jobs jids security rs w)
     else Inr (E, all_slot_sets, w))"

text \<open>The slots at the beginning: all usable resources until \<open>MAX_TIME\<close>, less those that go away.\<close>

definition initial_slot_set ::
    "'p procset_ops \<Rightarrow> nat \<Rightarrow> 'p sched_env \<Rightarrow> 'p resource_set \<Rightarrow> int \<Rightarrow> ('p sched_env \<times> 'p slot_set) res" where
  "initial_slot_set P fuel E rs now =
     res_bind (slot_set_of_itvs fuel E (rs_roid_itvs rs) now) (\<lambda>(E', ss).
     if pseudo_jobs rs \<noteq> [] then
       res_bind (split_slots_jobs P E' ss (pseudo_jobs rs) True) (\<lambda>ss'. Inr (E', ss'))
     else Inr (E', ss))"

definition schedule_cycle ::
    "'p procset_ops \<Rightarrow> nat \<Rightarrow> ('p, 'f::linorder) site \<Rightarrow> 'p sched_env \<Rightarrow> int \<Rightarrow> string list \<Rightarrow> db \<Rightarrow> db res" where
  "schedule_cycle P fuel X E now queues w =
     (let rows = get_waiting_jobs queues ''None'' w in
      if rows \<noteq> [] then
        res_bind (res_bind (lookup_res (db_config w) ''SCHEDULER_JOB_SECURITY_TIME'') py_int) (\<lambda>security.
        res_bind (resource_set_of P (site_order X) w) (\<lambda>rs.
        res_bind (initial_slot_set P fuel E rs now) (\<lambda>(E1, ss).
        res_bind (load_jobs P X queues now security rs rows w) (\<lambda>(jids, jobs).
        res_bind (get_scheduled_jobs P (site_lib X) rs security now w) (\<lambda>scheduled_jobs.
        res_bind (if scheduled_jobs \<noteq> [] then
              set_slots_with_prev_scheduled_jobs P fuel E1 [(''default'', ss)] scheduled_jobs security now
                (queues \<noteq> [''besteffort'']) False
            else Inr (E1, [(''default'', ss)])) (\<lambda>(E2, sss).
        res_bind (schedule_and_save P fuel X E2 sss jobs jids security rs w) (\<lambda>(E3, sss', w').
          Inr w')))))))
      else Inr w)"

section \<open>Examples\<close>

definition example_site :: "(nat list, rat) site" where
  "example_site = \<lparr>site_lib = \<lparr>lib_assign = \<lambda>n a k. None, lib_find = \<lambda>n a k. None\<rparr>,
     site_assign = (\<lambda>E ss job hy t. Inl NotImplementedError), site_sql = (\<lambda>t r. True),
     site_order = sort_key r_id, site_show = (\<lambda>rqts. ''''),
     site_policies = \<lparr>floats = rat_floats, yaml_conf = (\<lambda>f. Inr None), json_conf = (\<lambda>t. Inr Map.empty)\<rparr>\<rparr>"

section \<open>Lemmas\<close>

lemma initial_slot_set_ok:
  assumes "procset P" and "calendar_of E = None" and "now \<le> MAX_TIME"
    and "length (rs_available_upto rs) \<le> 1" and "\<forall>(t, itvs) \<in> set (rs_available_upto rs). t \<le> MAX_TIME"
  shows "\<exists>ss ids. initial_slot_set P fuel E rs now = Inr (E, ss) \<and> slot_set_ok E ss ids now MAX_TIME \<and>
    cache ss = [] \<and> last_id ss \<le> 3 \<and>
    (\<forall>t. free_at P (slots_at (slots ss) ids) t =
       (if now \<le> t \<and> t \<le> MAX_TIME then elems P (rs_roid_itvs rs) - taken_by P (pseudo_jobs rs) t else {}))"
proof -
  define s1 where "s1 = new_slot E 1 0 0 (rs_roid_itvs rs) now MAX_TIME Map.empty Map.empty"
  define ss where "ss = \<lparr>slots = [1 \<mapsto> s1], last_id = 1, ss_begin = now, cache = []\<rparr>"
  have start: "slot_set_of_itvs fuel E (rs_roid_itvs rs) now = Inr (E, ss)"
    using assms(2) by (simp add: slot_set_of_itvs_def apply_calendar_def ss_def s1_def)
  have ok: "slot_set_ok E ss [1] now MAX_TIME"
    using assms(2,3) by (simp add: slot_set_ok_def chain_def ss_def s1_def new_slot_def slot_ready_def)
  have free: "free_at P (slots_at (slots ss) [1]) t =
      (if now \<le> t \<and> t \<le> MAX_TIME then elems P (rs_roid_itvs rs) else {})" for t
    by (simp add: free_at_def ss_def s1_def new_slot_def)
  have one: "length (pseudo_jobs rs) \<le> 1" using assms(4) by (simp add: pseudo_jobs_def)
  have pseudo: "\<forall>j \<in> set (pseudo_jobs rs). is_placed j \<and> job_end j = MAX_TIME"
    using assms(5) by (auto simp: pseudo_jobs_def is_placed_def job_ready_def job_end_def job_pseudo_def)
  have seq: "in_sequence MAX_TIME (pseudo_jobs rs)"
    using one pseudo by (cases "pseudo_jobs rs") auto
  have ends: "\<forall>j \<in> set (pseudo_jobs rs). now \<le> job_end j" using pseudo assms(3) by simp
  from procset.split_slots_jobs_spec [OF assms(1) ok seq ends] obtain ss' ids where
    split: "split_slots_jobs P E ss (pseudo_jobs rs) True = Inr ss'" "slot_set_ok E ss' ids now MAX_TIME"
      "last_id ss' \<le> 3 ^ length (pseudo_jobs rs) * last_id ss" "cache ss' = cache ss"
    and free': "\<forall>t. free_at P (slots_at (slots ss') ids) t =
        free_at P (slots_at (slots ss) [1]) t - taken_by P (pseudo_jobs rs) t" by blast
  have "(3::nat) ^ length (pseudo_jobs rs) \<le> 3 ^ 1" using one by (intro power_increasing) auto
  hence "last_id ss' \<le> 3" using split(3) by (simp add: ss_def)
  show ?thesis
  proof (cases "pseudo_jobs rs = []")
    case True
    hence "initial_slot_set P fuel E rs now = Inr (E, ss)" using start by (simp add: initial_slot_set_def)
    with True ok free show ?thesis
      by (intro exI [of _ ss] exI [of _ "[1]"]) (simp add: ss_def taken_by_def)
  next
    case False
    hence "initial_slot_set P fuel E rs now = Inr (E, ss')"
      using start split(1) by (simp add: initial_slot_set_def)
    with split(2,4) \<open>last_id ss' \<le> 3\<close> free free' show ?thesis
      by (intro exI [of _ ss'] exI [of _ ids]) (simp add: ss_def)
  qed
qed

lemma save_assigns_rows:
  assumes "jobs \<noteq> []" and "\<forall>job \<in> set jobs. start_time job > - 1 \<longrightarrow>
      (\<exists>r. res_set job = Some r \<and> (\<forall>n \<in> elems P r. int n < MAX_NB_RESOURCES))"
  shows "\<exists>w'. save_assigns P jobs rs w = Inr w' \<and>
    t_predictions w' = t_predictions w @ insert_rows \<lparr>p_mld = 0, p_start = 0\<rparr>
      (map (\<lambda>job. \<lparr>p_mld = moldable_id job, p_start = start_time job\<rparr>) (filter (\<lambda>job. start_time job > - 1) jobs)) \<and>
    t_gantt w' = t_gantt w @ insert_rows \<lparr>g_mld = 0, g_res = 0\<rparr>
      (concat (map (stored_rows P rs) (filter (\<lambda>job. start_time job > - 1) jobs)))"
proof -
  let ?placed = "filter (\<lambda>job. start_time job > - 1) jobs"
  have "map_res (job_gantt_rows P rs) ?placed = Inr (map (stored_rows P rs) ?placed)"
    using assms(2) gantt_rows_stored by (intro map_res_all) fastforce
  thus ?thesis using assms(1) by (simp add: save_assigns_def Let_def flush_start_times_def)
qed

section \<open>Properties\<close>

text \<open>Two placed jobs that run at the same instant never hold the same resource in the gantt tables.\<close>

definition conflict_free :: "'p procset_ops \<Rightarrow> 'p resource_set \<Rightarrow> 'p job list \<Rightarrow> bool" where
  "conflict_free P rs jobs \<longleftrightarrow> (\<forall>a \<in> set jobs. \<forall>b \<in> set jobs. \<forall>t. job_id a \<noteq> job_id b \<longrightarrow>
     start_time a \<le> t \<and> t < job_end a \<and> start_time b \<le> t \<and> t < job_end b \<longrightarrow>
     g_res ` set (stored_rows P rs a) \<inter> g_res ` set (stored_rows P rs b) = {})"

text \<open>
  C2. A whole round of Kamelot. On empty gantt tables, without calendar, for resources that all go away at
  the same date at most, and jobs that neither share nor contain nor depend: the round returns; the gantt
  tables then hold exactly the places of the jobs that found one, each from now on and for one of the
  alternatives that was loaded for it; at no instant do two jobs hold the same resource, and no job holds
  a resource that is not usable or that has gone away.
\<close>

theorem schedule_cycle_no_conflict:
  assumes P: "procset P" and E: "calendar_of E = None" and now: "now \<le> MAX_TIME"
    and rows: "rows_ok (site_order X (t_resources w))" and labels: "distinct (hy_labels w)"
    and rs: "resource_set_of P (site_order X) w = Inr rs"
    and upto: "length (rs_available_upto rs) \<le> 1" "\<forall>(t, itvs) \<in> set (rs_available_upto rs). t \<le> MAX_TIME"
    and empty: "t_predictions w = []" "t_gantt w = []"
    and security: "db_config w ''SCHEDULER_JOB_SECURITY_TIME'' = Some text" "py_int text = Inr security"
    and load: "load_jobs P X queues now security rs (get_waiting_jobs queues ''None'' w) w = Inr (jids, jobs)"
    and dist: "distinct jids" "distinct (map job_id jobs)" "set jids = set (map job_id jobs)" "jobs \<noteq> []"
      "get_waiting_jobs queues ''None'' w \<noteq> []"
    and simple: "\<forall>job \<in> set jobs. simple_job P E (map_of (rs_hierarchy rs)) job"
    and fuel: "2 * (3 ^ length jids * 3) + 2 \<le> fuel"
  shows "\<exists>w' placed. schedule_cycle P fuel X E now queues w = Inr w' \<and>
    t_predictions w' = insert_rows \<lparr>p_mld = 0, p_start = 0\<rparr>
      (map (\<lambda>job. \<lparr>p_mld = moldable_id job, p_start = start_time job\<rparr>) placed) \<and>
    t_gantt w' = insert_rows \<lparr>g_mld = 0, g_res = 0\<rparr> (concat (map (stored_rows P rs) placed)) \<and>
    (\<forall>job \<in> set placed. now \<le> start_time job \<and>
       (\<exists>j \<in> set jobs. \<exists>wt rqts. job_id j = job_id job \<and> walltime job = Some wt \<and>
          (moldable_id job, wt, rqts) \<in> set (mld_res_rqts j))) \<and>
    conflict_free P rs placed \<and>
    (\<forall>job \<in> set placed. \<forall>t. occupies P job t \<subseteq>
       usable_at (site_order X (t_resources w)) - taken_by P (pseudo_jobs rs) t)"
proof -
  let ?rows = "site_order X (t_resources w)" and ?hy = "map_of (rs_hierarchy rs)"
  let ?jobs = "map_of (map (\<lambda>job. (job_id job, job)) jobs)"
  from initial_slot_set_ok [OF P E now upto] obtain ss ids where
    init: "initial_slot_set P fuel E rs now = Inr (E, ss)" "slot_set_ok E ss ids now MAX_TIME"
      "cache ss = []" "last_id ss \<le> 3"
    and free: "\<forall>t. free_at P (slots_at (slots ss) ids) t =
       (if now \<le> t \<and> t \<le> MAX_TIME then elems P (rs_roid_itvs rs) - taken_by P (pseudo_jobs rs) t else {})"
    by blast
  have job_of: "?jobs (job_id job) = Some job" if "job \<in> set jobs" for job
    using that dist(2) by (simp add: o_def)
  have known: "\<forall>i \<in> set jids. \<exists>job. ?jobs i = Some job \<and> simple_job P E ?hy job"
    using simple job_of dist(3) by auto
  have "2 * (3 ^ length jids * last_id ss) + 2 \<le> fuel"
    using fuel mult_le_mono2 [OF init(4), of "3 ^ length jids"] by linarith
  from procset.schedule_simple_jobs [OF P init(2) _ _ dist(1) known this, of "site_assign X" security] init(3)
  obtain ss' jobs' where
    run: "fold_res (schedule_job P fuel (site_assign X) ?hy security) jids (E, [(''default'', ss)], ?jobs) =
        Inr (E, [(''default'', ss')], jobs')"
    and chosen: "\<forall>i \<in> set jids. \<exists>job'. jobs' i = Some job' \<and> chosen P now (the (?jobs i)) job'"
    and inside: "\<forall>i \<in> set jids. \<forall>t. occupies P (the (jobs' i)) t \<subseteq> free_at P (slots_at (slots ss) ids) t"
    and apart: "\<forall>i \<in> set jids. \<forall>j \<in> set jids. i \<noteq> j \<longrightarrow>
        (\<forall>t. occupies P (the (jobs' i)) t \<inter> occupies P (the (jobs' j)) t = {})"
    by (auto simp: MAX_TIME_def cache_ok_def)
  let ?done = "map (\<lambda>job. the (jobs' (job_id job))) jobs"
  let ?placed = "filter (\<lambda>job. start_time job > - 1) ?done"
  have placed: "\<exists>j \<in> set jobs. job = the (jobs' (job_id job)) \<and> job_id job = job_id j \<and> job_id job \<in> set jids \<and>
      (\<exists>wt r rqts. (moldable_id job, wt, rqts) \<in> set (mld_res_rqts j) \<and> walltime job = Some wt \<and> 1 \<le> wt \<and>
         res_set job = Some r \<and> elems P r \<noteq> {} \<and> now \<le> start_time job)"
    if "job \<in> set ?placed" for job
  proof -
    from that obtain j where j: "j \<in> set jobs" "job = the (jobs' (job_id j))" "start_time job > - 1" by auto
    with chosen dist(3) job_of have "chosen P now j job" by fastforce
    with j dist(3) show ?thesis by (intro bexI [of _ j]) (auto simp: chosen_def)
  qed
  note numbered = resource_set_numbered [of P "site_order X" w, OF P rows labels]
  have subset: "occupies P job t \<subseteq> usable_at ?rows - taken_by P (pseudo_jobs rs) t" if "job \<in> set ?placed" for job t
  proof -
    from placed [OF that] have "occupies P job t \<subseteq> free_at P (slots_at (slots ss) ids) t" using inside by metis
    moreover have "elems P (rs_roid_itvs rs) = usable_at ?rows"
      using numbered rs by auto
    ultimately show ?thesis using free by (auto split: if_splits)
  qed
  have held: "res_set job = Some r \<Longrightarrow> elems P r \<subseteq> usable_at ?rows" if "job \<in> set ?placed" for job r
    using placed [OF that] subset [OF that, of "start_time job"] by (auto simp: occupies_def job_end_def)
  have "\<forall>job \<in> set ?done. start_time job > - 1 \<longrightarrow>
      (\<exists>r. res_set job = Some r \<and> (\<forall>n \<in> elems P r. int n < MAX_NB_RESOURCES))"
  proof (intro ballI impI)
    fix job assume "job \<in> set ?done" "start_time job > - 1"
    hence "job \<in> set ?placed" by simp
    with placed obtain r where "res_set job = Some r" by blast
    with held \<open>job \<in> set ?placed\<close> usable_at_less rows show
      "\<exists>r. res_set job = Some r \<and> (\<forall>n \<in> elems P r. int n < MAX_NB_RESOURCES)"
      by (fastforce simp: rows_ok_def)
  qed
  from save_assigns_rows [OF _ this, of rs w] dist(4) obtain w' where
    saved: "save_assigns P ?done rs w = Inr w'"
      "t_predictions w' = insert_rows \<lparr>p_mld = 0, p_start = 0\<rparr>
        (map (\<lambda>job. \<lparr>p_mld = moldable_id job, p_start = start_time job\<rparr>) ?placed)"
      "t_gantt w' = insert_rows \<lparr>g_mld = 0, g_res = 0\<rparr> (concat (map (stored_rows P rs) ?placed))"
    unfolding empty by auto
  have "gantt_lines Q w = []" for Q by (simp add: gantt_lines_def empty)
  hence none: "get_scheduled_jobs P (site_lib X) rs security now w = Inr []"
    by (simp add: get_scheduled_jobs_def extract_scheduled_jobs_def)
  have cycle: "schedule_cycle P fuel X E now queues w = Inr w'"
    using dist(5) security rs init(1) load none run saved(1)
    by (simp add: schedule_cycle_def schedule_and_save_def schedule_id_jobs_ct_def)
  have "g_res ` set (stored_rows P rs a) \<inter> g_res ` set (stored_rows P rs b) = {}"
    if "a \<in> set ?placed" "b \<in> set ?placed" "job_id a \<noteq> job_id b"
      "start_time a \<le> t" "t < job_end a" "start_time b \<le> t" "t < job_end b" for a b t
  proof -
    from placed [OF that(1)] placed [OF that(2)] apart that(3)
    have "occupies P a t \<inter> occupies P b t = {}" by metis
    moreover from placed [OF that(1)] obtain ra where ra: "res_set a = Some ra" by blast
    moreover from placed [OF that(2)] obtain rb where rb: "res_set b = Some rb" by blast
    ultimately have apart: "elems P ra \<inter> elems P rb = {}" using that by (simp add: occupies_def)
    have again: "array_get (rs_i2o rs) (rs_o2i rs (int n)) = Inr (int n)" if "n \<in> usable_at ?rows" for n
    proof -
      from numbered rs that
      have "array_get (rs_i2o rs) (r_id (?rows ! n)) = Inr (int n)"
        "array_get (rs_o2i rs) (int n) = Inr (r_id (?rows ! n))" by auto
      thus ?thesis using usable_at_less [OF that] rows by (simp add: array_get_in rows_ok_def)
    qed
    have "x \<noteq> y" if "x \<in> elems P ra" "y \<in> elems P rb" for x y using apart that by blast
    hence "rs_o2i rs (int x) \<noteq> rs_o2i rs (int y)" if "x \<in> elems P ra" "y \<in> elems P rb" for x y
      using that again held [OF \<open>a \<in> set ?placed\<close> ra] held [OF \<open>b \<in> set ?placed\<close> rb] by (metis Inr_inject of_nat_eq_iff subsetD)
    thus ?thesis using ra rb by (auto simp: stored_rows_def)
  qed
  hence "conflict_free P rs ?placed" unfolding conflict_free_def by blast
  moreover have "\<forall>job \<in> set ?placed. now \<le> start_time job \<and>
       (\<exists>j \<in> set jobs. \<exists>wt rqts. job_id j = job_id job \<and> walltime job = Some wt \<and>
          (moldable_id job, wt, rqts) \<in> set (mld_res_rqts j))"
    using placed by metis
  moreover have "\<forall>job \<in> set ?placed. \<forall>t. occupies P job t \<subseteq> usable_at ?rows - taken_by P (pseudo_jobs rs) t"
    using subset by blast
  ultimately show ?thesis using cycle saved(2,3)
    by (intro exI [of _ w'] exI [of _ ?placed] conjI)
qed

text \<open>Two resources that stay, and a job that asks for both during 140 seconds.\<close>

definition round_db :: "int \<Rightarrow> int \<Rightarrow> db" where
  "round_db upto1 upto2 = empty_db\<lparr>
     db_config := [''SCHEDULER_JOB_SECURITY_TIME'' \<mapsto> ''60'', ''JOB_PRIORITY'' \<mapsto> ''FIFO''],
     t_resources := [default_resource\<lparr>r_id := 1, r_network_address := ''n1'', r_available_upto := upto1\<rparr>,
       default_resource\<lparr>r_id := 2, r_network_address := ''n2'', r_available_upto := upto2\<rparr>],
     t_jobs := [example_job_row\<lparr>j_state := ''Waiting'', j_start_time := 0, j_queue_name := ''default'',
        j_reservation := ''None'', j_properties := Some ''''\<rparr>],
     t_moldables := [\<lparr>m_id = 7, m_job = 1, m_walltime = 140, m_index = ''CURRENT''\<rparr>],
     t_groups := [\<lparr>gr_id = 4, gr_mld = 7, gr_property = Some '''', gr_index = ''CURRENT''\<rparr>],
     t_descrs := [\<lparr>de_group = 4, de_type = ''resource_id'', de_value = 2, de_order = 0, de_index = ''CURRENT''\<rparr>]\<rparr>"

definition plain_fields :: "'p job \<Rightarrow> bool" where
  "plain_fields job \<longleftrightarrow> \<not> ts job \<and> ph job = No_placeholder \<and> Option.is_none (find_func job) \<and> deps job = [] \<and>
     \<not> assign_func job \<and> type_of job ''inner'' = None \<and> type_of job ''container'' = None"

lemma round_db_loaded:
  "case resource_set_of list_procset (site_order example_site) (round_db 500 500) of Inl e \<Rightarrow> False | Inr rs \<Rightarrow>
     length (rs_available_upto rs) \<le> 1 \<and> list_all (\<lambda>(t, itvs). t \<le> MAX_TIME) (rs_available_upto rs) \<and>
     (case load_jobs list_procset example_site [''default''] 20 60 rs
         (get_waiting_jobs [''default''] ''None'' (round_db 500 500)) (round_db 500 500) of
       Inl e \<Rightarrow> False
     | Inr (jids, jobs) \<Rightarrow> jids = [1] \<and> map job_id jobs = [1] \<and> list_all plain_fields jobs \<and>
         map mld_res_rqts jobs = [[(7, 200, [([(''resource_id'', 2)], [0, 1])])]] \<and>
         list_all (\<lambda>job. map fst (key_cache job) = [7]) jobs \<and>
         map_of (rs_hierarchy rs) ''resource_id'' = Some [[0], [1]])"
  by code_simp

lemma plain_fieldsD:
  assumes "plain_fields job" "mld_res_rqts job = [(7, 200, [([(''resource_id'', 2)], [0, 1])])]"
    and "map fst (key_cache job) = [7]" "hy ''resource_id'' = Some [[0], [1]]" "calendar_of E = None"
  shows "simple_job list_procset E hy job"
  using assms
  by (auto simp: simple_job_def plain_job_def plain_fields_def job_request_ok_def rqts_ok_def lookup_res_def
      request_ok_def blocks_ok_def list_procset_def id_list_def Option.is_none_def)

theorem schedule_cycle_no_conflict_witness:
  "\<exists>w' placed rs. resource_set_of list_procset (site_order example_site) (round_db 500 500) = Inr rs \<and>
     schedule_cycle list_procset 20 example_site example_sched 20 [''default''] (round_db 500 500) = Inr w' \<and>
     conflict_free list_procset rs placed"
proof -
  let ?w = "round_db 500 500"
  from round_db_loaded obtain rs jobs where
    rs: "resource_set_of list_procset (site_order example_site) ?w = Inr rs"
    and upto: "length (rs_available_upto rs) \<le> 1" "list_all (\<lambda>(t, itvs). t \<le> MAX_TIME) (rs_available_upto rs)"
    and load: "load_jobs list_procset example_site [''default''] 20 60 rs
         (get_waiting_jobs [''default''] ''None'' ?w) ?w = Inr ([1], jobs)"
    and jobs: "map job_id jobs = [1]" "list_all plain_fields jobs"
      "map mld_res_rqts jobs = [[(7, 200, [([(''resource_id'', 2)], [0, 1])])]]"
      "list_all (\<lambda>job. map fst (key_cache job) = [7]) jobs"
      "map_of (rs_hierarchy rs) ''resource_id'' = Some [[0], [1]]"
    by (auto split: sum.splits)
  have "rows_ok (site_order example_site (t_resources ?w))" "distinct (hy_labels ?w)"
    "t_predictions ?w = []" "t_gantt ?w = []" "get_waiting_jobs [''default''] ''None'' ?w \<noteq> []"
    "db_config ?w ''SCHEDULER_JOB_SECURITY_TIME'' = Some ''60''" "py_int ''60'' = Inr 60"
    by (simp_all add: round_db_def rows_ok_def example_site_def default_resource_def MAX_NB_RESOURCES_def
        hy_labels_def config_or_def empty_db_def get_waiting_jobs_def) code_simp+
  moreover have "\<forall>job \<in> set jobs. simple_job list_procset example_sched (map_of (rs_hierarchy rs)) job"
    using jobs plain_fieldsD by (auto simp: list_all_iff example_sched_def)
  moreover have "jobs \<noteq> []" "(20 :: int) \<le> MAX_TIME" "calendar_of example_sched = None"
    using jobs(1) by (auto simp: MAX_TIME_def example_sched_def)
  ultimately show ?thesis
    using schedule_cycle_no_conflict [OF list_ps.procset_axioms _ _ _ _ rs upto(1) _ _ _ _ _ load, of example_sched "''60''" 20]
      rs upto(2) jobs(1) by (auto simp: list_all_iff)
qed

text \<open>
  Several dates of departure are not kept. When one resource is available up to 100 and the other up to
  500, a job of 140 seconds that needs both is placed at 20 on both of them: it holds the first one until
  160. \<open>split_slots_jobs\<close> inserts the second pseudo job from slot 1 on, as it never moves its left end back.
\<close>

theorem schedule_cycle_ignores_available_upto:
  "\<exists>w'. schedule_cycle list_procset 40 example_site example_sched 20 [''default''] (round_db 100 500) = Inr w' \<and>
     t_predictions w' = [\<lparr>p_mld = 7, p_start = 20\<rparr>] \<and>
     t_gantt w' = [\<lparr>g_mld = 7, g_res = 1\<rparr>, \<lparr>g_mld = 7, g_res = 2\<rparr>] \<and>
     map (\<lambda>r. (r_id r, r_available_upto r)) (t_resources (round_db 100 500)) = [(1, 100), (2, 500)] \<and>
     map m_walltime (t_moldables (round_db 100 500)) = [140]"
proof -
  have "case schedule_cycle list_procset 40 example_site example_sched 20 [''default''] (round_db 100 500) of
     Inl e \<Rightarrow> False | Inr w' \<Rightarrow> t_predictions w' = [\<lparr>p_mld = 7, p_start = 20\<rparr>] \<and>
       t_gantt w' = [\<lparr>g_mld = 7, g_res = 1\<rparr>, \<lparr>g_mld = 7, g_res = 2\<rparr>]"
    by code_simp
  thus ?thesis by (auto simp: round_db_def default_resource_def split: sum.splits)
qed

end
