(* ===== verification/Walltime.thy ===== *)
theory Walltime
  imports Complex_Main Killer
begin

text \<open>
  Changes of the walltime of running jobs: the requests of the users (\<open>oar/lib/walltime.py\<close>) and
  their processing by the metascheduler (\<open>oar/kao/walltime_change.py\<close>, with the queries of
  \<open>oar/lib/job_handling.py\<close> that it uses).

  The options of the configuration are ints, floats or strings; a string is evaluated by Python's
  \<open>eval\<close>, which is the parameter \<open>ev\<close>. Floats are rational numbers. The texts of the answers are the
  constructors of \<open>walltime_message\<close>.
\<close>

section \<open>Options of the configuration\<close>

datatype conf_val =
    Conf_int int
  | Conf_float rat
  | Conf_str string
  | Conf_dict "(string \<times> conf_val) list"

text \<open>\<open>get_conf\<close>; a string that does not evaluate to a dictionary stays the string.\<close>

definition get_conf ::
    "(string \<Rightarrow> conf_val res) \<Rightarrow> conf_val \<Rightarrow> string \<Rightarrow> int option \<Rightarrow> conf_val res" where
  "get_conf ev conf_value queue walltime =
     res_bind
       (case conf_value of
          Conf_str s \<Rightarrow>
            if s \<noteq> '''' then
              res_bind (ev s) (\<lambda>conf_val. case conf_val of
                Conf_dict d \<Rightarrow> Inr
                  (case (if queue \<noteq> '''' then map_of d queue else None) of
                     Some v \<Rightarrow> v
                   | None \<Rightarrow> (case map_of d ''_'' of Some v \<Rightarrow> v | None \<Rightarrow> conf_value))
              | _ \<Rightarrow> Inr conf_value)
            else Inr conf_value
        | _ \<Rightarrow> Inr conf_value)
       (\<lambda>value. Inr (case (walltime, value) of
          (Some wt, Conf_float q) \<Rightarrow>
            if wt \<noteq> 0 \<and> q \<le> 1 then Conf_int (if 0 \<le> of_int wt * q then \<lfloor>of_int wt * q\<rfloor> else \<lceil>of_int wt * q\<rceil>)
            else value
        | _ \<Rightarrow> value))"

text \<open>The value in a comparison or a format of a duration.\<close>

fun number :: "conf_val \<Rightarrow> rat res" where
  "number (Conf_int i) = Inr (of_int i)"
| "number (Conf_float q) = Inr q"
| "number _ = Inl TypeError"

text \<open>\<open>re.compile(r"[,\s]+").split(s)\<close>\<close>

definition list_sep :: "char \<Rightarrow> bool" where
  "list_sep c \<longleftrightarrow> c = CHR '','' \<or> is_space c"

lemma dropWhile_shorter [termination_simp]: "length (dropWhile P xs) < Suc (length xs)"
  by (simp add: less_Suc_eq_le length_dropWhile_le)

fun split_list :: "string \<Rightarrow> string list" where
  "split_list [] = [[]]"
| "split_list (x # xs) =
     (if list_sep x then [] # split_list (dropWhile list_sep xs)
      else (case split_list xs of [] \<Rightarrow> [[x]] | w # ws \<Rightarrow> (x # w) # ws))"

text \<open>The users an option names: all of them, or the listed ones beside \<open>root\<close> and \<open>oar\<close>.\<close>

fun user_allowed :: "conf_val \<Rightarrow> string \<Rightarrow> bool res" where
  "user_allowed (Conf_str s) user =
     Inr (s = ''*'' \<or> user \<in> set ([''root'', ''oar''] @ split_list s))"
| "user_allowed _ user = Inl TypeError"

section \<open>The new walltime\<close>

definition upper_char :: "char \<Rightarrow> char" where
  "upper_char c = (if 97 \<le> (of_char c :: nat) \<and> (of_char c :: nat) \<le> 122
                   then char_of (of_char c - 32 :: nat) else c)"

definition is_yes :: "string \<Rightarrow> bool" where
  "is_yes s \<longleftrightarrow> map upper_char s = ''YES''"

text \<open>
  \<open>^([-+]?)(\d+)(?::(\d+)(?::(\d+))?)?$\<close>, on ASCII digits: the sign and the numbers. The \<open>$\<close> also
  matches before a last newline.
\<close>

definition parse_walltime :: "string \<Rightarrow> (string \<times> string \<times> string \<times> string) option" where
  "parse_walltime s =
     (let t = (if s \<noteq> '''' \<and> last s = CHR 0x0A then butlast s else s);
          (sign, body) = (case t of c # cs \<Rightarrow> if c = CHR ''-'' \<or> c = CHR ''+'' then ([c], cs) else ([], t)
                          | [] \<Rightarrow> ([], []));
          ok = (\<lambda>d. d \<noteq> '''' \<and> list_all is_digit d) in
      case split_on CHR '':'' body of
        [h] \<Rightarrow> if ok h then Some (sign, h, ''0'', ''0'') else None
      | [h, m] \<Rightarrow> if ok h \<and> ok m then Some (sign, h, m, ''0'') else None
      | [h, m, s] \<Rightarrow> if ok h \<and> ok m \<and> ok s then Some (sign, h, m, s) else None
      | _ \<Rightarrow> None)"

section \<open>The table of the requests\<close>

definition get_walltime_change_for_job :: "int \<Rightarrow> db \<Rightarrow> walltime_row option" where
  "get_walltime_change_for_job jid w =
     (case sql_one (filter (\<lambda>c. w_job c = jid) (t_walltimes w)) of Inl e \<Rightarrow> None | Inr c \<Rightarrow> Some c)"

definition add_walltime_change_request :: "int \<Rightarrow> int \<Rightarrow> string \<Rightarrow> string \<Rightarrow> db \<Rightarrow> db" where
  "add_walltime_change_request jid pending force delay_next_jobs w =
     w\<lparr>t_walltimes := t_walltimes w @
        [\<lparr>w_job = jid, w_pending = pending, w_force = force, w_delay = delay_next_jobs,
          w_granted = 0, w_granted_force = 0, w_granted_delay = 0\<rparr>]\<rparr>"

definition update_walltime_change_request ::
    "int \<Rightarrow> int \<Rightarrow> string option \<Rightarrow> string option \<Rightarrow> int option \<Rightarrow> int option \<Rightarrow> int option \<Rightarrow> db \<Rightarrow> db" where
  "update_walltime_change_request jid pending force delay_next_jobs granted granted_with_force
       granted_with_delay_next_jobs w =
     (let text_or_no = (\<lambda>s. case s of Some t \<Rightarrow> if t \<noteq> '''' then t else ''NO'' | None \<Rightarrow> ''NO'');
          number_or_0 = (\<lambda>n. case n of Some i \<Rightarrow> i | None \<Rightarrow> 0) in
      w\<lparr>t_walltimes := sql_update (\<lambda>c. w_job c = jid)
          (\<lambda>c. c\<lparr>w_pending := pending, w_force := text_or_no force, w_delay := text_or_no delay_next_jobs,
                 w_granted := number_or_0 granted, w_granted_force := number_or_0 granted_with_force,
                 w_granted_delay := number_or_0 granted_with_delay_next_jobs\<rparr>)
          (t_walltimes w)\<rparr>)"

section \<open>A request\<close>

datatype walltime_message =
    Functionality_disabled
  | Could_not_find int
  | Belongs_to_another int
  | Not_running int
  | Syntax_error
  | Anonymous_request
  | Force_not_allowed
  | Delay_not_allowed
  | Walltime_too_short rat
  | Container_not_reduced
  | Update_over_maximum rat
  | Request_updated int
  | Request_over_maximum rat
  | Request_accepted int

type_synonym walltime_answer = "int \<times> int \<times> string \<times> walltime_message"

definition forbidden :: "walltime_message \<Rightarrow> walltime_answer" where
  "forbidden msg = (3, 403, ''forbidden'', msg)"

text \<open>The last part of \<open>request\<close>: the maximal increase, and the row of the request.\<close>

definition store_request ::
    "int \<Rightarrow> string \<Rightarrow> rat \<Rightarrow> int \<Rightarrow> bool \<Rightarrow> bool \<Rightarrow> db \<Rightarrow> walltime_answer \<times> db" where
  "store_request jid user max_increase seconds force delay w =
     (let over = (\<lambda>total. max_increase \<noteq> - 1 \<and> of_int total > max_increase \<and> user \<noteq> ''root'' \<and> user \<noteq> ''oar'');
          flag = (\<lambda>b. if b \<and> seconds > 0 then ''YES'' else ''NO'') in
      case get_walltime_change_for_job jid w of
        Some current \<Rightarrow>
          if over (w_granted current + seconds) then (forbidden (Update_over_maximum max_increase), w)
          else ((0, 202, ''accepted'', Request_updated jid),
            notify_almighty ''Walltime''
              (update_walltime_change_request jid seconds (Some (flag force)) (Some (flag delay)) None None None w))
      | None \<Rightarrow>
          if over seconds then (forbidden (Request_over_maximum max_increase), w)
          else ((0, 202, ''accepted'', Request_accepted jid),
            notify_almighty ''Walltime''
              (add_walltime_change_request jid seconds (flag force) (flag delay) w)))"

text \<open>The checks once the new time is read: the walltime is long enough, a container is not reduced.\<close>

definition checked_request ::
    "int \<Rightarrow> string \<Rightarrow> job_row \<Rightarrow> moldable_row \<Rightarrow> rat \<Rightarrow> rat \<Rightarrow> int \<Rightarrow> bool \<Rightarrow> bool \<Rightarrow> db \<Rightarrow> walltime_answer \<times> db" where
  "checked_request jid user job moldable least most seconds force delay w =
     (if of_int (m_walltime moldable) < least then (forbidden (Walltime_too_short least), w)
      else
        let now = get_date w;
            suspended = get_job_suspended_sum_duration jid now w;
            job_types = get_job_types jid w in
        if has_job_type ''container'' job_types \<and> seconds < 0 then (forbidden Container_not_reduced, w)
        else
          let remaining = j_start_time job + m_walltime moldable + suspended - now in
          store_request jid user most (if remaining < - seconds then - remaining else seconds) force delay w)"

text \<open>The options of \<open>request\<close>: the least walltime, the maximal increase, the users that may force or delay.\<close>

definition walltime_options ::
    "(string \<Rightarrow> conf_val res) \<Rightarrow> (string \<Rightarrow> conf_val option) \<Rightarrow> string \<Rightarrow> int \<Rightarrow>
     (rat \<times> rat \<times> conf_val \<times> conf_val) res" where
  "walltime_options ev conf queue walltime =
     (let option = (\<lambda>key walltime. res_bind (lookup_res conf key) (\<lambda>v. get_conf ev v queue walltime)) in
      res_bind (option ''WALLTIME_MAX_INCREASE'' (Some walltime)) (\<lambda>max_increase.
      res_bind (option ''WALLTIME_MIN_FOR_CHANGE'' None) (\<lambda>min_for_change.
      res_bind (option ''WALLTIME_ALLOWED_USERS_TO_FORCE'' None) (\<lambda>users_force.
      res_bind (option ''WALLTIME_ALLOWED_USERS_TO_DELAY_JOBS'' None) (\<lambda>users_delay.
      res_bind (number min_for_change) (\<lambda>least.
      res_bind (number max_increase) (\<lambda>most.
      Inr (least, most, users_force, users_delay))))))))"

text \<open>The new walltime, as a number of seconds to add.\<close>

definition requested_seconds :: "string \<Rightarrow> int \<Rightarrow> int option res" where
  "requested_seconds new_walltime walltime = (case parse_walltime new_walltime of
     None \<Rightarrow> Inr None
   | Some (sign, hours, mn, sec) \<Rightarrow>
       res_bind (hms_to_duration hours mn sec) (\<lambda>duration.
         Inr (Some (if sign = ''-'' then - duration
                    else if sign \<noteq> ''+'' then duration - walltime else duration))))"

text \<open>The part of \<open>request\<close> after the checks on the job.\<close>

definition read_request ::
    "(string \<Rightarrow> conf_val res) \<Rightarrow> (string \<Rightarrow> conf_val option) \<Rightarrow> int \<Rightarrow> string \<Rightarrow> string \<Rightarrow> string \<Rightarrow> string \<Rightarrow>
     job_row \<Rightarrow> moldable_row \<Rightarrow> db \<Rightarrow> (walltime_answer \<times> db) res" where
  "read_request ev conf jid user new_walltime force delay_next_jobs job moldable w =
     res_bind (walltime_options ev conf (j_queue_name job) (m_walltime moldable))
       (\<lambda>(least, most, users_force, users_delay).
     res_bind (requested_seconds new_walltime (m_walltime moldable)) (\<lambda>parsed.
     case parsed of
       None \<Rightarrow> Inr ((1, 400, ''bad request'', Syntax_error), w)
     | Some seconds \<Rightarrow>
       if user = '''' then Inr ((1, 400, ''bad request'', Anonymous_request), w) else
       res_bind (if is_yes force then user_allowed users_force user else Inr True) (\<lambda>may_force.
       if \<not> may_force then Inr (forbidden Force_not_allowed, w) else
       res_bind (if is_yes delay_next_jobs then user_allowed users_delay user else Inr True) (\<lambda>may_delay.
       if \<not> may_delay then Inr (forbidden Delay_not_allowed, w)
       else Inr (checked_request jid user job moldable least most seconds (is_yes force)
                  (is_yes delay_next_jobs) w)))))"

definition walltime_enabled :: "(string \<Rightarrow> conf_val option) \<Rightarrow> bool" where
  "walltime_enabled conf \<longleftrightarrow> (case conf ''WALLTIME_CHANGE_ENABLED'' of
     Some (Conf_str s) \<Rightarrow> s = ''YES'' | _ \<Rightarrow> False)"

text \<open>
  \<open>request\<close>. The options are read before the other checks: one whose value is not a number raises even
  when the request would be refused for another reason.
\<close>

definition request ::
    "(string \<Rightarrow> conf_val res) \<Rightarrow> (string \<Rightarrow> conf_val option) \<Rightarrow> int \<Rightarrow> string \<Rightarrow> string \<Rightarrow> string \<Rightarrow> string \<Rightarrow>
     db \<Rightarrow> (walltime_answer \<times> db) res" where
  "request ev conf jid user new_walltime force delay_next_jobs w =
     (if \<not> walltime_enabled conf then Inr ((5, 405, ''not available'', Functionality_disabled), w) else
      case get_job w jid of
        None \<Rightarrow> Inr ((4, 404, ''not found'', Could_not_find jid), w)
      | Some job \<Rightarrow>
        if j_user job \<noteq> user \<and> user \<noteq> ''root'' \<and> user \<noteq> ''oar'' then
          Inr (forbidden (Belongs_to_another jid), w)
        else if j_state job \<noteq> ''Running'' then Inr (forbidden (Not_running jid), w)
        else
          res_bind (get_current_moldable_job (j_assigned_moldable_job job) w) (\<lambda>moldable.
            read_request ev conf jid user new_walltime force delay_next_jobs job moldable w))"

section \<open>Processing the requests\<close>

record walltime_job =
  wj_queue :: string
  wj_start_time :: int
  wj_user :: string
  wj_name :: "string option"
  wj_walltime :: int
  wj_pending :: int
  wj_force :: string
  wj_delay :: string
  wj_granted :: int
  wj_granted_force :: int
  wj_granted_delay :: int
  wj_rids :: "int list"

definition add_walltime_job ::
    "int \<times> walltime_job \<times> int \<Rightarrow> (int \<times> walltime_job) list \<Rightarrow> (int \<times> walltime_job) list" where
  "add_walltime_job x jobs_wtc = (case x of (jid, job, rid) \<Rightarrow>
     (case map_of jobs_wtc jid of
        None \<Rightarrow> jobs_wtc @ [(jid, job\<lparr>wj_rids := [rid]\<rparr>)]
      | Some j \<Rightarrow> AList.update jid (j\<lparr>wj_rids := wj_rids j @ [rid]\<rparr>) jobs_wtc))"

definition get_jobs_with_walltime_change :: "db \<Rightarrow> (int \<times> walltime_job) list" where
  "get_jobs_with_walltime_change w = fold add_walltime_job
     [(j_id j, \<lparr>wj_queue = j_queue_name j, wj_start_time = j_start_time j, wj_user = j_user j,
               wj_name = j_name j, wj_walltime = m_walltime m, wj_pending = w_pending c,
               wj_force = w_force c, wj_delay = w_delay c, wj_granted = w_granted c,
               wj_granted_force = w_granted_force c, wj_granted_delay = w_granted_delay c,
               wj_rids = []\<rparr>, a_res a).
      j \<leftarrow> t_jobs w, c \<leftarrow> t_walltimes w, m \<leftarrow> t_moldables w, a \<leftarrow> t_assigned w,
      j_state j = ''Running'' \<and> j_id j = w_job c \<and> j_assigned_moldable_job j = m_id m \<and>
      j_assigned_moldable_job j = a_mld a \<and> w_pending c \<noteq> 0] []"

definition get_running_job :: "int \<Rightarrow> db \<Rightarrow> (int \<times> int) res" where
  "get_running_job jid w = sql_one [(j_start_time j, m_walltime m).
     j \<leftarrow> t_jobs w, m \<leftarrow> t_moldables w,
     j_id j = jid \<and> j_state j = ''Running'' \<and> j_assigned_moldable_job j = m_id m]"

text \<open>
  The jobs that the text \<open>exclude\<close> of the query leaves out. The texts for the time sharing with one user
  or with one name put the name in the query without quotes: the engine rejects it.
\<close>

definition type_text :: "type_value \<Rightarrow> string" where
  "type_text v = (case v of Type_value s \<Rightarrow> s | Type_token k s \<Rightarrow> '''' | Type_flag \<Rightarrow> ''True'')"

definition excluded_types ::
    "(string \<times> type_value) list \<Rightarrow> string \<Rightarrow> (type_row \<Rightarrow> job_row \<Rightarrow> bool) res" where
  "excluded_types job_types job_user =
     (case map_of job_types ''allowed'' of
        Some v \<Rightarrow> Inr (\<lambda>t j. ty_type t = ''placeholder='' @ type_text v)
      | None \<Rightarrow>
        (case map_of job_types ''timesharing'' of
           Some (Type_value s) \<Rightarrow>
             if s \<in> {''user,*'', ''*,user'', ''name,*'', ''*,name''} then Inl Raised_exception
             else if s = ''name,user'' \<or> s = ''user,name'' then
               Inr (\<lambda>t j. (ty_type t = ''timesharing=user,name'' \<or> ty_type t = ''timesharing=name,user'') \<and>
                      j_name j = Some ''$job_name'' \<and> j_user j = job_user)
             else if s = ''*,*'' then Inr (\<lambda>t j. ty_type t = ''timesharing=*,*'')
             else Inr (\<lambda>t j. False)
         | _ \<Rightarrow> Inr (\<lambda>t j. False)))"

text \<open>The start dates the query returns: another job, predicted on one of the resources.\<close>

definition competing_starts ::
    "(type_row \<Rightarrow> job_row \<Rightarrow> bool) \<Rightarrow> string \<Rightarrow> int list \<Rightarrow> db \<Rightarrow> int list" where
  "competing_starts excluded delay_next_jobs resources w =
     remdups [p_start p. j \<leftarrow> t_jobs w, m \<leftarrow> t_moldables w, p \<leftarrow> t_predictions w, g \<leftarrow> t_gantt w,
       j_id j = m_job m \<and> (if delay_next_jobs = ''YES'' then j_reservation j \<noteq> ''None'' else True) \<and>
       p_mld p = m_id m \<and> g_mld g = p_mld p \<and> g_res g \<in> set resources \<and>
       \<not> list_ex (\<lambda>t. ty_job t = j_id j \<and> (excluded t j \<or> ty_type t = ''besteffort'')) (t_types w)]"

definition get_possible_job_end_time_in_interval ::
    "int \<Rightarrow> int \<Rightarrow> int list \<Rightarrow> int \<Rightarrow> string \<Rightarrow> (string \<times> type_value) list \<Rightarrow> string \<Rightarrow> db \<Rightarrow> int res" where
  "get_possible_job_end_time_in_interval from to resources security delay_next_jobs job_types job_user w =
     res_bind (excluded_types job_types job_user) (\<lambda>excluded.
       let starts = filter (\<lambda>s. s > from \<and> s \<le> to + security)
                      (competing_starts excluded delay_next_jobs resources w) in
       Inr (fold (\<lambda>s found. if found = 0 \<or> found > s - security then s - security - 1 else found) starts to))"

text \<open>The time a positive request may take now; \<open>None\<close> when the job is left for a later run.\<close>

definition wanted_time ::
    "(string \<Rightarrow> conf_val res) \<Rightarrow> (string \<Rightarrow> conf_val option) \<Rightarrow> int \<Rightarrow> int \<Rightarrow> walltime_job \<Rightarrow> int option res" where
  "wanted_time ev conf now suspended job =
     (let option = (\<lambda>key. res_bind (lookup_res conf key) (\<lambda>v.
            get_conf ev v (wj_queue job) (Some (wj_walltime job - wj_granted job)))) in
      res_bind (option ''WALLTIME_CHANGE_APPLY_TIME'') (\<lambda>apply_time.
      res_bind (option ''WALLTIME_INCREMENT'') (\<lambda>increment.
      if wj_force job = ''YES'' then Inr (Some (wj_pending job))
      else
        res_bind (number apply_time) (\<lambda>after.
        let delay = of_int (wj_start_time job + wj_walltime job + suspended - now) - after in
        if after > 0 \<and> delay > 0 then Inr None
        else
          res_bind (number increment) (\<lambda>inc.
          if inc > 0 \<and> inc < of_int (wj_pending job) then
            (case increment of Conf_int i \<Rightarrow> Inr (Some i) | _ \<Rightarrow> Inl Unmodelled)
          else Inr (Some (wj_pending job)))))))"

definition inner_limit :: "(string \<times> type_value) list \<Rightarrow> int \<Rightarrow> db \<Rightarrow> int res" where
  "inner_limit job_types to w =
     (case map_of job_types ''inner'' of
        None \<Rightarrow> Inr to
      | Some v \<Rightarrow>
        res_bind (case v of Type_value s \<Rightarrow> py_int s | Type_flag \<Rightarrow> Inr 1 | Type_token k s \<Rightarrow> Inl TypeError) (\<lambda>i.
        res_bind (get_running_job i w) (\<lambda>(start, walltime).
        Inr (if start + walltime < to then start + walltime else to))))"

definition grant_walltime :: "int \<Rightarrow> walltime_job \<Rightarrow> int \<Rightarrow> db \<Rightarrow> db" where
  "grant_walltime jid job fit w =
     (let new_walltime = wj_walltime job + fit;
          new_pending = wj_pending job - fit;
          message = ''walltime changed: '' @ duration_to_sql new_walltime @ '' (granted: '' @
            duration_to_sql_signed fit @ ''/pending: '' @ duration_to_sql_signed new_pending @
            (if wj_force job = ''YES'' then ''/force'' else '''') @
            (if wj_delay job = ''YES'' then ''/delay next jobs'' else '''') @ '')'';
          flag = (if new_pending = 0 then Some ''NO'' else None) in
      change_walltime jid new_walltime message
        (update_walltime_change_request jid new_pending flag flag (Some (wj_granted job + fit))
          (if wj_force job = ''YES'' \<and> fit > 0 then Some (wj_granted_force job + fit) else None)
          (if wj_delay job = ''YES'' \<and> fit > 0 then Some (wj_granted_delay job + fit) else Some 0) w))"

definition process_request ::
    "(string \<Rightarrow> conf_val res) \<Rightarrow> (string \<Rightarrow> conf_val option) \<Rightarrow> int \<times> walltime_job \<Rightarrow> db \<Rightarrow> db res" where
  "process_request ev conf x w = (case x of (jid, job) \<Rightarrow>
     let now = get_date w; suspended = get_job_suspended_sum_duration jid now w; fit = wj_pending job in
     if fit > 0 then
       res_bind (wanted_time ev conf now suspended job) (\<lambda>wanted. case wanted of
         None \<Rightarrow> Inr w
       | Some fit \<Rightarrow>
         let from = wj_start_time job + wj_walltime job + suspended;
             job_types = get_job_types jid w in
         res_bind (inner_limit job_types (from + fit) w) (\<lambda>to.
         res_bind (config_number ''SCHEDULER_JOB_SECURITY_TIME'' w) (\<lambda>security.
         res_bind (get_possible_job_end_time_in_interval from to (wj_rids job) security (wj_delay job)
                     job_types (wj_user job) w) (\<lambda>end_time.
         if end_time - from \<le> 0 then Inr w
         else Inr (grant_walltime jid job (end_time - from) w)))))
     else if fit < 0 then
       let remaining = wj_start_time job + wj_walltime job + suspended - now in
       Inr (grant_walltime jid job (if remaining < - fit then - remaining else fit) w)
     else Inr (grant_walltime jid job fit w))"

definition process_walltime_change_requests ::
    "(string \<Rightarrow> conf_val res) \<Rightarrow> (string \<Rightarrow> conf_val option) \<Rightarrow> db \<Rightarrow> db res" where
  "process_walltime_change_requests ev conf w =
     res_bind (lookup_res conf ''WALLTIME_CHANGE_APPLY_TIME'') (\<lambda>apply_time.
     res_bind (lookup_res conf ''WALLTIME_INCREMENT'') (\<lambda>increment.
     fold_res (process_request ev conf) (get_jobs_with_walltime_change w) w))"

section \<open>Lemmas\<close>

lemma fold_end_time:
  fixes found security :: int
  assumes "\<forall>s \<in> set starts. 0 < s - security - 1" and "found \<noteq> 0"
  defines "f \<equiv> \<lambda>s found. if found = 0 \<or> found > s - security then s - security - 1 else found"
  shows "fold f starts found \<le> found \<and> (\<forall>s \<in> set starts. fold f starts found + security \<le> s)"
  using assms(1,2)
proof (induction starts arbitrary: found)
  case (Cons s starts)
  have "f s found \<noteq> 0" "f s found \<le> found" "f s found + security \<le> s"
    using Cons.prems by (auto simp: f_def)
  with Cons.IH [of "f s found"] Cons.prems show ?case by auto
qed simp

lemma end_time_bounds:
  assumes "get_possible_job_end_time_in_interval from to rids security delay types user w = Inr e"
    and "0 \<le> security" and "security < from"
  shows "e \<le> to \<and> (\<exists>excluded. excluded_types types user = Inr excluded \<and>
    (\<forall>s \<in> set (competing_starts excluded delay rids w). s \<le> from \<or> e + security \<le> s))"
proof -
  from assms(1) obtain excluded where x: "excluded_types types user = Inr excluded"
    by (auto simp: get_possible_job_end_time_in_interval_def res_simps)
  let ?starts = "filter (\<lambda>s. s > from \<and> s \<le> to + security) (competing_starts excluded delay rids w)"
  have e: "e = fold (\<lambda>s found. if found = 0 \<or> found > s - security then s - security - 1 else found) ?starts to"
    using assms(1) x by (simp add: get_possible_job_end_time_in_interval_def Let_def)
  have pos: "\<forall>s \<in> set ?starts. 0 < s - security - 1" using assms(3) by auto
  show ?thesis
  proof (cases "to = 0")
    case True
    hence "?starts = []" using assms(2,3) by (auto simp: filter_empty_conv)
    with e x show ?thesis using True by (fastforce simp: filter_empty_conv)
  next
    case False
    from fold_end_time [OF pos this] e
    have "e \<le> to" "\<forall>s \<in> set ?starts. e + security \<le> s" by simp_all
    moreover have "e + security \<le> s" if "to + security < s" for s using \<open>e \<le> to\<close> that by simp
    ultimately show ?thesis using x by (force simp: not_le)
  qed
qed

lemma wanted_time_bound:
  "wanted_time ev conf now suspended job = Inr (Some fit) \<Longrightarrow> fit \<le> wj_pending job"
  by (auto simp: wanted_time_def res_simps Let_def split: if_splits conf_val.splits)

lemma inner_limit_bound: "inner_limit types to w = Inr t \<Longrightarrow> t \<le> to"
  by (auto simp: inner_limit_def res_simps split: option.splits if_splits)

lemma store_request_cases:
  assumes "store_request jid user most seconds f d w = ((code, http, status, msg), w')"
    and "distinct (map w_job (t_walltimes w))"
  shows "if code \<noteq> 0 then w' = w else
    (user = ''root'' \<or> user = ''oar'' \<or> most = - 1 \<or>
      of_int (sum_list (map w_granted (filter (\<lambda>c. w_job c = jid) (t_walltimes w))) + seconds) \<le> most) \<and>
    map (\<lambda>c. (w_pending c, w_granted c)) (filter (\<lambda>c. w_job c = jid) (t_walltimes w')) = [(seconds, 0)] \<and>
    db_outbox w' = db_outbox w @ [Almighty ''Walltime'']"
  using assms(2)
proof (cases rule: filter_key_cases [where c = jid])
  case 1
  with assms(1) show ?thesis
    by (auto simp: store_request_def get_walltime_change_for_job_def add_walltime_change_request_def forbidden_def
        notify_almighty_def send_def Let_def not_less split: if_splits)
next
  case (2 c)
  hence "filter (\<lambda>c. w_job c = jid) (sql_update (\<lambda>c. w_job c = jid) g (t_walltimes w)) = [g c]"
    if "\<And>c. w_job (g c) = w_job c" for g
    using that by (subst filter_sql_update) (auto simp: sql_update_def)
  with assms(1) 2 show ?thesis
    by (auto simp: store_request_def get_walltime_change_for_job_def update_walltime_change_request_def forbidden_def
        notify_almighty_def send_def Let_def not_less split: if_splits)
qed

lemma checked_request_cases:
  assumes "checked_request jid user job m least most s f d w = ((code, http, status, msg), w')"
  obtains "code \<noteq> 0" "w' = w"
  | seconds where
    "get_date w \<le> j_start_time job + m_walltime m + get_job_suspended_sum_duration jid (get_date w) w + seconds"
    "store_request jid user most seconds f d w = ((code, http, status, msg), w')"
proof -
  let ?r = "j_start_time job + m_walltime m + get_job_suspended_sum_duration jid (get_date w) w - get_date w"
  show thesis
  proof (cases "store_request jid user most (if ?r < - s then - ?r else s) f d w = ((code, http, status, msg), w')")
    case True
    show thesis by (rule that(2) [OF _ True]) simp
  next
    case False
    with assms have "((code, http, status, msg), w') \<in>
        {(forbidden (Walltime_too_short least), w), (forbidden Container_not_reduced, w)}"
      unfolding checked_request_def Let_def by (simp split: if_splits)
    thus thesis by (intro that(1)) (auto simp: forbidden_def)
  qed
qed

lemma walltime_options_most:
  "walltime_options ev conf queue walltime = Inr (least, most, uf, ud) \<Longrightarrow>
   \<exists>v. conf ''WALLTIME_MAX_INCREASE'' = Some v \<and>
     res_bind (get_conf ev v queue (Some walltime)) number = Inr most"
  unfolding walltime_options_def Let_def by (auto simp: res_simps)

lemma read_request_cases:
  assumes "read_request ev conf jid user new_walltime force delay job m w = Inr ((code, http, status, msg), w')"
  obtains "code \<noteq> 0" "w' = w"
  | v least most seconds f d where "conf ''WALLTIME_MAX_INCREASE'' = Some v"
    "res_bind (get_conf ev v (j_queue_name job) (Some (m_walltime m))) number = Inr most"
    "checked_request jid user job m least most seconds f d w = ((code, http, status, msg), w')"
proof -
  from assms obtain least most uf ud parsed
    where o: "walltime_options ev conf (j_queue_name job) (m_walltime m) = Inr (least, most, uf, ud)"
      and p: "requested_seconds new_walltime (m_walltime m) = Inr parsed"
    unfolding read_request_def by (auto simp: res_bind_eq_Inr)
  note run = assms [unfolded read_request_def o res_bind_simps prod.case p]
  from walltime_options_most [OF o] obtain v where v: "conf ''WALLTIME_MAX_INCREASE'' = Some v"
    "res_bind (get_conf ev v (j_queue_name job) (Some (m_walltime m))) number = Inr most" by blast
  show thesis
  proof (cases parsed)
    case None
    with run that(1) show thesis by auto
  next
    case (Some seconds)
    show thesis
    proof (cases "checked_request jid user job m least most seconds (is_yes force) (is_yes delay) w =
        ((code, http, status, msg), w')")
      case True
      with v that(2) show thesis by blast
    next
      case False
      with run Some have "((code, http, status, msg), w') \<in>
          {((1, 400, ''bad request'', Anonymous_request), w), (forbidden Force_not_allowed, w),
           (forbidden Delay_not_allowed, w)}"
        by (auto simp: res_bind_eq_Inr split: if_splits)
      thus thesis by (intro that(1)) (auto simp: forbidden_def)
    qed
  qed
qed

lemma request_cases:
  assumes "request ev conf jid user new_walltime force delay w = Inr ((code, http, status, msg), w')"
  obtains "code \<noteq> 0" "w' = w"
  | job m where "get_job w jid = Some job" "j_state job = ''Running''"
    "user \<in> {j_user job, ''root'', ''oar''}"
    "get_current_moldable_job (j_assigned_moldable_job job) w = Inr m"
    "read_request ev conf jid user new_walltime force delay job m w = Inr ((code, http, status, msg), w')"
  using assms unfolding request_def
  by (auto simp: res_simps forbidden_def split: option.splits if_splits)

lemma case_if_Some:
  "(case (if P then Some a else None) of None \<Rightarrow> x | Some i \<Rightarrow> f i) = (if P then f a else x)"
  "(case (if P then Some a else Some b) of None \<Rightarrow> x | Some i \<Rightarrow> f i) = (if P then f a else f b)"
  by simp_all

lemma grant_walltime_rows:
  "t_walltimes (grant_walltime jid job fit w) = sql_update (\<lambda>c. w_job c = jid)
     (\<lambda>c. c\<lparr>w_pending := wj_pending job - fit, w_force := ''NO'', w_delay := ''NO'',
        w_granted := wj_granted job + fit,
        w_granted_force := (if wj_force job = ''YES'' \<and> fit > 0 then wj_granted_force job + fit else 0),
        w_granted_delay := (if wj_delay job = ''YES'' \<and> fit > 0 then wj_granted_delay job + fit else 0)\<rparr>)
     (t_walltimes w)"
  unfolding grant_walltime_def change_walltime_def update_walltime_change_request_def Let_def case_if_Some
  by simp

lemma grant_walltime_moldables:
  "t_moldables (grant_walltime jid job fit w) =
     sql_update (\<lambda>m. m_job m = jid) (\<lambda>m. m\<lparr>m_walltime := wj_walltime job + fit\<rparr>) (t_moldables w)"
  by (simp add: grant_walltime_def change_walltime_def update_walltime_change_request_def Let_def)

lemma grant_walltime_row:
  assumes "c \<in> set (t_walltimes (grant_walltime jid job fit w))" and "w_job c = jid"
  shows "w_pending c = wj_pending job - fit \<and> w_granted c = wj_granted job + fit \<and> w_force c = ''NO'' \<and>
    w_delay c = ''NO''"
proof -
  from assms(1) obtain r where "c = (if w_job r = jid then r\<lparr>w_pending := wj_pending job - fit,
      w_force := ''NO'', w_delay := ''NO'', w_granted := wj_granted job + fit,
      w_granted_force := (if wj_force job = ''YES'' \<and> fit > 0 then wj_granted_force job + fit else 0),
      w_granted_delay := (if wj_delay job = ''YES'' \<and> fit > 0 then wj_granted_delay job + fit else 0)\<rparr>
    else r)"
    unfolding grant_walltime_rows set_sql_update by blast
  with assms(2) show ?thesis by (cases "w_job r = jid") simp_all
qed

section \<open>Properties\<close>

text \<open>
  C23. An answer other than an acceptance changes nothing. An accepted request comes from the owner of a
  running job or from an administrator; the time it stores leaves the end of the job at or after the
  current date, and, for a user, keeps the time granted so far plus the new time within the maximal
  increase. But the row of the job forgets the time granted so far: the next request starts from 0.
\<close>

theorem walltime_request_bounds:
  assumes "request ev conf jid user new_walltime force delay w = Inr ((code, http, status, msg), w')"
    and "distinct (map w_job (t_walltimes w))"
  shows "if code \<noteq> 0 then w' = w else
    (\<exists>job m seconds most v. get_job w jid = Some job \<and> j_state job = ''Running'' \<and>
       user \<in> {j_user job, ''root'', ''oar''} \<and>
       get_current_moldable_job (j_assigned_moldable_job job) w = Inr m \<and>
       conf ''WALLTIME_MAX_INCREASE'' = Some v \<and>
       res_bind (get_conf ev v (j_queue_name job) (Some (m_walltime m))) number = Inr most \<and>
       get_date w \<le> j_start_time job + m_walltime m + get_job_suspended_sum_duration jid (get_date w) w + seconds \<and>
       (user = ''root'' \<or> user = ''oar'' \<or> most = - 1 \<or>
        of_int (sum_list (map w_granted (filter (\<lambda>c. w_job c = jid) (t_walltimes w))) + seconds) \<le> most) \<and>
       map (\<lambda>c. (w_pending c, w_granted c)) (filter (\<lambda>c. w_job c = jid) (t_walltimes w')) = [(seconds, 0)] \<and>
       db_outbox w' = db_outbox w @ [Almighty ''Walltime''])"
  using assms(1)
proof (cases rule: request_cases)
  case (2 job m)
  from 2(5) show ?thesis
  proof (cases rule: read_request_cases)
    case more: (2 v least most seconds f d)
    from more(3) show ?thesis
    proof (cases rule: checked_request_cases)
      case stored: (2 seconds')
      from store_request_cases [OF stored(2) assms(2)] show ?thesis
        using 2(1-4) more(1,2) stored(1) by (cases "code = 0") auto
    qed simp
  qed simp
qed simp

text \<open>
  C24. An increase that the metascheduler grants is positive and at most the time requested, and the new
  end of the job leaves the security time before every job that competes with it, among the jobs
  predicted on its resources after the end of its walltime. The flags of the request are reset to \<open>NO\<close>,
  even when a part of it is still pending.
\<close>

theorem walltime_increase_safe:
  assumes "process_request ev conf (jid, job) w = Inr w'" and "0 < wj_pending job"
    and "config_number ''SCHEDULER_JOB_SECURITY_TIME'' w = Inr security"
    and "end_time = wj_start_time job + wj_walltime job + get_job_suspended_sum_duration jid (get_date w) w"
    and "0 \<le> security" and "security < end_time"
  shows "w' = w \<or>
    (\<exists>fit excluded. 0 < fit \<and> fit \<le> wj_pending job \<and>
       excluded_types (get_job_types jid w) (wj_user job) = Inr excluded \<and>
       (\<forall>s \<in> set (competing_starts excluded (wj_delay job) (wj_rids job) w).
          s \<le> end_time \<or> end_time + fit + security \<le> s) \<and>
       t_moldables w' = sql_update (\<lambda>m. m_job m = jid) (\<lambda>m. m\<lparr>m_walltime := wj_walltime job + fit\<rparr>)
         (t_moldables w) \<and>
       (\<forall>c \<in> set (t_walltimes w'). w_job c = jid \<longrightarrow> w_pending c = wj_pending job - fit \<and>
          w_granted c = wj_granted job + fit \<and> w_force c = ''NO'' \<and> w_delay c = ''NO''))"
proof -
  from assms(1,2) obtain wanted
    where wanted: "wanted_time ev conf (get_date w) (get_job_suspended_sum_duration jid (get_date w) w) job = Inr wanted"
    unfolding process_request_def by (auto simp: Let_def res_bind_eq_Inr)
  show ?thesis
  proof (cases wanted)
    case None
    with assms(1,2) wanted show ?thesis by (simp add: process_request_def Let_def)
  next
    case (Some fit0)
    with assms(1,2,3) wanted obtain to e
      where limit: "inner_limit (get_job_types jid w) (end_time + fit0) w = Inr to"
        and e: "get_possible_job_end_time_in_interval end_time to (wj_rids job) security (wj_delay job)
          (get_job_types jid w) (wj_user job) w = Inr e"
        and result: "w' = (if e - end_time \<le> 0 then w else grant_walltime jid job (e - end_time) w)"
      unfolding process_request_def by (auto simp: Let_def res_bind_eq_Inr assms(4) split: if_splits)
    from end_time_bounds [OF e assms(5,6)] obtain excluded where x: "e \<le> to"
      "excluded_types (get_job_types jid w) (wj_user job) = Inr excluded"
      "\<forall>s \<in> set (competing_starts excluded (wj_delay job) (wj_rids job) w). s \<le> end_time \<or> e + security \<le> s"
      by blast
    have "e - end_time \<le> wj_pending job"
      using x(1) inner_limit_bound [OF limit] wanted_time_bound wanted Some by fastforce
    show ?thesis
    proof (cases "e - end_time \<le> 0")
      case True
      with result show ?thesis by simp
    next
      case False
      with result have "w' = grant_walltime jid job (e - end_time) w" by simp
      with x(2,3) \<open>e - end_time \<le> wj_pending job\<close> False show ?thesis
        by (intro disjI2 exI [of _ "e - end_time"] exI [of _ excluded]) (simp add: grant_walltime_moldables grant_walltime_row)
    qed
  qed
qed

section \<open>Witnesses\<close>

definition walltime_ev :: "string \<Rightarrow> conf_val res" where
  "walltime_ev s = (if s = ''dict(default=7200)'' then Inr (Conf_dict [(''default'', Conf_int 7200)])
                    else Inl ValueError)"

definition walltime_conf :: "string \<Rightarrow> conf_val option" where
  "walltime_conf = [''WALLTIME_CHANGE_ENABLED'' \<mapsto> Conf_str ''YES'',
     ''WALLTIME_MAX_INCREASE'' \<mapsto> Conf_str ''dict(default=7200)'', ''WALLTIME_MIN_FOR_CHANGE'' \<mapsto> Conf_float 0,
     ''WALLTIME_ALLOWED_USERS_TO_FORCE'' \<mapsto> Conf_str '''',
     ''WALLTIME_ALLOWED_USERS_TO_DELAY_JOBS'' \<mapsto> Conf_str '''',
     ''WALLTIME_CHANGE_APPLY_TIME'' \<mapsto> Conf_float 0, ''WALLTIME_INCREMENT'' \<mapsto> Conf_float 0]"

definition walltime_db :: db where
  "walltime_db = empty_db\<lparr>db_now := 120, db_config_int := [''SCHEDULER_JOB_SECURITY_TIME'' \<mapsto> 60],
     t_jobs := [example_job_row\<lparr>j_start_time := 100\<rparr>, example_job_row\<lparr>j_id := 2, j_state := ''Waiting''\<rparr>],
     t_moldables := [\<lparr>m_id = 1, m_job = 1, m_walltime = 60, m_index = ''CURRENT''\<rparr>,
                     \<lparr>m_id = 2, m_job = 2, m_walltime = 60, m_index = ''CURRENT''\<rparr>],
     t_assigned := [\<lparr>a_mld = 1, a_res = 1, a_index = ''CURRENT''\<rparr>],
     t_predictions := [\<lparr>p_mld = 2, p_start = 1000\<rparr>], t_gantt := [\<lparr>g_mld = 2, g_res = 1\<rparr>],
     t_walltimes := [\<lparr>w_job = 1, w_pending = 3600, w_force = ''NO'', w_delay = ''NO'', w_granted = 30,
                      w_granted_force = 0, w_granted_delay = 0\<rparr>]\<rparr>"

lemma walltime_db_run:
  "request walltime_ev walltime_conf 1 ''bob'' ''+1:0:0'' '''' '''' walltime_db =
     Inr ((0, 202, ''accepted'', Request_updated 1), snd (store_request 1 ''bob'' 7200 3600 False False walltime_db))"
proof -
  have o: "walltime_options walltime_ev walltime_conf ''default'' 60 = Inr (0, 7200, Conf_str '''', Conf_str '''')"
    by (simp add: walltime_options_def walltime_conf_def lookup_res_def get_conf_def walltime_ev_def)
  have p: "requested_seconds ''+1:0:0'' 60 = Inr (Some 3600)"
    by (simp add: requested_seconds_def parse_walltime_def hms_to_duration_def py_int_def py_strip_def
        is_digit_def is_space_def digit_val_def)
  have j: "get_job walltime_db 1 = Some (example_job_row\<lparr>j_start_time := 100\<rparr>)"
    by (simp add: get_job_def walltime_db_def example_job_row_def)
  have m: "get_current_moldable_job 1 walltime_db =
      Inr \<lparr>m_id = 1, m_job = 1, m_walltime = 60, m_index = ''CURRENT''\<rparr>"
    by (simp add: get_current_moldable_job_def walltime_db_def)
  have s: "fst (store_request 1 ''bob'' 7200 3600 False False walltime_db) = (0, 202, ''accepted'', Request_updated 1)"
    by (simp add: store_request_def get_walltime_change_for_job_def walltime_db_def)
  have "checked_request 1 ''bob'' (example_job_row\<lparr>j_start_time := 100\<rparr>)
      \<lparr>m_id = 1, m_job = 1, m_walltime = 60, m_index = ''CURRENT''\<rparr> 0 7200 3600 False False walltime_db =
      store_request 1 ''bob'' 7200 3600 False False walltime_db"
    by (simp add: checked_request_def Let_def get_job_types_def has_job_type_def get_job_suspended_sum_duration_def
        walltime_db_def empty_db_def get_date_def example_job_row_def)
  with o p j m s show ?thesis
    by (simp add: request_def walltime_enabled_def walltime_conf_def read_request_def example_job_row_def
        is_yes_def prod_eq_iff)
qed

theorem walltime_request_bounds_witness:
  "\<exists>w' seconds. request walltime_ev walltime_conf 1 ''bob'' ''+1:0:0'' '''' '''' walltime_db =
       Inr ((0, 202, ''accepted'', Request_updated 1), w') \<and>
     map (\<lambda>c. (w_pending c, w_granted c)) (filter (\<lambda>c. w_job c = 1) (t_walltimes w')) = [(seconds, 0)]"
proof -
  have "distinct (map w_job (t_walltimes walltime_db))" by (simp add: walltime_db_def)
  from walltime_request_bounds [OF walltime_db_run this] walltime_db_run show ?thesis by auto
qed

definition walltime_example :: walltime_job where
  "walltime_example = \<lparr>wj_queue = ''default'', wj_start_time = 100, wj_user = ''bob'', wj_name = None,
     wj_walltime = 60, wj_pending = 3600, wj_force = ''NO'', wj_delay = ''NO'', wj_granted = 30,
     wj_granted_force = 0, wj_granted_delay = 0, wj_rids = [1]\<rparr>"

lemma walltime_example_read: "get_jobs_with_walltime_change walltime_db = [(1, walltime_example)]"
  by (simp add: get_jobs_with_walltime_change_def walltime_db_def example_job_row_def add_walltime_job_def
      walltime_example_def)

lemma walltime_example_run:
  "process_request walltime_ev walltime_conf (1, walltime_example) walltime_db =
     Inr (grant_walltime 1 walltime_example 779 walltime_db)"
proof -
  have t: "get_job_types 1 walltime_db = []" by (simp add: get_job_types_def walltime_db_def empty_db_def)
  have s: "get_job_suspended_sum_duration 1 n walltime_db = 0" for n
    by (simp add: get_job_suspended_sum_duration_def walltime_db_def empty_db_def)
  have n: "wanted_time walltime_ev walltime_conf now 0 walltime_example = Inr (Some 3600)" for now
    by (simp add: wanted_time_def walltime_conf_def lookup_res_def get_conf_def walltime_example_def)
  have c: "config_number ''SCHEDULER_JOB_SECURITY_TIME'' walltime_db = Inr 60"
    by (simp add: config_number_def walltime_db_def)
  have e: "get_possible_job_end_time_in_interval 160 3760 [1] 60 ''NO'' [] ''bob'' walltime_db = Inr 939"
    by (simp add: get_possible_job_end_time_in_interval_def excluded_types_def competing_starts_def
        walltime_db_def empty_db_def example_job_row_def)
  have f: "wj_start_time walltime_example = 100" "wj_walltime walltime_example = 60"
    "wj_pending walltime_example = 3600" "wj_rids walltime_example = [1]"
    "wj_delay walltime_example = ''NO''" "wj_user walltime_example = ''bob''"
    by (simp_all add: walltime_example_def)
  show ?thesis by (simp add: process_request_def Let_def t s n f inner_limit_def c e)
qed

theorem walltime_increase_safe_witness:
  "\<exists>fit excluded. 0 < fit \<and> fit \<le> 3600 \<and>
     (\<forall>s \<in> set (competing_starts excluded ''NO'' [1] walltime_db). s \<le> 160 \<or> 160 + fit + 60 \<le> s)"
proof -
  have s: "get_job_suspended_sum_duration 1 n walltime_db = 0" for n
    by (simp add: get_job_suspended_sum_duration_def walltime_db_def empty_db_def)
  have f: "wj_start_time walltime_example = 100" "wj_walltime walltime_example = 60"
    "wj_pending walltime_example = 3600" "wj_rids walltime_example = [1]" "wj_delay walltime_example = ''NO''"
    by (simp_all add: walltime_example_def)
  have c: "config_number ''SCHEDULER_JOB_SECURITY_TIME'' walltime_db = Inr 60"
    by (simp add: config_number_def walltime_db_def)
  have m: "map m_walltime (t_moldables (grant_walltime 1 walltime_example 779 walltime_db)) \<noteq>
      map m_walltime (t_moldables walltime_db)"
    by (simp add: grant_walltime_moldables f) (simp add: walltime_db_def sql_update_def)
  from walltime_increase_safe [OF walltime_example_run _ c, of 160] m show ?thesis
    unfolding f s by auto
qed

end
