(* ===== verification/Quotas_Rules.thy ===== *)
theory Quotas_Rules
  imports Calendar Slots Resource_Set Job_Sorting
begin

text \<open>
  The part of \<open>oar/kao/quotas.py\<close> that reads the rules of the quotas (\<open>quotas_rules_fromJson\<close>,
  \<open>load_quotas_rules\<close>, \<open>enable\<close>). The parsed configuration file is the record \<open>quotas_json\<close>: the
  calendar's entries, the named groups of rules (the group \<open>quotas\<close> is the default one) and the job
  types. A value of a rule is an integer, a number with a fraction or a text.

  A key that has not four fields is kept by the code and raises when a rule is checked; here it raises
  when it is read.
\<close>

section \<open>Rules\<close>

datatype 'f json_number =
    Js_int int
  | Js_float 'f
  | Js_text string

text \<open>A factor of \<open>alphanum_to_int\<close>: the number 1, or what stands before the star.\<close>

definition times_all :: "'f float_ops \<Rightarrow> 'f option \<Rightarrow> int option \<Rightarrow> int res" where
  "times_all F factor all_value = (case (factor, all_value) of
     (_, None) \<Rightarrow> Inl TypeError
   | (None, Some n) \<Rightarrow> Inr n
   | (Some c, Some n) \<Rightarrow> fl_trunc F (fl_mul F c (fl_of_int F n)))"

definition text_to_int :: "'f float_ops \<Rightarrow> int option \<Rightarrow> string \<Rightarrow> int res" where
  "text_to_int F all_value v = (case fl_of_string F v of
     Inr f \<Rightarrow> fl_trunc F f
   | Inl ValueError \<Rightarrow>
       (if CHR ''*'' \<in> set v then
          (case split_on (CHR ''*'') v of
             [c, x] \<Rightarrow> res_bind (fl_of_string F c) (\<lambda>c'.
                 if x = ''ALL'' then times_all F (Some c') all_value
                 else res_bind (fl_of_string F x) (\<lambda>f. fl_trunc F (fl_mul F c' f)))
           | _ \<Rightarrow> Inl ValueError)
        else if v = ''ALL'' then times_all F None all_value else Inl ValueError)
   | Inl e \<Rightarrow> Inl e)"

fun alphanum_to_int :: "'f float_ops \<Rightarrow> int option \<Rightarrow> 'f json_number \<Rightarrow> int res" where
  "alphanum_to_int F all_value (Js_int i) = Inr i"
| "alphanum_to_int F all_value (Js_float f) = fl_trunc F f"
| "alphanum_to_int F all_value (Js_text v) = text_to_int F all_value v"

definition rule_key :: "string \<Rightarrow> quota_key res" where
  "rule_key k = (case split_on (CHR '','') k of [a, b, c, d] \<Rightarrow> Inr (a, b, c, d) | _ \<Rightarrow> Inl ValueError)"

definition quotas_rules_fromJson ::
    "'f float_ops \<Rightarrow> (string \<times> 'f json_number list) list \<Rightarrow> int option \<Rightarrow> rules res" where
  "quotas_rules_fromJson F json all_value =
     fold_res (\<lambda>(k, v) rules.
       res_bind (rule_key k) (\<lambda>key.
       res_bind (res_bind (nth_res v 0) (alphanum_to_int F all_value)) (\<lambda>a.
       res_bind (res_bind (nth_res v 1) (alphanum_to_int F all_value)) (\<lambda>b.
       res_bind (res_bind (nth_res v 2) (alphanum_to_int F all_value)) (\<lambda>c.
         Inr (AList.update key (a, b, 3600 * c) rules)))))) json []"

section \<open>Loading\<close>

record 'f quotas_json =
  qj_calendar :: json_quotas
  qj_rules :: "(string \<times> (string \<times> 'f json_number list) list) list"
  qj_job_types :: "string list option"

definition has_calendar :: "'f quotas_json \<Rightarrow> bool" where
  "has_calendar j \<longleftrightarrow> j_periodical (qj_calendar j) \<noteq> None \<or> j_oneshot (qj_calendar j) \<noteq> None"

text \<open>The groups of a calendar are read without the value of \<open>ALL\<close>.\<close>

definition load_quotas_rules ::
    "'f float_ops \<Rightarrow> (string \<Rightarrow> bool \<times> int) \<Rightarrow> int \<Rightarrow> 'f quotas_json \<Rightarrow> int option \<Rightarrow> 'p sched_env \<Rightarrow>
     'p sched_env res" where
  "load_quotas_rules F check_res period j all_value E =
     res_bind (if has_calendar j then
         res_bind (new_calendar (\<lambda>name. res_bind (lookup_res (map_of (qj_rules j)) name)
             (\<lambda>g. quotas_rules_fromJson F g None)) check_res period (qj_calendar j))
           (\<lambda>cal. Inr (E\<lparr>calendar_of := Some cal\<rparr>))
       else Inr E) (\<lambda>E1.
     res_bind (case map_of (qj_rules j) ''quotas'' of
         None \<Rightarrow> Inr E1
       | Some g \<Rightarrow> res_bind (quotas_rules_fromJson F g all_value) (\<lambda>rules.
           Inr (E1\<lparr>quotas_conf := (quotas_conf E1)\<lparr>q_default_rules := rules\<rparr>\<rparr>))) (\<lambda>E2.
     Inr (case qj_job_types j of
         None \<Rightarrow> E2
       | Some names \<Rightarrow>
         E2\<lparr>quotas_conf := (quotas_conf E2)\<lparr>q_job_types := q_job_types (quotas_conf E2) @ names\<rparr>\<rparr>)))"

definition all_resources :: "'p resource_set \<Rightarrow> db \<Rightarrow> int" where
  "all_resources rs w =
     (if config_or ''QUOTAS_ALL_NB_RESOURCES_MODE'' ''default_not_dead'' w = ''default_not_dead''
      then rs_nb_default_not_dead rs else rs_nb_default rs)"

text \<open>\<open>Quotas.enable\<close>; \<open>default_itvs\<close> belongs to the class \<open>ResourceSet\<close> and is that of the last set.\<close>

definition quotas_enable ::
    "'f float_ops \<Rightarrow> (string \<Rightarrow> bool \<times> int) \<Rightarrow> (string \<Rightarrow> 'f quotas_json res) \<Rightarrow> 'p resource_set \<Rightarrow> db \<Rightarrow>
     'p sched_env \<Rightarrow> 'p sched_env res" where
  "quotas_enable F check_res json_load rs w E =
     (let E0 = E\<lparr>quotas_conf := (quotas_conf E)\<lparr>q_enabled := True, q_default_itvs := rs_default_itvs rs\<rparr>\<rparr> in
      res_bind (lookup_res (db_config w) ''QUOTAS_CONF_FILE'') (\<lambda>name.
      res_bind (json_load name) (\<lambda>j.
      res_bind (lookup_res (db_config_int w) ''QUOTAS_PERIOD'') (\<lambda>period.
        load_quotas_rules F check_res period j (Some (all_resources rs w)) E0))))"

section \<open>Lemmas\<close>

text \<open>
  The hours of a rule are cut to a whole number before they become seconds: a limit of less than one hour
  is the limit 0, which no job that uses resources passes.
\<close>

lemma hours_are_truncated:
  "quotas_rules_fromJson rat_floats [(''*,*,*,*'', [Js_int (-1), Js_int (-1), Js_float (1 / 2)])] None =
     Inr [((''*'', ''*'', ''*'', ''*''), (-1, -1, 0))]"
  by code_simp

text \<open>In the groups of a calendar, \<open>ALL\<close> has no value and multiplying by it raises \<open>TypeError\<close>.\<close>

lemma temporal_all_raises:
  assumes "j_oneshot (qj_calendar j) = None" and "j_periodical (qj_calendar j) = Some [(when, name)]"
    and "map_of (qj_rules j) name = Some [(k, [Js_int a, Js_text ''ALL'', c])]" and "rule_key k = Inr key"
    and "fl_of_string F ''ALL'' = Inl ValueError"
  shows "load_quotas_rules F check_res period j all_value E = Inl TypeError"
  using assms
  by (simp add: load_quotas_rules_def has_calendar_def new_calendar_def load_rules_def empty_calendar_def
      quotas_rules_fromJson_def text_to_int_def times_all_def)

end
