(* ===== verification/Meta_Sched.thy ===== *)
theory Meta_Sched
  imports Kamelot Walltime Quotas_Rules Nodes
begin

text \<open>
  \<open>oar/kao/meta_sched.py\<close>: the metascheduler. A round puts the jobs that hold resources into the gantt
  tables and the slots, runs a scheduler for the queues of each priority, handles the advance
  reservations, kills besteffort jobs that are in the way or launches the jobs whose time has come, and
  processes the jobs that wait for an answer.

  \<open>meta\<close> is the state of the program: the database, the quotas, the slot sets and the jobs whose launch
  was already sent. The record \<open>world\<close> holds the answers of what is outside: sockets, commands, the
  local time. The attribute \<open>start_time\<close> that the loading of jobs sets is written to the table by the
  next statement (\<open>flush_start_times\<close>).
\<close>

section \<open>The state of a round\<close>

record 'p meta =
  m_db :: db
  m_env :: "'p sched_env"
  m_sets :: "'p slots_sets"
  m_launched :: "int list"

text \<open>
  \<open>wd_scheduler policy queue date db\<close> is the run of an external scheduler: no return code when it cannot
  be started. \<open>wd_tcp\<close> is the number of bytes sent, 0 when the connection fails. \<open>wd_script\<close> is the return
  code of a script, none when it is too slow. \<open>wd_eval\<close> and \<open>wd_conf\<close> are those of \<open>Walltime\<close>, \<open>wd_json\<close> and
  \<open>wd_date\<close> those of \<open>Quotas_Rules\<close>.
\<close>

record 'f world =
  wd_bipbip :: "int \<Rightarrow> bool"
  wd_tcp :: "string \<Rightarrow> int \<Rightarrow> string \<Rightarrow> int"
  wd_hulot :: bool
  wd_local :: "int \<Rightarrow> string"
  wd_scheduler :: "string \<Rightarrow> string \<Rightarrow> int \<Rightarrow> db \<Rightarrow> int option \<times> db"
  wd_script :: "string \<Rightarrow> int \<Rightarrow> int option"
  wd_eval :: "string \<Rightarrow> conf_val res"
  wd_conf :: "string \<Rightarrow> conf_val option"
  wd_json :: "string \<Rightarrow> 'f quotas_json res"
  wd_date :: "string \<Rightarrow> bool \<times> int"

definition config_int :: "string \<Rightarrow> db \<Rightarrow> int res" where
  "config_int k w = res_bind (lookup_res (db_config w) k) py_int"

text \<open>\<open>notify_tcp_socket\<close>: the port is converted before the connection is tried.\<close>

definition notify_tcp_socket :: "'f world \<Rightarrow> string \<Rightarrow> string \<Rightarrow> string \<Rightarrow> db \<Rightarrow> (int \<times> db) res" where
  "notify_tcp_socket W addr port text w =
     res_bind (py_int port) (\<lambda>p.
       let n = wd_tcp W addr p (text @ [CHR 0x0A]) in
       Inr (n, if n = 0 then w else send (Tcp_client (addr @ '':'' @ port) (text @ [CHR 0x0A])) w))"

section \<open>The gantt at the beginning\<close>

definition gantt_init_with_running_jobs ::
    "'p procset_ops \<Rightarrow> nat \<Rightarrow> ('p, 'f) site \<Rightarrow> int \<Rightarrow> int \<Rightarrow> 'p meta \<Rightarrow>
     ('p meta \<times> 'p job list \<times> (nat \<times> 'p job) list) res" where
  "gantt_init_with_running_jobs P fuel X now security s =
     res_bind (resource_set_of P (site_order X) (m_db s)) (\<lambda>rs.
     let w1 = gantt_flush_tables (get_waiting_moldable_of_reservations_already_scheduled (m_db s)) (m_db s) in
     res_bind (get_jobs_in_multiple_states P
         [''Running'', ''toLaunch'', ''Launching'', ''Finishing'', ''Suspended'', ''Resuming''] rs w1)
       (\<lambda>current_jobs.
     res_bind (save_assigns P current_jobs rs w1) (\<lambda>w2.
     res_bind (initial_slot_set P fuel (m_env s) rs now) (\<lambda>(E1, ss).
     res_bind (get_scheduled_jobs P (site_lib X) rs security now w2) (\<lambda>scheduled_jobs.
     let w3 = flush_start_times scheduled_jobs w2 in
     res_bind (fold_res (\<lambda>job d. if has_type job ''besteffort'' then
           res_bind (attr (res_set job)) (\<lambda>r. Inr (fold (\<lambda>n. AList.update n job) (ps_ids P r) d)) else Inr d)
         scheduled_jobs []) (\<lambda>besteffort_rid2job.
     res_bind (if scheduled_jobs \<noteq> [] then
           set_slots_with_prev_scheduled_jobs P fuel E1 [(''default'', ss)] scheduled_jobs security now True False
         else Inr (E1, [(''default'', ss)])) (\<lambda>(E2, sss).
       Inr (s\<lparr>m_db := w3, m_env := E2, m_sets := sss\<rparr>, scheduled_jobs, besteffort_rid2job))))))))"

section \<open>Launching\<close>

definition notify_oar2_almighty :: "'f world \<Rightarrow> string \<Rightarrow> db \<Rightarrow> (int \<times> db) res" where
  "notify_oar2_almighty W text w =
     res_bind (lookup_res (db_config w) ''SERVER_HOSTNAME'') (\<lambda>host.
     res_bind (lookup_res (db_config w) ''SERVER_PORT'') (\<lambda>port. notify_tcp_socket W host port text w))"

definition notify_to_run_job :: "'f world \<Rightarrow> int \<Rightarrow> 'p meta \<Rightarrow> 'p meta res" where
  "notify_to_run_job W jid s =
     (if jid \<in> set (m_launched s) then Inr s
      else res_bind (lookup_res (db_config (m_db s)) ''METASCHEDULER_OAR3_WITH_OAR2'') (\<lambda>oar2.
      if oar2 = ''yes'' then
        res_bind (notify_oar2_almighty W (''OARRUNJOB_'' @ int_str jid) (m_db s)) (\<lambda>(n, w).
          Inr (if 0 < n then s\<lparr>m_db := w, m_launched := m_launched s @ [jid]\<rparr> else s\<lparr>m_db := w\<rparr>))
      else if wd_bipbip W jid then
        Inr (s\<lparr>m_db := send (Bipbip ''OARRUN'' jid []) (m_db s), m_launched := m_launched s @ [jid]\<rparr>)
      else Inr s))"

definition prepare_job_to_be_launched :: "'f world \<Rightarrow> 'p job \<Rightarrow> int \<Rightarrow> 'p meta \<Rightarrow> 'p meta res" where
  "prepare_job_to_be_launched W job now s =
     (let w1 = set_job_start_time_assigned_moldable_id (job_id job) now (moldable_id job) (m_db s);
          w2 = add_resource_job_pairs (moldable_id job) w1;
          w3 = set_job_state (job_id job) ''toLaunch'' w2 in
      notify_to_run_job W (job_id job) (s\<lparr>m_db := w3\<rparr>))"

text \<open>The row behind a loaded job: what its columns hold now.\<close>

definition row_of :: "'p job \<Rightarrow> db \<Rightarrow> job_row res" where
  "row_of job w = (case get_job w (job_id job) of None \<Rightarrow> Inl NoResultFound | Some j \<Rightarrow> Inr j)"

text \<open>
  \<open>re.sub(r"R=\<dots>", \<dots>)\<close>: every occurrence of \<open>key\<close> followed by digits (\<open>groups\<close> of them, with colons
  between) is replaced.
\<close>

fun match_groups :: "nat \<Rightarrow> string \<Rightarrow> string option" where
  "match_groups n s = (let rest = dropWhile is_digit s in
     if rest = s then None
     else if n \<le> 1 then Some rest
     else (case rest of c # cs \<Rightarrow> if c = CHR '':'' then match_groups (n - 1) cs else None | [] \<Rightarrow> None))"

declare match_groups.simps [simp del]

function sub_groups :: "char \<Rightarrow> nat \<Rightarrow> string \<Rightarrow> string \<Rightarrow> string" where
  "sub_groups k n new [] = []"
| "sub_groups k n new [c] = [c]"
| "sub_groups k n new (c # d # s) =
     (if c = k \<and> d = CHR ''='' then
        (case match_groups n s of
           Some rest \<Rightarrow> if length rest < length s then [c, d] @ new @ sub_groups k n new rest else c # sub_groups k n new (d # s)
         | None \<Rightarrow> c # sub_groups k n new (d # s))
      else c # sub_groups k n new (d # s))"
  by pat_completeness auto
termination by (relation "measure (\<lambda>(k, n, new, s). length s)") auto

section \<open>Advance reservations\<close>

text \<open>\<open>set_job_message\<close> with the text in which the number of resources was replaced, when it changes.\<close>

definition replace_in_message :: "char \<Rightarrow> nat \<Rightarrow> string \<Rightarrow> int \<Rightarrow> string \<Rightarrow> db \<Rightarrow> db" where
  "replace_in_message k n new jid message w =
     (let new_message = sub_groups k n new message in
      if new_message \<noteq> message then set_job_message jid new_message w else w)"

text \<open>
  One accepted reservation. The warning about resources that are not all available yet adds a number to
  a text, a \<open>TypeError\<close>.
\<close>

definition handle_reservation ::
    "'p procset_ops \<Rightarrow> 'p resource_set \<Rightarrow> int \<Rightarrow> int \<Rightarrow> 'p job \<Rightarrow> db \<Rightarrow> db res" where
  "handle_reservation P rs waiting_timeout now job w =
     res_bind (attr (walltime job)) (\<lambda>wt.
     res_bind (attr (res_set job)) (\<lambda>held.
     if now > start_time job + wt then
       Inr (set_job_message (job_id job) ''Reservation expired and couldn't be started.''
              (set_job_state (job_id job) ''Error'' w))
     else
       let avail_res = ps_inter P (rs_roid_itvs rs) held in
       if ps_len P avail_res = 0 \<and> start_time job < now then
         Inr (set_gantt_job_start_time (moldable_id job) (now + 1) w)
       else if start_time job < now then
         if start_time job + waiting_timeout > now then
           (if \<not> ps_eq P avail_res held then Inl TypeError else Inr w)
         else
           let missing = ps_diff P held avail_res in
           res_bind (remove_gantt_resource_job P (moldable_id job) missing rs w) (\<lambda>w1.
           let w2 = add_new_event ''SCHEDULER_REDUCE_NB_RESSOURCES_FOR_RESERVATION'' (job_id job)
                 (''[MetaSched] Reduce the number of resources for the job '' @ int_str (job_id job)) ''YES'' w1 in
           res_bind (row_of job w2) (\<lambda>row.
             Inr (replace_in_message (CHR ''R'') 1
                    (int_str (int (ps_len P held) - int (ps_len P missing))) (job_id job) (j_message row) w2)))
       else Inr w))"

definition handle_waiting_reservation_jobs ::
    "'p procset_ops \<Rightarrow> ('p, 'f) site \<Rightarrow> string \<Rightarrow> 'p resource_set \<Rightarrow> int \<Rightarrow> int \<Rightarrow> int \<Rightarrow> db \<Rightarrow> db res" where
  "handle_waiting_reservation_jobs P X queue rs security waiting_timeout now w =
     res_bind (get_waiting_scheduled_AR_jobs P (site_lib X) queue rs security now w) (\<lambda>ar_jobs.
       fold_res (handle_reservation P rs waiting_timeout now) ar_jobs (flush_start_times ar_jobs w))"

text \<open>The resources for a new reservation, between the two slots that hold its begin and its end.\<close>

definition reservation_resources ::
    "'p procset_ops \<Rightarrow> nat \<Rightarrow> 'p sched_env \<Rightarrow> 'p resource_set \<Rightarrow> 'p slot_set \<Rightarrow> 'p job \<Rightarrow>
     'p hy_res_rqt list \<Rightarrow> int \<Rightarrow> int \<Rightarrow> (nat \<times> nat \<times> 'p \<times> bool) res" where
  "reservation_resources P fuel E rs ss job rqts wt security =
     res_bind (get_encompassing_slots fuel (slots ss) (start_time job) (start_time job + wt - security))
       (\<lambda>(l, r).
     res_bind (if ts job \<or> ph job = Allow then intersec_ts_ph_itvs_slots P fuel (slots ss) l r job
               else intersec_itvs_slots P fuel (slots ss) l r) (\<lambda>itvs_avail.
     res_bind (find_resource_hierarchies_job P itvs_avail rqts (map_of (rs_hierarchy rs))) (\<lambda>itvs.
     if q_enabled (quotas_conf E) then
       res_bind (check_slots_quotas P E fuel (slots ss) l r job
           (int (ps_len P (ps_inter P itvs (rs_default_itvs rs)))) wt) (\<lambda>q.
         Inr (l, r, if q = Quota_ok then itvs else ps_empty P, q = Quota_ok))
     else Inr (l, r, itvs, True))))"

text \<open>One new reservation; the jobs that found their resources are collected.\<close>

definition new_reservation ::
    "'p procset_ops \<Rightarrow> nat \<Rightarrow> 'p resource_set \<Rightarrow> int \<Rightarrow> int \<Rightarrow> 'p job \<Rightarrow> 'p meta \<times> 'p job list \<Rightarrow>
     ('p meta \<times> 'p job list) res" where
  "new_reservation P fuel rs security now job0 st = (case st of (s, scheduled) \<Rightarrow>
     res_bind (nth_res (mld_res_rqts job0) 0) (\<lambda>(mld, wt, rqts).
     let jid = job_id job0 in
     if now \<ge> start_time job0 + wt then
       Inr (s\<lparr>m_db := set_job_state jid ''toError'' (set_job_message jid ''Reservation too old'' (m_db s))\<rparr>,
            scheduled)
     else
       let job = (if start_time job0 < now then job0\<lparr>start_time := now\<rparr> else job0);
           w = flush_start_times [job] (m_db s) in
       res_bind (lookup_res (map_of (m_sets s)) ''default'') (\<lambda>ss.
       res_bind (reservation_resources P fuel (m_env s) rs ss job rqts wt security) (\<lambda>(l, r, itvs, quotas_ok).
       let w1 = (if quotas_ok then w else
             set_job_message jid ''This advance reservation cannot run due to quotas''
               (set_job_state jid ''toError'' w)) in
       if ps_len P itvs = 0 then
         Inr (s\<lparr>m_db := set_job_resa_state jid ''Scheduled''
             (set_job_message jid ''This advance reservation cannot run'' (set_job_state jid ''toError'' w1))\<rparr>,
           scheduled)
       else
         let job' = job\<lparr>moldable_id := mld, res_set := Some itvs, walltime := Some wt\<rparr> in
         res_bind (split_slots P (m_env s) ss l r job' True) (\<lambda>ss'.
           Inr (s\<lparr>m_sets := AList.update ''default'' ss' (m_sets s),
                  m_db := set_job_resa_state jid ''Scheduled'' (set_job_state jid ''toAckReservation'' w1)\<rparr>,
                scheduled @ [job']))))))"

definition check_reservation_jobs ::
    "'p procset_ops \<Rightarrow> nat \<Rightarrow> ('p, 'f) site \<Rightarrow> 'p resource_set \<Rightarrow> string \<Rightarrow> int \<Rightarrow> 'p meta \<Rightarrow> 'p meta res" where
  "check_reservation_jobs P fuel X rs queue now s =
     (let rows = get_waiting_jobs [queue] ''toSchedule'' (m_db s) in
      if rows = [] then Inr s else
      res_bind (config_int ''SCHEDULER_JOB_SECURITY_TIME'' (m_db s)) (\<lambda>security.
      res_bind (get_data_jobs P (site_lib X) (site_sql X) (site_show X) (map job_of_row rows) rs security 0
          (m_db s)) (\<lambda>jobs.
      res_bind (fold_res (new_reservation P fuel rs security now) jobs (s, [])) (\<lambda>(s1, scheduled).
      res_bind (save_assigns P scheduled rs (m_db s1)) (\<lambda>w. Inr (s1\<lparr>m_db := w\<rparr>))))))"

section \<open>Besteffort jobs in the way\<close>

definition maxsize :: int where "maxsize = 9223372036854775807"

text \<open>\<open>tools.send_checkpoint_signal\<close> raises \<open>NotImplementedError\<close>.\<close>

definition kill_besteffort :: "'p job \<Rightarrow> int \<Rightarrow> db \<Rightarrow> db res" where
  "kill_besteffort be_job now w =
     res_bind (row_of be_job w) (\<lambda>row.
     let first_date = fold min (map e_date (filter (\<lambda>e. e_type e = ''CHECKPOINT'')
                        (get_job_events (job_id be_job) w))) maxsize in
     if 0 < j_checkpoint row \<and> (first_date = maxsize \<or> now \<le> first_date + j_checkpoint row)
     then Inl NotImplementedError
     else res_bind (frag_job (job_id be_job) None
            (add_new_event ''BESTEFFORT_KILL'' (job_id be_job)
              (''kill the besteffort job '' @ int_str (job_id be_job)) ''YES'' w)) (\<lambda>(code, w'). Inr w'))"

definition check_besteffort_job ::
    "'p job list \<Rightarrow> int \<Rightarrow> (nat \<times> 'p job) list \<Rightarrow> nat \<times> int \<Rightarrow> int list \<times> db \<Rightarrow> (int list \<times> db) res" where
  "check_besteffort_job jobs_to_launch now besteffort_rid2job x st = (case (x, st) of ((rid, jid), (fragged, w)) \<Rightarrow>
     case map_of besteffort_rid2job rid of
       None \<Rightarrow> Inr (fragged, w)
     | Some be_job \<Rightarrow>
         res_bind (lookup_res (map_of (map (\<lambda>job. (job_id job, job)) jobs_to_launch)) jid) (\<lambda>job_to_launch.
         if is_timesharing_for_two_jobs be_job job_to_launch \<or> job_id be_job \<in> set fragged
         then Inr (fragged, w)
         else res_bind (kill_besteffort be_job now w) (\<lambda>w'. Inr (fragged @ [job_id be_job], w'))))"

definition check_besteffort_jobs_to_kill ::
    "'p job list \<Rightarrow> (nat \<times> int) list \<Rightarrow> int \<Rightarrow> (nat \<times> 'p job) list \<Rightarrow> db \<Rightarrow> (int \<times> db) res" where
  "check_besteffort_jobs_to_kill jobs_to_launch rid2jid now besteffort_rid2job w =
     res_bind (fold_res (check_besteffort_job jobs_to_launch now besteffort_rid2job) rid2jid ([], w))
       (\<lambda>(fragged, w'). Inr (if fragged \<noteq> [] then 1 else 0, w'))"

section \<open>Jobs whose time has come\<close>

text \<open>
  A reservation that is late loses the time it is late, counted from the walltime of the schedulers, which
  includes the security time; the message of the job holds the walltime in seconds, so the pattern with
  colons is not found in it.
\<close>

definition handle_job_to_launch :: "'f world \<Rightarrow> int \<Rightarrow> 'p job \<Rightarrow> 'p meta \<Rightarrow> 'p meta res" where
  "handle_job_to_launch W now job s =
     res_bind (attr (walltime job)) (\<lambda>wt.
     res_bind (row_of job (m_db s)) (\<lambda>row.
     let w' = (if j_reservation row = ''Scheduled'' \<and> start_time job < now then
           let max_time = wt - (now - start_time job);
               w1 = set_moldable_job_max_time (moldable_id job) max_time (m_db s);
               w2 = set_gantt_job_start_time (moldable_id job) now w1;
               w3 = add_new_event ''REDUCE_RESERVATION_WALLTIME'' (job_id job)
                      (''Change walltime from '' @ int_str wt @ '' to '' @ int_str max_time) ''YES'' w2 in
           replace_in_message (CHR ''W'') 3 (duration_to_sql max_time) (job_id job) (j_message row) w3
         else m_db s) in
     prepare_job_to_be_launched W job now (s\<lparr>m_db := w'\<rparr>)))"

definition handle_jobs_to_launch :: "'f world \<Rightarrow> 'p job list \<Rightarrow> int \<Rightarrow> 'p meta \<Rightarrow> (int \<times> 'p meta) res" where
  "handle_jobs_to_launch W jobs now s =
     res_bind (fold_res (handle_job_to_launch W now) jobs s) (\<lambda>s'. Inr (if jobs \<noteq> [] then 1 else 0, s'))"

definition update_gantt_visualization :: "db \<Rightarrow> db" where
  "update_gantt_visualization w = w\<lparr>t_predictions_visu := t_predictions w, t_gantt_visu := t_gantt w\<rparr>"

section \<open>The schedulers\<close>

text \<open>
  What the return code of \<open>wait\<close> means to the code: the high byte, the signal and the core bit of a
  \<open>wait\<close> status.
\<close>

definition call_external_scheduler ::
    "'p procset_ops \<Rightarrow> nat \<Rightarrow> 'f world \<Rightarrow> ('p, 'f) site \<Rightarrow> 'p resource_set \<Rightarrow> int \<Rightarrow> queue_row \<Rightarrow> int \<Rightarrow>
     'p meta \<Rightarrow> 'p meta res" where
  "call_external_scheduler P fuel W X rs security queue now s =
     (case wd_scheduler W (q_policy queue) (q_name queue) now (m_db s) of (rc, w) \<Rightarrow>
      let failed = (case rc of None \<Rightarrow> True | Some c \<Rightarrow> c mod 128 \<noteq> 0 \<or> c div 128 mod 2 = 1);
          bad = (case rc of None \<Rightarrow> False | Some c \<Rightarrow> c div 256 \<noteq> 0);
          w1 = (if failed then stop_queue (q_name queue) w else w);
          w2 = (if bad then stop_queue (q_name queue) w1 else w1) in
      res_bind (get_after_sched_no_AR_jobs P (site_lib X) (q_name queue) rs security now w2) (\<lambda>scheduled_jobs.
      res_bind (if scheduled_jobs \<noteq> [] then
            set_slots_with_prev_scheduled_jobs P fuel (m_env s) (m_sets s) scheduled_jobs security now
              (q_name queue \<noteq> ''besteffort'') False
          else Inr (m_env s, m_sets s)) (\<lambda>(E, sss).
        Inr (s\<lparr>m_db := flush_start_times scheduled_jobs w2, m_env := E, m_sets := sss\<rparr>))))"

definition call_internal_scheduler ::
    "'p procset_ops \<Rightarrow> nat \<Rightarrow> ('p, 'f::linorder) site \<Rightarrow> 'p job list \<Rightarrow> int \<Rightarrow> queue_row list \<Rightarrow> int \<Rightarrow>
     'p meta \<Rightarrow> 'p meta res" where
  "call_internal_scheduler P fuel X scheduled_jobs security queues now s =
     res_bind (if map q_name queues = [''besteffort''] then
         set_slots_with_prev_scheduled_jobs P fuel (m_env s) (m_sets s) scheduled_jobs security now False True
       else Inr (m_env s, m_sets s)) (\<lambda>(E, sss).
     res_bind (internal_schedule_cycle P fuel X E now sss security (map q_name queues) (m_db s))
       (\<lambda>(E', sss', w). Inr (s\<lparr>m_db := w, m_env := E', m_sets := sss'\<rparr>)))"

text \<open>\<open>extra_metasched_foo\<close> of \<open>kao/extra_metasched.py\<close>, the only such function.\<close>

definition extra_metasched_foo :: "bool \<Rightarrow> db \<Rightarrow> db res" where
  "extra_metasched_foo is_first w =
     (if is_first then
        (case t_resources w of [] \<Rightarrow> Inl AttributeError
         | r # rs \<Rightarrow> Inr (w\<lparr>t_resources := sql_update (\<lambda>x. r_id x = r_id r)
               (\<lambda>x. x\<lparr>r_props := (r_props x)(''deploy'' := ''YES'')\<rparr>) (t_resources w)\<rparr>))
      else Inr w)"

definition extra_metasched_func :: "db \<Rightarrow> (bool \<Rightarrow> db \<Rightarrow> db res) res" where
  "extra_metasched_func w = (case db_config w ''EXTRA_METASCHED'' of
     None \<Rightarrow> Inr (\<lambda>b. Inr)
   | Some name \<Rightarrow> if name = ''default'' then Inr (\<lambda>b. Inr)
       else if name = ''foo'' then Inr extra_metasched_foo else Inl AttributeError)"

section \<open>Energy saving\<close>

definition sleep_configured :: "db \<Rightarrow> bool res" where
  "sleep_configured w =
     (if db_config w ''SCHEDULER_NODE_MANAGER_SLEEP_CMD'' \<noteq> None then Inr True
      else res_bind (lookup_res (db_config w) ''ENERGY_SAVING_INTERNAL'') (\<lambda>internal.
        Inr (internal = ''yes'' \<and> db_config w ''ENERGY_SAVING_NODE_MANAGER_SLEEP_CMD'' \<noteq> None)))"

definition may_halt :: "int \<Rightarrow> int \<Rightarrow> int \<Rightarrow> db \<Rightarrow> string \<Rightarrow> bool" where
  "may_halt now sleep_duration tmp_time w node \<longleftrightarrow>
     (case get_next_job_date_on_node node w of None \<Rightarrow> True | Some t \<Rightarrow> t - sleep_duration > now) \<and>
     (case get_last_wake_up_date_of_node node w of None \<Rightarrow> True | Some t \<Rightarrow> t < tmp_time)"

text \<open>The nodes to halt and the nodes to wake up.\<close>

definition nodes_energy_saving :: "int \<Rightarrow> db \<Rightarrow> (string list \<times> string list) res" where
  "nodes_energy_saving now w =
     res_bind (sleep_configured w) (\<lambda>configured.
     res_bind (if configured \<and> db_config w ''SCHEDULER_NODE_MANAGER_SLEEP_TIME'' \<noteq> None
                 \<and> db_config w ''SCHEDULER_NODE_MANAGER_IDLE_TIME'' \<noteq> None then
         res_bind (config_int ''SCHEDULER_NODE_MANAGER_IDLE_TIME'' w) (\<lambda>idle_duration.
         res_bind (config_int ''SCHEDULER_NODE_MANAGER_SLEEP_TIME'' w) (\<lambda>sleep_duration.
           let tmp_time = now - idle_duration in
           Inr (map fst (filter (\<lambda>(node, last). last < tmp_time \<and> may_halt now sleep_duration tmp_time w node)
             (search_idle_nodes now w)))))
       else Inr []) (\<lambda>halt.
     res_bind (if configured then
         res_bind (config_int ''SCHEDULER_NODE_MANAGER_WAKEUP_TIME'' w)
           (\<lambda>wakeup_time. Inr (get_gantt_hostname_to_wake_up now wakeup_time w))
       else Inr []) (\<lambda>wakeup. Inr (halt, wakeup))))"

text \<open>
  One command for a list of nodes: a message to Hulot, or the command of the configuration, which
  \<open>fork_and_feed_stdin\<close> does not run (\<open>NotImplementedError\<close>).
\<close>

definition command_nodes :: "bool \<Rightarrow> string \<Rightarrow> string \<Rightarrow> string list \<Rightarrow> db \<Rightarrow> db res" where
  "command_nodes internal cmd setting nodes w =
     (if nodes = [] then Inr w
      else if internal then Inr (send (Hulot cmd nodes) w)
      else res_bind (lookup_res (db_config w) setting) (\<lambda>c. Inl NotImplementedError))"

definition energy_saving :: "'f world \<Rightarrow> int \<Rightarrow> db \<Rightarrow> db res" where
  "energy_saving W now w = (case db_config w ''ENERGY_SAVING_MODE'' of
     None \<Rightarrow> Inr w
   | Some mode \<Rightarrow> if mode = '''' then Inr w else
       res_bind (if mode = ''metascheduler_decision_making'' then
           res_bind (nodes_energy_saving now w) (\<lambda>nodes. Inr (Some nodes))
         else if mode = ''batsim_scheduler_proxy_decision_making'' then Inl AttributeError else Inr None)
         (\<lambda>nodes.
       if \<not> wd_hulot W then Inl SystemExit else
       res_bind (config_int ''SCHEDULER_TIMEOUT'' w) (\<lambda>timeout_cmd.
       case nodes of None \<Rightarrow> Inl UnboundLocalError | Some (halt, wakeup) \<Rightarrow>
       res_bind (lookup_res (db_config w) ''ENERGY_SAVING_INTERNAL'') (\<lambda>internal.
       res_bind (command_nodes (internal = ''yes'') ''HALT'' ''SCHEDULER_NODE_MANAGER_SLEEP_CMD'' halt w) (\<lambda>w1.
       res_bind (command_nodes (internal = ''yes'') ''WAKEUP'' ''SCHEDULER_NODE_MANAGER_WAKE_UP_CMD'' wakeup w1) (\<lambda>w2.
         Inr (if internal = ''yes'' \<and> halt = [] \<and> wakeup = [] then send (Hulot ''CHECK'' []) w2 else w2)))))))"

section \<open>Answers\<close>

definition addr_port :: "string option \<Rightarrow> (string \<times> string) res" where
  "addr_port info = (case info of None \<Rightarrow> Inl AttributeError
     | Some t \<Rightarrow> (case split_on (CHR '':'') t of [a, p] \<Rightarrow> Inr (a, p) | _ \<Rightarrow> Inl ValueError))"

definition newline :: string where "newline = [CHR 0x0A]"

text \<open>The script before a resumption; one that fails or is too slow deletes the job.\<close>

definition resume_script :: "'f world \<Rightarrow> int \<Rightarrow> db \<Rightarrow> db res" where
  "resume_script W jid w =
     res_bind (lookup_res (db_config w) ''JUST_BEFORE_RESUME_EXEC_FILE'') (\<lambda>script.
     res_bind (lookup_res (db_config_int w) ''SUSPEND_RESUME_SCRIPT_TIMEOUT'') (\<lambda>timeout.
     let rc = wd_script W script jid;
         code = (case rc of None \<Rightarrow> - 1 | Some c \<Rightarrow> c);
         w1 = (if rc = None then add_new_event ''RESUME_SCRIPT_ERROR'' jid ''Suspend script timeouted'' ''YES'' w
               else w) in
     if code \<noteq> 0 then
       res_bind (frag_job jid None (add_new_event ''RESUME_SCRIPT_ERROR'' jid
           (''['' @ int_str jid @ ''] Suspend script error, return code = '' @ int_str code) ''YES'' w1))
         (\<lambda>(c, w2). Inr (notify_almighty ''Qdel'' w2))
     else Inr w1))"

text \<open>
  A job to resume. \<open>types_of\<close> gives the types of the jobs loaded at the beginning of the round, the others
  have no such attribute; \<open>bound\<close> tells whether the variable \<open>skip\<close> was assigned, which only the branch of
  the script does. Resuming is not finished in the code: after a script that succeeds nothing happens.
\<close>

definition resume_waiting_job ::
    "'f world \<Rightarrow> (int \<rightharpoonup> (string \<times> string) list) \<Rightarrow> job_row \<Rightarrow> bool \<times> db \<Rightarrow> (bool \<times> db) res" where
  "resume_waiting_job W types_of j st = (case st of (bound, w) \<Rightarrow>
     if get_jobs_on_resuming_job_resources (j_id j) w \<noteq> [] then Inr (bound, w) else
     res_bind (attr (types_of (j_id j))) (\<lambda>tys.
     res_bind (if ''noop'' \<in> set (map fst tys) then Inr (bound, resume_job_action (j_id j) w)
         else res_bind (resume_script W (j_id j) w) (\<lambda>w1. Inr (True, w1))) (\<lambda>(bound', w').
     if config_or ''JOB_RESOURCE_MANAGER_PROPERTY_DB_FIELD'' '''' w' \<noteq> '''' \<and> \<not> bound'
     then Inl UnboundLocalError else Inr (bound', w'))))"

definition start_prediction :: "'f world \<Rightarrow> int \<Rightarrow> int \<times> string option \<times> int \<times> string \<Rightarrow> db \<Rightarrow> db res" where
  "start_prediction W now info w = (case info of (jid, info_type, start, message) \<Rightarrow>
     res_bind (addr_port info_type) (\<lambda>(addr, port).
     res_bind (notify_tcp_socket W addr port (''['' @ wd_local W now @ ''] Start prediction: '' @ wd_local W start
         @ '' ('' @ message @ '')'') w) (\<lambda>(n, w'). Inr w')))"

definition handle_to_error :: "'f world \<Rightarrow> job_row \<Rightarrow> db \<Rightarrow> db res" where
  "handle_to_error W j w =
     res_bind (addr_port (j_info_type j)) (\<lambda>(addr, port).
     res_bind (if j_type j = ''INTERACTIVE'' \<or> (j_type j = ''PASSIVE'' \<and> j_reservation j = ''Scheduled'') then
         res_bind (notify_tcp_socket W addr port (j_message j @ newline) w) (\<lambda>(n1, w1).
         res_bind (notify_tcp_socket W addr port (''BAD JOB'' @ newline) w1) (\<lambda>(n2, w2). Inr w2))
       else Inr w) (\<lambda>w'.
     Inr (set_job_state (j_id j) ''Error'' w')))"

text \<open>A reservation that waits for its answer: the job waits for its date, or is deleted.\<close>

definition handle_to_ack :: "'f world \<Rightarrow> int \<Rightarrow> job_row \<Rightarrow> int \<times> db \<Rightarrow> (int \<times> db) res" where
  "handle_to_ack W now j st = (case st of (code, w) \<Rightarrow>
     res_bind (addr_port (j_info_type j)) (\<lambda>(addr, port).
     res_bind (notify_tcp_socket W addr port (''GOOD RESERVATION'' @ newline) w) (\<lambda>(n, w1).
     if n = 0 then
       res_bind (frag_job (j_id j) None (add_new_event ''CANNOT_NOTIFY_OARSUB'' (j_id j)
           (''Can not notify oarsub for the job '' @ int_str (j_id j)) ''YES'' w1)) (\<lambda>(c, w2). Inr (2, w2))
     else Inr (if j_start_time j - 1 \<le> now \<and> code = 0 then 1 else code, set_job_state (j_id j) ''Waiting'' w1))))"

definition jobs_in :: "string \<Rightarrow> (string \<times> job_row list) list \<Rightarrow> job_row list" where
  "jobs_in state d = (case map_of d state of None \<Rightarrow> [] | Some js \<Rightarrow> js)"

text \<open>What follows the launching: the jobs are read once, by state, and treated in this order.\<close>

definition answer_jobs ::
    "'f world \<Rightarrow> 'p job list \<Rightarrow> int \<Rightarrow> int \<Rightarrow> 'p meta \<Rightarrow> (int \<times> 'p meta) res" where
  "answer_jobs W scheduled_jobs now code s =
     (let by_state = get_current_not_waiting_jobs (m_db s);
          types_of = map_of (map (\<lambda>job. (job_id job, types job)) scheduled_jobs) in
      res_bind (fold_res (resume_waiting_job W types_of) (jobs_in ''Resuming'' by_state) (False, m_db s)) (\<lambda>(bound, w1).
      res_bind (fold_res (start_prediction W now) (get_gantt_waiting_interactive_prediction_date w1) w1) (\<lambda>w2.
      res_bind (fold_res (handle_to_error W) (jobs_in ''toError'' by_state) w2) (\<lambda>w3.
      res_bind (fold_res (handle_to_ack W now) (jobs_in ''toAckReservation'' by_state) (code, w3)) (\<lambda>(code', w4).
      res_bind (fold_res (\<lambda>j. notify_to_run_job W (j_id j)) (jobs_in ''toLaunch'' by_state) (s\<lparr>m_db := w4\<rparr>)) (\<lambda>s'.
        Inr (code', s')))))))"

section \<open>The round\<close>

text \<open>The option is compared with \<open>yes\<close>; \<open>lib/walltime.py\<close> compares the same option with \<open>YES\<close>.\<close>

definition walltime_phase :: "'f world \<Rightarrow> db \<Rightarrow> db res" where
  "walltime_phase W w =
     (if wd_conf W ''WALLTIME_CHANGE_ENABLED'' = Some (Conf_str ''yes'')
      then process_walltime_change_requests (wd_eval W) (wd_conf W) w else Inr w)"

definition handle_queue ::
    "'p procset_ops \<Rightarrow> nat \<Rightarrow> ('p, 'f) site \<Rightarrow> 'p resource_set \<Rightarrow> int \<Rightarrow> int \<Rightarrow> int \<Rightarrow> queue_row \<Rightarrow> 'p meta \<Rightarrow>
     'p meta res" where
  "handle_queue P fuel X rs security waiting_timeout now queue s =
     res_bind (handle_waiting_reservation_jobs P X (q_name queue) rs security waiting_timeout now (m_db s)) (\<lambda>w.
       check_reservation_jobs P fuel X rs (q_name queue) now (s\<lparr>m_db := w\<rparr>))"

text \<open>An unknown mode runs no scheduler. The proxy of the simulator is not modelled.\<close>

definition handle_external_queue ::
    "'p procset_ops \<Rightarrow> nat \<Rightarrow> 'f world \<Rightarrow> ('p, 'f) site \<Rightarrow> string \<Rightarrow> 'p resource_set \<Rightarrow> int \<Rightarrow> int \<Rightarrow> int \<Rightarrow>
     queue_row \<Rightarrow> 'p meta \<Rightarrow> 'p meta res" where
  "handle_external_queue P fuel W X mode rs security waiting_timeout now queue s =
     res_bind (if mode = ''external'' then call_external_scheduler P fuel W X rs security queue now s
       else if mode = ''batsim_sched_proxy'' then Inl Unmodelled else Inr s) (\<lambda>s1.
     res_bind (handle_waiting_reservation_jobs P X (q_name queue) rs security waiting_timeout now (m_db s1)) (\<lambda>w.
       Inr (s1\<lparr>m_db := w\<rparr>)))"

definition schedule_queues ::
    "'p procset_ops \<Rightarrow> nat \<Rightarrow> 'f::linorder world \<Rightarrow> ('p, 'f) site \<Rightarrow> string \<Rightarrow> 'p resource_set \<Rightarrow> int \<Rightarrow> int \<Rightarrow> int \<Rightarrow>
     'p job list \<Rightarrow> (bool \<Rightarrow> db \<Rightarrow> db res) \<Rightarrow> queue_row list \<Rightarrow> bool \<times> 'p meta \<Rightarrow> (bool \<times> 'p meta) res" where
  "schedule_queues P fuel W X mode rs security waiting_timeout now scheduled_jobs extra queues st =
     (case st of (is_first, s) \<Rightarrow>
      res_bind (extra is_first (m_db s)) (\<lambda>w.
      let s1 = s\<lparr>m_db := w\<rparr>; active = filter (\<lambda>q. q_state q = ''Active'') queues in
      res_bind (if mode = ''internal'' then
          res_bind (call_internal_scheduler P fuel X scheduled_jobs security active now s1)
            (fold_res (handle_queue P fuel X rs security waiting_timeout now) active)
        else fold_res (handle_external_queue P fuel W X mode rs security waiting_timeout now) active s1) (\<lambda>s2.
      Inr (False, s2))))"

text \<open>Besteffort jobs are killed, and nothing is launched, or the jobs whose date has come are launched.\<close>

definition launch_or_kill ::
    "'p procset_ops \<Rightarrow> 'f world \<Rightarrow> ('p, 'f) site \<Rightarrow> 'p resource_set \<Rightarrow> int \<Rightarrow> int \<Rightarrow> int \<Rightarrow> (nat \<times> 'p job) list \<Rightarrow>
     'p meta \<Rightarrow> (int \<times> 'p meta) res" where
  "launch_or_kill P W X rs security kill_duration now besteffort_rid2job s =
     res_bind (get_gantt_jobs_to_launch P (site_lib X) rs security now kill_duration (m_db s)) (\<lambda>(jobs, rid2jid).
     let w = flush_start_times jobs (m_db s) in
     res_bind (check_besteffort_jobs_to_kill jobs rid2jid now besteffort_rid2job w) (\<lambda>(killed, w1).
     if killed = 1 then Inr (2, s\<lparr>m_db := notify_almighty ''ChState'' w1\<rparr>)
     else res_bind (handle_jobs_to_launch W (filter (\<lambda>j. start_time j \<le> now) jobs) now (s\<lparr>m_db := w1\<rparr>))
       (\<lambda>(launched, s'). Inr (0, s'))))"

definition meta_schedule ::
    "'p procset_ops \<Rightarrow> nat \<Rightarrow> 'f::linorder world \<Rightarrow> ('p, 'f) site \<Rightarrow> string \<Rightarrow> 'p meta \<Rightarrow> (int \<times> 'p meta) res" where
  "meta_schedule P fuel W X mode s0 =
     res_bind (config_int ''RESERVATION_WAITING_RESOURCES_TIMEOUT'' (m_db s0)) (\<lambda>waiting_timeout.
     res_bind (config_int ''SCHEDULER_JOB_SECURITY_TIME'' (m_db s0)) (\<lambda>security.
     res_bind (if db_config (m_db s0) ''SCHEDULER_BESTEFFORT_KILL_DURATION_BEFORE_RESERVATION'' = None then Inr 0
       else config_int ''SCHEDULER_BESTEFFORT_KILL_DURATION_BEFORE_RESERVATION'' (m_db s0)) (\<lambda>kill_duration.
     res_bind (if db_config (m_db s0) ''QUOTAS'' = Some ''yes'' then
         res_bind (resource_set_of P (site_order X) (m_db s0)) (\<lambda>rs.
           quotas_enable (floats (site_policies X)) (wd_date W) (wd_json W) rs (m_db s0) (m_env s0))
       else Inr (m_env s0)) (\<lambda>E.
     res_bind (walltime_phase W (m_db s0)) (\<lambda>w.
     res_bind (lookup_res (db_config w) ''SERVER_HOSTNAME'') (\<lambda>host.
     res_bind (lookup_res (db_config w) ''APPENDICE_SERVER_PORT'') (\<lambda>port.
     let now = get_date w in
     res_bind (gantt_init_with_running_jobs P fuel X now security (s0\<lparr>m_db := w, m_env := E\<rparr>))
       (\<lambda>(s1, scheduled_jobs, besteffort_rid2job).
     res_bind (resource_set_of P (site_order X) (m_db s1)) (\<lambda>rs.
     res_bind (extra_metasched_func (m_db s1)) (\<lambda>extra.
     res_bind (fold_res (schedule_queues P fuel W X mode rs security waiting_timeout now scheduled_jobs extra)
         (get_queues_groupby_priority (m_db s1)) (True, s1)) (\<lambda>(is_first, s2).
     res_bind (launch_or_kill P W X rs security kill_duration now besteffort_rid2job s2) (\<lambda>(code, s3).
     res_bind (energy_saving W now (update_gantt_visualization (m_db s3))) (\<lambda>w4.
       answer_jobs W scheduled_jobs now code (s3\<lparr>m_db := w4\<rparr>))))))))))))))"

end
