(* ===== verification/Accounting.thy ===== *)
theory Accounting
  imports Resources_Db
begin

text \<open>
  The accounting of the consumed resources (\<open>oar/lib/accounting.py\<close>). \<open>update_accounting\<close> cuts the
  time of a job into the windows of a fixed size and adds to each window the seconds of the job that
  fall in it, once per resource. \<open>consumed\<close> reads the table back; \<open>accounting_loop_exact\<close> says what the
  loop adds to it, window by window and in total.

  The loop ends only for a positive size of the windows (a negative size moves the windows away from
  the end of the job), so it is a \<open>partial_function\<close>: \<open>None\<close> is a run that does not end.
\<close>

section \<open>The code\<close>

text \<open>Python's \<open>int(a / b)\<close>, which truncates, as long as the quotient of the floats is exact enough.\<close>

definition int_of_quotient :: "int \<Rightarrow> int \<Rightarrow> int" where
  "int_of_quotient a b = sgn a * sgn b * (\<bar>a\<bar> div \<bar>b\<bar>)"

definition add_accounting_row ::
    "int \<Rightarrow> int \<Rightarrow> string \<Rightarrow> string \<Rightarrow> string \<Rightarrow> string \<Rightarrow> int \<Rightarrow> db \<Rightarrow> db res" where
  "add_accounting_row window_start window_stop user project queue_name c_type consumption w =
     (let here = (\<lambda>a. ac_user a = user \<and> ac_project a = project \<and> ac_type a = c_type \<and>
                      ac_queue a = queue_name \<and> ac_start a = window_start \<and> ac_stop a = window_stop) in
      case filter here (t_accounting w) of
        [] \<Rightarrow> Inr (w\<lparr>t_accounting := t_accounting w @
          [\<lparr>ac_start = window_start, ac_stop = window_stop, ac_user = user, ac_project = project,
            ac_queue = queue_name, ac_type = c_type, ac_consumption = consumption\<rparr>]\<rparr>)
      | [a] \<Rightarrow> (let total = consumption + ac_consumption a in
          Inr (w\<lparr>t_accounting := sql_update here (\<lambda>a. a\<lparr>ac_consumption := total\<rparr>) (t_accounting w)\<rparr>))
      | _ \<Rightarrow> Inl MultipleResultsFound)"

partial_function (option) accounting_loop ::
    "int \<Rightarrow> string \<Rightarrow> string \<Rightarrow> string \<Rightarrow> string \<Rightarrow> int \<Rightarrow> int \<Rightarrow> int \<Rightarrow> int \<Rightarrow> int \<Rightarrow> db \<Rightarrow> db res option" where
  "accounting_loop window_size user project queue_name c_type nb stop_time window_start window_stop start_time w =
     (if stop_time > start_time then
        let consumption = (if stop_time \<le> window_stop then stop_time - start_time
                           else window_stop - start_time + 1) in
        (case add_accounting_row window_start window_stop user project queue_name c_type
                (consumption * nb) w of
           Inl e \<Rightarrow> Some (Inl e)
         | Inr w' \<Rightarrow> accounting_loop window_size user project queue_name c_type nb stop_time (window_stop + 1)
                      (window_stop + window_size) (window_stop + 1) w')
      else Some (Inr w))"

definition update_accounting ::
    "int \<Rightarrow> int \<Rightarrow> int \<Rightarrow> string \<Rightarrow> string \<Rightarrow> string \<Rightarrow> string \<Rightarrow> int \<Rightarrow> db \<Rightarrow> db res option" where
  "update_accounting start_time stop_time window_size user project queue_name c_type nb w =
     (if window_size = 0 then Some (Inl ZeroDivisionError) else
      let nb_windows = int_of_quotient start_time window_size;
          window_start = nb_windows * window_size;
          window_stop = window_start + window_size - 1 in
      accounting_loop window_size user project queue_name c_type nb stop_time
        window_start window_stop start_time w)"

text \<open>
  The query of \<open>check_accounting_update\<close>: one row per group of equal columns, with the number of joined
  resources. The order of the groups is the one of their last rows; SQL promises none.
\<close>

record accounting_info =
  ai_start :: int
  ai_stop :: int
  ai_walltime :: int
  ai_job :: int
  ai_user :: string
  ai_queue :: string
  ai_project :: string

definition accounting_join :: "db \<Rightarrow> accounting_info list" where
  "accounting_join w =
     [\<lparr>ai_start = j_start_time j, ai_stop = j_stop_time j, ai_walltime = m_walltime m, ai_job = j_id j,
       ai_user = j_user j, ai_queue = j_queue_name j, ai_project = j_project j\<rparr>.
      j \<leftarrow> filter (\<lambda>j. j_accounted j = ''NO'' \<and> (j_state j = ''Terminated'' \<or> j_state j = ''Error'') \<and>
             j_stop_time j \<ge> j_start_time j \<and> j_start_time j > 1) (t_jobs w),
      m \<leftarrow> t_moldables w, a \<leftarrow> t_assigned w, r \<leftarrow> t_resources w,
      j_assigned_moldable_job j = m_id m \<and> a_mld a = m_id m \<and> a_res a = r_id r \<and> r_type r = ''default'']"

definition jobs_to_account :: "db \<Rightarrow> (accounting_info \<times> int) list" where
  "jobs_to_account w = (let rows = accounting_join w in
     map (\<lambda>i. (i, sql_count (\<lambda>i'. i' = i) rows)) (remdups rows))"

definition account_job :: "int \<Rightarrow> accounting_info \<times> int \<Rightarrow> db \<Rightarrow> db res option" where
  "account_job window_size row w = (let (i, nb) = row; max_stop_time = ai_start i + ai_walltime i in
     case update_accounting (ai_start i) (ai_stop i) window_size (ai_user i) (ai_project i) (ai_queue i)
            ''USED'' nb w of
       None \<Rightarrow> None
     | Some (Inl e) \<Rightarrow> Some (Inl e)
     | Some (Inr w1) \<Rightarrow>
         (case update_accounting (ai_start i) max_stop_time window_size (ai_user i) (ai_project i)
                 (ai_queue i) ''ASKED'' nb w1 of
            None \<Rightarrow> None
          | Some (Inl e) \<Rightarrow> Some (Inl e)
          | Some (Inr w2) \<Rightarrow> Some (Inr
              (w2\<lparr>t_jobs := sql_update (\<lambda>j. True) (\<lambda>j. j\<lparr>j_accounted := ''YES''\<rparr>) (t_jobs w2)\<rparr>))))"

fun account_jobs :: "int \<Rightarrow> (accounting_info \<times> int) list \<Rightarrow> db \<Rightarrow> db res option" where
  "account_jobs window_size [] w = Some (Inr w)"
| "account_jobs window_size (row # rows) w = (case account_job window_size row w of
     Some (Inr w') \<Rightarrow> account_jobs window_size rows w'
   | r \<Rightarrow> r)"

definition check_accounting_update :: "int \<Rightarrow> db \<Rightarrow> db res option" where
  "check_accounting_update window_size w = account_jobs window_size (jobs_to_account w) w"

definition delete_all_from_accounting :: "db \<Rightarrow> db" where
  "delete_all_from_accounting w = w\<lparr>t_accounting := [],
     t_jobs := sql_update (\<lambda>j. True) (\<lambda>j. j\<lparr>j_accounted := ''NO''\<rparr>) (t_jobs w)\<rparr>"

definition delete_accounting_windows_before :: "int \<Rightarrow> db \<Rightarrow> db" where
  "delete_accounting_windows_before window_stop w =
     w\<lparr>t_accounting := filter (\<lambda>a. \<not> ac_stop a \<le> window_stop) (t_accounting w)\<rparr>"

section \<open>What the table says\<close>

definition ac_key :: "accounting_row \<Rightarrow> int \<times> int \<times> string \<times> string \<times> string \<times> string" where
  "ac_key a = (ac_start a, ac_stop a, ac_user a, ac_project a, ac_queue a, ac_type a)"

definition consumed_in :: "string \<Rightarrow> string \<Rightarrow> string \<Rightarrow> string \<Rightarrow> int \<Rightarrow> int \<Rightarrow> db \<Rightarrow> int" where
  "consumed_in user project queue_name c_type first_s last_s w =
     (\<Sum>a\<leftarrow>filter (\<lambda>a. ac_key a = (first_s, last_s, user, project, queue_name, c_type)) (t_accounting w).
        ac_consumption a)"

definition consumed :: "string \<Rightarrow> string \<Rightarrow> string \<Rightarrow> string \<Rightarrow> db \<Rightarrow> int" where
  "consumed user project queue_name c_type w =
     (\<Sum>a\<leftarrow>filter (\<lambda>a. (ac_user a, ac_project a, ac_queue a, ac_type a) = (user, project, queue_name, c_type))
        (t_accounting w). ac_consumption a)"

definition accounting_ok :: "db \<Rightarrow> bool" where
  "accounting_ok w = distinct (map ac_key (t_accounting w))"

text \<open>The seconds of \<open>[start_time, stop_time)\<close> from \<open>first_s\<close> to \<open>last_s\<close>, both included.\<close>

definition overlap :: "int \<Rightarrow> int \<Rightarrow> int \<Rightarrow> int \<Rightarrow> int" where
  "overlap start_time stop_time first_s last_s = max 0 (min stop_time (last_s + 1) - max start_time first_s)"

lemma sum_sql_update:
  assumes "distinct (map k xs)" and "x \<in> set xs" and "k x = c"
    and "\<And>y. Q (g y) = Q y"
  shows "sum_list (map f (filter Q (sql_update (\<lambda>y. k y = c) g xs))) =
    sum_list (map f (filter Q xs)) + (if Q x then f (g x) - f x else (0 :: int))"
  using assms
proof (induction xs)
  case (Cons y ys)
  show ?case
  proof (cases "x = y")
    case True
    with Cons.prems have "sql_update (\<lambda>y. k y = c) g ys = ys"
      by (intro sql_update_none) (auto simp: image_iff)
    with True Cons.prems show ?thesis by (simp add: sql_update_def)
  next
    case False
    with Cons.prems have "x \<in> set ys" "k y \<noteq> c" by (auto simp: image_iff)
    with Cons show ?thesis by (simp add: sql_update_def)
  qed
qed simp

lemma add_accounting_row_eq:
  "add_accounting_row first_s last_s user project queue_name c_type c w =
   (let here = (\<lambda>a. ac_key a = (first_s, last_s, user, project, queue_name, c_type)) in
    case filter here (t_accounting w) of
      [] \<Rightarrow> Inr (w\<lparr>t_accounting := t_accounting w @
        [\<lparr>ac_start = first_s, ac_stop = last_s, ac_user = user, ac_project = project,
          ac_queue = queue_name, ac_type = c_type, ac_consumption = c\<rparr>]\<rparr>)
    | [a] \<Rightarrow> Inr (w\<lparr>t_accounting :=
        sql_update here (\<lambda>a'. a'\<lparr>ac_consumption := c + ac_consumption a\<rparr>) (t_accounting w)\<rparr>)
    | _ \<Rightarrow> Inl MultipleResultsFound)"
proof -
  have "(\<lambda>a. ac_user a = user \<and> ac_project a = project \<and> ac_type a = c_type \<and> ac_queue a = queue_name \<and>
      ac_start a = first_s \<and> ac_stop a = last_s) =
    (\<lambda>a. ac_key a = (first_s, last_s, user, project, queue_name, c_type))"
    by (auto simp: ac_key_def)
  thus ?thesis by (simp add: add_accounting_row_def Let_def split: list.split)
qed

text \<open>One row adds its seconds to its own window and to no other, and keeps the keys apart.\<close>

lemma add_accounting_row_adds:
  assumes "accounting_ok w"
  shows "\<exists>w'. add_accounting_row first_s last_s user project queue_name c_type c w = Inr w' \<and> accounting_ok w' \<and>
    t_jobs w' = t_jobs w \<and>
    (\<forall>u p q t. consumed u p q t w' = consumed u p q t w +
       (if (u, p, q, t) = (user, project, queue_name, c_type) then c else 0)) \<and>
    (\<forall>u p q t f l. consumed_in u p q t f l w' = consumed_in u p q t f l w +
       (if (f, l, u, p, q, t) = (first_s, last_s, user, project, queue_name, c_type) then c else 0))"
    (is "\<exists>w'. ?run = Inr w' \<and> ?good w'")
proof -
  let ?c = "(first_s, last_s, user, project, queue_name, c_type)"
  from assms have dist: "distinct (map ac_key (t_accounting w))" by (simp add: accounting_ok_def)
  thus ?thesis
  proof (cases rule: filter_key_cases [where c = ?c])
    case 1
    with dist show ?thesis
      by (auto simp: add_accounting_row_eq Let_def accounting_ok_def consumed_def consumed_in_def ac_key_def)
  next
    case (2 a)
    let ?g = "\<lambda>a'. a'\<lparr>ac_consumption := c + ac_consumption a\<rparr>"
    let ?rows = "sql_update (\<lambda>a. ac_key a = ?c) ?g (t_accounting w)"
    have run: "?run = Inr (w\<lparr>t_accounting := ?rows\<rparr>)"
      by (simp add: add_accounting_row_eq 2)
    have keys: "map ac_key ?rows = map ac_key (t_accounting w)"
      by (rule map_sql_update) (simp add: ac_key_def)
    have sums: "sum_list (map ac_consumption (filter Q ?rows)) =
        sum_list (map ac_consumption (filter Q (t_accounting w))) + (if Q a then c else 0)"
      if "\<And>y. Q (?g y) = Q y" for Q
      using sum_sql_update [OF dist \<open>a \<in> set (t_accounting w)\<close> \<open>ac_key a = ?c\<close>, of Q ?g ac_consumption, OF that]
      by simp
    have total: "consumed u p q t (w\<lparr>t_accounting := ?rows\<rparr>) = consumed u p q t w +
        (if (ac_user a, ac_project a, ac_queue a, ac_type a) = (u, p, q, t) then c else 0)" for u p q t
      unfolding consumed_def by (simp add: sums)
    have window: "consumed_in u p q t f l (w\<lparr>t_accounting := ?rows\<rparr>) = consumed_in u p q t f l w +
        (if ac_key a = (f, l, u, p, q, t) then c else 0)" for u p q t f l
      unfolding consumed_in_def using sums [of "\<lambda>a. ac_key a = (f, l, u, p, q, t)"]
      by (simp add: ac_key_def)
    from \<open>ac_key a = ?c\<close> have "(ac_user a, ac_project a, ac_queue a, ac_type a) =
        (user, project, queue_name, c_type)" by (simp add: ac_key_def)
    hence "?good (w\<lparr>t_accounting := ?rows\<rparr>)"
      using dist keys unfolding total window \<open>ac_key a = ?c\<close> by (auto simp: accounting_ok_def)
    with run show ?thesis by blast
  qed
qed

section \<open>The loop over the windows\<close>

text \<open>
  What one call adds: to the window from \<open>f\<close> to \<open>l\<close>, if the loop cuts the time there, the seconds it
  shares with the job, and so to the total the whole duration.
\<close>

definition accounted_from ::
    "int \<Rightarrow> int \<Rightarrow> int \<Rightarrow> string \<Rightarrow> string \<Rightarrow> string \<Rightarrow> string \<Rightarrow> int \<Rightarrow> db \<Rightarrow> db \<Rightarrow> bool" where
  "accounted_from size_s start_time stop_time user project queue_name c_type nb w w' \<longleftrightarrow>
     accounting_ok w' \<and> t_jobs w' = t_jobs w \<and>
     (\<forall>u p q t. consumed u p q t w' = consumed u p q t w +
       (if (u, p, q, t) = (user, project, queue_name, c_type) then max 0 (stop_time - start_time) * nb else 0)) \<and>
     (\<forall>u p q t f. size_s dvd f \<longrightarrow> consumed_in u p q t f (f + size_s - 1) w' =
       consumed_in u p q t f (f + size_s - 1) w +
       (if (u, p, q, t) = (user, project, queue_name, c_type)
        then overlap start_time stop_time f (f + size_s - 1) * nb else 0))"

lemma overlap_first:
  assumes "0 < (n :: int)" "n dvd k" "n dvd f" "k \<le> s" "s < k + n" "s < e"
  shows "overlap s e f (f + n - 1) =
    (if f = k then (if e \<le> k + n - 1 then e - s else k + n - s) else overlap (k + n) e f (f + n - 1))"
proof -
  from assms obtain a b where ab: "k = n * a" "f = n * b" by (auto elim!: dvdE)
  consider "b = a" | "b < a" | "a < b" by linarith
  thus ?thesis
  proof cases
    case 2
    hence "n * (b + 1) \<le> n * a" using assms by (intro mult_left_mono) auto
    with assms ab 2 show ?thesis by (simp add: overlap_def distrib_left) 
  next
    case 3
    hence "n * (a + 1) \<le> n * b" using assms by (intro mult_left_mono) auto
    with assms ab 3 show ?thesis by (simp add: overlap_def distrib_left)
  qed (use assms ab in \<open>auto simp: overlap_def\<close>)
qed

lemma accounting_loop_exact:
  assumes "0 < n" "n dvd k" "k \<le> s" "s < k + n" "accounting_ok w"
  shows "\<exists>w'. accounting_loop n user project queue_name c_type nb e k (k + n - 1) s w = Some (Inr w') \<and>
    accounted_from n s e user project queue_name c_type nb w w'"
  using assms
proof (induction "nat (e - s)" arbitrary: k s w rule: less_induct)
  case less
  show ?case
  proof (cases "s < e")
    case False
    with less.prems show ?thesis
      by (subst accounting_loop.simps) (auto simp: accounted_from_def overlap_def)
  next
    case True
    let ?c = "(if e \<le> k + n - 1 then e - s else k + n - s) * nb"
    from add_accounting_row_adds [OF less.prems(5), of k "k + n - 1" user project queue_name c_type ?c]
    obtain w1 where w1: "add_accounting_row k (k + n - 1) user project queue_name c_type ?c w = Inr w1"
      and ok1: "accounting_ok w1" "t_jobs w1 = t_jobs w"
      and total1: "\<And>u p q t. consumed u p q t w1 = consumed u p q t w +
        (if (u, p, q, t) = (user, project, queue_name, c_type) then ?c else 0)"
      and window1: "\<And>u p q t f l. consumed_in u p q t f l w1 = consumed_in u p q t f l w +
        (if (f, l, u, p, q, t) = (k, k + n - 1, user, project, queue_name, c_type) then ?c else 0)"
      by blast
    have "nat (e - (k + n)) < nat (e - s)" using True less.prems by simp
    with less.hyps [of "k + n" "k + n" w1] less.prems ok1
    obtain w2 where w2: "accounting_loop n user project queue_name c_type nb e (k + n) (k + n + n - 1) (k + n) w1 =
        Some (Inr w2)"
      and rest: "accounted_from n (k + n) e user project queue_name c_type nb w1 w2"
      by auto
    have "accounting_loop n user project queue_name c_type nb e k (k + n - 1) s w = Some (Inr w2)"
    proof -
      have "k + n - 1 + 1 = k + n" "k + n - 1 + n = k + n + n - 1" "k + n - 1 - s + 1 = k + n - s" by simp_all
      with True w1 w2 show ?thesis
        by (subst accounting_loop.simps) (simp only: Let_def if_True sum.case)
    qed
    moreover have "accounted_from n s e user project queue_name c_type nb w w2"
      unfolding accounted_from_def
    proof (intro conjI allI impI)
      show "accounting_ok w2" "t_jobs w2 = t_jobs w" using rest ok1 by (simp_all add: accounted_from_def)
    next
      fix u p q t
      have "max 0 (e - s) * nb = max 0 (e - (k + n)) * nb + ?c"
        using True less.prems by (auto simp: max_def algebra_simps)
      with rest show "consumed u p q t w2 = consumed u p q t w +
          (if (u, p, q, t) = (user, project, queue_name, c_type) then max 0 (e - s) * nb else 0)"
        by (auto simp: accounted_from_def total1)
    next
      fix u p q t f
      assume "n dvd f"
      with overlap_first [OF less.prems(1,2) this less.prems(3,4) True]
      have "overlap s e f (f + n - 1) * nb =
          overlap (k + n) e f (f + n - 1) * nb + (if f = k then ?c else 0)"
        by (auto simp: overlap_def)
      with rest \<open>n dvd f\<close> show "consumed_in u p q t f (f + n - 1) w2 = consumed_in u p q t f (f + n - 1) w +
          (if (u, p, q, t) = (user, project, queue_name, c_type) then overlap s e f (f + n - 1) * nb else 0)"
        by (auto simp: accounted_from_def window1)
    qed
    ultimately show ?thesis by blast
  qed
qed

lemma update_accounting_adds:
  assumes "accounting_ok w" "0 < n" "0 \<le> s"
  shows "\<exists>w'. update_accounting s e n user project queue_name c_type nb w = Some (Inr w') \<and>
    accounted_from n s e user project queue_name c_type nb w w'"
proof -
  have "int_of_quotient s n = s div n" using assms by (auto simp: int_of_quotient_def sgn_if)
  moreover have "s div n * n \<le> s" "s < s div n * n + n"
    using assms mod_pos_pos_trivial by (auto simp: minus_mod_eq_div_mult [symmetric] intro: pos_mod_bound)
  ultimately show ?thesis
    using accounting_loop_exact [of n "s div n * n" s w user project queue_name c_type nb e] assms
    by (simp add: update_accounting_def Let_def)
qed

lemma account_job_adds:
  assumes "accounting_ok w" "0 < n" "0 \<le> ai_start i"
  shows "\<exists>w'. account_job n (i, nb) w = Some (Inr w') \<and> accounting_ok w' \<and>
    t_jobs w' = map (\<lambda>j. j\<lparr>j_accounted := ''YES''\<rparr>) (t_jobs w) \<and>
    (\<forall>u p q. consumed u p q ''USED'' w' = consumed u p q ''USED'' w +
      (if (ai_user i, ai_project i, ai_queue i) = (u, p, q) then max 0 (ai_stop i - ai_start i) * nb else 0)) \<and>
    (\<forall>u p q. consumed u p q ''ASKED'' w' = consumed u p q ''ASKED'' w +
      (if (ai_user i, ai_project i, ai_queue i) = (u, p, q) then max 0 (ai_walltime i) * nb else 0))"
proof -
  let ?upd = "\<lambda>e t w. update_accounting (ai_start i) e n (ai_user i) (ai_project i) (ai_queue i) t nb w"
  obtain w1 where w1: "?upd (ai_stop i) ''USED'' w = Some (Inr w1)"
    "accounted_from n (ai_start i) (ai_stop i) (ai_user i) (ai_project i) (ai_queue i) ''USED'' nb w w1"
    using update_accounting_adds [OF assms] by blast
  hence "accounting_ok w1" by (simp add: accounted_from_def)
  then obtain w2 where w2: "?upd (ai_start i + ai_walltime i) ''ASKED'' w1 = Some (Inr w2)"
    "accounted_from n (ai_start i) (ai_start i + ai_walltime i) (ai_user i) (ai_project i) (ai_queue i)
       ''ASKED'' nb w1 w2"
    using update_accounting_adds assms by blast
  show ?thesis
    using w1 w2 by (auto simp: account_job_def accounted_from_def accounting_ok_def consumed_def sql_update_def)
qed

definition weight :: "string \<Rightarrow> string \<Rightarrow> string \<Rightarrow> (accounting_info \<Rightarrow> int) \<Rightarrow> (accounting_info \<times> int) list \<Rightarrow> int" where
  "weight user project queue_name seconds rows = (\<Sum>(i, nb)\<leftarrow>rows.
     if (ai_user i, ai_project i, ai_queue i) = (user, project, queue_name) then seconds i * nb else 0)"

lemma account_jobs_adds:
  assumes "accounting_ok w" "0 < n" "\<forall>(i, nb) \<in> set rows. 0 \<le> ai_start i"
  shows "\<exists>w'. account_jobs n rows w = Some (Inr w') \<and> accounting_ok w' \<and>
    t_jobs w' = (if rows = [] then t_jobs w else map (\<lambda>j. j\<lparr>j_accounted := ''YES''\<rparr>) (t_jobs w)) \<and>
    (\<forall>u p q. consumed u p q ''USED'' w' = consumed u p q ''USED'' w +
      weight u p q (\<lambda>i. max 0 (ai_stop i - ai_start i)) rows) \<and>
    (\<forall>u p q. consumed u p q ''ASKED'' w' = consumed u p q ''ASKED'' w +
      weight u p q (\<lambda>i. max 0 (ai_walltime i)) rows)"
  using assms(1,3)
proof (induction rows arbitrary: w)
  case Nil
  thus ?case by (simp add: weight_def)
next
  case (Cons row rows)
  obtain i nb where row: "row = (i, nb)" by (cases row)
  with Cons.prems account_job_adds [OF Cons.prems(1) \<open>0 < n\<close>, of i nb] obtain w1
    where w1: "account_job n row w = Some (Inr w1)" "accounting_ok w1"
      "t_jobs w1 = map (\<lambda>j. j\<lparr>j_accounted := ''YES''\<rparr>) (t_jobs w)"
      "\<And>u p q. consumed u p q ''USED'' w1 = consumed u p q ''USED'' w +
        weight u p q (\<lambda>i. max 0 (ai_stop i - ai_start i)) [row]"
      "\<And>u p q. consumed u p q ''ASKED'' w1 = consumed u p q ''ASKED'' w +
        weight u p q (\<lambda>i. max 0 (ai_walltime i)) [row]"
    by (auto simp: weight_def)
  have split: "weight u p q f (row # rows) = weight u p q f [row] + weight u p q f rows" for u p q f
    by (simp add: weight_def)
  from Cons.IH [OF w1(2)] Cons.prems(2) obtain w2
    where w2: "account_jobs n rows w1 = Some (Inr w2)" "accounting_ok w2"
      "t_jobs w2 = (if rows = [] then t_jobs w1 else map (\<lambda>j. j\<lparr>j_accounted := ''YES''\<rparr>) (t_jobs w1))"
      "\<And>u p q. consumed u p q ''USED'' w2 = consumed u p q ''USED'' w1 +
        weight u p q (\<lambda>i. max 0 (ai_stop i - ai_start i)) rows"
      "\<And>u p q. consumed u p q ''ASKED'' w2 = consumed u p q ''ASKED'' w1 +
        weight u p q (\<lambda>i. max 0 (ai_walltime i)) rows"
    by auto
  have "t_jobs w2 = map (\<lambda>j. j\<lparr>j_accounted := ''YES''\<rparr>) (t_jobs w)"
    by (simp add: w2(3) w1(3) o_def)
  with w1 w2 show ?case by (intro exI [of _ w2]) (simp add: split)
qed

lemma jobs_to_account_ended:
  "(i, nb) \<in> set (jobs_to_account w) \<Longrightarrow>
   1 < ai_start i \<and> ai_start i \<le> ai_stop i \<and>
   (\<exists>j \<in> set (t_jobs w). j_id j = ai_job i \<and> j_accounted j = ''NO'' \<and> j_start_time j = ai_start i \<and>
      j_stop_time j = ai_stop i \<and> (j_state j = ''Terminated'' \<or> j_state j = ''Error''))"
  by (auto simp: jobs_to_account_def accounting_join_def Let_def)

section \<open>Properties\<close>

text \<open>
  C21. For a positive size of the windows and a start date that is not negative, \<open>update_accounting\<close> ends
  without an exception, keeps one row per window, user, project, queue and type, adds to every aligned
  window exactly the seconds of the job that fall in it times the number of resources, and so adds the
  whole duration to the total of the user, whatever windows the job crosses.
\<close>

theorem update_accounting_exact:
  assumes "accounting_ok w" and "0 < window_size" and "0 \<le> start_time"
  shows "\<exists>w'. update_accounting start_time stop_time window_size user project queue_name c_type nb w =
      Some (Inr w') \<and> accounting_ok w' \<and>
    (\<forall>i. let first_s = i * window_size; last_s = first_s + window_size - 1 in
      consumed_in user project queue_name c_type first_s last_s w' =
      consumed_in user project queue_name c_type first_s last_s w +
        overlap start_time stop_time first_s last_s * nb) \<and>
    consumed user project queue_name c_type w' =
      consumed user project queue_name c_type w + max 0 (stop_time - start_time) * nb"
  using update_accounting_adds [OF assms, of stop_time user project queue_name c_type nb]
  by (force simp: accounted_from_def Let_def)

text \<open>
  C22. \<open>check_accounting_update\<close> ends for every positive size of the windows and adds to the totals of each
  user, project and queue the time used and the time asked of every finished job it selects. As soon as
  it selects one, it marks all the jobs as accounted, those that have not finished too: none of them is
  selected by a later run.
\<close>

theorem check_accounting_update_totals:
  assumes "accounting_ok w" and "0 < window_size"
  shows "\<exists>w'. check_accounting_update window_size w = Some (Inr w') \<and> accounting_ok w' \<and>
    consumed u p q ''USED'' w' = consumed u p q ''USED'' w +
      weight u p q (\<lambda>i. ai_stop i - ai_start i) (jobs_to_account w) \<and>
    consumed u p q ''ASKED'' w' = consumed u p q ''ASKED'' w +
      weight u p q (\<lambda>i. max 0 (ai_walltime i)) (jobs_to_account w) \<and>
    t_jobs w' = (if jobs_to_account w = [] then t_jobs w
                 else map (\<lambda>j. j\<lparr>j_accounted := ''YES''\<rparr>) (t_jobs w)) \<and>
    jobs_to_account w' = []"
proof -
  have "\<forall>(i, nb) \<in> set (jobs_to_account w). 0 \<le> ai_start i"
    using jobs_to_account_ended by fastforce
  from account_jobs_adds [OF assms this] obtain w'
    where w': "account_jobs window_size (jobs_to_account w) w = Some (Inr w')" "accounting_ok w'"
      "t_jobs w' = (if jobs_to_account w = [] then t_jobs w
                    else map (\<lambda>j. j\<lparr>j_accounted := ''YES''\<rparr>) (t_jobs w))"
      "consumed u p q ''USED'' w' = consumed u p q ''USED'' w +
        weight u p q (\<lambda>i. max 0 (ai_stop i - ai_start i)) (jobs_to_account w)"
      "consumed u p q ''ASKED'' w' = consumed u p q ''ASKED'' w +
        weight u p q (\<lambda>i. max 0 (ai_walltime i)) (jobs_to_account w)"
    by blast
  have used: "weight u p q (\<lambda>i. max 0 (ai_stop i - ai_start i)) (jobs_to_account w) =
      weight u p q (\<lambda>i. ai_stop i - ai_start i) (jobs_to_account w)"
    unfolding weight_def using jobs_to_account_ended
    by (intro arg_cong [where f = sum_list] map_cong) (fastforce split: prod.split)+
  have "jobs_to_account w' = []"
  proof (cases "jobs_to_account w")
    case Nil
    with w' show ?thesis by (simp add: check_accounting_update_def)
  next
    case (Cons row rows)
    hence "\<forall>j \<in> set (t_jobs w'). j_accounted j = ''YES''" using w'(3) by auto
    hence "x \<notin> set (jobs_to_account w')" for x
      using jobs_to_account_ended [of "fst x" "snd x" w'] by auto
    thus ?thesis by (metis list.set_intros(1) neq_Nil_conv)
  qed
  with w' used show ?thesis by (simp add: check_accounting_update_def)
qed

definition account_db :: db where
  "account_db = empty_db\<lparr>
     t_jobs := [example_job_row\<lparr>j_state := ''Terminated'', j_start_time := 8, j_stop_time := 25\<rparr>,
                example_job_row\<lparr>j_id := 2, j_assigned_moldable_job := 2\<rparr>],
     t_moldables := [\<lparr>m_id = 1, m_job = 1, m_walltime = 30, m_index = ''LOG''\<rparr>],
     t_assigned := [\<lparr>a_mld = 1, a_res = 1, a_index = ''LOG''\<rparr>, \<lparr>a_mld = 1, a_res = 2, a_index = ''LOG''\<rparr>],
     t_resources := [default_resource\<lparr>r_id := 1\<rparr>, default_resource\<lparr>r_id := 2\<rparr>]\<rparr>"

lemma account_db_ok: "accounting_ok account_db"
  by (simp add: accounting_ok_def account_db_def empty_db_def)

lemma account_db_jobs:
  "jobs_to_account account_db =
     [(\<lparr>ai_start = 8, ai_stop = 25, ai_walltime = 30, ai_job = 1, ai_user = ''bob'', ai_queue = ''default'',
        ai_project = ''default''\<rparr>, 2)]"
  by (simp add: jobs_to_account_def accounting_join_def account_db_def example_job_row_def
      default_resource_def sql_count_def)

theorem update_accounting_exact_witness:
  "\<exists>w'. update_accounting 8 25 10 ''bob'' ''default'' ''default'' ''USED'' 2 account_db = Some (Inr w') \<and>
     consumed_in ''bob'' ''default'' ''default'' ''USED'' 20 29 w' = 10 \<and>
     consumed ''bob'' ''default'' ''default'' ''USED'' w' = 34"
proof -
  from update_accounting_exact [OF account_db_ok, of 10 8 25 "''bob''" "''default''" "''default''" "''USED''" 2]
  obtain w' where w': "update_accounting 8 25 10 ''bob'' ''default'' ''default'' ''USED'' 2 account_db = Some (Inr w')"
    and windows: "\<And>i. let first_s = i * 10; last_s = first_s + 10 - 1 in
      consumed_in ''bob'' ''default'' ''default'' ''USED'' first_s last_s w' =
      consumed_in ''bob'' ''default'' ''default'' ''USED'' first_s last_s account_db +
        overlap 8 25 first_s last_s * 2"
    and total: "consumed ''bob'' ''default'' ''default'' ''USED'' w' =
      consumed ''bob'' ''default'' ''default'' ''USED'' account_db + max 0 (25 - 8) * 2"
    by auto
  with windows [of 2] show ?thesis
    by (auto simp: consumed_in_def consumed_def account_db_def empty_db_def overlap_def)
qed

theorem check_accounting_update_totals_witness:
  "\<exists>w'. check_accounting_update 10 account_db = Some (Inr w') \<and>
     consumed ''bob'' ''default'' ''default'' ''USED'' w' = 34 \<and>
     consumed ''bob'' ''default'' ''default'' ''ASKED'' w' = 60 \<and>
     map (\<lambda>j. (j_state j, j_accounted j)) (t_jobs w') = [(''Terminated'', ''YES''), (''Running'', ''YES'')]"
proof -
  have "weight ''bob'' ''default'' ''default'' (\<lambda>i. ai_stop i - ai_start i) (jobs_to_account account_db) = 34"
    "weight ''bob'' ''default'' ''default'' (\<lambda>i. max 0 (ai_walltime i)) (jobs_to_account account_db) = 60"
    "jobs_to_account account_db \<noteq> []"
    by (simp_all add: account_db_jobs weight_def)
  moreover have "consumed u p q t account_db = 0" for u p q t
    by (simp add: consumed_def account_db_def empty_db_def)
  moreover have "map (\<lambda>j. (j_state j, j_accounted j))
      (map (\<lambda>j. j\<lparr>j_accounted := ''YES''\<rparr>) (t_jobs account_db)) =
      [(''Terminated'', ''YES''), (''Running'', ''YES'')]"
    by (simp add: account_db_def example_job_row_def)
  ultimately show ?thesis
    using check_accounting_update_totals [OF account_db_ok, of 10 "''bob''" "''default''" "''default''"]
    by fastforce
qed

end
