(* ===== verification/Meta_Life.thy ===== *)
theory Meta_Life
  imports Meta_Sched Node_Change Accounting
begin

text \<open>
  The metascheduler keeps the promises of \<open>Job_Life\<close>: a round changes the states of the jobs only by the
  steps of that abstract machine. \<open>refines_to w g r\<close> says that the database \<open>g x\<close> of a result \<open>x\<close> of \<open>r\<close>
  is reached from \<open>w\<close> by such steps; the collection \<open>refines_intro\<close> has one rule per construct of the
  programs and one per operation.
\<close>

section \<open>Results that refine\<close>

definition refines_to :: "db \<Rightarrow> ('a \<Rightarrow> db) \<Rightarrow> 'a res \<Rightarrow> bool" where
  "refines_to w g r \<longleftrightarrow> (\<forall>x. r = Inr x \<longrightarrow> refines w (g x))"

named_theorems refines_intro \<open>programs that refine\<close>

lemma refines_toD: "refines_to w g r \<Longrightarrow> r = Inr x \<Longrightarrow> refines w (g x)"
  by (simp add: refines_to_def)

lemma refines_to_Inr [refines_intro]: "refines w (g x) \<Longrightarrow> refines_to w g (Inr x)"
  by (simp add: refines_to_def)

lemma refines_to_Inl [refines_intro]: "refines_to w g (Inl e)"
  by (simp add: refines_to_def)

lemma refines_to_bind:
  "\<lbrakk>refines_to w h r; \<And>x. r = Inr x \<Longrightarrow> refines_to (h x) g (f x)\<rbrakk> \<Longrightarrow> refines_to w g (res_bind r f)"
  by (cases r) (auto simp: refines_to_def intro: refines_trans)

lemma refines_to_read: "(\<And>x. r = Inr x \<Longrightarrow> refines_to w g (f x)) \<Longrightarrow> refines_to w g (res_bind r f)"
  by (cases r) (auto simp: refines_to_def)

lemma refines_to_after: "\<lbrakk>refines w v; refines_to v g r\<rbrakk> \<Longrightarrow> refines_to w g r"
  by (auto simp: refines_to_def intro: refines_trans)

lemma refines_to_if [refines_intro]:
  "\<lbrakk>b \<Longrightarrow> refines_to w g r; \<not> b \<Longrightarrow> refines_to w g s\<rbrakk> \<Longrightarrow> refines_to w g (if b then r else s)"
  by simp

lemma refines_to_option [refines_intro]:
  "\<lbrakk>x = None \<Longrightarrow> refines_to w g r; \<And>y. x = Some y \<Longrightarrow> refines_to w g (s y)\<rbrakk> \<Longrightarrow>
   refines_to w g (case x of None \<Rightarrow> r | Some y \<Rightarrow> s y)"
  by (cases x) simp_all

lemma refines_to_fold:
  "(\<And>x s. x \<in> set xs \<Longrightarrow> refines_to (g s) g (f x s)) \<Longrightarrow> refines_to (g s) g (fold_res f xs s)"
proof (induction xs arbitrary: s)
  case (Cons x xs)
  show ?case
    unfolding fold_res.simps
    by (rule refines_to_bind [of _ g]) (simp_all add: Cons)
qed (simp add: refines_to_Inr)

lemma refines_life_left: "life_of v = life_of w \<Longrightarrow> refines v x \<Longrightarrow> refines w x"
  using refines_trans [OF refines_same [of v w]] by blast

section \<open>The gantt tables\<close>

lemma life_map_jobs:
  "(\<And>j. j_id (f j) = j_id j \<and> j_state (f j) = j_state j) \<Longrightarrow>
   life_of (w\<lparr>t_jobs := map f (t_jobs w), t_predictions := ps, t_gantt := gs\<rparr>) = life_of w"
  by (simp add: life_of_def states_def comp_def)

lemma life_flush_start_times [life_simps]: "life_of (flush_start_times jobs w) = life_of w"
  by (simp add: flush_start_times_def life_of_def states_def comp_def option.case_distrib
      cong: option.case_cong) (auto split: option.splits)

lemma life_gantt [life_simps]:
  "life_of (gantt_flush_tables keep w) = life_of w"
  "life_of (set_gantt_job_start_time mld now w) = life_of w"
  "life_of (add_resource_job_pairs mld w) = life_of w"
  "life_of (update_gantt_visualization w) = life_of w"
  "life_of (stop_queue name w) = life_of w"
  "life_of (replace_in_message k n new jid message w) = life_of w"
  by (simp_all add: gantt_flush_tables_def set_gantt_job_start_time_def add_resource_job_pairs_def
      update_gantt_visualization_def stop_queue_def replace_in_message_def Let_def life_simps)

lemma save_assigns_life: "save_assigns P jobs rs w = Inr w' \<Longrightarrow> life_of w' = life_of w"
proof -
  assume saved: "save_assigns P jobs rs w = Inr w'"
  show ?thesis
  proof (cases "jobs = []")
    case False
    then obtain f ps gs where w': "w' = (flush_start_times jobs w)\<lparr>t_jobs := map f (t_jobs (flush_start_times jobs w)),
        t_predictions := ps, t_gantt := gs\<rparr>"
      and f: "\<And>j. j_id (f j) = j_id j \<and> j_state (f j) = j_state j"
      using saved unfolding save_assigns_def Let_def
      by (auto simp: res_simps split: option.splits)
    show ?thesis unfolding w' by (simp only: life_map_jobs [OF f] life_flush_start_times)
  qed (use saved in \<open>simp add: save_assigns_def\<close>)
qed

lemma refines_save_assigns: "refines_to w (\<lambda>x. x) (save_assigns P jobs rs w)"
  by (auto simp: refines_to_def intro: refines_same save_assigns_life)

section \<open>Schedulers and reservations\<close>

lemma gantt_init_life:
  "gantt_init_with_running_jobs P fuel X now security s = Inr (s', jobs, d) \<Longrightarrow>
   life_of (m_db s') = life_of (m_db s)"
  by (auto simp: gantt_init_with_running_jobs_def Let_def res_simps life_simps dest!: save_assigns_life
      split: prod.splits)

lemma internal_cycle_life:
  "internal_schedule_cycle P fuel X E now sss security queues w = Inr (E', sss', w') \<Longrightarrow>
   life_of w' = life_of w"
  by (auto simp: internal_schedule_cycle_def schedule_and_save_def Let_def res_simps
      dest!: save_assigns_life split: if_splits prod.splits)

lemma refines_internal [refines_intro]:
  "refines_to (m_db s) m_db (call_internal_scheduler P fuel X jobs security queues now s)"
  by (auto simp: refines_to_def call_internal_scheduler_def res_simps dest!: internal_cycle_life
      intro!: refines_same split: prod.splits)

lemma remove_gantt_life: "remove_gantt_resource_job P mld r rs w = Inr w' \<Longrightarrow> life_of w' = life_of w"
  by (auto simp: remove_gantt_resource_job_def res_simps life_simps split: if_splits)

lemma handle_reservation_refines:
  "refines_to w (\<lambda>x. x) (handle_reservation P rs timeout now job w)"
proof -
  have "life_of w' = life_of w \<or> w' = set_job_message (job_id job)
      ''Reservation expired and couldn't be started.'' (set_job_state (job_id job) ''Error'' w)"
    if "handle_reservation P rs timeout now job w = Inr w'" for w'
    using that by (auto simp: handle_reservation_def Let_def res_simps life_simps split: if_splits
        dest: remove_gantt_life)
  thus ?thesis
    by (auto simp: refines_to_def intro: refines_same refines_life_right [OF life_fields(2) refines_set_job_state])
qed

lemma handle_waiting_refines:
  "refines_to w (\<lambda>x. x) (handle_waiting_reservation_jobs P X queue rs security timeout now w)"
  unfolding handle_waiting_reservation_jobs_def
  by (rule refines_to_read, rule refines_to_after [OF refines_same [OF life_flush_start_times]],
      rule refines_to_fold [of _ "\<lambda>x. x"], rule handle_reservation_refines)

lemma set_states_refine:
  "refines w (set_job_resa_state i t (set_job_state k u w))"
  "refines w (set_job_message j m (set_job_state k u w))"
  "refines w (set_job_resa_state i t (set_job_message j m (set_job_state k u w)))"
  "refines w (set_job_state k u (set_job_message j m w))"
  by (rule refines_life_right [OF life_fields(1) refines_set_job_state],
      rule refines_life_right [OF life_fields(2) refines_set_job_state],
      rule refines_life_right [OF life_fields(1) refines_life_right [OF life_fields(2) refines_set_job_state]],
      rule refines_life_left [OF life_fields(2) refines_set_job_state])

lemma new_reservation_refines:
  "refines_to (m_db (fst st)) (\<lambda>x. m_db (fst x)) (new_reservation P fuel rs security now job st)"
proof -
  have w1: "refines w (if b then flush_start_times js w
      else set_job_message i t (set_job_state k u (flush_start_times js w)))" for b w js i t k u
    by (auto intro: refines_same refines_life_left [OF life_flush_start_times] set_states_refine
        simp: life_simps)
  note ends = set_states_refine(4) refines_trans [OF w1 set_states_refine(1)]
    refines_trans [OF w1 set_states_refine(3)]
  show ?thesis
    unfolding new_reservation_def Let_def split_beta
    by (intro refines_to_read refines_to_if) (simp_all add: refines_to_Inr ends split del: if_split)
qed

lemma check_reservation_refines:
  "refines_to (m_db s) m_db (check_reservation_jobs P fuel X rs queue now s)"
proof -
  have jobs: "refines_to (m_db s) (\<lambda>x. m_db (fst x)) (fold_res (new_reservation P fuel rs security now) js (s, []))"
    for security js
    using refines_to_fold [of js "\<lambda>x. m_db (fst x)" "new_reservation P fuel rs security now" "(s, [])"]
    by (simp add: new_reservation_refines)
  show ?thesis
    unfolding check_reservation_jobs_def Let_def
    by (rule refines_to_if, rule refines_to_Inr, rule refines_refl, rule refines_to_read, rule refines_to_read,
        rule refines_to_bind [OF jobs])
       (auto simp: refines_to_def res_simps intro!: refines_same dest!: save_assigns_life)
qed

section \<open>Launching and answering\<close>

lemma notify_tcp_life: "notify_tcp_socket W addr port text w = Inr (n, w') \<Longrightarrow> life_of w' = life_of w"
  by (auto simp: notify_tcp_socket_def Let_def res_simps life_simps split: if_splits)

lemma notify_to_run_life: "notify_to_run_job W jid s = Inr s' \<Longrightarrow> life_of (m_db s') = life_of (m_db s)"
  by (auto simp: notify_to_run_job_def notify_oar2_almighty_def res_simps life_simps
      dest!: notify_tcp_life split: if_splits prod.splits)

lemma prepare_refines: "refines_to (m_db s) m_db (prepare_job_to_be_launched W job now s)"
proof -
  have "refines (m_db s) (set_job_state (job_id job) ''toLaunch'' (add_resource_job_pairs (moldable_id job)
      (set_job_start_time_assigned_moldable_id (job_id job) now (moldable_id job) (m_db s))))"
    by (rule refines_life_left [OF _ refines_set_job_state]) (simp add: life_simps)
  thus ?thesis
    by (auto simp: refines_to_def prepare_job_to_be_launched_def Let_def
        intro: refines_life_right dest!: notify_to_run_life)
qed

lemma handle_job_to_launch_refines: "refines_to (m_db s) m_db (handle_job_to_launch W now job s)"
  unfolding handle_job_to_launch_def Let_def
  by (intro refines_to_read, rule refines_to_after [OF _ prepare_refines])
     (auto intro: refines_same simp: life_simps)

lemma handle_jobs_to_launch_refines:
  "refines_to (m_db s) (\<lambda>x. m_db (snd x)) (handle_jobs_to_launch W jobs now s)"
  unfolding handle_jobs_to_launch_def
  by (rule refines_to_bind [OF refines_to_fold [of _ m_db, OF handle_job_to_launch_refines]])
     (simp add: refines_to_Inr)

lemma kill_besteffort_life: "kill_besteffort be_job now w = Inr w' \<Longrightarrow> life_of w' = life_of w"
  by (auto simp: kill_besteffort_def Let_def res_simps life_simps dest!: frag_job_life
      split: if_splits prod.splits)

lemma check_besteffort_refines:
  "refines_to w snd (check_besteffort_jobs_to_kill jobs rid2jid now d w)"
proof -
  have "refines_to (snd st) snd (check_besteffort_job jobs now d x st)" for x st
    by (auto simp: refines_to_def check_besteffort_job_def res_simps split: option.splits if_splits prod.splits
        intro: refines_same dest!: kill_besteffort_life)
  from refines_to_fold [of rid2jid snd "check_besteffort_job jobs now d" "([], w)", OF this]
  have "refines_to w snd (fold_res (check_besteffort_job jobs now d) rid2jid ([], w))" by simp
  thus ?thesis
    unfolding check_besteffort_jobs_to_kill_def split_beta
    by (rule refines_to_bind) (simp add: refines_to_Inr)
qed

lemma resume_script_life: "resume_script W jid w = Inr w' \<Longrightarrow> life_of w' = life_of w"
  by (auto simp: resume_script_def Let_def res_simps life_simps split: if_splits dest!: frag_job_life)

lemma resume_job_refines: "refines_to (snd st) snd (resume_waiting_job W types_of j st)"
proof -
  have step: "refines_to w snd (if b then Inr (c, resume_job_action i w)
      else res_bind (resume_script W i w) (\<lambda>w1. Inr (True, w1)))" for b c i w
    by (auto simp: refines_to_def res_simps intro: refines_resume_job_action refines_same
        dest: resume_script_life)
  thus ?thesis
    unfolding resume_waiting_job_def split_beta
    by (intro refines_to_if refines_to_read) (auto intro!: refines_to_Inr refines_to_Inl dest!: refines_toD [OF step])
qed

lemma start_prediction_refines: "refines_to w (\<lambda>x. x) (start_prediction W now info w)"
  by (auto simp: refines_to_def start_prediction_def res_simps split: prod.splits intro: refines_same
      dest!: notify_tcp_life)

lemma handle_to_error_refines: "refines_to w (\<lambda>x. x) (handle_to_error W j w)"
  by (auto simp: refines_to_def handle_to_error_def res_simps split: prod.splits if_splits
      intro!: set_state_after dest!: notify_tcp_life)

lemma handle_to_ack_refines: "refines_to (snd st) snd (handle_to_ack W now j st)"
  by (auto simp: refines_to_def handle_to_ack_def res_simps life_simps split: prod.splits if_splits
      intro: refines_same set_state_after dest!: notify_tcp_life frag_job_life)

lemma answer_jobs_refines:
  "refines_to (m_db s) (\<lambda>x. m_db (snd x)) (answer_jobs W jobs now code s)"
proof -
  have "refines_to (m_db s) m_db (notify_to_run_job W (j_id j) s)" for j and s :: "'a meta"
    by (auto simp: refines_to_def intro: refines_same dest: notify_to_run_life)
  hence launch: "refines_to (m_db s) m_db (fold_res (\<lambda>j. notify_to_run_job W (j_id j)) js s)"
    for js and s :: "'a meta"
    by (intro refines_to_fold)
  have resume: "refines_to w snd (fold_res (resume_waiting_job W types_of) js (b, w))" for types_of js b w
    using refines_to_fold [of js snd "resume_waiting_job W types_of" "(b, w)", OF resume_job_refines] by simp
  have ack: "refines_to w snd (fold_res (handle_to_ack W now) js (c, w))" for js c w
    using refines_to_fold [of js snd "handle_to_ack W now" "(c, w)", OF handle_to_ack_refines] by simp
  note folds = refines_to_fold [of _ "\<lambda>x. x", OF start_prediction_refines]
    refines_to_fold [of _ "\<lambda>x. x", OF handle_to_error_refines]
  show ?thesis
    unfolding answer_jobs_def Let_def split_beta
    by (rule refines_to_bind [OF resume], rule refines_to_bind [OF folds(1)],
        rule refines_to_bind [OF folds(2)], rule refines_to_bind [OF ack],
        rule refines_to_after [OF refines_same, OF _ refines_to_bind [OF launch]])
       (simp_all add: refines_to_Inr)
qed

section \<open>The round\<close>

lemma grant_walltime_life: "life_of (grant_walltime jid job fit w) = life_of w"
  by (simp add: grant_walltime_def change_walltime_def update_walltime_change_request_def Let_def life_simps)

lemma process_request_refines: "refines_to w (\<lambda>x. x) (process_request ev conf x w)"
  by (cases x) (auto simp: refines_to_def process_request_def Let_def res_simps
      intro: refines_same [OF grant_walltime_life] split: if_splits option.splits)

lemma walltime_phase_refines: "refines_to w (\<lambda>x. x) (walltime_phase W w)"
  unfolding walltime_phase_def process_walltime_change_requests_def
  by (intro refines_to_if refines_to_Inr refines_refl refines_to_read)
     (rule refines_to_fold [of _ "\<lambda>x. x"], rule process_request_refines)

lemma command_nodes_life: "command_nodes internal cmd setting nodes w = Inr w' \<Longrightarrow> life_of w' = life_of w"
  by (auto simp: command_nodes_def res_simps life_simps split: if_splits)

lemma energy_saving_life: "energy_saving W now w = Inr w' \<Longrightarrow> life_of w' = life_of w"
  by (auto simp: energy_saving_def res_simps life_simps split: if_splits option.splits
      dest!: command_nodes_life)

lemma extra_life:
  "extra_metasched_func v = Inr extra \<Longrightarrow> extra b w = Inr w' \<Longrightarrow> life_of w' = life_of w"
  by (auto simp: extra_metasched_func_def extra_metasched_foo_def life_simps
      split: if_splits option.splits list.splits)

lemma handle_queue_refines:
  "refines_to (m_db s) m_db (handle_queue P fuel X rs security timeout now queue s)"
  unfolding handle_queue_def
  by (rule refines_to_bind [OF handle_waiting_refines])
     (use check_reservation_refines [of "s\<lparr>m_db := v\<rparr>" for v] in simp)

text \<open>An external scheduler is another program: what it does to the database is its own.\<close>

lemma handle_external_refines:
  "mode \<noteq> ''external'' \<Longrightarrow>
   refines_to (m_db s) m_db (handle_external_queue P fuel W X mode rs security timeout now queue s)"
  unfolding handle_external_queue_def
  by (auto intro!: refines_to_Inl refines_to_bind [OF handle_waiting_refines] refines_to_Inr)

lemma schedule_queues_refines:
  assumes "extra_metasched_func v = Inr extra" and "mode \<noteq> ''external''"
  shows "refines_to (m_db (snd st)) (\<lambda>x. m_db (snd x))
    (schedule_queues P fuel W X mode rs security timeout now jobs extra queues st)"
proof -
  have first: "refines_to w (\<lambda>x. x) (extra b w)" for b w
    by (auto simp: refines_to_def intro: refines_same extra_life [OF assms(1)])
  have queue: "refines_to (m_db s) m_db (if mode = ''internal'' then
        res_bind (call_internal_scheduler P fuel X jobs security active now s)
          (fold_res (handle_queue P fuel X rs security timeout now) active)
      else fold_res (handle_external_queue P fuel W X mode rs security timeout now) active s)" for active s
    by (rule refines_to_if, rule refines_to_bind [OF refines_internal])
       (auto intro: refines_to_fold handle_queue_refines handle_external_refines [OF assms(2)])
  show ?thesis
    unfolding schedule_queues_def Let_def split_beta
    by (rule refines_to_bind [OF first], rule refines_to_bind [of _ m_db])
       (use queue [where s = "snd st\<lparr>m_db := v\<rparr>" for v] in \<open>simp_all add: refines_to_Inr\<close>)
qed

lemma launch_or_kill_refines:
  "refines_to (m_db s) (\<lambda>x. m_db (snd x)) (launch_or_kill P W X rs security kill_duration now d s)"
proof -
  have launch: "refines_to w (\<lambda>x. m_db (snd x)) (handle_jobs_to_launch W jobs now (s\<lparr>m_db := w\<rparr>))" for w jobs
    using handle_jobs_to_launch_refines [of "s\<lparr>m_db := w\<rparr>"] by simp
  show ?thesis
    unfolding launch_or_kill_def Let_def split_beta
    by (rule refines_to_read, rule refines_to_after [OF refines_same [OF life_flush_start_times]],
        rule refines_to_bind [OF check_besteffort_refines])
       (auto intro!: refines_to_Inr refines_to_bind [OF launch] intro: refines_same simp: life_simps)
qed

theorem meta_schedule_refines:
  assumes "meta_schedule P fuel W X mode s = Inr (code, s')" and "mode \<noteq> ''external''"
  shows "refines (m_db s) (m_db s')"
proof -
  have init: "refines_to w (\<lambda>x. m_db (fst x))
      (gantt_init_with_running_jobs P fuel X now security (s\<lparr>m_db := w, m_env := E\<rparr>))" for w E now security
    by (auto simp: refines_to_def intro!: refines_same dest!: gantt_init_life)
  have queues: "refines_to (m_db s1) (\<lambda>x. m_db (snd x))
      (fold_res (schedule_queues P fuel W X mode rs security timeout now jobs extra) qs (True, s1))"
    if "extra_metasched_func v = Inr extra" for v extra rs security timeout now jobs qs s1
    using refines_to_fold [of qs "\<lambda>x. m_db (snd x)"
        "schedule_queues P fuel W X mode rs security timeout now jobs extra" "(True, s1)",
        OF schedule_queues_refines [OF that assms(2)]]
    by simp
  have energy: "refines_to w (\<lambda>x. x) (energy_saving W now (update_gantt_visualization w))" for w now
    by (auto simp: refines_to_def life_simps intro!: refines_same dest!: energy_saving_life)
  have answer: "refines_to w (\<lambda>x. m_db (snd x)) (answer_jobs W jobs now c (s3\<lparr>m_db := w\<rparr>))" for w jobs now c s3
    using answer_jobs_refines [of "s3\<lparr>m_db := w\<rparr>"] by simp
  have "refines_to (m_db s) (\<lambda>x. m_db (snd x)) (meta_schedule P fuel W X mode s)"
    unfolding meta_schedule_def Let_def split_beta
    by (rule refines_to_read, rule refines_to_read, rule refines_to_read, rule refines_to_read,
        rule refines_to_bind [OF walltime_phase_refines], rule refines_to_read, rule refines_to_read,
        rule refines_to_bind [OF init], rule refines_to_read, rule refines_to_read,
        rule refines_to_bind [OF queues], assumption,
        rule refines_to_bind [OF launch_or_kill_refines], rule refines_to_bind [OF energy], rule answer)
  from refines_toD [OF this assms(1)] show ?thesis by simp
qed

section \<open>The other programs\<close>

lemma schedule_cycle_life: "schedule_cycle P fuel X E now queues w = Inr w' \<Longrightarrow> life_of w' = life_of w"
  by (auto simp: schedule_cycle_def schedule_and_save_def Let_def res_simps
      dest!: save_assigns_life split: if_splits prod.splits)

lemma add_accounting_row_life:
  "add_accounting_row a b u pr q t c w = Inr w' \<Longrightarrow> life_of w' = life_of w"
  by (auto simp: add_accounting_row_def Let_def life_simps split: list.splits)

lemma accounting_loop_life_all:
  "accounting_loop sz u pr q t nb stop a b start w = Some r \<Longrightarrow> \<forall>w'. r = Inr w' \<longrightarrow> life_of w' = life_of w"
proof (rule accounting_loop.raw_induct [where
    P = "\<lambda>sz u pr q t nb stop a b start w r. \<forall>w'. r = Inr w' \<longrightarrow> life_of w' = life_of w"])
  fix loop sz u pr q t nb stop a b start w r
  assume IH: "\<And>sz u pr q t nb stop a b start w r.
      loop sz u pr q t nb stop a b start w = Some r \<Longrightarrow> \<forall>w'. r = Inr w' \<longrightarrow> life_of w' = life_of w"
    and step: "(if start < stop
      then let consumption = (if stop \<le> b then stop - start else b - start + 1) in
        (case add_accounting_row a b u pr q t (consumption * nb) w of Inl e \<Rightarrow> Some (Inl e)
         | Inr w' \<Rightarrow> loop sz u pr q t nb stop (b + 1) (b + sz) (b + 1) w')
      else Some (Inr w)) = Some r"
  show "\<forall>w'. r = Inr w' \<longrightarrow> life_of w' = life_of w"
  proof (cases "start < stop")
    case True
    let ?add = "add_accounting_row a b u pr q t ((if stop \<le> b then stop - start else b - start + 1) * nb) w"
    show ?thesis
    proof (cases ?add)
      case (Inr v)
      hence "loop sz u pr q t nb stop (b + 1) (b + sz) (b + 1) v = Some r"
        using step True by (simp add: Let_def)
      from IH [OF this] add_accounting_row_life [OF Inr] show ?thesis by simp
    qed (use step True in \<open>auto simp: Let_def\<close>)
  qed (use step in auto)
qed

lemmas accounting_loop_life = accounting_loop_life_all [THEN spec, THEN mp, OF _ refl]

lemma update_accounting_life:
  "update_accounting start stop sz u pr q t nb w = Some (Inr w') \<Longrightarrow> life_of w' = life_of w"
  by (auto simp: update_accounting_def Let_def dest: accounting_loop_life split: if_splits)

lemma account_job_life: "account_job sz row w = Some (Inr w') \<Longrightarrow> life_of w' = life_of w"
proof -
  have all: "life_of (v\<lparr>t_jobs := sql_update (\<lambda>j. True) (\<lambda>j. j\<lparr>j_accounted := x\<rparr>) (t_jobs v)\<rparr>) = life_of v" for v x
    by (simp add: life_of_t_jobs states_sql_update) (simp add: life_of_def states_def)
  assume "account_job sz row w = Some (Inr w')"
  thus ?thesis
    by (auto simp: account_job_def Let_def all dest!: update_accounting_life
        split: prod.splits option.splits sum.splits)
qed

lemma accounting_life: "account_jobs sz rows w = Some (Inr w') \<Longrightarrow> life_of w' = life_of w"
  by (induction sz rows w rule: account_jobs.induct)
     (auto split: option.splits sum.splits dest!: account_job_life)

lemma checked_request_life: "life_of (snd (checked_request jid user job m least most seconds f d w)) = life_of w"
  by (simp add: checked_request_def store_request_def update_walltime_change_request_def
      add_walltime_change_request_def Let_def life_simps split: option.split)

lemma request_refines: "refines_to w snd (request ev conf jid user nw f d w)"
  unfolding request_def read_request_def split_beta
  by (intro refines_to_if refines_to_option refines_to_read)
     (simp_all add: refines_to_Inr refines_same [OF checked_request_life])

end
