(* ===== verification/Submission_Life.thy ===== *)
theory Submission_Life
  imports Submission_Props Meta_Life
begin

text \<open>
  A submission, of one job or of an array, as steps of the abstract machine of \<open>Job_Life\<close>: every
  job it adds is a new one with one open row in its log.
\<close>

definition log_rows :: "string \<Rightarrow> int \<Rightarrow> int list \<Rightarrow> state_log_row list \<Rightarrow> state_log_row list" where
  "log_rows st date = fold (\<lambda>i logs. logs @ [\<lparr>l_id = fresh_id (map l_id logs), l_job = i,
     l_state = st, l_start = date, l_stop = 0\<rparr>])"

lemma creates:
  assumes "distinct (map fst (lf_states x) @ ids)" and "st \<in> {''Waiting'', ''Hold''}"
  shows "life_step\<^sup>*\<^sup>* x (x\<lparr>lf_states := lf_states x @ map (\<lambda>i. (i, st)) ids,
     lf_logs := log_rows st (lf_now x) ids (lf_logs x)\<rparr>)"
  using assms
proof (induction ids arbitrary: x)
  case Nil
  thus ?case by (simp add: log_rows_def)
next
  case (Cons i ids)
  define y where "y = x\<lparr>lf_states := lf_states x @ [(i, st)],
    lf_logs := lf_logs x @ [\<lparr>l_id = fresh_id (map l_id (lf_logs x)), l_job = i, l_state = st,
      l_start = lf_now x, l_stop = 0\<rparr>]\<rparr>"
  have "i \<notin> fst ` set (lf_states x)" using Cons.prems(1) by auto
  hence "life_step x y" unfolding y_def using Cons.prems(2) by (rule life_step.create)
  moreover have "distinct (map fst (lf_states y) @ ids)" using Cons.prems(1) by (auto simp: y_def)
  from Cons.IH [OF this Cons.prems(2)] have "life_step\<^sup>*\<^sup>* y (x\<lparr>lf_states := lf_states x @ map (\<lambda>i. (i, st)) (i # ids),
     lf_logs := log_rows st (lf_now x) (i # ids) (lf_logs x)\<rparr>)"
    by (simp add: y_def log_rows_def)
  ultimately show ?case by (rule converse_rtranclp_into_rtranclp)
qed

text \<open>The rows that a submission adds to the jobs and to the log.\<close>

lemma added_jobs_refine:
  assumes "t_jobs w' = t_jobs w @ rows" and "db_now w' = db_now w"
    and "t_state_logs w' = log_rows st (db_now w) (map j_id rows) (t_state_logs w)"
    and "\<forall>j \<in> set rows. j_state j = st" and "st \<in> {''Waiting'', ''Hold''}"
    and "distinct (map j_id (t_jobs w)) \<Longrightarrow> distinct (map j_id (t_jobs w @ rows))"
  shows "refines w w'"
  unfolding refines_def
proof
  assume "distinct (map j_id (t_jobs w))"
  hence "distinct (map fst (lf_states (life_of w)) @ map j_id rows)"
    using assms(6) by (simp add: life_of_def states_def comp_def)
  from creates [OF this assms(5)]
  have "life_step\<^sup>*\<^sup>* (life_of w) ((life_of w)\<lparr>lf_states := states w @ map (\<lambda>i. (i, st)) (map j_id rows),
      lf_logs := log_rows st (db_now w) (map j_id rows) (t_state_logs w)\<rparr>)"
    by (simp add: life_of_def)
  moreover have "map (\<lambda>j. (j_id j, j_state j)) rows = map (\<lambda>i. (i, st)) (map j_id rows)"
    using assms(4) by simp
  hence "life_of w' = (life_of w)\<lparr>lf_states := states w @ map (\<lambda>i. (i, st)) (map j_id rows),
      lf_logs := log_rows st (db_now w) (map j_id rows) (t_state_logs w)\<rparr>"
    by (simp add: life_of_def states_def assms(1-3))
  ultimately show "life_step\<^sup>*\<^sup>* (life_of w) (life_of w')" by simp
qed

lemma subjob_refines:
  assumes "add_micheline_subjob P S p private public aid arr_index command w = Inr ((code, jid), w')"
  shows "refines w w'"
proof (cases "code = 0")
  case True
  note run = assms [unfolded True]
  from subjob_rows(1) [OF run] obtain row where row: "t_jobs w' = t_jobs w @ [row]" "j_id row = jid"
    "j_state row = (if jp_hold p then ''Hold'' else ''Waiting'')" by blast
  have "jid = fresh_id (map j_id (t_jobs w))" using run by (rule subjob_steps)
  hence "jid \<notin> j_id ` set (t_jobs w)" using fresh_id_fresh [of "map j_id (t_jobs w)"] by simp
  thus ?thesis
    using row subjob_rows(2,3) [OF run]
    by (intro added_jobs_refine [where rows = "[row]" and st = "if jp_hold p then ''Hold'' else ''Waiting''"])
      (auto simp: log_rows_def)
next
  case False
  from assms obtain c estimates where e:
    "estimate_job_nb_resources P (ss_sql S) (ss_order S) (jp_resource_request p) (jp_properties p) w =
       Inr (c, estimates)"
    by (auto simp: add_micheline_subjob_def res_simps)
  have "w' = w"
  proof (cases estimates)
    case None
    thus ?thesis using assms by (simp add: add_micheline_subjob_def e)
  next
    case (Some ns)
    hence "c = 0" using estimate_cases [OF e] by simp
    thus ?thesis
      using assms False by (auto simp: add_micheline_subjob_def e Some res_simps Let_def split: prod.splits)
  qed
  thus ?thesis by (simp add: refines_refl)
qed

section \<open>Arrays\<close>

lemma fold_insert_job_row:
  "\<exists>R. fold insert_job_row rows w = w\<lparr>t_jobs := t_jobs w @ R\<rparr> \<and>
     list_all2 (\<lambda>r row. r = row\<lparr>j_id := j_id r\<rparr> \<and> j_id r \<notin> j_id ` set (t_jobs w)) R rows \<and>
     distinct (map j_id R)"
proof (induction rows arbitrary: w)
  case Nil
  show ?case by (intro exI [of _ "[]"]) simp
next
  case (Cons row rows)
  define i where "i = fresh_id (map j_id (t_jobs w))"
  have i: "i \<notin> j_id ` set (t_jobs w)" using fresh_id_fresh [of "map j_id (t_jobs w)"] by (simp add: i_def)
  have ins: "insert_job_row row w = w\<lparr>t_jobs := t_jobs w @ [row\<lparr>j_id := i\<rparr>]\<rparr>"
    by (simp add: insert_job_row_def i_def)
  from Cons.IH [of "insert_job_row row w"] obtain R where
    R: "fold insert_job_row rows (insert_job_row row w) =
        (insert_job_row row w)\<lparr>t_jobs := t_jobs (insert_job_row row w) @ R\<rparr>"
      "list_all2 (\<lambda>r row'. r = row'\<lparr>j_id := j_id r\<rparr> \<and> j_id r \<notin> j_id ` set (t_jobs (insert_job_row row w))) R rows"
      "distinct (map j_id R)" by auto
  have "list_all2 (\<lambda>r row. r = row\<lparr>j_id := j_id r\<rparr> \<and> j_id r \<notin> j_id ` set (t_jobs w)) R rows"
    by (rule list_all2_mono [OF R(2)]) (simp add: insert_job_row_def)
  moreover have "i \<notin> j_id ` set R"
    using R(2) by (auto simp: list_all2_conv_all_nth in_set_conv_nth insert_job_row_def i_def)
  ultimately show ?case
    using R i ins by (intro exI [of _ "row\<lparr>j_id := i\<rparr> # R"]) simp
qed

lemma keeps_core:
  "t_jobs (insert_challenge i r a b w) = t_jobs w \<and> t_state_logs (insert_challenge i r a b w) = t_state_logs w \<and>
     db_now (insert_challenge i r a b w) = db_now w"
  "t_jobs (insert_moldables ms w) = t_jobs w \<and> t_state_logs (insert_moldables ms w) = t_state_logs w \<and>
     db_now (insert_moldables ms w) = db_now w"
  "t_jobs (insert_group_rows gs w) = t_jobs w \<and> t_state_logs (insert_group_rows gs w) = t_state_logs w \<and>
     db_now (insert_group_rows gs w) = db_now w"
  "t_jobs (insert_descrs ds w) = t_jobs w \<and> t_state_logs (insert_descrs ds w) = t_state_logs w \<and>
     db_now (insert_descrs ds w) = db_now w"
  "t_jobs (insert_dependencies i js w) = t_jobs w \<and> t_state_logs (insert_dependencies i js w) = t_state_logs w \<and>
     db_now (insert_dependencies i js w) = db_now w"
  "t_jobs (fold (add_current_job_types i) typs w) = t_jobs w \<and>
     t_state_logs (fold (add_current_job_types i) typs w) = t_state_logs w \<and>
     db_now (fold (add_current_job_types i) typs w) = db_now w"
  using fold_types [of i typs w]
  by (auto simp: insert_challenge_def insert_moldables_def insert_group_rows_def insert_descrs_def
      insert_dependencies_def Let_def)

definition same_core :: "db \<Rightarrow> db \<Rightarrow> bool" where
  "same_core v w \<longleftrightarrow> t_jobs v = t_jobs w \<and> t_state_logs v = t_state_logs w \<and> db_now v = db_now w"

lemma same_core_fold: "(\<And>x v. same_core (f x v) v) \<Longrightarrow> same_core (fold f xs w) w"
  by (induction xs arbitrary: w) (auto simp: same_core_def)

lemma fold_insert_state_log:
  "t_state_logs (fold (insert_state_log st d) ids w) = log_rows st d ids (t_state_logs w) \<and>
   t_jobs (fold (insert_state_log st d) ids w) = t_jobs w \<and> db_now (fold (insert_state_log st d) ids w) = db_now w"
  by (induction ids arbitrary: w) (simp_all add: insert_state_log_def log_rows_def)


text \<open>The array number of a job refers to a job that has been inserted.\<close>

definition array_ids_used :: "db \<Rightarrow> bool" where
  "array_ids_used w \<longleftrightarrow> (\<forall>j \<in> set (t_jobs w). j_array_id j < fresh_id (map j_id (t_jobs w)))"

lemma array_steps:
  assumes run: "add_micheline_simple_array_job P S p arr_index commands w = Inr (r, w')"
    and single: "\<not> length (jp_resource_request p) > 1"
  obtains row w2 w8 where
    "j_state row = ''Hold''"
    "w2 = fold insert_job_row (array_rows (row\<lparr>j_array_id := fresh_id (map j_id (t_jobs w))\<rparr>) (arr_index + 1) (tl commands))
       (insert_job_row (row\<lparr>j_array_index := arr_index, j_array_id := fresh_id (map j_id (t_jobs w))\<rparr>) w)"
    "same_core w8 w2"
    "w' = fold (insert_state_log (if jp_hold p then ''Hold'' else ''Waiting'') (db_now w))
       (map j_id (filter (\<lambda>j. j_array_id j = fresh_id (map j_id (t_jobs w))) (t_jobs w2)))
       (if jp_hold p then w8 else w8\<lparr>t_jobs := sql_update (\<lambda>j. j_array_id j = fresh_id (map j_id (t_jobs w)))
           (\<lambda>j. j\<lparr>j_state := ''Waiting''\<rparr>) (t_jobs w8)\<rparr>)"
proof -
  note def = add_micheline_simple_array_job_def if_not_P [OF single]
  obtain code estimates where e:
    "estimate_job_nb_resources P (ss_sql S) (ss_order S) (jp_resource_request p) (jp_properties p) w =
       Inr (code, estimates)"
    using run unfolding def
    by (cases "estimate_job_nb_resources P (ss_sql S) (ss_order S) (jp_resource_request p) (jp_properties p) w") auto
  obtain stdout where so: "output_file (jp_stdout p) (jp_name p) ''.%jobid%.stdout'' = Inr stdout"
    using run unfolding def e res_bind_simps prod.case
    by (cases "output_file (jp_stdout p) (jp_name p) ''.%jobid%.stdout''") auto
  obtain stderr where se: "output_file (jp_stderr p) (jp_name p) ''.%jobid%.stderr'' = Inr stderr"
    using run unfolding def e so res_bind_simps prod.case
    by (cases "output_file (jp_stderr p) (jp_name p) ''.%jobid%.stderr''") auto
  obtain command where c: "nth_res commands 0 = Inr command"
    using run unfolding def e so se res_bind_simps prod.case by (cases "nth_res commands 0") auto
  obtain ns where ns: "estimates = Some ns"
    using run unfolding def e so se c res_bind_simps prod.case by (cases estimates) auto
  obtain nbr wt where hd: "hd ns = (nbr, wt)" by (cases "hd ns")
  define message where "message = format_job_message_text (jp_name p) nbr wt (jp_job_type p)
    (jp_reservation_date p) (jp_queue p) (jp_project p) (jp_types p) ''''"
  define i where "i = fresh_id (map j_id (t_jobs w))"
  note run1 = run [unfolded def e so se c ns res_bind_simps prod.case option.case Let_def hd
      message_def [symmetric] i_def [symmetric]]
  have tl: "tl commands \<noteq> []" using run1 by (auto split: if_splits)
  obtain row where row: "job_columns p (Some command) (get_date w) message stdout stderr = Inr row"
    using run1 tl by (cases "job_columns p (Some command) (get_date w) message stdout stderr") auto
  obtain desc mwt where d: "nth_res (jp_resource_request p) 0 = Inr (desc, mwt)"
    using run1 tl row by (cases "nth_res (jp_resource_request p) 0") auto
  obtain walltime where wt: "default_walltime mwt w = Inr walltime"
    using run1 tl row d by (cases "default_walltime mwt w") auto
  define w2 where "w2 = fold insert_job_row (array_rows (row\<lparr>j_array_id := i\<rparr>) (arr_index + 1) (tl commands))
       (insert_job_row (row\<lparr>j_array_index := arr_index, j_array_id := i\<rparr>) w)"
  define ids where "ids = map j_id (filter (\<lambda>j. j_array_id j = i) (t_jobs w2))"
  define w3 where "w3 = fold (\<lambda>jid. insert_challenge jid (ss_random S jid) '''' '''') ids w2"
  define w4 where "w4 = insert_moldables (map (\<lambda>jid. (jid, walltime)) ids) w3"
  define mlds where "mlds = map m_id (filter (\<lambda>m. m_job m \<in> set ids) (sort_key m_id (t_moldables w4)))"
  define w5 where "w5 = insert_group_rows
     (concat (map (\<lambda>mld. map (\<lambda>(property, resources). (mld, property)) desc) mlds)) w4"
  note run2 = run1 [unfolded if_not_P [OF tl] row d wt res_bind_simps prod.case w2_def [symmetric]
      ids_def [symmetric] w3_def [symmetric] w4_def [symmetric] mlds_def [symmetric] w5_def [symmetric]]
  from run2 obtain descrs where w': "w' = fold (insert_state_log (if jp_hold p then ''Hold'' else ''Waiting'') (get_date w)) ids
      (let w8 = fold (\<lambda>jid. insert_dependencies jid (jp_dependencies p)) ids
           (fold (\<lambda>jid. fold (add_current_job_types jid) (jp_types p)) ids (insert_descrs (concat descrs) w5)) in
       if jp_hold p then w8 else w8\<lparr>t_jobs := sql_update (\<lambda>j. j_array_id j = i)
         (\<lambda>j. j\<lparr>j_state := if jp_hold p then ''Hold'' else ''Waiting''\<rparr>) (t_jobs w8)\<rparr>)"
    unfolding res_bind_eq_Inr Let_def by auto
  define w8 where "w8 = fold (\<lambda>jid. insert_dependencies jid (jp_dependencies p)) ids
     (fold (\<lambda>jid. fold (add_current_job_types jid) (jp_types p)) ids (insert_descrs (concat descrs) w5))"
  have "same_core w8 (fold (\<lambda>jid. fold (add_current_job_types jid) (jp_types p)) ids (insert_descrs (concat descrs) w5))"
    unfolding w8_def by (rule same_core_fold) (simp add: same_core_def keeps_core)
  moreover have "same_core (fold (\<lambda>jid. fold (add_current_job_types jid) (jp_types p)) ids
      (insert_descrs (concat descrs) w5)) (insert_descrs (concat descrs) w5)"
    by (rule same_core_fold) (simp add: same_core_def keeps_core)
  moreover have "same_core w3 w2"
    unfolding w3_def by (rule same_core_fold) (simp add: same_core_def keeps_core)
  ultimately have "same_core w8 w2" by (simp add: same_core_def keeps_core w4_def w5_def)
  moreover have "j_state row = ''Hold''" using row by (auto simp: job_columns_def res_simps)
  ultimately show thesis
    using w' by (intro that [of row w2 w8]) (simp_all add: w2_def i_def ids_def w8_def get_date_def Let_def)
qed

lemma array_refines:
  assumes run: "add_micheline_simple_array_job P S p arr_index commands w = Inr (r, w')"
    and used: "array_ids_used w"
  shows "refines w w'"
proof (cases "length (jp_resource_request p) > 1")
  case True
  thus ?thesis using run by (simp add: add_micheline_simple_array_job_def refines_refl)
next
  case False
  define st where "st = (if jp_hold p then ''Hold'' else ''Waiting'')"
  define i where "i = fresh_id (map j_id (t_jobs w))"
  obtain row w2 w8 where row: "j_state row = ''Hold''" and
    w2: "w2 = fold insert_job_row (array_rows (row\<lparr>j_array_id := i\<rparr>) (arr_index + 1) (tl commands))
          (insert_job_row (row\<lparr>j_array_index := arr_index, j_array_id := i\<rparr>) w)" and
    w8: "same_core w8 w2" and
    w': "w' = fold (insert_state_log st (db_now w)) (map j_id (filter (\<lambda>j. j_array_id j = i) (t_jobs w2)))
          (if jp_hold p then w8 else w8\<lparr>t_jobs := sql_update (\<lambda>j. j_array_id j = i)
             (\<lambda>j. j\<lparr>j_state := ''Waiting''\<rparr>) (t_jobs w8)\<rparr>)"
    unfolding st_def i_def by (rule array_steps [OF run False])
  define rows where "rows = row\<lparr>j_array_index := arr_index, j_array_id := i\<rparr> #
    array_rows (row\<lparr>j_array_id := i\<rparr>) (arr_index + 1) (tl commands)"
  obtain R where R: "w2 = w\<lparr>t_jobs := t_jobs w @ R\<rparr>"
    "list_all2 (\<lambda>r row. r = row\<lparr>j_id := j_id r\<rparr> \<and> j_id r \<notin> j_id ` set (t_jobs w)) R rows" "distinct (map j_id R)"
    using fold_insert_job_row [of rows w] by (auto simp: w2 rows_def)
  have rows: "\<forall>q \<in> set rows. j_array_id q = i \<and> j_state q = ''Hold''"
    using row by (auto simp: rows_def array_rows_def split: prod.splits)
  have new: "\<forall>q \<in> set R. j_array_id q = i \<and> j_state q = ''Hold'' \<and> j_id q \<notin> j_id ` set (t_jobs w)"
  proof
    fix q assume "q \<in> set R"
    then obtain k where k: "k < length R" "q = R ! k" by (auto simp: in_set_conv_nth)
    hence q: "q = (rows ! k)\<lparr>j_id := j_id q\<rparr>" "j_id q \<notin> j_id ` set (t_jobs w)"
      using list_all2_nthD [OF R(2)] by auto
    have "rows ! k \<in> set rows" using k(1) list_all2_lengthD [OF R(2)] by simp
    thus "j_array_id q = i \<and> j_state q = ''Hold'' \<and> j_id q \<notin> j_id ` set (t_jobs w)"
      using rows q(2) arg_cong [OF q(1), of j_array_id] arg_cong [OF q(1), of j_state] by simp
  qed
  have old: "\<forall>q \<in> set (t_jobs w). j_array_id q \<noteq> i" using used by (auto simp: array_ids_used_def i_def)
  define rows' where "rows' = map (\<lambda>q. q\<lparr>j_state := st\<rparr>) R"
  have ids: "filter (\<lambda>j. j_array_id j = i) (t_jobs w2) = R" "map j_id R = map j_id rows'"
    using new old by (simp_all add: R(1) filter_empty_conv rows'_def)
  have "t_jobs (if jp_hold p then w8 else w8\<lparr>t_jobs := sql_update (\<lambda>j. j_array_id j = i)
      (\<lambda>j. j\<lparr>j_state := ''Waiting''\<rparr>) (t_jobs w8)\<rparr>) = t_jobs w @ rows'"
  proof (cases "jp_hold p")
    case True
    have "rows' = R" using new True by (auto simp: rows'_def st_def intro: map_idI)
    thus ?thesis using w8 True by (simp add: same_core_def R(1))
  next
    case False
    have "sql_update (\<lambda>j. j_array_id j = i) f (t_jobs w @ R) = t_jobs w @ map f R" for f
      using new old by (simp add: sql_update_def map_idI)
    thus ?thesis using w8 False by (simp add: same_core_def R(1) rows'_def st_def)
  qed
  hence jobs: "t_jobs w' = t_jobs w @ rows'" unfolding w' by (simp only: fold_insert_state_log)
  have base: "t_state_logs w8 = t_state_logs w" "db_now w8 = db_now w"
    using w8 by (simp_all add: same_core_def R(1))
  have now: "db_now w' = db_now w" unfolding w' by (simp add: fold_insert_state_log base)
  have logs: "t_state_logs w' = log_rows st (db_now w) (map j_id rows') (t_state_logs w)"
    unfolding w' ids by (simp add: fold_insert_state_log base)
  have states: "\<forall>j \<in> set rows'. j_state j = st" "st \<in> {''Waiting'', ''Hold''}"
    by (simp_all add: rows'_def st_def)
  have "distinct (map j_id (t_jobs w @ rows'))" if "distinct (map j_id (t_jobs w))"
  proof -
    have "j_id ` set (t_jobs w) \<inter> j_id ` set R = {}"
    proof (rule equals0I)
      fix x assume "x \<in> j_id ` set (t_jobs w) \<inter> j_id ` set R"
      then obtain q where "q \<in> set R" "x = j_id q" "x \<in> j_id ` set (t_jobs w)" by blast
      thus False using new by simp
    qed
    thus ?thesis using that R(3) unfolding map_append ids(2) [symmetric] by simp
  qed
  with jobs now logs states show ?thesis by (rule added_jobs_refine)
qed


lemma add_subjobs_refines:
  "add_subjobs P S p commands array_id arr_index ids w = Inr (r, w') \<Longrightarrow> refines w w'"
proof (induction commands arbitrary: array_id arr_index ids w)
  case Nil
  thus ?case by (simp add: refines_refl)
next
  case (Cons command commands)
  from Cons.prems obtain error pri pub where
    key: "job_key_management (ss_keys S arr_index) (jp_use_job_key p) (jp_import_job_key_inline p)
       (jp_import_job_key_file p) (jp_export_job_key_file p) w = Inr (error, pri, pub)"
    by (auto simp: res_simps)
  show ?case
  proof (cases "fst error = 0")
    case False
    thus ?thesis using Cons.prems key by (simp add: refines_refl)
  next
    case True
    from Cons.prems key True obtain code jid w1 where
      sub: "add_micheline_subjob P S p pri pub array_id arr_index command w = Inr ((code, jid), w1)"
      by (auto simp: res_simps)
    note first = subjob_refines [OF sub]
    show ?thesis
    proof (cases "code = 0")
      case False
      thus ?thesis using Cons.prems key True sub first by auto
    next
      case ok: True
      with Cons.prems key True sub have
        "add_subjobs P S p commands (if array_id \<le> 0 then hd (ids @ [jid]) else array_id) (arr_index + 1)
           (ids @ [jid]) w1 = Inr (r, w')"
        by (simp add: Let_def split: if_splits)
      from first Cons.IH [OF this] show ?thesis by (rule refines_trans)
    qed
  qed
qed

lemma refines_to_sum:
  "\<lbrakk>\<And>l. x = Inl l \<Longrightarrow> refines_to w g (f l); \<And>r. x = Inr r \<Longrightarrow> refines_to w g (h r)\<rbrakk> \<Longrightarrow>
   refines_to w g (case x of Inl l \<Rightarrow> f l | Inr r \<Rightarrow> h r)"
  by (cases x) simp_all

lemma submission_refines:
  assumes "array_ids_used w"
  shows "refines_to w snd (add_micheline_jobs P S A p w)"
proof -
  have array: "refines_to w snd (add_micheline_simple_array_job P S q k commands w)" for q k commands
    using assms by (auto simp: refines_to_def intro: array_refines)
  have sub: "refines_to w snd (add_subjobs P S q commands n k ids w)" for q commands n k ids
    by (auto simp: refines_to_def intro: add_subjobs_refines)
  have stay: "refines_to w snd (Inr (x, w))" for x :: "(int \<times> string) \<times> int list"
    by (simp add: refines_to_def refines_refl)
  show ?thesis
    unfolding add_micheline_jobs_def Let_def
    by (intro refines_to_bind [OF array] refines_to_read refines_to_option refines_to_if refines_to_sum
          refines_to_Inl stay sub)
       (auto simp: refines_to_def refines_refl)
qed

end
