(* ===== verification/Hulot.thy ===== *)
theory Hulot
  imports Nodes Tools
begin

text \<open>
  \<open>oar/modules/hulot.py\<close>: the energy saving module, which halts and wakes up nodes when the meta-scheduler asks for
  it, keeps a number of idle nodes alive for some groups of nodes, and suspects the nodes that do not wake up.

  The state of the process is the record \<open>hulot_state\<close>: the commands that run (\<open>nodes_list_running\<close>), those to
  remember (\<open>nodes_list_to_remind\<close>), the groups to keep alive and the executors of the window forker. One turn of the
  loop is \<open>check_executors\<close>, then, when a message has come (\<open>wait\<close> is what the other processes do to the database
  meanwhile), \<open>handle_message\<close>. Dictionaries are association lists in their order. The SQL conditions of the
  configuration and the results of the executors are parameters (\<open>Q\<close> and \<open>status\<close>).
\<close>

section \<open>Configuration\<close>

type_synonym node_commands = "(string \<times> string \<times> int) list"

datatype timeout_config = Timeout_int int | Timeout_str string

text \<open>One pair; the warning about a wrong pair names a variable that is unbound, or the list of the last pair.\<close>

definition add_timeout :: "string \<Rightarrow> (int \<times> int) list \<Rightarrow> (int \<times> int) list res" where
  "add_timeout pair timeouts = (case split_on (CHR '':'') pair of
     [a, b] \<Rightarrow> if a \<noteq> [] \<and> b \<noteq> [] \<and> list_all is_digit a \<and> list_all is_digit b then
         res_bind (py_int a) (\<lambda>n. res_bind (py_int b) (\<lambda>t. Inr (AList.update n t timeouts)))
       else Inl (if timeouts = [] then UnboundLocalError else TypeError)
   | _ \<Rightarrow> Inl (if timeouts = [] then UnboundLocalError else TypeError))"

definition fill_timeouts :: "timeout_config \<Rightarrow> (int \<times> int) list res" where
  "fill_timeouts str_timeouts = (case str_timeouts of
     Timeout_int n \<Rightarrow> Inr [(1, n)]
   | Timeout_str s \<Rightarrow>
       if py_strip s \<noteq> [] \<and> list_all is_digit (py_strip s)
       then res_bind (py_int (py_strip s)) (\<lambda>n. Inr [(1, n)])
       else if py_strip s = [] then Inl UnboundLocalError
       else fold_res add_timeout (py_split s) [])"

fun timeout_for :: "(int \<times> int) list \<Rightarrow> int \<Rightarrow> int \<Rightarrow> int" where
  "timeout_for [] nb_nodes timeout = timeout"
| "timeout_for ((nb, t) # rest) nb_nodes timeout =
     (if nb_nodes < nb then timeout else timeout_for rest nb_nodes t)"

definition get_timeout :: "(int \<times> int) list \<Rightarrow> int \<Rightarrow> int res" where
  "get_timeout timeouts nb_nodes =
     res_bind (lookup_res (map_of timeouts) 1) (\<lambda>t. Inr (timeout_for (sort_key fst timeouts) nb_nodes t))"

record keepalive_group =
  ka_nodes :: "string list"
  ka_min :: int
  ka_idle :: int

text \<open>\<open>re.match(r".+:\d+,*", s)\<close>\<close>

definition keepalive_syntax :: "string \<Rightarrow> bool" where
  "keepalive_syntax s = list_ex (\<lambda>i. s ! i = CHR '':'' \<and> is_digit (s ! (i + 1)) \<and> CHR 0x0A \<notin> set (take i s))
     [1..<length s - 1]"

text \<open>The groups; a number is the exit code of the process.\<close>

definition add_keepalive ::
    "string \<Rightarrow> int + (string \<times> keepalive_group) list \<Rightarrow> (int + (string \<times> keepalive_group) list) res" where
  "add_keepalive item r = (case r of
     Inl c \<Rightarrow> Inr (Inl c)
   | Inr groups \<Rightarrow>
       let prop_nb = split_on (CHR '':'') item in
       res_bind (nth_res prop_nb 0) (\<lambda>properties.
       res_bind (nth_res prop_nb 1) (\<lambda>nb_nodes.
       let nb = (if nb_nodes \<noteq> [] \<and> last nb_nodes = CHR 0x0A then butlast nb_nodes else nb_nodes) in
       if nb = [] \<or> \<not> list_all is_digit nb then Inr (Inl 2)
       else res_bind (py_int nb) (\<lambda>n.
         Inr (Inr (AList.update properties \<lparr>ka_nodes = [], ka_min = n, ka_idle = 0\<rparr> groups))))))"

definition parse_keepalive :: "string \<Rightarrow> (int + (string \<times> keepalive_group) list) res" where
  "parse_keepalive s =
     (if \<not> keepalive_syntax s then Inr (Inl 3)
      else fold_res add_keepalive (split_on (CHR '','') s) (Inr []))"

section \<open>The state\<close>

record node_executor =
  ne_id :: nat
  ne_node :: string
  ne_cmd :: string
  ne_date :: int

record hulot_state =
  hu_running :: node_commands
  hu_remind :: node_commands
  hu_keepalive :: "(string \<times> keepalive_group) list"
  hu_executors :: "node_executor list"
  hu_next :: nat
  hu_cycles :: int

text \<open>
  Hulot starts with the commands that an earlier process saved, if any; the executors of that process are
  forgotten.
\<close>

definition start_hulot_state ::
    "(node_commands \<times> node_commands) option \<Rightarrow> (string \<times> keepalive_group) list \<Rightarrow> hulot_state" where
  "start_hulot_state dump keepalive = (case dump of
     None \<Rightarrow> \<lparr>hu_running = [], hu_remind = [], hu_keepalive = keepalive, hu_executors = [], hu_next = 0, hu_cycles = 1\<rparr>
   | Some (running, remind) \<Rightarrow> \<lparr>hu_running = running, hu_remind = remind, hu_keepalive = keepalive,
       hu_executors = [], hu_next = 0, hu_cycles = 1\<rparr>)"

definition del_res :: "string \<Rightarrow> (string \<times> 'a) list \<Rightarrow> (string \<times> 'a) list res" where
  "del_res k m = (if k \<in> fst ` set m then Inr (AList.delete k m) else Inl KeyError)"

section \<open>The window forker\<close>

text \<open>
  What an executor answers: not ready; ready when it is asked; or ready only at the forced end. Its result is the
  exit code of the command, or the exception of \<open>command_executor\<close> when the configuration has no command.
\<close>

datatype exec_status = Not_ready | Ready "int res" | Late_ready "int res"

definition command_executor :: "(string \<Rightarrow> int) \<Rightarrow> string \<times> string \<Rightarrow> db \<Rightarrow> int res" where
  "command_executor run cmd_node w = (case cmd_node of (command, node) \<Rightarrow>
     res_bind (lookup_res (db_config w)
         (if command = ''HALT'' then ''ENERGY_SAVING_NODE_MANAGER_SLEEP_CMD''
          else ''ENERGY_SAVING_NODE_MANAGER_WAKE_UP_CMD''))
       (\<lambda>c. Inr (run (''echo \"'' @ node @ ''\" | '' @ c))))"

definition suspect_node :: "string \<Rightarrow> string \<Rightarrow> db \<Rightarrow> db" where
  "suspect_node node info w =
     add_new_event_with_host ''LOG_SUSPECTED'' 0 info [node] (change_node_state node ''Suspected'' w)"

text \<open>One executor: whether it is removed, the commands that run, and the database.\<close>

definition check_executor ::
    "(nat \<Rightarrow> exec_status) \<Rightarrow> int \<Rightarrow> node_executor \<Rightarrow> node_commands \<times> db \<Rightarrow> (bool \<times> node_commands \<times> db) res" where
  "check_executor status max_duration x s = (case s of (running, w) \<Rightarrow>
     case status (ne_id x) of
       Ready r \<Rightarrow> res_bind r (\<lambda>exit_status.
         if exit_status \<noteq> 0 then
           Inr (True, running, suspect_node (ne_node x) (''Node '' @ ne_node x @
             '' was suspected because an error occurred with a command launched by Hulot'') w)
         else if ne_cmd x = ''HALT'' then res_bind (del_res (ne_node x) running) (\<lambda>running. Inr (True, running, w))
         else Inr (True, running, w))
     | other \<Rightarrow>
         if get_date w - ne_date x > max_duration then
           (case other of Late_ready r \<Rightarrow> res_bind r (\<lambda>exit_status. Inr (True, running, w))
            | _ \<Rightarrow>
              if ne_cmd x = ''HALT'' then
                res_bind (del_res (ne_node x) running) (\<lambda>running.
                Inr (True, running, suspect_node (ne_node x) (''Node '' @ ne_node x @
                  '' was suspected because shutdown command launched by Hulot timeouted'') w))
              else Inr (True, running, w))
         else Inr (False, running, w))"

fun check_executors ::
    "(nat \<Rightarrow> exec_status) \<Rightarrow> int \<Rightarrow> node_executor list \<Rightarrow> node_commands \<times> db \<Rightarrow>
     (node_executor list \<times> node_commands \<times> db) res" where
  "check_executors status max_duration [] s = Inr ([], s)"
| "check_executors status max_duration (x # xs) s =
     res_bind (check_executor status max_duration x s) (\<lambda>(gone, s).
     res_bind (check_executors status max_duration xs s) (\<lambda>(kept, s).
     Inr (if gone then kept else x # kept, s)))"

text \<open>The descriptions of both events name the last node of all the commands.\<close>

definition add_commands_toLaunch :: "(string \<times> string) list \<Rightarrow> hulot_state \<times> db \<Rightarrow> hulot_state \<times> db" where
  "add_commands_toLaunch commands s = (case s of (h, w) \<Rightarrow>
     let halt_nodes = map snd (filter (\<lambda>(cmd, node). cmd = ''HALT'') commands);
         wakeup_nodes = map snd (filter (\<lambda>(cmd, node). cmd \<noteq> ''HALT'') commands);
         node = snd (last commands);
         w1 = (if halt_nodes = [] then w else
           add_new_event_with_host ''HALT_NODE'' 0 (''Node '' @ node @ '' halt request'') halt_nodes w);
         w2 = (if wakeup_nodes = [] then w1 else
           add_new_event_with_host ''WAKEUP_NODE'' 0 (''Node '' @ node @ '' wake-up request'') wakeup_nodes w1) in
     (h\<lparr>hu_executors := hu_executors h @
          map (\<lambda>(i, cmd, node). \<lparr>ne_id = i, ne_node = node, ne_cmd = cmd, ne_date = get_date w\<rparr>)
            (enumerate (hu_next h) commands),
        hu_next := hu_next h + length commands\<rparr>, w2))"

section \<open>A message\<close>

text \<open>Waking up nodes of a group, in the order of the query, until \<open>ok_nodes\<close> is not negative.\<close>

fun wake_nodes :: "string list \<Rightarrow> node_commands \<Rightarrow> int \<Rightarrow> string list \<Rightarrow> node_commands \<Rightarrow> node_commands" where
  "wake_nodes can_wake running ok_nodes [] to_process = to_process"
| "wake_nodes can_wake running ok_nodes (node # nodes) to_process =
     (if ok_nodes \<ge> 0 then to_process
      else if node \<in> set can_wake then
        wake_nodes can_wake running (ok_nodes + 1) nodes
          (if node \<in> fst ` set running then to_process else AList.update node (''WAKEUP'', - 1) to_process)
      else wake_nodes can_wake running ok_nodes nodes to_process)"

definition alive_condition :: "string \<Rightarrow> string" where
  "alive_condition properties = properties @ ''and (state='Alive' or next_state='Alive')''"

definition state_alive :: string where
  "state_alive = ''state='Alive'' @ [CHR 0x27]"

definition check_group ::
    "(string \<Rightarrow> db \<Rightarrow> string list res) \<Rightarrow> node_commands \<Rightarrow> db \<Rightarrow> string \<times> keepalive_group \<Rightarrow>
     (string \<times> keepalive_group) list \<times> node_commands \<Rightarrow> ((string \<times> keepalive_group) list \<times> node_commands) res" where
  "check_group Q running w grp s = (case grp of (properties, info) \<Rightarrow> case s of (groups, to_process) \<Rightarrow>
     res_bind (Q properties w) (\<lambda>nodes.
     res_bind (Q (alive_condition properties) w) (\<lambda>alive_nodes.
     let occupied = get_alive_nodes_with_jobs w;
         occupied_nodes = filter (\<lambda>n. n \<in> set occupied) alive_nodes;
         idle_nodes = filter (\<lambda>n. n \<notin> set occupied) alive_nodes;
         idle = int (length idle_nodes);
         wakeable = filter (\<lambda>n. n \<notin> set occupied_nodes \<and> n \<notin> set idle_nodes) nodes in
     Inr (groups @ [(properties, info\<lparr>ka_nodes := nodes, ka_idle := idle\<rparr>)],
       wake_nodes (get_nodes_that_can_be_waked_up (get_date w) w) running (idle - ka_min info) wakeable to_process))))"

text \<open>The nodes that boot: those that are up or too late leave the commands that run.\<close>

definition check_booting ::
    "string list \<Rightarrow> string \<times> string \<times> int \<Rightarrow> string list \<times> string list \<times> db \<Rightarrow> string list \<times> string list \<times> db" where
  "check_booting nodes_alive entry s = (case entry of (node, cmd, timeout) \<Rightarrow> case s of (to_remove, nodes, w) \<Rightarrow>
     if cmd \<noteq> ''WAKEUP'' then s
     else if node \<in> set nodes_alive then (to_remove @ [node], nodes, w)
     else if get_date w > timeout then
       (to_remove @ [node], remove1 node nodes, suspect_node node (''Node '' @ node @
         ''was suspected because it did not wake up before the end of the timeout'') w)
     else s)"

text \<open>The reminded commands are never taken off their list: \<open>nodes_toRemove\<close> stays empty.\<close>

definition check_reminded_list :: "node_commands \<Rightarrow> node_commands \<Rightarrow> node_commands \<Rightarrow> node_commands" where
  "check_reminded_list running remind to_process =
     fold (\<lambda>(node, cmd, timeout) p. AList.update node (cmd, - 1) p)
       (filter (\<lambda>(node, cmd, timeout). node \<notin> fst ` set running) remind) to_process"

definition receive_node ::
    "string \<Rightarrow> node_commands \<Rightarrow> string \<Rightarrow> node_commands \<times> node_commands \<Rightarrow> node_commands \<times> node_commands" where
  "receive_node command running node s = (case s of (to_process, remind) \<Rightarrow>
     case map_of running node of
       None \<Rightarrow> (AList.update node (command, - 1) to_process, remind)
     | Some (cmd, timeout) \<Rightarrow>
         if command \<noteq> cmd then (to_process, AList.update node (command, - 1) remind) else s)"

text \<open>
  The list of commands. A node that two groups keep alive is noted twice for removal. An unknown command ends the
  process with 1 (the flag \<open>ba_unknown\<close>).
\<close>

record batch =
  ba_process :: node_commands
  ba_keepalive :: "(string \<times> keepalive_group) list"
  ba_running :: node_commands
  ba_removed :: "string list"
  ba_launch :: "(string \<times> string) list"
  ba_unknown :: bool
  ba_db :: db

definition kept_alive :: "string \<Rightarrow> string \<times> keepalive_group \<Rightarrow> bool" where
  "kept_alive node grp \<longleftrightarrow> node \<in> set (ka_nodes (snd grp)) \<and> ka_idle (snd grp) \<le> ka_min (snd grp)"

definition leave_group :: "string \<Rightarrow> string \<times> keepalive_group \<Rightarrow> string \<times> keepalive_group" where
  "leave_group node grp = (case grp of (properties, info) \<Rightarrow>
     (properties, if node \<in> set (ka_nodes info) then info\<lparr>ka_idle := ka_idle info - 1\<rparr> else info))"

definition process_node :: "int \<Rightarrow> string \<times> string \<times> int \<Rightarrow> batch \<Rightarrow> batch" where
  "process_node timeout entry b = (case entry of (node, cmd, old) \<Rightarrow>
     if ba_unknown b then b
     else if cmd = ''WAKEUP'' then
       b\<lparr>ba_process := ba_process b @ [(node, cmd, get_date (ba_db b) + timeout)],
         ba_launch := ba_launch b @ [(''WAKEUP'', node)]\<rparr>
     else if cmd = ''HALT'' then
       (let against = filter (kept_alive node) (ba_keepalive b);
            b1 = b\<lparr>ba_process := ba_process b @ [entry]\<rparr> in
        if against \<noteq> [] then
          b1\<lparr>ba_running := AList.delete node (ba_running b),
            ba_removed := ba_removed b @ map (\<lambda>g. node) against\<rparr>
        else b1\<lparr>ba_keepalive := map (leave_group node) (ba_keepalive b),
            ba_db := change_node_state node ''Absent'' (ba_db b),
            ba_launch := ba_launch b @ [(''HALT'', node)]\<rparr>)
     else b\<lparr>ba_unknown := True\<rparr>)"

section \<open>The loop\<close>

datatype hulot_exit = Unknown_command | Refresh node_commands node_commands

text \<open>From the requests that have been sorted to the end of the turn.\<close>

definition launch_commands ::
    "(int \<times> int) list \<Rightarrow> int \<Rightarrow> node_commands \<Rightarrow> hulot_state \<Rightarrow> db \<Rightarrow> (hulot_exit option \<times> hulot_state \<times> db) res" where
  "launch_commands timeouts max_cycles to_process h w =
     res_bind (get_timeout timeouts (int (length (hu_running h) + length to_process))) (\<lambda>timeout.
     let b = fold (process_node timeout) to_process \<lparr>ba_process = [], ba_keepalive = hu_keepalive h,
           ba_running = hu_running h, ba_removed = [], ba_launch = [], ba_unknown = False, ba_db = w\<rparr> in
     if ba_unknown b then Inr (Some Unknown_command, h, ba_db b)
     else res_bind (fold_res del_res (ba_removed b) (ba_process b)) (\<lambda>to_process.
       let (h1, w1) = (if ba_launch b = [] then (h, ba_db b) else add_commands_toLaunch (ba_launch b) (h, ba_db b));
           h2 = h1\<lparr>hu_keepalive := ba_keepalive b,
             hu_running := fold (\<lambda>(node, c). AList.update node c) to_process (ba_running b),
             hu_cycles := hu_cycles h + 1\<rparr> in
       Inr (if hu_cycles h2 \<ge> max_cycles then Some (Refresh (hu_running h2) (hu_remind h2)) else None, h2, w1)))"

definition handle_message ::
    "(string \<Rightarrow> db \<Rightarrow> string list res) \<Rightarrow> (int \<times> int) list \<Rightarrow> int \<Rightarrow> string option \<times> string list \<Rightarrow> hulot_state \<Rightarrow>
     db \<Rightarrow> (hulot_exit option \<times> hulot_state \<times> db) res" where
  "handle_message Q timeouts max_cycles message h w = (case message of (None, nodes) \<Rightarrow> Inl KeyError
     | (Some command, nodes) \<Rightarrow>
     res_bind (fold_res (check_group Q (hu_running h) w) (hu_keepalive h) ([], [])) (\<lambda>(keepalive, woken).
     res_bind (Q state_alive w) (\<lambda>nodes_alive.
     let (to_remove, nodes, w) = fold (check_booting nodes_alive) (hu_running h) ([], nodes, w);
         running = fold AList.delete to_remove (hu_running h);
         reminded = check_reminded_list running (hu_remind h) woken;
         (to_process, remind) = fold (receive_node command running) nodes (reminded, hu_remind h) in
     launch_commands timeouts max_cycles to_process
       (h\<lparr>hu_running := running, hu_remind := remind, hu_keepalive := keepalive\<rparr>) w)))"

definition hulot_turn ::
    "(string \<Rightarrow> db \<Rightarrow> string list res) \<Rightarrow> (int \<times> int) list \<Rightarrow> int \<Rightarrow> int \<Rightarrow> (nat \<Rightarrow> exec_status) \<Rightarrow> (db \<Rightarrow> db) \<Rightarrow>
     string option \<times> string list \<Rightarrow> hulot_state \<Rightarrow> db \<Rightarrow> (hulot_exit option \<times> hulot_state \<times> db) res" where
  "hulot_turn Q timeouts max_cycles max_duration status wait message h w =
     res_bind (check_executors status max_duration (hu_executors h) (hu_running h, w)) (\<lambda>(executors, running, w).
     handle_message Q timeouts max_cycles message (h\<lparr>hu_executors := executors, hu_running := running\<rparr>) (wait w))"

end
