(* ===== verification/Hulot_Life.thy ===== *)
theory Hulot_Life
  imports Hulot Job_End
begin

text \<open>Hulot touches nodes and events only: its steps leave the states and the log of the jobs alone.\<close>

lemma suspect_node_life [life_simps]: "life_of (suspect_node n info w) = life_of w"
  by (simp add: suspect_node_def change_node_state_def set_node_nextState_def life_simps)

lemma change_node_life [life_simps]: "life_of (change_node_state n s w) = life_of w"
  by (simp add: change_node_state_def set_node_nextState_def life_simps)

lemma check_executor_life:
  "check_executor status d x (running, w) = Inr (gone, running', w') \<Longrightarrow> life_of w' = life_of w"
  by (auto simp: check_executor_def res_simps life_simps split: exec_status.splits if_splits)

lemma check_executors_life:
  "check_executors status d xs (running, w) = Inr (kept, running', w') \<Longrightarrow> life_of w' = life_of w"
proof (induction xs arbitrary: running w kept)
  case (Cons x xs)
  from Cons.prems obtain gone r1 w1 kept1 where
    "check_executor status d x (running, w) = Inr (gone, r1, w1)"
    "check_executors status d xs (r1, w1) = Inr (kept1, running', w')"
    by (auto simp: res_simps split: if_splits)
  thus ?case using check_executor_life Cons.IH by metis
qed simp

lemma check_booting_life:
  "life_of (snd (snd (fold (check_booting up) entries s))) = life_of (snd (snd s))"
  by (rule fold_keeps [where k = "\<lambda>s. life_of (snd (snd s))"])
     (simp add: check_booting_def life_simps split: prod.split)

lemma process_nodes_life: "life_of (ba_db (fold (process_node t) P b)) = life_of (ba_db b)"
  by (rule fold_keeps [where k = "\<lambda>b. life_of (ba_db b)"])
     (simp add: process_node_def Let_def life_simps split: prod.split)

lemma add_commands_life: "life_of (snd (add_commands_toLaunch commands (h, w))) = life_of w"
  by (simp add: add_commands_toLaunch_def Let_def life_simps)

lemma launch_commands_life:
  assumes "launch_commands timeouts max_cycles P h w = Inr (r, h', w')"
  shows "life_of w' = life_of w"
proof -
  obtain t where t: "get_timeout timeouts (int (length (hu_running h) + length P)) = Inr t"
    using assms by (auto simp: launch_commands_def res_simps)
  define b where "b = fold (process_node t) P \<lparr>ba_process = [], ba_keepalive = hu_keepalive h,
    ba_running = hu_running h, ba_removed = [], ba_launch = [], ba_unknown = False, ba_db = w\<rparr>"
  have b: "life_of (ba_db b) = life_of w" by (simp add: b_def process_nodes_life)
  obtain h1 w1 where add: "add_commands_toLaunch (ba_launch b) (h, ba_db b) = (h1, w1)" by fastforce
  hence "life_of w1 = life_of w" using add_commands_life [of "ba_launch b" h "ba_db b"] b by simp
  moreover have "w' = ba_db b \<or> w' = w1"
    using assms unfolding launch_commands_def t res_bind_simps b_def [symmetric]
    by (auto simp: add Let_def res_bind_eq_Inr split: if_splits)
  ultimately show ?thesis using b by auto
qed

lemma handle_message_life:
  assumes "handle_message Q timeouts max_cycles message h w = Inr (r, h', w')"
  shows "life_of w' = life_of w"
proof -
  obtain command nodes where m: "message = (Some command, nodes)"
    using assms by (cases message) (auto simp: handle_message_def split: option.splits)
  obtain up where up: "Q state_alive w = Inr up" using assms by (auto simp: m handle_message_def res_simps)
  obtain gone ns w1 where boot: "fold (check_booting up) (hu_running h) ([], nodes, w) = (gone, ns, w1)"
    by (metis prod_cases3)
  hence w1: "life_of w1 = life_of w" using check_booting_life [of up "hu_running h" "([], nodes, w)"] by simp
  obtain groups woken where "fold_res (check_group Q (hu_running h) w) (hu_keepalive h) ([], []) = Inr (groups, woken)"
    using assms by (auto simp: m handle_message_def res_simps)
  hence "\<exists>P h1. launch_commands timeouts max_cycles P h1 w1 = Inr (r, h', w')"
    using assms by (auto simp: m handle_message_def up boot Let_def split: prod.splits)
  thus ?thesis using launch_commands_life w1 by metis
qed

end
