(* ===== verification/Bipbip.thy ===== *)
theory Bipbip
  imports Killer Gantt
begin

text \<open>
  \<open>oar/modules/bipbip.py\<close>: the process that starts a job that the meta-scheduler has decided to launch, and that
  ends it when \<open>oarexec\<close> reports.

  \<open>main\<close> catches every exception, so what a run wrote before it raised counts: an action is a function on the
  record \<open>bip\<close> (exit code and database) that returns a result and the record in both cases. The stages of \<open>run\<close>
  return whether the run goes on. The nodes, the scripts and the client are the record \<open>bip_env\<close>; the dictionaries
  sent to the nodes are left out, the conditions under which building them raises are not.
\<close>

section \<open>Actions\<close>

record bip =
  bip_exit :: int
  bip_db :: db

type_synonym 'a action = "bip \<Rightarrow> 'a res \<times> bip"

definition return :: "'a \<Rightarrow> 'a action" where
  "return a s = (Inr a, s)"

definition raise_error :: "py_error \<Rightarrow> 'a action" where
  "raise_error e s = (Inl e, s)"

definition next_action :: "'a action \<Rightarrow> ('a \<Rightarrow> 'b action) \<Rightarrow> 'b action" where
  "next_action m f s = (case m s of (Inl e, s1) \<Rightarrow> (Inl e, s1) | (Inr a, s1) \<Rightarrow> f a s1)"

definition query :: "(db \<Rightarrow> 'a) \<Rightarrow> 'a action" where
  "query f s = (Inr (f (bip_db s)), s)"

definition query_res :: "(db \<Rightarrow> 'a res) \<Rightarrow> 'a action" where
  "query_res f s = (f (bip_db s), s)"

definition change :: "(db \<Rightarrow> db) \<Rightarrow> unit action" where
  "change f s = (Inr (), s\<lparr>bip_db := f (bip_db s)\<rparr>)"

definition change_res :: "(db \<Rightarrow> db res) \<Rightarrow> unit action" where
  "change_res f s = (case f (bip_db s) of Inl e \<Rightarrow> (Inl e, s) | Inr w \<Rightarrow> (Inr (), s\<lparr>bip_db := w\<rparr>))"

definition set_exit_code :: "int \<Rightarrow> unit action" where
  "set_exit_code c s = (Inr (), s\<lparr>bip_exit := c\<rparr>)"

section \<open>The outside\<close>

record bip_env =
  remote_of :: remote
  random_of :: int
  init_nodes :: "string list \<Rightarrow> int \<times> string list"
  clean_nodes :: "string list \<Rightarrow> int \<times> string list"
  ping_nodes :: "string list \<Rightarrow> bool \<times> string list"
  prologue_of :: "string \<Rightarrow> int \<Rightarrow> epilogue_result"
  reaches_client :: "string \<Rightarrow> int \<Rightarrow> bool"
  oarexec_starts :: "string \<Rightarrow> int \<Rightarrow> bool"

definition interactive :: "job_row \<Rightarrow> bool" where
  "interactive job \<longleftrightarrow> j_type job = ''INTERACTIVE'' \<and> j_reservation job = ''None''"

text \<open>\<open>notify_interactif_user\<close>: whether the client was reached.\<close>

definition notify_interactif_user :: "bip_env \<Rightarrow> job_row \<Rightarrow> string \<Rightarrow> bool action" where
  "notify_interactif_user X job message =
     next_action (query_res (\<lambda>w. client_address job)) (\<lambda>(addr, port).
     next_action (query_res (\<lambda>w. py_int port)) (\<lambda>n.
       if reaches_client X addr n then
         next_action (change (send (Tcp_client (addr @ '':'' @ port) message))) (\<lambda>_. return True)
       else return False))"

definition tell_interactive :: "bip_env \<Rightarrow> job_row \<Rightarrow> string \<Rightarrow> unit action" where
  "tell_interactive X job message =
     (if interactive job then next_action (notify_interactif_user X job message) (\<lambda>_. return ()) else return ())"

section \<open>The prologue of the server\<close>

definition prologue_failed :: "bip_env \<Rightarrow> job_row \<Rightarrow> string \<Rightarrow> string \<Rightarrow> string \<Rightarrow> unit action" where
  "prologue_failed X job event msg client_msg =
     next_action (change (\<lambda>w. notify_almighty ''ChState'' (add_new_event event (j_id job) (''[bipbip] '' @ msg) ''YES'' w))) (\<lambda>_.
     next_action (tell_interactive X job client_msg) (\<lambda>_.
     set_exit_code 2))"

text \<open>Its answer is used by no caller: the job is launched whatever the script says.\<close>

definition call_server_prologue :: "bip_env \<Rightarrow> job_row \<Rightarrow> unit action" where
  "call_server_prologue X job =
     next_action (query (\<lambda>w. db_config w ''SERVER_PROLOGUE_EXEC_FILE'')) (\<lambda>script. case script of
       None \<Rightarrow> return ()
     | Some s \<Rightarrow>
         if s = '''' then return ()
         else
           let jid = j_id job; cmd = str_list [s, int_str jid]; head = ''['' @ int_str jid @ '']'' in
           (case prologue_of X s jid of
              Epilogue_exit code \<Rightarrow>
                if code \<noteq> 0 then
                  prologue_failed X job ''SERVER_PROLOGUE_EXIT_CODE_ERROR''
                    (head @ '' Server prologue exit code: '' @ int_str code @ '' (!=0) (cmd: '' @ cmd @ '')'')
                    ''ERROR: SERVER PROLOGUE returned a bad value''
                else return ()
            | Epilogue_oserror \<Rightarrow> return ()
            | Epilogue_timeout \<Rightarrow>
                prologue_failed X job ''SERVER_PROLOGUE_TIMEOUT''
                  (head @ '' Server prologue timeouted (cmd: '' @ cmd) ''ERROR: SERVER PROLOGUE timeouted''))"

section \<open>The end of oarexec\<close>

record bip_args =
  ba_exit_value :: "string option"
  ba_script_value :: "string option"
  ba_challenge :: "string option"

text \<open>\<open>__init__\<close>: the number of the job and the other arguments.\<close>

definition new_bipbip :: "string list \<Rightarrow> (int \<times> bip_args) res" where
  "new_bipbip args = res_bind (nth_res args 0) (\<lambda>a. res_bind (py_int a) (\<lambda>jid.
     let arg = (\<lambda>i. if i < length args then Some (args ! i) else None) in
     Inr (jid, \<lparr>ba_exit_value = arg 1, ba_script_value = arg 2, ba_challenge = arg 3\<rparr>)))"

definition bad_challenge :: "string \<Rightarrow> string \<Rightarrow> string" where
  "bad_challenge given challenge =
     ''Bad challenge from oarexec, perhaps a pirate attack??? ('' @ given @ ''/'' @ challenge @ '').''"

text \<open>Whether the run goes on; a missing value makes the construction of a message raise.\<close>

definition treat_end :: "bip_env \<Rightarrow> bip_args \<Rightarrow> job_row \<Rightarrow> string list \<Rightarrow> string \<Rightarrow> bool action" where
  "treat_end X a job hosts challenge =
     (case ba_exit_value a of None \<Rightarrow> return True
      | Some exit_value \<Rightarrow>
        if exit_value = '''' \<or> j_state job \<notin> set [''Launching'', ''Running'', ''Suspended'', ''Resuming''] then return True
        else
          (case ba_script_value a of None \<Rightarrow> raise_error TypeError
           | Some script_value \<Rightarrow>
             (case py_int exit_value of
                Inl e \<Rightarrow> next_action (set_exit_code 2) (\<lambda>_. return False)
              | Inr v \<Rightarrow>
                  if ba_challenge a = Some challenge then
                    next_action (query (\<lambda>w. db_config w ''SERVER_EPILOGUE_EXEC_FILE'')) (\<lambda>epilogue.
                    next_action (change_res (check_end_of_job (remote_of X) (random_of X) (j_id job) script_value v hosts
                      (j_user job) (j_launching_directory job) epilogue)) (\<lambda>_. return False))
                  else (case ba_challenge a of None \<Rightarrow> raise_error TypeError
                    | Some given \<Rightarrow>
                        next_action (change (add_new_event ''BIPBIP_CHALLENGE'' (j_id job) (bad_challenge given challenge) ''YES'')) (\<lambda>_.
                        next_action (set_exit_code 2) (\<lambda>_. return False))))))"

section \<open>The nodes\<close>

text \<open>The checks of \<open>cpuset_data_hash\<close>: the names of the output files are needed.\<close>

definition output_files :: "job_row \<Rightarrow> unit res" where
  "output_files job = (if j_stdout_file job = None \<or> j_stderr_file job = None then Inl AttributeError else Inr ())"

fun pop_nodes :: "string list \<Rightarrow> (string \<times> 'a) list \<Rightarrow> (string \<times> 'a) list res" where
  "pop_nodes [] nodes = Inr nodes"
| "pop_nodes (h # hs) nodes =
     (if h \<in> fst ` set nodes then pop_nodes hs (AList.delete h nodes) else Inl KeyError)"

text \<open>
  The cpusets: the bad nodes, the type of the event and the hosts. The branch of a bad script appends to a
  variable that does not exist.
\<close>

definition init_cpusets :: "bip_env \<Rightarrow> job_row \<Rightarrow> string \<Rightarrow> string list \<Rightarrow> (string list \<times> string \<times> string list) action" where
  "init_cpusets X job field hosts =
     next_action (query (\<lambda>w. if field = '''' then [] else get_cpuset_values field (j_assigned_moldable_job job) w)) (\<lambda>nodes.
     if nodes = [] then return ([], '''', hosts)
     else
       next_action (query_res (\<lambda>w. output_files job)) (\<lambda>_.
       next_action (query_res (config_value ''TAKTUK_CMD'')) (\<lambda>taktuk.
       let (tag, bad) = init_nodes X (map fst nodes); jid = j_id job in
       if tag = 0 then raise_error NameError
       else if bad = [] \<or> length nodes \<le> length bad then return (bad, ''CPUSET_ERROR'', hosts)
       else if j_reservation job \<noteq> ''None'' then
         next_action (change (\<lambda>w. add_new_event_with_host ''CPUSET_ERROR'' jid
           (''[bipbip] OAR cpuset suspects nodes for the job '' @ int_str jid @ '': '' @ str_list bad) bad
           (set_job_message jid ''One or several nodes are not responding correctly(CPUSET_ERROR)'' w))) (\<lambda>_.
         next_action (change_res (archive_some_moldable_job_nodes (j_assigned_moldable_job job) bad)) (\<lambda>_.
         next_action (change (notify_almighty ''ChState'')) (\<lambda>_.
         return ([], ''CPUSET_ERROR'', filter (\<lambda>h. h \<notin> set bad) hosts))))
       else
         next_action (query_res (\<lambda>w. pop_nodes bad nodes)) (\<lambda>rest.
         return (bad @ snd (clean_nodes X (map fst rest)), ''CPUSET_ERROR'', hosts)))))"

text \<open>The pings, when no node is bad yet: the bad nodes, the type of the event and the reason.\<close>

definition ping_hosts :: "bip_env \<Rightarrow> string list \<Rightarrow> string list \<Rightarrow> string \<Rightarrow> string list \<times> string \<times> string" where
  "ping_hosts X hosts bad event_type =
     (if bad \<noteq> [] then (bad, event_type, ''OAR suspects nodes'')
      else let (ok, bad) = ping_nodes X hosts in
        if ok then (bad, ''PING_CHECKER_NODE_SUSPECTED'', ''OAR suspects nodes'')
        else (hosts, ''PING_CHECKER_NODE_SUSPECTED'', ''timeout triggered''))"

text \<open>Bad nodes: a job that is no reservation, or a reservation without a node left, ends here.\<close>

definition report_bad_nodes :: "bip_env \<Rightarrow> job_row \<Rightarrow> string list \<Rightarrow> string list \<Rightarrow> string \<Rightarrow> string \<Rightarrow> bool action" where
  "report_bad_nodes X job hosts bad event_type reason =
     (let jid = j_id job;
          survives = (j_reservation job \<noteq> ''None'' \<and> filter (\<lambda>h. h \<notin> set bad) hosts \<noteq> []) in
      next_action (change (set_job_message jid ''One or several nodes are not responding correctly'')) (\<lambda>_.
      next_action (tell_interactive X job ''ERROR: some resources did not respond'') (\<lambda>_.
      next_action (change (\<lambda>w.
          let w1 = (if j_reservation job \<noteq> ''None'' \<and> \<not> survives then add_new_event ''RESERVATION_NO_NODE'' jid
            (''There is no alive node for the reservation '' @ int_str jid @ ''.'') ''YES'' w else w) in
          notify_almighty ''ChState'' (add_new_event_with_host event_type jid
            (''[bipbip] '' @ reason @ '', job: '' @ int_str jid @ '', nodes:'' @ str_list bad) bad w1))) (\<lambda>_.
      if survives then return True else next_action (set_exit_code 2) (\<lambda>_. return False)))))"

text \<open>The nodes of a job: the hosts on which it goes on, if it does. A bad host that pings is not taken off.\<close>

definition check_nodes :: "bip_env \<Rightarrow> job_row \<Rightarrow> string \<Rightarrow> string list \<Rightarrow> string list option action" where
  "check_nodes X job field hosts =
     next_action (init_cpusets X job field hosts) (\<lambda>(bad0, event0, hosts).
     let (bad, event_type, reason) = ping_hosts X hosts bad0 event0 in
     if bad = [] then return (Some hosts)
     else next_action (report_bad_nodes X job hosts bad event_type reason) (\<lambda>ok.
       return (if ok then Some hosts else None)))"

section \<open>The launch\<close>

definition launching_node :: "(string \<times> type_value) list \<Rightarrow> string list \<Rightarrow> db \<Rightarrow> string res" where
  "launching_node jt hosts w =
     (if has_job_type ''cosystem'' jt \<or> hosts = [] then config_value ''COSYSTEM_HOSTNAME'' w
      else if has_job_type ''deploy'' jt then config_value ''DEPLOY_HOSTNAME'' w
      else Inr (hd hosts))"

text \<open>
  A client that cannot be told that its job runs makes the module ask for \<open>Qdel\<close>, without the request of
  deletion that \<open>Qdel\<close> would handle.
\<close>

definition launch_job :: "bip_env \<Rightarrow> bip_args \<Rightarrow> job_row \<Rightarrow> (string \<times> type_value) list \<Rightarrow> string list \<Rightarrow> unit action" where
  "launch_job X a job jt hosts =
     next_action (query_res (launching_node jt hosts)) (\<lambda>head_node.
     next_action (query_res (get_job_challenge (j_id job))) (\<lambda>challenge.
     next_action (query_res (\<lambda>w. output_files job)) (\<lambda>_.
     next_action (query_res (config_value ''DETACH_JOB_FROM_SERVER'')) (\<lambda>detach.
     if oarexec_starts X head_node (j_id job) then
       next_action (change (set_job_state (j_id job) ''Running'')) (\<lambda>_.
       if interactive job then
         next_action (notify_interactif_user X job ''GOOD JOB'') (\<lambda>told.
         if told then return () else change (notify_almighty ''Qdel''))
       else return ())
     else
       next_action (tell_interactive X job ''ERROR: an error occured on the first job node'') (\<lambda>_.
       next_action (query (\<lambda>w. db_config w ''SERVER_EPILOGUE_EXEC_FILE'')) (\<lambda>epilogue.
       change_res (check_end_of_job (remote_of X) (random_of X) (j_id job)
         (case ba_script_value a of None \<Rightarrow> '''' | Some v \<Rightarrow> v) 50 hosts (j_user job) (j_launching_directory job)
         epilogue)))))))"

definition start_job :: "bip_env \<Rightarrow> bip_args \<Rightarrow> job_row \<Rightarrow> string \<Rightarrow> string list \<Rightarrow> unit action" where
  "start_job X a job field hosts =
     next_action (query_res (get_current_moldable_job (j_assigned_moldable_job job))) (\<lambda>mold.
     next_action (query (get_job_types (j_id job))) (\<lambda>jt.
     if has_job_type ''noop'' jt then
       next_action (change (set_job_state (j_id job) ''Running'')) (\<lambda>_. call_server_prologue X job)
     else if j_command job = None then raise_error TypeError
     else
       next_action (tell_interactive X job ''Starting...'') (\<lambda>_.
       next_action (if \<not> has_job_type ''deploy'' jt \<and> \<not> has_job_type ''cosystem'' jt \<and> hosts \<noteq> []
         then check_nodes X job field hosts else return (Some hosts)) (\<lambda>r. case r of
         None \<Rightarrow> return ()
       | Some hosts \<Rightarrow> next_action (call_server_prologue X job) (\<lambda>_. launch_job X a job jt hosts)))))"

section \<open>The run\<close>

definition cpuset_file :: "db \<Rightarrow> string res" where
  "cpuset_file w = res_bind (config_value ''JOB_RESOURCE_MANAGER_FILE'' w) (\<lambda>f.
     if take 1 f = ''/'' then Inr f
     else (case db_environ w ''OARDIR'' of None \<Rightarrow> Inl Raised_exception | Some d \<Rightarrow> Inr (d @ ''/'' @ f)))"

definition bipbip_run :: "bip_env \<Rightarrow> int \<Rightarrow> bip_args \<Rightarrow> unit action" where
  "bipbip_run X jid a =
     (if jid = 0 then set_exit_code 1
      else
        next_action (query_res (config_value ''OPENSSH_CMD'')) (\<lambda>ssh.
        next_action (query (\<lambda>w. case db_config w ''JOB_RESOURCE_MANAGER_PROPERTY_DB_FIELD'' of None \<Rightarrow> '''' | Some f \<Rightarrow> f)) (\<lambda>field.
        next_action (query_res (\<lambda>w. if db_config w ''JOB_RESOURCE_MANAGER_PROPERTY_DB_FIELD'' = None then Inr ''''
          else get_job_cpuset_name jid w)) (\<lambda>cpuset_name.
        next_action (query_res cpuset_file) (\<lambda>file.
        next_action (query_res (config_value ''CPUSET_PATH'')) (\<lambda>path.
        next_action (query_res (get_job_challenge jid)) (\<lambda>challenge.
        next_action (query (get_job_current_hostnames jid)) (\<lambda>hosts.
        next_action (query_res (\<lambda>w. case get_job w jid of None \<Rightarrow> Inl AttributeError | Some j \<Rightarrow> Inr j)) (\<lambda>job.
        next_action (treat_end X a job hosts (fst challenge)) (\<lambda>go_on.
        if \<not> go_on then return ()
        else if j_state job = ''toLaunch'' then
          next_action (change (set_job_state jid ''Launching'')) (\<lambda>_. start_job X a job field hosts)
        else set_exit_code 1))))))))))"

text \<open>\<open>main\<close>: the exit code, also after an exception.\<close>

definition bipbip_main :: "bip_env \<Rightarrow> string list \<Rightarrow> db \<Rightarrow> (int \<times> db) res" where
  "bipbip_main X args w =
     (if args = [] then Inr (1, w)
      else res_bind (new_bipbip args) (\<lambda>(jid, a).
        let s = snd (bipbip_run X jid a \<lparr>bip_exit = 0, bip_db = w\<rparr>) in Inr (bip_exit s, bip_db s)))"

end
