(* ===== verification/Bipbip_Props.thy ===== *)
theory Bipbip_Props
  imports Bipbip
begin

text \<open>
  What a run of Bipbip does to the state of its job. \<open>keeps_history m\<close> says that an action refines the life of the
  jobs, \<open>still m\<close> that it leaves the states of the jobs alone and at most sets the exit code 2, \<open>ensures P m R\<close> what
  holds after it returned.
\<close>

definition keeps_history :: "'a action \<Rightarrow> bool" where
  "keeps_history m \<longleftrightarrow> (\<forall>s. refines (bip_db s) (bip_db (snd (m s))))"

definition still :: "'a action \<Rightarrow> bool" where
  "still m \<longleftrightarrow> (\<forall>s. life_of (bip_db (snd (m s))) = life_of (bip_db s) \<and>
     (bip_exit (snd (m s)) = bip_exit s \<or> bip_exit (snd (m s)) = 2))"

definition ensures :: "(bip \<Rightarrow> bool) \<Rightarrow> 'a action \<Rightarrow> ('a \<Rightarrow> bip \<Rightarrow> bool) \<Rightarrow> bool" where
  "ensures P m R \<longleftrightarrow> (\<forall>s r s'. P s \<longrightarrow> m s = (Inr r, s') \<longrightarrow> R r s')"

section \<open>Still actions\<close>

named_theorems still_intros \<open>actions that leave the states alone\<close>

lemma still_basic [still_intros]:
  "still (return a)" "still (raise_error e)" "still (query f)" "still (query_res g)" "still (set_exit_code 2)"
  by (simp_all add: still_def return_def raise_error_def query_def query_res_def set_exit_code_def)

lemma still_next [still_intros]:
  assumes "still m" "\<And>a. still (f a)"
  shows "still (next_action m f)"
  unfolding still_def
proof
  fix s
  obtain r s1 where 1: "m s = (r, s1)" by fastforce
  have m: "life_of (bip_db s1) = life_of (bip_db s)" "bip_exit s1 = bip_exit s \<or> bip_exit s1 = 2"
    using assms(1) 1 unfolding still_def by (metis snd_conv)+
  show "life_of (bip_db (snd (next_action m f s))) = life_of (bip_db s) \<and>
      (bip_exit (snd (next_action m f s)) = bip_exit s \<or> bip_exit (snd (next_action m f s)) = 2)"
  proof (cases r)
    case (Inl e)
    thus ?thesis using m 1 by (simp add: next_action_def)
  next
    case (Inr a)
    have "life_of (bip_db (snd (f a s1))) = life_of (bip_db s1) \<and>
      (bip_exit (snd (f a s1)) = bip_exit s1 \<or> bip_exit (snd (f a s1)) = 2)"
      using assms(2) [of a] unfolding still_def by blast
    thus ?thesis using m 1 Inr by (auto simp: next_action_def)
  qed
qed

lemma still_change: "(\<And>w. life_of (f w) = life_of w) \<Longrightarrow> still (change f)"
  by (simp add: still_def change_def)

lemma still_change_res: "(\<And>w w'. f w = Inr w' \<Longrightarrow> life_of w' = life_of w) \<Longrightarrow> still (change_res f)"
  by (simp add: still_def change_res_def split: sum.split)

lemma archive_life: "archive_some_moldable_job_nodes mid hosts w = Inr w' \<Longrightarrow> life_of w' = life_of w"
  by (auto simp: archive_some_moldable_job_nodes_def life_of_def states_def split: option.splits if_splits)

lemma still_archive [still_intros]: "still (change_res (archive_some_moldable_job_nodes mid hosts))"
  by (rule still_change_res) (rule archive_life)

lemma still_notify [still_intros]: "still (notify_interactif_user X job m)"
  unfolding notify_interactif_user_def
  by (auto intro!: still_intros still_change simp: life_simps split: prod.split)

lemma still_tell [still_intros]: "still (tell_interactive X job m)"
  by (simp add: tell_interactive_def still_intros)

lemma still_prologue [still_intros]: "still (call_server_prologue X job)"
  unfolding call_server_prologue_def prologue_failed_def Let_def
  by (auto intro!: still_intros still_change simp: life_simps split: option.split epilogue_result.split)

lemma still_init_cpusets [still_intros]: "still (init_cpusets X job field hosts)"
  unfolding init_cpusets_def Let_def
  by (auto intro!: still_intros still_change simp: life_simps split: prod.split)

lemma still_report [still_intros]: "still (report_bad_nodes X job hosts bad ev reason)"
  unfolding report_bad_nodes_def Let_def
  by (auto intro!: still_intros still_change simp: life_simps)

lemma still_check_nodes [still_intros]: "still (check_nodes X job field hosts)"
  unfolding check_nodes_def Let_def
  by (auto intro!: still_intros split: prod.split)

section \<open>The history of the jobs\<close>

lemma keeps_still: "still m \<Longrightarrow> keeps_history m"
  by (simp add: still_def keeps_history_def refines_same)

lemma keeps_next:
  assumes "keeps_history m" "\<And>a. keeps_history (f a)"
  shows "keeps_history (next_action m f)"
  unfolding keeps_history_def
proof
  fix s
  obtain r s1 where 1: "m s = (r, s1)" by fastforce
  have m: "refines (bip_db s) (bip_db s1)" using assms(1) 1 unfolding keeps_history_def by (metis snd_conv)
  show "refines (bip_db s) (bip_db (snd (next_action m f s)))"
  proof (cases r)
    case (Inl e)
    thus ?thesis using m 1 by (simp add: next_action_def)
  next
    case (Inr a)
    have "refines (bip_db s1) (bip_db (snd (f a s1)))" using assms(2) [of a] unfolding keeps_history_def by blast
    thus ?thesis using refines_trans [OF m] 1 Inr by (simp add: next_action_def)
  qed
qed

lemma keeps_set_state: "keeps_history (change (set_job_state i t))"
  by (simp add: keeps_history_def change_def refines_set_job_state)

lemma keeps_check_end: "keeps_history (change_res (check_end_of_job rm rnd jid v err hosts user dir epi))"
  by (simp add: keeps_history_def change_res_def check_end_refines split: sum.split)

lemma keeps_exit: "keeps_history (set_exit_code c)"
  by (simp add: keeps_history_def set_exit_code_def)

lemmas keeps_intros = keeps_next keeps_set_state keeps_check_end keeps_exit keeps_still [OF still_basic(1)]
  keeps_still [OF still_basic(2)] keeps_still [OF still_basic(3)] keeps_still [OF still_basic(4)]
  keeps_still [OF still_notify] keeps_still [OF still_tell] keeps_still [OF still_prologue]
  keeps_still [OF still_check_nodes] keeps_still [OF still_change]

lemma keeps_treat_end: "keeps_history (treat_end X a job hosts challenge)"
  unfolding treat_end_def
  by (auto intro!: keeps_intros simp: life_simps split: option.split sum.split)

lemma keeps_launch: "keeps_history (launch_job X a job jt hosts)"
  unfolding launch_job_def
  by (auto intro!: keeps_intros simp: life_simps)

lemma keeps_start: "keeps_history (start_job X a job field hosts)"
  unfolding start_job_def
  by (auto intro!: keeps_intros keeps_launch split: option.split)

theorem bipbip_refines: "refines (bip_db s) (bip_db (snd (bipbip_run X jid a s)))"
proof -
  have "keeps_history (bipbip_run X jid a)"
    unfolding bipbip_run_def
    by (auto intro!: keeps_intros keeps_treat_end keeps_start)
  thus ?thesis by (simp add: keeps_history_def)
qed

lemma bipbip_main_refines: "bipbip_main X args w = Inr (c, w') \<Longrightarrow> refines w w'"
  using bipbip_refines [of "\<lparr>bip_exit = 0, bip_db = w\<rparr>"]
  by (auto simp: bipbip_main_def res_simps Let_def split: if_splits)

section \<open>The state of the job\<close>

definition state_of :: "int \<Rightarrow> db \<Rightarrow> string option" where
  "state_of i w = map_of (states w) i"

lemma state_of_life: "life_of w' = life_of w \<Longrightarrow> state_of i w' = state_of i w"
  by (simp add: state_of_def life_of_def)

lemma ids_of_life: "life_of w' = life_of w \<Longrightarrow> map j_id (t_jobs w') = map j_id (t_jobs w)"
  by (simp add: life_of_def flip: fst_states)

lemma map_of_set_state: "map_of (set_state i t ss) k = (if k = i then map_option (\<lambda>s. t) (map_of ss k) else map_of ss k)"
  by (induction ss) (auto simp: set_state_def)

lemma state_of_get_job: "get_job w i = Some job \<Longrightarrow> distinct (map j_id (t_jobs w)) \<Longrightarrow> state_of i w = Some (j_state job)"
  using get_job_in [of w i job] unfolding state_of_def
  by (intro map_of_is_SomeI) (simp only: fst_states, force simp: states_def)

lemma state_of_set_job_state:
  assumes "distinct (map j_id (t_jobs w))" "state_of i w = Some s" "\<not> final_state s"
  shows "state_of i (set_job_state i t w) = Some t"
proof (cases "sql_count (settable i t) (t_jobs w) = 1")
  case True
  have "states (set_job_state i t w) = lf_states (life_of (set_job_state i t w))" by (simp add: life_of_def)
  thus ?thesis using assms(2) by (simp add: life_set_job_state [OF assms(1)] True state_of_def map_of_set_state)
next
  case False
  have "(i, s) \<in> set (states w)" using assms(2) by (simp add: state_of_def map_of_SomeD)
  then obtain j where j: "j \<in> set (t_jobs w)" "j_id j = i" "j_state j = s" by (auto simp: states_def)
  have "s = t"
  proof (rule ccontr)
    assume "s \<noteq> t"
    hence "settable i t j" using j assms(3) by (simp add: settable_def final_state_def)
    moreover have "filter (settable i t) (t_jobs w) = filter (settable i t) (filter (\<lambda>x. j_id x = j_id j) (t_jobs w))"
      unfolding filter_filter using j(2) by (intro filter_cong) (auto simp: settable_def)
    ultimately have "filter (settable i t) (t_jobs w) = [j]"
      unfolding distinct_filter_key [OF assms(1) j(1)] by simp
    thus False using False by (simp add: sql_count_def)
  qed
  have "states (set_job_state i t w) = lf_states (life_of (set_job_state i t w))" by (simp add: life_of_def)
  thus ?thesis using assms(2) \<open>s = t\<close>
    by (simp add: life_set_job_state [OF assms(1)] False state_of_def) (simp add: life_of_def)
qed

text \<open>The job is in state \<open>t\<close>, in a database with distinct numbers.\<close>

definition in_state :: "int \<Rightarrow> string \<Rightarrow> bip \<Rightarrow> bool" where
  "in_state i t s \<longleftrightarrow> distinct (map j_id (t_jobs (bip_db s))) \<and> state_of i (bip_db s) = Some t"

lemma in_state_cong: "life_of (bip_db s') = life_of (bip_db s) \<Longrightarrow> in_state i t s' = in_state i t s"
  unfolding in_state_def using state_of_life [of "bip_db s'" "bip_db s"] ids_of_life [of "bip_db s'" "bip_db s"] by simp

lemma ensures_next:
  "ensures P m R \<Longrightarrow> (\<And>a. ensures (R a) (f a) S) \<Longrightarrow> ensures P (next_action m f) S"
  by (auto simp: ensures_def next_action_def split: prod.splits sum.splits)

lemma ensures_still:
  assumes "still m" "\<And>s s' r. P s \<Longrightarrow> m s = (Inr r, s') \<Longrightarrow> life_of (bip_db s') = life_of (bip_db s) \<Longrightarrow>
    bip_exit s' = bip_exit s \<or> bip_exit s' = 2 \<Longrightarrow> R r s'"
  shows "ensures P m R"
  unfolding ensures_def
proof (intro allI impI)
  fix s r s'
  assume s: "P s" "m s = (Inr r, s')"
  hence "life_of (bip_db s') = life_of (bip_db s)" "bip_exit s' = bip_exit s \<or> bip_exit s' = 2"
    using assms(1) [unfolded still_def, rule_format, of s] by simp_all
  thus "R r s'" by (rule assms(2) [OF s])
qed

lemma ensures_state:
  assumes "still m"
  shows "ensures (in_state i t) m (\<lambda>r. in_state i t)"
  by (rule ensures_still [where P = "in_state i t", OF assms]) (use in_state_cong in blast)

lemma ensures_set_state:
  assumes "\<not> final_state t"
  shows "ensures (in_state i t) (change (set_job_state i u)) (\<lambda>r. in_state i u)"
  using assms refines_distinct [OF refines_set_job_state]
  by (auto simp: ensures_def change_def in_state_def state_of_set_job_state)

lemma ensures_return: "(\<And>s. P s \<Longrightarrow> R a s) \<Longrightarrow> ensures P (return a) R"
  by (simp add: ensures_def return_def)

lemma ensures_raise: "ensures P (raise_error e) R"
  by (simp add: ensures_def raise_error_def)

lemma ensures_weaken: "ensures P m R \<Longrightarrow> (\<And>r s. R r s \<Longrightarrow> R' r s) \<Longrightarrow> ensures P m R'"
  by (simp add: ensures_def)

lemma still_query_any: "still (query f)" "still (query_res g)"
  by (rule still_intros)+

text \<open>A job that is launching is \<open>Finishing\<close> after the end of a failed \<open>oarexec\<close>.\<close>

lemma check_end_state:
  assumes "check_end_of_job rm rnd i v err hosts user dir epi w = Inr w'" "err \<noteq> 3"
    and "distinct (map j_id (t_jobs w))" "state_of i w = Some ''Launching''"
  shows "distinct (map j_id (t_jobs w')) \<and> state_of i w' = Some ''Finishing''"
proof -
  obtain job where job: "get_job w i = Some job"
    using assms(1) by (cases "get_job w i") (simp_all add: check_end_of_job_def Let_def)
  hence running: "j_state job \<in> set [''Running'', ''Launching'', ''Suspended'', ''Resuming'']"
    using state_of_get_job [OF job assms(3)] assms(4) by simp
  define w1 where "w1 = record_exit_value i v (set_job_state i ''Finishing'' (set_finish_date job w))"
  obtain evs trm w3 where 3: "job_finishing_sequence rm epi i evs w1 = Inr w3"
    and w': "w' = notify_almighty ''BipBip'' (if trm then notify_almighty ''Term'' w3 else w3)"
    using assms(1)
    unfolding check_end_of_job_def job Let_def option.case if_P [OF running] w1_def [symmetric] if_not_P [OF assms(2)]
      res_bind_eq_Inr
    by (auto simp: res_bind_eq_Inr)
  have fin: "life_of (set_finish_date job w) = life_of w" by (rule life_fields(5))
  have d: "distinct (map j_id (t_jobs (set_finish_date job w)))" "state_of i (set_finish_date job w) = Some ''Launching''"
    using assms(3,4) ids_of_life [OF fin] state_of_life [OF fin] by simp_all
  have "state_of i (set_job_state i ''Finishing'' (set_finish_date job w)) = Some ''Finishing''"
    by (rule state_of_set_job_state [OF d]) (simp add: final_state_def)
  moreover have "state_of i w' = state_of i (set_job_state i ''Finishing'' (set_finish_date job w))"
    by (rule state_of_life) (simp add: w' w1_def life_simps finishing_life [OF 3])
  ultimately have "state_of i w' = Some ''Finishing''" by (simp only:)
  thus ?thesis using refines_distinct [OF check_end_refines [OF assms(1)] assms(3)] by simp
qed

section \<open>Properties of a run\<close>

text \<open>The job runs or ends, or the exit code is 2.\<close>

definition started :: "int \<Rightarrow> bip \<Rightarrow> bool" where
  "started i s \<longleftrightarrow> in_state i ''Running'' s \<or> in_state i ''Finishing'' s"

lemma ensures_if: "ensures P m R \<Longrightarrow> ensures P n R \<Longrightarrow> ensures P (if b then m else n) R"
  by simp

lemma ensures_running:
  assumes "still m"
  shows "ensures (in_state i ''Running'') m (\<lambda>r. started i)"
  by (rule ensures_weaken [OF ensures_state [OF assms]]) (simp add: started_def)

lemma still_qdel: "still (change (notify_almighty c))"
  by (rule still_change) (simp add: life_simps)

lemma ensures_launch: "ensures (in_state (j_id job) ''Launching'') (launch_job X a job jt hosts) (\<lambda>r. started (j_id job))"
proof -
  let ?i = "j_id job"
  have ended: "ensures (in_state ?i ''Launching'')
     (change_res (check_end_of_job rm rnd ?i v 50 hosts user dir epi)) (\<lambda>r. started ?i)" for rm rnd v user dir epi
    using check_end_state [of rm rnd ?i v 50 hosts user dir epi]
    by (auto simp: ensures_def change_res_def in_state_def started_def split: sum.splits)
  have told: "still (if interactive job then next_action (notify_interactif_user X job ''GOOD JOB'') (\<lambda>told.
      if told then return () else change (notify_almighty ''Qdel'')) else return ())"
    by (simp add: still_intros still_qdel)
  have running: "ensures (in_state ?i ''Launching'') (change (set_job_state ?i ''Running'')) (\<lambda>r. in_state ?i ''Running'')"
    by (rule ensures_set_state) (simp add: final_state_def)
  show ?thesis
    unfolding launch_job_def
  proof (intro ensures_next [OF ensures_state [OF still_query_any(2)]], goal_cases)
    case (1 head_node challenge u detach)
    show ?case
    proof (cases "oarexec_starts X head_node ?i")
      case True
      thus ?thesis using ensures_next [OF running ensures_running [OF told]] by simp
    next
      case False
      have "ensures (in_state ?i ''Launching'') (next_action
          (tell_interactive X job ''ERROR: an error occured on the first job node'') (\<lambda>_.
          next_action (query (\<lambda>w. db_config w ''SERVER_EPILOGUE_EXEC_FILE'')) (\<lambda>epilogue.
          change_res (check_end_of_job (remote_of X) (random_of X) ?i
            (case ba_script_value a of None \<Rightarrow> '''' | Some v \<Rightarrow> v) 50 hosts (j_user job) (j_launching_directory job)
            epilogue)))) (\<lambda>r. started ?i)"
        by (rule ensures_next [OF ensures_state [OF still_tell] ensures_next [OF ensures_state [OF still_query_any(1)] ended]])
      thus ?thesis using False by simp
    qed
  qed
qed

lemma check_nodes_stops:
  "ensures (in_state i t) (check_nodes X job field hosts)
     (\<lambda>r s. in_state i t s \<and> (r = None \<longrightarrow> bip_exit s = 2))"
proof -
  have report: "ensures (in_state i t) (report_bad_nodes X job hosts bad ev reason)
      (\<lambda>r s. in_state i t s \<and> (\<not> r \<longrightarrow> bip_exit s = 2))" for hosts bad ev reason
  proof -
    have "r \<or> bip_exit s' = 2" if "report_bad_nodes X job hosts bad ev reason s = (Inr r, s')" for s r s'
      using that
      by (auto simp: report_bad_nodes_def Let_def next_action_def return_def set_exit_code_def split: prod.splits sum.splits if_splits)
    thus ?thesis using ensures_state [OF still_report, of i t X job hosts bad ev reason] unfolding ensures_def by blast
  qed
  show ?thesis
    unfolding check_nodes_def
  proof (rule ensures_next [OF ensures_state [OF still_init_cpusets]], goal_cases)
    case (1 r)
    obtain bad0 event0 hs where r: "r = (bad0, event0, hs)" by (cases r)
    obtain bad ev reason where p: "ping_hosts X hs bad0 event0 = (bad, ev, reason)" by (metis prod_cases3)
    show ?case
    proof (cases "bad = []")
      case True
      thus ?thesis by (simp add: r p) (rule ensures_return, simp)
    next
      case False
      have "ensures (in_state i t) (next_action (report_bad_nodes X job hs bad ev reason) (\<lambda>ok.
          return (if ok then Some hs else None))) (\<lambda>r s. in_state i t s \<and> (r = None \<longrightarrow> bip_exit s = 2))"
        by (rule ensures_next [OF report]) (rule ensures_return, simp)
      thus ?thesis using False by (simp add: r p)
    qed
  qed
qed

lemma ensures_start:
  "ensures (in_state (j_id job) ''Launching'') (start_job X a job field hosts)
     (\<lambda>r s. started (j_id job) s \<or> in_state (j_id job) ''Launching'' s \<and> bip_exit s = 2)"
proof -
  let ?i = "j_id job"
  let ?R = "\<lambda>r s. started ?i s \<or> in_state ?i ''Launching'' s \<and> bip_exit s = 2"
  have running: "ensures (in_state ?i ''Launching'') (change (set_job_state ?i ''Running'')) (\<lambda>r. in_state ?i ''Running'')"
    by (rule ensures_set_state) (simp add: final_state_def)
  have noop: "ensures (in_state ?i ''Launching'')
      (next_action (change (set_job_state ?i ''Running'')) (\<lambda>_. call_server_prologue X job)) ?R"
    by (rule ensures_weaken [OF ensures_next [OF running ensures_running [OF still_prologue]]]) simp
  have rest: "ensures (\<lambda>s. in_state ?i ''Launching'' s \<and> (r = None \<longrightarrow> bip_exit s = 2)) (case r of
       None \<Rightarrow> return ()
     | Some hosts \<Rightarrow> next_action (call_server_prologue X job) (\<lambda>_. launch_job X a job jt hosts)) ?R" for r jt
  proof (cases r)
    case None
    thus ?thesis by (simp add: ensures_def return_def)
  next
    case (Some hs)
    have "ensures (in_state ?i ''Launching'') (next_action (call_server_prologue X job)
        (\<lambda>_. launch_job X a job jt hs)) ?R"
      by (rule ensures_weaken [OF ensures_next [OF ensures_state [OF still_prologue] ensures_launch]]) simp
    thus ?thesis using Some by (simp add: ensures_def)
  qed
  have nodes: "ensures (in_state ?i ''Launching'')
      (if b then check_nodes X job field hosts else return (Some hosts))
      (\<lambda>r s. in_state ?i ''Launching'' s \<and> (r = None \<longrightarrow> bip_exit s = 2))" for b
    using check_nodes_stops by (simp add: ensures_return)
  show ?thesis
    unfolding start_job_def
  proof (rule ensures_next [OF ensures_state [OF still_query_any(2)]],
      rule ensures_next [OF ensures_state [OF still_query_any(1)]], goal_cases)
    case (1 mold jt)
    show ?case
      by (rule ensures_if [OF noop ensures_if [OF ensures_raise
          ensures_next [OF ensures_state [OF still_tell] ensures_next [OF nodes rest]]]])
  qed
qed

text \<open>
  C11. A run of Bipbip that returns never leaves a job to launch behind without a trace: the job runs, or its end is
  handled, or it is still \<open>Launching\<close> and the exit code is 2. Nothing is said of a run that raises.
\<close>

theorem bipbip_starts_job:
  assumes "get_job w jid = Some job" "j_state job = ''toLaunch''" "distinct (map j_id (t_jobs w))" "jid \<noteq> 0"
    and "bipbip_run X jid a \<lparr>bip_exit = 0, bip_db = w\<rparr> = (Inr (), s)"
  shows "state_of jid (bip_db s) = Some ''Running'' \<or> state_of jid (bip_db s) = Some ''Finishing'' \<or>
    state_of jid (bip_db s) = Some ''Launching'' \<and> bip_exit s = 2"
proof -
  let ?s = "\<lparr>bip_exit = 0, bip_db = w\<rparr>"
  have id: "j_id job = jid" using get_job_in [OF assms(1)] by simp
  obtain field hosts challenge where run: "next_action (treat_end X a job hosts challenge) (\<lambda>go_on.
        if \<not> go_on then return ()
        else if j_state job = ''toLaunch'' then
          next_action (change (set_job_state jid ''Launching'')) (\<lambda>_. start_job X a job field hosts)
        else set_exit_code 1) ?s = (Inr (), s)"
    using assms(1,4,5)
    by (auto simp: bipbip_run_def next_action_def query_def query_res_def split: sum.splits option.splits)
  have on: "treat_end X a job hosts challenge = return True"
    using assms(2) by (simp add: treat_end_def split: option.split)
  have "next_action (change (set_job_state jid ''Launching'')) (\<lambda>_. start_job X a job field hosts) ?s = (Inr (), s)"
    using run by (simp add: on assms(2) next_action_def return_def)
  moreover have "in_state jid ''toLaunch'' ?s"
    using state_of_get_job [OF assms(1,3)] assms(2,3) by (simp add: in_state_def)
  moreover have "ensures (in_state jid ''toLaunch'')
      (next_action (change (set_job_state jid ''Launching'')) (\<lambda>_. start_job X a job field hosts))
      (\<lambda>r s. started jid s \<or> in_state jid ''Launching'' s \<and> bip_exit s = 2)"
    by (rule ensures_next [OF ensures_set_state ensures_start [of job, unfolded id]]) (simp add: final_state_def)
  ultimately have "started jid s \<or> in_state jid ''Launching'' s \<and> bip_exit s = 2" unfolding ensures_def by blast
  thus ?thesis by (auto simp: started_def in_state_def)
qed

text \<open>
  C12. The end of a job that runs needs the secret of its \<open>oarexec\<close>: a message with another challenge changes nothing
  but the list of events, and the exit code is 2.
\<close>

theorem bipbip_needs_challenge:
  assumes "get_job w jid = Some job" "j_state job \<in> set [''Launching'', ''Running'', ''Suspended'', ''Resuming'']"
    and "jid \<noteq> 0" "get_job_challenge jid w = Inr (challenge, private_key, public_key)" "given \<noteq> challenge"
    and "exit_value \<noteq> ''''" "py_int exit_value = Inr v"
    and "bipbip_run X jid \<lparr>ba_exit_value = Some exit_value, ba_script_value = Some script_value,
      ba_challenge = Some given\<rparr> \<lparr>bip_exit = 0, bip_db = w\<rparr> = (Inr (), s)"
  shows "bip_exit s = 2 \<and>
    bip_db s = add_new_event ''BIPBIP_CHALLENGE'' jid (bad_challenge given challenge) ''YES'' w"
proof -
  have id: "j_id job = jid" using get_job_in [OF assms(1)] by simp
  have "treat_end X \<lparr>ba_exit_value = Some exit_value, ba_script_value = Some script_value,
      ba_challenge = Some given\<rparr> job hosts challenge \<lparr>bip_exit = 0, bip_db = w\<rparr> =
    (Inr False, \<lparr>bip_exit = 2, bip_db = add_new_event ''BIPBIP_CHALLENGE'' jid (bad_challenge given challenge) ''YES'' w\<rparr>)"
    for hosts
    using assms(2,5-7) id
    by (auto simp: treat_end_def next_action_def change_def set_exit_code_def return_def)
  thus ?thesis
    using assms(1,3,4,8)
    by (auto simp: bipbip_run_def next_action_def query_def query_res_def return_def split: sum.splits)
qed


section \<open>Examples\<close>

definition launch_config :: "(string \<times> string) list" where
  "launch_config = [(''OPENSSH_CMD'', ''ssh''), (''JOB_RESOURCE_MANAGER_FILE'', ''/f''), (''CPUSET_PATH'', ''/oar''),
     (''COSYSTEM_HOSTNAME'', ''front''), (''DETACH_JOB_FROM_SERVER'', ''1''), (''TAKTUK_CMD'', ''taktuk''),
     (''DB_TYPE'', ''sqlite'')]"

definition launch_row :: job_row where
  "launch_row = example_job_row\<lparr>j_state := ''toLaunch'', j_command := Some ''true'', j_stdout_file := Some ''o'',
     j_stderr_file := Some ''e''\<rparr>"

definition launch_db :: "(string \<times> string) list \<Rightarrow> job_row \<Rightarrow> db" where
  "launch_db conf job = empty_db\<lparr>db_now := 100, db_config := map_of (conf @ launch_config), t_jobs := [job],
     t_moldables := [\<lparr>m_id = 1, m_job = 1, m_walltime = 60, m_index = ''CURRENT''\<rparr>],
     t_challenges := [\<lparr>c_job = 1, c_challenge = ''secret'', c_private_key = '''', c_public_key = ''''\<rparr>]\<rparr>"

definition launch_env :: bip_env where
  "launch_env = \<lparr>remote_of = \<lparr>server_epilogue = \<lambda>f i. Epilogue_exit 0, clean_cpusets = \<lambda>h. (1, []),
       pingchecker = \<lambda>h. (True, [])\<rparr>,
     random_of = 7, init_nodes = \<lambda>h. (0, []), clean_nodes = \<lambda>h. (1, []), ping_nodes = \<lambda>h. (True, []),
     prologue_of = \<lambda>f i. Epilogue_exit 1, reaches_client = \<lambda>h p. True, oarexec_starts = \<lambda>n i. True\<rparr>"

definition no_args :: bip_args where
  "no_args = \<lparr>ba_exit_value = None, ba_script_value = None, ba_challenge = None\<rparr>"

definition launch_run :: "unit res \<times> bip" where
  "launch_run = bipbip_run launch_env 1 no_args \<lparr>bip_exit = 0, bip_db = launch_db [] launch_row\<rparr>"

lemma launch_run_returns: "fst launch_run = Inr ()" "bip_exit (snd launch_run) = 0"
  by code_simp+

theorem bipbip_starts_job_witness:
  "state_of 1 (bip_db (snd launch_run)) = Some ''Running'' \<or> state_of 1 (bip_db (snd launch_run)) = Some ''Finishing''"
proof -
  have row: "get_job (launch_db [] launch_row) 1 = Some launch_row" "j_state launch_row = ''toLaunch''"
    "distinct (map j_id (t_jobs (launch_db [] launch_row)))"
    by (simp_all add: get_job_def launch_db_def launch_row_def example_job_row_def)
  have "bipbip_run launch_env 1 no_args \<lparr>bip_exit = 0, bip_db = launch_db [] launch_row\<rparr> = (Inr (), snd launch_run)"
    using launch_run_returns(1) by (simp add: launch_run_def prod_eq_iff)
  from bipbip_starts_job [OF row _ this] launch_run_returns(2) show ?thesis by simp
qed

definition pirate_args :: bip_args where
  "pirate_args = \<lparr>ba_exit_value = Some ''0'', ba_script_value = Some ''0'', ba_challenge = Some ''guess''\<rparr>"

definition pirate_run :: "unit res \<times> bip" where
  "pirate_run = bipbip_run launch_env 1 pirate_args \<lparr>bip_exit = 0, bip_db = launch_db [] (launch_row\<lparr>j_state := ''Running''\<rparr>)\<rparr>"

lemma pirate_run_returns: "fst pirate_run = Inr ()"
  by code_simp

theorem bipbip_needs_challenge_witness:
  "bip_exit (snd pirate_run) = 2 \<and> map e_type (t_events (bip_db (snd pirate_run))) = [''BIPBIP_CHALLENGE''] \<and>
     map j_state (t_jobs (bip_db (snd pirate_run))) = [''Running'']"
proof -
  let ?w = "launch_db [] (launch_row\<lparr>j_state := ''Running''\<rparr>)"
  have job: "get_job ?w 1 = Some (launch_row\<lparr>j_state := ''Running''\<rparr>)"
    by (simp add: get_job_def launch_db_def launch_row_def example_job_row_def)
  have challenge: "get_job_challenge 1 ?w = Inr (''secret'', '''', '''')"
    by (simp add: get_job_challenge_def launch_db_def)
  have parsed: "py_int ''0'' = Inr 0" by code_simp
  have "bipbip_run launch_env 1 \<lparr>ba_exit_value = Some ''0'', ba_script_value = Some ''0'', ba_challenge = Some ''guess''\<rparr>
      \<lparr>bip_exit = 0, bip_db = ?w\<rparr> = (Inr (), snd pirate_run)"
    using pirate_run_returns by (simp add: pirate_run_def pirate_args_def prod_eq_iff)
  from bipbip_needs_challenge [OF job _ _ challenge _ _ parsed this]
  show ?thesis by (simp add: add_new_event_def launch_db_def launch_row_def example_job_row_def empty_db_def)
qed





text \<open>
  A bad script of the cpusets is to be recorded in a variable that does not exist: the job stays \<open>Launching\<close>, no event is
  recorded and the exit code is 0.
\<close>

lemma bad_cpuset_script_forgets_job:
  "(case bipbip_run launch_env 1 no_args \<lparr>bip_exit = 0, bip_db = (launch_db
        [(''JOB_RESOURCE_MANAGER_PROPERTY_DB_FIELD'', ''cpuset'')] launch_row)\<lparr>
        t_resources := [default_resource\<lparr>r_id := 1, r_network_address := ''n1''\<rparr>],
        t_assigned := [\<lparr>a_mld = 1, a_res = 1, a_index = ''CURRENT''\<rparr>]\<rparr>\<rparr> of (r, s) \<Rightarrow>
     r = Inl NameError \<and> state_of 1 (bip_db s) = Some ''Launching'' \<and> t_events (bip_db s) = [] \<and> bip_exit s = 0)"
  by code_simp

text \<open>A reservation that goes on without a node that does not answer is launched on this node when it is the first.\<close>

lemma reservation_on_bad_node:
  "fst (check_nodes (launch_env\<lparr>ping_nodes := \<lambda>h. (True, [''n1''])\<rparr>) (launch_row\<lparr>j_reservation := ''Scheduled''\<rparr>) ''''
      [''n1'', ''n2''] \<lparr>bip_exit = 0, bip_db = launch_db [] launch_row\<rparr>) = Inr (Some [''n1'', ''n2''])"
  by code_simp

end
