(* ===== verification/Server.thy ===== *)
theory Server
  imports Node_Change Submission_Life Hulot_Life Bipbip_Props
begin

text \<open>
  The server as a whole: the modules take turns on the database, in any order, with the commands of
  the users and the passing of time in between. \<open>server_step P fuel X\<close> has one rule per handler that the
  development models; a handler that raises leaves no step, but for Bipbip, whose exceptions are caught. \<open>P\<close>, \<open>fuel\<close> and \<open>X\<close> are the parameters of the
  schedulers; an external scheduler is another program, so the metascheduler steps in its other modes. Every step is a sequence of steps of the
  abstract machine of \<open>Job_Life\<close>, so the invariants of that machine hold in every database that the
  server reaches. A submission is a step where no job carries an array number that is still to be given
  (\<open>array_ids_used\<close>).
\<close>

section \<open>Steps\<close>

inductive server_step ::
    "'p procset_ops \<Rightarrow> nat \<Rightarrow> ('p, 'f::linorder) site \<Rightarrow> db \<Rightarrow> db \<Rightarrow> bool"
  for P :: "'p procset_ops" and fuel :: nat and X :: "('p, 'f::linorder) site" where
  set_state: "server_step P fuel X w (set_job_state i t w)"
| start_job: "server_step P fuel X w (set_job_start_time_assigned_moldable_id i st mid w)"
| suspend: "server_step P fuel X w (suspend_job_action i mid w)"
| resume: "server_step P fuel X w (resume_job_action i w)"
| end_of_job: "check_end_of_job rm rnd i v err hosts user dir epi w = Inr w' \<Longrightarrow> server_step P fuel X w w'"
| resubmit: "resubmit_job rnd i w = Inr (r, w') \<Longrightarrow> server_step P fuel X w w'"
| leon: "leon_run rm args w = Inr (c, w') \<Longrightarrow> server_step P fuel X w w'"
| sarko: "sarko_run usr2 w = Inr (c, w') \<Longrightarrow> server_step P fuel X w w'"
| node_change: "node_change_state_run rnd env w = Inr s \<Longrightarrow> server_step P fuel X w (the_db s)"
| finaud: "server_step P fuel X w (snd (finaud_run ping w))"
| kill: "frag_job i user w = Inr (c, w') \<Longrightarrow> server_step P fuel X w w'"
| hold: "hold_job i running user w = Inr (c, w') \<Longrightarrow> server_step P fuel X w w'"
| wake: "resume_job i user w = Inr (c, w') \<Longrightarrow> server_step P fuel X w w'"
| checkpoint: "ask_checkpoint_signal_job i sig user w = Inr (c, w') \<Longrightarrow> server_step P fuel X w w'"
| clock: "db_now w \<le> d \<Longrightarrow> server_step P fuel X w (w\<lparr>db_now := d\<rparr>)"
| metascheduler: "meta_schedule P fuel W X mode s = Inr (c, s') \<Longrightarrow> mode \<noteq> ''external'' \<Longrightarrow>
     server_step P fuel X (m_db s) (m_db s')"
| scheduler: "schedule_cycle P fuel X E now queues w = Inr w' \<Longrightarrow> server_step P fuel X w w'"
| walltime: "request ev conf i user t force delay w = Inr (answer, w') \<Longrightarrow> server_step P fuel X w w'"
| submission: "add_micheline_jobs P S A p w = Inr (r, w') \<Longrightarrow> array_ids_used w \<Longrightarrow> server_step P fuel X w w'"
| launch_or_end: "bipbip_main env args w = Inr (c, w') \<Longrightarrow> server_step P fuel X w w'"
| hulot_check: "check_executors status d xs (running, w) = Inr (kept, running', w') \<Longrightarrow> server_step P fuel X w w'"
| hulot_message: "handle_message Q timeouts max_cycles message h w = Inr (r, h', w') \<Longrightarrow> server_step P fuel X w w'"
| accounting: "check_accounting_update n w = Some (Inr w') \<Longrightarrow> server_step P fuel X w w'"

inductive_cases server_stepE: "server_step P fuel X w w'"

lemma hold_job_life:
  assumes "hold_job i b u w = Inr (c, w')"
  shows "life_of w' = life_of w"
proof -
  obtain v where v: "calling_user w u = Inr v"
    using assms by (cases "calling_user w u") (simp_all add: hold_job_def)
  show ?thesis
  proof (cases "get_job w i")
    case None
    thus ?thesis using assms by (simp add: hold_job_def v Let_def)
  next
    case (Some job)
    thus ?thesis
      using assms unfolding hold_job_def v res_bind_simps Let_def Some option.case
      by (simp split: if_splits) (auto simp: life_simps)
  qed
qed

lemma resume_job_life:
  assumes "resume_job i u w = Inr (c, w')"
  shows "life_of w' = life_of w"
proof -
  obtain v where v: "calling_user w u = Inr v"
    using assms by (cases "calling_user w u") (simp_all add: resume_job_def)
  show ?thesis
  proof (cases "get_job w i")
    case None
    thus ?thesis using assms by (simp add: resume_job_def v)
  next
    case (Some job)
    thus ?thesis
      using assms unfolding resume_job_def v res_bind_simps Some option.case
      by (simp split: if_splits) (auto simp: life_simps)
  qed
qed

lemma checkpoint_life:
  assumes "ask_checkpoint_signal_job i s u w = Inr (c, w')"
  shows "life_of w' = life_of w"
proof -
  obtain v where v: "calling_user w u = Inr v"
    using assms by (cases "calling_user w u") (simp_all add: ask_checkpoint_signal_job_def)
  show ?thesis
  proof (cases "get_job w i")
    case None
    thus ?thesis using assms by (simp add: ask_checkpoint_signal_job_def v Let_def)
  next
    case (Some job)
    thus ?thesis
      using assms unfolding ask_checkpoint_signal_job_def v res_bind_simps Let_def Some option.case
      by (simp split: if_splits) (auto simp: life_simps)
  qed
qed

lemma finaud_decide_life: "life_of (snd (finaud_decide bad n st)) = life_of (snd st)"
  by (cases st) (simp add: finaud_decide_def Let_def set_node_nextState_def
      update_node_nextFinaudDecision_def life_simps)

lemma finaud_life: "life_of (snd (finaud_run ping w)) = life_of w"
  by (simp add: finaud_run_def Let_def fold_keeps [where k = "\<lambda>st. life_of (snd st)"]
      finaud_decide_life split: prod.splits)

lemma clock_refines: "db_now w \<le> d \<Longrightarrow> refines w (w\<lparr>db_now := d\<rparr>)"
  using life_step.tick [of "life_of w" d]
  by (auto simp: refines_def life_of_def states_def intro!: r_into_rtranclp)

lemma server_step_refines: "server_step P fuel X w w' \<Longrightarrow> refines w w'"
proof (induction rule: server_step.induct)
  case (kill i user w c w')
  thus ?case by (blast intro: refines_same frag_job_life)
next
  case (hold i running user w c w')
  thus ?case by (blast intro: refines_same hold_job_life)
next
  case (wake i user w c w')
  thus ?case by (blast intro: refines_same resume_job_life)
next
  case (checkpoint i sig user w c w')
  thus ?case by (blast intro: refines_same checkpoint_life)
next
  case (metascheduler W mode s c s')
  thus ?case by (rule meta_schedule_refines)
next
  case (scheduler E now queues w w')
  thus ?case by (blast intro: refines_same schedule_cycle_life)
next
  case (walltime ev conf i user t force delay w answer w')
  thus ?case using refines_toD [OF request_refines] by fastforce
next
  case (submission S A p w r w')
  thus ?case using refines_toD [OF submission_refines] by fastforce
next
  case (launch_or_end env args w c w')
  thus ?case by (rule bipbip_main_refines)
next
  case (hulot_check status d xs running w kept running' w')
  thus ?case by (blast intro: refines_same check_executors_life)
next
  case (hulot_message Q timeouts max_cycles message h w r h' w')
  thus ?case by (blast intro: refines_same handle_message_life)
next
  case (accounting n w w')
  thus ?case by (auto simp: check_accounting_update_def intro: refines_same accounting_life)
qed (auto intro: refines_set_job_state refines_suspend_job_action refines_resume_job_action
      check_end_refines resubmit_refines leon_refines sarko_refines node_change_refines
      clock_refines refines_same [OF finaud_life] refines_same [OF life_fields(4)])

lemma server_steps_refine: "(server_step P fuel X)\<^sup>*\<^sup>* w w' \<Longrightarrow> refines w w'"
  by (induction rule: rtranclp_induct) (auto intro: refines_trans server_step_refines)

section \<open>Properties\<close>

text \<open>
  C14. In every database that the server reaches from a consistent one, the rows of
  \<open>job_state_logs\<close> of each job are one contiguous history: a row ends when the next one starts, only
  the last is open, and it names the state the job is in. Identifiers of jobs stay distinct.
\<close>

theorem server_history_invariant:
  assumes "(server_step P fuel X)\<^sup>*\<^sup>* w w'" and "life_ok (life_of w)"
  shows "life_ok (life_of w')"
proof -
  have "distinct (map j_id (t_jobs w))"
    using assms(2) by (simp add: life_ok_def life_of_def fst_states)
  hence "life_step\<^sup>*\<^sup>* (life_of w) (life_of w')"
    using server_steps_refine [OF assms(1)] by (simp add: refines_def)
  thus ?thesis using assms(2) by (rule life_steps_ok)
qed


text \<open>The time spent in the states of a job adds up.\<close>

definition row_time :: "int \<Rightarrow> state_log_row \<Rightarrow> int" where
  "row_time now l = (if l_stop l = 0 then now else l_stop l) - l_start l"

lemma chained_time:
  assumes "chained rows" "rows \<noteq> []" "\<forall>l \<in> set rows. 0 < l_start l"
  shows "sum_list (map (row_time now) rows) = now - l_start (hd rows)"
  using assms
proof (induction rows rule: chained.induct)
  case (3 l m ls)
  have "l_stop l \<noteq> 0" using 3(2,4) by auto
  thus ?case using 3 by (simp add: row_time_def)
qed (simp_all add: row_time_def)

lemma sum_by_state:
  fixes rows :: "state_log_row list"
  shows "sum_list (map (\<lambda>s. sum_list (map f (filter (\<lambda>l. l_state l = s) rows)))
     (remdups (map l_state rows))) = (sum_list (map f rows) :: int)"
proof -
  have split: "(\<Sum>s \<in> S. sum_list (map f (filter (\<lambda>l. l_state l = s) rows))) = sum_list (map f rows)"
    if "finite S" "set (map l_state rows) \<subseteq> S" for S rows
    using that(2)
  proof (induction rows)
    case (Cons l ls)
    have "(\<Sum>s \<in> S. sum_list (map f (filter (\<lambda>k. l_state k = s) (l # ls)))) =
        (\<Sum>s \<in> S. (if l_state l = s then f l else 0) + sum_list (map f (filter (\<lambda>k. l_state k = s) ls)))"
      by (rule sum.cong) auto
    also have "\<dots> = f l + sum_list (map f ls)"
      using Cons that(1) by (simp add: sum.distrib)
    finally show ?case by simp
  qed simp
  show ?thesis
    using split [of "set (map l_state rows)" rows]
    by (simp add: sum_list_distinct_conv_sum_set)
qed

text \<open>
  C17. \<open>get_job_duration_in_state\<close> accounts for all the time of a job: summed over the states the job went
  through, the durations are the time since its first row.
\<close>

theorem durations_add_up:
  assumes "life_ok (life_of w)" and "(i, s) \<in> set (states w)" and "rows_of i (t_state_logs w) \<noteq> []"
  shows "sum_list (map (\<lambda>t. get_job_duration_in_state i t w)
      (remdups (map l_state (rows_of i (t_state_logs w))))) =
    db_now w - l_start (hd (rows_of i (t_state_logs w)))"
proof -
  let ?r = "rows_of i (t_state_logs w)"
  have h: "history_ok (db_now w) s ?r"
    using assms(1,2) by (auto simp: life_ok_def life_of_def)
  have "get_job_duration_in_state i t w =
      sum_list (map (row_time (db_now w)) (filter (\<lambda>l. l_state l = t) ?r))" for t
    unfolding get_job_duration_in_state_def rows_of_def row_time_def [abs_def] get_date_def by simp
  hence "sum_list (map (\<lambda>t. get_job_duration_in_state i t w) (remdups (map l_state ?r))) =
      sum_list (map (row_time (db_now w)) ?r)"
    by (simp add: sum_by_state)
  also have "\<dots> = db_now w - l_start (hd ?r)"
    using h assms(3) by (intro chained_time) (auto simp: history_ok_def)
  finally show ?thesis .
qed

text \<open>An example: one job, put in the queue at 10, that runs from 15.\<close>

definition example_db :: db where
  "example_db = empty_db\<lparr>db_now := 20, t_jobs := [example_job_row],
     t_moldables := [\<lparr>m_id = 1, m_job = 1, m_walltime = 60, m_index = ''CURRENT''\<rparr>],
     t_assigned := [\<lparr>a_mld = 1, a_res = 1, a_index = ''CURRENT''\<rparr>],
     t_resources := [default_resource\<lparr>r_id := 1, r_network_address := ''n1''\<rparr>],
     t_state_logs := [\<lparr>l_id = 1, l_job = 1, l_state = ''Waiting'', l_start = 10, l_stop = 15\<rparr>,
                      \<lparr>l_id = 2, l_job = 1, l_state = ''Running'', l_start = 15, l_stop = 0\<rparr>]\<rparr>"

lemma example_ok: "life_ok (life_of example_db)"
  by (simp add: life_ok_def life_of_def states_def example_db_def example_job_row_def empty_db_def
      history_ok_def rows_of_def)

theorem server_history_invariant_witness:
  "life_ok (life_of (set_job_state 1 ''Terminated'' example_db))"
proof -
  have "(server_step list_procset 0 example_site)\<^sup>*\<^sup>* example_db (set_job_state 1 ''Terminated'' example_db)"
    by (rule r_into_rtranclp) (rule server_step.set_state)
  thus ?thesis using example_ok by (rule server_history_invariant)
qed


theorem durations_add_up_witness:
  "sum_list (map (\<lambda>t. get_job_duration_in_state 1 t example_db) [''Waiting'', ''Running'']) = 10"
  using durations_add_up [OF example_ok, of 1 "''Running''"]
  by (simp add: example_db_def states_def example_job_row_def rows_of_def empty_db_def)

end
