(* ===== verification/Server_Cases.thy ===== *)
theory Server_Cases
  imports Server
begin

text \<open>
  The behaviour of single handlers, case by case: the places where a handler does not do what its caller expects from it.
\<close>

text \<open>
  The requests that the module ignores: the hold of a running job, which \<open>hold_job\<close> sends as
  \<open>HOLD_RUNNING_JOB\<close>, and the resumption of a \<open>Suspended\<close> job, which is compared with \<open>"Suspend"\<close>. The step
  changes nothing.
\<close>

theorem hold_resume_ignored:
  assumes "get_job (the_db s) (e_job e) = Some job"
    and "e_type e = ''HOLD_RUNNING_JOB'' \<and> j_state job = ''Running'' \<or>
         e_type e = ''RESUME_JOB'' \<and> j_state job = ''Suspended''"
  shows "hold_resume env e s = Inr s"
  using assms by (auto simp: hold_resume_def job_attr_def Let_def)

definition ignored_event :: event_row where
  "ignored_event = \<lparr>e_id = 1, e_type = ''HOLD_RUNNING_JOB'', e_job = 1, e_date = 20,
     e_description = '''', e_to_check = ''YES''\<rparr>"

theorem hold_resume_ignored_witness:
  "hold_resume \<lparr>suspend_nodes = \<lambda>h. (1, []), after_suspend = \<lambda>f j. ''''\<rparr> ignored_event
     \<lparr>exit_code = 0, to_heal = [], the_db = example_db\<rparr> =
   Inr \<lparr>exit_code = 0, to_heal = [], the_db = example_db\<rparr>"
  by (rule hold_resume_ignored [of _ _ example_job_row])
     (simp_all add: ignored_event_def get_job_def example_db_def example_job_row_def)

lemma change_resource_same:
  assumes "distinct (map r_id (t_resources (the_db s)))" and "x \<in> set (t_resources (the_db s))"
    and "r_next_state x = r_state x"
  shows "change_resource (r_id x, r_next_state x) s = Inr s"
  using distinct_filter_key [OF assms(1,2)] assms(3)
  by (simp add: change_resource_def get_resource_def)

definition pg_db :: db where
  "pg_db = example_db\<lparr>db_sqlite := False, t_jobs := [example_job_row\<lparr>j_notify := Some ''mail:bob''\<rparr>]\<rparr>"

text \<open>
  On PostgreSQL the suspension of a running job does not flag the resources it holds: the job that
  becomes \<open>Suspended\<close> is treated as one that ended, which takes its resources off the \<open>CURRENT\<close> index
  before the flag is set, and its user is told that the job failed.
\<close>

theorem suspension_flags_no_resource:
  "map j_state (t_jobs (suspend_job_action 1 1 pg_db)) = [''Suspended''] \<and>
   map r_suspended_jobs (t_resources (suspend_job_action 1 1 pg_db)) = [''NO''] \<and>
   map a_index (t_assigned (suspend_job_action 1 1 pg_db)) = [''LOG''] \<and>
   User_notification 1 ''ERROR'' ''Job stopped abnormally or an OAR error occured.'' \<in>
     set (db_outbox (suspend_job_action 1 1 pg_db)) \<and>
   map r_suspended_jobs (t_resources (suspend_job_action 1 1 (pg_db\<lparr>db_sqlite := True\<rparr>))) = [''YES'']"
  by (simp add: pg_db_def example_db_def example_job_row_def empty_db_def suspend_job_action_def
      set_job_state_def settable_def sql_count_def sql_update_def log_state_def fresh_id_def
      after_state_def job_ended_def get_job_def update_scheduler_last_job_date_def assigned_to_def
      update_current_scheduler_priority_def log_job_def notify_user_def notify_almighty_def send_def
      get_current_resources_with_suspended_job_def update_job_def default_resource_def Let_def
      get_date_def)

text \<open>
  The events of \<open>ask_checkpoint_signal_job\<close> are exchanged: a request for a signal records a
  \<open>CHECKPOINT\<close>, a request for a checkpoint records \<open>SIGNAL_None\<close>.
\<close>

theorem checkpoint_and_signal_exchanged:
  assumes "get_job w jid = Some job" and "j_type job \<noteq> ''INTERACTIVE''" and "j_state job = ''Running''"
    and "calling_user w user = Inr u" and "u = j_user job \<or> privileged u"
  shows "(case ask_checkpoint_signal_job jid None user w of Inl e \<Rightarrow> False
     | Inr (r, w') \<Rightarrow> r = (0, None) \<and> is_an_event_exists jid ''CHECKPOINT'' w' =
         is_an_event_exists jid ''CHECKPOINT'' w) \<and>
   (case ask_checkpoint_signal_job jid (Some ''SIGUSR1'') user w of Inl e \<Rightarrow> False
     | Inr (r, w') \<Rightarrow> r = (0, None) \<and> is_an_event_exists jid ''CHECKPOINT'' w' =
         is_an_event_exists jid ''CHECKPOINT'' w + 1)"
  using assms by (simp add: ask_checkpoint_signal_job_def Let_def is_an_event_exists_add)

theorem checkpoint_and_signal_exchanged_witness:
  "case ask_checkpoint_signal_job 1 (Some ''SIGUSR1'') (Some ''bob'') example_db of Inl e \<Rightarrow> False
   | Inr (r, w') \<Rightarrow> r = (0, None) \<and> is_an_event_exists 1 ''CHECKPOINT'' w' =
       is_an_event_exists 1 ''CHECKPOINT'' example_db + 1"
  using checkpoint_and_signal_exchanged [of example_db 1 example_job_row "Some ''bob''" "''bob''"]
  by (simp add: get_job_def example_db_def example_job_row_def calling_user_def)

end
