(* ===== verification/Server_Loop.thy ===== *)
theory Server_Loop
  imports Almighty_Props Server_Cases
begin

text \<open>
  The automaton of Almighty over the database: the programs it launches are the modules of the server, and what
  a module leaves in the database decides whether the automaton ever reads its commands again.
\<close>

section \<open>node-change-state as a program\<close>

text \<open>
  The program ends with the exit code of the module; an exception ends it with 1, in a database that
  \<open>crash\<close> describes. \<open>later\<close> is the time at which it ends.
\<close>

definition ncs_program ::
    "int \<Rightarrow> suspend_env \<Rightarrow> (db \<Rightarrow> db) \<Rightarrow> (int \<Rightarrow> int) \<Rightarrow> db \<Rightarrow> int \<times> db" where
  "ncs_program rnd env crash later w =
     (case node_change_state_run rnd env w of
        Inl e \<Rightarrow> (1, crash w)
      | Inr s \<Rightarrow> (exit_code s, (the_db s)\<lparr>db_now := later (db_now w)\<rparr>))"

definition only_own_states :: "db \<Rightarrow> bool" where
  "only_own_states w \<longleftrightarrow> distinct (map r_id (t_resources w)) \<and> get_resources_change_state w \<noteq> [] \<and>
     list_all (\<lambda>x. r_next_state x = ''UnChanged'' \<or> r_next_state x = r_state x) (t_resources w)"

lemma own_states_change_nothing:
  assumes "only_own_states (the_db s)"
  shows "change_resources s = Inr (s\<lparr>exit_code := 1\<rparr>)"
proof -
  have step: "change_resource c (s\<lparr>exit_code := 1\<rparr>) = Inr (s\<lparr>exit_code := 1\<rparr>)"
    if "c \<in> set (get_resources_change_state (the_db s))" for c
  proof -
    from that obtain x where x: "x \<in> set (t_resources (the_db s))" "r_next_state x \<noteq> ''UnChanged''"
      "c = (r_id x, r_next_state x)" by (auto simp: get_resources_change_state_def)
    with assms have "r_next_state x = r_state x" by (auto simp: only_own_states_def list_all_iff)
    with x assms show ?thesis
      using change_resource_same [of "s\<lparr>exit_code := 1\<rparr>" x] by (simp add: only_own_states_def)
  qed
  have "fold_res change_resource cs (s\<lparr>exit_code := 1\<rparr>) = Inr (s\<lparr>exit_code := 1\<rparr>)"
    if "set cs \<subseteq> set (get_resources_change_state (the_db s))" for cs
    using that by (induction cs) (simp_all add: step)
  thus ?thesis using assms by (simp add: change_resources_def only_own_states_def Let_def)
qed

lemma own_states_run:
  assumes "only_own_states w" "get_to_check_events w = []"
  shows "ncs_program rnd env crash later w = (1, w\<lparr>db_now := later (db_now w)\<rparr>)"
  using own_states_change_nothing [of "\<lparr>exit_code = 0, to_heal = [], the_db = w\<rparr>"] assms
  by (simp add: ncs_program_def node_change_state_run_def heal_def split: option.split)

text \<open>
  C29. A request that nobody can serve stops the server. When every requested state is the state its resource is
  in already (\<open>oarnodesetting -s Alive\<close> on a node that is alive), and no event is left to check, Almighty
  launches node-change-state for ever: it stays in \<open>Scheduler\<close>, launches no scheduler, reads no message, and
  the request is never withdrawn.
\<close>

theorem pending_state_starves_server:
  assumes M: "launch M Node_change_state = ncs_program rnd env crash later" "clock M = (\<lambda>w. of_int (db_now w))"
      "\<forall>w. \<not> signalled M w" "\<forall>t. t \<le> later t"
    and w: "only_own_states w" "get_to_check_events w = []"
    and a: "al_state a = ''Scheduler''" "\<not> finish_tag a" "\<not> hulot_started a"
      "lastscheduler a + of_int (min_between_2_calls C) \<le> of_int (db_now w)"
  shows "\<exists>r. r 0 = (a, w) \<and> al_run M C r \<and> (\<forall>n. al_state (fst (r n)) = ''Scheduler'' \<and>
    command_queue (fst (r n)) = command_queue a \<and>
    get_resources_change_state (snd (r n)) = get_resources_change_state w)"
proof -
  define Q where "Q v \<longleftrightarrow> (\<exists>t \<ge> db_now w. v = w\<lparr>db_now := t\<rparr>)" for v
  have own: "only_own_states (w\<lparr>db_now := t\<rparr>)" "get_to_check_events (w\<lparr>db_now := t\<rparr>) = []"
    "get_resources_change_state (w\<lparr>db_now := t\<rparr>) = get_resources_change_state w" for t
    using w by (simp_all add: only_own_states_def get_to_check_events_def get_resources_change_state_def)
  have step: "fst (launch M Node_change_state v) = 1 \<and> Q (snd (launch M Node_change_state v)) \<and>
      \<not> signalled M v \<and> clock M v \<ge> lastscheduler a + of_int (min_between_2_calls C)" if "Q v" for v
  proof -
    from that obtain t where t: "db_now w \<le> t" "v = w\<lparr>db_now := t\<rparr>" by (auto simp: Q_def)
    hence launch: "launch M Node_change_state v = (1, w\<lparr>db_now := later t\<rparr>)"
      by (simp add: M(1) own_states_run own)
    have "t \<le> later t" using M(4) by blast
    hence "Q (w\<lparr>db_now := later t\<rparr>)" using t(1) unfolding Q_def by (intro exI [of _ "later t"]) simp
    moreover have "lastscheduler a + of_int (min_between_2_calls C) \<le> clock M v"
      using a(4) t(1) unfolding M(2) t(2) by (simp add: order_trans [OF a(4)])
    ultimately show ?thesis using M(3) launch by simp
  qed
  have "Q w" unfolding Q_def by (intro exI [of _ "db_now w"]) simp
  from answering_one_starves [of Q, OF step this a(1-3)] obtain r where
    r: "r 0 = (a, w)" "al_run M C r" "\<And>n. al_state (fst (r n)) = ''Scheduler''"
      "\<And>n. command_queue (fst (r n)) = command_queue a" "\<And>n. Q (snd (r n))" by blast
  have "get_resources_change_state (snd (r n)) = get_resources_change_state w" for n
    using r(5) [of n] own(3) by (auto simp: Q_def)
  with r show ?thesis by blast
qed

definition stuck_db :: db where
  "stuck_db = empty_db\<lparr>db_now := 100, t_resources :=
     [default_resource\<lparr>r_id := 1, r_state := ''Alive'', r_next_state := ''Alive''\<rparr>]\<rparr>"

definition stuck_modules :: "db modules" where
  "stuck_modules = \<lparr>clock = (\<lambda>w. of_int (db_now w)), receive = (\<lambda>w. (Message (Some ''Qsub''), w)),
     launch = (\<lambda>p w. case p of
        Node_change_state \<Rightarrow> ncs_program 0 \<lparr>suspend_nodes = \<lambda>h. (1, []), after_suspend = \<lambda>f j. ''''\<rparr> (\<lambda>w. w) (\<lambda>t. t + 1) w
      | _ \<Rightarrow> (0, w)),
     hulot_alive = (\<lambda>w. True), signalled = (\<lambda>w. False)\<rparr>"

theorem pending_state_starves_server_witness:
  "\<exists>r. r 0 = (quiet_state ''Scheduler'' 1 [''Qsub''], stuck_db) \<and>
     al_run stuck_modules \<lparr>min_between_2_calls = 5, check_nodes_timeout = 300\<rparr> r \<and>
     (\<forall>n. al_state (fst (r n)) = ''Scheduler'' \<and> command_queue (fst (r n)) = [''Qsub''] \<and>
        get_resources_change_state (snd (r n)) = [(1, ''Alive'')])"
proof -
  have "only_own_states stuck_db" "get_to_check_events stuck_db = []"
    "get_resources_change_state stuck_db = [(1, ''Alive'')]"
    by (simp_all add: only_own_states_def stuck_db_def empty_db_def default_resource_def
        get_to_check_events_def get_resources_change_state_def)
  thus ?thesis
    using pending_state_starves_server [of stuck_modules 0
        "\<lparr>suspend_nodes = \<lambda>h. (1, []), after_suspend = \<lambda>f j. ''''\<rparr>" "\<lambda>w. w" "\<lambda>t. t + 1" stuck_db
        "quiet_state ''Scheduler'' 1 [''Qsub'']" "\<lparr>min_between_2_calls = 5, check_nodes_timeout = 300\<rparr>"]
    by (simp add: stuck_modules_def quiet_state_def new_almighty_def fun_eq_iff stuck_db_def)
qed

end
