(* ===== verification/Meta_Props.thy ===== *)
theory Meta_Props
  imports Meta_Sched
begin

text \<open>
  Properties of the metascheduler: an accepted reservation gets resources that are free and keeps them,
  the jobs that are launched, the besteffort jobs that are killed, and what the round cannot do.
\<close>

section \<open>Slots around a reservation\<close>

lemma advance_end_spec:
  assumes "advance_end fuel m i t = Inr l" "linked m i ids 0" "contig k (slots_at m ids) e" "0 \<notin> dom m"
  shows "\<exists>xs ys. ids = xs @ l # ys \<and> t \<le> slot_e (the (m l)) \<and> (xs = [] \<or> slot_b (the (m l)) \<le> t)"
  using assms
proof (induction fuel arbitrary: i ids k)
  case (Suc fuel)
  then obtain s where s: "m i = Some s" by (auto simp: res_simps)
  with Suc.prems obtain xs where ids: "ids = i # xs" "linked m (nxt s) xs 0"
    by (cases ids) (auto split: option.splits)
  show ?case
  proof (cases "slot_e s < t")
    case True
    from Suc.prems(1) s True have adv: "advance_end fuel m (nxt s) t = Inr l" by simp
    from Suc.prems(3) ids s have c: "contig (slot_e s + 1) (slots_at m xs) e" by simp
    from Suc.IH [OF adv ids(2) c Suc.prems(4)] obtain us ys where
      u: "xs = us @ l # ys" "t \<le> slot_e (the (m l))" "us = [] \<or> slot_b (the (m l)) \<le> t" by blast
    have "slot_b (the (m l)) \<le> t" if "us = []" using c u(1) that True by simp
    with u ids(1) show ?thesis by (intro exI [of _ "i # us"] exI [of _ ys]) auto
  next
    case False
    with Suc.prems(1) s ids show ?thesis by (intro exI [of _ "[]"] exI [of _ xs]) auto
  qed
qed simp

lemma encompassing_window:
  assumes ch: "chain ss ids b e" and enc: "get_encompassing_slots fuel (slots ss) t1 t2 = Inr (l, r)"
    and times: "b \<le> t1" "t1 \<le> t2"
  shows "\<exists>pre mid post. ids = pre @ mid @ post \<and> mid \<noteq> [] \<and> hd mid = l \<and> last mid = r \<and>
    slot_b (the (slots ss l)) \<le> t1 \<and> t1 \<le> slot_e (the (slots ss l)) \<and>
    slot_b (the (slots ss r)) \<le> t2 \<and> t2 \<le> slot_e (the (slots ss r)) \<and>
    linked (slots ss) l (mid @ post) 0"
proof -
  let ?m = "slots ss"
  from ch have lk: "linked ?m 1 ids 0" and co: "contig b (slots_at ?m ids) e" and z: "0 \<notin> dom ?m"
    by (auto simp: chain_def)
  from enc have left: "advance_end fuel ?m 1 t1 = Inr l" and right: "advance_end fuel ?m l t2 = Inr r"
    by (auto simp: get_encompassing_slots_def res_simps)
  from advance_end_spec [OF left lk co z] obtain pre rest where
    p: "ids = pre @ l # rest" "t1 \<le> slot_e (the (?m l))" "pre = [] \<or> slot_b (the (?m l)) \<le> t1" by blast
  from ch p(1) have "chain ss (pre @ l # rest) b e" by simp
  from chain_parts(1,2) [OF this] obtain k where
    lk': "linked ?m l (l # rest) 0" and co': "contig k (slots_at ?m (l # rest)) e" by blast
  from advance_end_spec [OF right lk' co' z] obtain us post where
    q: "l # rest = us @ r # post" "t2 \<le> slot_e (the (?m r))" "us = [] \<or> slot_b (the (?m r)) \<le> t2" by blast
  have "slot_b (the (?m l)) = b" if "pre = []" using co p(1) that by simp
  hence bl: "slot_b (the (?m l)) \<le> t1" using p(3) times(1) by auto
  have "r = l" if "us = []" using q(1) that by simp
  hence "slot_b (the (?m r)) \<le> t2" using q(3) bl times(2) by auto
  moreover have "hd (us @ [r]) = l" using q(1) by (cases us) auto
  moreover have "ids = pre @ (us @ [r]) @ post" using p(1) q(1) by simp
  moreover have "linked ?m l ((us @ [r]) @ post) 0" using lk' q(1) by simp
  ultimately show ?thesis
    using p(2) bl q(2) by (intro exI [of _ pre] exI [of _ "us @ [r]"] exI [of _ post]) auto
qed

context procset
begin

lemma reservation_spec:
  assumes ok: "slot_set_ok E ss ids b e" and fuel: "last_id ss \<le> fuel"
    and plain: "\<not> ts job" "ph job = No_placeholder"
    and times: "b \<le> start_time job" "security \<le> wt"
    and res: "reservation_resources P fuel E rs ss job rqts wt security = Inr (l, r, r_itvs, True)"
  shows "\<exists>pre mid post. ids = pre @ mid @ post \<and> mid \<noteq> [] \<and> hd mid = l \<and> last mid = r \<and>
     slot_b (the (slots ss l)) \<le> start_time job \<and> start_time job \<le> slot_e (the (slots ss l)) \<and>
     slot_b (the (slots ss r)) \<le> start_time job + wt - security \<and>
     start_time job + wt - security \<le> slot_e (the (slots ss r)) \<and>
     (\<forall>t. start_time job \<le> t \<and> t \<le> start_time job + wt - security \<longrightarrow>
        elems P r_itvs \<subseteq> free_at P (slots_at (slots ss) ids) t)"
proof -
  let ?t2 = "start_time job + wt - security"
  from ok have ch: "chain ss ids b e" by (simp add: slot_set_ok_def)
  from res plain obtain avail where
    enc: "get_encompassing_slots fuel (slots ss) (start_time job) ?t2 = Inr (l, r)"
    and av: "intersec_itvs_slots P fuel (slots ss) l r = Inr avail"
    and fnd: "find_resource_hierarchies_job P avail rqts (map_of (rs_hierarchy rs)) = Inr r_itvs"
    by (auto simp: reservation_resources_def res_simps split: if_splits)
  have "start_time job \<le> ?t2" using times(2) by simp
  from encompassing_window [OF ch enc times(1) this] obtain pre mid post where
    w: "ids = pre @ mid @ post" "mid \<noteq> []" "hd mid = l" "last mid = r"
      "slot_b (the (slots ss l)) \<le> start_time job" "start_time job \<le> slot_e (the (slots ss l))"
      "slot_b (the (slots ss r)) \<le> ?t2" "?t2 \<le> slot_e (the (slots ss r))"
      "linked (slots ss) l (mid @ post) 0" by blast
  from w(9) obtain j where lk: "linked (slots ss) l mid j" unfolding linked_append by blast
  have "distinct mid" "length mid \<le> fuel"
    using ch chain_length [OF ch] fuel by (auto simp: chain_def w(1))
  from intersec_itvs_slots_spec [OF lk w(2) this(1) w(4) this(2)] av have
    "elems P avail = (\<Inter>i \<in> set mid. elems P (itvs (the (slots ss i))))" by simp
  hence inside: "\<forall>i \<in> set mid. elems P r_itvs \<subseteq> elems P (itvs (the (slots ss i)))"
    using hierarchy_finder.inside [OF fnd] by auto
  define d where "d = slot_e (the (slots ss r)) - slot_b (the (slots ss l)) + 1"
  have "r \<in> set ids" using w(1,2,4) by auto
  then obtain xs ys where "ids = xs @ r # ys" by (meson split_list)
  with ch have "slot_b (the (slots ss r)) \<le> slot_e (the (slots ss r)) + 1"
    by (auto simp: chain_def contig_append)
  hence win: "window ss ids d l r mid" using w(1-4) by (auto simp: window_def d_def)
  have "elems P r_itvs \<subseteq> free_at P (slots_at (slots ss) ids) t"
    if "start_time job \<le> t" "t \<le> ?t2" for t
    by (rule placeable_free [OF ok win inside]) (use that w(5,8) in \<open>auto simp: d_def\<close>)
  with w show ?thesis by blast
qed

end

section \<open>Reservations accepted in a round\<close>

text \<open>What a placed reservation needs: its resources until its walltime, less the security time, is over.\<close>

definition reserves :: "'p procset_ops \<Rightarrow> int \<Rightarrow> 'p job \<Rightarrow> int \<Rightarrow> nat set" where
  "reserves P security job t = (case (res_set job, walltime job) of
     (Some r, Some wt) \<Rightarrow> if start_time job \<le> t \<and> t \<le> start_time job + wt - security then elems P r else {}
   | _ \<Rightarrow> {})"

definition plain_reservation :: "int \<Rightarrow> 'p job \<Rightarrow> bool" where
  "plain_reservation security job \<longleftrightarrow> \<not> ts job \<and> ph job = No_placeholder \<and>
     (\<forall>(mld, wt, rqts) \<in> set (mld_res_rqts job). security \<le> wt)"

context procset
begin

lemma reservation_no_quotas:
  "\<not> q_enabled (quotas_conf E) \<Longrightarrow>
   reservation_resources P fuel E rs ss job rqts wt security = Inr (l, r, i, q) \<Longrightarrow> q"
  by (auto simp: reservation_resources_def res_simps split: if_splits)

lemma new_reservation_step:
  assumes ok: "slot_set_ok E ss ids b e" and sets: "m_env s = E" "m_sets s = [(''default'', ss)]"
    and fuel: "last_id ss \<le> fuel" and quotas: "\<not> q_enabled (quotas_conf E)"
    and plain: "plain_reservation security job" and sec: "0 < security" and now: "b \<le> now"
    and run: "new_reservation P fuel rs security now job (s, acc) = Inr (s', acc')"
  shows "acc' = acc \<and> m_env s' = m_env s \<and> m_sets s' = m_sets s \<or>
    (\<exists>job' ss' ids'. acc' = acc @ [job'] \<and> m_env s' = E \<and> m_sets s' = [(''default'', ss')] \<and>
       slot_set_ok E ss' ids' b e \<and> last_id ss' \<le> 3 * last_id ss \<and> job_id job' = job_id job \<and>
       (\<forall>t. reserves P security job' t \<subseteq> free_at P (slots_at (slots ss) ids) t \<and>
          free_at P (slots_at (slots ss') ids') t \<subseteq>
            free_at P (slots_at (slots ss) ids) t - reserves P security job' t))"
proof (cases "acc' = acc")
  case True
  with run sets quotas show ?thesis
    by (auto simp: new_reservation_def res_simps Let_def split: if_splits prod.splits)
next
  case False
  define job1 where "job1 = (if start_time job < now then job\<lparr>start_time := now\<rparr> else job)"
  obtain x where "nth_res (mld_res_rqts job) 0 = Inr x"
    using run by (cases "nth_res (mld_res_rqts job) 0") (simp_all add: new_reservation_def)
  moreover obtain mld wt rqts where "x = (mld, wt, rqts)" by (cases x)
  ultimately have m: "nth_res (mld_res_rqts job) 0 = Inr (mld, wt, rqts)" by simp
  have notold: "\<not> now \<ge> start_time job + wt"
    using run m False by (auto simp: new_reservation_def Let_def)
  from run obtain l r r_itvs q where
    res: "reservation_resources P fuel E rs ss job1 rqts wt security = Inr (l, r, r_itvs, q)"
    unfolding new_reservation_def prod.case m res_bind_simps Let_def job1_def [symmetric] if_not_P [OF notold]
    by (auto simp: sets res_simps)
  have q: "q" by (rule reservation_no_quotas [OF quotas res])
  have some: "ps_len P r_itvs \<noteq> 0"
    using run False
    unfolding new_reservation_def prod.case m res_bind_simps Let_def job1_def [symmetric] if_not_P [OF notold]
    by (auto simp: sets res q)
  from run obtain ss' where
    sp: "split_slots P E ss l r (job1\<lparr>moldable_id := mld, res_set := Some r_itvs, walltime := Some wt\<rparr>) True = Inr ss'"
    and acc': "acc' = acc @ [job1\<lparr>moldable_id := mld, res_set := Some r_itvs, walltime := Some wt\<rparr>]"
    and s': "m_env s' = E" "m_sets s' = [(''default'', ss')]"
    unfolding new_reservation_def prod.case m res_bind_simps Let_def job1_def [symmetric] if_not_P [OF notold]
    using some by (auto simp: sets res q res_simps split: if_splits)
  note res = res [unfolded eqTrueI [OF q]]
  let ?job = "job1\<lparr>moldable_id := mld, res_set := Some r_itvs, walltime := Some wt\<rparr>"
  have "(mld, wt, rqts) \<in> set (mld_res_rqts job)"
    using m by (metis nth_res_eq_Inr nth_mem)
  hence wt: "security \<le> wt" using plain by (fastforce simp: plain_reservation_def)
  have start: "b \<le> start_time job1" "\<not> ts job1" "ph job1 = No_placeholder"
    using plain now by (auto simp: job1_def plain_reservation_def)
  from reservation_spec [OF ok fuel start(2,3,1) wt res] obtain pre mid post where
    w: "ids = pre @ mid @ post" "mid \<noteq> []" "hd mid = l" "last mid = r"
      "slot_b (the (slots ss l)) \<le> start_time job1" "start_time job1 \<le> slot_e (the (slots ss l))"
      "slot_b (the (slots ss r)) \<le> start_time job1 + wt - security"
      "start_time job1 + wt - security \<le> slot_e (the (slots ss r))"
    and free: "\<And>t. start_time job1 \<le> t \<Longrightarrow> t \<le> start_time job1 + wt - security \<Longrightarrow>
        elems P r_itvs \<subseteq> free_at P (slots_at (slots ss) ids) t" by blast
  have placed: "placed ?job wt r_itvs"
    using start wt sec by (simp add: placed_def job_ready_def)
  from split_slots_held_replaces [OF ok [unfolded w(1)] w(2) placed, of True] w sec obtain ss'' cur seg where
    h: "split_slots_held P E ss r l r ?job True = Inr (ss'', cur)"
    and ok': "slot_set_ok E ss'' (pre @ seg @ post) b e"
    and fr: "\<forall>t. free_at P (slots_at (slots ss'') (pre @ seg @ post)) t =
       after_job ?job wt r_itvs True (slot_b (the (slots ss l))) (slot_e (the (slots ss r)))
         (free_at P (slots_at (slots ss) ids)) t"
    and grown: "last_id ss'' \<le> last_id ss + 2 * length mid" by auto
  from split_slots_held_any [OF h, of 0] sp have same: "ss'' = ss'" by (auto simp: split_slots_def)
  have "length mid \<le> last_id ss" using ok chain_length [of ss ids b e] by (simp add: slot_set_ok_def w(1))
  hence "last_id ss' \<le> 3 * last_id ss" using grown same by simp
  moreover have "reserves P security ?job t \<subseteq> free_at P (slots_at (slots ss) ids) t \<and>
      free_at P (slots_at (slots ss') (pre @ seg @ post)) t \<subseteq>
        free_at P (slots_at (slots ss) ids) t - reserves P security ?job t" for t
    using fr free [of t] w(5,8) sec
    by (auto simp: same reserves_def after_job_def job_effect_def)
  moreover have "job_id ?job = job_id job" by (simp add: job1_def)
  ultimately show ?thesis using acc' s' ok' same by blast
qed

end

context procset
begin

lemma reservations_spec:
  assumes "slot_set_ok E ss ids b e" "m_env s = E" "m_sets s = [(''default'', ss)]"
    and "3 ^ length jobs * last_id ss \<le> fuel" "\<not> q_enabled (quotas_conf E)"
    and "\<forall>job \<in> set jobs. plain_reservation security job" "0 < security" "b \<le> now"
    and "fold_res (new_reservation P fuel rs security now) jobs (s, acc) = Inr (s', acc')"
  shows "\<exists>new. acc' = acc @ new \<and>
    (\<forall>job \<in> set new. \<forall>t. reserves P security job t \<subseteq> free_at P (slots_at (slots ss) ids) t) \<and>
    (\<forall>i < length new. \<forall>j < i. \<forall>t. reserves P security (new ! i) t \<inter> reserves P security (new ! j) t = {})"
  using assms
proof (induction jobs arbitrary: s ss ids acc)
  case (Cons job jobs)
  from Cons.prems(9) obtain s1 acc1 where
    one: "new_reservation P fuel rs security now job (s, acc) = Inr (s1, acc1)"
    and rest: "fold_res (new_reservation P fuel rs security now) jobs (s1, acc1) = Inr (s', acc')"
    by (auto simp: res_simps)
  have "1 * last_id ss \<le> 3 ^ length (job # jobs) * last_id ss" by (rule mult_le_mono1) simp
  with Cons.prems(4) have fuel: "last_id ss \<le> fuel" by linarith
  have plain: "plain_reservation security job" "\<forall>job \<in> set jobs. plain_reservation security job"
    using Cons.prems(6) by simp_all
  from new_reservation_step [OF Cons.prems(1-3) fuel Cons.prems(5) plain(1) Cons.prems(7,8) one]
  show ?case
  proof (elim disjE exE conjE)
    assume same: "acc1 = acc" "m_env s1 = m_env s" "m_sets s1 = m_sets s"
    have "3 ^ length jobs * last_id ss \<le> fuel" using Cons.prems(4) by simp
    from Cons.IH [OF Cons.prems(1) _ _ this Cons.prems(5) plain(2) Cons.prems(7,8) rest] same Cons.prems(2,3)
    show ?thesis by simp
  next
    fix job' ss' ids'
    assume new: "acc1 = acc @ [job']" "m_env s1 = E" "m_sets s1 = [(''default'', ss')]"
        "slot_set_ok E ss' ids' b e" "last_id ss' \<le> 3 * last_id ss"
      and free: "\<forall>t. reserves P security job' t \<subseteq> free_at P (slots_at (slots ss) ids) t \<and>
          free_at P (slots_at (slots ss') ids') t \<subseteq>
            free_at P (slots_at (slots ss) ids) t - reserves P security job' t"
    have "3 ^ length jobs * last_id ss' \<le> 3 ^ length jobs * (3 * last_id ss)"
      by (rule mult_le_mono2) (rule new(5))
    also have "\<dots> \<le> fuel" using Cons.prems(4) by (simp add: ac_simps)
    finally have "3 ^ length jobs * last_id ss' \<le> fuel" .
    from Cons.IH [OF new(4,2,3) this Cons.prems(5) plain(2) Cons.prems(7,8) rest] obtain js where
      js: "acc' = acc1 @ js"
        "\<forall>job \<in> set js. \<forall>t. reserves P security job t \<subseteq> free_at P (slots_at (slots ss') ids') t"
        "\<forall>i < length js. \<forall>j < i. \<forall>t. reserves P security (js ! i) t \<inter> reserves P security (js ! j) t = {}"
      by blast
    have "reserves P security ((job' # js) ! i) t \<inter> reserves P security ((job' # js) ! j) t = {}"
      if "i < length (job' # js)" "j < i" for i j t
    proof (cases j)
      case 0
      with that obtain k where "i = Suc k" "k < length js" by (cases i) auto
      with js(2) free 0 show ?thesis by (fastforce simp: nth_mem)
    qed (use that js(3) in \<open>auto simp: nth_Cons'\<close>)
    moreover have "reserves P security j t \<subseteq> free_at P (slots_at (slots ss) ids) t" if "j \<in> set (job' # js)" for j t
    proof (cases "j = job'")
      case False
      with that js(2) have "reserves P security j t \<subseteq> free_at P (slots_at (slots ss') ids') t" by simp
      with free show ?thesis by blast
    qed (use free in simp)
    ultimately show ?thesis using js(1) new(1) by (intro exI [of _ "job' # js"]) auto
  qed
qed simp

end

section \<open>Besteffort jobs\<close>

definition in_the_way :: "'p job list \<Rightarrow> (nat \<times> 'p job) list \<Rightarrow> nat \<times> int \<Rightarrow> int \<Rightarrow> bool" where
  "in_the_way jobs d x i \<longleftrightarrow> (\<exists>be job. map_of d (fst x) = Some be \<and>
     map_of (map (\<lambda>job. (job_id job, job)) jobs) (snd x) = Some job \<and>
     \<not> is_timesharing_for_two_jobs be job \<and> job_id be = i)"

lemma calling_user_environ: "db_environ v = db_environ w \<Longrightarrow> calling_user v x = calling_user w x"
  by (simp only: calling_user_def)

lemma event_keeps:
  "db_environ (add_new_event t i d c w) = db_environ w"
  "t_frags (add_new_event t i d c w) = t_frags w" "t_jobs (add_new_event t i d c w) = t_jobs w"
  by (simp_all add: add_new_event_def)

lemma kill_besteffort_frags:
  assumes "kill_besteffort be now w = Inr w'" and "calling_user w None = Inr u" "privileged u"
  shows "(\<exists>f \<in> set (t_frags w'). f_job f = job_id be) \<and> set (t_frags w) \<subseteq> set (t_frags w') \<and>
    (\<forall>f \<in> set (t_frags w') - set (t_frags w). f_job f = job_id be) \<and> t_jobs w' = t_jobs w \<and>
    calling_user w' None = Inr u"
proof -
  define v where "v = add_new_event ''BESTEFFORT_KILL'' (job_id be)
      (''kill the besteffort job '' @ int_str (job_id be)) ''YES'' w"
  have v: "t_frags v = t_frags w" "t_jobs v = t_jobs w" "calling_user v None = Inr u"
    using assms(2) calling_user_environ [of v w] by (simp_all add: v_def event_keeps)
  from assms(1) obtain row c where row: "get_job w (job_id be) = Some row"
    and fr: "frag_job (job_id be) None v = Inr (c, w')"
    by (auto simp: kill_besteffort_def row_of_def Let_def res_simps v_def split: option.splits if_splits)
  have "get_job v (job_id be) = Some row" using row v(2) by (simp add: get_job_def)
  let ?new = "add_new_event ''FRAG_JOB_REQUEST'' (job_id be)
      (''User '' @ u @ '' requested to frag the job '' @ int_str (job_id be)) ''YES''
      (v\<lparr>t_frags := t_frags v @ [\<lparr>f_job = job_id be, f_date = get_date v, f_state = ''LEON''\<rparr>]\<rparr>)"
  have w': "w' = (if filter (\<lambda>f. f_job f = job_id be) (t_frags v) = [] then ?new else v)"
    using fr v(3) assms(3) \<open>get_job v (job_id be) = Some row\<close> by (auto simp: frag_job_def)
  have "db_environ ?new = db_environ v" and new: "t_jobs ?new = t_jobs v"
      "t_frags ?new = t_frags v @ [\<lparr>f_job = job_id be, f_date = get_date v, f_state = ''LEON''\<rparr>]"
    by (simp_all only: event_keeps) simp_all
  from calling_user_environ [OF this(1)] v(3) have "calling_user ?new None = Inr u" by simp
  thus ?thesis
    using v w' new by (cases "filter (\<lambda>f. f_job f = job_id be) (t_frags v)")
      (auto simp: filter_eq_Cons_iff)
qed

lemma besteffort_fold:
  assumes "fold_res (check_besteffort_job jobs now d) xs (fragged, w) = Inr (fragged', w')"
    and "calling_user w None = Inr u" "privileged u"
    and "\<forall>i \<in> set fragged. \<exists>f \<in> set (t_frags w). f_job f = i"
  shows "(\<forall>i. i \<in> set fragged' \<longleftrightarrow> i \<in> set fragged \<or> (\<exists>x \<in> set xs. in_the_way jobs d x i)) \<and>
    (\<forall>i \<in> set fragged'. \<exists>f \<in> set (t_frags w'). f_job f = i) \<and> set (t_frags w) \<subseteq> set (t_frags w') \<and>
    (\<forall>f \<in> set (t_frags w') - set (t_frags w). \<exists>x \<in> set xs. in_the_way jobs d x (f_job f)) \<and>
    t_jobs w' = t_jobs w"
  using assms
proof (induction xs arbitrary: fragged w)
  case (Cons x xs)
  from Cons.prems(1) obtain f1 w1 where
    one: "check_besteffort_job jobs now d x (fragged, w) = Inr (f1, w1)"
    and rest: "fold_res (check_besteffort_job jobs now d) xs (f1, w1) = Inr (fragged', w')"
    by (auto simp: res_simps)
  have step: "(\<forall>i. i \<in> set f1 \<longleftrightarrow> i \<in> set fragged \<or> in_the_way jobs d x i) \<and>
    (\<forall>i \<in> set f1. \<exists>f \<in> set (t_frags w1). f_job f = i) \<and> set (t_frags w) \<subseteq> set (t_frags w1) \<and>
    (\<forall>f \<in> set (t_frags w1) - set (t_frags w). in_the_way jobs d x (f_job f)) \<and>
    t_jobs w1 = t_jobs w \<and> calling_user w1 None = Inr u"
  proof (cases "map_of d (fst x)")
    case None
    thus ?thesis using one Cons.prems by (auto simp: check_besteffort_job_def in_the_way_def split: prod.splits)
  next
    case (Some be)
    with one obtain job where job: "map_of (map (\<lambda>job. (job_id job, job)) jobs) (snd x) = Some job"
      by (auto simp: check_besteffort_job_def res_simps lookup_res_def split: prod.splits option.splits)
    show ?thesis
    proof (cases "is_timesharing_for_two_jobs be job \<or> job_id be \<in> set fragged")
      case True
      thus ?thesis using one Some job Cons.prems
        by (auto simp: check_besteffort_job_def in_the_way_def lookup_res_def split: prod.splits)
    next
      case False
      with one Some job obtain w2 where k: "kill_besteffort be now w = Inr w2" "f1 = fragged @ [job_id be]" "w1 = w2"
        by (auto simp: check_besteffort_job_def lookup_res_def res_simps split: prod.splits)
      note fr = kill_besteffort_frags [OF k(1) Cons.prems(2,3)]
      hence "\<forall>i \<in> set fragged. \<exists>f \<in> set (t_frags w2). f_job f = i" using Cons.prems(4) by blast
      with fr k False Some job show ?thesis by (auto simp: in_the_way_def)
    qed
  qed
  from step Cons.IH [OF rest _ Cons.prems(3)] show ?case by auto
qed auto

section \<open>What a round cannot do\<close>

lemma walltime_options_differ: "\<not> (walltime_enabled conf \<and> conf ''WALLTIME_CHANGE_ENABLED'' = Some (Conf_str ''yes''))"
  by (auto simp: walltime_enabled_def)

text \<open>An example: the resources 1 to 4, and a user who may do everything.\<close>

definition meta_db :: db where
  "meta_db = empty_db\<lparr>db_now := 20, db_environ := (\<lambda>k. if k = ''OARDO_USER'' then Some ''oar'' else None),
     db_config := (\<lambda>k. if k = ''METASCHEDULER_OAR3_WITH_OAR2'' then Some ''no'' else None),
     t_jobs := [example_job_row\<lparr>j_id := 1, j_state := ''Waiting'', j_reservation := ''Scheduled''\<rparr>],
     t_moldables := [\<lparr>m_id = 1, m_job = 1, m_walltime = 100, m_index = ''CURRENT''\<rparr>],
     t_predictions := [\<lparr>p_mld = 1, p_start = 15\<rparr>], t_gantt := [\<lparr>g_mld = 1, g_res = 1\<rparr>]\<rparr>"

definition meta_world :: "rat world" where
  "meta_world = \<lparr>wd_bipbip = (\<lambda>i. True), wd_tcp = (\<lambda>a p t. 1), wd_hulot = True, wd_local = (\<lambda>t. int_str t),
     wd_scheduler = (\<lambda>p q t w. (None, w)), wd_script = (\<lambda>s i. Some 0), wd_eval = (\<lambda>s. Inl ValueError),
     wd_conf = (\<lambda>k. None), wd_json = (\<lambda>s. Inl Raised_exception), wd_date = (\<lambda>s. (True, 0))\<rparr>"

definition meta_state :: "db \<Rightarrow> nat list meta" where
  "meta_state w = \<lparr>m_db = w, m_env = example_sched, m_sets = [(''default'', example_slots)], m_launched = []\<rparr>"

definition meta_set :: "nat list resource_set" where
  "meta_set = \<lparr>rs_nb_all = 4, rs_nb_not_dead = 4, rs_nb_default_not_dead = 4, rs_nb = 0, rs_nb_default = 1,
     rs_i2o = (\<lambda>i. i), rs_o2i = (\<lambda>i. i), rs_network_address = [],
     rs_hierarchy = [(''resource_id'', [[1], [2], [3], [4]])],
     rs_available_upto = [], rs_roid_itvs = [1, 2, 3, 4], rs_suspendable_roid_itvs = [], rs_default_itvs = [1, 2, 3, 4]\<rparr>"

definition reservation_job :: "int \<Rightarrow> int \<Rightarrow> int \<Rightarrow> nat list job" where
  "reservation_job i start n = (job_pseudo i start 0 [] False No_placeholder)
     \<lparr>walltime := None, res_set := None, mld_res_rqts := [(i, 160, [([(''resource_id'', n)], [1, 2, 3, 4])])]\<rparr>"

section \<open>Launching\<close>

text \<open>The tables but those of the resources and of the events, which the priorities change.\<close>

definition core :: "db \<Rightarrow> db" where
  "core w = w\<lparr>t_resources := [], t_events := []\<rparr>"

lemma core_fields:
  assumes "core v = core w"
  shows "t_jobs v = t_jobs w" "t_moldables v = t_moldables w" "t_assigned v = t_assigned w"
    "t_gantt v = t_gantt w" "t_predictions v = t_predictions w" "db_outbox v = db_outbox w"
  using arg_cong [OF assms, of t_jobs] arg_cong [OF assms, of t_moldables] arg_cong [OF assms, of t_assigned]
    arg_cong [OF assms, of t_gantt] arg_cong [OF assms, of t_predictions] arg_cong [OF assms, of db_outbox]
  by (simp_all add: core_def)

lemma core_priority_levels: "core (fst (priority_levels gs i incr c mid w)) = core w"
  by (induction gs i incr c mid w rule: priority_levels.induct) (simp_all add: Let_def core_def)

lemma core_priority: "core (update_current_scheduler_priority job incr st w) = core w"
proof (cases "db_config w ''SCHEDULER_PRIORITY_HIERARCHY_ORDER''")
  case (Some order)
  let ?levels = "\<lambda>c. priority_levels (split_on (CHR ''/'') order) 0 incr c (j_assigned_moldable_job job) w"
  have "core (case ?levels c of (w1, completed) \<Rightarrow> if completed then add_new_event t i d x w1 else w1) = core w"
    for c t i d x
    using core_priority_levels [of "split_on (CHR ''/'') order" 0 incr c "j_assigned_moldable_job job" w]
    by (cases "?levels c") (simp add: core_def add_new_event_def Let_def)
  thus ?thesis by (simp add: update_current_scheduler_priority_def Some Let_def)
qed (simp add: update_current_scheduler_priority_def)

lemma to_launch_form:
  defines "marked w i \<equiv> w\<lparr>t_jobs := sql_update (settable i ''toLaunch'') (\<lambda>j. j\<lparr>j_state := ''toLaunch''\<rparr>) (t_jobs w)\<rparr>"
  shows "\<exists>logs. core (set_job_state i ''toLaunch'' w) = core ((marked w i)\<lparr>t_state_logs := logs\<rparr>)"
proof -
  have "\<exists>logs. core (marked w i) = core ((marked w i)\<lparr>t_state_logs := logs\<rparr>)"
    by (intro exI [of _ "t_state_logs (marked w i)"]) simp
  moreover have "\<exists>logs. core (log_state i ''toLaunch'' d (marked w i)) = core ((marked w i)\<lparr>t_state_logs := logs\<rparr>)" for d
    by (auto simp: log_state_def Let_def)
  ultimately show ?thesis
    by (auto simp: set_job_state_def Let_def marked_def core_priority after_state_def split: option.splits)
qed

lemma to_launch_tables:
  "t_jobs (set_job_state i ''toLaunch'' w) =
     sql_update (settable i ''toLaunch'') (\<lambda>j. j\<lparr>j_state := ''toLaunch''\<rparr>) (t_jobs w)"
  "t_moldables (set_job_state i ''toLaunch'' w) = t_moldables w"
  "t_assigned (set_job_state i ''toLaunch'' w) = t_assigned w"
proof -
  from to_launch_form [of i w] obtain logs where
    "core (set_job_state i ''toLaunch'' w) = core (w\<lparr>t_jobs := sql_update (settable i ''toLaunch'')
       (\<lambda>j. j\<lparr>j_state := ''toLaunch''\<rparr>) (t_jobs w), t_state_logs := logs\<rparr>)" by blast
  from core_fields [OF this] show
    "t_jobs (set_job_state i ''toLaunch'' w) =
       sql_update (settable i ''toLaunch'') (\<lambda>j. j\<lparr>j_state := ''toLaunch''\<rparr>) (t_jobs w)"
    "t_moldables (set_job_state i ''toLaunch'' w) = t_moldables w"
    "t_assigned (set_job_state i ''toLaunch'' w) = t_assigned w" by simp_all
qed

lemma notify_tcp_tables:
  assumes "notify_tcp_socket W addr port text w = Inr (n, w')"
  shows "t_jobs w' = t_jobs w \<and> t_moldables w' = t_moldables w \<and> t_assigned w' = t_assigned w"
  using assms by (auto simp: notify_tcp_socket_def Let_def res_simps send_def)

lemma notify_to_run_tables:
  assumes "notify_to_run_job W i s = Inr s'"
  shows "t_jobs (m_db s') = t_jobs (m_db s) \<and> t_moldables (m_db s') = t_moldables (m_db s) \<and>
    t_assigned (m_db s') = t_assigned (m_db s)"
  using assms
  by (auto simp: notify_to_run_job_def notify_oar2_almighty_def res_simps send_def
      dest!: notify_tcp_tables split: if_splits)

lemma prepare_tables:
  assumes "prepare_job_to_be_launched W job now s = Inr s'"
  shows "t_moldables (m_db s') = t_moldables (m_db s)"
    "t_assigned (m_db s') = t_assigned (add_resource_job_pairs (moldable_id job) (m_db s))"
    "t_jobs (m_db s') = sql_update (settable (job_id job) ''toLaunch'') (\<lambda>j. j\<lparr>j_state := ''toLaunch''\<rparr>)
       (t_jobs (set_job_start_time_assigned_moldable_id (job_id job) now (moldable_id job) (m_db s)))"
  using assms
  by (auto simp: prepare_job_to_be_launched_def Let_def to_launch_tables add_resource_job_pairs_def
      set_job_start_time_assigned_moldable_id_def update_job_def dest!: notify_to_run_tables)

section \<open>Properties\<close>

text \<open>
  C3. Advance reservations are safe. When the slots are well formed, quotas are off and the fuel covers
  the slots that the reservations can create, every reservation that a round accepts is given resources
  that are free from its begin until its walltime, less the security time, is over, and no two of them
  share a resource at an instant of that time.
\<close>

theorem new_reservations_no_conflict:
  assumes "procset P" and "slot_set_ok (m_env s) ss ids b e" and "m_sets s = [(''default'', ss)]"
    and "3 ^ length jobs * last_id ss \<le> fuel" and "\<not> q_enabled (quotas_conf (m_env s))"
    and "\<forall>job \<in> set jobs. plain_reservation security job" and "0 < security" and "b \<le> now"
    and "fold_res (new_reservation P fuel rs security now) jobs (s, []) = Inr (s', accepted)"
  shows "(\<forall>job \<in> set accepted. \<forall>t. reserves P security job t \<subseteq> free_at P (slots_at (slots ss) ids) t) \<and>
    (\<forall>i < length accepted. \<forall>j < i. \<forall>t.
       reserves P security (accepted ! i) t \<inter> reserves P security (accepted ! j) t = {})"
  using procset.reservations_spec [OF assms(1,2) refl assms(3-9)] by auto

theorem new_reservations_no_conflict_witness:
  "\<exists>s' accepted. fold_res (new_reservation list_procset 50 meta_set 60 20)
      [reservation_job 1 30 2, reservation_job 2 50 2, reservation_job 3 60 2] (meta_state meta_db, []) =
      Inr (s', accepted) \<and> map start_time accepted = [30, 50] \<and>
    reserves list_procset 60 (accepted ! 1) 100 \<inter> reserves list_procset 60 (accepted ! 0) 100 = {}"
proof -
  let ?jobs = "[reservation_job 1 30 2, reservation_job 2 50 2, reservation_job 3 60 2]"
  let ?r = "fold_res (new_reservation list_procset 50 meta_set 60 20) ?jobs (meta_state meta_db, [])"
  have "case ?r of Inl e \<Rightarrow> False | Inr (s', accepted) \<Rightarrow> map start_time accepted = [30, 50]"
    by code_simp
  then obtain s' accepted where r: "?r = Inr (s', accepted)" and two: "map start_time accepted = [30, 50]"
    by (auto split: sum.splits prod.splits)
  have sets: "m_sets (meta_state meta_db) = [(''default'', example_slots)]" by (simp add: meta_state_def)
  have ok: "slot_set_ok (m_env (meta_state meta_db)) example_slots [1] 0 1000"
    using example_slots_ok by (simp add: meta_state_def)
  have fuel: "3 ^ length ?jobs * last_id example_slots \<le> 50" by (simp add: example_slots_def)
  have off: "\<not> q_enabled (quotas_conf (m_env (meta_state meta_db)))"
    by (simp add: meta_state_def example_sched_def)
  have plain: "\<forall>job \<in> set ?jobs. plain_reservation 60 job"
    by (simp add: plain_reservation_def reservation_job_def job_pseudo_def)
  have "length accepted = 2" using two by (auto dest: arg_cong [of _ _ length])
  with new_reservations_no_conflict [OF list_ps.procset_axioms ok sets fuel off plain _ _ r] r two show ?thesis
    by auto
qed

text \<open>
  C9. Besteffort jobs in the way are killed, all of them and only them: after the check, each besteffort
  job that holds a resource of a job to launch has a request of deletion, every new request is for such a
  job, and the answer tells whether there was one. The hypotheses: the check returned, and the
  metascheduler runs as a privileged user.
\<close>

theorem besteffort_jobs_killed:
  assumes "check_besteffort_jobs_to_kill jobs rid2jid now d w = Inr (code, w')"
    and "calling_user w None = Inr u" and "privileged u"
  shows "(code = 1 \<longleftrightarrow> (\<exists>i. \<exists>x \<in> set rid2jid. in_the_way jobs d x i)) \<and>
    (\<forall>i. \<forall>x \<in> set rid2jid. in_the_way jobs d x i \<longrightarrow> (\<exists>f \<in> set (t_frags w'). f_job f = i)) \<and>
    (\<forall>f \<in> set (t_frags w') - set (t_frags w). \<exists>x \<in> set rid2jid. in_the_way jobs d x (f_job f)) \<and>
    t_jobs w' = t_jobs w"
proof -
  from assms(1) obtain fragged where
    r: "fold_res (check_besteffort_job jobs now d) rid2jid ([], w) = Inr (fragged, w')"
    and code: "code = (if fragged \<noteq> [] then 1 else 0)"
    by (auto simp: check_besteffort_jobs_to_kill_def res_simps)
  from besteffort_fold [OF r assms(2,3)] have
    "\<forall>i. i \<in> set fragged \<longleftrightarrow> (\<exists>x \<in> set rid2jid. in_the_way jobs d x i)"
    and rest: "\<forall>i \<in> set fragged. \<exists>f \<in> set (t_frags w'). f_job f = i"
      "\<forall>f \<in> set (t_frags w') - set (t_frags w). \<exists>x \<in> set rid2jid. in_the_way jobs d x (f_job f)"
      "t_jobs w' = t_jobs w" by auto
  moreover have "code = 1 \<longleftrightarrow> (\<exists>i. i \<in> set fragged)" using code by (cases fragged) auto
  ultimately show ?thesis by auto
qed

theorem besteffort_jobs_killed_witness:
  "\<exists>w'. check_besteffort_jobs_to_kill [run_job 30 50 [2]] [(2, 1)] 20
      [(2, (run_job 0 100 [2])\<lparr>job_id := 1\<rparr>)] meta_db = Inr (1, w') \<and> (\<exists>f \<in> set (t_frags w'). f_job f = 1)"
proof -
  let ?r = "check_besteffort_jobs_to_kill [run_job 30 50 [2]] [(2, 1)] 20
      [(2, (run_job 0 100 [2])\<lparr>job_id := 1\<rparr>)] meta_db"
  have "case ?r of Inl e \<Rightarrow> False | Inr (c, w') \<Rightarrow> c = 1" by code_simp
  then obtain w' where r: "?r = Inr (1, w')" by (auto split: sum.splits prod.splits)
  have user: "calling_user meta_db None = Inr ''oar''" by (simp add: calling_user_def meta_db_def)
  have "in_the_way [run_job 30 50 [2]] [(2, (run_job 0 100 [2])\<lparr>job_id := 1\<rparr>)] (2, 1) 1"
    by (simp add: in_the_way_def run_job_def job_pseudo_def is_timesharing_for_two_jobs_def)
  with besteffort_jobs_killed [OF r user] r show ?thesis by (fastforce simp: privileged_def)
qed

text \<open>
  A besteffort job that asked to be checkpointed before it is killed stops the metascheduler: as long
  as no checkpoint was asked, the round raises \<open>NotImplementedError\<close> when the resources of the job are
  needed.
\<close>

theorem checkpointed_besteffort_raises:
  assumes "map_of d rid = Some be" and "map_of (map (\<lambda>job. (job_id job, job)) jobs) jid = Some job"
    and "\<not> is_timesharing_for_two_jobs be job" and "job_id be \<notin> set fragged"
    and "get_job w (job_id be) = Some row" and "0 < j_checkpoint row"
    and "\<forall>ev \<in> set (get_job_events (job_id be) w). e_type ev \<noteq> ''CHECKPOINT''"
  shows "check_besteffort_job jobs now d (rid, jid) (fragged, w) = Inl NotImplementedError"
proof -
  have "filter (\<lambda>e. e_type e = ''CHECKPOINT'') (get_job_events (job_id be) w) = []"
    using assms(7) by (simp add: filter_empty_conv)
  thus ?thesis
    using assms(1-6) by (simp add: check_besteffort_job_def kill_besteffort_def row_of_def lookup_res_def Let_def)
qed

theorem checkpointed_besteffort_raises_witness:
  "check_besteffort_job [run_job 30 50 [2]] 20 [(2, run_job 0 100 [2])] (2, 1)
     ([], meta_db\<lparr>t_jobs := [example_job_row\<lparr>j_checkpoint := 60\<rparr>]\<rparr>) = Inl NotImplementedError"
  by (rule checkpointed_besteffort_raises [where be = "run_job 0 100 [2]" and job = "run_job 30 50 [2]"
        and row = "example_job_row\<lparr>j_checkpoint := 60\<rparr>"])
    (simp_all add: run_job_def job_pseudo_def is_timesharing_for_two_jobs_def get_job_def example_job_row_def
      get_job_events_def meta_db_def empty_db_def)

text \<open>
  C37. Changes of walltime are never both accepted and applied: whatever the configuration, either a round
  leaves the requests alone, or every request is refused as not available.
\<close>

theorem walltime_changes_never_applied:
  "walltime_phase W w = Inr w \<or>
   (\<forall>jid user t force delay v. request (wd_eval W) (wd_conf W) jid user t force delay v =
      Inr ((5, 405, ''not available'', Functionality_disabled), v))"
  using walltime_options_differ [of "wd_conf W"] by (auto simp: walltime_phase_def request_def)

text \<open>
  A reservation launched late gets a longer walltime, not a shorter one: the reduction starts from the
  walltime of the schedulers, which includes the security time. Launched \<open>late\<close> seconds after its begin, a
  job whose walltime was \<open>wt\<close> has \<open>wt + security - late\<close>.
\<close>

theorem late_reservation_gains:
  assumes "get_job w (job_id job) = Some row" and "j_reservation row = ''Scheduled''"
    and "walltime job = Some (wt + security)" and "start_time job < now"
    and "m \<in> set (t_moldables w)" and "m_id m = moldable_id job"
    and "handle_job_to_launch W now job (s\<lparr>m_db := w\<rparr>) = Inr s'"
  shows "\<exists>m' \<in> set (t_moldables (m_db s')). m_id m' = m_id m \<and>
    m_walltime m' = wt + security - (now - start_time job)"
proof -
  define v where "v = replace_in_message (CHR ''W'') 3 (duration_to_sql (wt + security - (now - start_time job)))
     (job_id job) (j_message row) (add_new_event ''REDUCE_RESERVATION_WALLTIME'' (job_id job)
       (''Change walltime from '' @ int_str (wt + security) @ '' to '' @
        int_str (wt + security - (now - start_time job))) ''YES''
       (set_gantt_job_start_time (moldable_id job) now
         (set_moldable_job_max_time (moldable_id job) (wt + security - (now - start_time job)) w)))"
  have "prepare_job_to_be_launched W job now (s\<lparr>m_db := v\<rparr>) = Inr s'"
    using assms(7) assms(1-4) by (simp add: handle_job_to_launch_def row_of_def Let_def v_def)
  from prepare_tables(1) [OF this] have "t_moldables (m_db s') = t_moldables v" by simp
  also have "\<dots> = sql_update (\<lambda>m. m_id m = moldable_id job)
      (\<lambda>m. m\<lparr>m_walltime := wt + security - (now - start_time job)\<rparr>) (t_moldables w)"
    by (simp add: v_def replace_in_message_def set_job_message_def update_job_def add_new_event_def
        set_gantt_job_start_time_def set_moldable_job_max_time_def Let_def)
  finally have eq: "t_moldables (m_db s') = sql_update (\<lambda>m. m_id m = moldable_id job)
      (\<lambda>m. m\<lparr>m_walltime := wt + security - (now - start_time job)\<rparr>) (t_moldables w)" .
  have "m\<lparr>m_walltime := wt + security - (now - start_time job)\<rparr> \<in> set (t_moldables (m_db s'))"
    unfolding eq set_sql_update using assms(5,6) by force
  thus ?thesis by (rule rev_bexI) simp
qed

theorem late_reservation_gains_witness:
  "\<exists>s'. handle_job_to_launch meta_world 20 ((run_job 15 160 [1])\<lparr>moldable_id := 1\<rparr>)
       ((meta_state meta_db)\<lparr>m_db := meta_db\<rparr>) = Inr s' \<and>
    (\<exists>m' \<in> set (t_moldables (m_db s')). m_id m' = 1 \<and> m_walltime m' = 155)"
proof -
  let ?job = "(run_job 15 160 [1])\<lparr>moldable_id := 1\<rparr>"
  let ?r = "handle_job_to_launch meta_world 20 ?job ((meta_state meta_db)\<lparr>m_db := meta_db\<rparr>)"
  have "case ?r of Inl e \<Rightarrow> False | Inr s' \<Rightarrow> True" by code_simp
  then obtain s' where r: "?r = Inr s'" by (auto split: sum.splits)
  have row: "get_job meta_db (job_id ?job) =
      Some (example_job_row\<lparr>j_id := 1, j_state := ''Waiting'', j_reservation := ''Scheduled''\<rparr>)"
    by (simp add: get_job_def meta_db_def run_job_def job_pseudo_def)
  from late_reservation_gains [OF row, of 100 60 20 "\<lparr>m_id = 1, m_job = 1, m_walltime = 100, m_index = ''CURRENT''\<rparr>", OF _ _ _ _ _ r]
  show ?thesis using r by (simp add: run_job_def job_pseudo_def meta_db_def)
qed

text \<open>
  C10. A job that is launched is ready for the launcher: it is in \<open>toLaunch\<close>, starts now, has the alternative
  that was chosen for it, and all the resources of its place in the gantt tables are assigned to it.
\<close>

theorem launched_job_ready:
  assumes "prepare_job_to_be_launched W job now s = Inr s'"
    and "j \<in> set (t_jobs (m_db s))" and "j_id j = job_id job" and "j_state j = ''Waiting''"
  shows "(\<exists>j' \<in> set (t_jobs (m_db s')). j_id j' = j_id j \<and> j_state j' = ''toLaunch'' \<and> j_start_time j' = now \<and>
      j_assigned_moldable_job j' = moldable_id job) \<and>
    (\<forall>g \<in> set (t_gantt (m_db s)). g_mld g = moldable_id job \<longrightarrow>
      \<lparr>a_mld = moldable_id job, a_res = g_res g, a_index = ''CURRENT''\<rparr> \<in> set (t_assigned (m_db s')))"
proof
  show "\<exists>j' \<in> set (t_jobs (m_db s')). j_id j' = j_id j \<and> j_state j' = ''toLaunch'' \<and> j_start_time j' = now \<and>
      j_assigned_moldable_job j' = moldable_id job"
  proof -
    let ?k = "j\<lparr>j_start_time := now, j_assigned_moldable_job := moldable_id job\<rparr>"
    have "?k \<in> set (t_jobs (set_job_start_time_assigned_moldable_id (job_id job) now (moldable_id job) (m_db s)))"
      using assms(2,3)
      by (auto simp: set_job_start_time_assigned_moldable_id_def update_job_def set_sql_update intro!: exI [of _ j])
    moreover have "settable (job_id job) ''toLaunch'' ?k" using assms(3,4) by (simp add: settable_def)
    ultimately have "?k\<lparr>j_state := ''toLaunch''\<rparr> \<in> set (t_jobs (m_db s'))"
      unfolding prepare_tables(3) [OF assms(1)] set_sql_update by force
    thus ?thesis by (rule rev_bexI) simp
  qed
  show "\<forall>g \<in> set (t_gantt (m_db s)). g_mld g = moldable_id job \<longrightarrow>
      \<lparr>a_mld = moldable_id job, a_res = g_res g, a_index = ''CURRENT''\<rparr> \<in> set (t_assigned (m_db s'))"
    unfolding prepare_tables(2) [OF assms(1)]
    by (auto simp: add_resource_job_pairs_def insert_rows_def filter_empty_conv)
qed

theorem launched_job_ready_witness:
  "\<exists>s'. prepare_job_to_be_launched meta_world ((run_job 15 160 [1])\<lparr>moldable_id := 1\<rparr>) 20 (meta_state meta_db) = Inr s' \<and>
    (\<exists>j' \<in> set (t_jobs (m_db s')). j_id j' = 1 \<and> j_state j' = ''toLaunch'' \<and> j_start_time j' = 20) \<and>
    \<lparr>a_mld = 1, a_res = 1, a_index = ''CURRENT''\<rparr> \<in> set (t_assigned (m_db s'))"
proof -
  let ?job = "(run_job 15 160 [1])\<lparr>moldable_id := 1\<rparr>"
  let ?r = "prepare_job_to_be_launched meta_world ?job 20 (meta_state meta_db)"
  have "case ?r of Inl e \<Rightarrow> False | Inr s' \<Rightarrow> True" by code_simp
  then obtain s' where r: "?r = Inr s'" by (auto split: sum.splits)
  let ?row = "example_job_row\<lparr>j_id := 1, j_state := ''Waiting'', j_reservation := ''Scheduled''\<rparr>"
  have "?row \<in> set (t_jobs (m_db (meta_state meta_db)))" "\<lparr>g_mld = 1, g_res = 1\<rparr> \<in> set (t_gantt (m_db (meta_state meta_db)))"
    by (simp_all add: meta_db_def meta_state_def)
  moreover from launched_job_ready [OF r this(1)] have
    "\<exists>j' \<in> set (t_jobs (m_db s')). j_id j' = 1 \<and> j_state j' = ''toLaunch'' \<and> j_start_time j' = 20"
    "\<forall>g \<in> set (t_gantt (m_db (meta_state meta_db))). g_mld g = 1 \<longrightarrow>
      \<lparr>a_mld = 1, a_res = g_res g, a_index = ''CURRENT''\<rparr> \<in> set (t_assigned (m_db s'))"
    by (auto simp: run_job_def job_pseudo_def)
  ultimately show ?thesis using r by fastforce
qed

end
