(* ===== verification/Hulot_Props.thy ===== *)
theory Hulot_Props
  imports Hulot
begin

text \<open>
  What the turns of Hulot keep: the well-formedness of its state (\<open>hulot_ok\<close>), from which no turn raises but for
  named reasons; the number of nodes that stay alive; and the fate of a node whose halt failed.
\<close>

section \<open>The state of Hulot\<close>

definition halts :: "node_executor list \<Rightarrow> string list" where
  "halts xs = map ne_node (filter (\<lambda>x. ne_cmd x = ''HALT'') xs)"

definition halting :: "node_commands \<Rightarrow> string \<Rightarrow> bool" where
  "halting running n \<longleftrightarrow> (\<exists>t. map_of running n = Some (''HALT'', t))"

definition hulot_ok :: "hulot_state \<Rightarrow> bool" where
  "hulot_ok h \<longleftrightarrow> distinct (map fst (hu_running h)) \<and> distinct (halts (hu_executors h)) \<and>
     list_all (halting (hu_running h)) (halts (hu_executors h)) \<and>
     list_all (\<lambda>x. ne_id x < hu_next h) (hu_executors h)"

lemma ex_bool [simp]: "\<exists>b. b" "Ex Not"
  by (rule exI [of _ True], simp) (rule exI [of _ False], simp)

lemma halts_simps [simp]:
  "halts [] = []"
  "halts (x # xs) = (if ne_cmd x = ''HALT'' then ne_node x # halts xs else halts xs)"
  "halts (xs @ ys) = halts xs @ halts ys"
  by (simp_all add: halts_def)

lemma map_of_delete [simp]: "map_of (AList.delete k al) i = (if i = k then None else map_of al i)"
  by (simp add: delete_conv')

lemma map_of_fold_delete: "map_of (fold AList.delete ks al) i = (if i \<in> set ks then None else map_of al i)"
  by (induction ks arbitrary: al) auto

lemma set_fold_delete: "set (fold AList.delete ks al) \<subseteq> set al"
proof (induction ks arbitrary: al)
  case (Cons k ks)
  have "set (AList.delete k al) \<subseteq> set al" by (auto simp: AList.delete_eq)
  thus ?case using Cons.IH [of "AList.delete k al"] by simp
qed simp

lemma distinct_fold_delete: "distinct (map fst al) \<Longrightarrow> distinct (map fst (fold AList.delete ks al))"
  by (induction ks arbitrary: al) (auto simp: distinct_delete)

lemma halting_cong: "map_of r n = map_of r' n \<Longrightarrow> halting r n = halting r' n"
  by (simp add: halting_def)

lemma check_executor_running:
  assumes "check_executor status d x (running, w) = Inr (gone, running', w')"
  shows "(running' = running \<or> ne_cmd x = ''HALT'' \<and> gone \<and> running' = AList.delete (ne_node x) running)"
  using assms
  by (auto simp: check_executor_def del_res_def res_simps split: exec_status.splits if_splits)

lemma check_executors_running:
  assumes "check_executors status d xs (running, w) = Inr (kept, running', w')" "distinct (halts xs)"
    and "list_all (halting running) (halts xs)"
  shows "set kept \<subseteq> set xs \<and> distinct (halts kept) \<and> set (halts kept) \<subseteq> set (halts xs) \<and>
     list_all (halting running') (halts kept) \<and>
     (\<forall>n. n \<notin> set (halts xs) \<longrightarrow> map_of running' n = map_of running n) \<and>
     (distinct (map fst running) \<longrightarrow> distinct (map fst running'))"
  using assms
proof (induction xs arbitrary: running w kept running' w')
  case (Cons x xs)
  from Cons.prems(1) obtain gone r1 w1 kept1 where
    x: "check_executor status d x (running, w) = Inr (gone, r1, w1)" and
    xs: "check_executors status d xs (r1, w1) = Inr (kept1, running', w')" and
    kept: "kept = (if gone then kept1 else x # kept1)"
    by (auto simp: res_simps split: if_splits)
  have r1: "r1 = running \<or> ne_cmd x = ''HALT'' \<and> gone \<and> r1 = AList.delete (ne_node x) running"
    by (rule check_executor_running [OF x])
  have "list_all (halting r1) (halts xs)"
    using r1 Cons.prems(2,3) by (auto simp: list_all_iff halting_def split: if_splits)
  moreover have "distinct (halts xs)" using Cons.prems(2) by (simp split: if_splits)
  ultimately have IH: "set kept1 \<subseteq> set xs" "distinct (halts kept1)" "set (halts kept1) \<subseteq> set (halts xs)"
     "list_all (halting running') (halts kept1)"
     "\<And>n. n \<notin> set (halts xs) \<Longrightarrow> map_of running' n = map_of r1 n"
     "distinct (map fst r1) \<Longrightarrow> distinct (map fst running')"
    using Cons.IH [OF xs] by blast+
  have "distinct (map fst r1)" if "distinct (map fst running)"
    using r1 that by (auto simp: distinct_delete)
  moreover have "map_of running' n = map_of running n" if "n \<notin> set (halts (x # xs))" for n
    using IH(5) [of n] r1 that by (auto split: if_splits)
  moreover have "halting running' (ne_node x)" if "\<not> gone" "ne_cmd x = ''HALT''"
    using IH(5) [of "ne_node x"] r1 that Cons.prems(2,3) by (simp add: halting_def)
  ultimately show ?case
    using IH Cons.prems(2) by (auto simp: kept)
qed simp

lemma check_executors_total:
  assumes "\<And>i r. status i = Ready r \<or> status i = Late_ready r \<Longrightarrow> \<exists>c. r = Inr c"
    and "distinct (halts xs)" "list_all (halting running) (halts xs)"
  shows "\<exists>r. check_executors status d xs (running, w) = Inr r"
  using assms(2,3)
proof (induction xs arbitrary: running w)
  case (Cons x xs)
  have node: "ne_node x \<in> fst ` set running" if "ne_cmd x = ''HALT''"
    using Cons.prems(2) that by (force simp: halting_def dest: map_of_SomeD)
  have "\<exists>r. check_executor status d x (running, w) = Inr r"
  proof (cases "status (ne_id x)")
    case Not_ready
    thus ?thesis using node by (simp add: check_executor_def del_res_def)
  next
    case (Ready r)
    then obtain c where "r = Inr c" using assms(1) by blast
    thus ?thesis using Ready node by (simp add: check_executor_def del_res_def)
  next
    case (Late_ready r)
    then obtain c where "r = Inr c" using assms(1) by blast
    thus ?thesis using Late_ready by (simp add: check_executor_def)
  qed
  hence "\<exists>gone r1 w1. check_executor status d x (running, w) = Inr (gone, r1, w1)" by auto
  then obtain gone r1 w1 where x: "check_executor status d x (running, w) = Inr (gone, r1, w1)" by blast
  have "list_all (halting r1) (halts xs)"
    using check_executor_running [OF x] Cons.prems
    by (auto simp: list_all_iff halting_def split: if_splits)
  moreover have "distinct (halts xs)" using Cons.prems(1) by (simp split: if_splits)
  ultimately obtain r where "check_executors status d xs (r1, w1) = Inr r" using Cons.IH by blast
  thus ?case using x by (cases r) simp
qed simp

section \<open>The requests\<close>

lemma update_keys [simp]:
  "fst ` set (AList.update k v al) = insert k (fst ` set al)"
  "distinct (map fst al) \<Longrightarrow> distinct (map fst (AList.update k v al))"
  by (simp_all add: dom_update distinct_update)

lemma wake_nodes_key:
  "x \<in> fst ` set (wake_nodes can_wake running k ns P) \<Longrightarrow> x \<in> fst ` set P \<or> x \<notin> fst ` set running"
proof (induction can_wake running k ns P rule: wake_nodes.induct)
  case (2 can_wake running k node nodes P)
  show ?case
  proof (cases "k \<ge> 0 \<or> node \<notin> set can_wake \<or> node \<in> fst ` set running")
    case True
    thus ?thesis using 2 by (simp split: if_splits)
  next
    case False
    thus ?thesis using 2(1,3) by (simp split: if_splits) blast
  qed
qed simp

lemma wake_nodes_keys:
  "fst ` set (wake_nodes can_wake running k ns P) \<subseteq> fst ` set P \<union> - fst ` set running"
  "distinct (map fst P) \<Longrightarrow> distinct (map fst (wake_nodes can_wake running k ns P))"
  using wake_nodes_key apply blast
  by (induction can_wake running k ns P rule: wake_nodes.induct) simp_all

lemma check_groups_keys:
  assumes "fold_res (check_group Q running w) groups (gs, P) = Inr (gs', P')"
    and "fst ` set P \<inter> fst ` set running = {}" "distinct (map fst P)"
  shows "fst ` set P' \<inter> fst ` set running = {} \<and> distinct (map fst P')"
  using assms
proof (induction groups arbitrary: gs P)
  case (Cons g groups)
  then obtain gs1 P1 where 1: "check_group Q running w g (gs, P) = Inr (gs1, P1)"
    "fold_res (check_group Q running w) groups (gs1, P1) = Inr (gs', P')"
    by (auto simp: res_simps)
  then obtain can_wake k ns where "P1 = wake_nodes can_wake running k ns P"
    by (auto simp: check_group_def res_simps Let_def split: prod.splits)
  hence "fst ` set P1 \<inter> fst ` set running = {}" "distinct (map fst P1)"
    using Cons.prems(2,3) wake_nodes_keys(1) [of can_wake running k ns P]
      wake_nodes_keys(2) [of P can_wake running k ns] by (blast, simp)
  thus ?case using Cons.IH 1(2) by blast
qed simp

text \<open>What the groups become, whatever is woken up.\<close>

definition refreshed :: "(string \<Rightarrow> db \<Rightarrow> string list res) \<Rightarrow> db \<Rightarrow> string \<times> keepalive_group \<Rightarrow> string \<times> keepalive_group \<Rightarrow> bool" where
  "refreshed Q w g g' \<longleftrightarrow> fst g' = fst g \<and> ka_min (snd g') = ka_min (snd g) \<and>
     Q (fst g) w = Inr (ka_nodes (snd g')) \<and>
     (\<exists>alive_nodes. Q (alive_condition (fst g)) w = Inr alive_nodes \<and>
        ka_idle (snd g') = int (length (filter (\<lambda>n. n \<notin> set (get_alive_nodes_with_jobs w)) alive_nodes)))"

lemma check_groups_refreshed:
  assumes "fold_res (check_group Q running w) groups (gs, P) = Inr (gs', P')"
  shows "\<exists>new. gs' = gs @ new \<and> list_all2 (refreshed Q w) groups new"
  using assms
proof (induction groups arbitrary: gs P)
  case (Cons g groups)
  then obtain gs1 P1 where 1: "check_group Q running w g (gs, P) = Inr (gs1, P1)"
    "fold_res (check_group Q running w) groups (gs1, P1) = Inr (gs', P')"
    by (auto simp: res_simps)
  then obtain g' where "gs1 = gs @ [g']" "refreshed Q w g g'"
    by (auto simp: check_group_def refreshed_def res_simps Let_def split: prod.splits)
  moreover obtain new where "gs' = gs1 @ new" "list_all2 (refreshed Q w) groups new"
    using Cons.IH [OF 1(2)] by blast
  ultimately show ?case by (intro exI [of _ "g' # new"]) simp
qed simp

lemma check_booting_removes:
  assumes "fold (check_booting up) entries (gone, ns, w) = (gone', ns', w')"
  shows "set gone' \<subseteq> set gone \<union> {n. \<exists>t. (n, ''WAKEUP'', t) \<in> set entries} \<and> set ns' \<subseteq> set ns"
  using assms
proof (induction entries arbitrary: gone ns w)
  case (Cons e es)
  obtain gone1 ns1 w1 where 1: "check_booting up e (gone, ns, w) = (gone1, ns1, w1)" by (cases "check_booting up e (gone, ns, w)")
  have "set gone1 \<subseteq> set gone \<union> {n. \<exists>t. (n, ''WAKEUP'', t) = e} \<and> set ns1 \<subseteq> set ns"
  proof -
    obtain node cmd t where e: "e = (node, cmd, t)" by (cases e)
    hence "gone1 = gone \<and> ns1 = ns \<or> cmd = ''WAKEUP'' \<and> gone1 = gone @ [node] \<and> (ns1 = ns \<or> ns1 = remove1 node ns)"
      using 1 by (simp add: check_booting_def del: append_assoc split: if_splits)
    thus ?thesis using set_remove1_subset [of node ns] by (elim disjE conjE) (simp_all add: e)
  qed
  moreover have "set gone' \<subseteq> set gone1 \<union> {n. \<exists>t. (n, ''WAKEUP'', t) \<in> set es} \<and> set ns' \<subseteq> set ns1"
    using Cons.IH Cons.prems 1 by simp
  moreover have "{n. \<exists>t. (n, ''WAKEUP'', t) \<in> set (e # es)} =
      {n. \<exists>t. (n, ''WAKEUP'', t) = e} \<union> {n. \<exists>t. (n, ''WAKEUP'', t) \<in> set es}" by auto
  ultimately show ?case by blast
qed simp

lemma reminded_keys:
  "fst ` set (check_reminded_list running remind P) = fst ` set P \<union> (fst ` set remind - fst ` set running)"
  "distinct (map fst P) \<Longrightarrow> distinct (map fst (check_reminded_list running remind P))"
proof -
  have *: "fst ` set (fold (\<lambda>(node, cmd, timeout) p. AList.update node (cmd, - 1) p) es P) = fst ` set P \<union> fst ` set es"
    "distinct (map fst P) \<Longrightarrow> distinct (map fst (fold (\<lambda>(node, cmd, timeout) p. AList.update node (cmd, - 1) p) es P))"
    for es P
    by (induction es arbitrary: P) (auto simp: split_beta)
  show "fst ` set (check_reminded_list running remind P) = fst ` set P \<union> (fst ` set remind - fst ` set running)"
    unfolding check_reminded_list_def * by (auto simp: image_iff)
  show "distinct (map fst P) \<Longrightarrow> distinct (map fst (check_reminded_list running remind P))"
    unfolding check_reminded_list_def by (rule *)
qed

lemma step_subset: "A' \<subseteq> A1 \<union> (N - R) \<Longrightarrow> A1 \<subseteq> A \<union> ({n} - R) \<Longrightarrow> A' \<subseteq> A \<union> (insert n N - R)"
  by blast

lemma receive_keys:
  assumes "fold (receive_node command running) ns (P, R) = (P', R')"
  shows "fst ` set P' \<subseteq> fst ` set P \<union> (set ns - fst ` set running)"
    and "distinct (map fst P) \<Longrightarrow> distinct (map fst P')"
    and "fst ` set R \<subseteq> fst ` set R'"
proof -
  have "fst ` set P' \<subseteq> fst ` set P \<union> (set ns - fst ` set running) \<and> (distinct (map fst P) \<longrightarrow> distinct (map fst P')) \<and>
      fst ` set R \<subseteq> fst ` set R'"
    using assms
  proof (induction ns arbitrary: P R)
    case (Cons n ns)
    obtain P1 R1 where 1: "receive_node command running n (P, R) = (P1, R1)" by fastforce
    have "fst ` set P1 \<subseteq> fst ` set P \<union> ({n} - fst ` set running) \<and>
      (distinct (map fst P) \<longrightarrow> distinct (map fst P1)) \<and> fst ` set R \<subseteq> fst ` set R1"
    proof (cases "map_of running n")
      case None
      hence "n \<notin> fst ` set running" by (simp add: map_of_eq_None_iff)
      moreover have "P1 = AList.update n (command, - 1) P" "R1 = R" using 1 None by (simp_all add: receive_node_def)
      ultimately show ?thesis by simp
    next
      case (Some c)
      hence "P1 = P" "R1 = R \<or> R1 = AList.update n (command, - 1) R"
        using 1 by (cases c, simp add: receive_node_def split: if_splits)+
      thus ?thesis by (elim disjE) (simp_all add: subset_insertI)
    qed
    moreover have ns: "fst ` set P' \<subseteq> fst ` set P1 \<union> (set ns - fst ` set running)"
      "distinct (map fst P1) \<longrightarrow> distinct (map fst P')" "fst ` set R1 \<subseteq> fst ` set R'"
      using Cons.IH [of P1 R1] Cons.prems 1 by simp_all
    ultimately show ?case
      using step_subset [of "fst ` set P'" "fst ` set P1" "set ns" "fst ` set running" "fst ` set P" n]
        order_trans [OF _ ns(3)] by simp
  qed simp
  thus "fst ` set P' \<subseteq> fst ` set P \<union> (set ns - fst ` set running)"
    "distinct (map fst P) \<Longrightarrow> distinct (map fst P')" "fst ` set R \<subseteq> fst ` set R'" by blast+
qed

section \<open>The commands\<close>

definition halted :: "string list \<Rightarrow> (string \<times> string) list \<Rightarrow> nat" where
  "halted nodes commands = length (filter (\<lambda>(cmd, node). cmd = ''HALT'' \<and> node \<in> set nodes) commands)"

text \<open>The groups after some commands.\<close>

definition left_group :: "(string \<times> string) list \<Rightarrow> string \<times> keepalive_group \<Rightarrow> string \<times> keepalive_group" where
  "left_group commands g = (fst g, (snd g)\<lparr>ka_idle := ka_idle (snd g) - int (halted (ka_nodes (snd g)) commands)\<rparr>)"

definition deadline_of :: "int \<Rightarrow> string \<times> string \<times> int \<Rightarrow> string \<times> string \<times> int" where
  "deadline_of t entry = (case entry of (node, cmd, old) \<Rightarrow> (node, cmd, if cmd = ''WAKEUP'' then t else old))"

lemma deadline_simps [simp]:
  "fst (deadline_of t e) = fst e" "fst (snd (deadline_of t e)) = fst (snd e)"
  by (simp_all add: deadline_of_def split: prod.splits)

definition command_of :: "string \<times> string \<times> int \<Rightarrow> string \<times> string" where
  "command_of entry = (fst (snd entry), fst entry)"

definition batch_ok :: "(string \<times> keepalive_group) list \<Rightarrow> node_commands \<Rightarrow> int \<Rightarrow> node_commands \<Rightarrow> batch \<Rightarrow> bool" where
  "batch_ok groups running deadline entries b \<longleftrightarrow>
     ba_process b = map (deadline_of deadline) entries \<and> ba_running b = running \<and>
     set (ba_launch b) \<subseteq> command_of ` set entries \<and>
     distinct (map snd (ba_launch b)) \<and> set (ba_removed b) \<subseteq> fst ` set entries \<and>
     set (ba_removed b) \<inter> snd ` set (ba_launch b) = {} \<and>
     ba_keepalive b = map (left_group (ba_launch b)) groups \<and>
     (\<forall>g \<in> set groups. halted (ka_nodes (snd g)) (ba_launch b) > 0 \<longrightarrow>
        ka_min (snd g) \<le> ka_idle (snd g) - int (halted (ka_nodes (snd g)) (ba_launch b)))"

lemma left_group_snoc:
  "left_group (commands @ [(''WAKEUP'', node)]) g = left_group commands g"
  "left_group (commands @ [(''HALT'', node)]) g = leave_group node (left_group commands g)"
  by (simp_all add: left_group_def leave_group_def halted_def)

lemma date_change_node_state [simp]: "get_date (change_node_state node state w) = get_date w"
  by (simp add: change_node_state_def set_node_nextState_def notify_almighty_def get_date_def)

lemma process_node_ok:
  assumes "batch_ok groups running (get_date (ba_db b) + t) entries b" "\<not> ba_unknown (process_node t e b)"
    and "fst e \<notin> fst ` set entries" "fst e \<notin> fst ` set running"
  shows "batch_ok groups running (get_date (ba_db b) + t) (entries @ [e]) (process_node t e b) \<and>
    get_date (ba_db (process_node t e b)) = get_date (ba_db b)"
proof -
  obtain node cmd old where e: "e = (node, cmd, old)" by (cases e)
  note ok = assms(1) [unfolded batch_ok_def]
  have "set (ba_launch b) \<subseteq> command_of ` set entries" using ok by simp
  hence "snd ` set (ba_launch b) \<subseteq> snd ` command_of ` set entries" by (rule image_mono)
  hence "snd ` set (ba_launch b) \<subseteq> fst ` set entries" by (simp add: image_image command_of_def)
  hence fresh: "node \<notin> snd ` set (ba_launch b)" "node \<notin> set (ba_removed b)"
    using ok assms(3) unfolding e by auto
  have known: "\<not> ba_unknown b" using assms(2) by (auto simp: process_node_def e)
  then consider "cmd = ''WAKEUP''" | "cmd = ''HALT''" using assms(2) by (auto simp: process_node_def e split: if_splits)
  thus ?thesis
  proof cases
    case 1
    hence "process_node t e b = b\<lparr>ba_process := ba_process b @ [deadline_of (get_date (ba_db b) + t) e],
        ba_launch := ba_launch b @ [(''WAKEUP'', node)]\<rparr>"
      using known by (simp add: process_node_def e deadline_of_def)
    moreover have "left_group (ba_launch b @ [(''WAKEUP'', node)]) = left_group (ba_launch b)"
      "halted ns (ba_launch b @ [(''WAKEUP'', node)]) = halted ns (ba_launch b)" for ns
      by (simp_all add: left_group_snoc fun_eq_iff halted_def)
    ultimately show ?thesis
      using ok fresh 1 by (simp add: batch_ok_def e command_of_def subset_insertI2)
  next
    case 2
    show ?thesis
    proof (cases "filter (kept_alive node) (ba_keepalive b) = []")
      case False
      have "process_node t e b = b\<lparr>ba_process := ba_process b @ [e],
          ba_removed := ba_removed b @ map (\<lambda>g. node) (filter (kept_alive node) (ba_keepalive b))\<rparr>"
        using known 2 False ok assms(4) by (cases b) (simp add: process_node_def e delete_id Let_def)
      moreover have "(\<lambda>g. node) ` A \<subseteq> {node}" for A :: "(string \<times> keepalive_group) set" by blast
      ultimately show ?thesis
        using ok fresh 2
        by (simp add: batch_ok_def e deadline_of_def command_of_def subset_insertI2 Int_Un_distrib2) blast
    next
      case True
      have above: "ka_min (snd g) \<le> ka_idle (snd g) - int (halted (ka_nodes (snd g)) (ba_launch b)) - 1"
        if "g \<in> set groups" "node \<in> set (ka_nodes (snd g))" for g
      proof -
        have "left_group (ba_launch b) g \<in> set (ba_keepalive b)" using ok that(1) by simp
        hence "\<not> kept_alive node (left_group (ba_launch b) g)" using True by (metis filter_empty_conv)
        thus ?thesis using that(2) by (simp add: kept_alive_def left_group_def)
      qed
      have step: "process_node t e b = b\<lparr>ba_process := ba_process b @ [e],
          ba_keepalive := map (leave_group node) (ba_keepalive b),
          ba_db := change_node_state node ''Absent'' (ba_db b), ba_launch := ba_launch b @ [(''HALT'', node)]\<rparr>"
        using known 2 True by (simp add: process_node_def e)
      have "halted (ka_nodes (snd g)) (ba_launch b @ [(''HALT'', node)]) > 0 \<longrightarrow>
          ka_min (snd g) \<le> ka_idle (snd g) - int (halted (ka_nodes (snd g)) (ba_launch b @ [(''HALT'', node)]))"
        if "g \<in> set groups" for g
        using above [OF that] ok that by (auto simp: halted_def)
      moreover have "map (leave_group node) (ba_keepalive b) = map (left_group (ba_launch b @ [(''HALT'', node)])) groups"
        using ok by (simp add: left_group_snoc)
      ultimately show ?thesis
        using ok fresh 2 unfolding batch_ok_def step
        by (simp add: e deadline_of_def command_of_def subset_insertI2)
    qed
  qed
qed

lemma process_unknown: "ba_unknown b \<Longrightarrow> ba_unknown (fold (process_node t) es b)"
  by (induction es arbitrary: b) (simp_all add: process_node_def split_beta)

lemma process_nodes_ok:
  assumes "distinct (map fst entries)" "fst ` set entries \<inter> fst ` set running = {}"
    and "\<not> ba_unknown (fold (process_node t) entries b)"
    and "b = \<lparr>ba_process = [], ba_keepalive = groups, ba_running = running, ba_removed = [], ba_launch = [],
      ba_unknown = False, ba_db = w\<rparr>"
  shows "batch_ok groups running (get_date w + t) entries (fold (process_node t) entries b) \<and>
    get_date (ba_db (fold (process_node t) entries b)) = get_date w"
  using assms(1-3)
proof (induction entries rule: rev_induct)
  case Nil
  thus ?case by (simp add: assms(4) batch_ok_def halted_def left_group_def map_idI)
next
  case (snoc e es)
  let ?b = "fold (process_node t) es b"
  have "\<not> ba_unknown ?b" using snoc.prems(3) process_unknown [of ?b t "[e]"] by auto
  hence "batch_ok groups running (get_date (ba_db ?b) + t) es ?b" "get_date (ba_db ?b) = get_date w"
    using snoc by auto
  thus ?case
    using process_node_ok [of groups running ?b t es e] snoc.prems by auto
qed

section \<open>A turn\<close>

lemma fold_del: "fold_res del_res ks al = Inr al' \<Longrightarrow> al' = fold AList.delete ks al"
  by (induction ks arbitrary: al) (auto simp: del_res_def res_simps split: if_splits)

lemma map_of_fold_update:
  assumes "distinct (map fst P)"
  shows "map_of (fold (\<lambda>(node, c). AList.update node c) P al) n =
     (case map_of P n of None \<Rightarrow> map_of al n | Some c \<Rightarrow> Some c)"
  using assms
proof (induction P arbitrary: al)
  case (Cons p P)
  obtain k c where p: "p = (k, c)" by fastforce
  have "map_of P k = None" using Cons.prems by (simp add: p map_of_eq_None_iff)
  thus ?case
    using Cons.IH [of "AList.update k c al"] Cons.prems by (cases "n = k") (simp_all add: p update_conv' split: option.split)
qed simp

lemma distinct_fold_update:
  "distinct (map fst al) \<Longrightarrow> distinct (map fst (fold (\<lambda>(node, c). AList.update node c) P al))"
  by (induction P arbitrary: al) (auto simp: split_beta)

definition new_executors :: "int \<Rightarrow> nat \<Rightarrow> (string \<times> string) list \<Rightarrow> node_executor list" where
  "new_executors now k commands =
     map (\<lambda>(i, cmd, node). \<lparr>ne_id = i, ne_node = node, ne_cmd = cmd, ne_date = now\<rparr>) (enumerate k commands)"

lemma new_executors_simps [simp]:
  "new_executors now k [] = []"
  "new_executors now k (c # cs) = \<lparr>ne_id = k, ne_node = snd c, ne_cmd = fst c, ne_date = now\<rparr> # new_executors now (Suc k) cs"
  by (simp_all add: new_executors_def split_beta)

lemma halts_new_executors [simp]:
  "halts (new_executors now k commands) = map snd (filter (\<lambda>(cmd, node). cmd = ''HALT'') commands)"
  by (induction commands arbitrary: k) auto

lemma new_executors_ids: "x \<in> set (new_executors now k commands) \<Longrightarrow> k \<le> ne_id x \<and> ne_id x < k + length commands"
  by (auto simp: new_executors_def in_set_enumerate_eq)

lemma new_executors_nodes: "ne_node ` set (new_executors now k commands) = snd ` set commands"
  by (induction commands arbitrary: k) auto

lemma halts_new_subset: "set (halts (new_executors now k commands)) \<subseteq> snd ` set commands"
  by auto

lemma launch_commands_steps:
  assumes "launch_commands timeouts max_cycles P h w = Inr (r, h', w')" "r \<noteq> Some Unknown_command"
    and "distinct (map fst P)" "fst ` set P \<inter> fst ` set (hu_running h) = {}"
  obtains b deadline now where "batch_ok (hu_keepalive h) (hu_running h) deadline P b"
    and "hu_running h' = fold (\<lambda>(node, c). AList.update node c) (fold AList.delete (ba_removed b) (ba_process b)) (hu_running h)"
    and "hu_remind h' = hu_remind h"
    and "hu_executors h' = hu_executors h @ new_executors now (hu_next h) (ba_launch b)"
    and "hu_next h' = hu_next h + length (ba_launch b)"
proof -
  obtain t where t: "get_timeout timeouts (int (length (hu_running h) + length P)) = Inr t"
    using assms(1) by (auto simp: launch_commands_def res_simps)
  define b0 where "b0 = \<lparr>ba_process = [], ba_keepalive = hu_keepalive h, ba_running = hu_running h, ba_removed = [],
    ba_launch = [], ba_unknown = False, ba_db = w\<rparr>"
  define b where "b = fold (process_node t) P b0"
  have known: "\<not> ba_unknown b"
    using assms(1,2) t by (auto simp: launch_commands_def b_def b0_def Let_def split: if_splits)
  have ok: "batch_ok (hu_keepalive h) (hu_running h) (get_date w + t) P b"
    using process_nodes_ok [OF assms(3,4), of t b0] known by (simp add: b_def b0_def)
  obtain P1 where P1: "fold_res del_res (ba_removed b) (ba_process b) = Inr P1"
    and rest: "(let (h1, w1) = (if ba_launch b = [] then (h, ba_db b) else add_commands_toLaunch (ba_launch b) (h, ba_db b));
           h2 = h1\<lparr>hu_keepalive := ba_keepalive b,
             hu_running := fold (\<lambda>(node, c). AList.update node c) P1 (ba_running b),
             hu_cycles := hu_cycles h + 1\<rparr> in
       Inr (if hu_cycles h2 \<ge> max_cycles then Some (Refresh (hu_running h2) (hu_remind h2)) else None, h2, w1)) =
      (Inr (r, h', w') :: (hulot_exit option \<times> hulot_state \<times> db) res)"
    using assms(1) known t by (auto simp: launch_commands_def b_def b0_def Let_def res_simps split: if_splits)
  have "hu_running h' = fold (\<lambda>(node, c). AList.update node c) P1 (ba_running b) \<and> hu_remind h' = hu_remind h \<and>
    hu_executors h' = hu_executors h @ new_executors (get_date (ba_db b)) (hu_next h) (ba_launch b) \<and>
    hu_next h' = hu_next h + length (ba_launch b)"
    using rest by (auto simp: add_commands_toLaunch_def new_executors_def Let_def split: if_splits)
  moreover have "P1 = fold AList.delete (ba_removed b) (ba_process b)" by (rule fold_del [OF P1])
  ultimately show thesis using that [OF ok] ok by (simp add: batch_ok_def)
qed

lemma halting_key: "halting running n \<Longrightarrow> n \<in> fst ` set running"
  by (auto simp: halting_def dest!: map_of_SomeD intro: rev_image_eqI)

lemma launch_commands_keeps:
  assumes "launch_commands timeouts max_cycles P h w = Inr (r, h', w')" "r \<noteq> Some Unknown_command"
    and "distinct (map fst P)" "fst ` set P \<inter> fst ` set (hu_running h) = {}" "hulot_ok h"
  obtains now commands where "hulot_ok h'" "hu_remind h' = hu_remind h"
    and "hu_executors h' = hu_executors h @ new_executors now (hu_next h) commands"
    and "hu_next h \<le> hu_next h'" "snd ` set commands \<subseteq> fst ` set P"
    and "\<And>n. n \<notin> fst ` set P \<Longrightarrow> map_of (hu_running h') n = map_of (hu_running h) n"
proof -
  obtain b deadline now where b: "batch_ok (hu_keepalive h) (hu_running h) deadline P b"
    and running: "hu_running h' = fold (\<lambda>(node, c). AList.update node c) (fold AList.delete (ba_removed b) (ba_process b)) (hu_running h)"
    and rest: "hu_remind h' = hu_remind h"
      "hu_executors h' = hu_executors h @ new_executors now (hu_next h) (ba_launch b)"
      "hu_next h' = hu_next h + length (ba_launch b)"
    by (rule launch_commands_steps [OF assms(1-4)])
  have keys: "map fst (ba_process b) = map fst P" "distinct (map fst (ba_process b))"
    using b assms(3) by (simp_all add: batch_ok_def comp_def)
  let ?P = "fold AList.delete (ba_removed b) (ba_process b)"
  have "distinct (map fst ?P)" by (rule distinct_fold_delete [OF keys(2)])
  hence run: "map_of (hu_running h') n = (case map_of ?P n of None \<Rightarrow> map_of (hu_running h) n | Some c \<Rightarrow> Some c)" for n
    unfolding running by (rule map_of_fold_update)
  have outside: "map_of (hu_running h') n = map_of (hu_running h) n" if "n \<notin> fst ` set P" for n
  proof -
    have "map_of (ba_process b) n = None" using that keys(1) by (metis list.set_map map_of_eq_None_iff)
    thus ?thesis by (simp add: run map_of_fold_delete)
  qed
  have launch: "(''HALT'', n) \<in> set (ba_launch b) \<Longrightarrow> halting (hu_running h') n" for n
  proof -
    assume n: "(''HALT'', n) \<in> set (ba_launch b)"
    then obtain e where e: "e \<in> set P" "(''HALT'', n) = command_of e" using b by (auto simp: batch_ok_def)
    hence "deadline_of deadline e \<in> set (ba_process b)" using b by (simp add: batch_ok_def)
    moreover have "deadline_of deadline e = (n, ''HALT'', snd (snd e))"
      using e(2) by (cases e) (simp add: command_of_def deadline_of_def)
    ultimately have "map_of (ba_process b) n = Some (''HALT'', snd (snd e))"
      using keys(2) by (simp add: map_of_is_SomeI)
    moreover have "set (ba_removed b) \<inter> snd ` set (ba_launch b) = {}" using b by (simp add: batch_ok_def)
    hence "n \<notin> set (ba_removed b)" using n by (metis IntI empty_iff image_eqI snd_conv)
    ultimately show ?thesis by (simp add: halting_def run map_of_fold_delete)
  qed
  have snd_launch: "snd ` set (ba_launch b) \<subseteq> fst ` set P"
    using b image_mono [of "set (ba_launch b)" "command_of ` set P" snd]
    by (simp add: batch_ok_def image_image command_of_def)
  have "set (halts (hu_executors h)) \<subseteq> fst ` set (hu_running h)"
    using assms(5) by (auto simp: hulot_ok_def list_all_iff intro: halting_key)
  hence apart: "fst ` set P \<inter> set (halts (hu_executors h)) = {}" using assms(4) by blast
  have launch_distinct: "distinct (map snd (filter (\<lambda>(cmd, node). cmd = ''HALT'') (ba_launch b)))"
    using b by (simp add: batch_ok_def distinct_map_filter)
  have launch_set: "set (map snd (filter (\<lambda>(cmd, node). cmd = ''HALT'') (ba_launch b))) \<subseteq> fst ` set P"
    using snd_launch by auto
  have "distinct (halts (hu_executors h'))"
    using assms(5) launch_distinct launch_set apart
    unfolding rest halts_simps halts_new_executors hulot_ok_def distinct_append by blast
  moreover have "halting (hu_running h') n" if "n \<in> set (halts (hu_executors h))" for n
  proof -
    have "n \<notin> fst ` set P" using that apart by blast
    moreover have "halting (hu_running h) n" using that assms(5) by (simp add: hulot_ok_def list_all_iff)
    ultimately show ?thesis using halting_cong [OF outside] by blast
  qed
  moreover have "distinct (map fst (hu_running h'))"
    unfolding running using assms(5) by (intro distinct_fold_update) (simp add: hulot_ok_def)
  moreover have "list_all (\<lambda>x. ne_id x < hu_next h') (hu_executors h')"
    using assms(5) by (auto simp: rest hulot_ok_def list_all_iff dest!: new_executors_ids)
  ultimately have "hulot_ok h'"
    using launch by (auto simp: hulot_ok_def list_all_iff rest(2))
  thus thesis using that [of now "ba_launch b"] rest outside snd_launch by simp
qed

lemma handle_message_steps:
  assumes "handle_message Q timeouts max_cycles (Some command, nodes) h w = Inr (r, h', w')"
    and "distinct (map fst (hu_running h))"
  obtains groups P remind running w1 gone where
    "launch_commands timeouts max_cycles P
       (h\<lparr>hu_running := running, hu_remind := remind, hu_keepalive := groups\<rparr>) w1 = Inr (r, h', w')"
    and "distinct (map fst P)" "fst ` set P \<inter> fst ` set running = {}"
    and "list_all2 (refreshed Q w) (hu_keepalive h) groups" "fst ` set (hu_remind h) \<subseteq> fst ` set remind"
    and "running = fold AList.delete gone (hu_running h)"
    and "set gone \<subseteq> {n. \<exists>t. (n, ''WAKEUP'', t) \<in> set (hu_running h)}"
proof -
  obtain groups woken up where groups: "fold_res (check_group Q (hu_running h) w) (hu_keepalive h) ([], []) = Inr (groups, woken)"
    and up: "Q state_alive w = Inr up"
    using assms(1) by (auto simp: handle_message_def res_simps)
  obtain gone ns w1 where boot: "fold (check_booting up) (hu_running h) ([], nodes, w) = (gone, ns, w1)"
    by (metis prod_cases3)
  define running where "running = fold AList.delete gone (hu_running h)"
  obtain P remind where rcv: "fold (receive_node command running) ns
      (check_reminded_list running (hu_remind h) woken, hu_remind h) = (P, remind)" by fastforce
  have keys: "n \<in> fst ` set running \<Longrightarrow> n \<in> fst ` set (hu_running h)" for n
    using image_mono [OF set_fold_delete [of gone "hu_running h"], of fst] unfolding running_def by blast
  have launch: "launch_commands timeouts max_cycles P
       (h\<lparr>hu_running := running, hu_remind := remind, hu_keepalive := groups\<rparr>) w1 = Inr (r, h', w')"
    using assms(1) by (simp add: handle_message_def groups up boot rcv flip: running_def)
  have "fst ` set woken \<inter> fst ` set (hu_running h) = {}" "distinct (map fst woken)"
    using check_groups_keys [OF groups] by simp_all
  moreover have "fst ` set P \<subseteq> fst ` set woken \<union> - fst ` set running"
    using receive_keys(1) [OF rcv] reminded_keys(1) [of running "hu_remind h" woken] by blast
  ultimately have "fst ` set P \<inter> fst ` set running = {}" using keys by blast
  moreover have "distinct (map fst P)"
    using receive_keys(2) [OF rcv] reminded_keys(2) \<open>distinct (map fst woken)\<close> by blast
  moreover have "list_all2 (refreshed Q w) (hu_keepalive h) groups" using check_groups_refreshed [OF groups] by simp
  moreover have "set gone \<subseteq> {n. \<exists>t. (n, ''WAKEUP'', t) \<in> set (hu_running h)}"
    using check_booting_removes [OF boot] by simp
  ultimately show thesis using that [OF launch] receive_keys(3) [OF rcv] running_def by blast
qed

text \<open>A turn keeps the state well formed; the commands that are not halts to check are those of the message.\<close>

lemma handle_message_keeps:
  assumes "handle_message Q timeouts max_cycles (Some command, nodes) h w = Inr (r, h', w')"
    and "r \<noteq> Some Unknown_command" "hulot_ok h"
  obtains now commands where "hulot_ok h'" "fst ` set (hu_remind h) \<subseteq> fst ` set (hu_remind h')"
    and "hu_executors h' = hu_executors h @ new_executors now (hu_next h) commands" "hu_next h \<le> hu_next h'"
    and "\<And>n. halting (hu_running h) n \<Longrightarrow> n \<notin> snd ` set commands \<and> halting (hu_running h') n"
proof -
  have dist: "distinct (map fst (hu_running h))" using assms(3) by (simp add: hulot_ok_def)
  obtain groups P remind running w1 gone where
    launch: "launch_commands timeouts max_cycles P
       (h\<lparr>hu_running := running, hu_remind := remind, hu_keepalive := groups\<rparr>) w1 = Inr (r, h', w')"
    and P: "distinct (map fst P)" "fst ` set P \<inter> fst ` set running = {}"
    and remind: "fst ` set (hu_remind h) \<subseteq> fst ` set remind"
    and running: "running = fold AList.delete gone (hu_running h)"
    and gone: "set gone \<subseteq> {n. \<exists>t. (n, ''WAKEUP'', t) \<in> set (hu_running h)}"
    by (rule handle_message_steps [OF assms(1) dist])
  let ?h = "h\<lparr>hu_running := running, hu_remind := remind, hu_keepalive := groups\<rparr>"
  have halting: "halting running n" if "halting (hu_running h) n" for n
  proof -
    have "n \<notin> set gone"
      using gone that dist by (auto simp: halting_def dest!: subsetD map_of_SomeD dest: eq_key_imp_eq_value)
    thus ?thesis using that by (simp add: halting_def running map_of_fold_delete)
  qed
  have "hulot_ok ?h"
    using assms(3) halting by (simp add: hulot_ok_def list_all_iff running distinct_fold_delete)
  then obtain now commands where h': "hulot_ok h'" "hu_remind h' = hu_remind ?h"
     "hu_executors h' = hu_executors ?h @ new_executors now (hu_next ?h) commands" "hu_next ?h \<le> hu_next h'"
     "snd ` set commands \<subseteq> fst ` set P"
     "\<And>n. n \<notin> fst ` set P \<Longrightarrow> map_of (hu_running h') n = map_of (hu_running ?h) n"
    using launch_commands_keeps [OF launch assms(2) P(1) _ , of thesis] P(2) by auto
  have "n \<notin> snd ` set commands \<and> halting (hu_running h') n" if "halting (hu_running h) n" for n
  proof -
    have n: "n \<notin> fst ` set P" using halting_key [OF halting [OF that]] P(2) by blast
    hence "map_of (hu_running h') n = map_of running n" using h'(6) by simp
    thus ?thesis using n h'(5) halting [OF that] halting_cong by blast
  qed
  thus thesis using that [OF h'(1)] h'(2-4) remind by simp
qed

text \<open>
  C13. Hulot keeps its promise to the groups of \<open>ENERGY_SAVING_NODES_KEEPALIVE\<close>: whatever is asked and whatever it
  remembers, one message halts at most as many nodes of a group as there are idle nodes alive beyond the number
  to keep.
\<close>

theorem hulot_keeps_alive:
  assumes "handle_message Q timeouts max_cycles (Some command, nodes) h w = Inr (r, h', w')"
    and "r \<noteq> Some Unknown_command" "hulot_ok h"
    and "(properties, info) \<in> set (hu_keepalive h)" "Q properties w = Inr members"
    and "Q (alive_condition properties) w = Inr alive_nodes"
  shows "int (length (filter (\<lambda>n. n \<in> set members) (halts (drop (length (hu_executors h)) (hu_executors h'))))) \<le>
     max 0 (int (length (filter (\<lambda>n. n \<notin> set (get_alive_nodes_with_jobs w)) alive_nodes)) - ka_min info)"
proof -
  have dist: "distinct (map fst (hu_running h))" using assms(3) by (simp add: hulot_ok_def)
  obtain groups P remind running w1 gone where
    launch: "launch_commands timeouts max_cycles P
       (h\<lparr>hu_running := running, hu_remind := remind, hu_keepalive := groups\<rparr>) w1 = Inr (r, h', w')"
    and P: "distinct (map fst P)" "fst ` set P \<inter> fst ` set running = {}"
    and groups: "list_all2 (refreshed Q w) (hu_keepalive h) groups"
    by (rule handle_message_steps [OF assms(1) dist])
  obtain b deadline now where b: "batch_ok groups running deadline P b"
    and h': "hu_executors h' = hu_executors h @ new_executors now (hu_next h) (ba_launch b)"
    by (rule launch_commands_steps [OF launch assms(2) P(1)]) (use P(2) in simp_all)
  obtain g where g: "g \<in> set groups" "refreshed Q w (properties, info) g"
    using groups assms(4) by (metis in_set_conv_nth list_all2_conv_all_nth nth_mem)
  have "ka_nodes (snd g) = members" "ka_min (snd g) = ka_min info"
    "ka_idle (snd g) = int (length (filter (\<lambda>n. n \<notin> set (get_alive_nodes_with_jobs w)) alive_nodes))"
    using g(2) assms(5,6) by (auto simp: refreshed_def)
  moreover have "length (filter (\<lambda>n. n \<in> set members) (map snd (filter (\<lambda>(cmd, node). cmd = ''HALT'') l))) =
      halted members l" for l
    by (induction l) (auto simp: halted_def)
  ultimately show ?thesis using b g(1) by (auto simp: h' batch_ok_def)
qed

section \<open>A halt that failed\<close>

inductive hulot_runs ::
    "(string \<Rightarrow> db \<Rightarrow> string list res) \<Rightarrow> (int \<times> int) list \<Rightarrow> int \<Rightarrow> int \<Rightarrow> hulot_state \<Rightarrow> hulot_state \<Rightarrow> bool"
  for Q timeouts max_cycles max_duration where
  start: "hulot_runs Q timeouts max_cycles max_duration h h"
| turn: "hulot_runs Q timeouts max_cycles max_duration h h1 \<Longrightarrow>
    hulot_turn Q timeouts max_cycles max_duration status wait (Some command, nodes) h1 w = Inr (None, h2, w2) \<Longrightarrow>
    hulot_runs Q timeouts max_cycles max_duration h h2"

lemma hulot_turn_keeps:
  assumes "hulot_turn Q timeouts max_cycles max_duration status wait (Some command, nodes) h w = Inr (r, h', w')"
    and "r \<noteq> Some Unknown_command" "hulot_ok h"
  obtains kept running w1 now commands where
    "check_executors status max_duration (hu_executors h) (hu_running h, w) = Inr (kept, running, w1)"
    and "set kept \<subseteq> set (hu_executors h)" "hulot_ok h'" "hu_next h \<le> hu_next h'"
    and "hu_executors h' = kept @ new_executors now (hu_next h) commands"
    and "\<And>n. halting running n \<Longrightarrow> n \<notin> snd ` set commands \<and> halting (hu_running h') n"
    and "\<And>n. n \<notin> set (halts (hu_executors h)) \<Longrightarrow> halting (hu_running h) n \<Longrightarrow> halting running n"
    and "fst ` set (hu_remind h) \<subseteq> fst ` set (hu_remind h')"
proof -
  obtain kept running w1 where
    check: "check_executors status max_duration (hu_executors h) (hu_running h, w) = Inr (kept, running, w1)" and
    msg: "handle_message Q timeouts max_cycles (Some command, nodes) (h\<lparr>hu_executors := kept, hu_running := running\<rparr>)
       (wait w1) = Inr (r, h', w')"
    using assms(1) by (auto simp: hulot_turn_def res_simps)
  have k: "set kept \<subseteq> set (hu_executors h)" "distinct (halts kept)" "list_all (halting running) (halts kept)"
    "\<And>n. n \<notin> set (halts (hu_executors h)) \<Longrightarrow> map_of running n = map_of (hu_running h) n"
    "distinct (map fst running)"
    using check_executors_running [OF check] assms(3) by (auto simp: hulot_ok_def)
  have "hulot_ok (h\<lparr>hu_executors := kept, hu_running := running\<rparr>)"
    using k assms(3) by (auto simp: hulot_ok_def list_all_iff)
  from handle_message_keeps [OF msg assms(2) this] obtain now commands where m: "hulot_ok h'"
    "fst ` set (hu_remind h) \<subseteq> fst ` set (hu_remind h')" "hu_executors h' = kept @ new_executors now (hu_next h) commands"
    "hu_next h \<le> hu_next h'" "\<And>n. halting running n \<Longrightarrow> n \<notin> snd ` set commands \<and> halting (hu_running h') n"
    by simp metis
  have "halting running n" if "n \<notin> set (halts (hu_executors h))" "halting (hu_running h) n" for n
    using k(4) [OF that(1)] that(2) by (simp add: halting_def)
  thus thesis using that [OF check k(1) m(1,4,3,5) _ m(2)] by blast
qed

definition blocked_node :: "nat \<Rightarrow> string \<Rightarrow> hulot_state \<Rightarrow> bool" where
  "blocked_node k n h \<longleftrightarrow> hulot_ok h \<and> k \<le> hu_next h \<and> halting (hu_running h) n \<and> n \<notin> set (halts (hu_executors h)) \<and>
     (\<forall>x \<in> set (hu_executors h). ne_node x = n \<longrightarrow> ne_id x < k)"

lemma blocked_turn:
  assumes "hulot_turn Q timeouts max_cycles max_duration status wait (Some command, nodes) h w = Inr (None, h', w')"
    and "blocked_node k n h"
  shows "blocked_node k n h'"
proof -
  obtain kept running w1 now commands where
    kept: "set kept \<subseteq> set (hu_executors h)" and h': "hulot_ok h'" "hu_next h \<le> hu_next h'"
      "hu_executors h' = kept @ new_executors now (hu_next h) commands"
    and n: "\<And>n. halting running n \<Longrightarrow> n \<notin> snd ` set commands \<and> halting (hu_running h') n"
      "\<And>n. n \<notin> set (halts (hu_executors h)) \<Longrightarrow> halting (hu_running h) n \<Longrightarrow> halting running n"
    by (rule hulot_turn_keeps [OF assms(1)]) (use assms(2) in \<open>auto simp: blocked_node_def\<close>)
  have now: "n \<notin> snd ` set commands" "halting (hu_running h') n"
    using n assms(2) by (auto simp: blocked_node_def)
  have "n \<notin> set (halts kept)" using kept assms(2) by (auto simp: blocked_node_def halts_def)
  moreover have "n \<notin> set (halts (new_executors now (hu_next h) commands))" using now(1) halts_new_subset by blast
  moreover have "ne_node x \<noteq> n" if "x \<in> set (new_executors now (hu_next h) commands)" for x
    using that now(1) new_executors_nodes [of now "hu_next h" commands] by blast
  ultimately show ?thesis
    using h' now(2) assms(2) kept by (auto simp: blocked_node_def)
qed

lemma failed_check_keeps:
  assumes "check_executors status d xs (running, w) = Inr (kept, running', w')" "distinct (halts xs)"
    and "distinct (map ne_id xs)" "x \<in> set xs" "ne_cmd x = ''HALT''" "status (ne_id x) = Ready (Inr c)" "c \<noteq> 0"
  shows "map_of running' (ne_node x) = map_of running (ne_node x) \<and> ne_node x \<notin> set (halts kept)"
  using assms
proof (induction xs arbitrary: running w kept running' w')
  case (Cons y xs)
  from Cons.prems(1) obtain gone r1 w1 kept1 where
    y: "check_executor status d y (running, w) = Inr (gone, r1, w1)" and
    xs: "check_executors status d xs (r1, w1) = Inr (kept1, running', w')" and
    kept: "kept = (if gone then kept1 else y # kept1)"
    by (auto simp: res_simps split: if_splits)
  show ?case
  proof (cases "y = x")
    case True
    hence "gone" "r1 = running" using y Cons.prems(5-7) by (auto simp: check_executor_def)
    moreover have away: "ne_node x \<notin> set (halts xs)" using True Cons.prems(2,5) by simp
    have "map_of running' n = map_of r1 n \<and> set kept1 \<subseteq> set xs" if "n \<notin> set (halts xs)" for n
      using xs that
    proof (induction xs arbitrary: r1 w1 kept1)
      case (Cons z zs)
      then obtain gone2 r2 w2 kept2 where
        z: "check_executor status d z (r1, w1) = Inr (gone2, r2, w2)" and
        zs: "check_executors status d zs (r2, w2) = Inr (kept2, running', w')" and
        k: "kept1 = (if gone2 then kept2 else z # kept2)"
        by (auto simp: res_simps split: if_splits)
      have "n \<notin> set (halts zs)" using Cons.prems(2) by (simp split: if_splits)
      moreover have "map_of r2 n = map_of r1 n"
        using check_executor_running [OF z] Cons.prems(2) by (auto split: if_splits)
      ultimately show ?case using Cons.IH [OF zs] by (auto simp: k)
    qed simp
    note this [OF away]
    ultimately show ?thesis using away by (auto simp: kept halts_def)
  next
    case False
    hence x: "x \<in> set xs" using Cons.prems(4) by simp
    hence "ne_node x \<in> set (halts xs)" using Cons.prems(5) by (auto simp: halts_def)
    hence other: "ne_cmd y = ''HALT'' \<Longrightarrow> ne_node y \<noteq> ne_node x" using Cons.prems(2) by auto
    have "map_of r1 (ne_node x) = map_of running (ne_node x)"
      using check_executor_running [OF y] other by auto
    moreover have "distinct (halts xs)" using Cons.prems(2) by (simp split: if_splits)
    ultimately show ?thesis
      using Cons.IH [OF xs _ _ x Cons.prems(5-7)] Cons.prems(3) other by (auto simp: kept)
  qed
qed simp

text \<open>
  C34. A node whose halt failed is lost: the command stays among those that run, since only a success or a
  timeout removes it, and however many messages follow, no command for the node is ever launched again,
  neither a halt nor the wake-up that a job waits for.
\<close>

theorem failed_halt_blocks_node:
  assumes "hulot_ok h" "distinct (map ne_id (hu_executors h))"
    and "x \<in> set (hu_executors h)" "ne_cmd x = ''HALT''" "status (ne_id x) = Ready (Inr c)" "c \<noteq> 0"
    and "hulot_turn Q timeouts max_cycles max_duration status wait (Some command, nodes) h w = Inr (None, h1, w1)"
    and "hulot_runs Q timeouts max_cycles max_duration h1 h2"
  shows "ne_node x \<in> fst ` set (hu_running h2) \<and>
     (\<forall>y \<in> set (hu_executors h2). ne_node y = ne_node x \<longrightarrow> ne_id y < hu_next h)"
proof -
  let ?n = "ne_node x"
  obtain kept running w' now commands where
    check: "check_executors status max_duration (hu_executors h) (hu_running h, w) = Inr (kept, running, w')" and
    kept: "set kept \<subseteq> set (hu_executors h)" and h1: "hulot_ok h1" "hu_next h \<le> hu_next h1"
      "hu_executors h1 = kept @ new_executors now (hu_next h) commands" and
    after: "\<And>n. halting running n \<Longrightarrow> n \<notin> snd ` set commands \<and> halting (hu_running h1) n"
    by (rule hulot_turn_keeps [OF assms(7) _ assms(1)]) (simp, (rule that; assumption))
  have "distinct (halts (hu_executors h))" using assms(1) by (simp add: hulot_ok_def)
  from failed_check_keeps [OF check this assms(2-6)] have
    same: "map_of running ?n = map_of (hu_running h) ?n" and away: "?n \<notin> set (halts kept)" by blast+
  have "?n \<in> set (halts (hu_executors h))" using assms(3,4) by (auto simp: halts_def)
  hence "halting running ?n" using same assms(1) by (auto simp: hulot_ok_def list_all_iff halting_def)
  note now = after [OF this]
  have "?n \<notin> set (halts (new_executors now (hu_next h) commands))" using now halts_new_subset by blast
  hence "?n \<notin> set (halts (hu_executors h1))" using away by (simp only: h1(3) halts_simps set_append Un_iff) simp
  moreover have "ne_id y < hu_next h" if "y \<in> set (hu_executors h1)" "ne_node y = ?n" for y
  proof -
    have "y \<notin> set (new_executors now (hu_next h) commands)"
      using that(2) now new_executors_nodes [of now "hu_next h" commands] by (metis image_eqI)
    hence "y \<in> set (hu_executors h)" using that(1) kept unfolding h1(3) set_append by blast
    thus ?thesis using assms(1) unfolding hulot_ok_def list_all_iff by blast
  qed
  ultimately have "blocked_node (hu_next h) ?n h1"
    using h1(1,2) now unfolding blocked_node_def by blast
  with assms(8) have "blocked_node (hu_next h) ?n h2"
    by (induction rule: hulot_runs.induct) (auto intro: blocked_turn)
  thus ?thesis using halting_key by (auto simp: blocked_node_def)
qed

section \<open>When a turn returns\<close>

definition known :: "node_commands \<Rightarrow> bool" where
  "known P \<longleftrightarrow> list_all (\<lambda>(node, cmd, timeout). cmd = ''HALT'' \<or> cmd = ''WAKEUP'') P"

lemma known_update: "known P \<Longrightarrow> c = ''HALT'' \<or> c = ''WAKEUP'' \<Longrightarrow> known (AList.update k (c, t) P)"
  by (induction P) (auto simp: known_def)

lemma known_wake: "known P \<Longrightarrow> known (wake_nodes can_wake running k ns P)"
  by (induction can_wake running k ns P rule: wake_nodes.induct) (simp_all add: known_update)

lemma known_reminded: "known P \<Longrightarrow> known R \<Longrightarrow> known (check_reminded_list running R P)"
proof -
  have "known P \<Longrightarrow> known R \<Longrightarrow> known (fold (\<lambda>(node, cmd, timeout) p. AList.update node (cmd, - 1) p) R P)" for R
    by (induction R arbitrary: P) (auto simp: known_def intro: known_update [unfolded known_def])
  moreover have "known R \<Longrightarrow> known (filter F R)" for F by (auto simp: known_def list_all_iff)
  ultimately show "known P \<Longrightarrow> known R \<Longrightarrow> known (check_reminded_list running R P)"
    unfolding check_reminded_list_def by blast
qed

lemma known_received:
  assumes "known P" "known R" "ns = [] \<or> command = ''HALT'' \<or> command = ''WAKEUP''"
  shows "known (fst (fold (receive_node command running) ns (P, R))) \<and>
    known (snd (fold (receive_node command running) ns (P, R)))"
proof (cases "ns = []")
  case False
  with assms(3) have c: "command = ''HALT'' \<or> command = ''WAKEUP''" by simp
  show ?thesis
    using assms(1,2)
  proof (induction ns arbitrary: P R)
    case (Cons n ns)
    have "known (fst (receive_node command running n (P, R))) \<and> known (snd (receive_node command running n (P, R)))"
      using Cons.prems known_update [OF _ c] by (auto simp: receive_node_def split: option.split)
    thus ?case
      using Cons.IH [of "fst (receive_node command running n (P, R))" "snd (receive_node command running n (P, R))"]
      by simp
  qed simp
qed (use assms in simp)

lemma process_nodes_known:
  "known P \<Longrightarrow> \<not> ba_unknown b \<Longrightarrow> \<not> ba_unknown (fold (process_node t) P b)"
proof (induction P arbitrary: b)
  case (Cons e P)
  have "\<not> ba_unknown (process_node t e b)"
    using Cons.prems by (cases e) (auto simp: known_def process_node_def Let_def)
  moreover have "known P" using Cons.prems(1) by (simp add: known_def)
  ultimately show ?case using Cons.IH by simp
qed simp

lemma process_node_removed:
  "ba_removed (process_node t e b) = ba_removed b \<or>
   ba_removed (process_node t e b) = ba_removed b @ map (\<lambda>g. fst e) (filter (kept_alive (fst e)) (ba_keepalive b))"
  by (cases e) (simp add: process_node_def Let_def)

lemma process_removed_once:
  assumes "distinct (map fst P)" "fst ` set P \<inter> fst ` set running = {}" "known P"
    and one: "\<And>n. length (filter (\<lambda>g. n \<in> set (ka_nodes (snd g))) groups) \<le> 1"
    and b: "b = \<lparr>ba_process = [], ba_keepalive = groups, ba_running = running, ba_removed = [], ba_launch = [],
      ba_unknown = False, ba_db = w\<rparr>"
  shows "distinct (ba_removed (fold (process_node t) P b))"
  using assms(1-3)
proof (induction P rule: rev_induct)
  case Nil
  thus ?case by (simp add: b)
next
  case (snoc e es)
  let ?b = "fold (process_node t) es b"
  have es: "distinct (map fst es)" "fst ` set es \<inter> fst ` set running = {}" "known es"
    using snoc.prems by (auto simp: known_def)
  have "\<not> ba_unknown ?b" by (rule process_nodes_known [OF es(3)]) (simp add: b)
  hence ok: "batch_ok groups running (get_date w + t) es ?b" using process_nodes_ok [OF es(1,2) _ b] by blast
  have "length (filter (kept_alive n) (ba_keepalive ?b)) \<le> 1" for n
  proof -
    have "ba_keepalive ?b = map (left_group (ba_launch ?b)) groups" using ok by (simp add: batch_ok_def)
    hence "length (filter (kept_alive n) (ba_keepalive ?b)) =
        length (filter (\<lambda>g. n \<in> set (ka_nodes (snd g)) \<and> kept_alive n (left_group (ba_launch ?b) g)) groups)"
      by (simp add: filter_map comp_def kept_alive_def left_group_def)
    also have "\<dots> \<le> length (filter (\<lambda>g. n \<in> set (ka_nodes (snd g))) groups)"
      by (induction groups) simp_all
    finally show ?thesis using one [of n] by linarith
  qed
  hence "length (map (\<lambda>g. fst e) (filter (kept_alive (fst e)) (ba_keepalive ?b))) \<le> 1" by simp
  moreover have "length xs \<le> 1 \<Longrightarrow> distinct xs" for xs :: "string list" by (cases xs) auto
  ultimately have one_kept: "distinct (map (\<lambda>g. fst e) (filter (kept_alive (fst e)) (ba_keepalive ?b)))" by blast
  have "set (ba_removed ?b) \<subseteq> fst ` set es" using ok by (simp add: batch_ok_def)
  hence "fst e \<notin> set (ba_removed ?b)" using snoc.prems(1) by auto
  moreover have "set (map (\<lambda>g. fst e) (filter (kept_alive (fst e)) (ba_keepalive ?b))) \<subseteq> {fst e}" by auto
  ultimately have "distinct (ba_removed ?b @ map (\<lambda>g. fst e) (filter (kept_alive (fst e)) (ba_keepalive ?b)))"
    using snoc.IH [OF es] one_kept unfolding distinct_append by blast
  thus ?case
    using snoc.IH [OF es] process_node_removed [of t e ?b] by (simp only: fold_append fold_simps o_apply id_apply) metis
qed

lemma del_all: "distinct ks \<Longrightarrow> set ks \<subseteq> fst ` set al \<Longrightarrow> \<exists>al'. fold_res del_res ks al = Inr al'"
proof (induction ks arbitrary: al)
  case (Cons k ks)
  have "fst ` set (AList.delete k al) = fst ` set al - {k}" by (force simp: AList.delete_eq)
  hence "set ks \<subseteq> fst ` set (AList.delete k al)" using Cons.prems by auto
  thus ?case using Cons.IH [of "AList.delete k al"] Cons.prems by (simp add: del_res_def)
qed simp

lemma check_groups_total:
  assumes "\<And>p. \<exists>ns. Q p w = Inr ns"
  shows "\<exists>r. fold_res (check_group Q running w) groups s = Inr r"
proof (induction groups arbitrary: s)
  case (Cons g groups)
  obtain p i where g: "g = (p, i)" by fastforce
  obtain ns alive_nodes where "Q p w = Inr ns" "Q (alive_condition p) w = Inr alive_nodes" using assms by blast
  then obtain s1 where "check_group Q running w g s = Inr s1"
    by (cases s) (simp add: check_group_def g Let_def del: filter_filter)
  thus ?case using Cons.IH [of s1] by simp
qed simp

lemma check_groups_known:
  "fold_res (check_group Q running w) groups (gs, P) = Inr (gs', P') \<Longrightarrow> known P \<Longrightarrow> known P'"
proof (induction groups arbitrary: gs P)
  case (Cons g groups)
  then obtain gs1 P1 where 1: "check_group Q running w g (gs, P) = Inr (gs1, P1)"
    "fold_res (check_group Q running w) groups (gs1, P1) = Inr (gs', P')"
    by (auto simp: res_simps)
  then obtain can_wake k ns where "P1 = wake_nodes can_wake running k ns P"
    by (auto simp: check_group_def res_simps Let_def split: prod.splits)
  thus ?case using Cons.IH [OF 1(2)] Cons.prems(2) known_wake by blast
qed simp

lemma launch_commands_total:
  assumes "distinct (map fst P)" "fst ` set P \<inter> fst ` set (hu_running h) = {}" "known P" "1 \<in> fst ` set timeouts"
    and one: "\<And>n. length (filter (\<lambda>g. n \<in> set (ka_nodes (snd g))) (hu_keepalive h)) \<le> 1"
  shows "\<exists>r h' w'. launch_commands timeouts max_cycles P h w = Inr (r, h', w') \<and> r \<noteq> Some Unknown_command"
proof -
  obtain t where t: "get_timeout timeouts (int (length (hu_running h) + length P)) = Inr t"
    using assms(4) by (cases "map_of timeouts 1") (auto simp: get_timeout_def map_of_eq_None_iff)
  define b0 where "b0 = \<lparr>ba_process = [], ba_keepalive = hu_keepalive h, ba_running = hu_running h, ba_removed = [],
    ba_launch = [], ba_unknown = False, ba_db = w\<rparr>"
  let ?b = "fold (process_node t) P b0"
  have "\<not> ba_unknown ?b" by (rule process_nodes_known [OF assms(3)]) (simp add: b0_def)
  moreover from this have ok: "batch_ok (hu_keepalive h) (hu_running h) (get_date w + t) P ?b"
    using process_nodes_ok [OF assms(1,2) _ b0_def] by blast
  moreover have "distinct (ba_removed ?b)" by (rule process_removed_once [OF assms(1-3) one b0_def])
  moreover have "set (ba_removed ?b) \<subseteq> fst ` set (ba_process ?b)" using ok by (simp add: batch_ok_def image_image)
  ultimately obtain P1 where "\<not> ba_unknown ?b" "fold_res del_res (ba_removed ?b) (ba_process ?b) = Inr P1"
    using del_all by blast
  thus ?thesis
    unfolding launch_commands_def t res_bind_simps b0_def [symmetric] by (simp add: Let_def split: prod.split)
qed

text \<open>
  C35. When Hulot stops with an exception: a turn returns, leaves a well-formed state and reports no unknown
  command, provided that the commands are \<open>HALT\<close> and \<open>WAKEUP\<close>, that there is a timeout for one node, that the
  queries and the executors answer, and that no node belongs to two groups to keep alive.
\<close>

theorem hulot_turn_returns:
  assumes "hulot_ok h" "known (hu_remind h)" "nodes = [] \<or> command = ''HALT'' \<or> command = ''WAKEUP''"
    and "1 \<in> fst ` set timeouts" "\<forall>p v. \<exists>ns. Q p v = Inr ns"
    and "\<forall>i r. status i = Ready r \<or> status i = Late_ready r \<longrightarrow> (\<exists>c. r = Inr c)"
    and one: "\<forall>v n. length (filter (\<lambda>(p, i). \<exists>ns. Q p v = Inr ns \<and> n \<in> set ns) (hu_keepalive h)) \<le> 1"
  shows "\<exists>r h' w'. hulot_turn Q timeouts max_cycles max_duration status wait (Some command, nodes) h w = Inr (r, h', w') \<and>
     r \<noteq> Some Unknown_command \<and> hulot_ok h'"
proof -
  have "distinct (halts (hu_executors h))" "list_all (halting (hu_running h)) (halts (hu_executors h))"
    using assms(1) by (simp_all add: hulot_ok_def)
  hence "\<exists>r. check_executors status max_duration (hu_executors h) (hu_running h, w) = Inr r"
    by (intro check_executors_total) (use assms(6) in blast)
  then obtain kept running w1 where
    check: "check_executors status max_duration (hu_executors h) (hu_running h, w) = Inr (kept, running, w1)"
    by auto
  let ?w = "wait w1"
  obtain groups woken where groups: "fold_res (check_group Q running ?w) (hu_keepalive h) ([], []) = Inr (groups, woken)"
    using check_groups_total [of Q ?w running "hu_keepalive h" "([], [])"] assms(5) by auto
  obtain up where up: "Q state_alive ?w = Inr up" using assms(5) by blast
  obtain gone ns w2 where boot: "fold (check_booting up) running ([], nodes, ?w) = (gone, ns, w2)"
    by (metis prod_cases3)
  define running1 where "running1 = fold AList.delete gone running"
  obtain P remind where rcv: "fold (receive_node command running1) ns
      (check_reminded_list running1 (hu_remind h) woken, hu_remind h) = (P, remind)" by fastforce
  have "fst ` set running1 \<subseteq> fst ` set running" unfolding running1_def by (intro image_mono set_fold_delete)
  moreover have woken: "fst ` set woken \<inter> fst ` set running = {}" "distinct (map fst woken)" "known woken"
    using check_groups_keys [OF groups] check_groups_known [OF groups] by (simp_all add: known_def)
  moreover have "fst ` set P \<subseteq> fst ` set woken \<union> - fst ` set running1"
    using receive_keys(1) [OF rcv] reminded_keys(1) [of running1 "hu_remind h" woken] by blast
  ultimately have apart: "fst ` set P \<inter> fst ` set running1 = {}" by blast
  have dist: "distinct (map fst P)" using receive_keys(2) [OF rcv] reminded_keys(2) woken(2) by blast
  have "ns = [] \<or> command = ''HALT'' \<or> command = ''WAKEUP''"
    using assms(3) check_booting_removes [OF boot] by auto
  hence "known P"
    using known_received [OF known_reminded [OF woken(3) assms(2)] assms(2), of ns command running1 running1] rcv by simp
  moreover have new: "list_all2 (refreshed Q ?w) (hu_keepalive h) groups" using check_groups_refreshed [OF groups] by simp
  have "length (filter (\<lambda>g. n \<in> set (ka_nodes (snd g))) groups) \<le> 1" for n
  proof -
    have "length (filter (\<lambda>g. n \<in> set (ka_nodes (snd g))) groups) =
        length (filter (\<lambda>(p, i). \<exists>ns. Q p ?w = Inr ns \<and> n \<in> set ns) (hu_keepalive h))"
      using new by induction (auto simp: refreshed_def split_beta)
    thus ?thesis using one by simp
  qed
  ultimately have "\<exists>r h' w'. launch_commands timeouts max_cycles P (h\<lparr>hu_executors := kept, hu_running := running1,
       hu_remind := remind, hu_keepalive := groups\<rparr>) w2 = Inr (r, h', w') \<and> r \<noteq> Some Unknown_command"
    using dist apart assms(4) by (intro launch_commands_total) simp_all
  then obtain r h' w' where
    launch: "launch_commands timeouts max_cycles P (h\<lparr>hu_executors := kept, hu_running := running1, hu_remind := remind,
       hu_keepalive := groups\<rparr>) w2 = Inr (r, h', w')" "r \<noteq> Some Unknown_command" by blast
  have turn: "hulot_turn Q timeouts max_cycles max_duration status wait (Some command, nodes) h w = Inr (r, h', w')"
    using launch(1) by (simp add: hulot_turn_def check handle_message_def groups up boot rcv flip: running1_def)
  hence "hulot_ok h'" by (rule hulot_turn_keeps [OF _ launch(2) assms(1)])
  thus ?thesis using turn launch(2) by blast
qed

section \<open>Examples\<close>

text \<open>Two idle nodes of which one must stay alive, and the request to halt both.\<close>

definition demo_query :: "string \<Rightarrow> db \<Rightarrow> string list res" where
  "demo_query p w = Inr (if p = ''c=1'' \<or> p = alive_condition ''c=1'' \<or> p = state_alive then [''n1'', ''n2''] else [])"

definition demo_hulot :: hulot_state where
  "demo_hulot = start_hulot_state None [(''c=1'', \<lparr>ka_nodes = [], ka_min = 1, ka_idle = 0\<rparr>)]"

definition demo_run :: "(hulot_exit option \<times> hulot_state \<times> db) res" where
  "demo_run = handle_message demo_query [(1, 900)] 5000 (Some ''HALT'', [''n1'', ''n2'']) demo_hulot empty_db"

lemma demo_run_halts:
  "(case demo_run of Inl e \<Rightarrow> False | Inr (r, h, w) \<Rightarrow> r = None \<and> halts (hu_executors h) = [''n1''])"
  by code_simp

theorem hulot_keeps_alive_witness:
  "\<exists>r h' w'. demo_run = Inr (r, h', w') \<and> halts (hu_executors h') = [''n1''] \<and>
     int (length (filter (\<lambda>n. n \<in> set [''n1'', ''n2'']) (halts (drop 0 (hu_executors h'))))) \<le> 1"
proof -
  obtain r h' w' where run: "demo_run = Inr (r, h', w')" "r = None" "halts (hu_executors h') = [''n1'']"
    using demo_run_halts by (auto split: sum.splits prod.splits)
  have bound: "int (length (filter (\<lambda>n. n \<in> set [''n1'', ''n2'']) (halts (drop (length (hu_executors demo_hulot)) (hu_executors h'))))) \<le>
     max 0 (int (length (filter (\<lambda>n. n \<notin> set (get_alive_nodes_with_jobs empty_db)) [''n1'', ''n2''])) -
       ka_min \<lparr>ka_nodes = [], ka_min = 1, ka_idle = 0\<rparr>)"
    using run
    by (intro hulot_keeps_alive [of demo_query "[(1, 900)]" 5000 "''HALT''" "[''n1'', ''n2'']" demo_hulot empty_db r h' w'
          "''c=1''"])
       (simp_all add: demo_run_def demo_hulot_def start_hulot_state_def hulot_ok_def demo_query_def)
  have "get_alive_nodes_with_jobs empty_db = []" by code_simp
  hence one: "max 0 (int (length (filter (\<lambda>n. n \<notin> set (get_alive_nodes_with_jobs empty_db)) [''n1'', ''n2''])) -
       ka_min \<lparr>ka_nodes = [], ka_min = 1, ka_idle = 0\<rparr>) = 1" by simp
  have zero: "length (hu_executors demo_hulot) = 0" by (simp add: demo_hulot_def start_hulot_state_def)
  show ?thesis
    using run(1,3) bound [unfolded one zero] by blast
qed

text \<open>The halt of a node has failed; the wake-up that is asked for is only remembered.\<close>

definition failed_hulot :: hulot_state where
  "failed_hulot = \<lparr>hu_running = [(''n1'', ''HALT'', - 1)], hu_remind = [], hu_keepalive = [],
     hu_executors = [\<lparr>ne_id = 0, ne_node = ''n1'', ne_cmd = ''HALT'', ne_date = 0\<rparr>], hu_next = 1, hu_cycles = 1\<rparr>"

definition failed_run :: "(hulot_exit option \<times> hulot_state \<times> db) res" where
  "failed_run = hulot_turn demo_query [(1, 900)] 5000 120 (\<lambda>i. Ready (Inr 1)) id (Some ''WAKEUP'', [''n1''])
     failed_hulot empty_db"

lemma failed_run_returns:
  "(case failed_run of Inl e \<Rightarrow> False | Inr (r, h, w) \<Rightarrow> r = None \<and> hu_remind h = [(''n1'', ''WAKEUP'', - 1)])"
  by code_simp

theorem failed_halt_blocks_node_witness:
  "\<exists>h1 w1. failed_run = Inr (None, h1, w1) \<and> ''n1'' \<in> fst ` set (hu_running h1) \<and>
     (\<forall>y \<in> set (hu_executors h1). ne_node y = ''n1'' \<longrightarrow> ne_id y < 1)"
proof -
  obtain h1 w1 where run: "failed_run = Inr (None, h1, w1)"
    using failed_run_returns by (auto split: sum.splits prod.splits)
  define x where "x = \<lparr>ne_id = 0, ne_node = ''n1'', ne_cmd = ''HALT'', ne_date = 0\<rparr>"
  have h: "hu_executors failed_hulot = [x]" "hu_next failed_hulot = 1" "ne_node x = ''n1''" "ne_cmd x = ''HALT''"
    "hulot_ok failed_hulot"
    by (simp_all add: x_def failed_hulot_def hulot_ok_def halting_def)
  have turn: "hulot_turn demo_query [(1, 900)] 5000 120 (\<lambda>i. Ready (Inr 1)) id (Some ''WAKEUP'', [''n1''])
     failed_hulot empty_db = Inr (None, h1, w1)"
    using run by (simp add: failed_run_def)
  have "''n1'' \<in> fst ` set (hu_running h1) \<and> (\<forall>y \<in> set (hu_executors h1). ne_node y = ''n1'' \<longrightarrow> ne_id y < 1)"
    using failed_halt_blocks_node [OF h(5) _ _ h(4) _ _ turn hulot_runs.start] h by simp
  thus ?thesis using run by blast
qed

theorem hulot_turn_returns_witness:
  "\<exists>r h' w'. hulot_turn demo_query [(1, 900)] 5000 120 (\<lambda>i. Not_ready) id (Some ''HALT'', [''n1'', ''n2'']) demo_hulot
     empty_db = Inr (r, h', w') \<and> r \<noteq> Some Unknown_command \<and> hulot_ok h'"
  by (rule hulot_turn_returns)
     (simp_all add: demo_hulot_def start_hulot_state_def hulot_ok_def known_def demo_query_def)

text \<open>A node that two groups keep alive ends the process; a wrong pair in the timeouts, too.\<close>

lemma node_of_two_groups:
  "(case handle_message demo_query [(1, 900)] 5000 (Some ''HALT'', [''n1'']) (start_hulot_state None
      [(''c=1'', \<lparr>ka_nodes = [], ka_min = 2, ka_idle = 0\<rparr>), (''state='Alive'' @ [CHR 0x27], \<lparr>ka_nodes = [], ka_min = 2, ka_idle = 0\<rparr>)])
      empty_db of Inl e \<Rightarrow> e = KeyError | Inr r \<Rightarrow> False)"
  by code_simp

lemma wrong_timeout_pair:
  "fill_timeouts (Timeout_str ''x 11:1000'') = Inl UnboundLocalError"
  "fill_timeouts (Timeout_str ''1:500 x'') = Inl TypeError"
  "fill_timeouts (Timeout_str ''1:500 11:1000'') = Inr [(1, 500), (11, 1000)]"
  by code_simp+

lemma reminded_for_ever:
  assumes "hulot_turn Q timeouts max_cycles max_duration status wait (Some command, nodes) h w = Inr (None, h', w')" "hulot_ok h"
  shows "fst ` set (hu_remind h) \<subseteq> fst ` set (hu_remind h')"
  by (rule hulot_turn_keeps [OF assms(1) _ assms(2)]) (simp, assumption)

text \<open>The timeout is the one of the largest bound that the number of nodes reaches.\<close>

lemma timeout_for_sorted:
  assumes "sorted (map fst ts)" "distinct (map fst ts)"
  shows "timeout_for ts n d = (let reached = filter (\<lambda>(nb, t). nb \<le> n) ts in
    if reached = [] then d else snd (last reached))"
  using assms
proof (induction ts arbitrary: d)
  case (Cons p ts)
  obtain nb t where p: "p = (nb, t)" by fastforce
  have "filter (\<lambda>(nb, t). nb \<le> n) ts = []" if "n < nb"
    using that Cons.prems(1) by (fastforce simp: p filter_empty_conv)
  thus ?case using Cons.IH [of t] Cons.prems by (auto simp: p Let_def)
qed simp

end
