(* ===== verification/Spec2Isabelle.thy ===== *)
theory Spec2Isabelle
  imports Scheduling_Props Server_Loop Meta_Props Hulot_Props
begin

text \<open>
  A model of the server of OAR 3, the batch scheduler (\<open>src/oar/\<close>), and the theorems that make it correct.

  OAR is a database and a set of processes that meet in it. \<open>oarsub\<close> (\<open>lib/submission.py\<close>) inserts jobs. Almighty
  (\<open>modules/almighty.py\<close>) receives the notifications of the clients through a proxy and launches the other
  programs one after the other: the metascheduler (\<open>kao/meta_sched.py\<close>), which plans the jobs with Kamelot
  (\<open>kao/kamelot.py\<close>, \<open>kao/scheduling.py\<close>, \<open>kao/slot.py\<close>) and decides which job is launched, killed or resumed;
  \<open>node_change_state\<close>, which reacts to the events; \<open>sarko\<close> and \<open>leon\<close>, which find the jobs at the end of their
  time and kill them; \<open>finaud\<close>, which tests the nodes. The bipbip commander runs one Bipbip per job, which starts
  \<open>oarexec\<close> on the first node and handles its end; Hulot halts and wakes up nodes.

  \<^bold>\<open>Theories.\<close> Definitions bear the names of the functions that they model, and stand in the order of the code.

  \<^item> \<open>Oar_Prelude\<close>: Python exceptions as values (\<open>py_error\<close>, \<open>'a res\<close>), access to lists and dictionaries;
    \<open>Tools\<close>: strings and durations (\<open>lib/tools.py\<close>).
  \<^item> \<open>Procset_Spec\<close>: the interface of the package \<open>procset\<close>; \<open>Jobs\<close>: a job as the schedulers see it.
  \<^item> \<open>Hierarchy\<close>: the search of resources (\<open>lib/hierarchy.py\<close>), proved to return an allocation exactly when one
    exists.
  \<^item> \<open>Quotas\<close>, \<open>Calendar\<close>, \<open>Quotas_Rules\<close>: counters and rules, temporal quotas, and the reading of both
    (\<open>kao/quotas.py\<close>).
  \<^item> \<open>Slots\<close>, \<open>Slot_Sets\<close>: the slot sets (\<open>kao/slot.py\<close>). The chain of slots is the invariant; what is free at an
    instant is the abstraction; splitting for jobs is a refinement of the removal of resources over time.
  \<^item> \<open>Scheduling\<close>, \<open>Scheduling_Correct\<close>, \<open>Scheduling_Props\<close>: the search of a window and the placement of jobs
    (\<open>kao/scheduling.py\<close>).
  \<^item> \<open>Db\<close>, \<open>Events\<close>, \<open>Resources_Db\<close>, \<open>Nodes\<close>: the tables (\<open>lib/models.py\<close>), events and queues
    (\<open>lib/event.py\<close>, \<open>lib/queue.py\<close>), resources and nodes (\<open>lib/resource_handling.py\<close>, \<open>lib/node.py\<close>,
    \<open>modules/finaud.py\<close>), with the invariant of the log of the resources.
  \<^item> \<open>Job_State\<close>, \<open>Job_Life\<close>, \<open>Job_End\<close>: the states of the jobs (\<open>lib/job_handling.py\<close>), the abstract machine
    that specifies them, and the end of a job.
  \<^item> \<open>Killer\<close>: Leon and Sarko; \<open>Node_Change\<close>: \<open>modules/node_change_state.py\<close>.
  \<^item> \<open>Accounting\<close>, \<open>Walltime\<close>: \<open>lib/accounting.py\<close>; \<open>lib/walltime.py\<close> and \<open>kao/walltime_change.py\<close>.
  \<^item> \<open>Resource_Set\<close>, \<open>Gantt\<close>, \<open>Job_Sorting\<close>, \<open>Kamelot\<close>: the resources as the schedulers number them, what they
    load and store, the order of the jobs, and one round of Kamelot over the database.
  \<^item> \<open>Meta_Sched\<close>, \<open>Meta_Life\<close>, \<open>Meta_Props\<close>: the metascheduler.
  \<^item> \<open>Submission\<close>, \<open>Submission_Props\<close>, \<open>Submission_Life\<close>: the submission of jobs.
  \<^item> \<open>Bipbip\<close>, \<open>Bipbip_Props\<close>: the start and the end of a job; \<open>Hulot\<close>, \<open>Hulot_Props\<close>, \<open>Hulot_Life\<close>: the energy
    saving module.
  \<^item> \<open>Almighty\<close>, \<open>Almighty_Props\<close>: the automaton, the proxy and the bipbip commander.
  \<^item> \<open>Server\<close>, \<open>Server_Cases\<close>, \<open>Server_Loop\<close>: the handlers together on the database, in any order, and the
    automaton over it.

  \<^bold>\<open>Groups of lemmas.\<close> The scheduling theorems say that a placed job gets resources that are free for its whole
  walltime, that jobs placed in one run never share a resource at an instant, and that a round over the database
  keeps this and raises nothing. \<open>Job_Life\<close> is the contract on states: a job has one contiguous history, and a job in
  \<open>Terminated\<close> or \<open>Error\<close> stays there; \<open>refines\<close> relates two databases by steps of that machine, each handler has a
  refinement lemma, and \<open>Server\<close> lifts them to everything that the server reaches. For the automaton of Almighty and
  for Hulot there are liveness results: when a queued command is served, and when it never is. Lemmas that show a
  fault of the code say so in their text.

  \<^bold>\<open>Interfaces.\<close> The locale \<open>procset\<close> states the laws of the sets of resources and is interpreted on strictly
  increasing lists (\<open>list_ps\<close>). \<open>resource_finder\<close> states what the search of a window relies on; \<open>Hierarchy\<close> provides
  it (sublocale \<open>hierarchy_finder\<close>). \<open>float_laws\<close> states the monotony of rounded arithmetic, and
  \<open>exact_laws\<close>, which extends it, the strict monotony of exact arithmetic; both are interpreted on the rational numbers
  (\<open>rat_laws\<close>, \<open>rat_exact\<close>).

  \<^bold>\<open>Fuel and termination.\<close> A traversal of a slot set takes fuel and answers \<open>Diverges\<close> without it. One assignment
  needs \<open>2 * last_id + 2\<close>, where \<open>last_id\<close> is the largest identifier of a slot: a search visits each slot at most
  once for its begin and once for its end. A job makes at most three slots of one, so \<open>n\<close> jobs need
  \<open>2 * (3 ^ n * last_id) + 2\<close>, reservations \<open>3 ^ n * last_id\<close>, and a round of Kamelot, which starts from at most
  three slots, \<open>2 * (3 ^ n * 3) + 2\<close>. The theorems assume this much and conclude that a result is returned. The
  loop of the accounting ends only for windows of positive size: it is a \<open>partial_function\<close>, and its return is
  proved.

  \<^bold>\<open>Conventions.\<close> A table is a list of rows in the order of insertion; a primary key is one more than the largest.
  The clock stands still during a handler; between handlers it moves. A command run on a node, a script of the
  administrator, a socket, a random number, a file, a condition or an order given as SQL text and the local time zone
  are parameters. Messages to other processes are a list in the database record. An exception loses what the handler did,
  except in Bipbip, which catches it. The write of \<open>start_time\<close> by the next flush of the session is modelled
  (\<open>flush_start_times\<close>); two names for one row object are not, but where a definition says so. Times in Almighty are
  rational numbers. A value that leaves the type of its column is the result \<open>Unmodelled\<close>.

  \<^bold>\<open>Not modelled.\<close> The command-line tools (\<open>cli/\<close>) and the two web interfaces (\<open>rest_api/\<close>, \<open>api/\<close>) parse, print
  and call the modelled functions; the migrations, archive and benchmark commands and the database layer are
  SQLAlchemy; the proxies of the simulators, the simulators and CoORM speak with other programs; the alternative
  schedulers (\<open>scheduling_basic\<close>, \<open>kamelot_basic\<close>, \<open>kamelot_fifo\<close>) and the alternative searches of
  \<open>custom_scheduling\<close> are not part of the default server; they enter as parameters where the model calls them.
\<close>

end
